(* ===== verification/Prelude.thy ===== *)
theory Prelude
  imports Main "HOL-Library.Char_ord" "HOL-Library.List_Lexorder"
    "HOL-Library.Product_Lexorder"
begin

text \<open>
  Shared vocabulary of the development: effectful operations as state passing functions
  with an error result (\<open>act\<close>), the judgement \<open>outcome\<close> that relates the state before and
  after an operation on every exit (normal or raised), tables of rows with their lookups and
  updates, and the theorem collections the component proofs use.

  \<^item> \<open>ret\<close>, \<open>raise\<close>, \<open>bnd\<close>, \<open>catch\<close>, \<open>finally_do\<close> are Python's return, raise, sequencing,
    \<open>try/except\<close> and \<open>try/finally\<close>; an exception keeps the effects made before it.
  \<^item> \<open>mapA\<close> and \<open>foldA\<close> are the \<open>for\<close> loops over a list.
  \<^item> \<open>outcome R Q w m\<close>: started in \<open>w\<close>, the operation \<open>m\<close> moves the state along \<open>R\<close>, and if it
    returns \<open>v\<close> in \<open>w'\<close> then \<open>Q v w'\<close>. The locale \<open>evolution\<close> holds its composition rules for a
    relation \<open>R\<close> that is reflexive and transitive.
\<close>

named_theorems outcome_intros \<open>outcome rules of single operations\<close>
named_theorems act_simps \<open>running an operation in a state\<close>
named_theorems table_simps \<open>equations about tables\<close>

section \<open>Effectful operations\<close>

type_synonym ('w, 'e, 'a) act = "'w \<Rightarrow> ('e + 'a) \<times> 'w"

definition ret :: "'a \<Rightarrow> ('w, 'e, 'a) act" where
  "ret x = (\<lambda>w. (Inr x, w))"

definition raise :: "'e \<Rightarrow> ('w, 'e, 'a) act" where
  "raise e = (\<lambda>w. (Inl e, w))"

definition bnd :: "('w, 'e, 'a) act \<Rightarrow> ('a \<Rightarrow> ('w, 'e, 'b) act) \<Rightarrow> ('w, 'e, 'b) act" where
  "bnd m f = (\<lambda>w. case m w of (Inl e, w') \<Rightarrow> (Inl e, w') | (Inr x, w') \<Rightarrow> f x w')"

definition catch :: "('w, 'e, 'a) act \<Rightarrow> ('e \<Rightarrow> ('w, 'e, 'a) act) \<Rightarrow> ('w, 'e, 'a) act" where
  "catch m h = (\<lambda>w. case m w of (Inl e, w') \<Rightarrow> h e w' | (Inr x, w') \<Rightarrow> (Inr x, w'))"

text \<open>\<open>finally_do m fin\<close>: \<open>fin\<close> runs on both exits; an error it raises replaces the outcome.\<close>

definition finally_do :: "('w, 'e, 'a) act \<Rightarrow> ('w, 'e, unit) act \<Rightarrow> ('w, 'e, 'a) act" where
  "finally_do m fin = (\<lambda>w. case m w of (x, w') \<Rightarrow>
     (case fin w' of (Inl e, w'') \<Rightarrow> (Inl e, w'') | (Inr _, w'') \<Rightarrow> (x, w'')))"

definition lift_sum :: "'e + 'a \<Rightarrow> ('w, 'e, 'a) act" where
  "lift_sum x = (\<lambda>w. (x, w))"

definition when_do :: "bool \<Rightarrow> ('w, 'e, unit) act \<Rightarrow> ('w, 'e, unit) act" where
  "when_do b m = (if b then m else ret ())"

fun mapA :: "('a \<Rightarrow> ('w, 'e, 'b) act) \<Rightarrow> 'a list \<Rightarrow> ('w, 'e, 'b list) act" where
  "mapA f [] = ret []"
| "mapA f (x # xs) = bnd (f x) (\<lambda>y. bnd (mapA f xs) (\<lambda>ys. ret (y # ys)))"

fun foldA :: "('s \<Rightarrow> 'a \<Rightarrow> ('w, 'e, 's) act) \<Rightarrow> 's \<Rightarrow> 'a list \<Rightarrow> ('w, 'e, 's) act" where
  "foldA f s [] = ret s"
| "foldA f s (x # xs) = bnd (f s x) (\<lambda>s'. foldA f s' xs)"

text \<open>A check on every element, in order, stopping at the first error.\<close>

fun traverse :: "('a \<Rightarrow> 'e + 'b) \<Rightarrow> 'a list \<Rightarrow> 'e + 'b list" where
  "traverse f [] = Inr []"
| "traverse f (x # xs) = (case f x of Inl e \<Rightarrow> Inl e
     | Inr y \<Rightarrow> (case traverse f xs of Inl e \<Rightarrow> Inl e | Inr ys \<Rightarrow> Inr (y # ys)))"

lemma traverse_InrD: "traverse f xs = Inr ys \<Longrightarrow> list_all2 (\<lambda>x y. f x = Inr y) xs ys"
  by (induction xs arbitrary: ys) (auto split: sum.splits)

lemma traverse_total: "(\<And>x. x \<in> set xs \<Longrightarrow> f x = Inr (g x)) \<Longrightarrow> traverse f xs = Inr (map g xs)"
  by (induction xs) auto

lemma traverse_set: "traverse f xs = Inr ys \<Longrightarrow> y \<in> set ys \<Longrightarrow> \<exists>x \<in> set xs. f x = Inr y"
  by (induction xs arbitrary: ys) (auto split: sum.splits)

lemma bnd_ret [simp]: "bnd (ret x) f = f x"
  by (simp add: bnd_def ret_def)

lemma bnd_raise [simp]: "bnd (raise e) f = raise e"
  by (simp add: bnd_def raise_def)

lemma bnd_assoc: "bnd (bnd m f) g = bnd m (\<lambda>x. bnd (f x) g)"
  by (auto simp: bnd_def fun_eq_iff split: prod.splits sum.splits)

lemma ret_apply [act_simps]: "ret x w = (Inr x, w)"
  by (simp add: ret_def)

lemma raise_apply [act_simps]: "raise e w = (Inl e, w)"
  by (simp add: raise_def)

lemma bnd_apply [act_simps]:
  "bnd m f w = (case m w of (Inl e, w') \<Rightarrow> (Inl e, w') | (Inr x, w') \<Rightarrow> f x w')"
  by (simp add: bnd_def)

lemma catch_apply [act_simps]:
  "catch m h w = (case m w of (Inl e, w') \<Rightarrow> h e w' | (Inr x, w') \<Rightarrow> (Inr x, w'))"
  by (simp add: catch_def)

lemma finally_apply [act_simps]:
  "finally_do m fin w = (case m w of (x, w') \<Rightarrow>
     (case fin w' of (Inl e, w'') \<Rightarrow> (Inl e, w'') | (Inr _, w'') \<Rightarrow> (x, w'')))"
  by (simp add: finally_do_def)

lemma lift_sum_simps [simp]: "lift_sum (Inr x) = ret x" "lift_sum (Inl e) = raise e"
  by (simp_all add: lift_sum_def ret_def raise_def)

lemma when_do_simps [simp]: "when_do True m = m" "when_do False m = ret ()"
  by (simp_all add: when_do_def)

lemma bnd_apply_Inr: "m w = (Inr x, w') \<Longrightarrow> bnd m f w = f x w'"
  by (simp add: bnd_def)

lemma bnd_apply_Inl: "m w = (Inl e, w') \<Longrightarrow> bnd m f w = (Inl e, w')"
  by (simp add: bnd_def)

lemma bnd_InrD:
  assumes "bnd m f w = (Inr y, w'')"
  obtains x w' where "m w = (Inr x, w')" "f x w' = (Inr y, w'')"
  using assms by (auto simp: bnd_def split: prod.splits sum.splits)

lemma mapA_length: "mapA f xs w = (Inr ys, w') \<Longrightarrow> length ys = length xs"
  by (induction xs arbitrary: w ys w') (auto simp: act_simps split: prod.splits sum.splits)

section \<open>What an operation does to the state on every exit\<close>

definition outcome ::
  "('w \<Rightarrow> 'w \<Rightarrow> bool) \<Rightarrow> ('a \<Rightarrow> 'w \<Rightarrow> bool) \<Rightarrow> 'w \<Rightarrow> ('w, 'e, 'a) act \<Rightarrow> bool" where
  "outcome R Q w m \<longleftrightarrow> (case m w of (x, w') \<Rightarrow> R w w' \<and> (\<forall>v. x = Inr v \<longrightarrow> Q v w'))"

lemma outcomeI:
  "(\<And>x w'. m w = (x, w') \<Longrightarrow> R w w' \<and> (\<forall>v. x = Inr v \<longrightarrow> Q v w')) \<Longrightarrow> outcome R Q w m"
  by (auto simp: outcome_def split: prod.splits)

lemma outcomeD: "outcome R Q w m \<Longrightarrow> m w = (x, w') \<Longrightarrow> R w w'"
  by (auto simp: outcome_def)

lemma outcomeD_val: "outcome R Q w m \<Longrightarrow> m w = (Inr v, w') \<Longrightarrow> Q v w'"
  by (auto simp: outcome_def)

lemma outcome_weaken: "outcome R Q w m \<Longrightarrow> (\<And>v w'. R w w' \<Longrightarrow> Q v w' \<Longrightarrow> Q' v w') \<Longrightarrow> outcome R Q' w m"
  by (auto simp: outcome_def split: prod.splits)

locale evolution =
  fixes R :: "'w \<Rightarrow> 'w \<Rightarrow> bool"
  assumes R_refl: "R w w"
    and R_trans: "R w w' \<Longrightarrow> R w' w'' \<Longrightarrow> R w w''"
begin

lemma out_ret: "Q x w \<Longrightarrow> outcome R Q w (ret x)"
  by (simp add: outcome_def R_refl act_simps)

lemma out_raise: "outcome R Q w (raise e)"
  by (simp add: outcome_def R_refl act_simps)

lemma out_lift: "(\<And>x. m = Inr x \<Longrightarrow> Q x w) \<Longrightarrow> outcome R Q w (lift_sum m)"
  by (auto simp: outcome_def lift_sum_def R_refl)

lemma out_bnd:
  assumes "outcome R P w m"
    and "\<And>v w'. R w w' \<Longrightarrow> P v w' \<Longrightarrow> outcome R Q w' (f v)"
  shows "outcome R Q w (bnd m f)"
proof (rule outcomeI)
  fix x w'' assume run: "bnd m f w = (x, w'')"
  obtain y w' where m: "m w = (y, w')" by force
  have Rm: "R w w'" using assms(1) m by (rule outcomeD)
  show "R w w'' \<and> (\<forall>v. x = Inr v \<longrightarrow> Q v w'')"
  proof (cases y)
    case (Inl e)
    then show ?thesis using run m Rm by (simp add: bnd_def) auto
  next
    case (Inr v)
    have P: "P v w'" using assms(1) m Inr by (auto dest: outcomeD_val)
    have "outcome R Q w' (f v)" using Rm P by (rule assms(2))
    moreover have "f v w' = (x, w'')" using run m Inr by (simp add: bnd_def)
    ultimately show ?thesis using Rm by (auto simp: outcome_def intro: R_trans)
  qed
qed

lemma out_bnd_lift: "(\<And>x. m = Inr x \<Longrightarrow> outcome R Q w (f x)) \<Longrightarrow> outcome R Q w (bnd (lift_sum m) f)"
  by (cases m) (simp_all add: out_raise)

lemma out_catch:
  assumes "outcome R Q w m"
    and "\<And>e w'. R w w' \<Longrightarrow> outcome R Q w' (h e)"
  shows "outcome R Q w (catch m h)"
proof (rule outcomeI)
  fix x w'' assume run: "catch m h w = (x, w'')"
  obtain y w' where m: "m w = (y, w')" by force
  have Rm: "R w w'" using assms(1) m by (rule outcomeD)
  show "R w w'' \<and> (\<forall>v. x = Inr v \<longrightarrow> Q v w'')"
  proof (cases y)
    case (Inl e)
    have "outcome R Q w' (h e)" using Rm by (rule assms(2))
    then show ?thesis using run m Inl Rm by (auto simp: catch_def outcome_def intro: R_trans)
  next
    case (Inr v)
    then show ?thesis using run m assms(1) by (auto simp: catch_def outcome_def)
  qed
qed

lemma out_finally:
  assumes "outcome R Q w m"
    and "\<And>w'. R w w' \<Longrightarrow> outcome R (\<lambda>_ _. True) w' fin"
  shows "outcome R (\<lambda>_ _. True) w (finally_do m fin)"
proof (rule outcomeI)
  fix x w'' assume run: "finally_do m fin w = (x, w'')"
  obtain y w' where m: "m w = (y, w')" by force
  have Rm: "R w w'" using assms(1) m by (rule outcomeD)
  obtain z u where fin: "fin w' = (z, u)" by force
  have "R w' u" using assms(2)[OF Rm] fin by (rule outcomeD)
  then have "R w u" using Rm by (blast intro: R_trans)
  then show "R w w'' \<and> (\<forall>v. x = Inr v \<longrightarrow> True)"
    using run m fin by (auto simp: finally_do_def split: sum.splits)
qed

lemma out_when: "(b \<Longrightarrow> outcome R (\<lambda>_ _. True) w m) \<Longrightarrow> outcome R (\<lambda>_ _. True) w (when_do b m)"
  by (cases b) (auto intro: out_ret)

lemma out_weaken_true: "outcome R Q w m \<Longrightarrow> outcome R (\<lambda>_ _. True) w m"
  by (erule outcome_weaken) simp

lemma out_foldA:
  assumes "I s w"
    and "\<And>s x w. x \<in> set xs \<Longrightarrow> I s w \<Longrightarrow> outcome R I w (f s x)"
  shows "outcome R I w (foldA f s xs)"
  using assms
proof (induction xs arbitrary: s w)
  case Nil
  then show ?case by (simp add: out_ret)
next
  case (Cons x xs)
  show ?case
    unfolding foldA.simps
  proof (rule out_bnd)
    show "outcome R I w (f s x)" using Cons.prems by simp
    fix v w' assume "I v w'"
    then show "outcome R I w' (foldA f v xs)" using Cons.prems(2) by (intro Cons.IH) simp_all
  qed
qed

lemma out_mapA:
  assumes "\<And>x w. x \<in> set xs \<Longrightarrow> outcome R (\<lambda>_ _. True) w (f x)"
  shows "outcome R (\<lambda>_ _. True) w (mapA f xs)"
  using assms
proof (induction xs arbitrary: w)
  case Nil
  then show ?case by (simp add: out_ret)
next
  case (Cons x xs)
  show ?case
    unfolding mapA.simps
  proof (rule out_bnd)
    show "outcome R (\<lambda>_ _. True) w (f x)" using Cons.prems by simp
    fix v w' assume "R w w'"
    have "outcome R (\<lambda>_ _. True) w' (mapA f xs)" using Cons.prems by (intro Cons.IH) simp
    then show "outcome R (\<lambda>_ _. True) w' (bnd (mapA f xs) (\<lambda>ys. ret (v # ys)))"
      by (rule out_bnd) (simp add: out_ret)
  qed
qed

end

section \<open>Tables\<close>

text \<open>
  A table is the list of its rows in insertion order. \<open>tbl_get\<close> is \<open>session.get\<close> by primary
  key, \<open>tbl_update\<close> an \<open>UPDATE ... WHERE\<close>, \<open>rowcount\<close> the number of rows it matches.
\<close>

definition tbl_get :: "('r \<Rightarrow> 'k) \<Rightarrow> 'k \<Rightarrow> 'r list \<Rightarrow> 'r option" where
  "tbl_get key k t = find (\<lambda>r. key r = k) t"

definition tbl_update :: "('r \<Rightarrow> bool) \<Rightarrow> ('r \<Rightarrow> 'r) \<Rightarrow> 'r list \<Rightarrow> 'r list" where
  "tbl_update p f t = map (\<lambda>r. if p r then f r else r) t"

definition rowcount :: "('r \<Rightarrow> bool) \<Rightarrow> 'r list \<Rightarrow> nat" where
  "rowcount p t = length (filter p t)"

definition order_by_desc :: "('r \<Rightarrow> 'k::linorder) \<Rightarrow> 'r list \<Rightarrow> 'r list" where
  "order_by_desc key t = rev (sort_key key t)"

text \<open>\<open>SELECT max(...)\<close>: None on no rows.\<close>

definition col_max :: "('r \<Rightarrow> 'k::linorder) \<Rightarrow> 'r list \<Rightarrow> 'k option" where
  "col_max key t = (if t = [] then None else Some (Max (set (map key t))))"

lemma tbl_get_Nil [simp]: "tbl_get key k [] = None"
  by (simp add: tbl_get_def)

lemma tbl_get_Cons: "tbl_get key k (r # t) = (if key r = k then Some r else tbl_get key k t)"
  by (simp add: tbl_get_def)

lemma tbl_get_None_iff [table_simps]: "tbl_get key k t = None \<longleftrightarrow> (\<forall>r \<in> set t. key r \<noteq> k)"
  by (auto simp: tbl_get_def find_None_iff)

lemma tbl_get_SomeD: "tbl_get key k t = Some r \<Longrightarrow> r \<in> set t \<and> key r = k"
  by (induction t) (auto simp: tbl_get_Cons split: if_splits)

lemma tbl_get_in:
  assumes "distinct (map key t)" and "r \<in> set t"
  shows "tbl_get key (key r) t = Some r"
  using assms by (induction t) (auto simp: tbl_get_Cons rev_image_eqI)

lemma tbl_get_append [table_simps]:
  "tbl_get key k (t @ u) = (case tbl_get key k t of None \<Rightarrow> tbl_get key k u | Some r \<Rightarrow> Some r)"
  by (induction t) (auto simp: tbl_get_Cons)

lemma tbl_get_update:
  assumes "\<And>r. key (f r) = key r"
  shows "tbl_get key k (tbl_update p f t)
    = map_option (\<lambda>r. if p r then f r else r) (tbl_get key k t)"
  using assms by (induction t) (auto simp: tbl_update_def tbl_get_Cons)

lemma tbl_update_simps [simp]:
  "tbl_update p f [] = []"
  "tbl_update p f (r # t) = (if p r then f r else r) # tbl_update p f t"
  by (simp_all add: tbl_update_def)

lemma map_key_update:
  "(\<And>r. key (f r) = key r) \<Longrightarrow> map key (tbl_update p f t) = map key t"
  by (induction t) auto

lemma rowcount_simps [simp]:
  "rowcount p [] = 0"
  "rowcount p (r # t) = (if p r then Suc (rowcount p t) else rowcount p t)"
  by (simp_all add: rowcount_def)

lemma rowcount_0_iff: "rowcount p t = 0 \<longleftrightarrow> (\<forall>r \<in> set t. \<not> p r)"
  by (induction t) auto

lemma rowcount_key:
  assumes "distinct (map key t)" and "\<And>r. p r \<Longrightarrow> key r = k"
  shows "rowcount p t = (case tbl_get key k t of None \<Rightarrow> 0 | Some r \<Rightarrow> if p r then 1 else 0)"
  using assms
proof (induction t)
  case Nil
  then show ?case by simp
next
  case (Cons r t)
  show ?case
  proof (cases "key r = k")
    case True
    then have "\<forall>s \<in> set t. \<not> p s" using Cons.prems by (auto simp: image_iff)
    then have "rowcount p t = 0" by (simp add: rowcount_0_iff)
    then show ?thesis using True by (simp add: tbl_get_Cons)
  next
    case False
    then have "\<not> p r" using Cons.prems by auto
    then show ?thesis using False Cons by (simp add: tbl_get_Cons)
  qed
qed

lemma rowcount_pos_get:
  assumes "0 < rowcount p t"
  shows "\<exists>r \<in> set t. p r"
  using assms rowcount_0_iff[of p t] by auto

lemma set_order_by_desc [simp]: "set (order_by_desc key t) = set t"
  by (simp add: order_by_desc_def)

lemma col_max_Nil [simp]: "col_max key [] = None"
  by (simp add: col_max_def)

lemma col_max_None_iff [simp]: "col_max key t = None \<longleftrightarrow> t = []"
  by (simp add: col_max_def)

lemma col_max_ge: "col_max key t = Some m \<Longrightarrow> r \<in> set t \<Longrightarrow> key r \<le> m"
  by (auto simp: col_max_def split: if_splits)

lemma col_max_in: "col_max key t = Some m \<Longrightarrow> \<exists>r \<in> set t. key r = m"
proof -
  assume a: "col_max key t = Some m"
  then have "t \<noteq> []" and m: "m = Max (key ` set t)" by (auto simp: col_max_def split: if_splits)
  then have "m \<in> key ` set t" by simp
  then show ?thesis by auto
qed

lemma order_by_desc_sorted: "sorted_wrt (\<lambda>a b. key b \<le> key a) (order_by_desc key t)"
proof -
  have "sorted (map key (sort_key key t))" by simp
  then have "sorted_wrt (\<lambda>a b. key a \<le> key b) (sort_key key t)"
    by (simp add: sorted_map)
  then show ?thesis by (simp add: order_by_desc_def sorted_wrt_rev)
qed

end
