(* ===== verification/Domain_Types.thy ===== *)
theory Domain_Types
  imports Prelude
begin

text \<open>
  The enumerations of \<open>domain/enums.py\<close> and the exception taxonomy of \<open>domain/errors.py\<close>.

  An exception value of the model is an \<open>exn\<close>: a class of the taxonomy (\<open>Durable\<close>), one of the
  library exceptions the code meets (pydantic, SQLAlchemy, the built-in ones), or \<open>Crash\<close>, the
  death of the process, which no \<open>except\<close> clause sees. Message texts are not part of a raised
  \<open>exn\<close>; where the code stores a message (the error table, failure events) the model carries it
  beside the class.
\<close>

section \<open>Enumerations\<close>

datatype RunState = R_CREATED | R_PLANNING | R_RUNNING | R_PAUSE_REQUESTED | R_PAUSED
  | R_RECOVERING | R_COMPLETED | R_FAILED | R_CANCELLED

datatype TaskState = T_PENDING | T_READY | T_RUNNING | T_WAITING | T_PAUSE_REQUESTED | T_PAUSED
  | T_SUCCEEDED | T_FAILED_RETRYABLE | T_FAILED_TERMINAL | T_CANCELLED | T_SKIPPED

datatype FailurePolicy = RETRY | FAIL_RUN | SKIP_DEPENDENTS | MANUAL_REVIEW

datatype CheckpointPolicy = BEFORE_AND_AFTER | AFTER | RUN_BOUNDARY

datatype ErrorCategory = C_VALIDATION | C_PROVIDER_RETRYABLE | C_RATE_LIMIT | C_TIMEOUT
  | C_TOOL_EXECUTION | C_DATABASE | C_CONCURRENCY | C_REPOSITORY_CHANGED | C_CORRUPT_CHECKPOINT
  | C_UNSUPPORTED_SCHEMA | C_SECURITY_POLICY | C_TERMINAL_DOMAIN

datatype ToolCallStatus = INTENT_RECORDED | TC_RUNNING | TC_SUCCEEDED | TC_FAILED | UNCERTAIN
  | NEEDS_REVIEW

datatype SideEffectClass = SE_NONE | IDEMPOTENT | REVERSIBLE | NON_IDEMPOTENT

datatype EvidenceType = REPOSITORY_FILE | REPOSITORY_SNAPSHOT | TEST_RESULT | COMMAND_RESULT
  | ARTIFACT | DATABASE_RECORD | EXTERNAL_SOURCE | USER_FACT | AGENT_INFERENCE

datatype VerificationStatus = UNVERIFIED | VERIFIED | CONFLICTING | INVALID

datatype ClaimKind = VERIFIED_FACT | TEST_SUPPORTED | INFERENCE | ASSUMPTION | UNRESOLVED
  | LIMITATION

datatype SummaryLevel = SL_TASK | SL_TASK_GROUP | SL_RUN

datatype RepositoryDriftPolicy = DRIFT_FAIL | DRIFT_REINDEX | DRIFT_REPLAN

datatype FileChangeKind = FC_NEW | FC_MODIFIED | FC_UNCHANGED | FC_DELETED

text \<open>The values written to the database and into hashed documents.\<close>

fun RunState_value :: "RunState \<Rightarrow> string" where
  "RunState_value R_CREATED = ''CREATED''"
| "RunState_value R_PLANNING = ''PLANNING''"
| "RunState_value R_RUNNING = ''RUNNING''"
| "RunState_value R_PAUSE_REQUESTED = ''PAUSE_REQUESTED''"
| "RunState_value R_PAUSED = ''PAUSED''"
| "RunState_value R_RECOVERING = ''RECOVERING''"
| "RunState_value R_COMPLETED = ''COMPLETED''"
| "RunState_value R_FAILED = ''FAILED''"
| "RunState_value R_CANCELLED = ''CANCELLED''"

fun TaskState_value :: "TaskState \<Rightarrow> string" where
  "TaskState_value T_PENDING = ''PENDING''"
| "TaskState_value T_READY = ''READY''"
| "TaskState_value T_RUNNING = ''RUNNING''"
| "TaskState_value T_WAITING = ''WAITING''"
| "TaskState_value T_PAUSE_REQUESTED = ''PAUSE_REQUESTED''"
| "TaskState_value T_PAUSED = ''PAUSED''"
| "TaskState_value T_SUCCEEDED = ''SUCCEEDED''"
| "TaskState_value T_FAILED_RETRYABLE = ''FAILED_RETRYABLE''"
| "TaskState_value T_FAILED_TERMINAL = ''FAILED_TERMINAL''"
| "TaskState_value T_CANCELLED = ''CANCELLED''"
| "TaskState_value T_SKIPPED = ''SKIPPED''"

fun ToolCallStatus_value :: "ToolCallStatus \<Rightarrow> string" where
  "ToolCallStatus_value INTENT_RECORDED = ''INTENT_RECORDED''"
| "ToolCallStatus_value TC_RUNNING = ''RUNNING''"
| "ToolCallStatus_value TC_SUCCEEDED = ''SUCCEEDED''"
| "ToolCallStatus_value TC_FAILED = ''FAILED''"
| "ToolCallStatus_value UNCERTAIN = ''UNCERTAIN''"
| "ToolCallStatus_value NEEDS_REVIEW = ''NEEDS_REVIEW''"

fun SideEffectClass_value :: "SideEffectClass \<Rightarrow> string" where
  "SideEffectClass_value SE_NONE = ''NONE''"
| "SideEffectClass_value IDEMPOTENT = ''IDEMPOTENT''"
| "SideEffectClass_value REVERSIBLE = ''REVERSIBLE''"
| "SideEffectClass_value NON_IDEMPOTENT = ''NON_IDEMPOTENT''"

fun ErrorCategory_value :: "ErrorCategory \<Rightarrow> string" where
  "ErrorCategory_value C_VALIDATION = ''VALIDATION''"
| "ErrorCategory_value C_PROVIDER_RETRYABLE = ''PROVIDER_RETRYABLE''"
| "ErrorCategory_value C_RATE_LIMIT = ''RATE_LIMIT''"
| "ErrorCategory_value C_TIMEOUT = ''TIMEOUT''"
| "ErrorCategory_value C_TOOL_EXECUTION = ''TOOL_EXECUTION''"
| "ErrorCategory_value C_DATABASE = ''DATABASE''"
| "ErrorCategory_value C_CONCURRENCY = ''CONCURRENCY''"
| "ErrorCategory_value C_REPOSITORY_CHANGED = ''REPOSITORY_CHANGED''"
| "ErrorCategory_value C_CORRUPT_CHECKPOINT = ''CORRUPT_CHECKPOINT''"
| "ErrorCategory_value C_UNSUPPORTED_SCHEMA = ''UNSUPPORTED_SCHEMA''"
| "ErrorCategory_value C_SECURITY_POLICY = ''SECURITY_POLICY''"
| "ErrorCategory_value C_TERMINAL_DOMAIN = ''TERMINAL_DOMAIN''"

fun RepositoryDriftPolicy_value :: "RepositoryDriftPolicy \<Rightarrow> string" where
  "RepositoryDriftPolicy_value DRIFT_FAIL = ''FAIL''"
| "RepositoryDriftPolicy_value DRIFT_REINDEX = ''REINDEX''"
| "RepositoryDriftPolicy_value DRIFT_REPLAN = ''REPLAN''"

text \<open>The two lifecycle enumerations are finite, so statements over all of their values compute.\<close>

instantiation RunState :: enum
begin

definition enum_RunState :: "RunState list" where
  "enum_RunState = [R_CREATED, R_PLANNING, R_RUNNING, R_PAUSE_REQUESTED, R_PAUSED, R_RECOVERING,
     R_COMPLETED, R_FAILED, R_CANCELLED]"

definition enum_all_RunState :: "(RunState \<Rightarrow> bool) \<Rightarrow> bool" where
  "enum_all_RunState P \<longleftrightarrow> list_all P [R_CREATED, R_PLANNING, R_RUNNING, R_PAUSE_REQUESTED,
     R_PAUSED, R_RECOVERING, R_COMPLETED, R_FAILED, R_CANCELLED]"

definition enum_ex_RunState :: "(RunState \<Rightarrow> bool) \<Rightarrow> bool" where
  "enum_ex_RunState P \<longleftrightarrow> list_ex P [R_CREATED, R_PLANNING, R_RUNNING, R_PAUSE_REQUESTED,
     R_PAUSED, R_RECOVERING, R_COMPLETED, R_FAILED, R_CANCELLED]"

lemma RunState_UNIV: "(UNIV :: RunState set) = {R_CREATED, R_PLANNING, R_RUNNING,
    R_PAUSE_REQUESTED, R_PAUSED, R_RECOVERING, R_COMPLETED, R_FAILED, R_CANCELLED}"
proof -
  have "s \<in> {R_CREATED, R_PLANNING, R_RUNNING, R_PAUSE_REQUESTED, R_PAUSED, R_RECOVERING,
      R_COMPLETED, R_FAILED, R_CANCELLED}" for s
    by (cases s) simp_all
  then show ?thesis by blast
qed

instance
proof
  fix P :: "RunState \<Rightarrow> bool"
  show "(UNIV :: RunState set) = set enum_class.enum"
    by (simp add: enum_RunState_def RunState_UNIV)
  show "distinct (enum_class.enum :: RunState list)"
    by (simp add: enum_RunState_def)
  show "enum_class.enum_all P = Ball UNIV P"
    by (simp add: enum_all_RunState_def RunState_UNIV)
  show "enum_class.enum_ex P = Bex UNIV P"
    by (simp add: enum_ex_RunState_def RunState_UNIV)
qed

end

section \<open>Exceptions\<close>

datatype error_class = DurableAgentError | DomainValidationError | InvalidTransitionError
  | PlanValidationError | ProviderRetryableError | RateLimitError | OperationTimeoutError
  | ToolExecutionError | DatabaseError | ConcurrencyConflictError | RepositoryChangedError
  | CorruptCheckpointError | ArtifactIntegrityError | UnsupportedSchemaVersionError
  | SecurityPolicyError | NotFoundError | IdempotencyConflictError | ManualReviewRequiredError

text \<open>The class attributes \<open>category\<close> and \<open>retryable\<close>, with what a subclass inherits.\<close>

fun error_category :: "error_class \<Rightarrow> ErrorCategory" where
  "error_category DomainValidationError = C_VALIDATION"
| "error_category InvalidTransitionError = C_VALIDATION"
| "error_category PlanValidationError = C_VALIDATION"
| "error_category IdempotencyConflictError = C_VALIDATION"
| "error_category ProviderRetryableError = C_PROVIDER_RETRYABLE"
| "error_category RateLimitError = C_RATE_LIMIT"
| "error_category OperationTimeoutError = C_TIMEOUT"
| "error_category ToolExecutionError = C_TOOL_EXECUTION"
| "error_category DatabaseError = C_DATABASE"
| "error_category ConcurrencyConflictError = C_CONCURRENCY"
| "error_category RepositoryChangedError = C_REPOSITORY_CHANGED"
| "error_category CorruptCheckpointError = C_CORRUPT_CHECKPOINT"
| "error_category UnsupportedSchemaVersionError = C_UNSUPPORTED_SCHEMA"
| "error_category SecurityPolicyError = C_SECURITY_POLICY"
| "error_category _ = C_TERMINAL_DOMAIN"

fun error_retryable :: "error_class \<Rightarrow> bool" where
  "error_retryable ProviderRetryableError = True"
| "error_retryable RateLimitError = True"
| "error_retryable OperationTimeoutError = True"
| "error_retryable DatabaseError = True"
| "error_retryable ConcurrencyConflictError = True"
| "error_retryable _ = False"

text \<open>
  \<open>IntegrityError\<close> is SQLAlchemy's constraint violation, a subclass of \<open>SQLAlchemyError\<close>.
  \<open>OutOfFuel\<close> is not an exception of the program: it marks a loop of the model cut off by its bound.
\<close>

datatype exn = Durable error_class | PydanticValidationError | ValueError | KeyError
  | StopIteration | IntegrityError | SQLAlchemyError | Crash | OutOfFuel

fun is_sqlalchemy_error :: "exn \<Rightarrow> bool" where
  "is_sqlalchemy_error IntegrityError = True"
| "is_sqlalchemy_error SQLAlchemyError = True"
| "is_sqlalchemy_error _ = False"

end
