(* ===== verification/State_Machine.thy ===== *)
theory State_Machine
  imports Domain_Types
begin

text \<open>
  The lifecycle tables of \<open>domain/state_machine.py\<close> and the checked transitions over them.
  \<open>run_edge\<close> and \<open>task_edge\<close> are one step along the table as step relations; \<open>run_reaches\<close>
  and \<open>task_reaches\<close> are the histories they allow. The lemmas say which histories exist:
  terminal states are final, every other state can still be cancelled and can still complete.
\<close>

section \<open>Tables and checked transitions\<close>

fun RUN_TRANSITIONS :: "RunState \<Rightarrow> RunState set" where
  "RUN_TRANSITIONS R_CREATED = {R_PLANNING, R_CANCELLED, R_FAILED}"
| "RUN_TRANSITIONS R_PLANNING = {R_RUNNING, R_PAUSE_REQUESTED, R_CANCELLED, R_FAILED}"
| "RUN_TRANSITIONS R_RUNNING =
     {R_PAUSE_REQUESTED, R_COMPLETED, R_FAILED, R_CANCELLED, R_RECOVERING}"
| "RUN_TRANSITIONS R_PAUSE_REQUESTED = {R_PAUSED, R_CANCELLED, R_FAILED, R_COMPLETED}"
| "RUN_TRANSITIONS R_PAUSED = {R_RECOVERING, R_CANCELLED, R_FAILED}"
| "RUN_TRANSITIONS R_RECOVERING = {R_RUNNING, R_PAUSED, R_CANCELLED, R_FAILED}"
| "RUN_TRANSITIONS R_COMPLETED = {}"
| "RUN_TRANSITIONS R_FAILED = {}"
| "RUN_TRANSITIONS R_CANCELLED = {}"

fun TASK_TRANSITIONS :: "TaskState \<Rightarrow> TaskState set" where
  "TASK_TRANSITIONS T_PENDING = {T_READY, T_WAITING, T_CANCELLED, T_SKIPPED}"
| "TASK_TRANSITIONS T_READY = {T_RUNNING, T_PAUSE_REQUESTED, T_CANCELLED, T_SKIPPED}"
| "TASK_TRANSITIONS T_RUNNING =
     {T_SUCCEEDED, T_FAILED_RETRYABLE, T_FAILED_TERMINAL, T_WAITING, T_PAUSE_REQUESTED, T_CANCELLED}"
| "TASK_TRANSITIONS T_WAITING = {T_READY, T_CANCELLED, T_SKIPPED, T_FAILED_TERMINAL}"
| "TASK_TRANSITIONS T_PAUSE_REQUESTED = {T_PAUSED, T_SUCCEEDED, T_CANCELLED, T_FAILED_TERMINAL}"
| "TASK_TRANSITIONS T_PAUSED = {T_READY, T_CANCELLED}"
| "TASK_TRANSITIONS T_FAILED_RETRYABLE = {T_READY, T_FAILED_TERMINAL, T_CANCELLED}"
| "TASK_TRANSITIONS T_SUCCEEDED = {}"
| "TASK_TRANSITIONS T_FAILED_TERMINAL = {}"
| "TASK_TRANSITIONS T_CANCELLED = {}"
| "TASK_TRANSITIONS T_SKIPPED = {}"

definition check_transition :: "'s \<Rightarrow> 's \<Rightarrow> ('s \<Rightarrow> 's set) \<Rightarrow> exn + 's" where
  "check_transition current target table =
     (if target = current then Inr current
      else if target \<notin> table current then Inl (Durable InvalidTransitionError)
      else Inr target)"

definition transition_run :: "RunState \<Rightarrow> RunState \<Rightarrow> exn + RunState" where
  "transition_run current target = check_transition current target RUN_TRANSITIONS"

definition transition_task :: "TaskState \<Rightarrow> TaskState \<Rightarrow> exn + TaskState" where
  "transition_task current target = check_transition current target TASK_TRANSITIONS"

section \<open>Step relations and histories\<close>

inductive run_edge :: "RunState \<Rightarrow> RunState \<Rightarrow> bool" where
  "t \<in> RUN_TRANSITIONS s \<Longrightarrow> run_edge s t"

inductive task_edge :: "TaskState \<Rightarrow> TaskState \<Rightarrow> bool" where
  "t \<in> TASK_TRANSITIONS s \<Longrightarrow> task_edge s t"

inductive_simps run_edge_iff: "run_edge s t"
inductive_simps task_edge_iff: "task_edge s t"

abbreviation run_reaches :: "RunState \<Rightarrow> RunState \<Rightarrow> bool" where
  "run_reaches \<equiv> run_edge\<^sup>*\<^sup>*"

abbreviation task_reaches :: "TaskState \<Rightarrow> TaskState \<Rightarrow> bool" where
  "task_reaches \<equiv> task_edge\<^sup>*\<^sup>*"

fun run_terminal :: "RunState \<Rightarrow> bool" where
  "run_terminal R_COMPLETED = True"
| "run_terminal R_FAILED = True"
| "run_terminal R_CANCELLED = True"
| "run_terminal _ = False"

fun task_terminal :: "TaskState \<Rightarrow> bool" where
  "task_terminal T_SUCCEEDED = True"
| "task_terminal T_FAILED_TERMINAL = True"
| "task_terminal T_CANCELLED = True"
| "task_terminal T_SKIPPED = True"
| "task_terminal _ = False"

lemma transition_run_Inr_iff:
  "transition_run s t = Inr u \<longleftrightarrow> u = t \<and> (t = s \<or> run_edge s t)"
  by (auto simp: transition_run_def check_transition_def run_edge_iff)

lemma transition_task_Inr_iff:
  "transition_task s t = Inr u \<longleftrightarrow> u = t \<and> (t = s \<or> task_edge s t)"
  by (auto simp: transition_task_def check_transition_def task_edge_iff)

lemma transition_run_reaches: "transition_run s t = Inr u \<Longrightarrow> run_reaches s u"
  by (auto simp: transition_run_Inr_iff)

lemma transition_task_reaches: "transition_task s t = Inr u \<Longrightarrow> task_reaches s u"
  by (auto simp: transition_task_Inr_iff)

lemma run_terminal_iff: "run_terminal s \<longleftrightarrow> RUN_TRANSITIONS s = {}"
  by (cases s) simp_all

lemma task_terminal_iff: "task_terminal s \<longleftrightarrow> TASK_TRANSITIONS s = {}"
  by (cases s) simp_all

lemma run_terminal_stuck: "run_reaches s t \<Longrightarrow> run_terminal s \<Longrightarrow> t = s"
  by (induction rule: converse_rtranclp_induct) (auto simp: run_terminal_iff run_edge_iff)

lemma task_terminal_stuck: "task_reaches s t \<Longrightarrow> task_terminal s \<Longrightarrow> t = s"
  by (induction rule: converse_rtranclp_induct) (auto simp: task_terminal_iff task_edge_iff)

lemma run_cancel_edge: "\<not> run_terminal s \<Longrightarrow> run_edge s R_CANCELLED"
  by (cases s) (simp_all add: run_edge_iff)

lemma run_fail_edge: "\<not> run_terminal s \<Longrightarrow> run_edge s R_FAILED"
  by (cases s) (simp_all add: run_edge_iff)

lemma task_cancel_edge: "\<not> task_terminal s \<Longrightarrow> task_edge s T_CANCELLED"
  by (cases s) (simp_all add: task_edge_iff)

text \<open>The only way back to RUNNING is through RECOVERING: the table has no shortcut.\<close>

lemma run_running_pred: "run_edge s R_RUNNING \<Longrightarrow> s \<in> {R_PLANNING, R_RECOVERING}"
  by (cases s) (simp_all add: run_edge_iff)

lemma run_paused_exits: "run_edge R_PAUSED t \<Longrightarrow> t \<in> {R_RECOVERING, R_CANCELLED, R_FAILED}"
  by (simp add: run_edge_iff)

lemma run_completes: "\<not> run_terminal s \<Longrightarrow> run_reaches s R_COMPLETED"
proof -
  have 1: "run_reaches R_RUNNING R_COMPLETED" by (auto simp: run_edge_iff intro: r_into_rtranclp)
  have 2: "run_reaches R_RECOVERING R_COMPLETED"
    using 1 by (rule converse_rtranclp_into_rtranclp[rotated]) (simp add: run_edge_iff)
  have 3: "run_reaches R_PAUSED R_COMPLETED"
    using 2 by (rule converse_rtranclp_into_rtranclp[rotated]) (simp add: run_edge_iff)
  have 4: "run_reaches R_PLANNING R_COMPLETED"
    using 1 by (rule converse_rtranclp_into_rtranclp[rotated]) (simp add: run_edge_iff)
  have 5: "run_reaches R_CREATED R_COMPLETED"
    using 4 by (rule converse_rtranclp_into_rtranclp[rotated]) (simp add: run_edge_iff)
  have 6: "run_reaches R_PAUSE_REQUESTED R_COMPLETED"
    by (auto simp: run_edge_iff intro: r_into_rtranclp)
  show "\<not> run_terminal s \<Longrightarrow> run_reaches s R_COMPLETED"
    using 1 2 3 4 5 6 by (cases s) simp_all
qed

text \<open>
  A sequence of requested transitions, each checked from the state the one before returned.
\<close>

fun run_transitions :: "RunState \<Rightarrow> RunState list \<Rightarrow> exn + RunState" where
  "run_transitions s [] = Inr s"
| "run_transitions s (t # ts) =
     (case transition_run s t of Inl e \<Rightarrow> Inl e | Inr u \<Rightarrow> run_transitions u ts)"

lemma run_transitions_reaches: "run_transitions s ts = Inr u \<Longrightarrow> run_reaches s u"
proof (induction ts arbitrary: s)
  case (Cons t ts)
  then obtain v where "transition_run s t = Inr v" and "run_transitions v ts = Inr u"
    by (auto split: sum.splits)
  then show ?case using Cons.IH transition_run_reaches by (meson rtranclp_trans)
qed simp

lemma run_reaches_transitions: "run_reaches s u \<Longrightarrow> \<exists>ts. run_transitions s ts = Inr u"
proof (induction rule: converse_rtranclp_induct)
  case base
  show ?case by (rule exI[of _ "[]"]) simp
next
  case (step y z)
  then obtain ts where "run_transitions z ts = Inr u" by blast
  moreover have "transition_run y z = Inr z" using step by (simp add: transition_run_Inr_iff)
  ultimately show ?case by (intro exI[of _ "z # ts"]) simp
qed

text \<open>
  The checked run transitions realise exactly the histories of the lifecycle table: a state is
  the result of some sequence of accepted transition requests if and only if the table's edges
  reach it, and once a terminal state is entered every accepted request leaves it there.
\<close>

lemma run_lifecycle_histories:
  "((\<exists>ts. run_transitions s ts = Inr u) \<longleftrightarrow> run_reaches s u) \<and>
   (run_terminal s \<and> run_transitions s ts = Inr u \<longrightarrow> u = s)"
  using run_transitions_reaches run_reaches_transitions run_terminal_stuck by blast

lemma run_lifecycle_histories_witness:
  "run_terminal R_FAILED \<and> run_transitions R_FAILED [R_FAILED] = Inr R_FAILED \<and>
   run_reaches R_FAILED R_FAILED"
  using run_lifecycle_histories[of R_FAILED R_FAILED "[R_FAILED]"]
  by (simp add: transition_run_def check_transition_def)

end
