(* ===== verification/Canonical_Json.thy ===== *)
theory Canonical_Json
  imports Prelude
begin

text \<open>
  JSON values and their canonical serialisation, \<open>canonical_json\<close> of \<open>domain/base.py\<close>:
  \<open>json.dumps\<close> with sorted keys, compact separators and \<open>ensure_ascii=False\<close>.

  Python strings are modelled as HOL strings, one \<open>char\<close> for one character, so characters
  beyond code point 255 are outside the model. \<open>JFloat\<close> carries the text Python prints for the
  float. SHA-256 of the encoded text is a parameter of the definitions that hash.
\<close>

section \<open>Values\<close>

datatype json = JNull | JBool bool | JInt int | JFloat string | JStr string
  | JArr "json list" | JObj "(string \<times> json) list"

fun jopt :: "('a \<Rightarrow> json) \<Rightarrow> 'a option \<Rightarrow> json" where
  "jopt f None = JNull"
| "jopt f (Some x) = f x"

definition jstrs :: "string list \<Rightarrow> json" where
  "jstrs xs = JArr (map JStr xs)"

text \<open>\<open>value.get(key)\<close> on an object.\<close>

fun jget :: "string \<Rightarrow> json \<Rightarrow> json option" where
  "jget k (JObj kvs) = map_of kvs k"
| "jget k _ = None"

section \<open>Printing\<close>

fun nat_digits :: "nat \<Rightarrow> string" where
  "nat_digits n = (if n < 10 then [char_of (48 + n)] else nat_digits (n div 10) @ [char_of (48 + n mod 10)])"

declare nat_digits.simps [simp del]

definition show_nat :: "nat \<Rightarrow> string" where
  "show_nat n = nat_digits n"

definition show_int :: "int \<Rightarrow> string" where
  "show_int i = (if i < 0 then CHR ''-'' # nat_digits (nat (- i)) else nat_digits (nat i))"

definition hex_digit :: "nat \<Rightarrow> char" where
  "hex_digit n = (if n < 10 then char_of (48 + n) else char_of (87 + n))"

definition json_escape_char :: "char \<Rightarrow> string" where
  "json_escape_char c =
     (let n = of_char c :: nat in
      if c = CHR 0x22 then [CHR 0x5C, CHR 0x22]
      else if c = CHR 0x5C then [CHR 0x5C, CHR 0x5C]
      else if n = 10 then [CHR 0x5C, CHR ''n'']
      else if n = 13 then [CHR 0x5C, CHR ''r'']
      else if n = 9 then [CHR 0x5C, CHR ''t'']
      else if n = 12 then [CHR 0x5C, CHR ''f'']
      else if n = 8 then [CHR 0x5C, CHR ''b'']
      else if n < 32 then [CHR 0x5C] @ ''u00'' @ [hex_digit (n div 16), hex_digit (n mod 16)]
      else [c])"

definition json_string :: "string \<Rightarrow> string" where
  "json_string s = [CHR 0x22] @ concat (map json_escape_char s) @ [CHR 0x22]"

fun join_with :: "string \<Rightarrow> string list \<Rightarrow> string" where
  "join_with sep [] = []"
| "join_with sep [x] = x"
| "join_with sep (x # y # ys) = x @ sep @ join_with sep (y # ys)"

text \<open>
  \<open>sort_keys=True\<close> orders the members of every object by key; \<open>key_sorted\<close> does it before printing.
\<close>

fun key_sorted :: "json \<Rightarrow> json" where
  "key_sorted (JArr xs) = JArr (map key_sorted xs)"
| "key_sorted (JObj kvs) = JObj (sort_key fst (map (\<lambda>(k, v). (k, key_sorted v)) kvs))"
| "key_sorted JNull = JNull"
| "key_sorted (JBool b) = JBool b"
| "key_sorted (JInt i) = JInt i"
| "key_sorted (JFloat f) = JFloat f"
| "key_sorted (JStr s) = JStr s"

fun json_dumps :: "json \<Rightarrow> string" where
  "json_dumps JNull = ''null''"
| "json_dumps (JBool b) = (if b then ''true'' else ''false'')"
| "json_dumps (JInt i) = show_int i"
| "json_dumps (JFloat f) = f"
| "json_dumps (JStr s) = json_string s"
| "json_dumps (JArr xs) = ''['' @ join_with '','' (map json_dumps xs) @ '']''"
| "json_dumps (JObj kvs) =
     ''{'' @ join_with '','' (map (\<lambda>(k, v). json_string k @ '':'' @ json_dumps v) kvs) @ ''}''"

definition canonical_json :: "json \<Rightarrow> string" where
  "canonical_json v = json_dumps (key_sorted v)"

lemma canonical_json_example:
  "canonical_json (JObj [(''b'', JInt (- 12)), (''a'', JArr [JNull, JBool True])])
   = ''{'' @ json_string ''a'' @ '':[null,true],'' @ json_string ''b'' @ '':-12}''"
  by code_simp

section \<open>Bytes\<close>

text \<open>
  \<open>utf8\<close> is \<open>str.encode\<close>, a byte being a \<open>char\<close>; \<open>utf8_decode\<close> is \<open>bytes.decode\<close> with
  \<open>errors="replace"\<close> on a prefix of such bytes. The replacement character U+FFFD, which lies
  outside \<open>char\<close>, is written \<open>?\<close>.
\<close>

definition utf8_char :: "char \<Rightarrow> string" where
  "utf8_char c = (let n = of_char c :: nat in
     if n < 128 then [c] else [char_of (192 + n div 64), char_of (128 + n mod 64)])"

definition utf8 :: "string \<Rightarrow> string" where
  "utf8 s = concat (map utf8_char s)"

fun utf8_decode :: "string \<Rightarrow> string" where
  "utf8_decode [] = []"
| "utf8_decode [b] = (if (of_char b :: nat) < 128 then [b] else ''?'')"
| "utf8_decode (b # c # bs) =
     (if (of_char b :: nat) < 128 then b # utf8_decode (c # bs)
      else char_of (64 * (of_char b - 192) + (of_char c - 128) :: nat) # utf8_decode bs)"

section \<open>Timestamps\<close>

text \<open>
  A \<open>datetime\<close> in UTC is the number of microseconds since 1970-01-01. \<open>isoformat\<close> prints the
  fraction only when it is not zero; pydantic's JSON mode writes \<open>Z\<close> for the offset.
\<close>

definition padded :: "nat \<Rightarrow> int \<Rightarrow> string" where
  "padded k n = (let s = show_int n in replicate (k - length s) (CHR ''0'') @ s)"

definition civil_from_days :: "int \<Rightarrow> int \<times> int \<times> int" where
  "civil_from_days days =
     (let z = days + 719468; era = z div 146097; doe = z mod 146097;
          yoe = (doe - doe div 1460 + doe div 36524 - doe div 146096) div 365;
          doy = doe - (365 * yoe + yoe div 4 - yoe div 100);
          mp = (5 * doy + 2) div 153;
          d = doy - (153 * mp + 2) div 5 + 1;
          m = (if mp < 10 then mp + 3 else mp - 9)
      in (yoe + era * 400 + (if m \<le> 2 then 1 else 0), m, d))"

definition iso_datetime :: "int \<Rightarrow> string" where
  "iso_datetime t =
     (let (y, m, d) = civil_from_days (t div 86400000000);
          us = t mod 86400000000; secs = us div 1000000; frac = us mod 1000000
      in padded 4 y @ ''-'' @ padded 2 m @ ''-'' @ padded 2 d @ ''T'' @
         padded 2 (secs div 3600) @ '':'' @ padded 2 (secs div 60 mod 60) @ '':'' @
         padded 2 (secs mod 60) @ (if frac = 0 then [] else ''.'' @ padded 6 frac))"

definition isoformat :: "int \<Rightarrow> string" where
  "isoformat t = iso_datetime t @ ''+00:00''"

definition jtime :: "int \<Rightarrow> json" where
  "jtime t = JStr (iso_datetime t @ ''Z'')"

lemma isoformat_example: "isoformat 1709251199000001 = ''2024-02-29T23:59:59.000001+00:00''"
  by code_simp

end
