(* ===== verification/Models.thy ===== *)
theory Models
  imports Complex_Main State_Machine Canonical_Json
begin

text \<open>
  The pydantic schemas of \<open>domain/models.py\<close>, \<open>domain/evidence.py\<close>, \<open>domain/context.py\<close> and the
  worker outcome of \<open>orchestration/worker.py\<close>, one record per class, with the validators of each
  class as a Boolean function \<open>valid_<class>\<close>. \<open>checked valid x\<close> is the constructor call: it raises
  \<open>ValidationError\<close> on an invalid value. \<open>model_copy(update=...)\<close> is a record update: it validates
  nothing, as in pydantic.

  A record field is the source's field behind a two letter prefix for its class (\<open>tr_state\<close> is
  \<open>TaskRecord.state\<close>). Times are integers (microseconds, timezone-aware), floats are rationals.
\<close>

type_synonym time = int

definition checked :: "('a \<Rightarrow> bool) \<Rightarrow> 'a \<Rightarrow> exn + 'a" where
  "checked valid x = (if valid x then Inr x else Inl PydanticValidationError)"

lemma checked_Inr_iff [simp]: "checked valid x = Inr y \<longleftrightarrow> y = x \<and> valid x"
  by (auto simp: checked_def)

lemma traverse_checked: "traverse (checked P) xs = Inr ys \<Longrightarrow> ys = xs"
  by (induction xs arbitrary: ys) (auto simp: checked_def split: if_splits sum.splits)

section \<open>String checks\<close>

text \<open>\<open>DomainModel.reject_nul_strings\<close> looks at every field whose value is a string.\<close>

definition no_nul :: "string \<Rightarrow> bool" where
  "no_nul s \<longleftrightarrow> CHR 0x00 \<notin> set s"

definition no_nul_opt :: "string option \<Rightarrow> bool" where
  "no_nul_opt s \<longleftrightarrow> (case s of None \<Rightarrow> True | Some t \<Rightarrow> no_nul t)"

definition is_py_space :: "char \<Rightarrow> bool" where
  "is_py_space c \<longleftrightarrow> (let n = of_char c :: nat in
     (9 \<le> n \<and> n \<le> 13) \<or> (28 \<le> n \<and> n \<le> 32) \<or> n = 133 \<or> n = 160)"

definition py_strip :: "string \<Rightarrow> string" where
  "py_strip s = rev (dropWhile is_py_space (rev (dropWhile is_py_space s)))"

text \<open>\<open>str.split()\<close>: the maximal runs of characters that are not white space.\<close>

fun py_split_acc :: "string \<Rightarrow> string \<Rightarrow> string list" where
  "py_split_acc w [] = (if w = [] then [] else [rev w])"
| "py_split_acc w (c # cs) =
     (if is_py_space c then (if w = [] then py_split_acc [] cs else rev w # py_split_acc [] cs)
      else py_split_acc (c # w) cs)"

definition py_split :: "string \<Rightarrow> string list" where
  "py_split s = py_split_acc [] s"

definition len_between :: "nat \<Rightarrow> nat \<Rightarrow> 'a list \<Rightarrow> bool" where
  "len_between lo hi xs \<longleftrightarrow> lo \<le> length xs \<and> length xs \<le> hi"

definition is_lower_hex :: "char \<Rightarrow> bool" where
  "is_lower_hex c \<longleftrightarrow> c \<in> set ''0123456789abcdef''"

definition is_sha256_hex :: "string \<Rightarrow> bool" where
  "is_sha256_hex s \<longleftrightarrow> length s = 64 \<and> list_all is_lower_hex s"

definition is_alnum :: "char \<Rightarrow> bool" where
  "is_alnum c \<longleftrightarrow> (let n = of_char c :: nat in
     (48 \<le> n \<and> n \<le> 57) \<or> (65 \<le> n \<and> n \<le> 90) \<or> (97 \<le> n \<and> n \<le> 122))"

definition is_task_id_char :: "char \<Rightarrow> bool" where
  "is_task_id_char c \<longleftrightarrow> is_alnum c \<or> c \<in> set ''_.-''"

section \<open>Plans and tasks\<close>

record TaskSpec =
  ts_task_id :: string
  ts_title :: string
  ts_description :: string
  ts_dependencies :: "string list"
  ts_priority :: int
  ts_maximum_attempts :: int
  ts_input_references :: "string list"
  ts_expected_outputs :: "string list"
  ts_acceptance_criteria :: "string list"
  ts_required_evidence :: "string list"
  ts_required_tools :: "string list"
  ts_tool_permissions :: "string set"
  ts_estimated_context_tokens :: int
  ts_checkpoint_policy :: CheckpointPolicy
  ts_failure_policy :: FailurePolicy
  ts_parallelizable :: bool

definition unique_ordered_values :: "string list \<Rightarrow> bool" where
  "unique_ordered_values xs \<longleftrightarrow> distinct xs \<and> list_all (\<lambda>x. py_strip x \<noteq> []) xs"

definition reject_self_dependency :: "TaskSpec \<Rightarrow> bool" where
  "reject_self_dependency t \<longleftrightarrow> ts_task_id t \<notin> set (ts_dependencies t)"

definition valid_TaskSpec :: "TaskSpec \<Rightarrow> bool" where
  "valid_TaskSpec t \<longleftrightarrow>
     len_between 1 128 (ts_task_id t) \<and> list_all is_task_id_char (ts_task_id t) \<and>
     len_between 3 200 (ts_title t) \<and> no_nul (ts_title t) \<and>
     len_between 3 10000 (ts_description t) \<and> no_nul (ts_description t) \<and>
     0 \<le> ts_priority t \<and> ts_priority t \<le> 10000 \<and>
     1 \<le> ts_maximum_attempts t \<and> ts_maximum_attempts t \<le> 20 \<and>
     ts_expected_outputs t \<noteq> [] \<and> ts_acceptance_criteria t \<noteq> [] \<and>
     ts_required_evidence t \<noteq> [] \<and>
     128 \<le> ts_estimated_context_tokens t \<and> ts_estimated_context_tokens t \<le> 1000000 \<and>
     unique_ordered_values (ts_dependencies t) \<and> unique_ordered_values (ts_input_references t) \<and>
     unique_ordered_values (ts_expected_outputs t) \<and>
     unique_ordered_values (ts_acceptance_criteria t) \<and>
     unique_ordered_values (ts_required_evidence t) \<and>
     unique_ordered_values (ts_required_tools t) \<and>
     reject_self_dependency t"

record PlanSpec =
  ps_plan_id :: string
  ps_run_id :: string
  ps_version :: int
  ps_goal :: string
  ps_scope :: "string list"
  ps_assumptions :: "string list"
  ps_constraints :: "string list"
  ps_acceptance_criteria :: "string list"
  ps_research_questions :: "string list"
  ps_risks :: "string list"
  ps_expected_artifacts :: "string list"
  ps_verification_steps :: "string list"
  ps_rollback_considerations :: "string list"
  ps_tasks :: "TaskSpec list"
  ps_revision_reason :: string
  ps_previous_plan_id :: "string option"
  ps_created_at :: time

definition valid_PlanSpec :: "PlanSpec \<Rightarrow> bool" where
  "valid_PlanSpec p \<longleftrightarrow>
     no_nul (ps_plan_id p) \<and> no_nul (ps_run_id p) \<and> 1 \<le> ps_version p \<and>
     len_between 3 20000 (ps_goal p) \<and> no_nul (ps_goal p) \<and>
     ps_scope p \<noteq> [] \<and> ps_acceptance_criteria p \<noteq> [] \<and> ps_verification_steps p \<noteq> [] \<and>
     ps_rollback_considerations p \<noteq> [] \<and> len_between 1 100 (ps_tasks p) \<and>
     list_all valid_TaskSpec (ps_tasks p) \<and>
     len_between 3 2000 (ps_revision_reason p) \<and> no_nul (ps_revision_reason p) \<and>
     no_nul_opt (ps_previous_plan_id p)"

record RunRecord =
  rr_run_id :: string
  rr_owner_id :: string
  rr_objective :: string
  rr_state :: RunState
  rr_active_plan_id :: "string option"
  rr_active_task_id :: "string option"
  rr_repository_root :: "string option"
  rr_repository_snapshot_id :: "string option"
  rr_configuration_fingerprint :: string
  rr_version :: int
  rr_created_at :: time
  rr_updated_at :: time
  rr_finished_at :: "time option"

definition valid_RunRecord :: "RunRecord \<Rightarrow> bool" where
  "valid_RunRecord r \<longleftrightarrow>
     no_nul (rr_run_id r) \<and> no_nul (rr_owner_id r) \<and>
     len_between 1 100000 (rr_objective r) \<and> no_nul (rr_objective r) \<and>
     no_nul_opt (rr_active_plan_id r) \<and> no_nul_opt (rr_active_task_id r) \<and>
     no_nul_opt (rr_repository_root r) \<and> no_nul_opt (rr_repository_snapshot_id r) \<and>
     no_nul (rr_configuration_fingerprint r) \<and> 1 \<le> rr_version r"

record TaskRecord =
  tr_run_id :: string
  tr_plan_id :: string
  tr_spec :: TaskSpec
  tr_state :: TaskState
  tr_attempt_count :: int
  tr_version :: int
  tr_last_error_id :: "string option"
  tr_started_at :: "time option"
  tr_finished_at :: "time option"

definition attempts_within_bound :: "TaskRecord \<Rightarrow> bool" where
  "attempts_within_bound t \<longleftrightarrow> tr_attempt_count t \<le> ts_maximum_attempts (tr_spec t)"

definition valid_TaskRecord :: "TaskRecord \<Rightarrow> bool" where
  "valid_TaskRecord t \<longleftrightarrow>
     no_nul (tr_run_id t) \<and> no_nul (tr_plan_id t) \<and> valid_TaskSpec (tr_spec t) \<and>
     0 \<le> tr_attempt_count t \<and> 1 \<le> tr_version t \<and> no_nul_opt (tr_last_error_id t) \<and>
     attempts_within_bound t"

text \<open>\<open>TaskRecord(run_id=..., plan_id=..., spec=...)\<close> with the declared defaults.\<close>

definition new_TaskRecord :: "string \<Rightarrow> string \<Rightarrow> TaskSpec \<Rightarrow> TaskRecord" where
  "new_TaskRecord run_id plan_id spec =
     \<lparr>tr_run_id = run_id, tr_plan_id = plan_id, tr_spec = spec, tr_state = T_PENDING,
      tr_attempt_count = 0, tr_version = 1, tr_last_error_id = None, tr_started_at = None,
      tr_finished_at = None\<rparr>"

abbreviation tr_task_id :: "TaskRecord \<Rightarrow> string" where
  "tr_task_id t \<equiv> ts_task_id (tr_spec t)"

section \<open>Repository index\<close>

record RepositoryFile =
  rf_file_id :: string
  rf_snapshot_id :: string
  rf_relative_path :: string
  rf_content_hash :: string
  rf_size_bytes :: int
  rf_media_type :: string
  rf_language :: "string option"
  rf_change_kind :: FileChangeKind
  rf_is_deleted :: bool
  rf_indexed_at :: time

definition valid_RepositoryFile :: "RepositoryFile \<Rightarrow> bool" where
  "valid_RepositoryFile f \<longleftrightarrow>
     no_nul (rf_file_id f) \<and> no_nul (rf_snapshot_id f) \<and> no_nul (rf_relative_path f) \<and>
     is_sha256_hex (rf_content_hash f) \<and> 0 \<le> rf_size_bytes f \<and> no_nul (rf_media_type f) \<and>
     no_nul_opt (rf_language f)"

record RepositoryChunk =
  rc_chunk_id :: string
  rc_file_id :: string
  rc_snapshot_id :: string
  rc_relative_path :: string
  rc_content :: string
  rc_content_hash :: string
  rc_start_line :: int
  rc_end_line :: int
  rc_symbol_name :: "string option"
  rc_language :: "string option"
  rc_imports :: "string list"

definition valid_lines :: "RepositoryChunk \<Rightarrow> bool" where
  "valid_lines c \<longleftrightarrow> rc_start_line c \<le> rc_end_line c"

definition valid_RepositoryChunk :: "RepositoryChunk \<Rightarrow> bool" where
  "valid_RepositoryChunk c \<longleftrightarrow>
     no_nul (rc_chunk_id c) \<and> no_nul (rc_file_id c) \<and> no_nul (rc_snapshot_id c) \<and>
     no_nul (rc_relative_path c) \<and> no_nul (rc_content c) \<and> is_sha256_hex (rc_content_hash c) \<and>
     1 \<le> rc_start_line c \<and> 1 \<le> rc_end_line c \<and> no_nul_opt (rc_symbol_name c) \<and>
     no_nul_opt (rc_language c) \<and> valid_lines c"

record RepositorySnapshot =
  rs_snapshot_id :: string
  rs_root :: string
  rs_manifest_hash :: string
  rs_file_count :: int
  rs_total_bytes :: int
  rs_files :: "RepositoryFile list"
  rs_created_at :: time

definition valid_RepositorySnapshot :: "RepositorySnapshot \<Rightarrow> bool" where
  "valid_RepositorySnapshot s \<longleftrightarrow>
     no_nul (rs_snapshot_id s) \<and> no_nul (rs_root s) \<and> is_sha256_hex (rs_manifest_hash s) \<and>
     0 \<le> rs_file_count s \<and> 0 \<le> rs_total_bytes s \<and> list_all valid_RepositoryFile (rs_files s)"

record FileSummary =
  fs_summary_id :: string
  fs_snapshot_id :: string
  fs_relative_path :: string
  fs_source_hash :: string
  fs_text :: string
  fs_symbols :: "string list"
  fs_imports :: "string list"
  fs_valid :: bool
  fs_created_at :: time

definition valid_FileSummary :: "FileSummary \<Rightarrow> bool" where
  "valid_FileSummary s \<longleftrightarrow> no_nul (fs_summary_id s) \<and> no_nul (fs_snapshot_id s) \<and>
     no_nul (fs_relative_path s) \<and> no_nul (fs_source_hash s) \<and> no_nul (fs_text s)"

record RepositoryIndex =
  ri_snapshot :: RepositorySnapshot
  ri_chunks :: "RepositoryChunk list"
  ri_summaries :: "FileSummary list"
  ri_repository_map :: string
  ri_module_dependencies :: "(string \<times> string list) list"
  ri_warnings :: "string list"

definition valid_RepositoryIndex :: "RepositoryIndex \<Rightarrow> bool" where
  "valid_RepositoryIndex i \<longleftrightarrow> valid_RepositorySnapshot (ri_snapshot i) \<and>
     list_all valid_RepositoryChunk (ri_chunks i) \<and> list_all valid_FileSummary (ri_summaries i) \<and>
     no_nul (ri_repository_map i)"

section \<open>Tools, leases, requests, artifacts\<close>

record ToolDefinition =
  td_name :: string
  td_description :: string
  td_input_schema :: json
  td_output_schema :: json
  td_timeout_seconds :: rat
  td_required_permissions :: "string set"
  td_side_effect_class :: SideEffectClass
  td_retry_safe :: bool
  td_produces_evidence :: bool

definition is_tool_name_char :: "char \<Rightarrow> bool" where
  "is_tool_name_char c \<longleftrightarrow> (let n = of_char c :: nat in
     (48 \<le> n \<and> n \<le> 57) \<or> (97 \<le> n \<and> n \<le> 122) \<or> c \<in> set ''_.-'')"

definition is_tool_name :: "string \<Rightarrow> bool" where
  "is_tool_name s \<longleftrightarrow> (case s of [] \<Rightarrow> False | c # cs \<Rightarrow>
     (let n = of_char c :: nat in 97 \<le> n \<and> n \<le> 122) \<and> len_between 1 127 cs \<and>
     list_all is_tool_name_char cs)"

definition non_idempotent_not_retry_safe :: "ToolDefinition \<Rightarrow> bool" where
  "non_idempotent_not_retry_safe d \<longleftrightarrow>
     \<not> (td_side_effect_class d = NON_IDEMPOTENT \<and> td_retry_safe d)"

definition valid_ToolDefinition :: "ToolDefinition \<Rightarrow> bool" where
  "valid_ToolDefinition d \<longleftrightarrow>
     is_tool_name (td_name d) \<and> no_nul (td_description d) \<and>
     0 < td_timeout_seconds d \<and> td_timeout_seconds d \<le> 3600 \<and> non_idempotent_not_retry_safe d"

record ToolCall =
  tc_tool_call_id :: string
  tc_run_id :: string
  tc_task_id :: string
  tc_tool_name :: string
  tc_arguments :: json
  tc_arguments_hash :: string
  tc_idempotency_key :: string
  tc_side_effect_class :: SideEffectClass
  tc_status :: ToolCallStatus
  tc_attempt :: int
  tc_created_at :: time
  tc_started_at :: "time option"
  tc_finished_at :: "time option"

record ToolResult =
  tl_tool_result_id :: string
  tl_tool_call_id :: string
  tl_success :: bool
  tl_output :: json
  tl_output_hash :: string
  tl_exit_code :: "int option"
  tl_truncated :: bool
  tl_duration_seconds :: rat
  tl_created_at :: time

record LeaseRecord =
  le_run_id :: string
  le_owner_id :: string
  le_expires_at :: time
  le_fencing_token :: int
  le_version :: int
  le_acquired_at :: time
  le_renewed_at :: time

text \<open>
  \<open>LifecycleRequest.kind\<close> matches \<open>^(pause|cancel)$\<close> and \<open>status\<close> \<open>^(PENDING|APPLIED|REJECTED)$\<close>.
\<close>

datatype LifecycleKind = Pause | Cancel

datatype LifecycleStatus = LS_PENDING | LS_APPLIED | LS_REJECTED

record LifecycleRequest =
  lq_request_id :: string
  lq_run_id :: string
  lq_kind :: LifecycleKind
  lq_reason :: string
  lq_requested_by :: string
  lq_status :: LifecycleStatus
  lq_created_at :: time
  lq_applied_at :: "time option"

definition valid_LifecycleRequest :: "LifecycleRequest \<Rightarrow> bool" where
  "valid_LifecycleRequest q \<longleftrightarrow>
     no_nul (lq_request_id q) \<and> no_nul (lq_run_id q) \<and> len_between 1 4000 (lq_reason q) \<and>
     no_nul (lq_reason q) \<and> no_nul (lq_requested_by q)"

record ArtifactRecord =
  ar_artifact_id :: string
  ar_run_id :: string
  ar_task_id :: "string option"
  ar_uri :: string
  ar_media_type :: string
  ar_content_hash :: string
  ar_size_bytes :: int
  ar_created_at :: time

definition valid_ArtifactRecord :: "ArtifactRecord \<Rightarrow> bool" where
  "valid_ArtifactRecord a \<longleftrightarrow> no_nul (ar_artifact_id a) \<and> no_nul (ar_run_id a) \<and>
     no_nul_opt (ar_task_id a) \<and> no_nul (ar_uri a) \<and> no_nul (ar_media_type a) \<and>
     is_sha256_hex (ar_content_hash a) \<and> 0 \<le> ar_size_bytes a"

section \<open>Evidence and claims\<close>

record EvidenceRecord =
  er_evidence_id :: string
  er_run_id :: string
  er_evidence_type :: EvidenceType
  er_source :: string
  er_source_location :: "string option"
  er_content_hash :: "string option"
  er_snapshot_id :: "string option"
  er_related_task_id :: "string option"
  er_reliability :: rat
  er_excerpt :: string
  er_verification_status :: VerificationStatus
  er_metadata :: json
  er_created_at :: time

definition is_prefixed_id :: "string \<Rightarrow> string \<Rightarrow> bool" where
  "is_prefixed_id prefix s \<longleftrightarrow>
     take (length prefix) s = prefix \<and> length prefix < length s \<and>
     list_all (\<lambda>c. is_alnum c \<or> c \<in> set ''_-'') (drop (length prefix) s)"

definition primary_evidence_has_hash :: "EvidenceRecord \<Rightarrow> bool" where
  "primary_evidence_has_hash e \<longleftrightarrow>
     (er_evidence_type e \<in> {REPOSITORY_FILE, REPOSITORY_SNAPSHOT, TEST_RESULT, COMMAND_RESULT,
        ARTIFACT, EXTERNAL_SOURCE} \<longrightarrow> er_content_hash e \<noteq> None)"

definition valid_EvidenceRecord :: "EvidenceRecord \<Rightarrow> bool" where
  "valid_EvidenceRecord e \<longleftrightarrow>
     is_prefixed_id ''EVID-'' (er_evidence_id e) \<and> no_nul (er_run_id e) \<and> no_nul (er_source e) \<and>
     no_nul_opt (er_source_location e) \<and>
     (case er_content_hash e of None \<Rightarrow> True | Some h \<Rightarrow> is_sha256_hex h) \<and>
     no_nul_opt (er_snapshot_id e) \<and> no_nul_opt (er_related_task_id e) \<and>
     0 \<le> er_reliability e \<and> er_reliability e \<le> 1 \<and> length (er_excerpt e) \<le> 4000 \<and>
     no_nul (er_excerpt e) \<and> primary_evidence_has_hash e"

record Claim =
  cl_claim_id :: string
  cl_run_id :: string
  cl_text :: string
  cl_kind :: ClaimKind
  cl_evidence_ids :: "string list"
  cl_related_task_id :: "string option"

definition valid_Claim :: "Claim \<Rightarrow> bool" where
  "valid_Claim c \<longleftrightarrow>
     is_prefixed_id ''CLAIM-'' (cl_claim_id c) \<and> no_nul (cl_run_id c) \<and>
     len_between 1 10000 (cl_text c) \<and> no_nul (cl_text c) \<and> cl_evidence_ids c \<noteq> [] \<and>
     no_nul_opt (cl_related_task_id c) \<and> distinct (cl_evidence_ids c)"

section \<open>Context\<close>

record ContextItem =
  ci_item_id :: string
  ci_category :: string
  ci_content :: string
  ci_estimated_tokens :: int
  ci_priority :: int
  ci_source_refs :: "string list"
  ci_evidence_ids :: "string list"
  ci_mandatory :: bool
  ci_created_at :: time

definition valid_ContextItem :: "ContextItem \<Rightarrow> bool" where
  "valid_ContextItem i \<longleftrightarrow> no_nul (ci_item_id i) \<and> no_nul (ci_category i) \<and> no_nul (ci_content i) \<and>
     0 \<le> ci_estimated_tokens i \<and> 0 \<le> ci_priority i \<and> ci_priority i \<le> 1000"

record SummaryRecord =
  su_summary_id :: string
  su_run_id :: string
  su_level :: SummaryLevel
  su_content :: string
  su_estimated_tokens :: int
  su_source_item_ids :: "string list"
  su_source_hashes :: "(string \<times> string) list"
  su_source_summary_ids :: "string list"
  su_retained_constraints :: "string list"
  su_retained_questions :: "string list"
  su_retained_decisions :: "string list"
  su_evidence_ids :: "string list"
  su_removed_item_ids :: "string list"
  su_generation :: int
  su_valid :: bool
  su_invalidated_reason :: "string option"
  su_created_at :: time

definition source_manifest_complete :: "SummaryRecord \<Rightarrow> bool" where
  "source_manifest_complete s \<longleftrightarrow>
     fst ` set (su_source_hashes s) = set (su_source_item_ids s) \<and>
     \<not> (1 < su_generation s \<and> su_retained_constraints s = [])"

definition valid_SummaryRecord :: "SummaryRecord \<Rightarrow> bool" where
  "valid_SummaryRecord s \<longleftrightarrow>
     no_nul (su_summary_id s) \<and> no_nul (su_run_id s) \<and> no_nul (su_content s) \<and>
     0 \<le> su_estimated_tokens s \<and> su_source_item_ids s \<noteq> [] \<and>
     1 \<le> su_generation s \<and> su_generation s \<le> 3 \<and> no_nul_opt (su_invalidated_reason s) \<and>
     source_manifest_complete s"

record ContextSnapshot =
  cx_context_id :: string
  cx_run_id :: string
  cx_task_id :: "string option"
  cx_budget_tokens :: int
  cx_used_tokens :: int
  cx_item_ids :: "string list"
  cx_summary_ids :: "string list"
  cx_removed_item_ids :: "string list"
  cx_created_at :: time

definition valid_ContextSnapshot :: "ContextSnapshot \<Rightarrow> bool" where
  "valid_ContextSnapshot s \<longleftrightarrow>
     no_nul (cx_context_id s) \<and> no_nul (cx_run_id s) \<and> no_nul_opt (cx_task_id s) \<and>
     0 < cx_budget_tokens s \<and> 0 \<le> cx_used_tokens s \<and> cx_used_tokens s \<le> cx_budget_tokens s"

section \<open>Task outcomes\<close>

record TaskOutcome =
  to_evidence_ids :: "string list"
  to_artifact_ids :: "string list"
  to_changed_files :: "string list"
  to_test_results :: "string list"
  to_repository_snapshot_id :: "string option"
  to_context_note :: string

text \<open>\<open>Settings\<close>: the fields the modelled components read.\<close>

record RetryPolicy =
  rp_maximum_attempts :: int
  rp_base_delay_seconds :: rat
  rp_maximum_delay_seconds :: rat
  rp_multiplier :: rat
  rp_jitter_ratio :: rat

record Settings =
  st_retry :: RetryPolicy
  st_checkpoint_every_tasks :: int
  st_maximum_concurrency :: int
  st_lease_ttl_seconds :: int
  st_lease_renewal_seconds :: int
  st_repository_root :: string
  st_repository_drift_policy :: RepositoryDriftPolicy
  st_checkpoint_retention_count :: int
  st_event_retention_days :: int
  st_artifact_retention_days :: int
  st_fingerprint :: string

end
