(* ===== verification/Task_Graph.thy ===== *)
theory Task_Graph
  imports Models "HOL-Library.Multiset"
begin

text \<open>
  \<open>domain/plan.py\<close>: validation of plan graphs, the stable topological order (Kahn's algorithm),
  the selection of ready tasks and the grouping into dependency levels.

  A Python dict over task IDs is a total function with the initial value of its entries where
  every key the code reads is present, and a \<open>map\<close> where a missing key raises. Kahn's loop runs
  on fuel: one unit per task that leaves the queue; \<open>topological_order\<close> gives it one more unit
  than there are tasks, and \<open>topological_order_spec\<close> shows that this is enough.
\<close>

section \<open>Topological order\<close>

type_synonym graph_state = "(string \<Rightarrow> int) \<times> (string \<Rightarrow> string list)"

fun add_dependencies ::
  "string set \<Rightarrow> string \<Rightarrow> string list \<Rightarrow> graph_state \<Rightarrow> exn + graph_state" where
  "add_dependencies by_id tid [] g = Inr g"
| "add_dependencies by_id tid (d # ds) (indegree, dependents) =
     (if d \<notin> by_id then Inl (Durable PlanValidationError)
      else add_dependencies by_id tid ds
        (indegree(tid := indegree tid + 1), dependents(d := dependents d @ [tid])))"

fun build_graph :: "string set \<Rightarrow> TaskSpec list \<Rightarrow> graph_state \<Rightarrow> exn + graph_state" where
  "build_graph by_id [] g = Inr g"
| "build_graph by_id (t # ts) g =
     (case add_dependencies by_id (ts_task_id t) (ts_dependencies t) g of
        Inl e \<Rightarrow> Inl e | Inr g' \<Rightarrow> build_graph by_id ts g')"

text \<open>The inner loop: decrement every dependent, append those that reach zero to the queue.\<close>

fun relax :: "(string \<Rightarrow> int) \<Rightarrow> string list \<Rightarrow> string list \<Rightarrow> (string \<Rightarrow> int) \<times> string list" where
  "relax indegree queue [] = (indegree, queue)"
| "relax indegree queue (x # xs) =
     (let indegree' = indegree(x := indegree x - 1)
      in relax indegree' (if indegree' x = 0 then queue @ [x] else queue) xs)"

fun kahn_loop :: "nat \<Rightarrow> (string \<Rightarrow> string list) \<Rightarrow> (string \<Rightarrow> int) \<Rightarrow> string list \<Rightarrow>
    string list \<Rightarrow> string list option" where
  "kahn_loop fuel dependents indegree [] result = Some result"
| "kahn_loop 0 dependents indegree (t # queue) result = None"
| "kahn_loop (Suc fuel) dependents indegree (t # queue) result =
     (case relax indegree queue (sort (dependents t)) of
        (indegree', queue') \<Rightarrow> kahn_loop fuel dependents indegree' queue' (result @ [t]))"

definition topological_order :: "TaskSpec list \<Rightarrow> exn + string list" where
  "topological_order tasks =
     (let ids = map ts_task_id tasks in
      case build_graph (set ids) tasks (\<lambda>_. 0, \<lambda>_. []) of
        Inl e \<Rightarrow> Inl e
      | Inr (indegree, dependents) \<Rightarrow>
          (let queue = sort (filter (\<lambda>x. indegree x = 0) (remdups ids)) in
           case kahn_loop (Suc (length tasks)) dependents indegree queue [] of
             None \<Rightarrow> Inl OutOfFuel
           | Some result \<Rightarrow>
               if length result \<noteq> length tasks then Inl (Durable PlanValidationError)
               else Inr result))"

section \<open>Plan validation\<close>

definition dict_spec :: "TaskSpec list \<Rightarrow> string \<Rightarrow> TaskSpec option" where
  "dict_spec tasks k = map_of (rev (map (\<lambda>t. (ts_task_id t, t)) tasks)) k"

definition deps_of :: "TaskSpec list \<Rightarrow> string \<Rightarrow> string list" where
  "deps_of tasks k = (case dict_spec tasks k of None \<Rightarrow> [] | Some t \<Rightarrow> ts_dependencies t)"

definition SERIAL_ONLY_PERMISSIONS :: "string set" where
  "SERIAL_ONLY_PERMISSIONS = {''repository.write'', ''repository.patch''}"

definition max_default :: "int \<Rightarrow> int list \<Rightarrow> int" where
  "max_default d xs = (if xs = [] then d else Max (set xs))"

text \<open>
  \<open>depth\<close> and \<open>level\<close> of the source are the same loop, \<open>1 + max(..., default)\<close>, with default 0
  and -1. An order that lists dependencies first has an entry for each when it is read.
\<close>

fun levels :: "int \<Rightarrow> (string \<Rightarrow> string list) \<Rightarrow> string list \<Rightarrow> (string \<Rightarrow> int) \<Rightarrow> (string \<Rightarrow> int)" where
  "levels d deps [] level = level"
| "levels d deps (t # ts) level =
     levels d deps ts (level(t := 1 + max_default d (map level (deps t))))"

fun check_tasks :: "string set \<Rightarrow> TaskSpec list \<Rightarrow> exn + unit" where
  "check_tasks known [] = Inr ()"
| "check_tasks known (t # ts) =
     (if set (ts_dependencies t) - known \<noteq> {} then Inl (Durable PlanValidationError)
      else if length (py_split (ts_description t)) < 3 then Inl (Durable PlanValidationError)
      else if ts_estimated_context_tokens t > 250000 then Inl (Durable PlanValidationError)
      else if ts_parallelizable t \<and> ts_tool_permissions t \<inter> SERIAL_ONLY_PERMISSIONS \<noteq> {}
        then Inl (Durable PlanValidationError)
      else check_tasks known ts)"

definition validate_plan :: "int \<Rightarrow> PlanSpec \<Rightarrow> exn + PlanSpec" where
  "validate_plan maximum_depth plan =
     (let tasks = ps_tasks plan; known = set (map ts_task_id tasks) in
      if card known \<noteq> length tasks then Inl (Durable PlanValidationError)
      else case check_tasks known tasks of
        Inl e \<Rightarrow> Inl e
      | Inr _ \<Rightarrow>
          (case topological_order tasks of
             Inl e \<Rightarrow> Inl e
           | Inr ordered \<Rightarrow>
               (let depth = levels 0 (deps_of tasks) ordered (\<lambda>_. 0) in
                if max_default 0 (map depth ordered) > maximum_depth
                then Inl (Durable PlanValidationError) else Inr plan)))"

definition parallel_batches :: "TaskSpec list \<Rightarrow> exn + string list list" where
  "parallel_batches tasks =
     (case topological_order tasks of
        Inl e \<Rightarrow> Inl e
      | Inr ordered \<Rightarrow>
          (let level = levels (- 1) (deps_of tasks) ordered (\<lambda>_. 0);
               top = max_default (- 1) (map level ordered)
           in Inr (map (\<lambda>c. filter (\<lambda>x. level x = int c) ordered) [0 ..< nat (top + 1)])))"

section \<open>Ready tasks\<close>

definition dict_record :: "TaskRecord list \<Rightarrow> string \<Rightarrow> TaskRecord option" where
  "dict_record records k = map_of (rev (map (\<lambda>r. (tr_task_id r, r)) records)) k"

text \<open>\<open>all(by_id[item].state == SUCCEEDED ...)\<close> stops at the first unfinished dependency.\<close>

fun all_succeeded :: "(string \<Rightarrow> TaskRecord option) \<Rightarrow> string list \<Rightarrow> exn + bool" where
  "all_succeeded by_id [] = Inr True"
| "all_succeeded by_id (d # ds) =
     (case by_id d of None \<Rightarrow> Inl KeyError
      | Some r \<Rightarrow> if tr_state r = T_SUCCEEDED then all_succeeded by_id ds else Inr False)"

definition startable :: "TaskState \<Rightarrow> bool" where
  "startable s \<longleftrightarrow> s \<in> {T_PENDING, T_READY, T_FAILED_RETRYABLE}"

fun select_ready ::
  "(string \<Rightarrow> TaskRecord option) \<Rightarrow> TaskRecord list \<Rightarrow> exn + TaskRecord list" where
  "select_ready by_id [] = Inr []"
| "select_ready by_id (r # rs) =
     (if \<not> startable (tr_state r) then select_ready by_id rs
      else case all_succeeded by_id (ts_dependencies (tr_spec r)) of
        Inl e \<Rightarrow> Inl e
      | Inr ok \<Rightarrow> (case select_ready by_id rs of Inl e \<Rightarrow> Inl e
          | Inr rest \<Rightarrow> Inr (if ok then r # rest else rest)))"

definition ready_tasks :: "TaskRecord list \<Rightarrow> exn + TaskRecord list" where
  "ready_tasks records =
     (case select_ready (dict_record records) records of
        Inl e \<Rightarrow> Inl e
      | Inr ready \<Rightarrow> Inr (sort_key (\<lambda>r. (ts_priority (tr_spec r), tr_task_id r)) ready))"

section \<open>The graph the algorithm builds\<close>

lemma count_list_filter: "count_list xs x = length (filter (\<lambda>y. y = x) xs)"
  by (induction xs) auto

lemma add_dependencies_Inr:
  assumes "add_dependencies K tid ds (ind, dep) = Inr (ind', dep')"
  shows "set ds \<subseteq> K \<and>
    ind' = ind(tid := ind tid + int (length ds)) \<and>
    (\<forall>d x. count_list (dep' d) x = count_list (dep d) x + (if x = tid then count_list ds d else 0))"
  using assms
proof (induction ds arbitrary: ind dep)
  case (Cons d ds)
  then have "d \<in> K" by (auto split: if_splits)
  with Cons.prems have eq: "add_dependencies K tid ds
      (ind(tid := ind tid + 1), dep(d := dep d @ [tid])) = Inr (ind', dep')" by simp
  show ?case using Cons.IH[OF eq] \<open>d \<in> K\<close> by (auto simp: fun_eq_iff)
qed simp

lemma add_dependencies_total:
  "set ds \<subseteq> K \<Longrightarrow> \<exists>g'. add_dependencies K tid ds g = Inr g'"
  by (induction ds arbitrary: g) auto

lemma add_dependencies_Inl: "add_dependencies K tid ds g = Inl e \<Longrightarrow> e = Durable PlanValidationError"
proof (induction ds arbitrary: g)
  case Nil
  then show ?case by (cases g) simp
next
  case (Cons d ds)
  obtain ind dep where g: "g = (ind, dep)" by force
  show ?case
  proof (cases "d \<in> K")
    case True
    then have "add_dependencies K tid ds (ind(tid := ind tid + 1), dep(d := dep d @ [tid])) = Inl e"
      using Cons.prems g by simp
    then show ?thesis by (rule Cons.IH)
  next
    case False
    then show ?thesis using Cons.prems g by simp
  qed
qed

definition dep_count :: "TaskSpec list \<Rightarrow> string \<Rightarrow> string \<Rightarrow> nat" where
  "dep_count tasks x d =
     sum_list (map (\<lambda>t. if ts_task_id t = x then count_list (ts_dependencies t) d else 0) tasks)"

definition dep_total :: "TaskSpec list \<Rightarrow> string \<Rightarrow> nat" where
  "dep_total tasks x =
     sum_list (map (\<lambda>t. if ts_task_id t = x then length (ts_dependencies t) else 0) tasks)"

lemma dep_count_simps:
  "dep_count [] x d = 0"
  "dep_count (t # ts) x d = (if ts_task_id t = x then count_list (ts_dependencies t) d else 0) + dep_count ts x d"
  "dep_total [] x = 0"
  "dep_total (t # ts) x = (if ts_task_id t = x then length (ts_dependencies t) else 0) + dep_total ts x"
  by (simp_all add: dep_count_def dep_total_def)

lemma build_graph_Inr:
  assumes "build_graph K tasks (ind, dep) = Inr (ind', dep')"
  shows "(\<forall>t \<in> set tasks. set (ts_dependencies t) \<subseteq> K) \<and>
    (\<forall>x. ind' x = ind x + int (dep_total tasks x)) \<and>
    (\<forall>d x. count_list (dep' d) x = count_list (dep d) x + dep_count tasks x d)"
  using assms
proof (induction tasks arbitrary: ind dep)
  case (Cons t ts)
  then obtain i1 d1 where
    step: "add_dependencies K (ts_task_id t) (ts_dependencies t) (ind, dep) = Inr (i1, d1)" and
    rest: "build_graph K ts (i1, d1) = Inr (ind', dep')"
    by (auto split: sum.splits)
  show ?case using add_dependencies_Inr[OF step] Cons.IH[OF rest] by (auto simp: dep_count_simps)
qed (simp add: dep_count_simps)

lemma build_graph_total:
  "\<forall>t \<in> set tasks. set (ts_dependencies t) \<subseteq> K \<Longrightarrow> \<exists>g'. build_graph K tasks g = Inr g'"
proof (induction tasks arbitrary: g)
  case (Cons t ts)
  then obtain g1 where "add_dependencies K (ts_task_id t) (ts_dependencies t) g = Inr g1"
    using add_dependencies_total[of "ts_dependencies t" K "ts_task_id t" g] by auto
  moreover have "\<exists>g2. build_graph K ts g1 = Inr g2" using Cons.prems by (intro Cons.IH) simp
  moreover obtain g2 where "build_graph K ts g1 = Inr g2" using calculation by blast
  ultimately show ?case by simp
qed simp

lemma build_graph_Inl: "build_graph K tasks g = Inl e \<Longrightarrow> e = Durable PlanValidationError"
proof (induction tasks arbitrary: g)
  case (Cons t ts)
  show ?case
  proof (cases "add_dependencies K (ts_task_id t) (ts_dependencies t) g")
    case (Inl e')
    then show ?thesis using Cons.prems add_dependencies_Inl[OF Inl] by simp
  next
    case (Inr g')
    then have "build_graph K ts g' = Inl e" using Cons.prems by simp
    then show ?thesis by (rule Cons.IH)
  qed
qed simp

lemma dep_count_distinct:
  assumes "distinct (map ts_task_id tasks)" and "t \<in> set tasks"
  shows "dep_count tasks (ts_task_id t) d = count_list (ts_dependencies t) d"
    and "dep_total tasks (ts_task_id t) = length (ts_dependencies t)"
proof -
  have z: "dep_count ts x d = 0 \<and> dep_total ts x = 0" if "x \<notin> ts_task_id ` set ts" for ts x
    using that by (induction ts) (auto simp: dep_count_simps)
  show "dep_count tasks (ts_task_id t) d = count_list (ts_dependencies t) d"
    using assms by (induction tasks) (auto simp: dep_count_simps z image_iff)
  show "dep_total tasks (ts_task_id t) = length (ts_dependencies t)"
    using assms by (induction tasks) (auto simp: dep_count_simps z image_iff)
qed

section \<open>Kahn's loop\<close>

lemma relax_spec:
  assumes "relax ind q xs = (ind', q')" and "\<forall>x \<in> set xs. int (count_list xs x) \<le> ind x"
  shows "(\<forall>x. ind' x = ind x - int (count_list xs x)) \<and>
    (\<exists>news. q' = q @ news \<and> distinct news \<and>
       set news = {x \<in> set xs. int (count_list xs x) = ind x})"
  using assms
proof (induction xs arbitrary: ind q)
  case (Cons x xs)
  define ind1 where "ind1 = ind(x := ind x - 1)"
  define q1 where "q1 = (if ind1 x = 0 then q @ [x] else q)"
  have run: "relax ind1 q1 xs = (ind', q')"
    using Cons.prems(1) by (simp add: ind1_def q1_def Let_def)
  have cx: "int (count_list xs x) + 1 \<le> ind x" using Cons.prems(2) by simp
  have "int (count_list xs y) \<le> ind1 y" if "y \<in> set xs" for y
  proof (cases "y = x")
    case True
    then show ?thesis using cx by (simp add: ind1_def)
  next
    case False
    then have "int (count_list (x # xs) y) \<le> ind y" using Cons.prems(2) that by (meson list.set_intros(2))
    then show ?thesis using False by (simp add: ind1_def)
  qed
  then have pre: "\<forall>y \<in> set xs. int (count_list xs y) \<le> ind1 y" by blast
  obtain news where news: "q' = q1 @ news" "distinct news"
    "set news = {y \<in> set xs. int (count_list xs y) = ind1 y}"
    and ind': "\<forall>y. ind' y = ind1 y - int (count_list xs y)"
    using Cons.IH[OF run pre] by blast
  have A: "\<forall>y. ind' y = ind y - int (count_list (x # xs) y)" using ind' by (simp add: ind1_def)
  show ?case
  proof (cases "ind1 x = 0")
    case True
    then have "count_list xs x = 0" using cx by (simp add: ind1_def)
    then have "x \<notin> set xs" by (simp add: count_list_0_iff)
    have c0: "count_list xs x = 0" using \<open>x \<notin> set xs\<close> by (simp add: count_list_0_iff)
    have "q' = q @ (x # news)" using True news(1) by (simp add: q1_def)
    moreover have "distinct (x # news)" using news(2,3) \<open>x \<notin> set xs\<close> by simp
    moreover have "set (x # news) = {y \<in> set (x # xs). int (count_list (x # xs) y) = ind y}"
    proof (rule set_eqI)
      fix y
      show "y \<in> set (x # news) \<longleftrightarrow> y \<in> {y \<in> set (x # xs). int (count_list (x # xs) y) = ind y}"
        using True news(3) c0 \<open>x \<notin> set xs\<close> by (cases "y = x") (simp_all add: ind1_def)
    qed
    ultimately show ?thesis using A by blast
  next
    case False
    have "set news = {y \<in> set (x # xs). int (count_list (x # xs) y) = ind y}"
    proof (rule set_eqI)
      fix y
      have inxs: "int (count_list xs x) = ind x - 1 \<Longrightarrow> x \<in> set xs"
      proof (rule ccontr)
        assume that: "int (count_list xs x) = ind x - 1"
        assume "x \<notin> set xs"
        then have "count_list xs x = 0" by (simp add: count_list_0_iff)
        then show False using that False by (simp add: ind1_def)
      qed
      show "y \<in> set news \<longleftrightarrow> y \<in> {y \<in> set (x # xs). int (count_list (x # xs) y) = ind y}"
      proof (cases "y = x")
        case True
        have "x \<in> set news \<longleftrightarrow> x \<in> set xs \<and> int (count_list xs x) = ind x - 1"
          using news(3) by (simp add: ind1_def)
        also have "\<dots> \<longleftrightarrow> int (count_list xs x) = ind x - 1" using inxs by blast
        also have "\<dots> \<longleftrightarrow> int (count_list (x # xs) x) = ind x" by (simp, linarith)
        finally show ?thesis using True by simp
      next
        case False
        then show ?thesis using news(3) by (simp add: ind1_def)
      qed
    qed
    then show ?thesis using A False news by (auto simp: q1_def)
  qed
qed simp

definition task_ids :: "TaskSpec list \<Rightarrow> string set" where
  "task_ids tasks = set (map ts_task_id tasks)"

definition dep_rel :: "TaskSpec list \<Rightarrow> (string \<times> string) set" where
  "dep_rel tasks = {(d, x). x \<in> task_ids tasks \<and> d \<in> set (deps_of tasks x)}"

definition graph_of :: "TaskSpec list \<Rightarrow> (string \<Rightarrow> string list) \<Rightarrow> bool" where
  "graph_of tasks dependents \<longleftrightarrow> (\<forall>d x. count_list (dependents d) x =
     (if x \<in> task_ids tasks then count_list (deps_of tasks x) d else 0))"

definition lists_deps_first :: "(string \<Rightarrow> string list) \<Rightarrow> string list \<Rightarrow> bool" where
  "lists_deps_first deps order \<longleftrightarrow>
     (\<forall>xs x ys. order = xs @ x # ys \<longrightarrow> set (deps x) \<subseteq> set xs)"

definition kahn_inv :: "TaskSpec list \<Rightarrow> (string \<Rightarrow> int) \<Rightarrow> string list \<Rightarrow> string list \<Rightarrow> bool" where
  "kahn_inv tasks ind queue result \<longleftrightarrow>
     (\<forall>x \<in> task_ids tasks.
        ind x = int (length (filter (\<lambda>d. d \<notin> set result) (deps_of tasks x)))) \<and>
     distinct (result @ queue) \<and>
     set (result @ queue) = {x \<in> task_ids tasks. ind x = 0} \<and>
     lists_deps_first (deps_of tasks) result"

lemma finite_task_ids [simp]: "finite (task_ids tasks)"
  by (simp add: task_ids_def)

lemma count_list_sort [simp]: "count_list (sort xs) x = count_list (xs :: string list) x"
  by (simp flip: count_mset)

lemma length_filter_minus:
  assumes "t \<notin> S"
  shows "length (filter (\<lambda>d. d \<notin> insert t S) xs) + count_list xs t = length (filter (\<lambda>d. d \<notin> S) xs)"
  using assms by (induction xs) auto

lemma lists_deps_first_snoc:
  "lists_deps_first deps (r @ [t]) \<longleftrightarrow> lists_deps_first deps r \<and> set (deps t) \<subseteq> set r"
proof
  assume a: "lists_deps_first deps (r @ [t])"
  have "set (deps x) \<subseteq> set xs" if "r = xs @ x # ys" for xs x ys
    using a that unfolding lists_deps_first_def by (metis append_Cons append_assoc)
  then have "lists_deps_first deps r" unfolding lists_deps_first_def by blast
  then show "lists_deps_first deps r \<and> set (deps t) \<subseteq> set r"
    using a unfolding lists_deps_first_def by blast
next
  assume a: "lists_deps_first deps r \<and> set (deps t) \<subseteq> set r"
  show "lists_deps_first deps (r @ [t])"
    unfolding lists_deps_first_def
  proof (intro allI impI)
    fix xs x ys assume e: "r @ [t] = xs @ x # ys"
    show "set (deps x) \<subseteq> set xs"
    proof (cases ys rule: rev_cases)
      case Nil
      then show ?thesis using e a by simp
    next
      case (snoc zs z)
      then have "r = xs @ x # zs" using e by simp
      then show ?thesis using a unfolding lists_deps_first_def by blast
    qed
  qed
qed

lemma kahn_step:
  assumes g: "graph_of tasks dependents" and inv: "kahn_inv tasks ind (t # q) r"
    and run: "relax ind q (sort (dependents t)) = (ind', q')"
  shows "kahn_inv tasks ind' q' (r @ [t])"
proof -
  let ?n = "\<lambda>x. count_list (dependents t) x"
  have ind: "ind x = int (length (filter (\<lambda>d. d \<notin> set r) (deps_of tasks x)))" if "x \<in> task_ids tasks" for x
    using inv that by (simp add: kahn_inv_def)
  have dis: "distinct (r @ t # q)" and zero: "set (r @ t # q) = {x \<in> task_ids tasks. ind x = 0}"
    and first: "lists_deps_first (deps_of tasks) r"
    using inv by (simp_all add: kahn_inv_def)
  have tr: "t \<notin> set r" using dis by auto
  have t: "t \<in> task_ids tasks" "ind t = 0" using zero by auto
  have n: "?n x = (if x \<in> task_ids tasks then count_list (deps_of tasks x) t else 0)" for x
    using g by (simp add: graph_of_def)
  have split: "length (filter (\<lambda>d. d \<notin> set (r @ [t])) (deps_of tasks x)) + ?n x
      = length (filter (\<lambda>d. d \<notin> set r) (deps_of tasks x))" if "x \<in> task_ids tasks" for x
    using length_filter_minus[OF tr, of "deps_of tasks x"] that by (simp add: n)
  have le: "int (?n x) \<le> ind x" if "x \<in> task_ids tasks" for x
    using split[OF that] ind[OF that] by linarith
  have in_ids: "x \<in> task_ids tasks \<and> 0 < ?n x" if "x \<in> set (dependents t)" for x
    using that n[of x] by (metis count_list_0_iff gr0I)
  have pre: "\<forall>x \<in> set (sort (dependents t)). int (count_list (sort (dependents t)) x) \<le> ind x"
    using le in_ids by auto
  obtain news where news: "q' = q @ news" "distinct news"
    "set news = {x \<in> set (dependents t). int (?n x) = ind x}"
    and ind': "\<forall>x. ind' x = ind x - int (?n x)"
    using relax_spec[OF run pre] by auto
  have I1: "\<forall>x \<in> task_ids tasks.
      ind' x = int (length (filter (\<lambda>d. d \<notin> set (r @ [t])) (deps_of tasks x)))"
  proof
    fix x assume x: "x \<in> task_ids tasks"
    show "ind' x = int (length (filter (\<lambda>d. d \<notin> set (r @ [t])) (deps_of tasks x)))"
    proof -
      have "ind' x = ind x - int (?n x)" using ind' by blast
      then show ?thesis using split[OF x] ind[OF x] by linarith
    qed
  qed
  have disj: "set (r @ t # q) \<inter> set news = {}"
  proof -
    have False if x: "x \<in> set news" "x \<in> set (r @ t # q)" for x
    proof -
      have "ind x = 0" using x(2) zero by blast
      then have "?n x = 0" using x(1) news(3) by simp
      then show False using in_ids[of x] x(1) news(3) by simp
    qed
    then show ?thesis by blast
  qed
  have I2: "distinct ((r @ [t]) @ q')" using dis news(1,2) disj by auto
  have "set news = {x \<in> task_ids tasks. ind' x = 0 \<and> ind x \<noteq> 0}"
  proof (intro equalityI subsetI)
    fix x assume "x \<in> set news"
    then show "x \<in> {x \<in> task_ids tasks. ind' x = 0 \<and> ind x \<noteq> 0}"
      using news(3) in_ids[of x] ind' by auto
  next
    fix x assume x: "x \<in> {x \<in> task_ids tasks. ind' x = 0 \<and> ind x \<noteq> 0}"
    then have "int (?n x) = ind x" "?n x \<noteq> 0" using ind' by auto
    then show "x \<in> set news" using news(3) count_list_0_iff[of "dependents t" x] by auto
  qed
  moreover have "ind' x = 0" if "x \<in> task_ids tasks" "ind x = 0" for x
    using le[OF that(1)] that(2) ind' by simp
  ultimately have I3: "set ((r @ [t]) @ q') = {x \<in> task_ids tasks. ind' x = 0}"
    using zero news(1) by auto
  have "set (deps_of tasks t) \<subseteq> set r"
    using ind[OF t(1)] t(2) by (auto simp: filter_empty_conv)
  then have I4: "lists_deps_first (deps_of tasks) (r @ [t])"
    using first by (simp add: lists_deps_first_snoc)
  show ?thesis using I1 I2 I3 I4 unfolding kahn_inv_def by blast
qed

lemma kahn_loop_returns:
  assumes "graph_of tasks dependents" and "kahn_inv tasks ind queue result"
    and "card (task_ids tasks) \<le> fuel + length result"
  shows "\<exists>ind' r. kahn_loop fuel dependents ind queue result = Some r \<and> kahn_inv tasks ind' [] r"
  using assms(2,3)
proof (induction fuel arbitrary: ind queue result)
  case 0
  have "card (set (result @ queue)) \<le> card (task_ids tasks)"
    using 0(1) by (intro card_mono) (auto simp: kahn_inv_def)
  moreover have "card (set (result @ queue)) = length result + length queue"
    using 0(1) by (subst distinct_card) (auto simp: kahn_inv_def)
  ultimately have "length queue = 0" using 0(2) by linarith
  then have "queue = []" by simp
  then show ?case using 0(1) by auto
next
  case (Suc fuel)
  show ?case
  proof (cases queue)
    case Nil
    then show ?thesis using Suc.prems by auto
  next
    case (Cons t q)
    obtain ind' q' where run: "relax ind q (sort (dependents t)) = (ind', q')" by force
    have "kahn_inv tasks ind' q' (result @ [t])"
      using assms(1) Suc.prems(1) run unfolding Cons by (rule kahn_step)
    moreover have "card (task_ids tasks) \<le> fuel + length (result @ [t])" using Suc.prems(2) by simp
    ultimately show ?thesis using Suc.IH[of ind' q' "result @ [t]"] run Cons by auto
  qed
qed

section \<open>Correctness of the topological order\<close>

definition well_formed_tasks :: "TaskSpec list \<Rightarrow> bool" where
  "well_formed_tasks tasks \<longleftrightarrow> distinct (map ts_task_id tasks) \<and>
     (\<forall>t \<in> set tasks. set (ts_dependencies t) \<subseteq> task_ids tasks)"

lemma dict_spec_eq:
  assumes "distinct (map ts_task_id tasks)" and "t \<in> set tasks"
  shows "dict_spec tasks (ts_task_id t) = Some t"
proof -
  have "distinct (map ts_task_id (rev tasks))" using assms(1) by (metis distinct_rev rev_map)
  then show ?thesis
    using assms(2) unfolding dict_spec_def
    by (intro map_of_is_SomeI) (auto simp: comp_def rev_map)
qed

lemma deps_of_eq:
  assumes "distinct (map ts_task_id tasks)" and "t \<in> set tasks"
  shows "deps_of tasks (ts_task_id t) = ts_dependencies t"
  using dict_spec_eq[OF assms] by (simp add: deps_of_def)

lemma task_idsE:
  assumes "x \<in> task_ids tasks"
  obtains t where "t \<in> set tasks" "ts_task_id t = x"
  using assms by (auto simp: task_ids_def)

lemma deps_of_closed:
  assumes "well_formed_tasks tasks" and "x \<in> task_ids tasks"
  shows "set (deps_of tasks x) \<subseteq> task_ids tasks"
proof -
  obtain t where t: "t \<in> set tasks" "ts_task_id t = x" using assms(2) by (rule task_idsE)
  then have "deps_of tasks x = ts_dependencies t"
    using assms(1) deps_of_eq by (auto simp: well_formed_tasks_def)
  then show ?thesis using assms(1) t(1) by (simp add: well_formed_tasks_def)
qed

lemma build_graph_graph_of:
  assumes "well_formed_tasks tasks"
  obtains ind dep where "build_graph (task_ids tasks) tasks (\<lambda>_. 0, \<lambda>_. []) = Inr (ind, dep)"
    and "graph_of tasks dep"
    and "\<And>x. x \<in> task_ids tasks \<Longrightarrow> ind x = int (length (deps_of tasks x))"
proof -
  have d: "distinct (map ts_task_id tasks)"
    and sub: "\<forall>t \<in> set tasks. set (ts_dependencies t) \<subseteq> task_ids tasks"
    using assms by (simp_all add: well_formed_tasks_def)
  obtain ind dep where b: "build_graph (task_ids tasks) tasks (\<lambda>_. 0, \<lambda>_. []) = Inr (ind, dep)"
    using build_graph_total[OF sub, of "(\<lambda>_. 0, \<lambda>_. [])"] by force
  note spec = build_graph_Inr[OF b]
  have z: "dep_count ts x y = 0" if "x \<notin> ts_task_id ` set ts" for ts x y
    using that by (induction ts) (auto simp: dep_count_simps)
  have "graph_of tasks dep"
    unfolding graph_of_def
  proof (intro allI)
    fix y x
    show "count_list (dep y) x = (if x \<in> task_ids tasks then count_list (deps_of tasks x) y else 0)"
    proof (cases "x \<in> task_ids tasks")
      case True
      then obtain t where "t \<in> set tasks" "ts_task_id t = x" by (rule task_idsE)
      then show ?thesis using spec dep_count_distinct(1)[OF d] deps_of_eq[OF d] True by auto
    next
      case False
      then show ?thesis using spec z by (simp add: task_ids_def)
    qed
  qed
  moreover have "ind x = int (length (deps_of tasks x))" if "x \<in> task_ids tasks" for x
  proof -
    obtain t where "t \<in> set tasks" "ts_task_id t = x" using \<open>x \<in> task_ids tasks\<close> by (rule task_idsE)
    then show ?thesis using spec dep_count_distinct(2)[OF d] deps_of_eq[OF d] by auto
  qed
  ultimately show thesis using that b by blast
qed

lemma kahn_inv_init:
  assumes "\<And>x. x \<in> task_ids tasks \<Longrightarrow> ind x = int (length (deps_of tasks x))"
  shows "kahn_inv tasks ind (sort (filter (\<lambda>x. ind x = 0) (remdups (map ts_task_id tasks)))) []"
  using assms by (auto simp: kahn_inv_def lists_deps_first_def task_ids_def)

lemma lists_deps_first_acyclic:
  assumes "distinct r" and "lists_deps_first (deps_of tasks) r" and "task_ids tasks \<subseteq> set r"
  shows "acyclic (dep_rel tasks)"
proof -
  define pos where "pos x = length (takeWhile (\<lambda>y. y \<noteq> x) r)" for x
  have "pos d < pos x" if dx: "(d, x) \<in> dep_rel tasks" for d x
  proof -
    have x: "x \<in> set r" "d \<in> set (deps_of tasks x)" using dx assms(3) by (auto simp: dep_rel_def)
    obtain xs ys where r: "r = xs @ x # ys" using x(1) by (auto simp: in_set_conv_decomp)
    have d: "d \<in> set xs" using assms(2) r x(2) unfolding lists_deps_first_def by blast
    have "x \<notin> set xs" using assms(1) r by simp
    then have "takeWhile (\<lambda>y. y \<noteq> x) r = xs" unfolding r by (subst takeWhile_append2) auto
    moreover obtain us vs where xs: "xs = us @ d # vs" "d \<notin> set us"
      using d by (meson split_list_first)
    have "takeWhile (\<lambda>y. y \<noteq> d) r = us" unfolding r xs(1) append_assoc using xs(2) by (subst takeWhile_append2) auto
    ultimately show ?thesis using xs(1) by (simp add: pos_def)
  qed
  then have "dep_rel tasks \<subseteq> inv_image less_than pos" by auto
  then have "wf (dep_rel tasks)" using wf_subset wf_inv_image wf_less_than by blast
  then show ?thesis by (rule wf_acyclic)
qed

lemma finite_dep_rel: "finite (dep_rel tasks)"
proof -
  have "dep_rel tasks = (\<Union>x \<in> task_ids tasks. (\<lambda>d. (d, x)) ` set (deps_of tasks x))"
    by (auto simp: dep_rel_def)
  then show ?thesis by simp
qed

lemma stuck_cycle:
  assumes "well_formed_tasks tasks" and "kahn_inv tasks ind [] r" and "set r \<noteq> task_ids tasks"
  shows "\<not> acyclic (dep_rel tasks)"
proof
  assume "acyclic (dep_rel tasks)"
  then have wf: "wf (dep_rel tasks)" using finite_dep_rel by (intro finite_acyclic_wf)
  define Rem where "Rem = task_ids tasks - set r"
  have zero: "set r = {x \<in> task_ids tasks. ind x = 0}" using assms(2) by (simp add: kahn_inv_def)
  then obtain x0 where "x0 \<in> Rem" using assms(3) by (auto simp: Rem_def)
  then obtain x where x: "x \<in> Rem" "\<And>y. (y, x) \<in> dep_rel tasks \<Longrightarrow> y \<notin> Rem"
    using wfE_min[OF wf, of x0 Rem] by blast
  have "ind x \<noteq> 0" using x(1) zero by (auto simp: Rem_def)
  moreover have "ind x = int (length (filter (\<lambda>d. d \<notin> set r) (deps_of tasks x)))"
    using assms(2) x(1) unfolding kahn_inv_def Rem_def by blast
  ultimately have "filter (\<lambda>d. d \<notin> set r) (deps_of tasks x) \<noteq> []" by force
  then obtain d where d: "d \<in> set (deps_of tasks x)" "d \<notin> set r" by (auto simp: filter_empty_conv)
  moreover have "d \<in> task_ids tasks"
    using deps_of_closed[OF assms(1), of x] d(1) x(1) by (auto simp: Rem_def)
  ultimately show False using x by (auto simp: Rem_def dep_rel_def)
qed

lemma topological_order_wf:
  assumes wf: "well_formed_tasks tasks"
  shows "(\<exists>order. topological_order tasks = Inr order \<and> distinct order \<and>
      set order = task_ids tasks \<and> lists_deps_first (deps_of tasks) order \<and> acyclic (dep_rel tasks)) \<or>
    (topological_order tasks = Inl (Durable PlanValidationError) \<and> \<not> acyclic (dep_rel tasks))"
proof -
  have d: "distinct (map ts_task_id tasks)" using wf by (simp add: well_formed_tasks_def)
  then have card: "card (task_ids tasks) = length tasks"
    using distinct_card[OF d] by (simp add: task_ids_def)
  obtain ind dep where b: "build_graph (task_ids tasks) tasks (\<lambda>_. 0, \<lambda>_. []) = Inr (ind, dep)"
    and g: "graph_of tasks dep"
    and i: "\<And>x. x \<in> task_ids tasks \<Longrightarrow> ind x = int (length (deps_of tasks x))"
    using build_graph_graph_of[OF wf] by blast
  define q where "q = sort (filter (\<lambda>x. ind x = 0) (remdups (map ts_task_id tasks)))"
  obtain ind' r where loop: "kahn_loop (Suc (length tasks)) dep ind q [] = Some r"
    and inv: "kahn_inv tasks ind' [] r"
    using kahn_loop_returns[OF g kahn_inv_init[OF i], of "Suc (length tasks)"] card q_def by auto
  have r: "distinct r" "set r \<subseteq> task_ids tasks" "lists_deps_first (deps_of tasks) r"
    using inv by (auto simp: kahn_inv_def)
  have len: "length r = length tasks \<longleftrightarrow> set r = task_ids tasks"
    using r card distinct_card[OF r(1)] card_subset_eq[OF finite_task_ids r(2)] by auto
  have top: "topological_order tasks =
      (if length r \<noteq> length tasks then Inl (Durable PlanValidationError) else Inr r)"
    using b loop by (simp add: topological_order_def task_ids_def q_def)
  show ?thesis
  proof (cases "set r = task_ids tasks")
    case True
    then have "acyclic (dep_rel tasks)" using r by (intro lists_deps_first_acyclic[of r]) auto
    then show ?thesis using True len top r by simp
  next
    case False
    then have "\<not> acyclic (dep_rel tasks)" using wf inv by (intro stuck_cycle[of tasks ind' r])
    then show ?thesis using False len top by simp
  qed
qed

lemma topological_order_InrD:
  assumes "distinct (map ts_task_id tasks)" and "topological_order tasks = Inr order"
  shows "well_formed_tasks tasks" and "distinct order" and "set order = task_ids tasks"
    and "lists_deps_first (deps_of tasks) order"
proof -
  obtain g where "build_graph (task_ids tasks) tasks (\<lambda>_. 0, \<lambda>_. []) = Inr g"
    using assms(2) by (auto simp: topological_order_def task_ids_def split: sum.splits)
  moreover obtain ind dep where "g = (ind, dep)" by force
  ultimately show wf: "well_formed_tasks tasks"
    using assms(1) build_graph_Inr by (auto simp: well_formed_tasks_def)
  show "distinct order" "set order = task_ids tasks" "lists_deps_first (deps_of tasks) order"
    using topological_order_wf[OF wf] assms(2) by auto
qed

section \<open>Levels\<close>

lemma levels_frame: "x \<notin> set order \<Longrightarrow> levels d deps order level x = level x"
  by (induction order arbitrary: level) auto

lemma levels_eq:
  assumes "distinct order" and "order = xs @ x # ys" and "lists_deps_first deps order"
  shows "levels d deps order level x = 1 + max_default d (map (levels d deps order level) (deps x))"
proof -
  have app: "levels d deps (us @ vs) l = levels d deps vs (levels d deps us l)" for us vs l
    by (induction us arbitrary: l) auto
  define l where "l = levels d deps xs level"
  have sub: "set (deps x) \<subseteq> set xs" using assms(2,3) unfolding lists_deps_first_def by blast
  have lx: "levels d deps order level y = (l(x := 1 + max_default d (map l (deps x)))) y"
    if "y \<notin> set ys" for y
    using that assms(2) by (simp add: app l_def levels_frame)
  have m: "map (levels d deps order level) (deps x) = map l (deps x)"
    using sub assms(1,2) by (intro map_cong refl) (subst lx; auto)
  show ?thesis unfolding m using lx[of x] assms(1,2) by simp
qed

lemma max_default_ge: "y \<in> set xs \<Longrightarrow> y \<le> max_default d xs"
  by (auto simp: max_default_def)

lemma max_default_in: "xs \<noteq> [] \<Longrightarrow> max_default d xs \<in> set xs"
  using Max_in[of "set xs"] by (simp add: max_default_def)

text \<open>
  A chain is a list of tasks each of which depends on the one before it.
\<close>

fun dep_chain :: "(string \<Rightarrow> string list) \<Rightarrow> string list \<Rightarrow> bool" where
  "dep_chain deps (x # y # xs) \<longleftrightarrow> x \<in> set (deps y) \<and> dep_chain deps (y # xs)"
| "dep_chain deps _ = True"

lemma dep_chain_last_level:
  assumes "\<And>x. x \<in> S \<Longrightarrow> level x = 1 + max_default 0 (map level (deps x))"
    and "\<And>x. x \<in> S \<Longrightarrow> set (deps x) \<subseteq> S"
    and "dep_chain deps (x # xs)" and "last (x # xs) \<in> S" and "\<And>y. y \<in> S \<Longrightarrow> 1 \<le> level y"
  shows "int (length (x # xs)) \<le> level (last (x # xs))"
  using assms(3,4)
proof (induction xs rule: rev_induct)
  case Nil
  then show ?case using assms(5) by simp
next
  case (snoc y ys)
  have chain: "dep_chain deps (as @ [b, c]) \<longleftrightarrow> dep_chain deps (as @ [b]) \<and> b \<in> set (deps c)" for as b c
    by (induction as rule: dep_chain.induct[of _ deps, case_names 1 2 3]) auto
  let ?b = "last (x # ys)"
  have e: "x # ys @ [y] = butlast (x # ys) @ [?b, y]"
    by (metis append.assoc append_butlast_last_id append_Cons append_Nil list.distinct(1))
  have e': "x # ys = butlast (x # ys) @ [?b]" by simp
  have c: "dep_chain deps (x # ys)" "?b \<in> set (deps y)"
    using snoc.prems(1) chain[of "butlast (x # ys)" ?b y] e e' by auto
  have y: "y \<in> S" using snoc.prems(2) by simp
  then have b: "?b \<in> S" using assms(2) c(2) by blast
  have IH: "int (length (x # ys)) \<le> level ?b" using c(1) b by (rule snoc.IH)
  have "level ?b \<le> max_default 0 (map level (deps y))" using c(2) by (intro max_default_ge) simp
  then show ?case using assms(1)[OF y] IH by simp
qed

lemma dep_chain_snoc:
  "dep_chain deps (c @ [x, y]) \<longleftrightarrow> dep_chain deps (c @ [x]) \<and> x \<in> set (deps y)"
  by (induction c rule: dep_chain.induct[of _ deps, case_names 1 2 3]) auto

lemma dep_chain_extend:
  assumes "dep_chain deps c" and "c \<noteq> []" and "last c \<in> set (deps x)"
  shows "dep_chain deps (c @ [x])"
  using assms dep_chain_snoc[of deps "butlast c" "last c" x]
  by (metis append_Cons append_Nil append_assoc append_butlast_last_id)

text \<open>The levels of an accepted graph: each is one more than the largest below it.\<close>

locale levelled =
  fixes deps :: "string \<Rightarrow> string list" and S :: "string set" and level :: "string \<Rightarrow> int"
    and order :: "string list" and d :: int
  assumes dist: "distinct order" and set_order: "set order = S"
    and first: "lists_deps_first deps order"
    and level_def: "level = levels d deps order (\<lambda>_. 0)"
begin

lemma level_eq: "x \<in> S \<Longrightarrow> level x = 1 + max_default d (map level (deps x))"
proof -
  assume "x \<in> S"
  then obtain xs ys where "order = xs @ x # ys" using set_order by (auto simp: in_set_conv_decomp)
  then show ?thesis using levels_eq[OF dist _ first] level_def by metis
qed

lemma deps_closed: "x \<in> S \<Longrightarrow> set (deps x) \<subseteq> S"
proof -
  assume "x \<in> S"
  then obtain xs ys where "order = xs @ x # ys" using set_order by (auto simp: in_set_conv_decomp)
  then show ?thesis using first set_order unfolding lists_deps_first_def by fastforce
qed

lemma deps_induct [consumes 1, case_names step]:
  assumes "x \<in> S" and "\<And>x. x \<in> S \<Longrightarrow> (\<And>y. y \<in> set (deps x) \<Longrightarrow> P y) \<Longrightarrow> P x"
  shows "P x"
proof -
  have "\<forall>y \<in> set xs. P y" if "order = xs @ ys" for xs ys
    using that
  proof (induction xs arbitrary: ys rule: rev_induct)
    case (snoc z zs)
    then have zs: "\<forall>y \<in> set zs. P y" by simp
    have "set (deps z) \<subseteq> set zs" "z \<in> S"
      using snoc.prems first set_order unfolding lists_deps_first_def by force+
    then have "P z" using zs assms(2) by blast
    then show ?case using zs by simp
  qed simp
  from this[of order "[]"] show ?thesis using assms(1) set_order by simp
qed

lemma level_ge: "x \<in> S \<Longrightarrow> d + 1 \<le> level x"
proof (induction rule: deps_induct)
  case (step x)
  show ?case
  proof (cases "deps x")
    case Nil
    then show ?thesis using level_eq[OF step(1)] by (simp add: max_default_def)
  next
    case (Cons y ys)
    then have "level y \<le> max_default d (map level (deps x))" by (intro max_default_ge) simp
    then show ?thesis using level_eq[OF step(1)] step(2)[of y] Cons deps_closed[OF step(1)] by simp
  qed
qed

lemma level_dep: "x \<in> S \<Longrightarrow> y \<in> set (deps x) \<Longrightarrow> level y < level x"
  using level_eq[of x] max_default_ge[of "level y" "map level (deps x)" d] by simp

lemma level_pred:
  assumes "x \<in> S" and "level x \<noteq> d + 1"
  shows "\<exists>y \<in> set (deps x). level y = level x - 1"
proof -
  have "deps x \<noteq> []" using level_eq[OF assms(1)] assms(2) by (auto simp: max_default_def)
  then have "max_default d (map level (deps x)) \<in> level ` set (deps x)"
    using max_default_in[of "map level (deps x)" d] by simp
  then show ?thesis using level_eq[OF assms(1)] by auto
qed

lemma chain_ending:
  assumes "x \<in> S"
  shows "\<exists>c. dep_chain deps c \<and> c \<noteq> [] \<and> last c = x \<and> int (length c) = level x - d"
  using assms
proof (induction rule: deps_induct)
  case (step x)
  show ?case
  proof (cases "level x = d + 1")
    case True
    then show ?thesis by (intro exI[of _ "[x]"]) simp
  next
    case False
    then obtain y where y: "y \<in> set (deps x)" "level y = level x - 1" using level_pred[OF step(1)] by blast
    then obtain c where "dep_chain deps c" "c \<noteq> []" "last c = y" "int (length c) = level y - d"
      using step(2) deps_closed[OF step(1)] by blast
    then show ?thesis using y dep_chain_extend[of deps c x] by (intro exI[of _ "c @ [x]"]) simp
  qed
qed

lemma every_level: "x \<in> S \<Longrightarrow> d + 1 \<le> c \<Longrightarrow> c \<le> level x \<Longrightarrow> \<exists>y \<in> S. level y = c"
proof (induction "nat (level x - c)" arbitrary: x)
  case 0
  then show ?case by (intro bexI[of _ x]) auto
next
  case (Suc n)
  then have "level x \<noteq> d + 1" by auto
  then obtain y where y: "y \<in> set (deps x)" "level y = level x - 1"
    using level_pred[OF Suc.prems(1)] by blast
  then have "y \<in> S" using deps_closed[OF Suc.prems(1)] by blast
  moreover have "n = nat (level y - c)" "c \<le> level y" using Suc.hyps(2) y(2) by auto
  ultimately show ?case using Suc.hyps(1) Suc.prems(2) by blast
qed

end

text \<open>The order of an accepted plan, and no task at all for a rejected one.\<close>

definition accepted_order :: "TaskSpec list \<Rightarrow> string list" where
  "accepted_order tasks = (case topological_order tasks of
     Inr order \<Rightarrow> if distinct (map ts_task_id tasks) then order else [] | Inl _ \<Rightarrow> [])"

lemma accepted_order_eq:
  "distinct (map ts_task_id tasks) \<Longrightarrow> topological_order tasks = Inr order \<Longrightarrow> accepted_order tasks = order"
  by (simp add: accepted_order_def)

interpretation lv: levelled "deps_of tasks" "set (accepted_order tasks)"
    "levels d (deps_of tasks) (accepted_order tasks) (\<lambda>_. 0)" "accepted_order tasks" d
  for tasks :: "TaskSpec list" and d :: int
proof unfold_locales
  show "distinct (accepted_order tasks)"
    by (auto simp: accepted_order_def topological_order_InrD(2) split: sum.splits)
  show "lists_deps_first (deps_of tasks) (accepted_order tasks)"
    by (auto simp: accepted_order_def topological_order_InrD(4) lists_deps_first_def[of _ "[]"]
        split: sum.splits)
qed (rule refl)+

lemma chain_le_level:
  assumes "dep_chain (deps_of tasks) c" and "c \<noteq> []" and "last c \<in> set (accepted_order tasks)"
  shows "int (length c) \<le> levels 0 (deps_of tasks) (accepted_order tasks) (\<lambda>_. 0) (last c)"
proof -
  obtain x xs where c: "c = x # xs" using assms(2) by (cases c) auto
  have "1 \<le> levels 0 (deps_of tasks) (accepted_order tasks) (\<lambda>_. 0) y"
    if "y \<in> set (accepted_order tasks)" for y
    using lv.level_ge[OF that, of 0] by simp
  then show ?thesis unfolding c
    using assms lv.level_eq lv.deps_closed c
    by (intro dep_chain_last_level[of "set (accepted_order tasks)"]) auto
qed

lemma topological_order_cases:
  assumes "distinct (map ts_task_id tasks)"
  shows "case topological_order tasks of
      Inr order \<Rightarrow> distinct order \<and> set order = task_ids tasks \<and>
        lists_deps_first (deps_of tasks) order \<and> acyclic (dep_rel tasks)
    | Inl e \<Rightarrow> e = Durable PlanValidationError \<and>
        ((\<exists>t \<in> set tasks. \<not> set (ts_dependencies t) \<subseteq> task_ids tasks) \<or> \<not> acyclic (dep_rel tasks))"
proof (cases "well_formed_tasks tasks")
  case True
  then show ?thesis using topological_order_wf[OF True] by auto
next
  case False
  then have bad: "\<exists>t \<in> set tasks. \<not> set (ts_dependencies t) \<subseteq> task_ids tasks"
    using assms by (simp add: well_formed_tasks_def)
  have "\<nexists>g. build_graph (task_ids tasks) tasks (\<lambda>_. 0, \<lambda>_. []) = Inr g"
  proof
    assume "\<exists>g. build_graph (task_ids tasks) tasks (\<lambda>_. 0, \<lambda>_. []) = Inr g"
    then obtain i d where "build_graph (task_ids tasks) tasks (\<lambda>_. 0, \<lambda>_. []) = Inr (i, d)" by force
    then show False using build_graph_Inr bad by blast
  qed
  then obtain e where "build_graph (task_ids tasks) tasks (\<lambda>_. 0, \<lambda>_. []) = Inl e"
    by (meson sum.exhaust_sel sum.collapse(1) sum.collapse(2))
  then have "topological_order tasks = Inl (Durable PlanValidationError)"
    using build_graph_Inl by (fastforce simp: topological_order_def task_ids_def)
  then show ?thesis using bad by simp
qed

lemma topological_order_InlD:
  "distinct (map ts_task_id tasks) \<Longrightarrow> topological_order tasks = Inl e \<Longrightarrow> e = Durable PlanValidationError"
  by (drule topological_order_cases) simp

lemma check_tasks_InlD: "check_tasks known ts = Inl e \<Longrightarrow> e = Durable PlanValidationError"
  by (induction ts) (auto split: if_splits)

lemma validate_plan_InlD: "validate_plan n p = Inl e \<Longrightarrow> e = Durable PlanValidationError"
proof -
  assume v: "validate_plan n p = Inl e"
  show ?thesis
  proof (cases "card (set (map ts_task_id (ps_tasks p))) = length (ps_tasks p)")
    case True
    then have "distinct (map ts_task_id (ps_tasks p))" by (intro card_distinct) simp
    then show ?thesis using v
      by (auto simp: validate_plan_def Let_def split: if_splits sum.splits
          dest: check_tasks_InlD topological_order_InlD)
  next
    case False
    then show ?thesis using v by (simp add: validate_plan_def Let_def)
  qed
qed

section \<open>Properties of planning\<close>

text \<open>
  C33. Kahn's loop decides acyclicity and sorts. For tasks with distinct IDs, the loop always ends
  within its bound; if \<open>topological_order\<close> returns, the result lists every task once, each after all
  of its dependencies, and the dependency relation is acyclic; if it raises, the error is
  \<open>PlanValidationError\<close> and some dependency is unknown or the dependency relation has a cycle.
\<close>

theorem topological_order_spec:
  assumes "distinct (map ts_task_id tasks)"
  shows "case topological_order tasks of
      Inr order \<Rightarrow> distinct order \<and> set order = task_ids tasks \<and>
        lists_deps_first (deps_of tasks) order \<and> acyclic (dep_rel tasks)
    | Inl e \<Rightarrow> e = Durable PlanValidationError \<and>
        ((\<exists>t \<in> set tasks. \<not> set (ts_dependencies t) \<subseteq> task_ids tasks) \<or> \<not> acyclic (dep_rel tasks))"
  using assms by (rule topological_order_cases)

text \<open>The checks \<open>validate_plan\<close> makes on each task.\<close>

definition acceptable_task :: "string set \<Rightarrow> TaskSpec \<Rightarrow> bool" where
  "acceptable_task known t \<longleftrightarrow> set (ts_dependencies t) \<subseteq> known \<and>
     3 \<le> length (py_split (ts_description t)) \<and> ts_estimated_context_tokens t \<le> 250000 \<and>
     \<not> (ts_parallelizable t \<and> ts_tool_permissions t \<inter> SERIAL_ONLY_PERMISSIONS \<noteq> {})"

lemma check_tasks_Inr_iff: "check_tasks known ts = Inr u \<longleftrightarrow> (\<forall>t \<in> set ts. acceptable_task known t)"
  by (induction ts) (auto simp: acceptable_task_def not_less)

lemma max_default_le_iff: "0 \<le> m \<Longrightarrow> max_default 0 xs \<le> m \<longleftrightarrow> (\<forall>x \<in> set xs. x \<le> m)"
  by (auto simp: max_default_def)

text \<open>
  C20. \<open>validate_plan\<close> accepts exactly the plans it is meant to accept: it returns the plan unchanged
  if and only if the task IDs are unique, every dependency exists, every task passes the
  granularity and the parallel-mutation checks, the dependency relation is acyclic, and no chain
  of dependent tasks is longer than the maximum depth.
\<close>

theorem validate_plan_accepts_iff:
  assumes "0 \<le> maximum_depth"
  shows "validate_plan maximum_depth plan = Inr plan' \<longleftrightarrow>
    plan' = plan \<and> distinct (map ts_task_id (ps_tasks plan)) \<and>
    (\<forall>t \<in> set (ps_tasks plan). acceptable_task (task_ids (ps_tasks plan)) t) \<and>
    acyclic (dep_rel (ps_tasks plan)) \<and>
    (\<forall>c. dep_chain (deps_of (ps_tasks plan)) c \<and> c \<noteq> [] \<and> last c \<in> task_ids (ps_tasks plan) \<longrightarrow>
      int (length c) \<le> maximum_depth)" (is "?lhs \<longleftrightarrow> ?rhs")
proof -
  let ?ts = "ps_tasks plan"
  have card: "card (set (map ts_task_id ?ts)) = length ?ts \<longleftrightarrow> distinct (map ts_task_id ?ts)"
    by (metis card_distinct distinct_card length_map)
  have depth: "max_default 0 (map (levels 0 (deps_of ?ts) order (\<lambda>_. 0)) order) \<le> maximum_depth \<longleftrightarrow>
      (\<forall>c. dep_chain (deps_of ?ts) c \<and> c \<noteq> [] \<and> last c \<in> task_ids ?ts \<longrightarrow> int (length c) \<le> maximum_depth)"
    if d: "distinct (map ts_task_id ?ts)" and o: "topological_order ?ts = Inr order" for order
  proof -
    have acc: "accepted_order ?ts = order" using d o by (rule accepted_order_eq)
    have set: "set order = task_ids ?ts" using topological_order_InrD(3)[OF d o] .
    show ?thesis
      using chain_le_level[of ?ts] lv.chain_ending[of _ ?ts 0] assms
      unfolding acc set by (fastforce simp: max_default_le_iff set)
  qed
  show ?thesis
  proof (cases "distinct (map ts_task_id ?ts) \<and> (\<forall>t \<in> set ?ts. acceptable_task (task_ids ?ts) t)")
    case True
    then have d: "distinct (map ts_task_id ?ts)" and wf: "well_formed_tasks ?ts"
      and chk: "check_tasks (task_ids ?ts) ?ts = Inr ()"
      by (auto simp: well_formed_tasks_def acceptable_task_def check_tasks_Inr_iff)
    show ?thesis
    proof (cases "acyclic (dep_rel ?ts)")
      case acyclic: True
      then obtain order where o: "topological_order ?ts = Inr order"
        using topological_order_wf[OF wf] by blast
      have "?lhs \<longleftrightarrow> plan' = plan \<and>
          max_default 0 (map (levels 0 (deps_of ?ts) order (\<lambda>_. 0)) order) \<le> maximum_depth"
        using chk o d card by (auto simp: validate_plan_def Let_def task_ids_def not_less)
      then show ?thesis using True acyclic depth[OF d o] by simp
    next
      case False
      then have "topological_order ?ts = Inl (Durable PlanValidationError)"
        using topological_order_wf[OF wf] by blast
      then show ?thesis using False chk by (simp add: validate_plan_def Let_def task_ids_def)
    qed
  next
    case False
    have "\<not> ?lhs"
    proof
      assume ?lhs
      then have "distinct (map ts_task_id ?ts)" "\<exists>u. check_tasks (task_ids ?ts) ?ts = Inr u"
        using card by (auto simp: validate_plan_def Let_def task_ids_def split: if_splits sum.splits)
      then show False using False by (auto simp: check_tasks_Inr_iff)
    qed
    then show ?thesis using False by blast
  qed
qed

definition example_task :: "string \<Rightarrow> string list \<Rightarrow> TaskSpec" where
  "example_task i deps = \<lparr>ts_task_id = i, ts_title = ''task'', ts_description = ''a b c'',
     ts_dependencies = deps, ts_priority = 100, ts_maximum_attempts = 3, ts_input_references = [],
     ts_expected_outputs = [''o''], ts_acceptance_criteria = [''a''], ts_required_evidence = [''e''],
     ts_required_tools = [], ts_tool_permissions = {}, ts_estimated_context_tokens = 2048,
     ts_checkpoint_policy = BEFORE_AND_AFTER, ts_failure_policy = RETRY,
     ts_parallelizable = True\<rparr>"

definition example_plan :: PlanSpec where
  "example_plan = \<lparr>ps_plan_id = ''p'', ps_run_id = ''r'', ps_version = 1, ps_goal = ''goal'',
     ps_scope = [''s''], ps_assumptions = [], ps_constraints = [], ps_acceptance_criteria = [''a''],
     ps_research_questions = [], ps_risks = [], ps_expected_artifacts = [],
     ps_verification_steps = [''v''], ps_rollback_considerations = [''r''],
     ps_tasks = [example_task ''c'' [''a'', ''b''], example_task ''a'' [], example_task ''b'' [''a'']],
     ps_revision_reason = ''initial plan'', ps_previous_plan_id = None, ps_created_at = 0\<rparr>"

lemma example_order: "topological_order (ps_tasks example_plan) = Inr [''a'', ''b'', ''c'']"
  by code_simp

lemma example_ids: "distinct (map ts_task_id (ps_tasks example_plan))"
  by code_simp

theorem topological_order_spec_witness:
  "distinct (map ts_task_id (ps_tasks example_plan)) \<and> acyclic (dep_rel (ps_tasks example_plan))"
  using topological_order_spec[OF example_ids] example_ids by (simp add: example_order)

theorem validate_plan_accepts_iff_witness:
  "(0 :: int) \<le> 3 \<and> validate_plan 3 example_plan = Inr example_plan \<and>
   acyclic (dep_rel (ps_tasks example_plan))"
proof -
  have v: "validate_plan 3 example_plan = Inr example_plan" by code_simp
  have z: "(0 :: int) \<le> 3" by simp
  show ?thesis using validate_plan_accepts_iff[OF z, of example_plan example_plan] v z by blast
qed

section \<open>Properties of scheduling\<close>

lemma concat_filter_levels:
  fixes level :: "string \<Rightarrow> int"
  assumes "\<forall>x \<in> set xs. 0 \<le> level x \<and> level x < int n"
  shows "mset (concat (map (\<lambda>c. filter (\<lambda>x. level x = int c) xs) [0 ..< n])) = mset xs"
proof -
  have "mset (concat (map (\<lambda>c. filter (\<lambda>x. level x = int c) xs) [0 ..< m]))
      = mset (filter (\<lambda>x. 0 \<le> level x \<and> level x < int m) xs)" for m
  proof (induction m)
    case 0
    then show ?case by (induction xs) auto
  next
    case (Suc m)
    have split: "mset (filter (\<lambda>x. 0 \<le> level x \<and> level x < int (Suc m)) ys)
        = mset (filter (\<lambda>x. 0 \<le> level x \<and> level x < int m) ys) + mset (filter (\<lambda>x. level x = int m) ys)"
      for ys by (induction ys) auto
    show ?case using Suc split[of xs] by simp
  qed
  moreover have "filter (\<lambda>x. 0 \<le> level x \<and> level x < int n) xs = xs"
    using assms by (intro filter_True) auto
  ultimately show ?thesis by metis
qed

text \<open>
  \<open>parallel_batches\<close> schedules every task exactly once in non-empty batches; every dependency of
  a task is in an earlier batch, and every task is scheduled as early as possible: a task of a
  later batch has a dependency in the batch just before its own.
\<close>

lemma parallel_batches_spec:
  assumes "distinct (map ts_task_id tasks)" and "parallel_batches tasks = Inr batches"
  shows "mset (concat batches) = mset (map ts_task_id tasks) \<and> [] \<notin> set batches \<and>
    (\<forall>i < length batches. \<forall>x \<in> set (batches ! i).
      (\<forall>y \<in> set (deps_of tasks x). \<exists>j < i. y \<in> set (batches ! j)) \<and>
      (0 < i \<longrightarrow> (\<exists>y \<in> set (deps_of tasks x). y \<in> set (batches ! (i - 1)))))"
proof -
  obtain order where o: "topological_order tasks = Inr order"
    using assms(2) by (auto simp: parallel_batches_def split: sum.splits)
  note acc = accepted_order_eq[OF assms(1) o]
  note ord = topological_order_InrD[OF assms(1) o]
  define level where "level = levels (- 1) (deps_of tasks) order (\<lambda>_. 0)"
  define n where "n = nat (max_default (- 1) (map level order) + 1)"
  have b: "batches = map (\<lambda>c. filter (\<lambda>x. level x = int c) order) [0 ..< n]"
    using assms(2) o by (simp add: parallel_batches_def Let_def level_def n_def)
  have len: "length batches = n" by (simp add: b)
  have nth: "set (batches ! c) = {x \<in> set order. level x = int c}" if "c < n" for c
    using that by (auto simp: b)
  have ge: "0 \<le> level x" if "x \<in> set order" for x
    using lv.level_ge[of x tasks "- 1"] that by (simp add: acc level_def)
  have lt: "level x < int n" if "x \<in> set order" for x
    using max_default_ge[of "level x" "map level order" "- 1"] that ge[OF that] by (simp add: n_def)
  have dep: "level y < level x" if "x \<in> set order" "y \<in> set (deps_of tasks x)" for x y
    using lv.level_dep[of x tasks y "- 1"] that by (simp add: acc level_def)
  have closed: "set (deps_of tasks x) \<subseteq> set order" if "x \<in> set order" for x
    using lv.deps_closed[of x tasks] that by (simp add: acc)
  have pred: "\<exists>y \<in> set (deps_of tasks x). level y = level x - 1" if "x \<in> set order" "level x \<noteq> 0" for x
    using lv.level_pred[of x tasks "- 1"] that by (simp add: acc level_def)
  have all: "mset (concat batches) = mset (map ts_task_id tasks)"
  proof -
    have "mset (concat batches) = mset order" unfolding b using ge lt by (intro concat_filter_levels) auto
    also have "\<dots> = mset (map ts_task_id tasks)"
      using ord(2,3) assms(1) set_eq_iff_mset_eq_distinct[of order "map ts_task_id tasks"]
      by (metis task_ids_def)
    finally show ?thesis .
  qed
  have nonempty: "batches ! c \<noteq> []" if "c < n" for c
  proof -
    have "max_default (- 1) (map level order) \<noteq> - 1" using that by (auto simp: n_def)
    then have "map level order \<noteq> []" by (auto simp: max_default_def)
    then obtain x where x: "x \<in> set order" "level x = max_default (- 1) (map level order)"
      using max_default_in[of "map level order" "- 1"] by auto
    then have "int c \<le> level x" using that by (simp add: n_def)
    then obtain y where "y \<in> set order" "level y = int c"
      using lv.every_level[of x tasks "- 1" "int c"] x(1) by (auto simp: acc level_def)
    then show ?thesis using nth[OF that] by force
  qed
  have earlier: "\<exists>j < c. y \<in> set (batches ! j)"
    if "c < n" "x \<in> set (batches ! c)" "y \<in> set (deps_of tasks x)" for c x y
  proof -
    have x: "x \<in> set order" "level x = int c" using that(2) nth[OF that(1)] by auto
    have y: "y \<in> set order" "0 \<le> level y" "level y < int c"
      using closed[OF x(1)] dep[OF x(1) that(3)] ge that(3) x(2) by auto
    then have "nat (level y) < c" "nat (level y) < n" using that(1) by auto
    then show ?thesis using nth[of "nat (level y)"] y by auto
  qed
  have tight: "\<exists>y \<in> set (deps_of tasks x). y \<in> set (batches ! (c - 1))"
    if "c < n" "x \<in> set (batches ! c)" "0 < c" for c x
  proof -
    have x: "x \<in> set order" "level x = int c" using that(2) nth[OF that(1)] by auto
    have "level x \<noteq> 0" using x(2) that(3) by simp
    then obtain y where y: "y \<in> set (deps_of tasks x)" "level y = level x - 1"
      using pred[OF x(1)] by blast
    then have "y \<in> set order" "level y = int (c - 1)" using closed[OF x(1)] x(2) that(3) by auto
    then show ?thesis using y(1) nth[of "c - 1"] that(1) by auto
  qed
  show ?thesis
    using all nonempty earlier tight len by (auto simp: in_set_conv_nth)
qed

lemma parallel_batches_spec_witness:
  "distinct (map ts_task_id (ps_tasks example_plan)) \<and>
   parallel_batches (ps_tasks example_plan) = Inr [[''a''], [''b''], [''c'']] \<and>
   mset (concat [[''a''], [''b''], [''c'']]) = mset (map ts_task_id (ps_tasks example_plan))"
proof -
  have b: "parallel_batches (ps_tasks example_plan) = Inr [[''a''], [''b''], [''c'']]" by code_simp
  show ?thesis using parallel_batches_spec[OF example_ids b] b example_ids by blast
qed

lemma dict_record_eq:
  assumes "distinct (map tr_task_id records)" and "r \<in> set records"
  shows "dict_record records (tr_task_id r) = Some r"
proof -
  have "distinct (map tr_task_id (rev records))" using assms(1) by (metis distinct_rev rev_map)
  then show ?thesis
    using assms(2) unfolding dict_record_def
    by (intro map_of_is_SomeI) (auto simp: comp_def rev_map)
qed

lemma dict_record_SomeD: "dict_record records k = Some r \<Longrightarrow> r \<in> set records \<and> tr_task_id r = k"
  unfolding dict_record_def by (auto dest: map_of_SomeD)

lemma all_succeeded_known:
  assumes "\<And>d. d \<in> set ds \<Longrightarrow> by_id d \<noteq> None"
  shows "all_succeeded by_id ds = Inr (\<forall>d \<in> set ds. \<exists>r. by_id d = Some r \<and> tr_state r = T_SUCCEEDED)"
  using assms by (induction ds) (auto split: option.splits)

definition dependencies_succeeded :: "TaskRecord list \<Rightarrow> TaskRecord \<Rightarrow> bool" where
  "dependencies_succeeded records r \<longleftrightarrow> (\<forall>d \<in> set (ts_dependencies (tr_spec r)).
     \<exists>q \<in> set records. tr_task_id q = d \<and> tr_state q = T_SUCCEEDED)"

definition dependencies_known :: "TaskRecord list \<Rightarrow> bool" where
  "dependencies_known records \<longleftrightarrow> distinct (map tr_task_id records) \<and>
     (\<forall>r \<in> set records. set (ts_dependencies (tr_spec r)) \<subseteq> tr_task_id ` set records)"

lemma all_succeeded_records:
  assumes "dependencies_known records" and "r \<in> set records"
  shows "all_succeeded (dict_record records) (ts_dependencies (tr_spec r))
    = Inr (dependencies_succeeded records r)"
proof -
  have d: "distinct (map tr_task_id records)" using assms(1) by (simp add: dependencies_known_def)
  have known: "\<exists>q \<in> set records. tr_task_id q = x \<and> dict_record records x = Some q"
    if "x \<in> set (ts_dependencies (tr_spec r))" for x
    using that assms dict_record_eq[OF d] unfolding dependencies_known_def by fastforce
  have "all_succeeded (dict_record records) (ts_dependencies (tr_spec r))
      = Inr (\<forall>x \<in> set (ts_dependencies (tr_spec r)).
          \<exists>q. dict_record records x = Some q \<and> tr_state q = T_SUCCEEDED)"
    using known by (intro all_succeeded_known) force
  also have "\<dots> = Inr (dependencies_succeeded records r)"
    unfolding dependencies_succeeded_def
    using known dict_record_eq[OF d] dict_record_SomeD by (metis (no_types, lifting))
  finally show ?thesis .
qed

lemma select_ready_filter:
  assumes "dependencies_known records" and "set rs \<subseteq> set records"
  shows "select_ready (dict_record records) rs =
    Inr (filter (\<lambda>r. startable (tr_state r) \<and> dependencies_succeeded records r) rs)"
  using assms by (induction rs) (auto simp: all_succeeded_records)

lemma ready_tasks_eq:
  assumes "dependencies_known records"
  shows "ready_tasks records = Inr (sort_key (\<lambda>r. (ts_priority (tr_spec r), tr_task_id r))
    (filter (\<lambda>r. startable (tr_state r) \<and> dependencies_succeeded records r) records))"
  using select_ready_filter[OF assms subset_refl] by (simp add: ready_tasks_def)

lemma select_ready_set:
  "select_ready by_id rs = Inr out \<Longrightarrow> set out \<subseteq> {r \<in> set rs. startable (tr_state r)}"
  by (induction rs arbitrary: out) (auto split: if_splits sum.splits)

lemma ready_tasks_sub: "ready_tasks records = Inr out \<Longrightarrow> r \<in> set out \<Longrightarrow> r \<in> set records \<and> startable (tr_state r)"
  using select_ready_set by (fastforce simp: ready_tasks_def split: sum.splits)

text \<open>
  \<open>ready_tasks\<close> on a task list whose dependencies all exist returns exactly the records that are
  pending, ready or retryable and whose dependencies have all succeeded, in the order of priority
  and then task ID, and never raises.
\<close>

lemma ready_tasks_spec:
  assumes "dependencies_known records"
  shows "\<exists>out. ready_tasks records = Inr out \<and>
    mset out = mset (filter (\<lambda>r. startable (tr_state r) \<and> dependencies_succeeded records r) records) \<and>
    sorted (map (\<lambda>r. (ts_priority (tr_spec r), tr_task_id r)) out)"
  using ready_tasks_eq[OF assms] by simp

lemma ready_tasks_spec_witness:
  "dependencies_known [new_TaskRecord ''r'' ''p'' (example_task ''b'' [''a'']),
      (new_TaskRecord ''r'' ''p'' (example_task ''a'' []))\<lparr>tr_state := T_SUCCEEDED\<rparr>] \<and>
   (\<exists>out. ready_tasks [new_TaskRecord ''r'' ''p'' (example_task ''b'' [''a'']),
      (new_TaskRecord ''r'' ''p'' (example_task ''a'' []))\<lparr>tr_state := T_SUCCEEDED\<rparr>] = Inr out)"
proof -
  have k: "dependencies_known [new_TaskRecord ''r'' ''p'' (example_task ''b'' [''a'']),
      (new_TaskRecord ''r'' ''p'' (example_task ''a'' []))\<lparr>tr_state := T_SUCCEEDED\<rparr>]"
    by (simp add: dependencies_known_def new_TaskRecord_def example_task_def)
  show ?thesis using k ready_tasks_spec[OF k] by blast
qed

end
