(* ===== verification/Schema.thy ===== *)
theory Schema
  imports Models
begin

text \<open>
  The tables of \<open>persistence/orm.py\<close>, the database they form, and the transaction boundary of
  \<open>persistence/store.py\<close>.

  A table whose columns are the fields of a domain class holds values of that class (runs, tool
  calls, tool results, artifacts, evidence, chunks, leases); the others have a row type of their
  own. An enumeration column has the enumeration as its type (the code stores its value string),
  a JSON column the value its text encodes.

  \<open>world\<close> is what an operation runs in: the database, the clock and identifier sources the
  constructors inject, and the environment of one process. The environment decides, for the n-th
  transaction, what other processes committed just before it (\<open>w_rely\<close>) and whether the database
  fails it with an operational error (\<open>w_fault\<close>: \<open>Refused\<close> before it had any effect, \<open>CommitLost\<close> after
  the commit, whose acknowledgement is lost), and from which transaction on the process is dead
  (\<open>w_crash\<close>). \<open>w_effects\<close> is history: the tool calls whose tool body this process has started; a tool
  body counts as a step of its own, so a process may die before it and right after it.
  \<open>tx\<close> is \<open>async with sessions.begin()\<close>: the body sees one state, commits
  entirely or not at all, and its error propagates after the rollback.
\<close>

section \<open>Row types\<close>

type_synonym RunORM = RunRecord
type_synonym ToolCallORM = ToolCall
type_synonym ToolResultORM = ToolResult
type_synonym ArtifactORM = ArtifactRecord
type_synonym EvidenceORM = EvidenceRecord
type_synonym RepositoryChunkORM = RepositoryChunk
type_synonym LeaseORM = LeaseRecord

record PlanORM =
  po_plan_id :: string
  po_run_id :: string
  po_version :: int
  po_payload :: PlanSpec
  po_created_at :: time

record PlanRevisionORM =
  pv_revision_id :: string
  pv_plan_id :: string
  pv_run_id :: string
  pv_version :: int
  pv_previous_plan_id :: "string option"
  pv_reason :: string
  pv_created_at :: time

record TaskORM =
  tm_task_pk :: string
  tm_task_id :: string
  tm_run_id :: string
  tm_plan_id :: string
  tm_spec :: TaskSpec
  tm_state :: TaskState
  tm_attempt_count :: int
  tm_version :: int
  tm_last_error_id :: "string option"
  tm_started_at :: "time option"
  tm_finished_at :: "time option"

record TaskDependencyORM =
  dp_dependency_id :: string
  dp_run_id :: string
  dp_plan_id :: string
  dp_task_id :: string
  dp_depends_on_task_id :: string

record TaskAttemptORM =
  at_attempt_id :: string
  at_run_id :: string
  at_task_id :: string
  at_attempt_number :: int
  at_state :: TaskState
  at_started_at :: time
  at_finished_at :: "time option"
  at_error_id :: "string option"

record CheckpointORM =
  ck_checkpoint_id :: string
  ck_run_id :: string
  ck_schema_version :: int
  ck_sequence :: int
  ck_parent_hash :: "string option"
  ck_payload_hash :: string
  ck_envelope_json :: string
  ck_created_at :: time

record EventORM =
  ev_event_id :: string
  ev_run_id :: string
  ev_sequence :: int
  ev_event_type :: string
  ev_task_id :: "string option"
  ev_payload :: json
  ev_created_at :: time

record ContextORM =
  cn_context_id :: string
  cn_run_id :: string
  cn_task_id :: "string option"
  cn_payload :: "ContextSnapshot \<times> ContextItem list"
  cn_created_at :: time

record SummaryORM =
  sm_summary_id :: string
  sm_run_id :: string
  sm_level :: SummaryLevel
  sm_payload :: SummaryRecord
  sm_valid :: bool
  sm_source_manifest_hash :: string
  sm_created_at :: time

record ClaimORM =
  co_claim_id :: string
  co_run_id :: string
  co_text :: string
  co_kind :: ClaimKind
  co_related_task_id :: "string option"

record ClaimEvidenceLinkORM =
  lk_claim_id :: string
  lk_evidence_id :: string

record ReportORM =
  rt_report_id :: string
  rt_run_id :: string
  rt_format :: string
  rt_content :: string
  rt_content_hash :: string
  rt_partial :: bool
  rt_created_at :: time

record RepositoryIndexPayload =
  ip_summaries :: "FileSummary list"
  ip_repository_map :: string
  ip_module_dependencies :: "(string \<times> string list) list"
  ip_warnings :: "string list"

record RepositorySnapshotORM =
  so_snapshot_id :: string
  so_root :: string
  so_manifest_hash :: string
  so_file_count :: int
  so_total_bytes :: int
  so_index_payload :: RepositoryIndexPayload
  so_created_at :: time

record RepositoryFileORM =
  fo_repository_file_pk :: string
  fo_file :: RepositoryFile

text \<open>\<open>PauseRequestORM\<close> and \<open>CancellationRequestORM\<close> have the same columns.\<close>

record LifecycleRequestORM =
  rq_request_id :: string
  rq_run_id :: string
  rq_reason :: string
  rq_requested_by :: string
  rq_status :: LifecycleStatus
  rq_created_at :: time
  rq_applied_at :: "time option"

record ErrorORM =
  ee_error_id :: string
  ee_run_id :: string
  ee_task_id :: "string option"
  ee_category :: ErrorCategory
  ee_message :: string
  ee_retryable :: bool
  ee_created_at :: time

record IdempotencyKeyORM =
  ik_idempotency_pk :: string
  ik_owner_id :: string
  ik_action :: string
  ik_idempotency_key :: string
  ik_request_hash :: string
  ik_resource_id :: string
  ik_created_at :: time

text \<open>\<open>SqlStore._task_pk\<close>: the primary key of a task row is made of its other key columns.\<close>

definition task_pk :: "string \<Rightarrow> string \<Rightarrow> string \<Rightarrow> string" where
  "task_pk run_id plan_id task_id = run_id @ '':'' @ plan_id @ '':'' @ task_id"

section \<open>The database\<close>

record database =
  db_runs :: "RunORM list"
  db_plans :: "PlanORM list"
  db_plan_revisions :: "PlanRevisionORM list"
  db_tasks :: "TaskORM list"
  db_task_dependencies :: "TaskDependencyORM list"
  db_task_attempts :: "TaskAttemptORM list"
  db_checkpoints :: "CheckpointORM list"
  db_events :: "EventORM list"
  db_tool_calls :: "ToolCallORM list"
  db_tool_results :: "ToolResultORM list"
  db_contexts :: "ContextORM list"
  db_summaries :: "SummaryORM list"
  db_artifacts :: "ArtifactORM list"
  db_evidence :: "EvidenceORM list"
  db_claims :: "ClaimORM list"
  db_claim_evidence_links :: "ClaimEvidenceLinkORM list"
  db_reports :: "ReportORM list"
  db_repository_snapshots :: "RepositorySnapshotORM list"
  db_repository_files :: "RepositoryFileORM list"
  db_repository_chunks :: "RepositoryChunkORM list"
  db_pause_requests :: "LifecycleRequestORM list"
  db_cancellation_requests :: "LifecycleRequestORM list"
  db_leases :: "LeaseORM list"
  db_errors :: "ErrorORM list"
  db_idempotency_keys :: "IdempotencyKeyORM list"

definition empty_db :: database where
  "empty_db = \<lparr>db_runs = [], db_plans = [], db_plan_revisions = [], db_tasks = [],
     db_task_dependencies = [], db_task_attempts = [], db_checkpoints = [], db_events = [],
     db_tool_calls = [], db_tool_results = [], db_contexts = [], db_summaries = [],
     db_artifacts = [], db_evidence = [], db_claims = [], db_claim_evidence_links = [],
     db_reports = [], db_repository_snapshots = [], db_repository_files = [],
     db_repository_chunks = [], db_pause_requests = [], db_cancellation_requests = [],
     db_leases = [], db_errors = [], db_idempotency_keys = []\<rparr>"

text \<open>The foreign key every table but the repository ones has on \<open>runs\<close>.\<close>

definition run_exists :: "string \<Rightarrow> database \<Rightarrow> bool" where
  "run_exists run_id d \<longleftrightarrow> run_id \<in> rr_run_id ` set (db_runs d)"

section \<open>The world and its transactions\<close>

datatype fault = NoFault | Refused | CommitLost

record world =
  w_db :: database
  w_clock :: "nat \<Rightarrow> time"
  w_reads :: nat
  w_uuid :: "nat \<Rightarrow> string"
  w_ids :: nat
  w_txn :: nat
  w_rely :: "nat \<Rightarrow> database \<Rightarrow> database"
  w_fault :: "nat \<Rightarrow> fault"
  w_crash :: "nat option"
  w_effects :: "string list"

type_synonym 'a io = "(world, exn, 'a) act"

definition crashed :: "world \<Rightarrow> bool" where
  "crashed w \<longleftrightarrow> (case w_crash w of None \<Rightarrow> False | Some n \<Rightarrow> n \<le> w_txn w)"

definition tx :: "(database \<Rightarrow> exn + 'a \<times> database) \<Rightarrow> 'a io" where
  "tx f = (\<lambda>w.
     if crashed w then (Inl Crash, w)
     else
       (let d = w_rely w (w_txn w) (w_db w);
            w1 = w\<lparr>w_txn := Suc (w_txn w), w_db := d\<rparr> in
        if w_fault w (w_txn w) = Refused then (Inl SQLAlchemyError, w1)
        else case f d of
            Inl e \<Rightarrow> (Inl e, w1)
          | Inr (x, d') \<Rightarrow>
              (if w_fault w (w_txn w) = CommitLost then Inl SQLAlchemyError else Inr x,
               w1\<lparr>w_db := d'\<rparr>)))"

text \<open>A session that only reads.\<close>

definition query :: "(database \<Rightarrow> exn + 'a) \<Rightarrow> 'a io" where
  "query f = tx (\<lambda>d. case f d of Inl e \<Rightarrow> Inl e | Inr x \<Rightarrow> Inr (x, d))"

text \<open>\<open>Clock.now()\<close> and \<open>IdentifierGenerator.new(prefix)\<close>.\<close>

definition clock_now :: "time io" where
  "clock_now = (\<lambda>w. (Inr (w_clock w (w_reads w)), w\<lparr>w_reads := Suc (w_reads w)\<rparr>))"

definition ids_new :: "string \<Rightarrow> string io" where
  "ids_new prefix = (\<lambda>w. (Inr (prefix @ ''-'' @ w_uuid w (w_ids w)), w\<lparr>w_ids := Suc (w_ids w)\<rparr>))"

text \<open>
  \<open>except IntegrityError\<close>, \<open>except SQLAlchemyError\<close> and both clauses around one transaction: an
  error raised inside a clause is not seen by the other clause.
\<close>

definition on_integrity_error :: "'a io \<Rightarrow> 'a io \<Rightarrow> 'a io" where
  "on_integrity_error m h = catch m (\<lambda>e. if e = IntegrityError then h else raise e)"

definition on_sqlalchemy_error :: "'a io \<Rightarrow> error_class \<Rightarrow> 'a io" where
  "on_sqlalchemy_error m c = catch m (\<lambda>e. if is_sqlalchemy_error e then raise (Durable c) else raise e)"

definition on_db_error :: "'a io \<Rightarrow> 'a io \<Rightarrow> error_class \<Rightarrow> 'a io" where
  "on_db_error m h c = catch m (\<lambda>e. if e = IntegrityError then h
     else if is_sqlalchemy_error e then raise (Durable c) else raise e)"

text \<open>
  A quiet world: no other process writes, the database is up, the process lives. The functional
  lemmas state what an operation computes in a quiet world.
\<close>

definition quiet :: "world \<Rightarrow> bool" where
  "quiet w \<longleftrightarrow> w_rely w = (\<lambda>n d. d) \<and> w_fault w = (\<lambda>n. NoFault) \<and> w_crash w = None"

definition quiet_world :: "database \<Rightarrow> world" where
  "quiet_world d = \<lparr>w_db = d, w_clock = (\<lambda>n. int n), w_reads = 0, w_uuid = show_nat, w_ids = 0,
     w_txn = 0, w_rely = (\<lambda>n d. d), w_fault = (\<lambda>n. NoFault), w_crash = None,
     w_effects = []\<rparr>"

lemma quiet_quiet_world [simp]: "quiet (quiet_world d)"
  by (simp add: quiet_def quiet_world_def)

lemma quiet_world_db [simp]: "w_db (quiet_world d) = d"
  by (simp add: quiet_world_def)

lemma quiet_upd [simp]:
  "quiet (w\<lparr>w_db := d\<rparr>) = quiet w" "quiet (w\<lparr>w_txn := n\<rparr>) = quiet w"
  "quiet (w\<lparr>w_reads := n\<rparr>) = quiet w" "quiet (w\<lparr>w_ids := n\<rparr>) = quiet w"
  "quiet (w\<lparr>w_effects := es\<rparr>) = quiet w"
  by (simp_all add: quiet_def)

lemma tx_quiet:
  "quiet w \<Longrightarrow> tx f w = (case f (w_db w) of
     Inl e \<Rightarrow> (Inl e, w\<lparr>w_txn := Suc (w_txn w)\<rparr>)
   | Inr (x, d') \<Rightarrow> (Inr x, w\<lparr>w_txn := Suc (w_txn w), w_db := d'\<rparr>))"
  by (auto simp: tx_def quiet_def crashed_def Let_def split: sum.splits)

lemma query_quiet:
  "quiet w \<Longrightarrow> query f w = (f (w_db w), w\<lparr>w_txn := Suc (w_txn w)\<rparr>)"
  by (auto simp: query_def tx_quiet split: sum.splits)

text \<open>An identifier source whose identifiers hold no NUL.\<close>

definition clean_ids :: "world \<Rightarrow> bool" where
  "clean_ids w \<longleftrightarrow> (\<forall>n. no_nul (w_uuid w n))"

end
