(* ===== verification/Durability.thy ===== *)
theory Durability
  imports Schema
begin

text \<open>
  What the database promises over time. \<open>wf_db\<close> is the schema's primary keys and unique
  constraints, and that every link of a claim leads to evidence of the claim's own run; \<open>evolves d d'\<close> says how a database may change under any number of processes:
  lifecycle states follow the tables of \<open>domain/state_machine.py\<close>, versions grow, append-only
  tables keep every row, sequences only grow, finished attempts and recorded results are final.
  \<open>durable\<close> lifts it to worlds whose other processes keep to it as well (rely/guarantee), and the
  locale \<open>evolution\<close> is interpreted on it, so every component proof composes the same rules.
\<close>

section \<open>Unique constraints\<close>

definition wf_db :: "database \<Rightarrow> bool" where
  "wf_db d \<longleftrightarrow>
     distinct (map rr_run_id (db_runs d)) \<and>
     distinct (map po_plan_id (db_plans d)) \<and>
     distinct (map (\<lambda>r. (po_run_id r, po_version r)) (db_plans d)) \<and>
     distinct (map tm_task_pk (db_tasks d)) \<and>
     (\<forall>t \<in> set (db_tasks d). tm_task_pk t = task_pk (tm_run_id t) (tm_plan_id t) (tm_task_id t) \<and>
        tm_task_id t = ts_task_id (tm_spec t)) \<and>
     distinct (map at_attempt_id (db_task_attempts d)) \<and>
     distinct (map (\<lambda>a. (at_run_id a, at_task_id a, at_attempt_number a)) (db_task_attempts d)) \<and>
     distinct (map ck_checkpoint_id (db_checkpoints d)) \<and>
     distinct (map (\<lambda>c. (ck_run_id c, ck_sequence c)) (db_checkpoints d)) \<and>
     distinct (map ev_event_id (db_events d)) \<and>
     distinct (map (\<lambda>e. (ev_run_id e, ev_sequence e)) (db_events d)) \<and>
     distinct (map tc_tool_call_id (db_tool_calls d)) \<and>
     distinct (map tc_idempotency_key (db_tool_calls d)) \<and>
     distinct (map tl_tool_call_id (db_tool_results d)) \<and>
     distinct (map er_evidence_id (db_evidence d)) \<and>
     distinct (map co_claim_id (db_claims d)) \<and>
     distinct (map ar_artifact_id (db_artifacts d)) \<and>
     distinct (map rq_request_id (db_pause_requests d)) \<and>
     distinct (map rq_request_id (db_cancellation_requests d)) \<and>
     distinct (map le_run_id (db_leases d)) \<and>
     distinct (map ik_idempotency_pk (db_idempotency_keys d)) \<and>
     (\<forall>l \<in> set (db_claim_evidence_links d).
        \<exists>c \<in> set (db_claims d). co_claim_id c = lk_claim_id l \<and>
          (\<exists>e \<in> set (db_evidence d). er_evidence_id e = lk_evidence_id l \<and> er_run_id e = co_run_id c))"

lemma wf_db_empty: "wf_db empty_db"
  by (simp add: wf_db_def empty_db_def)

section \<open>How rows may change\<close>

definition run_step :: "RunRecord \<Rightarrow> RunRecord \<Rightarrow> bool" where
  "run_step r r' \<longleftrightarrow> r' = r \<or>
     (rr_run_id r' = rr_run_id r \<and> rr_owner_id r' = rr_owner_id r \<and>
      rr_objective r' = rr_objective r \<and>
      rr_configuration_fingerprint r' = rr_configuration_fingerprint r \<and>
      rr_version r < rr_version r' \<and> run_reaches (rr_state r) (rr_state r'))"

definition task_step :: "TaskORM \<Rightarrow> TaskORM \<Rightarrow> bool" where
  "task_step t t' \<longleftrightarrow> t' = t \<or>
     (tm_task_pk t' = tm_task_pk t \<and> tm_task_id t' = tm_task_id t \<and> tm_run_id t' = tm_run_id t \<and>
      tm_plan_id t' = tm_plan_id t \<and> tm_spec t' = tm_spec t \<and>
      tm_version t < tm_version t' \<and> tm_attempt_count t \<le> tm_attempt_count t' \<and>
      task_reaches (tm_state t) (tm_state t'))"

definition attempt_step :: "TaskAttemptORM \<Rightarrow> TaskAttemptORM \<Rightarrow> bool" where
  "attempt_step a a' \<longleftrightarrow> a' = a \<or>
     (at_attempt_id a' = at_attempt_id a \<and> at_run_id a' = at_run_id a \<and>
      at_task_id a' = at_task_id a \<and> at_attempt_number a' = at_attempt_number a \<and>
      at_started_at a' = at_started_at a \<and> at_finished_at a = None \<and> at_finished_at a' \<noteq> None)"

definition tool_call_step :: "ToolCall \<Rightarrow> ToolCall \<Rightarrow> bool" where
  "tool_call_step c c' \<longleftrightarrow>
     tc_tool_call_id c' = tc_tool_call_id c \<and> tc_run_id c' = tc_run_id c \<and>
     tc_task_id c' = tc_task_id c \<and> tc_tool_name c' = tc_tool_name c \<and>
     tc_arguments c' = tc_arguments c \<and> tc_arguments_hash c' = tc_arguments_hash c \<and>
     tc_idempotency_key c' = tc_idempotency_key c \<and>
     tc_side_effect_class c' = tc_side_effect_class c \<and> tc_attempt c \<le> tc_attempt c'"

definition request_step :: "LifecycleRequestORM \<Rightarrow> LifecycleRequestORM \<Rightarrow> bool" where
  "request_step q q' \<longleftrightarrow> q' = q \<or>
     (rq_request_id q' = rq_request_id q \<and> rq_run_id q' = rq_run_id q \<and>
      rq_reason q' = rq_reason q \<and> rq_requested_by q' = rq_requested_by q \<and>
      rq_status q = LS_PENDING \<and> rq_status q' = LS_APPLIED)"

text \<open>Every row is still there, up to a permitted change.\<close>

definition rows_step :: "('r \<Rightarrow> 'r \<Rightarrow> bool) \<Rightarrow> 'r list \<Rightarrow> 'r list \<Rightarrow> bool" where
  "rows_step st t t' \<longleftrightarrow> (\<forall>r \<in> set t. \<exists>r' \<in> set t'. st r r')"

definition keeps_rows :: "'r list \<Rightarrow> 'r list \<Rightarrow> bool" where
  "keeps_rows t t' \<longleftrightarrow> set t \<subseteq> set t'"

text \<open>
  A log per run: the largest sequence number never decreases, and a row that carries a number
  not above the old maximum is an old row, so history is never rewritten.
\<close>

definition tip :: "('r \<Rightarrow> string) \<Rightarrow> ('r \<Rightarrow> int) \<Rightarrow> string \<Rightarrow> 'r list \<Rightarrow> int" where
  "tip run sq k t = (case col_max sq (filter (\<lambda>r. run r = k) t) of None \<Rightarrow> 0 | Some m \<Rightarrow> m)"

definition log_step :: "('r \<Rightarrow> string) \<Rightarrow> ('r \<Rightarrow> int) \<Rightarrow> 'r list \<Rightarrow> 'r list \<Rightarrow> bool" where
  "log_step run sq t t' \<longleftrightarrow>
     (\<forall>k. tip run sq k t \<le> tip run sq k t') \<and>
     (\<forall>r \<in> set t'. r \<in> set t \<or> tip run sq (run r) t < sq r)"

definition PERMANENT_AUDIT_EVENTS :: "string set" where
  "PERMANENT_AUDIT_EVENTS = {''run.created'', ''run.completed'', ''run.failed'',
     ''run.cancelled'', ''run.paused'', ''pause.requested'', ''cancellation.requested'',
     ''task.failed_retryable'', ''task.failed_terminal'', ''manual_review.required'',
     ''plan.created'', ''plan.revised'', ''recovery.completed'',
     ''recovery.configuration_incompatible'', ''recovery.abandoned_attempt'',
     ''checkpoint.recovered'', ''checkpoint.recovery_failed'', ''repository.drift_detected'',
     ''retention.events_compacted''}"

definition starts_with :: "string \<Rightarrow> string \<Rightarrow> bool" where
  "starts_with prefix s \<longleftrightarrow> take (length prefix) s = prefix"

definition prunable_event :: "EventORM \<Rightarrow> bool" where
  "prunable_event e \<longleftrightarrow> ev_event_type e \<notin> PERMANENT_AUDIT_EVENTS \<and>
     \<not> (starts_with ''security.'' (ev_event_type e) \<or> starts_with ''retention.'' (ev_event_type e))"

definition keeps_audit :: "EventORM list \<Rightarrow> EventORM list \<Rightarrow> bool" where
  "keeps_audit t t' \<longleftrightarrow> (\<forall>e \<in> set t. \<not> prunable_event e \<longrightarrow> e \<in> set t')"

definition tables_step :: "database \<Rightarrow> database \<Rightarrow> bool" where
  "tables_step d d' \<longleftrightarrow>
     rows_step run_step (db_runs d) (db_runs d') \<and>
     keeps_rows (db_plans d) (db_plans d') \<and>
     keeps_rows (db_plan_revisions d) (db_plan_revisions d') \<and>
     rows_step task_step (db_tasks d) (db_tasks d') \<and>
     keeps_rows (db_task_dependencies d) (db_task_dependencies d') \<and>
     rows_step attempt_step (db_task_attempts d) (db_task_attempts d') \<and>
     log_step ck_run_id ck_sequence (db_checkpoints d) (db_checkpoints d') \<and>
     log_step ev_run_id ev_sequence (db_events d) (db_events d') \<and>
     keeps_audit (db_events d) (db_events d') \<and>
     rows_step tool_call_step (db_tool_calls d) (db_tool_calls d') \<and>
     keeps_rows (db_tool_results d) (db_tool_results d') \<and>
     keeps_rows (db_contexts d) (db_contexts d') \<and>
     keeps_rows (db_artifacts d) (db_artifacts d') \<and>
     keeps_rows (db_evidence d) (db_evidence d') \<and>
     keeps_rows (db_claims d) (db_claims d') \<and>
     keeps_rows (db_claim_evidence_links d) (db_claim_evidence_links d') \<and>
     keeps_rows (db_reports d) (db_reports d') \<and>
     keeps_rows (db_repository_snapshots d) (db_repository_snapshots d') \<and>
     rows_step request_step (db_pause_requests d) (db_pause_requests d') \<and>
     rows_step request_step (db_cancellation_requests d) (db_cancellation_requests d') \<and>
     keeps_rows (db_errors d) (db_errors d') \<and>
     keeps_rows (db_idempotency_keys d) (db_idempotency_keys d')"

definition evolves :: "database \<Rightarrow> database \<Rightarrow> bool" where
  "evolves d d' \<longleftrightarrow> wf_db d \<longrightarrow> wf_db d' \<and> tables_step d d'"

section \<open>Reflexivity and transitivity\<close>

lemma step_refl [simp]:
  "run_step r r" "task_step t t" "attempt_step a a" "tool_call_step c c" "request_step q q"
  by (simp_all add: run_step_def task_step_def attempt_step_def tool_call_step_def request_step_def)

lemma run_step_trans: "run_step r s \<Longrightarrow> run_step s t \<Longrightarrow> run_step r t"
  unfolding run_step_def by (auto intro: rtranclp_trans)

lemma task_step_trans: "task_step r s \<Longrightarrow> task_step s t \<Longrightarrow> task_step r t"
  unfolding task_step_def by (auto intro: rtranclp_trans)

lemma attempt_step_trans: "attempt_step r s \<Longrightarrow> attempt_step s t \<Longrightarrow> attempt_step r t"
  unfolding attempt_step_def by auto

lemma tool_call_step_trans: "tool_call_step r s \<Longrightarrow> tool_call_step s t \<Longrightarrow> tool_call_step r t"
  unfolding tool_call_step_def by auto

lemma request_step_trans: "request_step r s \<Longrightarrow> request_step s t \<Longrightarrow> request_step r t"
  unfolding request_step_def by auto

lemma rows_step_refl [simp]: "(\<And>r. st r r) \<Longrightarrow> rows_step st t t"
  by (auto simp: rows_step_def)

lemma rows_step_trans:
  assumes "\<And>a b c. st a b \<Longrightarrow> st b c \<Longrightarrow> st a c" and "rows_step st t u" and "rows_step st u v"
  shows "rows_step st t v"
  unfolding rows_step_def
proof
  fix r assume "r \<in> set t"
  then obtain s where "s \<in> set u" "st r s" using assms(2) by (auto simp: rows_step_def)
  moreover obtain x where "x \<in> set v" "st s x" using \<open>s \<in> set u\<close> assms(3) by (auto simp: rows_step_def)
  ultimately show "\<exists>r' \<in> set v. st r r'" using assms(1) by blast
qed

lemma keeps_rows_refl [simp]: "keeps_rows t t"
  by (simp add: keeps_rows_def)

lemma keeps_rows_trans: "keeps_rows t u \<Longrightarrow> keeps_rows u v \<Longrightarrow> keeps_rows t v"
  by (auto simp: keeps_rows_def)

lemma keeps_rows_append [simp]: "keeps_rows t (t @ u)"
  by (simp add: keeps_rows_def)

lemma keeps_audit_refl [simp]: "keeps_audit t t"
  by (simp add: keeps_audit_def)

lemma keeps_audit_append [simp]: "keeps_audit t (t @ u)"
  by (simp add: keeps_audit_def)

lemma keeps_audit_trans: "keeps_audit t u \<Longrightarrow> keeps_audit u v \<Longrightarrow> keeps_audit t v"
  by (auto simp: keeps_audit_def)

lemma log_step_refl [simp]: "log_step run sq t t"
  by (simp add: log_step_def)

lemma log_step_trans: "log_step run sq t u \<Longrightarrow> log_step run sq u v \<Longrightarrow> log_step run sq t v"
  unfolding log_step_def by (meson order_trans order_le_less_trans)

lemma tables_step_refl [simp]: "tables_step d d"
  by (simp add: tables_step_def)

lemma tables_step_trans: "tables_step d e \<Longrightarrow> tables_step e f \<Longrightarrow> tables_step d f"
  unfolding tables_step_def
  apply (elim conjE)
  apply (intro conjI)
  apply (rule rows_step_trans[of run_step], erule (1) run_step_trans, assumption, assumption
      | rule rows_step_trans[of task_step], erule (1) task_step_trans, assumption, assumption
      | rule rows_step_trans[of attempt_step], erule (1) attempt_step_trans, assumption, assumption
      | rule rows_step_trans[of tool_call_step], erule (1) tool_call_step_trans, assumption, assumption
      | rule rows_step_trans[of request_step], erule (1) request_step_trans, assumption, assumption
      | rule keeps_rows_trans, assumption, assumption
      | rule log_step_trans, assumption, assumption
      | rule keeps_audit_trans, assumption, assumption)+
  done

lemma tables_step_runs: "tables_step d d' \<Longrightarrow> rows_step run_step (db_runs d) (db_runs d')"
  by (simp add: tables_step_def)

lemma tables_step_tasks: "tables_step d d' \<Longrightarrow> rows_step task_step (db_tasks d) (db_tasks d')"
  by (simp add: tables_step_def)

lemma evolves_refl [simp]: "evolves d d"
  by (simp add: evolves_def)

lemma evolves_trans: "evolves d e \<Longrightarrow> evolves e f \<Longrightarrow> evolves d f"
  unfolding evolves_def using tables_step_trans by blast

section \<open>Worlds that keep the promise\<close>

definition good :: "world \<Rightarrow> bool" where
  "good w \<longleftrightarrow> wf_db (w_db w) \<and> (\<forall>n d. evolves d (w_rely w n d))"

text \<open>What surrounds the process (the others, the faults to come, its death) is not its own to change.\<close>

definition same_env :: "world \<Rightarrow> world \<Rightarrow> bool" where
  "same_env w w' \<longleftrightarrow> w_rely w' = w_rely w \<and> w_fault w' = w_fault w \<and> w_crash w' = w_crash w"

definition durable :: "world \<Rightarrow> world \<Rightarrow> bool" where
  "durable w w' \<longleftrightarrow> same_env w w' \<and> (good w \<longrightarrow> good w' \<and> evolves (w_db w) (w_db w'))"

lemma same_env_refl [simp]: "same_env w w"
  by (simp add: same_env_def)

lemma same_env_trans: "same_env w w' \<Longrightarrow> same_env w' w'' \<Longrightarrow> same_env w w''"
  by (simp add: same_env_def)

lemma same_env_upd [simp]:
  "same_env w (w'\<lparr>w_db := d\<rparr>) = same_env w w'" "same_env w (w'\<lparr>w_txn := n\<rparr>) = same_env w w'"
  "same_env w (w'\<lparr>w_reads := n\<rparr>) = same_env w w'" "same_env w (w'\<lparr>w_ids := n\<rparr>) = same_env w w'"
  "same_env w (w'\<lparr>w_effects := es\<rparr>) = same_env w w'"
  "same_env (w\<lparr>w_txn := n\<rparr>) w' = same_env w w'" "same_env (w\<lparr>w_effects := es\<rparr>) w' = same_env w w'"
  by (simp_all add: same_env_def)

lemma durable_quiet: "durable w w' \<Longrightarrow> quiet w' = quiet w"
  by (simp add: durable_def same_env_def quiet_def)

lemma good_quiet: "quiet w \<Longrightarrow> wf_db (w_db w) \<Longrightarrow> good w"
  by (simp add: good_def quiet_def)

lemma durable_refl [simp]: "durable w w"
  by (simp add: durable_def)

lemma durable_trans: "durable w w' \<Longrightarrow> durable w' w'' \<Longrightarrow> durable w w''"
  unfolding durable_def using evolves_trans same_env_trans by blast

interpretation dur: evolution durable
  by unfold_locales (auto intro: durable_trans)

lemma good_upd [simp]:
  "good (w\<lparr>w_reads := n\<rparr>) = good w" "good (w\<lparr>w_ids := n\<rparr>) = good w"
  "good (w\<lparr>w_txn := n\<rparr>) = good w" "good (w\<lparr>w_effects := es\<rparr>) = good w"
  by (simp_all add: good_def)

lemma durable_good: "durable w w' \<Longrightarrow> good w \<Longrightarrow> good w'"
  by (simp add: durable_def)

lemma durable_evolves: "durable w w' \<Longrightarrow> good w \<Longrightarrow> evolves (w_db w) (w_db w')"
  by (simp add: durable_def)

text \<open>
  The rule for a transaction: its body must evolve every well-formed database that other
  processes may have left. The postcondition may speak of the database it commits.
\<close>

lemma out_tx:
  assumes "\<And>d d' x. wf_db d \<Longrightarrow> good w \<Longrightarrow> evolves (w_db w) d \<Longrightarrow> f d = Inr (x, d') \<Longrightarrow>
      evolves d d' \<and> (\<forall>w'. w_db w' = d' \<longrightarrow> Q x w')"
  shows "outcome durable (\<lambda>x w'. good w \<longrightarrow> Q x w') w (tx f)"
proof (rule outcomeI)
  fix x w' assume run: "tx f w = (x, w')"
  have env: "same_env w w'"
    using run by (auto simp: tx_def Let_def same_env_def split: if_splits sum.splits)
  show "durable w w' \<and> (\<forall>v. x = Inr v \<longrightarrow> good w \<longrightarrow> Q v w')"
  proof (cases "good w")
    case False
    then show ?thesis using env by (simp add: durable_def)
  next
    case good: True
    let ?d = "w_rely w (w_txn w) (w_db w)"
    let ?w1 = "w\<lparr>w_txn := Suc (w_txn w), w_db := ?d\<rparr>"
    have ev: "evolves (w_db w) ?d" and wf: "wf_db ?d"
      using good by (auto simp: good_def evolves_def)
    have g1: "good ?w1" using good wf by (simp add: good_def)
    have d1: "durable w ?w1" using g1 ev by (simp add: durable_def)
    consider "crashed w" | "\<not> crashed w" "w_fault w (w_txn w) = Refused"
      | e where "\<not> crashed w" "w_fault w (w_txn w) \<noteq> Refused" "f ?d = Inl e"
      | y d' where "\<not> crashed w" "w_fault w (w_txn w) \<noteq> Refused" "f ?d = Inr (y, d')"
      by (metis sum.exhaust surj_pair)
    then show ?thesis
    proof cases
      case 4
      note A = assms[OF wf good ev 4(3)]
      have "w' = ?w1\<lparr>w_db := d'\<rparr>" "\<And>v. x = Inr v \<Longrightarrow> v = y"
        using run 4 by (auto simp: tx_def Let_def split: if_splits)
      moreover have "wf_db d'" using A wf by (simp add: evolves_def)
      moreover have "evolves (w_db w) d'" using ev A by (blast intro: evolves_trans)
      ultimately show ?thesis using A good by (auto simp: durable_def good_def)
    qed (use run d1 in \<open>auto simp: tx_def Let_def\<close>)
  qed
qed

lemma out_tx_simple:
  assumes "\<And>d d' x. wf_db d \<Longrightarrow> f d = Inr (x, d') \<Longrightarrow> evolves d d'"
  shows "outcome durable (\<lambda>_ _. True) w (tx f)"
  using out_tx[of w f "\<lambda>_ _. True"] assms by simp

lemma out_query: "outcome durable (\<lambda>_ _. True) w (query f)"
  unfolding query_def by (rule out_tx_simple) (auto split: sum.splits)

lemma out_clock: "outcome durable (\<lambda>_ _. True) w clock_now"
  by (simp add: outcome_def clock_now_def durable_def)

lemma out_ids: "outcome durable (\<lambda>_ _. True) w (ids_new p)"
  by (simp add: outcome_def ids_new_def durable_def)

lemma out_on_integrity_error:
  assumes "outcome durable Q w m" and "\<And>w'. durable w w' \<Longrightarrow> outcome durable Q w' h"
  shows "outcome durable Q w (on_integrity_error m h)"
  unfolding on_integrity_error_def
proof (rule dur.out_catch[OF assms(1)])
  fix e w' assume "durable w w'"
  then show "outcome durable Q w' (if e = IntegrityError then h else raise e)"
    using assms(2) by (simp add: dur.out_raise)
qed

lemma out_on_sqlalchemy_error:
  assumes "outcome durable Q w m"
  shows "outcome durable Q w (on_sqlalchemy_error m c)"
  unfolding on_sqlalchemy_error_def
  by (rule dur.out_catch[OF assms]) (simp add: dur.out_raise)

lemma out_on_db_error:
  assumes "outcome durable Q w m" and "\<And>w'. durable w w' \<Longrightarrow> outcome durable Q w' h"
  shows "outcome durable Q w (on_db_error m h c)"
  unfolding on_db_error_def
proof (rule dur.out_catch[OF assms(1)])
  fix e w' assume "durable w w'"
  then show "outcome durable Q w' (if e = IntegrityError then h
      else if is_sqlalchemy_error e then raise (Durable c) else raise e)"
    using assms(2) by (simp add: dur.out_raise)
qed

lemma tx_InrD:
  assumes "tx f w = (Inr x, w')"
  shows "f (w_rely w (w_txn w) (w_db w)) = Inr (x, w_db w')"
  using assms by (auto simp: tx_def Let_def split: if_splits sum.splits)

lemma tx_good: "good w \<Longrightarrow> (\<And>d d' x. wf_db d \<Longrightarrow> f d = Inr (x, d') \<Longrightarrow> evolves d d') \<Longrightarrow>
   tx f w = (r, w') \<Longrightarrow> good w'"
  using outcomeD[OF out_tx_simple[of f w]] durable_good by blast

lemma query_InrD: "query f w = (Inr x, w') \<Longrightarrow> f (w_db w') = Inr x"
  unfolding query_def by (drule tx_InrD) (auto split: sum.splits)

lemma out_clock_then:
  assumes "\<And>now w'. durable w w' \<Longrightarrow> w_db w' = w_db w \<Longrightarrow> good w' = good w \<Longrightarrow> outcome durable Q w' (f now)"
  shows "outcome durable Q w (bnd clock_now f)"
proof -
  let ?w = "w\<lparr>w_reads := Suc (w_reads w)\<rparr>"
  have "bnd clock_now f w = f (w_clock w (w_reads w)) ?w" by (simp add: bnd_def clock_now_def)
  moreover have "durable w ?w" by (simp add: durable_def)
  moreover have "outcome durable Q ?w (f (w_clock w (w_reads w)))"
    by (rule assms) (simp_all add: durable_def)
  ultimately show ?thesis by (auto simp: outcome_def intro: durable_trans)
qed

text \<open>Sequencing under the promise: the continuation may use that the world is still good.\<close>

lemma out_bnd_good:
  assumes "outcome durable (\<lambda>v w'. good w \<longrightarrow> P v w') w m"
    and "\<And>v w'. durable w w' \<Longrightarrow> good w' \<Longrightarrow> good w \<Longrightarrow> P v w' \<Longrightarrow>
      outcome durable (\<lambda>y w''. good w' \<longrightarrow> Q y w'') w' (f v)"
    and "\<And>v w'. outcome durable (\<lambda>_ _. True) w' (f v)"
  shows "outcome durable (\<lambda>y w''. good w \<longrightarrow> Q y w'') w (bnd m f)"
proof (rule dur.out_bnd[OF assms(1)])
  fix v w' assume w: "durable w w'" "good w \<longrightarrow> P v w'"
  show "outcome durable (\<lambda>y w''. good w \<longrightarrow> Q y w'') w' (f v)"
  proof (cases "good w")
    case True
    then have "good w'" using w(1) durable_good by blast
    then show ?thesis using assms(2)[OF w(1)] True w(2) by simp
  next
    case False
    then show ?thesis using assms(3)[of w' v] by (simp add: outcome_def)
  qed
qed

lemmas out_basic = out_query out_clock out_ids out_on_integrity_error out_on_sqlalchemy_error
  out_on_db_error
  dur.out_ret dur.out_raise dur.out_lift

section \<open>Frames\<close>

text \<open>
  \<open>frame sel\<close>: in a quiet world an operation leaves the world quiet and the part \<open>sel\<close> of the
  database as it was. The locale of outcome rules applies to it as it does to \<open>durable\<close>.
\<close>

definition frame :: "(database \<Rightarrow> 'a) \<Rightarrow> world \<Rightarrow> world \<Rightarrow> bool" where
  "frame sel w w' \<longleftrightarrow> quiet w \<longrightarrow> quiet w' \<and> sel (w_db w') = sel (w_db w)"

interpretation fr: evolution "frame sel" for sel
  by unfold_locales (auto simp: frame_def)

lemma frame_tx:
  assumes "\<And>d d' x. f d = Inr (x, d') \<Longrightarrow> sel d' = sel d"
  shows "outcome (frame sel) (\<lambda>_ _. True) w (tx f)"
proof (rule outcomeI)
  fix x w' assume "tx f w = (x, w')"
  then show "frame sel w w' \<and> (\<forall>v. x = Inr v \<longrightarrow> True)"
    using assms[of "w_db w"] by (auto simp: frame_def tx_quiet split: sum.splits prod.splits)
qed

lemma frame_query: "outcome (frame sel) (\<lambda>_ _. True) w (query f)"
  unfolding query_def by (rule frame_tx) (auto split: sum.splits)

lemma frame_clock: "outcome (frame sel) (\<lambda>_ _. True) w clock_now"
  by (simp add: outcome_def clock_now_def frame_def)

lemma frame_ids: "outcome (frame sel) (\<lambda>_ _. True) w (ids_new p)"
  by (simp add: outcome_def ids_new_def frame_def)

lemma frame_query_val: "outcome (frame sel) (\<lambda>x w'. quiet w \<longrightarrow> f (w_db w') = Inr x) w (query f)"
  by (rule outcomeI, cases "quiet w") (auto simp: frame_def query_quiet)

section \<open>Rows a process has seen\<close>

text \<open>
  \<open>seen_run r w\<close>: the database of \<open>w\<close> holds a successor of the row \<open>r\<close>. A process that read or
  wrote \<open>r\<close> knows this from then on, whatever others commit; if the stored version still is the
  version it read, the stored row still is \<open>r\<close>. This is what makes the compare-and-swap of
  \<open>update_run\<close> and \<open>update_task\<close> safe.
\<close>

definition seen_run :: "RunRecord \<Rightarrow> world \<Rightarrow> bool" where
  "seen_run r w \<longleftrightarrow> (\<exists>r' \<in> set (db_runs (w_db w)). run_step r r')"

definition seen_task :: "TaskORM \<Rightarrow> world \<Rightarrow> bool" where
  "seen_task t w \<longleftrightarrow> (\<exists>t' \<in> set (db_tasks (w_db w)). task_step t t')"

lemma seen_runI: "r \<in> set (db_runs (w_db w)) \<Longrightarrow> seen_run r w"
  unfolding seen_run_def using step_refl(1) by blast

lemma seen_taskI: "t \<in> set (db_tasks (w_db w)) \<Longrightarrow> seen_task t w"
  unfolding seen_task_def using step_refl(2) by blast

lemma seen_run_evolves:
  assumes "r' \<in> set (db_runs d)" and "run_step r r'" and "wf_db d" and "evolves d d'"
  shows "\<exists>r'' \<in> set (db_runs d'). run_step r r''"
proof -
  have "rows_step run_step (db_runs d) (db_runs d')"
    using assms(3,4) by (simp add: evolves_def tables_step_runs)
  then obtain r'' where "r'' \<in> set (db_runs d')" "run_step r' r''"
    using assms(1) by (auto simp: rows_step_def)
  then show ?thesis using assms(2) run_step_trans by blast
qed

lemma seen_task_evolves:
  assumes "t' \<in> set (db_tasks d)" and "task_step t t'" and "wf_db d" and "evolves d d'"
  shows "\<exists>t'' \<in> set (db_tasks d'). task_step t t''"
proof -
  have "rows_step task_step (db_tasks d) (db_tasks d')"
    using assms(3,4) by (simp add: evolves_def tables_step_tasks)
  then obtain t'' where "t'' \<in> set (db_tasks d')" "task_step t' t''"
    using assms(1) by (auto simp: rows_step_def)
  then show ?thesis using assms(2) task_step_trans by blast
qed

lemma good_wf: "good w \<Longrightarrow> wf_db (w_db w)"
  by (simp add: good_def)

lemma seen_run_mono: "seen_run r w \<Longrightarrow> durable w w' \<Longrightarrow> good w \<Longrightarrow> seen_run r w'"
  unfolding seen_run_def using seen_run_evolves good_wf durable_evolves by blast

lemma seen_task_mono: "seen_task t w \<Longrightarrow> durable w w' \<Longrightarrow> good w \<Longrightarrow> seen_task t w'"
  unfolding seen_task_def using seen_task_evolves good_wf durable_evolves by blast

lemma run_step_same_version: "run_step r r' \<Longrightarrow> rr_version r' = rr_version r \<Longrightarrow> r' = r"
  by (auto simp: run_step_def)

lemma task_step_same_version: "task_step t t' \<Longrightarrow> tm_version t' = tm_version t \<Longrightarrow> t' = t"
  by (auto simp: task_step_def)

lemma run_step_id: "run_step r r' \<Longrightarrow> rr_run_id r' = rr_run_id r"
  by (auto simp: run_step_def)

lemma task_step_pk: "task_step t t' \<Longrightarrow> tm_task_pk t' = tm_task_pk t"
  by (auto simp: task_step_def)

section \<open>Changing one table\<close>

lemma rows_step_append [simp]: "(\<And>r. st r r) \<Longrightarrow> rows_step st t (t @ u)"
  by (auto simp: rows_step_def)

lemma rows_step_update:
  assumes "\<And>r. st r r" and "\<And>r. r \<in> set t \<Longrightarrow> p r \<Longrightarrow> st r (f r)"
  shows "rows_step st t (tbl_update p f t)"
  unfolding rows_step_def
proof
  fix r assume r: "r \<in> set t"
  let ?r = "if p r then f r else r"
  have "?r \<in> set (tbl_update p f t)" using r by (auto simp: tbl_update_def)
  moreover have "st r ?r" using assms r by simp
  ultimately show "\<exists>r' \<in> set (tbl_update p f t). st r r'" by blast
qed

lemma tip_Nil [simp]: "tip run sq k [] = 0"
  by (simp add: tip_def)

lemma tip_ge: "r \<in> set t \<Longrightarrow> sq r \<le> tip run sq (run r) t"
proof -
  assume "r \<in> set t"
  then have r: "r \<in> set (filter (\<lambda>x. run x = run r) t)" by simp
  then have "filter (\<lambda>x. run x = run r) t \<noteq> []" by (metis empty_iff list.set(1))
  then obtain m where m: "col_max sq (filter (\<lambda>x. run x = run r) t) = Some m"
    by (metis col_max_None_iff not_None_eq)
  then show ?thesis using col_max_ge[OF m r] by (simp add: tip_def)
qed

lemma tip_in: "tip run sq k t = 0 \<or> (\<exists>r \<in> set t. run r = k \<and> sq r = tip run sq k t)"
proof (cases "col_max sq (filter (\<lambda>x. run x = k) t)")
  case (Some m)
  then show ?thesis using col_max_in[OF Some] by (auto simp: tip_def)
qed (simp add: tip_def)

lemma tip_append:
  assumes "tip run sq (run r) t < sq r"
  shows "tip run sq k (t @ [r]) = (if run r = k then sq r else tip run sq k t)"
proof (cases "run r = k")
  case True
  let ?f = "filter (\<lambda>x. run x = k) t"
  have "Max (insert (sq r) (sq ` set ?f)) = sq r"
  proof (rule Max_eqI)
    fix y assume "y \<in> insert (sq r) (sq ` set ?f)"
    then show "y \<le> sq r" using assms tip_ge[of _ t sq run] True by fastforce
  qed auto
  then show ?thesis using True by (simp add: tip_def col_max_def)
next
  case False
  then show ?thesis by (simp add: tip_def)
qed

lemma log_step_append:
  assumes "tip run sq (run r) t < sq r"
  shows "log_step run sq t (t @ [r])"
  using assms by (auto simp: log_step_def tip_append)

end
