(* ===== verification/Store_Runs.thy ===== *)
theory Store_Runs
  imports Durability
begin

text \<open>
  \<open>persistence/store.py\<close>, runs and plans: idempotent creation, reads, the compare-and-swap update,
  and the immutable plan revisions. \<open>sha256\<close> is the hash function of the standard library, a
  parameter. Where the code reads the clock inside a transaction the model reads it just before.
\<close>

section \<open>Rows and records\<close>

definition idempotency_pk :: "(string \<Rightarrow> string) \<Rightarrow> string \<Rightarrow> string \<Rightarrow> string \<Rightarrow> string" where
  "idempotency_pk sha256 owner action key = sha256 (owner @ '':'' @ action @ '':'' @ key)"

text \<open>The columns of \<open>RunORM\<close> are the fields of \<open>RunRecord\<close>; reading a row validates it.\<close>

definition run_to_row :: "RunRecord \<Rightarrow> RunORM" where
  "run_to_row r = \<lparr>rr_run_id = rr_run_id r, rr_owner_id = rr_owner_id r,
     rr_objective = rr_objective r, rr_state = rr_state r,
     rr_active_plan_id = rr_active_plan_id r, rr_active_task_id = rr_active_task_id r,
     rr_repository_root = rr_repository_root r,
     rr_repository_snapshot_id = rr_repository_snapshot_id r,
     rr_configuration_fingerprint = rr_configuration_fingerprint r, rr_version = rr_version r,
     rr_created_at = rr_created_at r, rr_updated_at = rr_updated_at r,
     rr_finished_at = rr_finished_at r\<rparr>"

definition run_from_row :: "RunORM \<Rightarrow> exn + RunRecord" where
  "run_from_row row = checked valid_RunRecord
     \<lparr>rr_run_id = rr_run_id row, rr_owner_id = rr_owner_id row,
      rr_objective = rr_objective row, rr_state = rr_state row,
      rr_active_plan_id = rr_active_plan_id row, rr_active_task_id = rr_active_task_id row,
      rr_repository_root = rr_repository_root row,
      rr_repository_snapshot_id = rr_repository_snapshot_id row,
      rr_configuration_fingerprint = rr_configuration_fingerprint row, rr_version = rr_version row,
      rr_created_at = rr_created_at row, rr_updated_at = rr_updated_at row,
      rr_finished_at = rr_finished_at row\<rparr>"

lemma run_to_row_id [simp]: "run_to_row r = r"
  by (simp add: run_to_row_def)

lemma run_from_row_eq: "run_from_row r = checked valid_RunRecord r"
proof -
  have "\<lparr>rr_run_id = rr_run_id r, rr_owner_id = rr_owner_id r,
      rr_objective = rr_objective r, rr_state = rr_state r,
      rr_active_plan_id = rr_active_plan_id r, rr_active_task_id = rr_active_task_id r,
      rr_repository_root = rr_repository_root r,
      rr_repository_snapshot_id = rr_repository_snapshot_id r,
      rr_configuration_fingerprint = rr_configuration_fingerprint r, rr_version = rr_version r,
      rr_created_at = rr_created_at r, rr_updated_at = rr_updated_at r,
      rr_finished_at = rr_finished_at r\<rparr> = r"
    by simp
  then show ?thesis unfolding run_from_row_def by (rule arg_cong)
qed

lemma run_from_row_Inr [simp]: "run_from_row r = Inr x \<longleftrightarrow> x = r \<and> valid_RunRecord r"
  by (simp add: run_from_row_eq)

section \<open>Creation and idempotency keys\<close>

definition get_key :: "string \<Rightarrow> database \<Rightarrow> IdempotencyKeyORM option" where
  "get_key pk d = tbl_get ik_idempotency_pk pk (db_idempotency_keys d)"

definition get_run_row :: "string \<Rightarrow> database \<Rightarrow> RunORM option" where
  "get_run_row run_id d = tbl_get rr_run_id run_id (db_runs d)"

text \<open>The primary key and \<open>uq_idempotency_scope\<close>.\<close>

definition key_free :: "IdempotencyKeyORM \<Rightarrow> database \<Rightarrow> bool" where
  "key_free k d \<longleftrightarrow> (\<forall>k' \<in> set (db_idempotency_keys d).
     ik_idempotency_pk k' \<noteq> ik_idempotency_pk k \<and>
     \<not> (ik_owner_id k' = ik_owner_id k \<and> ik_action k' = ik_action k \<and>
        ik_idempotency_key k' = ik_idempotency_key k))"

definition add_key :: "IdempotencyKeyORM \<Rightarrow> database \<Rightarrow> database" where
  "add_key k d = d\<lparr>db_idempotency_keys := db_idempotency_keys d @ [k]\<rparr>"

definition new_key ::
  "(string \<Rightarrow> string) \<Rightarrow> string \<Rightarrow> string \<Rightarrow> string \<Rightarrow> string \<Rightarrow> string \<Rightarrow> time \<Rightarrow> IdempotencyKeyORM" where
  "new_key sha256 owner action key request_hash resource_id now =
     \<lparr>ik_idempotency_pk = idempotency_pk sha256 owner action key, ik_owner_id = owner,
      ik_action = action, ik_idempotency_key = key, ik_request_hash = request_hash,
      ik_resource_id = resource_id, ik_created_at = now\<rparr>"

definition create_run ::
  "(string \<Rightarrow> string) \<Rightarrow> RunRecord \<Rightarrow> string \<Rightarrow> string \<Rightarrow> RunRecord io" where
  "create_run sha256 run idempotency_key request_hash =
     (let key_pk = idempotency_pk sha256 (rr_owner_id run) ''create_run'' idempotency_key in
      bnd clock_now (\<lambda>now.
        on_db_error
            (tx (\<lambda>d. case get_key key_pk d of
                Some existing \<Rightarrow>
                  if ik_request_hash existing \<noteq> request_hash
                  then Inl (Durable IdempotencyConflictError)
                  else (case get_run_row (ik_resource_id existing) d of
                      None \<Rightarrow> Inl (Durable DatabaseError)
                    | Some row \<Rightarrow> (case run_from_row row of Inl e \<Rightarrow> Inl e | Inr r \<Rightarrow> Inr (r, d)))
              | None \<Rightarrow>
                  (let k = new_key sha256 (rr_owner_id run) ''create_run'' idempotency_key
                             request_hash (rr_run_id run) now in
                   if run_exists (rr_run_id run) d \<or> \<not> key_free k d then Inl IntegrityError
                   else Inr (run, add_key k (d\<lparr>db_runs := db_runs d @ [run_to_row run]\<rparr>)))))
            (query (\<lambda>d. case get_key key_pk d of
                Some existing \<Rightarrow>
                  if ik_request_hash existing = request_hash then
                    (case get_run_row (ik_resource_id existing) d of
                       Some row \<Rightarrow> run_from_row row
                     | None \<Rightarrow> Inl (Durable ConcurrencyConflictError))
                  else Inl (Durable ConcurrencyConflictError)
              | None \<Rightarrow> Inl (Durable ConcurrencyConflictError)))
            DatabaseError))"

definition find_idempotent_run ::
  "(string \<Rightarrow> string) \<Rightarrow> string \<Rightarrow> string \<Rightarrow> string \<Rightarrow> RunRecord option io" where
  "find_idempotent_run sha256 owner_id idempotency_key request_hash =
     query (\<lambda>d. case get_key (idempotency_pk sha256 owner_id ''create_run'' idempotency_key) d of
         None \<Rightarrow> Inr None
       | Some existing \<Rightarrow>
           if ik_request_hash existing \<noteq> request_hash then Inl (Durable IdempotencyConflictError)
           else (case get_run_row (ik_resource_id existing) d of
               None \<Rightarrow> Inl (Durable DatabaseError)
             | Some row \<Rightarrow> (case run_from_row row of Inl e \<Rightarrow> Inl e | Inr r \<Rightarrow> Inr (Some r))))"

text \<open>True when the intent is new, False when the identical intent is already stored.\<close>

definition claim_idempotent_action ::
  "(string \<Rightarrow> string) \<Rightarrow> string \<Rightarrow> string \<Rightarrow> string \<Rightarrow> string \<Rightarrow> string \<Rightarrow> bool io" where
  "claim_idempotent_action sha256 owner_id action idempotency_key request_hash resource_id =
     (let key_pk = idempotency_pk sha256 owner_id action idempotency_key in
      bnd clock_now (\<lambda>now.
        on_integrity_error
          (tx (\<lambda>d. case get_key key_pk d of
              Some existing \<Rightarrow>
                if ik_request_hash existing \<noteq> request_hash
                then Inl (Durable IdempotencyConflictError)
                else if ik_resource_id existing \<noteq> resource_id then Inl (Durable DatabaseError)
                else Inr (False, d)
            | None \<Rightarrow>
                (let k = new_key sha256 owner_id action idempotency_key request_hash resource_id now in
                 if \<not> key_free k d then Inl IntegrityError else Inr (True, add_key k d))))
          (query (\<lambda>d. case get_key key_pk d of
              Some existing \<Rightarrow>
                if ik_request_hash existing = request_hash \<and> ik_resource_id existing = resource_id
                then Inr False else Inl (Durable ConcurrencyConflictError)
            | None \<Rightarrow> Inl (Durable ConcurrencyConflictError)))))"

section \<open>Reading and updating runs\<close>

definition get_run :: "string \<Rightarrow> RunRecord io" where
  "get_run run_id = query (\<lambda>d. case get_run_row run_id d of
     None \<Rightarrow> Inl (Durable NotFoundError) | Some row \<Rightarrow> run_from_row row)"

definition list_runs :: "string option \<Rightarrow> RunRecord list io" where
  "list_runs owner_id = query (\<lambda>d. traverse run_from_row
     (sort_key (\<lambda>r. (- rr_created_at r, rr_run_id r))
       (filter (\<lambda>r. case owner_id of None \<Rightarrow> True | Some i \<Rightarrow> rr_owner_id r = i) (db_runs d))))"

definition run_at :: "string \<Rightarrow> int \<Rightarrow> RunORM \<Rightarrow> bool" where
  "run_at run_id version row \<longleftrightarrow> rr_run_id row = run_id \<and> rr_version row = version"

definition update_run :: "RunRecord \<Rightarrow> int \<Rightarrow> RunRecord io" where
  "update_run run expected_version =
     (let run' = run\<lparr>rr_version := expected_version + 1\<rparr>;
          matches = run_at (rr_run_id run) expected_version in
      on_sqlalchemy_error
        (tx (\<lambda>d. if rowcount matches (db_runs d) \<noteq> 1 then Inl (Durable ConcurrencyConflictError)
           else Inr (run', d\<lparr>db_runs := tbl_update matches (\<lambda>row. run') (db_runs d)\<rparr>)))
        DatabaseError)"

section \<open>Plans\<close>

definition save_plan :: "PlanSpec \<Rightarrow> unit io" where
  "save_plan plan =
     on_db_error
         (tx (\<lambda>d.
           let p = \<lparr>po_plan_id = ps_plan_id plan, po_run_id = ps_run_id plan,
                    po_version = ps_version plan, po_payload = plan,
                    po_created_at = ps_created_at plan\<rparr>;
               v = \<lparr>pv_revision_id = ''revision-'' @ ps_plan_id plan, pv_plan_id = ps_plan_id plan,
                    pv_run_id = ps_run_id plan, pv_version = ps_version plan,
                    pv_previous_plan_id = ps_previous_plan_id plan,
                    pv_reason = ps_revision_reason plan, pv_created_at = ps_created_at plan\<rparr> in
           if \<not> run_exists (ps_run_id plan) d
             \<or> po_plan_id p \<in> po_plan_id ` set (db_plans d)
             \<or> (po_run_id p, po_version p) \<in> (\<lambda>q. (po_run_id q, po_version q)) ` set (db_plans d)
             \<or> pv_revision_id v \<in> pv_revision_id ` set (db_plan_revisions d)
             \<or> pv_plan_id v \<in> pv_plan_id ` set (db_plan_revisions d)
           then Inl IntegrityError
           else Inr ((), d\<lparr>db_plans := db_plans d @ [p],
                           db_plan_revisions := db_plan_revisions d @ [v]\<rparr>)))
         (raise (Durable PlanValidationError))
         DatabaseError"

definition get_plan :: "string \<Rightarrow> int option \<Rightarrow> PlanSpec io" where
  "get_plan run_id version = query (\<lambda>d.
     let rows = filter (\<lambda>p. po_run_id p = run_id) (db_plans d);
         row = (case version of
             Some v \<Rightarrow> find (\<lambda>p. po_version p = v) rows
           | None \<Rightarrow> find (\<lambda>p. True) (order_by_desc po_version rows)) in
     case row of
       None \<Rightarrow> Inl (Durable NotFoundError)
     | Some p \<Rightarrow> checked valid_PlanSpec (po_payload p))"

section \<open>Durability of the operations\<close>

lemma get_run_row_SomeD: "get_run_row i d = Some r \<Longrightarrow> r \<in> set (db_runs d) \<and> rr_run_id r = i"
  unfolding get_run_row_def by (rule tbl_get_SomeD)

lemma get_run_row_in: "wf_db d \<Longrightarrow> r \<in> set (db_runs d) \<Longrightarrow> get_run_row (rr_run_id r) d = Some r"
  unfolding get_run_row_def by (rule tbl_get_in) (simp_all add: wf_db_def)

lemma get_key_SomeD:
  "get_key pk d = Some k \<Longrightarrow> k \<in> set (db_idempotency_keys d) \<and> ik_idempotency_pk k = pk"
  unfolding get_key_def by (rule tbl_get_SomeD)

lemma get_key_in:
  "wf_db d \<Longrightarrow> k \<in> set (db_idempotency_keys d) \<Longrightarrow> get_key (ik_idempotency_pk k) d = Some k"
  unfolding get_key_def by (rule tbl_get_in) (simp_all add: wf_db_def)

lemma evolves_add_key: "key_free k d \<Longrightarrow> evolves d (add_key k d)"
  by (auto simp: evolves_def wf_db_def tables_step_def add_key_def key_free_def)

lemma evolves_add_run: "\<not> run_exists (rr_run_id r) d \<Longrightarrow> evolves d (d\<lparr>db_runs := db_runs d @ [r]\<rparr>)"
  by (auto simp: evolves_def wf_db_def tables_step_def run_exists_def)

lemma key_free_runs [simp]: "key_free k (d\<lparr>db_runs := x\<rparr>) = key_free k d"
  by (simp add: key_free_def)

lemma out_create_run [outcome_intros]:
  "outcome durable (\<lambda>_ _. True) w (create_run sha256 run key hash)"
  unfolding create_run_def Let_def
  by (intro dur.out_bnd[OF out_clock] out_on_db_error out_query
      out_tx_simple)
    (auto split: option.splits if_splits sum.splits
      intro: evolves_trans[OF evolves_add_run evolves_add_key])

lemma out_find_idempotent_run [outcome_intros]:
  "outcome durable (\<lambda>_ _. True) w (find_idempotent_run sha256 owner key hash)"
  unfolding find_idempotent_run_def by (rule out_query)

lemma out_claim_idempotent_action [outcome_intros]:
  "outcome durable (\<lambda>_ _. True) w (claim_idempotent_action sha256 owner action key hash resource)"
  unfolding claim_idempotent_action_def Let_def
  by (intro dur.out_bnd[OF out_clock] out_on_integrity_error out_query out_tx_simple)
    (auto split: option.splits if_splits intro: evolves_add_key)

text \<open>A run read from the store is a run seen.\<close>

lemma out_get_run:
  "outcome durable (\<lambda>r w'. good w \<longrightarrow> seen_run r w' \<and> rr_run_id r = run_id) w (get_run run_id)"
  unfolding get_run_def query_def
  by (rule out_tx) (auto split: option.splits sum.splits dest!: get_run_row_SomeD
      intro: seen_runI)

lemma out_save_plan [outcome_intros]: "outcome durable (\<lambda>_ _. True) w (save_plan plan)"
  unfolding save_plan_def
  by (intro out_on_db_error dur.out_raise out_tx_simple)
    (auto simp: evolves_def wf_db_def tables_step_def Let_def split: if_splits)

lemma out_get_plan [outcome_intros]: "outcome durable (\<lambda>_ _. True) w (get_plan run_id v)"
  unfolding get_plan_def by (rule out_query)

lemma out_list_runs [outcome_intros]: "outcome durable (\<lambda>_ _. True) w (list_runs owner)"
  unfolding list_runs_def by (rule out_query)

text \<open>
  The compare-and-swap: if the process has seen \<open>r0\<close> and writes a successor of it at its version,
  the stored history stays a lifecycle history, whatever was committed in between.
\<close>

definition run_successor :: "RunRecord \<Rightarrow> RunRecord \<Rightarrow> bool" where
  "run_successor r0 r \<longleftrightarrow> rr_run_id r = rr_run_id r0 \<and> rr_owner_id r = rr_owner_id r0 \<and>
     rr_objective r = rr_objective r0 \<and>
     rr_configuration_fingerprint r = rr_configuration_fingerprint r0 \<and>
     run_reaches (rr_state r0) (rr_state r)"

lemma out_update_run:
  assumes seen: "good w \<Longrightarrow> seen_run r0 w" and succ: "run_successor r0 run"
    and ver: "rr_version r0 = v"
  shows "outcome durable (\<lambda>r w'. good w \<longrightarrow> seen_run r w' \<and> r = run\<lparr>rr_version := v + 1\<rparr>) w (update_run run v)"
  unfolding update_run_def Let_def
proof (rule out_on_sqlalchemy_error, rule out_tx)
  let ?p = "run_at (rr_run_id run) v"
  let ?new = "run\<lparr>rr_version := v + 1\<rparr>"
  fix d d' :: database and x :: RunRecord
  assume wf: "wf_db d" and good: "good w" and ev: "evolves (w_db w) d"
    and eq: "(if rowcount ?p (db_runs d) \<noteq> 1 then Inl (Durable ConcurrencyConflictError)
      else Inr (?new, d\<lparr>db_runs := tbl_update ?p (\<lambda>row. ?new) (db_runs d)\<rparr>)) = Inr (x, d')"
  then have x: "x = ?new" and d': "d' = d\<lparr>db_runs := tbl_update ?p (\<lambda>row. ?new) (db_runs d)\<rparr>"
    and cnt: "rowcount ?p (db_runs d) = 1"
    by (auto split: if_splits)
  obtain r1 where r1: "r1 \<in> set (db_runs d)" "run_step r0 r1"
    using seen[OF good] seen_run_evolves[OF _ _ good_wf[OF good] ev] unfolding seen_run_def by blast
  have dist: "distinct (map rr_run_id (db_runs d))" using wf by (simp add: wf_db_def)
  have row: "run_step row ?new" if "row \<in> set (db_runs d)" "?p row" for row
  proof -
    have "rr_run_id row = rr_run_id r1"
      using that(2) succ run_step_id[OF r1(2)] by (simp add: run_at_def run_successor_def)
    then have "row = r1" using that(1) r1(1) dist by (metis tbl_get_in option.inject)
    then have "row = r0" using r1(2) that(2) ver by (auto simp: run_at_def dest: run_step_same_version)
    then show ?thesis using succ ver by (auto simp: run_step_def run_successor_def)
  qed
  have "rows_step run_step (db_runs d) (db_runs d')"
    unfolding d' using row by (simp add: rows_step_update)
  moreover have "distinct (map rr_run_id (db_runs d'))"
  proof -
    have "map rr_run_id (tbl_update ?p (\<lambda>row. ?new) (db_runs d)) = map rr_run_id (db_runs d)"
      by (auto simp: tbl_update_def run_at_def)
    then show ?thesis using dist d' by simp
  qed
  ultimately have "evolves d d'"
    using d' by (auto simp: evolves_def wf_db_def tables_step_def)
  moreover have "?new \<in> set (db_runs d')"
    using rowcount_pos_get[of ?p "db_runs d"] cnt d' by (auto simp: tbl_update_def)
  ultimately show "evolves d d' \<and> (\<forall>w'. w_db w' = d' \<longrightarrow> seen_run x w' \<and> x = ?new)"
    using x by (auto intro: seen_runI)
qed

end
