(* ===== verification/Store_Tasks.thy ===== *)
theory Store_Tasks
  imports Store_Runs
begin

text \<open>
  \<open>persistence/store.py\<close>, tasks and attempts. A task row is written by compare-and-swap on its
  version; an attempt row is opened before the worker runs and closed at most once; outcome and
  attempt are closed in one transaction.
\<close>

section \<open>Rows and records\<close>

definition task_to_row :: "TaskRecord \<Rightarrow> TaskORM" where
  "task_to_row t = \<lparr>tm_task_pk = task_pk (tr_run_id t) (tr_plan_id t) (tr_task_id t),
     tm_task_id = tr_task_id t, tm_run_id = tr_run_id t, tm_plan_id = tr_plan_id t,
     tm_spec = tr_spec t, tm_state = tr_state t, tm_attempt_count = tr_attempt_count t,
     tm_version = tr_version t, tm_last_error_id = tr_last_error_id t,
     tm_started_at = tr_started_at t, tm_finished_at = tr_finished_at t\<rparr>"

definition task_from_row :: "TaskORM \<Rightarrow> exn + TaskRecord" where
  "task_from_row row = checked valid_TaskRecord
     \<lparr>tr_run_id = tm_run_id row, tr_plan_id = tm_plan_id row, tr_spec = tm_spec row,
      tr_state = tm_state row, tr_attempt_count = tm_attempt_count row,
      tr_version = tm_version row, tr_last_error_id = tm_last_error_id row,
      tr_started_at = tm_started_at row, tr_finished_at = tm_finished_at row\<rparr>"

definition task_dependencies :: "TaskRecord \<Rightarrow> TaskDependencyORM list" where
  "task_dependencies t = map (\<lambda>dependency.
     \<lparr>dp_dependency_id = task_pk (tr_run_id t) (tr_plan_id t) (tr_task_id t) @ '':'' @ dependency,
      dp_run_id = tr_run_id t, dp_plan_id = tr_plan_id t, dp_task_id = tr_task_id t,
      dp_depends_on_task_id = dependency\<rparr>) (ts_dependencies (tr_spec t))"

definition dependency_scope :: "TaskDependencyORM \<Rightarrow> string \<times> string \<times> string \<times> string" where
  "dependency_scope e = (dp_run_id e, dp_plan_id e, dp_task_id e, dp_depends_on_task_id e)"

section \<open>Tasks\<close>

definition save_tasks :: "TaskRecord list \<Rightarrow> unit io" where
  "save_tasks tasks =
     (let rows = map task_to_row tasks; deps = concat (map task_dependencies tasks) in
      on_db_error
        (tx (\<lambda>d.
          if \<not> list_all (\<lambda>t. run_exists (tr_run_id t) d \<and> tr_plan_id t \<in> po_plan_id ` set (db_plans d)) tasks
            \<or> \<not> distinct (map tm_task_pk (db_tasks d @ rows))
            \<or> \<not> distinct (map (\<lambda>r. (tm_run_id r, tm_plan_id r, tm_task_id r)) (db_tasks d @ rows))
            \<or> \<not> distinct (map dp_dependency_id (db_task_dependencies d @ deps))
            \<or> \<not> distinct (map dependency_scope (db_task_dependencies d @ deps))
          then Inl IntegrityError
          else Inr ((), d\<lparr>db_tasks := db_tasks d @ rows,
                          db_task_dependencies := db_task_dependencies d @ deps\<rparr>)))
        (raise (Durable PlanValidationError))
        DatabaseError)"

definition requested_plan :: "RunRecord \<Rightarrow> string option \<Rightarrow> database \<Rightarrow> string option" where
  "requested_plan run plan_id d =
     (case plan_id of
        Some (c # cs) \<Rightarrow> Some (c # cs)
      | _ \<Rightarrow> (case rr_active_plan_id run of
          Some p \<Rightarrow> Some p
        | None \<Rightarrow> map_option po_plan_id
            (find (\<lambda>p. True) (order_by_desc po_version
              (filter (\<lambda>p. po_run_id p = rr_run_id run) (db_plans d))))))"

definition get_tasks :: "string \<Rightarrow> string option \<Rightarrow> TaskRecord list io" where
  "get_tasks run_id plan_id = query (\<lambda>d. case get_run_row run_id d of
       None \<Rightarrow> Inl (Durable NotFoundError)
     | Some run \<Rightarrow> (case requested_plan run plan_id d of
         None \<Rightarrow> Inr []
       | Some p \<Rightarrow> traverse task_from_row
           (sort_key tm_task_id
             (filter (\<lambda>t. tm_run_id t = run_id \<and> tm_plan_id t = p) (db_tasks d)))))"

definition checkpoint_tip_sequence :: "string \<Rightarrow> int io" where
  "checkpoint_tip_sequence run_id =
     query (\<lambda>d. Inr (tip ck_run_id ck_sequence run_id (db_checkpoints d)))"

text \<open>The \<open>WHERE\<close> and the \<open>SET\<close> of the task updates.\<close>

definition task_at :: "TaskRecord \<Rightarrow> int \<Rightarrow> TaskORM \<Rightarrow> bool" where
  "task_at task version row \<longleftrightarrow>
     tm_task_pk row = task_pk (tr_run_id task) (tr_plan_id task) (tr_task_id task) \<and>
     tm_version row = version"

definition set_task_values :: "TaskRecord \<Rightarrow> int \<Rightarrow> TaskORM \<Rightarrow> TaskORM" where
  "set_task_values task version row = row\<lparr>tm_state := tr_state task,
     tm_attempt_count := tr_attempt_count task, tm_last_error_id := tr_last_error_id task,
     tm_started_at := tr_started_at task, tm_finished_at := tr_finished_at task,
     tm_version := version\<rparr>"

definition update_task :: "TaskRecord \<Rightarrow> int \<Rightarrow> TaskRecord io" where
  "update_task task expected_version =
     tx (\<lambda>d. if rowcount (task_at task expected_version) (db_tasks d) \<noteq> 1
        then Inl (Durable ConcurrencyConflictError)
        else Inr (task\<lparr>tr_version := expected_version + 1\<rparr>,
          d\<lparr>db_tasks := tbl_update (task_at task expected_version)
              (set_task_values task (expected_version + 1)) (db_tasks d)\<rparr>))"

section \<open>Attempts\<close>

definition attempt_scope :: "TaskAttemptORM \<Rightarrow> string \<times> string \<times> int" where
  "attempt_scope a = (at_run_id a, at_task_id a, at_attempt_number a)"

definition start_task_attempt :: "string \<Rightarrow> string \<Rightarrow> int \<Rightarrow> string io" where
  "start_task_attempt run_id task_id attempt_number =
     bnd (ids_new ''attempt'') (\<lambda>attempt_id.
     bnd clock_now (\<lambda>now.
       on_integrity_error
         (tx (\<lambda>d.
           let a = \<lparr>at_attempt_id = attempt_id, at_run_id = run_id, at_task_id = task_id,
                    at_attempt_number = attempt_number, at_state = T_RUNNING,
                    at_started_at = now, at_finished_at = None, at_error_id = None\<rparr> in
           if \<not> run_exists run_id d
             \<or> attempt_id \<in> at_attempt_id ` set (db_task_attempts d)
             \<or> attempt_scope a \<in> attempt_scope ` set (db_task_attempts d)
           then Inl IntegrityError
           else Inr (attempt_id, d\<lparr>db_task_attempts := db_task_attempts d @ [a]\<rparr>)))
         (raise (Durable ConcurrencyConflictError))))"

definition open_attempt :: "string \<Rightarrow> TaskAttemptORM \<Rightarrow> bool" where
  "open_attempt attempt_id a \<longleftrightarrow> at_attempt_id a = attempt_id \<and> at_finished_at a = None"

definition open_attempt_of :: "string \<Rightarrow> string \<Rightarrow> TaskAttemptORM \<Rightarrow> bool" where
  "open_attempt_of run_id task_id a \<longleftrightarrow>
     at_run_id a = run_id \<and> at_task_id a = task_id \<and> at_finished_at a = None"

definition close_attempt :: "TaskState \<Rightarrow> string option \<Rightarrow> time \<Rightarrow> TaskAttemptORM \<Rightarrow> TaskAttemptORM" where
  "close_attempt state error_id now a =
     a\<lparr>at_state := state, at_error_id := error_id, at_finished_at := Some now\<rparr>"

definition finish_task_attempt :: "string \<Rightarrow> TaskState \<Rightarrow> string option \<Rightarrow> unit io" where
  "finish_task_attempt attempt_id state error_id =
     bnd clock_now (\<lambda>now.
       tx (\<lambda>d. if rowcount (open_attempt attempt_id) (db_task_attempts d) \<noteq> 1
          then Inl (Durable ConcurrencyConflictError)
          else Inr ((), d\<lparr>db_task_attempts := tbl_update (open_attempt attempt_id)
                 (close_attempt state error_id now) (db_task_attempts d)\<rparr>)))"

definition update_task_and_finish_attempt ::
  "TaskRecord \<Rightarrow> int \<Rightarrow> string \<Rightarrow> TaskState \<Rightarrow> string option \<Rightarrow> TaskRecord io" where
  "update_task_and_finish_attempt task expected_version attempt_id attempt_state error_id =
     bnd clock_now (\<lambda>now.
       tx (\<lambda>d. if rowcount (task_at task expected_version) (db_tasks d) \<noteq> 1
              \<or> rowcount (open_attempt attempt_id) (db_task_attempts d) \<noteq> 1
          then Inl (Durable ConcurrencyConflictError)
          else Inr (task\<lparr>tr_version := expected_version + 1\<rparr>,
            d\<lparr>db_tasks := tbl_update (task_at task expected_version)
                (set_task_values task (expected_version + 1)) (db_tasks d),
              db_task_attempts := tbl_update (open_attempt attempt_id)
                (close_attempt attempt_state error_id now) (db_task_attempts d)\<rparr>)))"

definition finish_open_task_attempts :: "string \<Rightarrow> string \<Rightarrow> TaskState \<Rightarrow> string \<Rightarrow> nat io" where
  "finish_open_task_attempts run_id task_id state error_id =
     bnd clock_now (\<lambda>now.
       tx (\<lambda>d. Inr (rowcount (open_attempt_of run_id task_id) (db_task_attempts d),
          d\<lparr>db_task_attempts := tbl_update (open_attempt_of run_id task_id)
              (close_attempt state (Some error_id) now) (db_task_attempts d)\<rparr>)))"

definition cancel_task_and_open_attempts :: "TaskRecord \<Rightarrow> int \<Rightarrow> TaskRecord io" where
  "cancel_task_and_open_attempts task expected_version =
     bnd clock_now (\<lambda>now.
       tx (\<lambda>d. if rowcount (task_at task expected_version) (db_tasks d) \<noteq> 1
          then Inl (Durable ConcurrencyConflictError)
          else Inr (task\<lparr>tr_version := expected_version + 1\<rparr>,
            d\<lparr>db_tasks := tbl_update (task_at task expected_version)
                (set_task_values task (expected_version + 1)) (db_tasks d),
              db_task_attempts := tbl_update (open_attempt_of (tr_run_id task) (tr_task_id task))
                (\<lambda>a. a\<lparr>at_state := T_CANCELLED, at_finished_at := Some now\<rparr>)
                (db_task_attempts d)\<rparr>)))"

section \<open>Reading back what was written\<close>

lemma task_from_row_Inr:
  assumes "task_from_row row = Inr t" and "tm_task_id row = ts_task_id (tm_spec row)"
    and "tm_task_pk row = task_pk (tm_run_id row) (tm_plan_id row) (tm_task_id row)"
  shows "task_to_row t = row \<and> valid_TaskRecord t"
  using assms by (auto simp: task_from_row_def task_to_row_def checked_def split: if_splits)

lemma task_roundtrip: "task_from_row (task_to_row t) = checked valid_TaskRecord t"
  by (cases t) (simp add: task_from_row_def task_to_row_def)

text \<open>
  The records \<open>get_tasks\<close> returns are rows the process has seen, of the run it asked for, all of
  one plan and with distinct identifiers.
\<close>

definition tasks_of :: "string \<Rightarrow> TaskRecord list \<Rightarrow> bool" where
  "tasks_of run_id ts \<longleftrightarrow> distinct (map tr_task_id ts) \<and>
     (\<forall>t \<in> set ts. tr_run_id t = run_id \<and> valid_TaskRecord t)"

lemma task_pk_same_plan [simp]: "task_pk r p t = task_pk r p t' \<longleftrightarrow> t = t'"
  by (simp add: task_pk_def)

lemma wf_db_task: "wf_db d \<Longrightarrow> r \<in> set (db_tasks d) \<Longrightarrow>
   tm_task_pk r = task_pk (tm_run_id r) (tm_plan_id r) (tm_task_id r) \<and>
   tm_task_id r = ts_task_id (tm_spec r)"
  by (simp add: wf_db_def)

lemma traverse_task_rows:
  assumes "traverse task_from_row rows = Inr ts" and "set rows \<subseteq> set (db_tasks d)" and "wf_db d"
  shows "map task_to_row ts = rows \<and> list_all valid_TaskRecord ts"
  using assms
proof (induction rows arbitrary: ts)
  case Nil
  then show ?case by simp
next
  case (Cons row rows)
  obtain t ts' where t: "task_from_row row = Inr t" "traverse task_from_row rows = Inr ts'" "ts = t # ts'"
    using Cons.prems(1) by (auto split: sum.splits)
  have "row \<in> set (db_tasks d)" "set rows \<subseteq> set (db_tasks d)" using Cons.prems(2) by auto
  then show ?case
    using Cons.IH[OF t(2) _ Cons.prems(3)] task_from_row_Inr[OF t(1)] wf_db_task[OF Cons.prems(3)] t(3)
    by simp
qed

definition seen_tasks :: "TaskRecord list \<Rightarrow> world \<Rightarrow> bool" where
  "seen_tasks ts w \<longleftrightarrow> (\<forall>t \<in> set ts. seen_task (task_to_row t) w)"

lemma seen_tasks_mono: "seen_tasks ts w \<Longrightarrow> durable w w' \<Longrightarrow> good w \<Longrightarrow> seen_tasks ts w'"
  unfolding seen_tasks_def using seen_task_mono by blast

lemma seen_tasksD: "seen_tasks ts w \<Longrightarrow> t \<in> set ts \<Longrightarrow> seen_task (task_to_row t) w"
  by (simp add: seen_tasks_def)

lemma task_to_row_sel [simp]:
  "tm_task_id (task_to_row t) = tr_task_id t" "tm_run_id (task_to_row t) = tr_run_id t"
  "tm_plan_id (task_to_row t) = tr_plan_id t" "tm_version (task_to_row t) = tr_version t"
  "tm_state (task_to_row t) = tr_state t" "tm_spec (task_to_row t) = tr_spec t"
  "tm_attempt_count (task_to_row t) = tr_attempt_count t"
  "tm_task_pk (task_to_row t) = task_pk (tr_run_id t) (tr_plan_id t) (tr_task_id t)"
  by (simp_all add: task_to_row_def)

lemma distinct_map_on:
  assumes "distinct (map f xs)" and "\<And>x y. x \<in> set xs \<Longrightarrow> y \<in> set xs \<Longrightarrow> g x = g y \<Longrightarrow> f x = f y"
  shows "distinct (map g xs)"
proof -
  have "distinct xs" "inj_on f (set xs)" using assms(1) by (simp_all add: distinct_map)
  moreover have "inj_on g (set xs)"
    using assms(2) \<open>inj_on f (set xs)\<close> unfolding inj_on_def by blast
  ultimately show ?thesis by (simp add: distinct_map)
qed

lemma out_get_tasks:
  "outcome durable (\<lambda>ts w'. good w \<longrightarrow> seen_tasks ts w' \<and> tasks_of run_id ts) w (get_tasks run_id plan_id)"
  unfolding get_tasks_def query_def
proof (rule out_tx, goal_cases)
  case (1 d d' ts)
  then have d': "d' = d" by (auto split: option.splits sum.splits)
  show ?case
  proof (cases "ts = []")
    case True
    then show ?thesis using d' by (simp add: seen_tasks_def tasks_of_def)
  next
    case False
    obtain p where
      tr: "traverse task_from_row (sort_key tm_task_id
             (filter (\<lambda>t. tm_run_id t = run_id \<and> tm_plan_id t = p) (db_tasks d))) = Inr ts"
      using 1(4) False by (auto split: option.splits sum.splits)
    let ?rows = "sort_key tm_task_id (filter (\<lambda>t. tm_run_id t = run_id \<and> tm_plan_id t = p) (db_tasks d))"
    have sub: "set ?rows \<subseteq> set (db_tasks d)" by auto
    note R = traverse_task_rows[OF tr sub 1(1)]
    have inrows: "task_to_row t \<in> set ?rows" if "t \<in> set ts" for t
      using that R by (metis image_eqI set_map)
    have "distinct (map tm_task_pk (filter (\<lambda>t. tm_run_id t = run_id \<and> tm_plan_id t = p) (db_tasks d)))"
      using 1(1) by (simp add: wf_db_def distinct_map_filter)
    then have "distinct (map tm_task_pk ?rows)"
      by (simp add: distinct_map)
    then have "distinct (map tm_task_id ?rows)"
    proof (rule distinct_map_on)
      fix x y assume "x \<in> set ?rows" "y \<in> set ?rows" "tm_task_id x = tm_task_id y"
      then show "tm_task_pk x = tm_task_pk y" using wf_db_task[OF 1(1)] by simp
    qed
    then have "distinct (map tm_task_id (map task_to_row ts))" using R by simp
    then have "distinct (map tr_task_id ts)" by (simp add: comp_def)
    moreover have "tr_run_id t = run_id" if "t \<in> set ts" for t
      using inrows[OF that] by simp
    ultimately have "tasks_of run_id ts" using R by (auto simp: tasks_of_def list_all_iff)
    moreover have "seen_tasks ts w'" if "w_db w' = d" for w'
      using inrows sub that by (auto simp: seen_tasks_def intro!: seen_taskI)
    ultimately show ?thesis using d' by simp
  qed
qed

section \<open>The compare-and-swap on tasks\<close>

definition task_successor :: "TaskRecord \<Rightarrow> TaskRecord \<Rightarrow> bool" where
  "task_successor t0 t \<longleftrightarrow> tr_run_id t = tr_run_id t0 \<and> tr_plan_id t = tr_plan_id t0 \<and>
     tr_spec t = tr_spec t0 \<and> tr_attempt_count t0 \<le> tr_attempt_count t \<and>
     task_reaches (tr_state t0) (tr_state t)"

lemma evolves_set_task:
  assumes wf: "wf_db d" and seen: "\<exists>r1 \<in> set (db_tasks d). task_step (task_to_row t0) r1"
    and succ: "task_successor t0 t" and ver: "tr_version t0 = v"
    and cnt: "rowcount (task_at t v) (db_tasks d) = 1"
    and d': "d' = d\<lparr>db_tasks := tbl_update (task_at t v) (set_task_values t (v + 1)) (db_tasks d)\<rparr>"
  shows "evolves d d' \<and> task_to_row (t\<lparr>tr_version := v + 1\<rparr>) \<in> set (db_tasks d')"
proof -
  obtain r1 where r1: "r1 \<in> set (db_tasks d)" "task_step (task_to_row t0) r1" using seen by blast
  have dist: "distinct (map tm_task_pk (db_tasks d))" using wf by (simp add: wf_db_def)
  have row: "row = task_to_row t0" if "row \<in> set (db_tasks d)" "task_at t v row" for row
  proof -
    have "tm_task_pk row = tm_task_pk r1"
      using that(2) succ task_step_pk[OF r1(2)] by (simp add: task_at_def task_successor_def)
    then have "row = r1" using that(1) r1(1) dist by (metis tbl_get_in option.inject)
    moreover have "r1 = task_to_row t0"
      using task_step_same_version[OF r1(2)] that(2) \<open>row = r1\<close> ver by (simp add: task_at_def)
    ultimately show ?thesis by simp
  qed
  have new: "set_task_values t (v + 1) (task_to_row t0) = task_to_row (t\<lparr>tr_version := v + 1\<rparr>)"
    using succ by (simp add: set_task_values_def task_to_row_def task_successor_def)
  have st: "task_step (task_to_row t0) (task_to_row (t\<lparr>tr_version := v + 1\<rparr>))"
    using succ ver by (auto simp: task_step_def task_successor_def)
  have tasks': "db_tasks d' = tbl_update (task_at t v) (set_task_values t (v + 1)) (db_tasks d)"
    using d' by simp
  have steps: "rows_step task_step (db_tasks d) (db_tasks d')"
    unfolding tasks' using row new st by (intro rows_step_update) auto
  have "map tm_task_pk (db_tasks d') = map tm_task_pk (db_tasks d)"
    unfolding tasks' by (rule map_key_update) (simp add: set_task_values_def)
  moreover have "tm_task_pk r = task_pk (tm_run_id r) (tm_plan_id r) (tm_task_id r) \<and>
      tm_task_id r = ts_task_id (tm_spec r)" if "r \<in> set (db_tasks d')" for r
    using that wf_db_task[OF wf] unfolding tasks' by (auto simp: tbl_update_def set_task_values_def)
  ultimately have "wf_db d'" using wf d' by (simp add: wf_db_def)
  moreover have "tables_step d d'" using steps d' by (simp add: tables_step_def)
  moreover have "task_to_row (t\<lparr>tr_version := v + 1\<rparr>) \<in> set (db_tasks d')"
  proof -
    obtain row where "row \<in> set (db_tasks d)" "task_at t v row"
      using cnt rowcount_0_iff[of "task_at t v" "db_tasks d"] by auto
    then show ?thesis using row new unfolding tasks' by (force simp: tbl_update_def)
  qed
  ultimately show ?thesis by (simp add: evolves_def)
qed

lemma evolves_close_attempts:
  assumes "\<And>a. p a \<Longrightarrow> at_finished_at a = None"
    and "\<And>a. attempt_scope (f a) = attempt_scope a \<and> at_attempt_id (f a) = at_attempt_id a \<and>
          at_started_at (f a) = at_started_at a \<and> at_finished_at (f a) \<noteq> None"
  shows "evolves d (d\<lparr>db_task_attempts := tbl_update p f (db_task_attempts d)\<rparr>)"
proof -
  have "map at_attempt_id (tbl_update p f (db_task_attempts d)) = map at_attempt_id (db_task_attempts d)"
    using assms(2) by (intro map_key_update) simp
  moreover have "map attempt_scope (tbl_update p f (db_task_attempts d)) = map attempt_scope (db_task_attempts d)"
    using assms(2) by (intro map_key_update) simp
  moreover have "attempt_scope = (\<lambda>a. (at_run_id a, at_task_id a, at_attempt_number a))"
    by (simp add: fun_eq_iff attempt_scope_def)
  moreover have "rows_step attempt_step (db_task_attempts d) (tbl_update p f (db_task_attempts d))"
  proof (rule rows_step_update)
    fix a assume "p a"
    then show "attempt_step a (f a)" using assms by (auto simp: attempt_step_def attempt_scope_def)
  qed simp
  ultimately show ?thesis by (simp add: evolves_def wf_db_def tables_step_def)
qed

lemma close_attempt_scope [simp]:
  "attempt_scope (close_attempt s e n a) = attempt_scope a"
  "at_attempt_id (close_attempt s e n a) = at_attempt_id a"
  "at_started_at (close_attempt s e n a) = at_started_at a"
  "at_finished_at (close_attempt s e n a) = Some n"
  by (simp_all add: close_attempt_def attempt_scope_def)

lemma evolves_close [simp]:
  "evolves d (d\<lparr>db_task_attempts := tbl_update (open_attempt i) (close_attempt s e n) (db_task_attempts d)\<rparr>)"
  "evolves d (d\<lparr>db_task_attempts := tbl_update (open_attempt_of r i) (close_attempt s e n) (db_task_attempts d)\<rparr>)"
  "evolves d (d\<lparr>db_task_attempts := tbl_update (open_attempt_of r i)
      (\<lambda>a. a\<lparr>at_state := s, at_finished_at := Some n\<rparr>) (db_task_attempts d)\<rparr>)"
  by (rule evolves_close_attempts;
      simp add: open_attempt_def open_attempt_of_def attempt_scope_def close_attempt_def)+

text \<open>
  One rule for the three task updates: a transaction that, whenever it succeeds, applies the
  task compare-and-swap and then a change of the attempts only.
\<close>

lemma out_task_cas:
  assumes seen: "good w \<Longrightarrow> seen_task (task_to_row t0) w" and succ: "task_successor t0 t"
    and ver: "tr_version t0 = v"
    and body: "\<And>d d' x. f d = Inr (x, d') \<Longrightarrow> x = t\<lparr>tr_version := v + 1\<rparr> \<and>
        rowcount (task_at t v) (db_tasks d) = 1 \<and>
        (\<exists>d1. d1 = d\<lparr>db_tasks := tbl_update (task_at t v) (set_task_values t (v + 1)) (db_tasks d)\<rparr>
           \<and> evolves d1 d' \<and> db_tasks d' = db_tasks d1)"
  shows "outcome durable (\<lambda>x w'. good w \<longrightarrow> seen_task (task_to_row x) w' \<and> x = t\<lparr>tr_version := v + 1\<rparr>) w (tx f)"
proof (rule out_tx, goal_cases)
  case (1 d d' x)
  have "\<exists>r1 \<in> set (db_tasks d). task_step (task_to_row t0) r1"
    using seen[OF 1(2)] seen_task_evolves[OF _ _ good_wf[OF 1(2)] 1(3)] unfolding seen_task_def by blast
  note E = evolves_set_task[OF 1(1) this succ ver]
  obtain d1 where d1: "d1 = d\<lparr>db_tasks := tbl_update (task_at t v) (set_task_values t (v + 1)) (db_tasks d)\<rparr>"
      "evolves d1 d'" "db_tasks d' = db_tasks d1"
    and x: "x = t\<lparr>tr_version := v + 1\<rparr>" and cnt: "rowcount (task_at t v) (db_tasks d) = 1"
    using body[OF 1(4)] by blast
  have A: "evolves d d1" "task_to_row (t\<lparr>tr_version := v + 1\<rparr>) \<in> set (db_tasks d1)"
    using E[OF cnt d1(1)] by blast+
  show ?case
    using evolves_trans[OF A(1) d1(2)] A(2) d1(3) x by (auto intro: seen_taskI)
qed

lemma out_update_task:
  assumes "good w \<Longrightarrow> seen_task (task_to_row t0) w" and "task_successor t0 t" and "tr_version t0 = v"
  shows "outcome durable (\<lambda>x w'. good w \<longrightarrow> seen_task (task_to_row x) w' \<and> x = t\<lparr>tr_version := v + 1\<rparr>)
           w (update_task t v)"
  unfolding update_task_def
  by (rule out_task_cas[OF assms]) (auto split: if_splits)

lemma seen_task_same_db: "w_db w' = w_db w \<Longrightarrow> seen_task t w' = seen_task t w"
  by (simp add: seen_task_def)

lemma out_update_task_and_finish_attempt:
  assumes "good w \<Longrightarrow> seen_task (task_to_row t0) w" and "task_successor t0 t" and "tr_version t0 = v"
  shows "outcome durable (\<lambda>x w'. good w \<longrightarrow> seen_task (task_to_row x) w' \<and> x = t\<lparr>tr_version := v + 1\<rparr>)
           w (update_task_and_finish_attempt t v i s e)"
  unfolding update_task_and_finish_attempt_def
proof (rule out_clock_then, goal_cases)
  case (1 now w')
  have "outcome durable (\<lambda>x u. good w' \<longrightarrow> seen_task (task_to_row x) u \<and> x = t\<lparr>tr_version := v + 1\<rparr>) w'
    (tx (\<lambda>d. if rowcount (task_at t v) (db_tasks d) \<noteq> 1
              \<or> rowcount (open_attempt i) (db_task_attempts d) \<noteq> 1
          then Inl (Durable ConcurrencyConflictError)
          else Inr (t\<lparr>tr_version := v + 1\<rparr>,
            d\<lparr>db_tasks := tbl_update (task_at t v) (set_task_values t (v + 1)) (db_tasks d),
              db_task_attempts := tbl_update (open_attempt i)
                (close_attempt s e now) (db_task_attempts d)\<rparr>)))"
  proof (rule out_task_cas[OF _ assms(2,3)])
    show "good w' \<Longrightarrow> seen_task (task_to_row t0) w'"
      using seen_task_same_db[OF 1(2)] 1(3) assms(1) by blast
    fix d d' :: database and x assume A: "(if rowcount (task_at t v) (db_tasks d) \<noteq> 1
              \<or> rowcount (open_attempt i) (db_task_attempts d) \<noteq> 1
          then Inl (Durable ConcurrencyConflictError)
          else Inr (t\<lparr>tr_version := v + 1\<rparr>,
            d\<lparr>db_tasks := tbl_update (task_at t v) (set_task_values t (v + 1)) (db_tasks d),
              db_task_attempts := tbl_update (open_attempt i)
                (close_attempt s e now) (db_task_attempts d)\<rparr>)) = Inr (x, d')"
    let ?d1 = "d\<lparr>db_tasks := tbl_update (task_at t v) (set_task_values t (v + 1)) (db_tasks d)\<rparr>"
    have "d' = ?d1\<lparr>db_task_attempts := tbl_update (open_attempt i)
                (close_attempt s e now) (db_task_attempts ?d1)\<rparr>"
      using A by (auto split: if_splits)
    then show "x = t\<lparr>tr_version := v + 1\<rparr> \<and> rowcount (task_at t v) (db_tasks d) = 1 \<and>
        (\<exists>d1. d1 = ?d1 \<and> evolves d1 d' \<and> db_tasks d' = db_tasks d1)"
      using A evolves_close(1)[of ?d1 i s e now] by (auto split: if_splits)
  qed
  then show ?case using 1(3) by simp
qed

lemma out_cancel_task_and_open_attempts:
  assumes "good w \<Longrightarrow> seen_task (task_to_row t0) w" and "task_successor t0 t" and "tr_version t0 = v"
  shows "outcome durable (\<lambda>x w'. good w \<longrightarrow> seen_task (task_to_row x) w' \<and> x = t\<lparr>tr_version := v + 1\<rparr>)
           w (cancel_task_and_open_attempts t v)"
  unfolding cancel_task_and_open_attempts_def
proof (rule out_clock_then, goal_cases)
  case (1 now w')
  have "outcome durable (\<lambda>x u. good w' \<longrightarrow> seen_task (task_to_row x) u \<and> x = t\<lparr>tr_version := v + 1\<rparr>) w'
    (tx (\<lambda>d. if rowcount (task_at t v) (db_tasks d) \<noteq> 1 then Inl (Durable ConcurrencyConflictError)
          else Inr (t\<lparr>tr_version := v + 1\<rparr>,
            d\<lparr>db_tasks := tbl_update (task_at t v) (set_task_values t (v + 1)) (db_tasks d),
              db_task_attempts := tbl_update (open_attempt_of (tr_run_id t) (tr_task_id t))
                (\<lambda>a. a\<lparr>at_state := T_CANCELLED, at_finished_at := Some now\<rparr>)
                (db_task_attempts d)\<rparr>)))"
  proof (rule out_task_cas[OF _ assms(2,3)])
    show "good w' \<Longrightarrow> seen_task (task_to_row t0) w'"
      using seen_task_same_db[OF 1(2)] 1(3) assms(1) by blast
    fix d d' :: database and x assume A: "(if rowcount (task_at t v) (db_tasks d) \<noteq> 1
          then Inl (Durable ConcurrencyConflictError)
          else Inr (t\<lparr>tr_version := v + 1\<rparr>,
            d\<lparr>db_tasks := tbl_update (task_at t v) (set_task_values t (v + 1)) (db_tasks d),
              db_task_attempts := tbl_update (open_attempt_of (tr_run_id t) (tr_task_id t))
                (\<lambda>a. a\<lparr>at_state := T_CANCELLED, at_finished_at := Some now\<rparr>)
                (db_task_attempts d)\<rparr>)) = Inr (x, d')"
    let ?d1 = "d\<lparr>db_tasks := tbl_update (task_at t v) (set_task_values t (v + 1)) (db_tasks d)\<rparr>"
    have "d' = ?d1\<lparr>db_task_attempts := tbl_update (open_attempt_of (tr_run_id t) (tr_task_id t))
                (\<lambda>a. a\<lparr>at_state := T_CANCELLED, at_finished_at := Some now\<rparr>) (db_task_attempts ?d1)\<rparr>"
      using A by (auto split: if_splits)
    then show "x = t\<lparr>tr_version := v + 1\<rparr> \<and> rowcount (task_at t v) (db_tasks d) = 1 \<and>
        (\<exists>d1. d1 = ?d1 \<and> evolves d1 d' \<and> db_tasks d' = db_tasks d1)"
      using A evolves_close(3)[where d = ?d1] by (auto split: if_splits)
  qed
  then show ?case using 1(3) by simp
qed

section \<open>The other operations\<close>

lemma wf_db_set_tasks:
  assumes "wf_db d" and "distinct (map tm_task_pk T)"
    and "\<And>r. r \<in> set T \<Longrightarrow> tm_task_pk r = task_pk (tm_run_id r) (tm_plan_id r) (tm_task_id r) \<and>
        tm_task_id r = ts_task_id (tm_spec r)"
  shows "wf_db (d\<lparr>db_tasks := T\<rparr>)"
  using assms(1) unfolding wf_db_def
  by (elim conjE, intro conjI) (simp_all add: assms(2,3) del: distinct_map)

lemma wf_db_set_dependencies: "wf_db d \<Longrightarrow> wf_db (d\<lparr>db_task_dependencies := T\<rparr>)"
  by (simp add: wf_db_def)

lemma out_save_tasks [outcome_intros]: "outcome durable (\<lambda>_ _. True) w (save_tasks tasks)"
  unfolding save_tasks_def Let_def
proof (intro out_on_db_error dur.out_raise out_tx_simple, goal_cases)
  case (1 d d' x)
  let ?rows = "map task_to_row tasks"
  have d': "d' = d\<lparr>db_tasks := db_tasks d @ ?rows\<rparr>\<lparr>
      db_task_dependencies := db_task_dependencies d @ concat (map task_dependencies tasks)\<rparr>"
    and dist: "distinct (map tm_task_pk (db_tasks d @ ?rows))"
    using 1(2) by (auto split: if_splits)
  have "tm_task_pk r = task_pk (tm_run_id r) (tm_plan_id r) (tm_task_id r) \<and>
      tm_task_id r = ts_task_id (tm_spec r)" if "r \<in> set (db_tasks d @ ?rows)" for r
    using that wf_db_task[OF 1(1)] by auto
  then have "wf_db d'" unfolding d' using wf_db_set_tasks[OF 1(1) dist] wf_db_set_dependencies by blast
  moreover have "tables_step d d'" unfolding d' tables_step_def by simp
  ultimately show ?case by (simp add: evolves_def)
qed

lemma out_checkpoint_tip_sequence [outcome_intros]:
  "outcome durable (\<lambda>_ _. True) w (checkpoint_tip_sequence run_id)"
  unfolding checkpoint_tip_sequence_def by (rule out_query)

lemma out_start_task_attempt [outcome_intros]:
  "outcome durable (\<lambda>_ _. True) w (start_task_attempt run_id task_id n)"
  unfolding start_task_attempt_def Let_def
  by (intro dur.out_bnd[OF out_ids] dur.out_bnd[OF out_clock] out_on_integrity_error dur.out_raise
      out_tx_simple)
    (auto simp: evolves_def wf_db_def tables_step_def attempt_scope_def image_iff split: if_splits)

lemma out_finish_task_attempt [outcome_intros]:
  "outcome durable (\<lambda>_ _. True) w (finish_task_attempt i s e)"
  unfolding finish_task_attempt_def
  by (intro dur.out_bnd[OF out_clock] out_tx_simple) (auto split: if_splits)

lemma out_finish_open_task_attempts [outcome_intros]:
  "outcome durable (\<lambda>_ _. True) w (finish_open_task_attempts r i s e)"
  unfolding finish_open_task_attempts_def
  by (intro dur.out_bnd[OF out_clock] out_tx_simple) auto

end
