(* ===== verification/Store_Leases.thy ===== *)
theory Store_Leases
  imports Store_Tasks
begin

text \<open>
  \<open>persistence/store.py\<close>, leases: one row per run names the worker that may advance it, until when,
  and under which fencing token. Acquisition takes a free or expired lease over, renewal and release
  are compare-and-swaps on owner, fence and version.
\<close>

definition valid_LeaseRecord :: "LeaseRecord \<Rightarrow> bool" where
  "valid_LeaseRecord l \<longleftrightarrow> no_nul (le_run_id l) \<and> no_nul (le_owner_id l) \<and>
     1 \<le> le_fencing_token l \<and> 1 \<le> le_version l"

definition get_lease :: "string \<Rightarrow> database \<Rightarrow> LeaseORM option" where
  "get_lease run_id d = tbl_get le_run_id run_id (db_leases d)"

text \<open>\<open>timedelta(seconds=...)\<close> in microseconds.\<close>

definition seconds :: "int \<Rightarrow> time" where
  "seconds n = n * 1000000"

definition lease_at :: "string \<Rightarrow> int \<Rightarrow> LeaseORM \<Rightarrow> bool" where
  "lease_at run_id version row \<longleftrightarrow> le_run_id row = run_id \<and> le_version row = version"

definition acquire_body ::
  "string \<Rightarrow> string \<Rightarrow> time \<Rightarrow> time \<Rightarrow> database \<Rightarrow> exn + LeaseRecord \<times> database" where
  "acquire_body run_id owner_id now expires d =
     (case get_lease run_id d of
        None \<Rightarrow>
          (case checked valid_LeaseRecord \<lparr>le_run_id = run_id, le_owner_id = owner_id,
               le_expires_at = expires, le_fencing_token = 1, le_version = 1,
               le_acquired_at = now, le_renewed_at = now\<rparr> of
             Inl e \<Rightarrow> Inl e
           | Inr lease \<Rightarrow> if \<not> run_exists run_id d then Inl IntegrityError
               else Inr (lease, d\<lparr>db_leases := db_leases d @ [lease]\<rparr>))
      | Some row \<Rightarrow>
          if le_owner_id row \<noteq> owner_id \<and> now < le_expires_at row
          then Inl (Durable ConcurrencyConflictError)
          else
            (let version = le_version row;
                 fence = (if le_owner_id row = owner_id then le_fencing_token row
                          else le_fencing_token row + 1);
                 acquired = (if le_owner_id row = owner_id then le_acquired_at row else now);
                 new = \<lparr>le_run_id = run_id, le_owner_id = owner_id, le_expires_at = expires,
                        le_fencing_token = fence, le_version = version + 1,
                        le_acquired_at = acquired, le_renewed_at = now\<rparr> in
             if rowcount (lease_at run_id version) (db_leases d) \<noteq> 1
             then Inl (Durable ConcurrencyConflictError)
             else (case checked valid_LeaseRecord new of
                 Inl e \<Rightarrow> Inl e
               | Inr lease \<Rightarrow> Inr (lease, d\<lparr>db_leases :=
                   tbl_update (lease_at run_id version) (\<lambda>_. new) (db_leases d)\<rparr>))))"

definition acquire_lease :: "string \<Rightarrow> string \<Rightarrow> int \<Rightarrow> LeaseRecord io" where
  "acquire_lease run_id owner_id ttl_seconds =
     bnd clock_now (\<lambda>now.
       on_integrity_error (tx (acquire_body run_id owner_id now (now + seconds ttl_seconds)))
         (raise (Durable ConcurrencyConflictError)))"

definition lease_held :: "LeaseRecord \<Rightarrow> LeaseORM \<Rightarrow> bool" where
  "lease_held lease row \<longleftrightarrow> le_run_id row = le_run_id lease \<and> le_owner_id row = le_owner_id lease \<and>
     le_fencing_token row = le_fencing_token lease \<and> le_version row = le_version lease"

definition renew_body ::
  "LeaseRecord \<Rightarrow> time \<Rightarrow> time \<Rightarrow> database \<Rightarrow> exn + LeaseRecord \<times> database" where
  "renew_body lease now expires d =
     (case get_lease (le_run_id lease) d of
        None \<Rightarrow> Inl (Durable ConcurrencyConflictError)
      | Some row \<Rightarrow>
          if le_owner_id row \<noteq> le_owner_id lease
            \<or> le_fencing_token row \<noteq> le_fencing_token lease
            \<or> le_version row \<noteq> le_version lease \<or> le_expires_at row \<le> now
          then Inl (Durable ConcurrencyConflictError)
          else if rowcount (lease_held lease) (db_leases d) \<noteq> 1
          then Inl (Durable ConcurrencyConflictError)
          else Inr (lease\<lparr>le_expires_at := expires, le_version := le_version lease + 1,
                          le_renewed_at := now\<rparr>,
            d\<lparr>db_leases := tbl_update (lease_held lease)
                (\<lambda>r. r\<lparr>le_expires_at := expires, le_version := le_version lease + 1,
                       le_renewed_at := now\<rparr>) (db_leases d)\<rparr>))"

definition renew_lease :: "LeaseRecord \<Rightarrow> int \<Rightarrow> LeaseRecord io" where
  "renew_lease lease ttl_seconds =
     bnd clock_now (\<lambda>now. tx (renew_body lease now (now + seconds ttl_seconds)))"

definition release_lease :: "LeaseRecord \<Rightarrow> unit io" where
  "release_lease lease =
     tx (\<lambda>d. if rowcount (lease_held lease) (db_leases d) \<noteq> 1
        then Inl (Durable ConcurrencyConflictError)
        else Inr ((), d\<lparr>db_leases := filter (\<lambda>r. \<not> lease_held lease r) (db_leases d)\<rparr>))"

section \<open>Durability\<close>

lemma evolves_leases: "distinct (map le_run_id T) \<Longrightarrow> evolves d (d\<lparr>db_leases := T\<rparr>)"
  by (simp add: evolves_def wf_db_def tables_step_def)

lemma wf_leases: "wf_db d \<Longrightarrow> distinct (map le_run_id (db_leases d))"
  by (simp add: wf_db_def)

lemma get_lease_SomeD: "get_lease i d = Some r \<Longrightarrow> r \<in> set (db_leases d) \<and> le_run_id r = i"
  unfolding get_lease_def by (rule tbl_get_SomeD)

lemma map_lease_update:
  assumes "\<And>r. p r \<Longrightarrow> le_run_id (f r) = le_run_id r"
  shows "map le_run_id (tbl_update p f T) = map le_run_id T"
  using assms by (induction T) auto

lemma acquire_body_evolves:
  assumes "wf_db d" and "acquire_body run_id owner now expires d = Inr (l, d')"
  shows "evolves d d'"
proof (cases "get_lease run_id d")
  case None
  have "\<forall>r \<in> set (db_leases d). le_run_id r \<noteq> run_id"
    using None by (simp add: get_lease_def table_simps)
  then show ?thesis using assms None wf_leases[OF assms(1)]
    by (auto simp: acquire_body_def checked_def split: if_splits intro!: evolves_leases)
next
  case (Some row)
  have "le_run_id row = run_id" using get_lease_SomeD[OF Some] by simp
  then obtain new v where "d' = d\<lparr>db_leases := tbl_update (lease_at run_id v) (\<lambda>_. new) (db_leases d)\<rparr>"
    "le_run_id new = run_id"
    using assms Some by (auto simp: acquire_body_def checked_def Let_def split: if_splits)
  moreover have "map le_run_id (tbl_update (lease_at run_id v) (\<lambda>_. new) (db_leases d))
      = map le_run_id (db_leases d)"
    using \<open>le_run_id new = run_id\<close> by (intro map_lease_update) (simp add: lease_at_def)
  ultimately show ?thesis using wf_leases[OF assms(1)] by (simp add: evolves_leases)
qed

lemma renew_body_evolves:
  "wf_db d \<Longrightarrow> renew_body lease now expires d = Inr (l, d') \<Longrightarrow> evolves d d'"
  using wf_leases[of d]
  by (auto simp: renew_body_def map_lease_update split: option.splits if_splits intro!: evolves_leases)

lemma out_acquire_lease [outcome_intros]:
  "outcome durable (\<lambda>_ _. True) w (acquire_lease run_id owner ttl)"
  unfolding acquire_lease_def
  by (intro dur.out_bnd[OF out_clock] out_on_integrity_error out_tx_simple dur.out_raise)
    (rule acquire_body_evolves)

lemma out_renew_lease [outcome_intros]: "outcome durable (\<lambda>_ _. True) w (renew_lease lease ttl)"
  unfolding renew_lease_def
  by (intro dur.out_bnd[OF out_clock] out_tx_simple) (rule renew_body_evolves)

lemma out_release_lease [outcome_intros]: "outcome durable (\<lambda>_ _. True) w (release_lease lease)"
  unfolding release_lease_def
  by (rule out_tx_simple)
    (auto split: if_splits intro!: evolves_leases dest: wf_leases simp: distinct_map_filter)

section \<open>Exclusive ownership\<close>

text \<open>
  The interface a lease table offers: \<open>holder\<close> reads the row of a run, \<open>acquire\<close>, \<open>renew\<close> and
  \<open>release\<close> act on it. The laws are those of the three store operations; the consequences are
  about every sequence of operations by any number of workers.
\<close>

datatype lease_op = Acquire string time time | Renew LeaseRecord time time | Release LeaseRecord

fun op_owner :: "lease_op \<Rightarrow> string" where
  "op_owner (Acquire owner now expires) = owner"
| "op_owner (Renew lease now expires) = le_owner_id lease"
| "op_owner (Release lease) = le_owner_id lease"

fun op_before :: "time \<Rightarrow> lease_op \<Rightarrow> bool" where
  "op_before t (Acquire owner now expires) = (now < t)"
| "op_before t (Renew lease now expires) = (now < t)"
| "op_before t (Release lease) = True"

locale lease_table =
  fixes ok :: "'d \<Rightarrow> bool"
    and holder :: "'d \<Rightarrow> LeaseRecord option"
    and run_op :: "lease_op \<Rightarrow> 'd \<Rightarrow> exn + 'd"
  assumes ok_step: "ok d \<Longrightarrow> run_op p d = Inr d' \<Longrightarrow> ok d'"
    and other_refused: "ok d \<Longrightarrow> holder d = Some row \<Longrightarrow> op_owner p \<noteq> le_owner_id row \<Longrightarrow>
      op_before (le_expires_at row) p \<Longrightarrow> \<exists>e. run_op p d = Inl e"
    and renew_current: "ok d \<Longrightarrow> run_op (Renew lease now expires) d = Inr d' \<Longrightarrow>
      \<exists>row. holder d = Some row \<and> le_owner_id row = le_owner_id lease \<and>
        le_fencing_token row = le_fencing_token lease \<and> le_version row = le_version lease \<and>
        now < le_expires_at row \<and> holder d' = Some (row\<lparr>le_expires_at := expires,
          le_version := le_version row + 1, le_renewed_at := now\<rparr>)"
    and acquire_takes: "ok d \<Longrightarrow> run_op (Acquire owner now expires) d = Inr d' \<Longrightarrow>
      \<exists>row'. holder d' = Some row' \<and> le_owner_id row' = owner \<and> le_expires_at row' = expires \<and>
        (case holder d of None \<Rightarrow> le_fencing_token row' = 1
         | Some row \<Rightarrow> le_version row' = le_version row + 1 \<and>
             (if le_owner_id row = owner then le_fencing_token row' = le_fencing_token row
              else le_expires_at row \<le> now \<and> le_fencing_token row' = le_fencing_token row + 1))"
    and release_frees: "ok d \<Longrightarrow> run_op (Release lease) d = Inr d' \<Longrightarrow> holder d' = None \<and>
      (\<exists>row. holder d = Some row \<and> le_owner_id row = le_owner_id lease \<and>
        le_fencing_token row = le_fencing_token lease \<and> le_version row = le_version lease)"
begin

text \<open>A worker that fails keeps the table; the others go on.\<close>

definition step_op :: "lease_op \<Rightarrow> 'd \<Rightarrow> 'd" where
  "step_op p d = (case run_op p d of Inl e \<Rightarrow> d | Inr d' \<Rightarrow> d')"

lemma exclusive:
  assumes "ok d" and "holder d = Some row"
    and "\<forall>p \<in> set ops. op_owner p \<noteq> le_owner_id row \<and> op_before (le_expires_at row) p"
  shows "fold step_op ops d = d"
  using assms
proof (induction ops)
  case Nil
  then show ?case by simp
next
  case (Cons p ops)
  obtain e where "run_op p d = Inl e" using other_refused[OF Cons.prems(1,2)] Cons.prems(3) by auto
  then show ?case using Cons by (simp add: step_op_def)
qed

text \<open>While nobody releases, the fence never decreases, and it grows when the owner changes.\<close>

definition no_release :: "lease_op \<Rightarrow> bool" where
  "no_release p \<longleftrightarrow> (case p of Release l \<Rightarrow> False | _ \<Rightarrow> True)"

definition fence_order :: "LeaseRecord \<Rightarrow> LeaseRecord \<Rightarrow> bool" where
  "fence_order r r' \<longleftrightarrow> le_version r \<le> le_version r' \<and> le_fencing_token r \<le> le_fencing_token r' \<and>
     (le_fencing_token r' = le_fencing_token r \<longrightarrow> le_owner_id r' = le_owner_id r)"

lemma ok_step_op: "ok d \<Longrightarrow> ok (step_op p d)"
  by (auto simp: step_op_def split: sum.splits intro: ok_step)

lemma ok_fold: "ok d \<Longrightarrow> ok (fold step_op ops d)"
  by (induction ops arbitrary: d) (auto intro: ok_step_op)

lemma fence_step:
  assumes ok: "ok d" and "holder d = Some row" and "no_release p"
  shows "\<exists>row'. holder (step_op p d) = Some row' \<and> fence_order row row'"
proof (cases "run_op p d")
  case (Inl e)
  then show ?thesis using assms by (simp add: step_op_def fence_order_def)
next
  case (Inr d')
  show ?thesis
  proof (cases p)
    case (Acquire owner now expires)
    have "run_op (Acquire owner now expires) d = Inr d'" using Inr Acquire by simp
    from acquire_takes[OF ok this] obtain row' where "holder d' = Some row'" "le_owner_id row' = owner"
      "le_version row' = le_version row + 1"
      "if le_owner_id row = owner then le_fencing_token row' = le_fencing_token row
       else le_fencing_token row' = le_fencing_token row + 1"
      using assms(2) by (auto split: if_splits)
    then show ?thesis using Inr by (auto simp: step_op_def fence_order_def split: if_splits)
  next
    case (Renew lease now expires)
    have "run_op (Renew lease now expires) d = Inr d'" using Inr Renew by simp
    from renew_current[OF ok this] show ?thesis
      using assms(2) Inr by (auto simp: step_op_def fence_order_def)
  next
    case (Release lease)
    then show ?thesis using assms(3) by (simp add: no_release_def)
  qed
qed

lemma fence_monotone:
  assumes "ok d" and "holder d = Some row" and "\<forall>p \<in> set ops. no_release p"
  shows "\<exists>row'. holder (fold step_op ops d) = Some row' \<and> fence_order row row'"
  using assms
proof (induction ops arbitrary: d row)
  case Nil
  then show ?case by (simp add: fence_order_def)
next
  case (Cons p ops)
  obtain row1 where 1: "holder (step_op p d) = Some row1" "fence_order row row1"
    using fence_step[OF Cons.prems(1,2), of p] Cons.prems(3) by auto
  obtain row2 where 2: "holder (fold step_op ops (step_op p d)) = Some row2" "fence_order row1 row2"
    using Cons.IH[OF ok_step_op[OF Cons.prems(1)] 1(1)] Cons.prems(3) by auto
  have "fence_order row row2" using 1(2) 2(2) unfolding fence_order_def by auto
  then show ?case using 2(1) by auto
qed

text \<open>
  A worker whose lease was taken over can neither renew nor release with the record it holds,
  whatever happens meanwhile, as long as nobody releases.
\<close>

lemma stale_refused:
  assumes "ok d" and "holder d = Some row" and "\<forall>p \<in> set ops. no_release p"
    and "le_fencing_token lease < le_fencing_token row"
  shows "(\<exists>e. run_op (Renew lease now expires) (fold step_op ops d) = Inl e) \<and>
    (\<exists>e. run_op (Release lease) (fold step_op ops d) = Inl e)"
proof -
  obtain row' where r: "holder (fold step_op ops d) = Some row'" "fence_order row row'"
    using fence_monotone[OF assms(1-3)] by blast
  have ne: "le_fencing_token row' \<noteq> le_fencing_token lease"
    using r(2) assms(4) by (simp add: fence_order_def)
  have "run_op (Renew lease now expires) (fold step_op ops d) \<noteq> Inr x" for x
    using renew_current[OF ok_fold[OF assms(1)], of lease now expires ops x] r(1) ne by auto
  moreover have "run_op (Release lease) (fold step_op ops d) \<noteq> Inr x" for x
    using release_frees[OF ok_fold[OF assms(1)], of lease ops x] r(1) ne by auto
  ultimately show ?thesis by (metis old.sum.exhaust)
qed

end

text \<open>The bodies of the three transactions are the operations; the row of a run is the holder.\<close>

definition release_body :: "LeaseRecord \<Rightarrow> database \<Rightarrow> exn + unit \<times> database" where
  "release_body lease d =
     (if rowcount (lease_held lease) (db_leases d) \<noteq> 1
      then Inl (Durable ConcurrencyConflictError)
      else Inr ((), d\<lparr>db_leases := filter (\<lambda>r. \<not> lease_held lease r) (db_leases d)\<rparr>))"

definition lease_op_on :: "string \<Rightarrow> lease_op \<Rightarrow> database \<Rightarrow> exn + database" where
  "lease_op_on run_id p d =
     (case p of
        Acquire owner now expires \<Rightarrow> map_sum id snd (acquire_body run_id owner now expires d)
      | Renew lease now expires \<Rightarrow>
          map_sum id snd (renew_body (lease\<lparr>le_run_id := run_id\<rparr>) now expires d)
      | Release lease \<Rightarrow> map_sum id snd (release_body (lease\<lparr>le_run_id := run_id\<rparr>) d))"

lemma release_lease_body: "release_lease lease = tx (release_body lease)"
  unfolding release_lease_def by (rule arg_cong[where f = tx]) (simp add: fun_eq_iff release_body_def)

lemma tbl_get_update_on:
  assumes "\<And>r. p r \<Longrightarrow> key (f r) = key r"
  shows "tbl_get key k (tbl_update p f t) = map_option (\<lambda>r. if p r then f r else r) (tbl_get key k t)"
  using assms by (induction t) (auto simp: tbl_get_Cons)

lemma acquire_holder:
  assumes "acquire_body run_id owner now expires d = Inr (l, d')"
  shows "get_lease run_id d' = Some l \<and> le_owner_id l = owner \<and> le_expires_at l = expires \<and>
     le_run_id l = run_id \<and>
     (case get_lease run_id d of None \<Rightarrow> le_fencing_token l = 1
      | Some row \<Rightarrow> le_version l = le_version row + 1 \<and>
          (if le_owner_id row = owner then le_fencing_token l = le_fencing_token row
           else le_expires_at row \<le> now \<and> le_fencing_token l = le_fencing_token row + 1))"
proof (cases "get_lease run_id d")
  case None
  then have l: "le_owner_id l = owner \<and> le_expires_at l = expires \<and> le_run_id l = run_id \<and>
      le_fencing_token l = 1" and d': "d' = d\<lparr>db_leases := db_leases d @ [l]\<rparr>"
    using assms by (auto simp: acquire_body_def checked_def split: if_splits)
  have "get_lease run_id d' = Some l"
    using None l unfolding d' get_lease_def by (simp add: tbl_get_append tbl_get_Cons)
  then show ?thesis using None l by simp
next
  case (Some row)
  obtain new where new: "l = new" "d' = d\<lparr>db_leases := tbl_update (lease_at run_id (le_version row)) (\<lambda>_. new) (db_leases d)\<rparr>"
    "le_run_id new = run_id" "le_owner_id new = owner" "le_expires_at new = expires"
    "le_version new = le_version row + 1"
    "if le_owner_id row = owner then le_fencing_token new = le_fencing_token row
     else le_expires_at row \<le> now \<and> le_fencing_token new = le_fencing_token row + 1"
    using assms Some by (auto simp: acquire_body_def checked_def Let_def split: if_splits)
  have "le_run_id row = run_id" using get_lease_SomeD[OF Some] by simp
  have "get_lease run_id d' = map_option (\<lambda>r. if lease_at run_id (le_version row) r then new else r) (get_lease run_id d)"
    unfolding new(2) get_lease_def database.select_convs database.update_convs
    using tbl_get_update_on[of "lease_at run_id (le_version row)" le_run_id "\<lambda>_. new" run_id "db_leases d"] new(3)
    by (simp add: lease_at_def)
  then have "get_lease run_id d' = Some new"
    using Some \<open>le_run_id row = run_id\<close> by (simp add: lease_at_def)
  then show ?thesis using new Some by simp
qed

lemma renew_holder:
  assumes "renew_body lease now expires d = Inr (l, d')"
  shows "\<exists>row. get_lease (le_run_id lease) d = Some row \<and> le_owner_id row = le_owner_id lease \<and>
    le_fencing_token row = le_fencing_token lease \<and> le_version row = le_version lease \<and>
    now < le_expires_at row \<and>
    l = lease\<lparr>le_expires_at := expires, le_version := le_version lease + 1, le_renewed_at := now\<rparr> \<and>
    get_lease (le_run_id lease) d' = Some (row\<lparr>le_expires_at := expires,
      le_version := le_version row + 1, le_renewed_at := now\<rparr>)"
proof -
  obtain row where row: "get_lease (le_run_id lease) d = Some row" "le_owner_id row = le_owner_id lease"
    "le_fencing_token row = le_fencing_token lease" "le_version row = le_version lease"
    "now < le_expires_at row"
    "l = lease\<lparr>le_expires_at := expires, le_version := le_version lease + 1, le_renewed_at := now\<rparr>"
    "d' = d\<lparr>db_leases := tbl_update (lease_held lease)
        (\<lambda>r. r\<lparr>le_expires_at := expires, le_version := le_version lease + 1, le_renewed_at := now\<rparr>) (db_leases d)\<rparr>"
    using assms by (auto simp: renew_body_def split: option.splits if_splits)
  have "le_run_id row = le_run_id lease" using get_lease_SomeD[OF row(1)] by simp
  moreover have "get_lease (le_run_id lease) d' = map_option (\<lambda>r. if lease_held lease r
      then r\<lparr>le_expires_at := expires, le_version := le_version lease + 1, le_renewed_at := now\<rparr> else r)
      (get_lease (le_run_id lease) d)"
    unfolding row(7) get_lease_def by (simp add: tbl_get_update)
  ultimately show ?thesis using row by (simp add: lease_held_def)
qed

lemma release_holder:
  assumes "wf_db d" and "release_body lease d = Inr (u, d')"
  shows "get_lease (le_run_id lease) d' = None \<and>
    (\<exists>row. get_lease (le_run_id lease) d = Some row \<and> lease_held lease row)"
proof -
  have d': "d' = d\<lparr>db_leases := filter (\<lambda>r. \<not> lease_held lease r) (db_leases d)\<rparr>"
    and cnt: "rowcount (lease_held lease) (db_leases d) = 1"
    using assms(2) by (auto simp: release_body_def split: if_splits)
  obtain row where row: "row \<in> set (db_leases d)" "lease_held lease row"
    using cnt rowcount_0_iff[of "lease_held lease" "db_leases d"] by auto
  have g: "get_lease (le_run_id lease) d = Some row"
    using row tbl_get_in[OF wf_leases[OF assms(1)] row(1)] by (simp add: get_lease_def lease_held_def)
  have "r = row" if "r \<in> set (db_leases d)" "le_run_id r = le_run_id lease" for r
    using tbl_get_in[OF wf_leases[OF assms(1)] that(1)] that(2) g by (simp add: get_lease_def)
  then have "get_lease (le_run_id lease) d' = None"
    using row(2) unfolding d' get_lease_def by (auto simp: table_simps)
  then show ?thesis using g row(2) by blast
qed

lemma release_body_evolves: "wf_db d \<Longrightarrow> release_body lease d = Inr (u, d') \<Longrightarrow> evolves d d'"
  by (auto simp: release_body_def distinct_map_filter dest: wf_leases split: if_splits intro!: evolves_leases)

lemma sum_InrD: "map_sum id f x = Inr y \<Longrightarrow> \<exists>z. x = Inr z \<and> y = f z"
  by (cases x) auto

lemma map_sum_InlD: "map_sum id f x = Inl e \<Longrightarrow> x = Inl e"
  by (cases x) auto

lemma lease_op_on_Inr:
  assumes "lease_op_on run_id p d = Inr d'"
  shows "(\<exists>owner now expires l. p = Acquire owner now expires \<and> acquire_body run_id owner now expires d = Inr (l, d')) \<or>
    (\<exists>lease now expires l. p = Renew lease now expires \<and>
       renew_body (lease\<lparr>le_run_id := run_id\<rparr>) now expires d = Inr (l, d')) \<or>
    (\<exists>lease. p = Release lease \<and> release_body (lease\<lparr>le_run_id := run_id\<rparr>) d = Inr ((), d'))"
  using assms by (auto simp: lease_op_on_def split: lease_op.splits dest!: sum_InrD)

lemma lease_op_on_other_refused:
  assumes "get_lease run_id d = Some row" and "op_owner p \<noteq> le_owner_id row"
    and "op_before (le_expires_at row) p" and "wf_db d"
  shows "\<exists>e. lease_op_on run_id p d = Inl e"
proof (rule ccontr)
  assume "\<not> ?thesis"
  then obtain d' where "lease_op_on run_id p d = Inr d'" by (metis old.sum.exhaust)
  from lease_op_on_Inr[OF this] show False
  proof (elim disjE exE conjE)
    fix owner now expires l
    assume "p = Acquire owner now expires" "acquire_body run_id owner now expires d = Inr (l, d')"
    then show False using assms acquire_holder[of run_id owner now expires d l d'] by auto
  next
    fix lease now expires l
    assume "p = Renew lease now expires" "renew_body (lease\<lparr>le_run_id := run_id\<rparr>) now expires d = Inr (l, d')"
    then show False using assms renew_holder[of "lease\<lparr>le_run_id := run_id\<rparr>" now expires d l d'] by auto
  next
    fix lease
    assume "p = Release lease" "release_body (lease\<lparr>le_run_id := run_id\<rparr>) d = Inr ((), d')"
    then show False using assms release_holder[of d "lease\<lparr>le_run_id := run_id\<rparr>" "()" d']
      by (auto simp: lease_held_def)
  qed
qed

interpretation leases: lease_table wf_db "get_lease run_id" "lease_op_on run_id" for run_id
proof (unfold_locales, goal_cases)
  case (1 d p d')
  then show ?case
    using lease_op_on_Inr[OF 1(2)] acquire_body_evolves renew_body_evolves release_body_evolves
    unfolding evolves_def by blast
next
  case (2 d row p)
  then show ?case using lease_op_on_other_refused by blast
next
  case (3 d lease now expires d')
  then show ?case
    using renew_holder[of "lease\<lparr>le_run_id := run_id\<rparr>" now expires d _ d'] lease_op_on_Inr[OF 3(2)] by auto
next
  case (4 d owner now expires d')
  obtain l where "acquire_body run_id owner now expires d = Inr (l, d')"
    using lease_op_on_Inr[OF 4(2)] by auto
  then show ?case using acquire_holder[of run_id owner now expires d l d'] by auto
next
  case (5 d lease d')
  then show ?case
    using release_holder[of d "lease\<lparr>le_run_id := run_id\<rparr>" "()" d'] lease_op_on_Inr[OF 5(2)]
    by (auto simp: lease_held_def)
qed

section \<open>Properties of leases\<close>

definition lease_try :: "string \<Rightarrow> lease_op \<Rightarrow> database \<Rightarrow> database" where
  "lease_try run_id p d = (case lease_op_on run_id p d of Inl e \<Rightarrow> d | Inr d' \<Rightarrow> d')"

definition is_release :: "lease_op \<Rightarrow> bool" where
  "is_release p = (case p of Release l \<Rightarrow> True | _ \<Rightarrow> False)"

lemma leases_step_op: "leases.step_op run_id p d = lease_try run_id p d"
  by (simp add: leases.step_op_def lease_try_def)

lemma leases_no_release: "leases.no_release p = (\<not> is_release p)"
  by (simp add: leases.no_release_def is_release_def split: lease_op.splits)

lemma acquire_lease_InrD:
  assumes "good w" and "acquire_lease run_id owner ttl w = (Inr l, w')"
  shows "\<exists>d. wf_db d \<and> wf_db (w_db w') \<and> d = w_rely w (w_txn w) (w_db w) \<and>
    acquire_body run_id owner (w_clock w (w_reads w)) (w_clock w (w_reads w) + seconds ttl) d
      = Inr (l, w_db w')"
proof -
  let ?now = "w_clock w (w_reads w)"
  let ?w = "w\<lparr>w_reads := Suc (w_reads w)\<rparr>"
  let ?d = "w_rely w (w_txn w) (w_db w)"
  have "tx (acquire_body run_id owner ?now (?now + seconds ttl)) ?w = (Inr l, w')"
    using assms(2) by (auto simp: acquire_lease_def clock_now_def on_integrity_error_def act_simps
        split: prod.splits sum.splits if_splits)
  then have body: "acquire_body run_id owner ?now (?now + seconds ttl) ?d = Inr (l, w_db w')"
    by (auto simp: tx_def Let_def crashed_def split: if_splits sum.splits option.splits)
  have wf: "wf_db ?d" using assms(1) by (auto simp: good_def evolves_def)
  then have "wf_db (w_db w')" using acquire_body_evolves[OF wf body] by (simp add: evolves_def)
  then show ?thesis using wf body by blast
qed

text \<open>
  C2. A lease is exclusive until it expires: once \<open>acquire_lease\<close> has returned a lease, whatever
  other workers attempt on this run before its expiry (acquire, renew with any record, release with
  any record, in any order and number) is refused and leaves the database as it is.
\<close>

theorem lease_exclusive:
  assumes "good w" and "acquire_lease run_id owner ttl w = (Inr l, w')"
    and "\<forall>p \<in> set attempts. op_owner p \<noteq> owner \<and> op_before (le_expires_at l) p"
  shows "fold (lease_try run_id) attempts (w_db w') = w_db w' \<and>
    le_expires_at l = w_clock w (w_reads w) + seconds ttl"
proof -
  obtain d where d: "wf_db (w_db w')"
    "acquire_body run_id owner (w_clock w (w_reads w)) (w_clock w (w_reads w) + seconds ttl) d = Inr (l, w_db w')"
    using acquire_lease_InrD[OF assms(1,2)] by blast
  note H = acquire_holder[OF d(2)]
  have "fold (leases.step_op run_id) attempts (w_db w') = w_db w'"
    using H assms(3) by (intro leases.exclusive[OF d(1), of run_id l]) auto
  then show ?thesis using H by (simp add: leases_step_op[abs_def])
qed

definition lease_db :: database where
  "lease_db = empty_db\<lparr>db_runs := [\<lparr>rr_run_id = ''r'', rr_owner_id = ''o'', rr_objective = ''x'',
     rr_state = R_RUNNING, rr_active_plan_id = None, rr_active_task_id = None,
     rr_repository_root = None, rr_repository_snapshot_id = None,
     rr_configuration_fingerprint = ''f'', rr_version = 1, rr_created_at = 0, rr_updated_at = 0,
     rr_finished_at = None\<rparr>]\<rparr>"

lemma wf_lease_db: "wf_db lease_db"
  by (simp add: lease_db_def wf_db_def empty_db_def)

definition lease_a :: LeaseRecord where
  "lease_a = \<lparr>le_run_id = ''r'', le_owner_id = ''A'', le_expires_at = 30000000,
     le_fencing_token = 1, le_version = 1, le_acquired_at = 0, le_renewed_at = 0\<rparr>"

lemma acquire_example:
  "\<exists>w'. acquire_lease ''r'' ''A'' 30 (quiet_world lease_db) = (Inr lease_a, w') \<and>
     w_db w' = lease_db\<lparr>db_leases := [lease_a]\<rparr>"
  by (simp add: acquire_lease_def on_integrity_error_def clock_now_def act_simps tx_def
      quiet_world_def crashed_def acquire_body_def get_lease_def checked_def
      valid_LeaseRecord_def no_nul_def lease_db_def empty_db_def run_exists_def seconds_def
      lease_a_def Let_def)

lemma lease_exclusive_witness:
  "\<exists>w'. acquire_lease ''r'' ''A'' 30 (quiet_world lease_db) = (Inr lease_a, w') \<and>
     fold (lease_try ''r'') [Acquire ''B'' 5 9, Release (lease_a\<lparr>le_owner_id := ''B''\<rparr>)] (w_db w')
       = w_db w'"
proof -
  obtain w' where w': "acquire_lease ''r'' ''A'' 30 (quiet_world lease_db) = (Inr lease_a, w')"
    using acquire_example by blast
  have "good (quiet_world lease_db)" by (simp add: good_quiet wf_lease_db)
  from lease_exclusive[OF this w', of "[Acquire ''B'' 5 9, Release (lease_a\<lparr>le_owner_id := ''B''\<rparr>)]"]
  show ?thesis using w' by (simp add: lease_a_def)
qed

text \<open>
  C21. Fencing. The lease that \<open>acquire_lease\<close> returns carries the fence of the row it found, plus
  one when the owner changed (only possible once that row had expired); and a worker still holding
  a record with a smaller fence is refused on renewal and release after any further sequence of
  lease operations in which nobody releases.
\<close>

theorem lease_fencing:
  assumes "good w" and "acquire_lease run_id owner ttl w = (Inr l, w')"
  shows "(case get_lease run_id (w_rely w (w_txn w) (w_db w)) of
      None \<Rightarrow> le_fencing_token l = 1
    | Some row \<Rightarrow> le_version l = le_version row + 1 \<and>
        (if le_owner_id row = owner then le_fencing_token l = le_fencing_token row
         else le_expires_at row \<le> w_clock w (w_reads w) \<and> le_fencing_token l = le_fencing_token row + 1))
   \<and> (\<forall>stale ops now expires. le_run_id stale = run_id \<longrightarrow>
        le_fencing_token stale < le_fencing_token l \<longrightarrow> list_all (\<lambda>p. \<not> is_release p) ops \<longrightarrow>
        (let d = fold (lease_try run_id) ops (w_db w') in
         (\<exists>e. renew_body stale now expires d = Inl e) \<and> (\<exists>e. release_body stale d = Inl e)))"
proof -
  obtain d where d: "wf_db (w_db w')" "d = w_rely w (w_txn w) (w_db w)"
    "acquire_body run_id owner (w_clock w (w_reads w)) (w_clock w (w_reads w) + seconds ttl) d = Inr (l, w_db w')"
    using acquire_lease_InrD[OF assms(1,2)] by blast
  note H = acquire_holder[OF d(3)]
  have stale: "(\<exists>e. renew_body stale now expires (fold (lease_try run_id) ops (w_db w')) = Inl e) \<and>
      (\<exists>e. release_body stale (fold (lease_try run_id) ops (w_db w')) = Inl e)"
    if "le_run_id stale = run_id" "le_fencing_token stale < le_fencing_token l"
      "list_all (\<lambda>p. \<not> is_release p) ops" for stale ops now expires
  proof -
    have "stale\<lparr>le_run_id := run_id\<rparr> = stale" using that(1) by (cases stale) simp
    then show ?thesis
      using leases.stale_refused[OF d(1), of run_id l ops stale now expires] H that(2,3)
      by (auto simp: leases_step_op[abs_def] leases_no_release list_all_iff lease_op_on_def
          dest: map_sum_InlD)
  qed
  have first: "case get_lease run_id d of
      None \<Rightarrow> le_fencing_token l = 1
    | Some row \<Rightarrow> le_version l = le_version row + 1 \<and>
        (if le_owner_id row = owner then le_fencing_token l = le_fencing_token row
         else le_expires_at row \<le> w_clock w (w_reads w) \<and> le_fencing_token l = le_fencing_token row + 1)"
    using H by blast
  show ?thesis
    unfolding Let_def using first stale d(2) by blast
qed

lemma lease_fencing_witness:
  "\<exists>w'. acquire_lease ''r'' ''A'' 30 (quiet_world lease_db) = (Inr lease_a, w') \<and>
     (\<exists>e. release_body (lease_a\<lparr>le_fencing_token := 0\<rparr>) (w_db w') = Inl e)"
proof -
  obtain w' where w': "acquire_lease ''r'' ''A'' 30 (quiet_world lease_db) = (Inr lease_a, w')"
    using acquire_example by blast
  have "good (quiet_world lease_db)" by (simp add: good_quiet wf_lease_db)
  from conjunct2[OF lease_fencing[OF this w'], rule_format, of "lease_a\<lparr>le_fencing_token := 0\<rparr>" "[]" 0 0]
  show ?thesis using w' by (simp add: lease_a_def Let_def)
qed

text \<open>
  The fence is monotone only between releases: \<open>release_lease\<close> deletes the row, so the next
  acquisition, by any worker, carries fence 1 again, whatever fence was reached before.
\<close>

lemma release_restarts_fence:
  assumes "wf_db d" and "release_body lease d = Inr (u, d')"
    and "acquire_body (le_run_id lease) owner now expires d' = Inr (l, d'')"
  shows "le_fencing_token l = 1"
  using release_holder[OF assms(1,2)] acquire_holder[OF assms(3)] by simp

lemma release_restarts_fence_witness:
  "\<exists>d' l d''. release_body (lease_a\<lparr>le_fencing_token := 7\<rparr>)
       (lease_db\<lparr>db_leases := [lease_a\<lparr>le_fencing_token := 7\<rparr>]\<rparr>) = Inr ((), d') \<and>
     acquire_body ''r'' ''B'' 5 9 d' = Inr (l, d'') \<and> le_fencing_token l = 1"
proof -
  let ?d = "lease_db\<lparr>db_leases := [lease_a\<lparr>le_fencing_token := 7\<rparr>]\<rparr>"
  let ?l = "\<lparr>le_run_id = ''r'', le_owner_id = ''B'', le_expires_at = 9, le_fencing_token = 1,
     le_version = 1, le_acquired_at = 5, le_renewed_at = 5\<rparr>"
  have wf: "wf_db ?d" using wf_lease_db by (simp add: wf_db_def)
  have 1: "release_body (lease_a\<lparr>le_fencing_token := 7\<rparr>) ?d = Inr ((), lease_db\<lparr>db_leases := []\<rparr>)"
    by (simp add: release_body_def lease_held_def)
  have 2: "acquire_body (le_run_id (lease_a\<lparr>le_fencing_token := 7\<rparr>)) ''B'' 5 9 (lease_db\<lparr>db_leases := []\<rparr>)
      = Inr (?l, lease_db\<lparr>db_leases := [?l]\<rparr>)"
    by (simp add: acquire_body_def get_lease_def checked_def valid_LeaseRecord_def no_nul_def
        lease_db_def run_exists_def lease_a_def)
  show ?thesis using 1 2 release_restarts_fence[OF wf 1 2] by (auto simp: lease_a_def)
qed

end
