(* ===== verification/Checkpoint_Types.thy ===== *)
theory Checkpoint_Types
  imports Models Canonical_Json
begin

text \<open>
  \<open>domain/checkpoint.py\<close>: the resume record, its validation, and the hash-chained envelope.

  \<open>codec\<close> collects what the code takes from libraries: SHA-256 and pydantic's text form of an
  envelope (\<open>model_dump_json\<close>, \<open>model_validate_json\<close>; \<open>None\<close> is a ValidationError). The JSON value
  that is hashed (\<open>model_dump(mode="json")\<close>) is written out. \<open>codec_ok\<close> and \<open>reads_back\<close> are the
  documented behaviour the properties rely on: what is read is valid, what was dumped is read back.
\<close>

record ToolCallCheckpoint =
  tk_tool_call_id :: string
  tk_idempotency_key :: string
  tk_status :: ToolCallStatus
  tk_side_effect_class :: string

record ErrorCheckpoint =
  ec_error_id :: string
  ec_category :: string
  ec_message :: string
  ec_retryable :: bool

record CheckpointPayload =
  cp_run_id :: string
  cp_run_state :: RunState
  cp_active_task_id :: "string option"
  cp_task_states :: "(string \<times> TaskState) list"
  cp_completed_task_ids :: "string list"
  cp_pending_task_ids :: "string list"
  cp_plan_id :: string
  cp_plan_version :: int
  cp_context_ids :: "string list"
  cp_summary_ids :: "string list"
  cp_tool_calls :: "ToolCallCheckpoint list"
  cp_artifact_ids :: "string list"
  cp_evidence_ids :: "string list"
  cp_retry_counters :: "(string \<times> int) list"
  cp_error :: "ErrorCheckpoint option"
  cp_repository_snapshot_id :: "string option"
  cp_repository_manifest_hash :: "string option"
  cp_configuration_fingerprint :: string

definition task_sets_are_consistent :: "CheckpointPayload \<Rightarrow> bool" where
  "task_sets_are_consistent p \<longleftrightarrow>
     (let completed = set (cp_completed_task_ids p); pending = set (cp_pending_task_ids p);
          known = fst ` set (cp_task_states p);
          succeeded = fst ` set (filter (\<lambda>(k, s). s = T_SUCCEEDED) (cp_task_states p)) in
      completed \<inter> pending = {} \<and> completed \<subseteq> known \<and> pending \<subseteq> known \<and>
      completed = succeeded \<and> list_all (\<lambda>(k, n). 0 \<le> n) (cp_retry_counters p))"

text \<open>Field validators act on string fields, not on the members of collections.\<close>

definition valid_ToolCallCheckpoint :: "ToolCallCheckpoint \<Rightarrow> bool" where
  "valid_ToolCallCheckpoint t \<longleftrightarrow>
     no_nul (tk_tool_call_id t) \<and> no_nul (tk_idempotency_key t) \<and> no_nul (tk_side_effect_class t)"

definition valid_ErrorCheckpoint :: "ErrorCheckpoint \<Rightarrow> bool" where
  "valid_ErrorCheckpoint e \<longleftrightarrow>
     no_nul (ec_error_id e) \<and> no_nul (ec_category e) \<and> no_nul (ec_message e)"

definition valid_CheckpointPayload :: "CheckpointPayload \<Rightarrow> bool" where
  "valid_CheckpointPayload p \<longleftrightarrow>
     no_nul (cp_run_id p) \<and> no_nul_opt (cp_active_task_id p) \<and> no_nul (cp_plan_id p) \<and>
     1 \<le> cp_plan_version p \<and> list_all valid_ToolCallCheckpoint (cp_tool_calls p) \<and>
     (case cp_error p of None \<Rightarrow> True | Some e \<Rightarrow> valid_ErrorCheckpoint e) \<and>
     no_nul_opt (cp_repository_snapshot_id p) \<and> no_nul_opt (cp_repository_manifest_hash p) \<and>
     no_nul (cp_configuration_fingerprint p) \<and> task_sets_are_consistent p"

record CheckpointEnvelope =
  ce_checkpoint_id :: string
  ce_run_id :: string
  ce_schema_version :: int
  ce_sequence :: int
  ce_parent_hash :: "string option"
  ce_payload :: CheckpointPayload
  ce_payload_hash :: string
  ce_created_at :: time

definition CURRENT_CHECKPOINT_SCHEMA_VERSION :: int where
  "CURRENT_CHECKPOINT_SCHEMA_VERSION = 1"

definition identifiers_agree :: "CheckpointEnvelope \<Rightarrow> bool" where
  "identifiers_agree e \<longleftrightarrow> ce_run_id e = cp_run_id (ce_payload e)"

definition valid_CheckpointEnvelope :: "CheckpointEnvelope \<Rightarrow> bool" where
  "valid_CheckpointEnvelope e \<longleftrightarrow>
     no_nul (ce_checkpoint_id e) \<and> no_nul (ce_run_id e) \<and>
     ce_schema_version e = CURRENT_CHECKPOINT_SCHEMA_VERSION \<and> 1 \<le> ce_sequence e \<and>
     (case ce_parent_hash e of None \<Rightarrow> True | Some h \<Rightarrow> is_sha256_hex h) \<and>
     valid_CheckpointPayload (ce_payload e) \<and> is_sha256_hex (ce_payload_hash e) \<and>
     identifiers_agree e"

section \<open>The hashed JSON\<close>

definition tool_call_json :: "ToolCallCheckpoint \<Rightarrow> json" where
  "tool_call_json t = JObj [(''tool_call_id'', JStr (tk_tool_call_id t)),
     (''idempotency_key'', JStr (tk_idempotency_key t)),
     (''status'', JStr (ToolCallStatus_value (tk_status t))),
     (''side_effect_class'', JStr (tk_side_effect_class t))]"

definition error_json :: "ErrorCheckpoint \<Rightarrow> json" where
  "error_json e = JObj [(''error_id'', JStr (ec_error_id e)), (''category'', JStr (ec_category e)),
     (''message'', JStr (ec_message e)), (''retryable'', JBool (ec_retryable e))]"

definition payload_json :: "CheckpointPayload \<Rightarrow> json" where
  "payload_json p = JObj [
     (''run_id'', JStr (cp_run_id p)),
     (''run_state'', JStr (RunState_value (cp_run_state p))),
     (''active_task_id'', jopt JStr (cp_active_task_id p)),
     (''task_states'', JObj (map (\<lambda>(k, s). (k, JStr (TaskState_value s))) (cp_task_states p))),
     (''completed_task_ids'', jstrs (cp_completed_task_ids p)),
     (''pending_task_ids'', jstrs (cp_pending_task_ids p)),
     (''plan_id'', JStr (cp_plan_id p)),
     (''plan_version'', JInt (cp_plan_version p)),
     (''context_ids'', jstrs (cp_context_ids p)),
     (''summary_ids'', jstrs (cp_summary_ids p)),
     (''tool_calls'', JArr (map tool_call_json (cp_tool_calls p))),
     (''artifact_ids'', jstrs (cp_artifact_ids p)),
     (''evidence_ids'', jstrs (cp_evidence_ids p)),
     (''retry_counters'', JObj (map (\<lambda>(k, n). (k, JInt n)) (cp_retry_counters p))),
     (''error'', jopt error_json (cp_error p)),
     (''repository_snapshot_id'', jopt JStr (cp_repository_snapshot_id p)),
     (''repository_manifest_hash'', jopt JStr (cp_repository_manifest_hash p)),
     (''configuration_fingerprint'', JStr (cp_configuration_fingerprint p))]"

definition envelope_json :: "CheckpointEnvelope \<Rightarrow> json" where
  "envelope_json e = JObj [
     (''checkpoint_id'', JStr (ce_checkpoint_id e)),
     (''run_id'', JStr (ce_run_id e)),
     (''schema_version'', JInt (ce_schema_version e)),
     (''sequence'', JInt (ce_sequence e)),
     (''parent_hash'', jopt JStr (ce_parent_hash e)),
     (''payload'', payload_json (ce_payload e)),
     (''payload_hash'', JStr (ce_payload_hash e)),
     (''created_at'', jtime (ce_created_at e))]"

section \<open>Operations\<close>

record codec =
  sha256_of :: "string \<Rightarrow> string"
  dump_envelope :: "CheckpointEnvelope \<Rightarrow> string"
  parse_envelope :: "string \<Rightarrow> CheckpointEnvelope option"

definition payload_digest :: "codec \<Rightarrow> CheckpointPayload \<Rightarrow> string" where
  "payload_digest c p = sha256_of c (canonical_json (payload_json p))"

definition create_envelope ::
  "codec \<Rightarrow> string \<Rightarrow> int \<Rightarrow> CheckpointPayload \<Rightarrow> string option \<Rightarrow> time \<Rightarrow> exn + CheckpointEnvelope" where
  "create_envelope c checkpoint_id sequence payload parent_hash created_at =
     checked valid_CheckpointEnvelope
       \<lparr>ce_checkpoint_id = checkpoint_id, ce_run_id = cp_run_id payload,
        ce_schema_version = CURRENT_CHECKPOINT_SCHEMA_VERSION, ce_sequence = sequence,
        ce_parent_hash = parent_hash, ce_payload = payload,
        ce_payload_hash = payload_digest c payload, ce_created_at = created_at\<rparr>"

definition verify_envelope :: "codec \<Rightarrow> CheckpointEnvelope \<Rightarrow> exn + unit" where
  "verify_envelope c e =
     (if ce_schema_version e \<noteq> CURRENT_CHECKPOINT_SCHEMA_VERSION
      then Inl (Durable UnsupportedSchemaVersionError)
      else if payload_digest c (ce_payload e) \<noteq> ce_payload_hash e
      then Inl (Durable CorruptCheckpointError)
      else Inr ())"

definition chain_hash :: "codec \<Rightarrow> CheckpointEnvelope \<Rightarrow> string" where
  "chain_hash c e = sha256_of c (canonical_json (envelope_json e))"

definition from_untrusted_json :: "codec \<Rightarrow> string \<Rightarrow> exn + CheckpointEnvelope" where
  "from_untrusted_json c value =
     (case parse_envelope c value of
        None \<Rightarrow> Inl PydanticValidationError
      | Some e \<Rightarrow> (case verify_envelope c e of Inl x \<Rightarrow> Inl x | Inr _ \<Rightarrow> Inr e))"

text \<open>
  Documented behaviour of the codec: what \<open>model_validate_json\<close> accepts has passed the validators of
  the schema, and the dump of an envelope is read back as that envelope.
\<close>

definition codec_ok :: "codec \<Rightarrow> bool" where
  "codec_ok c \<longleftrightarrow> (\<forall>s e. parse_envelope c s = Some e \<longrightarrow> valid_CheckpointEnvelope e)"

definition reads_back :: "codec \<Rightarrow> CheckpointEnvelope \<Rightarrow> bool" where
  "reads_back c e \<longleftrightarrow> parse_envelope c (dump_envelope c e) = Some e"

lemma verify_iff: "verify_envelope c e = Inr () \<longleftrightarrow>
   ce_schema_version e = CURRENT_CHECKPOINT_SCHEMA_VERSION \<and>
   payload_digest c (ce_payload e) = ce_payload_hash e"
  by (simp add: verify_envelope_def)

lemma create_envelope_InrD:
  assumes "create_envelope c i n p h t = Inr e"
  shows "valid_CheckpointEnvelope e \<and> verify_envelope c e = Inr () \<and> ce_sequence e = n \<and>
    ce_parent_hash e = h \<and> ce_payload e = p \<and> ce_run_id e = cp_run_id p \<and> ce_checkpoint_id e = i"
  using assms by (auto simp: create_envelope_def checked_def verify_iff split: if_splits)

lemma from_untrusted_json_Inr:
  "from_untrusted_json c s = Inr e \<longleftrightarrow> parse_envelope c s = Some e \<and> verify_envelope c e = Inr ()"
  by (auto simp: from_untrusted_json_def split: option.splits sum.splits)

end
