(* ===== verification/Store_Events.thy ===== *)
theory Store_Events
  imports Store_Leases Checkpoint_Types
begin

text \<open>
  \<open>persistence/store.py\<close>, events and errors: the append-only event log with its retry loop, its
  reading order, its compaction, and the structured error records.
\<close>

section \<open>Errors\<close>

text \<open>\<open>record_error\<close> takes an error object: its class gives category and retryability.\<close>

definition record_error :: "string \<Rightarrow> string option \<Rightarrow> error_class \<Rightarrow> string \<Rightarrow> string io" where
  "record_error run_id task_id error message =
     bnd (ids_new ''error'') (\<lambda>error_id.
     bnd clock_now (\<lambda>now.
       tx (\<lambda>d.
         if \<not> run_exists run_id d \<or> error_id \<in> ee_error_id ` set (db_errors d) then Inl IntegrityError
         else Inr (error_id, d\<lparr>db_errors := db_errors d @
           [\<lparr>ee_error_id = error_id, ee_run_id = run_id, ee_task_id = task_id,
             ee_category = error_category error, ee_message = message,
             ee_retryable = error_retryable error, ee_created_at = now\<rparr>]\<rparr>))))"

definition latest_error :: "string \<Rightarrow> ErrorCheckpoint option io" where
  "latest_error run_id = query (\<lambda>d.
     case order_by_desc (\<lambda>r. (ee_created_at r, ee_error_id r))
            (filter (\<lambda>r. ee_run_id r = run_id) (db_errors d)) of
       [] \<Rightarrow> Inr None
     | row # _ \<Rightarrow> map_sum id Some (checked valid_ErrorCheckpoint
         \<lparr>ec_error_id = ee_error_id row, ec_category = ErrorCategory_value (ee_category row),
          ec_message = ee_message row, ec_retryable = ee_retryable row\<rparr>))"

section \<open>Events\<close>

definition get_event :: "string \<Rightarrow> database \<Rightarrow> EventORM option" where
  "get_event event_id d = tbl_get ev_event_id event_id (db_events d)"

definition event_tip :: "string \<Rightarrow> database \<Rightarrow> int" where
  "event_tip run_id d = tip ev_run_id ev_sequence run_id (db_events d)"

definition publish_body :: "string \<Rightarrow> time \<Rightarrow> string \<Rightarrow> string \<Rightarrow> json \<Rightarrow> string option \<Rightarrow>
  database \<Rightarrow> exn + string \<times> database" where
  "publish_body event_id created_at run_id event_type payload task_id d =
     (case get_event event_id d of
        Some existing \<Rightarrow>
          if ev_run_id existing = run_id \<and> ev_event_type existing = event_type \<and>
             ev_task_id existing = task_id \<and> ev_payload existing = payload
          then Inr (event_id, d)
          else Inl (Durable ConcurrencyConflictError)
      | None \<Rightarrow>
          if \<not> run_exists run_id d then Inl IntegrityError
          else Inr (event_id, d\<lparr>db_events := db_events d @
            [\<lparr>ev_event_id = event_id, ev_run_id = run_id, ev_sequence = event_tip run_id d + 1,
              ev_event_type = event_type, ev_task_id = task_id, ev_payload = payload,
              ev_created_at = created_at\<rparr>]\<rparr>))"

text \<open>The \<open>for attempt in range(8)\<close> loop: a database error is retried, the last one gives up.\<close>

fun publish_attempts :: "nat \<Rightarrow> (database \<Rightarrow> exn + string \<times> database) \<Rightarrow> string io" where
  "publish_attempts 0 body = raise (Durable ConcurrencyConflictError)"
| "publish_attempts (Suc n) body =
     catch (tx body) (\<lambda>e. if is_sqlalchemy_error e then publish_attempts n body else raise e)"

definition publish :: "string \<Rightarrow> string \<Rightarrow> json \<Rightarrow> string option \<Rightarrow> string io" where
  "publish run_id event_type payload task_id =
     bnd (ids_new ''event'') (\<lambda>event_id.
     bnd clock_now (\<lambda>created_at.
       publish_attempts 8 (publish_body event_id created_at run_id event_type payload task_id)))"

definition stream :: "string \<Rightarrow> EventORM list io" where
  "stream run_id = query (\<lambda>d.
     Inr (sort_key ev_sequence (filter (\<lambda>e. ev_run_id e = run_id) (db_events d))))"

section \<open>Compaction\<close>

definition event_manifest :: "EventORM \<Rightarrow> json" where
  "event_manifest e = JObj [(''event_id'', JStr (ev_event_id e)),
     (''sequence'', JInt (ev_sequence e)), (''event_type'', JStr (ev_event_type e)),
     (''task_id'', jopt JStr (ev_task_id e)), (''payload'', ev_payload e),
     (''created_at'', JStr (isoformat (ev_created_at e)))]"

definition compaction_candidates :: "string \<Rightarrow> time \<Rightarrow> database \<Rightarrow> EventORM list" where
  "compaction_candidates run_id older_than d =
     filter prunable_event
       (sort_key ev_sequence
         (filter (\<lambda>e. ev_run_id e = run_id \<and> ev_created_at e < older_than) (db_events d)))"

definition tombstone :: "(string \<Rightarrow> string) \<Rightarrow> string \<Rightarrow> string \<Rightarrow> time \<Rightarrow> time \<Rightarrow> EventORM list \<Rightarrow>
  database \<Rightarrow> EventORM" where
  "tombstone sha256 event_id run_id older_than now candidates d =
     \<lparr>ev_event_id = event_id, ev_run_id = run_id, ev_sequence = event_tip run_id d + 1,
      ev_event_type = ''retention.events_compacted'', ev_task_id = None,
      ev_payload = JObj [(''count'', JInt (int (length candidates))),
        (''first_sequence'', JInt (ev_sequence (hd candidates))),
        (''last_sequence'', JInt (ev_sequence (last candidates))),
        (''archive_manifest_sha256'',
          JStr (sha256 (canonical_json (JArr (map event_manifest candidates))))),
        (''cutoff'', JStr (isoformat older_than))],
      ev_created_at = now\<rparr>"

text \<open>
  One iteration of the loop over terminal runs, a transaction of its own; the state is the pair
  of the number of eligible events and the compacted runs.
\<close>

definition compact_run :: "(string \<Rightarrow> string) \<Rightarrow> time \<Rightarrow> bool \<Rightarrow> nat \<times> string list \<Rightarrow> string \<Rightarrow>
  (nat \<times> string list) io" where
  "compact_run sha256 older_than dry_run s run_id =
     bnd (ids_new ''event'') (\<lambda>event_id.
     bnd clock_now (\<lambda>now.
       tx (\<lambda>d. case get_run_row run_id d of
           None \<Rightarrow> Inr (s, d)
         | Some run_row \<Rightarrow>
             if \<not> run_terminal (rr_state run_row) then Inr (s, d)
             else
               (let candidates = compaction_candidates run_id older_than d;
                    s' = (fst s + length candidates, snd s @ [run_id]) in
                if candidates = [] then Inr (s, d)
                else if dry_run then Inr (s', d)
                else if event_id \<in> ev_event_id ` set (db_events d) then Inl IntegrityError
                else Inr (s', d\<lparr>db_events :=
                  filter (\<lambda>e. ev_event_id e \<notin> ev_event_id ` set candidates)
                    (db_events d @ [tombstone sha256 event_id run_id older_than now candidates d])\<rparr>)))))"

definition compact_terminal_events ::
  "(string \<Rightarrow> string) \<Rightarrow> time \<Rightarrow> bool \<Rightarrow> (nat \<times> string list) io" where
  "compact_terminal_events sha256 older_than dry_run =
     bnd (query (\<lambda>d. Inr (sort_key id (map rr_run_id
            (filter (\<lambda>r. run_terminal (rr_state r)) (db_runs d)))))) (\<lambda>run_ids.
       foldA (compact_run sha256 older_than dry_run) (0, []) run_ids)"

section \<open>Durability\<close>

lemma out_record_error [outcome_intros]:
  "outcome durable (\<lambda>_ _. True) w (record_error run_id task_id error message)"
  unfolding record_error_def
  by (intro dur.out_bnd[OF out_ids] dur.out_bnd[OF out_clock] out_tx_simple)
    (auto simp: evolves_def wf_db_def tables_step_def split: if_splits)

lemma out_latest_error [outcome_intros]: "outcome durable (\<lambda>_ _. True) w (latest_error run_id)"
  unfolding latest_error_def by (rule out_query)

lemma evolves_append_event:
  assumes "ev_event_id e \<notin> ev_event_id ` set (db_events d)" and "event_tip (ev_run_id e) d < ev_sequence e"
  shows "evolves d (d\<lparr>db_events := db_events d @ [e]\<rparr>)"
proof -
  have "ev_sequence x \<noteq> ev_sequence e" if "x \<in> set (db_events d)" "ev_run_id x = ev_run_id e" for x
    using tip_ge[OF that(1), of ev_sequence ev_run_id] assms(2) that(2) by (simp add: event_tip_def)
  then have "(ev_run_id e, ev_sequence e) \<notin> (\<lambda>e. (ev_run_id e, ev_sequence e)) ` set (db_events d)"
    by (metis (no_types, lifting) imageE prod.inject)
  moreover have "log_step ev_run_id ev_sequence (db_events d) (db_events d @ [e])"
    using assms(2) by (intro log_step_append) (simp add: event_tip_def)
  ultimately show ?thesis using assms(1) by (simp add: evolves_def wf_db_def tables_step_def)
qed

lemma evolves_publish: "publish_body i t r ty p k d = Inr (x, d') \<Longrightarrow> evolves d d'"
  by (auto simp: publish_body_def get_event_def table_simps split: option.splits if_splits
      intro!: evolves_append_event)

lemma out_publish_attempts: "outcome durable (\<lambda>_ _. True) w (publish_attempts n (publish_body i t r ty p k))"
proof (induction n arbitrary: w)
  case 0
  then show ?case by (simp add: dur.out_raise)
next
  case (Suc n)
  show ?case
    unfolding publish_attempts.simps
  proof (rule dur.out_catch)
    show "outcome durable (\<lambda>_ _. True) w (tx (publish_body i t r ty p k))"
      by (rule out_tx_simple) (rule evolves_publish)
    show "outcome durable (\<lambda>_ _. True) w'
      (if is_sqlalchemy_error e then publish_attempts n (publish_body i t r ty p k) else raise e)" for e w'
      using Suc by (simp add: dur.out_raise)
  qed
qed

lemma out_publish [outcome_intros]: "outcome durable (\<lambda>_ _. True) w (publish run_id ty payload task_id)"
  unfolding publish_def
  by (intro dur.out_bnd[OF out_ids] dur.out_bnd[OF out_clock] out_publish_attempts)

lemma out_stream [outcome_intros]: "outcome durable (\<lambda>_ _. True) w (stream run_id)"
  unfolding stream_def by (rule out_query)

lemma set_candidates: "e \<in> set (compaction_candidates run_id t d) \<longleftrightarrow>
   e \<in> set (db_events d) \<and> ev_run_id e = run_id \<and> ev_created_at e < t \<and> prunable_event e"
  by (auto simp: compaction_candidates_def)

lemma tip_le_iff: "tip run sq k t \<le> m \<longleftrightarrow> (0 \<le> m \<or> (\<exists>r \<in> set t. run r = k)) \<and> (\<forall>r \<in> set t. run r = k \<longrightarrow> sq r \<le> m)"
proof (cases "col_max sq (filter (\<lambda>r. run r = k) t)")
  case None
  then have "filter (\<lambda>r. run r = k) t = []" by (simp add: col_max_None_iff)
  then show ?thesis using None by (auto simp: tip_def filter_empty_conv)
next
  case (Some m')
  have "\<exists>r \<in> set t. run r = k \<and> sq r = m'" using col_max_in[OF Some] by auto
  moreover have "\<forall>r \<in> set t. run r = k \<longrightarrow> sq r \<le> m'"
    using col_max_ge[OF Some] by auto
  ultimately show ?thesis using Some by (auto simp: tip_def)
qed

lemma wf_db_filter_events: "wf_db d \<Longrightarrow> wf_db (d\<lparr>db_events := filter P (db_events d)\<rparr>)"
  by (simp add: wf_db_def distinct_map_filter)

lemma evolves_compact:
  assumes wf: "wf_db d" and fresh: "event_id \<notin> ev_event_id ` set (db_events d)"
    and c: "candidates = compaction_candidates run_id t d" and ne: "candidates \<noteq> []"
    and d': "d' = d\<lparr>db_events := filter (\<lambda>e. ev_event_id e \<notin> ev_event_id ` set candidates)
                (db_events d @ [tombstone sha256 event_id run_id t now candidates d])\<rparr>"
  shows "evolves d d'"
proof -
  let ?stone = "tombstone sha256 event_id run_id t now candidates d"
  let ?mid = "d\<lparr>db_events := db_events d @ [?stone]\<rparr>"
  have ev': "db_events d' = filter (\<lambda>e. ev_event_id e \<notin> ev_event_id ` set candidates) (db_events ?mid)"
    by (simp add: d' del: filter_append)
  have mid: "evolves d ?mid"
    using fresh by (intro evolves_append_event) (simp_all add: tombstone_def)
  have wfm: "wf_db ?mid" using mid wf by (simp add: evolves_def)
  have keep: "?stone \<in> set (db_events d')"
    using fresh unfolding d' c by (auto simp: tombstone_def set_candidates)
  have sub: "set (db_events d') \<subseteq> set (db_events ?mid)" unfolding d' by auto
  have tip: "tip ev_run_id ev_sequence k (db_events ?mid) \<le> tip ev_run_id ev_sequence k (db_events d')" for k
  proof (cases "k = run_id")
    case True
    have "tip ev_run_id ev_sequence k (db_events ?mid) = ev_sequence ?stone"
      using True tip_append[of ev_run_id ev_sequence ?stone "db_events d" k]
      by (simp add: tombstone_def event_tip_def)
    moreover have "ev_sequence ?stone \<le> tip ev_run_id ev_sequence (ev_run_id ?stone) (db_events d')"
      using keep by (rule tip_ge)
    ultimately show ?thesis using True by (simp add: tombstone_def)
  next
    case False
    have "e \<in> set (db_events d')" if "e \<in> set (db_events ?mid)" "ev_run_id e = k" for e
    proof -
      have "e \<in> set (db_events d)" using that False by (auto simp: tombstone_def)
      then have "ev_event_id e \<notin> ev_event_id ` set candidates"
      proof (intro notI, elim imageE)
        fix x assume x: "ev_event_id e = ev_event_id x" "x \<in> set candidates"
        have "distinct (map ev_event_id (db_events d))" using wf by (simp add: wf_db_def)
        moreover have "x \<in> set (db_events d)" using x(2) by (simp add: c set_candidates)
        ultimately have "x = e" using x(1) \<open>e \<in> set (db_events d)\<close>
          by (metis tbl_get_in option.inject)
        then show False using x(2) that(2) False by (simp add: c set_candidates)
      qed
      then show ?thesis using \<open>e \<in> set (db_events d)\<close> unfolding d' by simp
    qed
    then have P: "ev_event_id e \<notin> ev_event_id ` set candidates"
      if "e \<in> set (db_events ?mid)" "ev_run_id e = k" for e
      using that unfolding ev' set_filter by blast
    have "filter (\<lambda>e. ev_run_id e = k) (filter (\<lambda>e. ev_event_id e \<notin> ev_event_id ` set candidates) (db_events ?mid))
        = filter (\<lambda>e. ev_run_id e = k) (db_events ?mid)"
      unfolding filter_filter using P by (intro filter_cong refl) blast
    then have "filter (\<lambda>e. ev_run_id e = k) (db_events d') = filter (\<lambda>e. ev_run_id e = k) (db_events ?mid)"
      unfolding ev' .
    then show ?thesis by (simp add: tip_def)
  qed
  have "log_step ev_run_id ev_sequence (db_events ?mid) (db_events d')"
    using tip sub unfolding log_step_def by blast
  moreover have "keeps_audit (db_events ?mid) (db_events d')"
  proof -
    have "\<not> prunable_event e \<Longrightarrow> e \<in> set (db_events ?mid) \<Longrightarrow> e \<in> set (db_events d')" for e
    proof (cases "e = ?stone")
      case True
      then show ?thesis using keep by simp
    next
      case False
      assume np: "\<not> prunable_event e" and "e \<in> set (db_events ?mid)"
      then have e: "e \<in> set (db_events d)" using False by auto
      have "ev_event_id e \<notin> ev_event_id ` set candidates"
      proof (intro notI, elim imageE)
        fix x assume x: "ev_event_id e = ev_event_id x" "x \<in> set candidates"
        have "distinct (map ev_event_id (db_events d))" using wf by (simp add: wf_db_def)
        moreover have "x \<in> set (db_events d)" using x(2) by (simp add: c set_candidates)
        ultimately have "x = e" using x(1) e by (metis tbl_get_in option.inject)
        then show False using x(2) np by (simp add: c set_candidates)
      qed
      then show "e \<in> set (db_events d')" using e unfolding d' by simp
    qed
    then show ?thesis by (auto simp: keeps_audit_def)
  qed
  moreover have "wf_db d'"
  proof -
    have "d' = ?mid\<lparr>db_events := filter (\<lambda>e. ev_event_id e \<notin> ev_event_id ` set candidates) (db_events ?mid)\<rparr>"
      unfolding d' by (simp del: filter_append)
    then show ?thesis using wf_db_filter_events[OF wfm] by metis
  qed
  moreover have "tables_step ?mid d'" if "log_step ev_run_id ev_sequence (db_events ?mid) (db_events d')"
      "keeps_audit (db_events ?mid) (db_events d')"
    using that unfolding d' by (simp add: tables_step_def)
  ultimately have "evolves ?mid d'" by (simp add: evolves_def)
  then show ?thesis using mid by (rule evolves_trans[rotated])
qed

lemma out_compact_run: "outcome durable (\<lambda>_ _. True) w (compact_run sha256 t dry s run_id)"
  unfolding compact_run_def
proof (intro dur.out_bnd[OF out_ids] dur.out_bnd[OF out_clock] out_tx_simple, goal_cases)
  case (1 event_id u1 now u2 d d' x)
  then show ?case
    by (auto simp: Let_def simp del: filter_append filter.simps split: option.splits if_splits
        intro: evolves_compact[OF _ _ refl _ refl])
qed

lemma out_compact_terminal_events [outcome_intros]:
  "outcome durable (\<lambda>_ _. True) w (compact_terminal_events sha256 t dry)"
  unfolding compact_terminal_events_def
  by (intro dur.out_bnd[OF out_query] dur.out_foldA[where I = "\<lambda>_ _. True"] out_compact_run) simp

section \<open>Properties of the event log\<close>

lemma filter_key_unique:
  "distinct (map key t) \<Longrightarrow> r \<in> set t \<Longrightarrow> filter (\<lambda>x. key x = key r) t = [r]"
  by (induction t) (auto simp: filter_empty_conv image_iff)

lemma publish_body_InrD:
  assumes "publish_body i t r ty p k d = Inr (x, d')"
  shows "x = i \<and> (\<exists>e \<in> set (db_events d'). ev_event_id e = i \<and> ev_run_id e = r \<and>
    ev_event_type e = ty \<and> ev_payload e = p \<and> ev_task_id e = k)"
  using assms tbl_get_SomeD[of ev_event_id i "db_events d"]
  by (fastforce simp: publish_body_def get_event_def split: option.splits if_splits)

lemma publish_attempts_InrD:
  assumes "good w" and "publish_attempts n (publish_body i t r ty p k) w = (Inr x, w')"
  shows "good w' \<and> x = i \<and> (\<exists>e \<in> set (db_events (w_db w')). ev_event_id e = i \<and> ev_run_id e = r \<and>
    ev_event_type e = ty \<and> ev_payload e = p \<and> ev_task_id e = k)"
  using assms
proof (induction n arbitrary: w)
  case 0
  then show ?case by (simp add: raise_def)
next
  case (Suc n)
  let ?b = "publish_body i t r ty p k"
  obtain y u where tx: "tx ?b w = (y, u)" by force
  have good: "good u" using tx_good[OF Suc.prems(1) _ tx] evolves_publish by blast
  show ?case
  proof (cases y)
    case (Inr z)
    then have "z = x" "u = w'" using Suc.prems(2) tx by (auto simp: catch_def)
    then show ?thesis using publish_body_InrD tx_InrD tx Inr good by metis
  next
    case (Inl e)
    then have "publish_attempts n ?b u = (Inr x, w')"
      using Suc.prems(2) tx by (auto simp: catch_def raise_def split: if_splits)
    then show ?thesis using Suc.IH good by blast
  qed
qed


definition lossy_world :: world where
  "lossy_world = (quiet_world lease_db)\<lparr>w_fault := (\<lambda>n. if n = 0 then CommitLost else NoFault)\<rparr>"

lemma good_lossy_world: "good lossy_world"
  by (simp add: lossy_world_def good_def quiet_world_def wf_lease_db)

lemma publish_lossy: "\<exists>i w'. publish ''r'' ''run.created'' JNull None lossy_world = (Inr i, w') \<and> w_txn w' = 2"
proof -
  let ?i = "''event-'' @ show_nat 0"
  let ?b = "publish_body ?i 0 ''r'' ''run.created'' JNull None"
  let ?e = "\<lparr>ev_event_id = ?i, ev_run_id = ''r'', ev_sequence = 1, ev_event_type = ''run.created'',
      ev_task_id = None, ev_payload = JNull, ev_created_at = 0\<rparr>"
  let ?d = "lease_db\<lparr>db_events := [?e]\<rparr>"
  have 1: "?b lease_db = Inr (?i, ?d)"
    by (simp add: publish_body_def get_event_def lease_db_def empty_db_def run_exists_def event_tip_def)
  have 2: "?b ?d = Inr (?i, ?d)"
    by (simp add: publish_body_def get_event_def tbl_get_Cons)
  let ?w = "lossy_world\<lparr>w_ids := 1, w_reads := 1\<rparr>"
  have "publish ''r'' ''run.created'' JNull None lossy_world = publish_attempts 8 ?b ?w"
    by (simp add: publish_def bnd_def ids_new_def clock_now_def lossy_world_def quiet_world_def)
  moreover have "tx ?b ?w = (Inl SQLAlchemyError, ?w\<lparr>w_txn := 1, w_db := ?d\<rparr>)"
    using 1 by (simp add: tx_def lossy_world_def quiet_world_def crashed_def Let_def)
  moreover have "tx ?b (?w\<lparr>w_txn := 1, w_db := ?d\<rparr>) = (Inr ?i, ?w\<lparr>w_txn := 2, w_db := ?d\<rparr>)"
    using 2 by (simp add: tx_def lossy_world_def quiet_world_def crashed_def Let_def)
  ultimately have "publish ''r'' ''run.created'' JNull None lossy_world = (Inr ?i, ?w\<lparr>w_txn := 2, w_db := ?d\<rparr>)"
    by (simp add: numeral_eq_Suc catch_def)
  then show ?thesis by (simp add: exI)
qed


lemma compact_run_dry:
  assumes "quiet w"
  shows "\<exists>x w'. compact_run sha256 t True s run_id w = (x, w') \<and> quiet w' \<and> w_db w' = w_db w"
  using assms by (auto simp: compact_run_def bnd_def ids_new_def clock_now_def tx_quiet Let_def
      split: option.splits)

lemma compact_runs_dry:
  assumes "quiet w"
  shows "\<exists>x w'. foldA (compact_run sha256 t True) s run_ids w = (x, w') \<and> quiet w' \<and> w_db w' = w_db w"
  using assms
proof (induction run_ids arbitrary: s w)
  case Nil
  then show ?case by (simp add: ret_def)
next
  case (Cons r rs)
  obtain x u where u: "compact_run sha256 t True s r w = (x, u)" "quiet u" "w_db u = w_db w"
    using compact_run_dry[OF Cons.prems] by blast
  show ?case
  proof (cases x)
    case (Inl e)
    then show ?thesis using u by (simp add: bnd_def)
  next
    case (Inr s')
    then show ?thesis using u Cons.IH[OF u(2), of s'] by (simp add: bnd_def)
  qed
qed

text \<open>
  Compaction keeps the audit trail: whatever else runs meanwhile, every event outside the
  prunable classes is still there afterwards and no run's sequence tip decreases (so numbers are
  never reused); and a dry run alone in the database changes nothing.
\<close>

lemma compaction_keeps_audit:
  assumes "good w"
  shows "let w' = snd (compact_terminal_events sha256 older_than dry_run w) in
    (\<forall>e \<in> set (db_events (w_db w)). \<not> prunable_event e \<longrightarrow> e \<in> set (db_events (w_db w'))) \<and>
    (\<forall>run_id. event_tip run_id (w_db w) \<le> event_tip run_id (w_db w')) \<and>
    (quiet w \<and> dry_run \<longrightarrow> w_db w' = w_db w)"
proof -
  obtain x w' where run: "compact_terminal_events sha256 older_than dry_run w = (x, w')" by force
  have "durable w w'" using out_compact_terminal_events run by (rule outcomeD)
  then have "tables_step (w_db w) (w_db w')"
    using assms durable_evolves good_wf by (auto simp: evolves_def)
  then have "keeps_audit (db_events (w_db w)) (db_events (w_db w'))"
    "log_step ev_run_id ev_sequence (db_events (w_db w)) (db_events (w_db w'))"
    by (simp_all add: tables_step_def)
  moreover have "w_db w' = w_db w" if "quiet w" dry_run
  proof -
    let ?ids = "sort_key id (map rr_run_id (filter (\<lambda>r. run_terminal (rr_state r)) (db_runs (w_db w))))"
    have "compact_terminal_events sha256 older_than True w =
        foldA (compact_run sha256 older_than True) (0, []) ?ids (w\<lparr>w_txn := Suc (w_txn w)\<rparr>)"
      using that(1) by (simp add: compact_terminal_events_def bnd_def query_quiet)
    then show ?thesis
      using compact_runs_dry[of "w\<lparr>w_txn := Suc (w_txn w)\<rparr>" sha256 older_than "(0, [])" ?ids] run that
      by auto
  qed
  ultimately show ?thesis using run by (simp add: Let_def keeps_audit_def log_step_def event_tip_def)
qed

definition audit_event :: EventORM where
  "audit_event = \<lparr>ev_event_id = ''event-9'', ev_run_id = ''r'', ev_sequence = 4,
     ev_event_type = ''run.completed'', ev_task_id = None, ev_payload = JNull, ev_created_at = 0\<rparr>"

lemma compaction_keeps_audit_witness:
  "audit_event \<in> set (db_events (w_db (snd (compact_terminal_events (\<lambda>s. s) 100 False
     (quiet_world (lease_db\<lparr>db_events := [audit_event]\<rparr>))))))"
proof -
  let ?w = "quiet_world (lease_db\<lparr>db_events := [audit_event]\<rparr>)"
  have "wf_db (lease_db\<lparr>db_events := [audit_event]\<rparr>)" using wf_lease_db by (simp add: wf_db_def)
  then have "good ?w" by (simp add: good_quiet)
  moreover have "\<not> prunable_event audit_event"
    by (simp add: prunable_event_def audit_event_def PERMANENT_AUDIT_EVENTS_def)
  ultimately show ?thesis
    using compaction_keeps_audit[of ?w "\<lambda>s. s" 100 False] by (simp add: Let_def)
qed

end
