(* ===== verification/Store_Lifecycle.thy ===== *)
theory Store_Lifecycle
  imports Store_Events
begin

text \<open>
  \<open>persistence/store.py\<close>, pause and cancellation requests: created (idempotently when a key is
  given), found again, taken as pending with cancellations first, and applied once. The two
  request tables are reached through the kind of the request.
\<close>

fun kind_name :: "LifecycleKind \<Rightarrow> string" where
  "kind_name Pause = ''pause''"
| "kind_name Cancel = ''cancel''"

fun requests_of :: "LifecycleKind \<Rightarrow> database \<Rightarrow> LifecycleRequestORM list" where
  "requests_of Pause d = db_pause_requests d"
| "requests_of Cancel d = db_cancellation_requests d"

fun set_requests :: "LifecycleKind \<Rightarrow> LifecycleRequestORM list \<Rightarrow> database \<Rightarrow> database" where
  "set_requests Pause t d = d\<lparr>db_pause_requests := t\<rparr>"
| "set_requests Cancel t d = d\<lparr>db_cancellation_requests := t\<rparr>"

definition lifecycle_from_row ::
  "LifecycleRequestORM \<Rightarrow> LifecycleKind \<Rightarrow> exn + LifecycleRequest" where
  "lifecycle_from_row row kind = checked valid_LifecycleRequest
     \<lparr>lq_request_id = rq_request_id row, lq_run_id = rq_run_id row, lq_kind = kind,
      lq_reason = rq_reason row, lq_requested_by = rq_requested_by row,
      lq_status = rq_status row, lq_created_at = rq_created_at row,
      lq_applied_at = rq_applied_at row\<rparr>"

definition lifecycle_row :: "LifecycleRequest \<Rightarrow> LifecycleRequestORM" where
  "lifecycle_row q = \<lparr>rq_request_id = lq_request_id q, rq_run_id = lq_run_id q,
     rq_reason = lq_reason q, rq_requested_by = lq_requested_by q, rq_status = lq_status q,
     rq_created_at = lq_created_at q, rq_applied_at = lq_applied_at q\<rparr>"

definition lifecycle_action :: "LifecycleKind \<Rightarrow> string \<Rightarrow> string" where
  "lifecycle_action kind run_id = kind_name kind @ '':'' @ run_id"

definition add_request :: "LifecycleRequest \<Rightarrow> database \<Rightarrow> exn + database" where
  "add_request q d =
     (if \<not> run_exists (lq_run_id q) d
        \<or> lq_request_id q \<in> rq_request_id ` set (requests_of (lq_kind q) d)
      then Inl IntegrityError
      else Inr (set_requests (lq_kind q) (requests_of (lq_kind q) d @ [lifecycle_row q]) d))"

text \<open>The idempotency key is a pair of key and request hash; an empty key counts as none.\<close>

definition create_lifecycle_request ::
  "(string \<Rightarrow> string) \<Rightarrow> LifecycleRequest \<Rightarrow> string option \<Rightarrow> string option \<Rightarrow> LifecycleRequest io" where
  "create_lifecycle_request sha256 q idempotency_key request_hash =
     bnd clock_now (\<lambda>now.
       tx (\<lambda>d.
         (case idempotency_key of
            Some (ch # rest) \<Rightarrow>
              (let key = ch # rest; action = lifecycle_action (lq_kind q) (lq_run_id q);
                   key_pk = idempotency_pk sha256 (lq_requested_by q) action key in
               case get_key key_pk d of
                 Some existing \<Rightarrow>
                   if Some (ik_request_hash existing) \<noteq> request_hash
                   then Inl (Durable IdempotencyConflictError)
                   else (case tbl_get rq_request_id (ik_resource_id existing) (requests_of (lq_kind q) d) of
                       None \<Rightarrow> Inl (Durable DatabaseError)
                     | Some row \<Rightarrow> (case lifecycle_from_row row (lq_kind q) of
                         Inl e \<Rightarrow> Inl e | Inr stored \<Rightarrow> Inr (stored, d)))
               | None \<Rightarrow> (case request_hash of
                     None \<Rightarrow> Inl ValueError
                   | Some h \<Rightarrow>
                       (let k = new_key sha256 (lq_requested_by q) action key h (lq_request_id q) now in
                        if \<not> key_free k d then Inl IntegrityError
                        else (case add_request q d of
                            Inl e \<Rightarrow> Inl e | Inr d' \<Rightarrow> Inr (q, add_key k d')))))
          | _ \<Rightarrow> (case add_request q d of Inl e \<Rightarrow> Inl e | Inr d' \<Rightarrow> Inr (q, d')))))"

definition find_idempotent_lifecycle_request ::
  "(string \<Rightarrow> string) \<Rightarrow> string \<Rightarrow> string \<Rightarrow> LifecycleKind \<Rightarrow> string \<Rightarrow> string \<Rightarrow>
   LifecycleRequest option io" where
  "find_idempotent_lifecycle_request sha256 owner_id run_id kind idempotency_key request_hash =
     query (\<lambda>d.
       case get_key (idempotency_pk sha256 owner_id (lifecycle_action kind run_id) idempotency_key) d of
         None \<Rightarrow> Inr None
       | Some existing \<Rightarrow>
           if ik_request_hash existing \<noteq> request_hash then Inl (Durable IdempotencyConflictError)
           else (case tbl_get rq_request_id (ik_resource_id existing) (requests_of kind d) of
               None \<Rightarrow> Inl (Durable DatabaseError)
             | Some row \<Rightarrow> map_sum id Some (lifecycle_from_row row kind)))"

definition first_pending :: "LifecycleKind \<Rightarrow> string \<Rightarrow> database \<Rightarrow> LifecycleRequestORM option" where
  "first_pending kind run_id d = find (\<lambda>q. True) (sort_key rq_created_at
     (filter (\<lambda>q. rq_run_id q = run_id \<and> rq_status q = LS_PENDING) (requests_of kind d)))"

definition pending_lifecycle_request :: "string \<Rightarrow> LifecycleRequest option io" where
  "pending_lifecycle_request run_id = query (\<lambda>d.
     case first_pending Cancel run_id d of
       Some row \<Rightarrow> map_sum id Some (lifecycle_from_row row Cancel)
     | None \<Rightarrow> (case first_pending Pause run_id d of
         Some row \<Rightarrow> map_sum id Some (lifecycle_from_row row Pause)
       | None \<Rightarrow> Inr None))"

definition pending_request :: "string \<Rightarrow> LifecycleRequestORM \<Rightarrow> bool" where
  "pending_request request_id row \<longleftrightarrow> rq_request_id row = request_id \<and> rq_status row = LS_PENDING"

definition apply_lifecycle_request :: "LifecycleRequest \<Rightarrow> LifecycleRequest io" where
  "apply_lifecycle_request q =
     bnd clock_now (\<lambda>applied.
       tx (\<lambda>d. if rowcount (pending_request (lq_request_id q)) (requests_of (lq_kind q) d) \<noteq> 1
          then Inl (Durable ConcurrencyConflictError)
          else Inr (q\<lparr>lq_status := LS_APPLIED, lq_applied_at := Some applied\<rparr>,
            set_requests (lq_kind q)
              (tbl_update (pending_request (lq_request_id q))
                (\<lambda>row. row\<lparr>rq_status := LS_APPLIED, rq_applied_at := Some applied\<rparr>)
                (requests_of (lq_kind q) d)) d)))"

section \<open>Durability\<close>

lemma evolves_requests:
  assumes "wf_db d \<Longrightarrow> distinct (map rq_request_id T)" and "rows_step request_step (requests_of k d) T"
  shows "evolves d (set_requests k T d)"
  using assms by (cases k) (simp_all add: evolves_def wf_db_def tables_step_def)

lemma wf_requests: "wf_db d \<Longrightarrow> distinct (map rq_request_id (requests_of k d))"
  by (cases k) (simp_all add: wf_db_def)

lemma add_request_evolves: "add_request q d = Inr d' \<Longrightarrow> evolves d d'"
  by (auto simp: add_request_def lifecycle_row_def wf_requests split: if_splits intro!: evolves_requests)

lemma add_request_key_free: "add_request q d = Inr d' \<Longrightarrow> key_free k d' = key_free k d"
  by (cases "lq_kind q") (auto simp: add_request_def key_free_def split: if_splits)

lemma out_create_lifecycle_request [outcome_intros]:
  "outcome durable (\<lambda>_ _. True) w (create_lifecycle_request sha256 q key hash)"
  unfolding create_lifecycle_request_def
  by (intro dur.out_bnd[OF out_clock] out_tx_simple)
    (auto simp: Let_def add_request_key_free split: option.splits list.splits if_splits sum.splits
      intro: add_request_evolves evolves_trans[OF add_request_evolves evolves_add_key])

lemma out_find_idempotent_lifecycle_request [outcome_intros]:
  "outcome durable (\<lambda>_ _. True) w (find_idempotent_lifecycle_request sha256 owner r k i h)"
  unfolding find_idempotent_lifecycle_request_def by (rule out_query)

lemma out_pending_lifecycle_request [outcome_intros]:
  "outcome durable (\<lambda>_ _. True) w (pending_lifecycle_request r)"
  unfolding pending_lifecycle_request_def by (rule out_query)

lemma out_apply_lifecycle_request [outcome_intros]:
  "outcome durable (\<lambda>_ _. True) w (apply_lifecycle_request q)"
  unfolding apply_lifecycle_request_def
proof (intro dur.out_bnd[OF out_clock] out_tx_simple, goal_cases)
  case (1 t u d d' x)
  let ?f = "\<lambda>row. row\<lparr>rq_status := LS_APPLIED, rq_applied_at := Some t\<rparr>"
  let ?T = "tbl_update (pending_request (lq_request_id q)) ?f (requests_of (lq_kind q) d)"
  have d': "d' = set_requests (lq_kind q) ?T d" using 1 by (auto split: if_splits)
  have "map rq_request_id ?T = map rq_request_id (requests_of (lq_kind q) d)"
    by (rule map_key_update) simp
  moreover have "rows_step request_step (requests_of (lq_kind q) d) ?T"
    by (rule rows_step_update) (simp_all add: request_step_def pending_request_def)
  ultimately show ?case unfolding d' using wf_requests by (intro evolves_requests) simp_all
qed

end
