(* ===== verification/Store_Checkpoints.thy ===== *)
theory Store_Checkpoints
  imports Store_Events
begin

text \<open>
  \<open>persistence/store.py\<close>, checkpoints: the append with its sequence and parent checks, the reads
  newest first, retention, and the fault injection hook. The text of an envelope is read through
  the codec of \<open>Checkpoint_Types\<close>.
\<close>

definition checkpoints_desc :: "string \<Rightarrow> database \<Rightarrow> CheckpointORM list" where
  "checkpoints_desc run_id d =
     order_by_desc ck_sequence (filter (\<lambda>r. ck_run_id r = run_id) (db_checkpoints d))"

text \<open>The loop over earlier checkpoints: unreadable and corrupt ones are skipped.\<close>

fun parent_found :: "codec \<Rightarrow> string option \<Rightarrow> string list \<Rightarrow> bool" where
  "parent_found c parent_hash [] = False"
| "parent_found c parent_hash (value # values) =
     (case from_untrusted_json c value of
        Inl e \<Rightarrow> parent_found c parent_hash values
      | Inr candidate \<Rightarrow>
          if parent_hash = Some (chain_hash c candidate) then True
          else parent_found c parent_hash values)"

definition checkpoint_row :: "codec \<Rightarrow> CheckpointEnvelope \<Rightarrow> CheckpointORM" where
  "checkpoint_row c e =
     \<lparr>ck_checkpoint_id = ce_checkpoint_id e, ck_run_id = ce_run_id e,
      ck_schema_version = ce_schema_version e, ck_sequence = ce_sequence e,
      ck_parent_hash = ce_parent_hash e, ck_payload_hash = ce_payload_hash e,
      ck_envelope_json = dump_envelope c e, ck_created_at = ce_created_at e\<rparr>"

definition append_body ::
  "codec \<Rightarrow> CheckpointEnvelope \<Rightarrow> int \<Rightarrow> database \<Rightarrow> exn + unit \<times> database" where
  "append_body c envelope expected_sequence d =
     (let rows = checkpoints_desc (ce_run_id envelope) d;
          actual = (case rows of [] \<Rightarrow> 0 | latest # _ \<Rightarrow> ck_sequence latest) in
      if actual \<noteq> expected_sequence \<or> ce_sequence envelope \<noteq> expected_sequence + 1
      then Inl (Durable ConcurrencyConflictError)
      else if rows \<noteq> [] \<and> \<not> parent_found c (ce_parent_hash envelope) (map ck_envelope_json rows)
      then Inl (Durable ConcurrencyConflictError)
      else if rows = [] \<and> ce_parent_hash envelope \<noteq> None
      then Inl (Durable ConcurrencyConflictError)
      else if \<not> run_exists (ce_run_id envelope) d
        \<or> ce_checkpoint_id envelope \<in> ck_checkpoint_id ` set (db_checkpoints d)
      then Inl IntegrityError
      else Inr ((), d\<lparr>db_checkpoints := db_checkpoints d @ [checkpoint_row c envelope]\<rparr>))"

definition append_checkpoint :: "codec \<Rightarrow> CheckpointEnvelope \<Rightarrow> int \<Rightarrow> unit io" where
  "append_checkpoint c envelope expected_sequence =
     bnd (lift_sum (verify_envelope c envelope)) (\<lambda>_.
       on_db_error (tx (append_body c envelope expected_sequence))
         (raise (Durable ConcurrencyConflictError)) DatabaseError)"

definition list_checkpoint_json :: "string \<Rightarrow> string list io" where
  "list_checkpoint_json run_id = query (\<lambda>d. Inr (map ck_envelope_json (checkpoints_desc run_id d)))"

definition list_checkpoints :: "codec \<Rightarrow> string \<Rightarrow> CheckpointEnvelope list io" where
  "list_checkpoints c run_id =
     bnd (list_checkpoint_json run_id) (\<lambda>rows.
       lift_sum (traverse (\<lambda>value. case parse_envelope c value of
         None \<Rightarrow> Inl PydanticValidationError | Some e \<Rightarrow> Inr e) rows))"

text \<open>\<open>reason value\<close> is the text of the exception that reading \<open>value\<close> raises.\<close>

definition checkpoint_view :: "codec \<Rightarrow> (string \<Rightarrow> string) \<Rightarrow> CheckpointORM \<Rightarrow> json" where
  "checkpoint_view c reason row =
     (case from_untrusted_json c (ck_envelope_json row) of
        Inr e \<Rightarrow> (case envelope_json e of JObj kvs \<Rightarrow> JObj (kvs @ [(''integrity'', JStr ''valid'')]) | j \<Rightarrow> j)
      | Inl _ \<Rightarrow> JObj [(''checkpoint_id'', JStr (ck_checkpoint_id row)),
          (''run_id'', JStr (ck_run_id row)), (''sequence'', JInt (ck_sequence row)),
          (''schema_version'', JInt (ck_schema_version row)),
          (''created_at'', JStr (isoformat (ck_created_at row))),
          (''integrity'', JStr ''invalid''),
          (''error'', JStr (take 500 (reason (ck_envelope_json row))))])"

definition list_checkpoint_views :: "codec \<Rightarrow> (string \<Rightarrow> string) \<Rightarrow> string \<Rightarrow> json list io" where
  "list_checkpoint_views c reason run_id =
     query (\<lambda>d. Inr (map (checkpoint_view c reason) (checkpoints_desc run_id d)))"

definition corrupt_checkpoint_for_test :: "string \<Rightarrow> string \<Rightarrow> unit io" where
  "corrupt_checkpoint_for_test checkpoint_id text =
     tx (\<lambda>d. if rowcount (\<lambda>r. ck_checkpoint_id r = checkpoint_id) (db_checkpoints d) \<noteq> 1
        then Inl (Durable NotFoundError)
        else Inr ((), d\<lparr>db_checkpoints := tbl_update (\<lambda>r. ck_checkpoint_id r = checkpoint_id)
               (\<lambda>r. r\<lparr>ck_envelope_json := text\<rparr>) (db_checkpoints d)\<rparr>))"

definition prune_body :: "string \<Rightarrow> nat \<Rightarrow> database \<Rightarrow> exn + nat \<times> database" where
  "prune_body run_id retain d =
     (case drop (retain - 1) (checkpoints_desc run_id d) of
        [] \<Rightarrow> Inr (0, d)
      | row # _ \<Rightarrow>
          (let old = (\<lambda>r. ck_run_id r = run_id \<and> ck_sequence r < ck_sequence row) in
           Inr (rowcount old (db_checkpoints d),
                d\<lparr>db_checkpoints := filter (\<lambda>r. \<not> old r) (db_checkpoints d)\<rparr>)))"

definition prune_checkpoints :: "string \<Rightarrow> int \<Rightarrow> nat io" where
  "prune_checkpoints run_id retain =
     (if retain < 2 then raise ValueError else tx (prune_body run_id (nat retain)))"

section \<open>Durability\<close>

lemma checkpoints_desc_set [simp]:
  "set (checkpoints_desc run_id d) = {r \<in> set (db_checkpoints d). ck_run_id r = run_id}"
  by (auto simp: checkpoints_desc_def order_by_desc_def)

lemma checkpoints_desc_hd:
  assumes "checkpoints_desc run_id d = r # rs" and "x \<in> set (db_checkpoints d)" and "ck_run_id x = run_id"
  shows "ck_sequence x \<le> ck_sequence r"
proof -
  let ?s = "sort_key ck_sequence (filter (\<lambda>r. ck_run_id r = run_id) (db_checkpoints d))"
  have s: "?s = rev rs @ [r]"
    using assms(1) by (simp add: checkpoints_desc_def order_by_desc_def rev_swap)
  have "sorted (map ck_sequence ?s)" by simp
  then have "\<forall>y \<in> set (rev rs). ck_sequence y \<le> ck_sequence r"
    unfolding s by (simp add: sorted_append)
  moreover have "x \<in> set ?s" using assms(2,3) by simp
  then have "x \<in> set (rev rs) \<or> x = r" unfolding s by auto
  ultimately show ?thesis by auto
qed

lemma evolves_append_checkpoint:
  assumes "ck_checkpoint_id r \<notin> ck_checkpoint_id ` set (db_checkpoints d)"
    and "\<And>x. x \<in> set (db_checkpoints d) \<Longrightarrow> ck_run_id x = ck_run_id r \<Longrightarrow> ck_sequence x < ck_sequence r"
    and "0 < ck_sequence r"
  shows "evolves d (d\<lparr>db_checkpoints := db_checkpoints d @ [r]\<rparr>)"
proof -
  have "(ck_run_id r, ck_sequence r) \<notin> (\<lambda>c. (ck_run_id c, ck_sequence c)) ` set (db_checkpoints d)"
  proof (rule notI, elim imageE)
    fix x assume "(ck_run_id r, ck_sequence r) = (ck_run_id x, ck_sequence x)" "x \<in> set (db_checkpoints d)"
    then show False using assms(2)[of x] by simp
  qed
  moreover have "tip ck_run_id ck_sequence (ck_run_id r) (db_checkpoints d) < ck_sequence r"
    using tip_in[of ck_run_id ck_sequence "ck_run_id r" "db_checkpoints d"]
  proof (elim disjE bexE conjE)
    fix x assume x: "x \<in> set (db_checkpoints d)" "ck_run_id x = ck_run_id r"
      "ck_sequence x = tip ck_run_id ck_sequence (ck_run_id r) (db_checkpoints d)"
    show ?thesis using assms(2)[OF x(1,2)] x(3) by simp
  qed (use assms(3) in simp)
  then have "log_step ck_run_id ck_sequence (db_checkpoints d) (db_checkpoints d @ [r])"
    by (rule log_step_append)
  ultimately show ?thesis using assms(1) by (simp add: evolves_def wf_db_def tables_step_def)
qed

lemma append_body_InrD:
  assumes "append_body c e n d = Inr (x, d')"
  shows "d' = d\<lparr>db_checkpoints := db_checkpoints d @ [checkpoint_row c e]\<rparr> \<and>
    ce_sequence e = n + 1 \<and> run_exists (ce_run_id e) d \<and>
    ce_checkpoint_id e \<notin> ck_checkpoint_id ` set (db_checkpoints d) \<and>
    (case checkpoints_desc (ce_run_id e) d of
       [] \<Rightarrow> n = 0 \<and> ce_parent_hash e = None
     | r # rs \<Rightarrow> ck_sequence r = n \<and> parent_found c (ce_parent_hash e) (map ck_envelope_json (r # rs)))"
  using assms by (auto simp: append_body_def Let_def simp del: parent_found.simps
      split: if_splits list.splits)

lemma append_body_evolves:
  assumes "append_body c e n d = Inr (x, d')" and "0 < ce_sequence e"
  shows "evolves d d'"
proof -
  note A = append_body_InrD[OF assms(1)]
  have lt: "ck_sequence x < ce_sequence e" if "x \<in> set (db_checkpoints d)" "ck_run_id x = ce_run_id e" for x
  proof (cases "checkpoints_desc (ce_run_id e) d")
    case Nil
    then have "set (checkpoints_desc (ce_run_id e) d) = {}" by simp
    then show ?thesis using that by auto
  next
    case (Cons r rs)
    then show ?thesis using checkpoints_desc_hd[OF Cons that] A by simp
  qed
  then show ?thesis using A assms(2)
    by (auto intro!: evolves_append_checkpoint simp: checkpoint_row_def)
qed

text \<open>Every envelope the code builds has a positive sequence, as its schema demands.\<close>

lemma out_append_checkpoint:
  assumes "0 < ce_sequence e"
  shows "outcome durable (\<lambda>_ _. True) w (append_checkpoint c e n)"
  unfolding append_checkpoint_def
  by (intro dur.out_bnd[OF dur.out_lift[where Q = "\<lambda>_ _. True"]] out_on_db_error dur.out_raise out_tx_simple)
    (auto intro: append_body_evolves assms)

lemma out_list_checkpoint_json [outcome_intros]:
  "outcome durable (\<lambda>_ _. True) w (list_checkpoint_json run_id)"
  unfolding list_checkpoint_json_def by (rule out_query)

lemma out_list_checkpoints [outcome_intros]: "outcome durable (\<lambda>_ _. True) w (list_checkpoints c run_id)"
  unfolding list_checkpoints_def by (intro dur.out_bnd[OF out_list_checkpoint_json] dur.out_lift) simp

lemma out_list_checkpoint_views [outcome_intros]:
  "outcome durable (\<lambda>_ _. True) w (list_checkpoint_views c reason run_id)"
  unfolding list_checkpoint_views_def by (rule out_query)

lemma desc_split:
  assumes "drop k (checkpoints_desc run_id d) = row # rest"
  shows "(\<forall>r \<in> set (take k (checkpoints_desc run_id d)). ck_sequence row \<le> ck_sequence r) \<and>
    (\<forall>r \<in> set rest. ck_sequence r \<le> ck_sequence row) \<and> row \<in> set (db_checkpoints d) \<and> ck_run_id row = run_id"
proof -
  let ?l = "checkpoints_desc run_id d"
  have l: "?l = take k ?l @ row # rest" using assms append_take_drop_id[of k ?l] by simp
  have "sorted (map ck_sequence (rev ?l))" by (simp add: checkpoints_desc_def order_by_desc_def)
  then have "sorted (map ck_sequence (rev rest @ row # rev (take k ?l)))"
    by (subst (asm) l) simp
  then have "(\<forall>r \<in> set (take k ?l). ck_sequence row \<le> ck_sequence r) \<and>
    (\<forall>r \<in> set rest. ck_sequence r \<le> ck_sequence row)"
    by (auto simp: sorted_append)
  moreover have "row \<in> set ?l" by (subst l) simp
  ultimately show ?thesis by simp
qed

lemma wf_db_filter_checkpoints: "wf_db d \<Longrightarrow> wf_db (d\<lparr>db_checkpoints := filter P (db_checkpoints d)\<rparr>)"
  by (simp add: wf_db_def distinct_map_filter)

lemma prune_body_evolves:
  assumes "wf_db d" and "prune_body run_id n d = Inr (x, d')"
  shows "evolves d d'"
proof (cases "drop (n - 1) (checkpoints_desc run_id d)")
  case Nil
  then show ?thesis using assms by (simp add: prune_body_def)
next
  case (Cons row rest)
  let ?keep = "\<lambda>r. \<not> (ck_run_id r = run_id \<and> ck_sequence r < ck_sequence row)"
  have d': "d' = d\<lparr>db_checkpoints := filter ?keep (db_checkpoints d)\<rparr>"
    using assms(2) Cons by (simp add: prune_body_def Let_def)
  have row: "row \<in> set (db_checkpoints d)" "ck_run_id row = run_id" using desc_split[OF Cons] by auto
  have "tip ck_run_id ck_sequence k (db_checkpoints d) \<le> tip ck_run_id ck_sequence k (filter ?keep (db_checkpoints d))"
    (is "?t \<le> ?t'") for k
  proof (cases "k = run_id")
    case False
    then have "filter (\<lambda>r. ck_run_id r = k) (filter ?keep (db_checkpoints d)) = filter (\<lambda>r. ck_run_id r = k) (db_checkpoints d)"
      unfolding filter_filter by (intro filter_cong refl) blast
    then show ?thesis by (simp add: tip_def)
  next
    case True
    have "ck_sequence row \<le> ?t'"
      using tip_ge[of row "filter ?keep (db_checkpoints d)" ck_sequence ck_run_id] row True by simp
    moreover have "ck_sequence r \<le> ?t'" if "r \<in> set (db_checkpoints d)" "ck_run_id r = k" "?keep r" for r
      using tip_ge[of r "filter ?keep (db_checkpoints d)" ck_sequence ck_run_id] that by simp
    ultimately have "ck_sequence r \<le> ?t'" if "r \<in> set (db_checkpoints d)" "ck_run_id r = k" for r
      using that True by fastforce
    then show ?thesis using row True by (subst tip_le_iff) auto
  qed
  then have "log_step ck_run_id ck_sequence (db_checkpoints d) (filter ?keep (db_checkpoints d))"
    by (simp add: log_step_def)
  then have "tables_step d d'" unfolding d' by (simp add: tables_step_def)
  moreover have "wf_db d'" unfolding d' by (rule wf_db_filter_checkpoints[OF assms(1)])
  ultimately show ?thesis by (simp add: evolves_def)
qed

lemma out_prune_checkpoints [outcome_intros]:
  "outcome durable (\<lambda>_ _. True) w (prune_checkpoints run_id retain)"
  unfolding prune_checkpoints_def
  by (auto intro: dur.out_raise out_tx_simple prune_body_evolves)

end
