(* ===== verification/Store_Tools.thy ===== *)
theory Store_Tools
  imports Store_Events
begin

text \<open>
  \<open>persistence/store.py\<close>, the tool journal: an intent is written before a tool runs, its status and
  result after it. One result per call, one call per idempotency key.
\<close>

definition valid_ToolCall :: "ToolCall \<Rightarrow> bool" where
  "valid_ToolCall c \<longleftrightarrow> no_nul (tc_tool_call_id c) \<and> no_nul (tc_run_id c) \<and> no_nul (tc_task_id c) \<and>
     no_nul (tc_tool_name c) \<and> no_nul (tc_arguments_hash c) \<and> no_nul (tc_idempotency_key c) \<and>
     1 \<le> tc_attempt c"

definition valid_ToolResult :: "ToolResult \<Rightarrow> bool" where
  "valid_ToolResult r \<longleftrightarrow> no_nul (tl_tool_result_id r) \<and> no_nul (tl_tool_call_id r) \<and>
     no_nul (tl_output_hash r) \<and> 0 \<le> tl_duration_seconds r"

definition tool_call_from_row :: "ToolCallORM \<Rightarrow> exn + ToolCall" where
  "tool_call_from_row row = checked valid_ToolCall row"

definition tool_result_from_row :: "ToolResultORM \<Rightarrow> exn + ToolResult" where
  "tool_result_from_row row = checked valid_ToolResult row"

definition call_by_key :: "string \<Rightarrow> database \<Rightarrow> ToolCallORM option" where
  "call_by_key key d = tbl_get tc_idempotency_key key (db_tool_calls d)"

definition result_of :: "string \<Rightarrow> database \<Rightarrow> ToolResultORM option" where
  "result_of call_id d = tbl_get tl_tool_call_id call_id (db_tool_results d)"

definition get_by_idempotency_key :: "string \<Rightarrow> (ToolCall \<times> ToolResult option) option io" where
  "get_by_idempotency_key key = query (\<lambda>d. case call_by_key key d of
       None \<Rightarrow> Inr None
     | Some row \<Rightarrow> (case tool_call_from_row row of
         Inl e \<Rightarrow> Inl e
       | Inr call \<Rightarrow> (case result_of (tc_tool_call_id row) d of
           None \<Rightarrow> Inr (Some (call, None))
         | Some result \<Rightarrow> (case tool_result_from_row result of
             Inl e \<Rightarrow> Inl e | Inr r \<Rightarrow> Inr (Some (call, Some r))))))"

definition record_intent :: "ToolCall \<Rightarrow> unit io" where
  "record_intent call = on_integrity_error
     (tx (\<lambda>d. if \<not> run_exists (tc_run_id call) d
          \<or> tc_tool_call_id call \<in> tc_tool_call_id ` set (db_tool_calls d)
          \<or> tc_idempotency_key call \<in> tc_idempotency_key ` set (db_tool_calls d)
        then Inl IntegrityError
        else Inr ((), d\<lparr>db_tool_calls := db_tool_calls d @ [call]\<rparr>)))
     (raise (Durable IdempotencyConflictError))"

definition set_status :: "ToolCallStatus \<Rightarrow> time \<Rightarrow> ToolCallORM \<Rightarrow> ToolCallORM" where
  "set_status status now row = row\<lparr>tc_status := status,
     tc_started_at := (if status = TC_RUNNING then Some now else tc_started_at row),
     tc_finished_at := (if status \<in> {TC_SUCCEEDED, TC_FAILED, NEEDS_REVIEW} then Some now
                        else tc_finished_at row)\<rparr>"

definition update_status :: "string \<Rightarrow> ToolCallStatus \<Rightarrow> unit io" where
  "update_status call_id status =
     bnd clock_now (\<lambda>now.
       tx (\<lambda>d. if rowcount (\<lambda>c. tc_tool_call_id c = call_id) (db_tool_calls d) \<noteq> 1
          then Inl (Durable NotFoundError)
          else Inr ((), d\<lparr>db_tool_calls := tbl_update (\<lambda>c. tc_tool_call_id c = call_id)
                 (set_status status now) (db_tool_calls d)\<rparr>)))"

definition retryable_call :: "string \<Rightarrow> ToolCallORM \<Rightarrow> bool" where
  "retryable_call call_id row \<longleftrightarrow> tc_tool_call_id row = call_id \<and> tc_status row = TC_FAILED"

definition reopen_call :: "ToolCallORM \<Rightarrow> ToolCallORM" where
  "reopen_call row = row\<lparr>tc_status := INTENT_RECORDED, tc_attempt := tc_attempt row + 1,
     tc_started_at := None, tc_finished_at := None\<rparr>"

definition prepare_retry :: "string \<Rightarrow> unit io" where
  "prepare_retry call_id =
     tx (\<lambda>d. if result_of call_id d \<noteq> None then Inl (Durable ConcurrencyConflictError)
        else if rowcount (retryable_call call_id) (db_tool_calls d) \<noteq> 1
        then Inl (Durable ConcurrencyConflictError)
        else Inr ((), d\<lparr>db_tool_calls :=
               tbl_update (retryable_call call_id) reopen_call (db_tool_calls d)\<rparr>))"

definition finish_call :: "ToolResult \<Rightarrow> time \<Rightarrow> ToolCallORM \<Rightarrow> ToolCallORM" where
  "finish_call result now row = row\<lparr>
     tc_status := (if tl_success result then TC_SUCCEEDED else TC_FAILED),
     tc_finished_at := Some now\<rparr>"

definition record_result :: "ToolResult \<Rightarrow> unit io" where
  "record_result result =
     bnd clock_now (\<lambda>now.
       on_integrity_error
         (tx (\<lambda>d. if tl_tool_call_id result \<notin> tc_tool_call_id ` set (db_tool_calls d)
              \<or> tl_tool_call_id result \<in> tl_tool_call_id ` set (db_tool_results d)
              \<or> tl_tool_result_id result \<in> tl_tool_result_id ` set (db_tool_results d)
            then Inl IntegrityError
            else Inr ((), d\<lparr>db_tool_results := db_tool_results d @ [result],
                   db_tool_calls := tbl_update (\<lambda>c. tc_tool_call_id c = tl_tool_call_id result)
                     (finish_call result now) (db_tool_calls d)\<rparr>)))
         (raise (Durable IdempotencyConflictError)))"

definition uncertain_calls :: "string \<Rightarrow> ToolCall list io" where
  "uncertain_calls run_id = query (\<lambda>d. traverse tool_call_from_row
     (filter (\<lambda>c. tc_run_id c = run_id \<and> tc_status c \<in> {INTENT_RECORDED, TC_RUNNING, UNCERTAIN})
       (db_tool_calls d)))"

definition list_tool_calls :: "string \<Rightarrow> ToolCall list io" where
  "list_tool_calls run_id = query (\<lambda>d. traverse tool_call_from_row
     (sort_key (\<lambda>c. (tc_created_at c, tc_tool_call_id c))
       (filter (\<lambda>c. tc_run_id c = run_id) (db_tool_calls d))))"

section \<open>Durability\<close>

lemma evolves_update_calls:
  assumes "\<And>c. tool_call_step c (f c)"
  shows "evolves d (d\<lparr>db_tool_calls := tbl_update p f (db_tool_calls d)\<rparr>)"
proof -
  have "map tc_tool_call_id (tbl_update p f (db_tool_calls d)) = map tc_tool_call_id (db_tool_calls d)"
    using assms by (intro map_key_update) (simp add: tool_call_step_def)
  moreover have "map tc_idempotency_key (tbl_update p f (db_tool_calls d)) = map tc_idempotency_key (db_tool_calls d)"
    using assms by (intro map_key_update) (simp add: tool_call_step_def)
  moreover have "rows_step tool_call_step (db_tool_calls d) (tbl_update p f (db_tool_calls d))"
    using assms by (intro rows_step_update) simp_all
  ultimately show ?thesis by (simp add: evolves_def wf_db_def tables_step_def)
qed

lemma call_steps [simp]:
  "tool_call_step c (set_status s n c)" "tool_call_step c (reopen_call c)"
  "tool_call_step c (finish_call r n c)"
  by (simp_all add: tool_call_step_def set_status_def reopen_call_def finish_call_def)

lemma evolves_add_result:
  "tl_tool_call_id r \<notin> tl_tool_call_id ` set (db_tool_results d) \<Longrightarrow>
   evolves d (d\<lparr>db_tool_results := db_tool_results d @ [r]\<rparr>)"
  by (simp add: evolves_def wf_db_def tables_step_def)

lemma out_get_by_idempotency_key [outcome_intros]:
  "outcome durable (\<lambda>_ _. True) w (get_by_idempotency_key key)"
  unfolding get_by_idempotency_key_def by (rule out_query)

lemma out_record_intent [outcome_intros]: "outcome durable (\<lambda>_ _. True) w (record_intent call)"
  unfolding record_intent_def
  by (intro out_on_integrity_error dur.out_raise out_tx_simple)
    (auto simp: evolves_def wf_db_def tables_step_def split: if_splits)

lemma out_update_status [outcome_intros]: "outcome durable (\<lambda>_ _. True) w (update_status call_id s)"
  unfolding update_status_def
  by (intro dur.out_bnd[OF out_clock] out_tx_simple) (auto split: if_splits intro: evolves_update_calls)

lemma out_prepare_retry [outcome_intros]: "outcome durable (\<lambda>_ _. True) w (prepare_retry call_id)"
  unfolding prepare_retry_def
  by (rule out_tx_simple) (auto split: if_splits intro: evolves_update_calls)

lemma out_record_result [outcome_intros]: "outcome durable (\<lambda>_ _. True) w (record_result result)"
  unfolding record_result_def
proof (intro dur.out_bnd[OF out_clock] out_on_integrity_error dur.out_raise out_tx_simple, goal_cases)
  case (1 now w' d d' x)
  let ?d1 = "d\<lparr>db_tool_results := db_tool_results d @ [result]\<rparr>"
  have "d' = ?d1\<lparr>db_tool_calls := tbl_update (\<lambda>c. tc_tool_call_id c = tl_tool_call_id result)
      (finish_call result now) (db_tool_calls ?d1)\<rparr>"
    and "tl_tool_call_id result \<notin> tl_tool_call_id ` set (db_tool_results d)"
    using 1 by (auto split: if_splits)
  then show ?case
    using evolves_trans[OF evolves_add_result evolves_update_calls[of "finish_call result now" ?d1]]
    by simp
qed

lemma out_uncertain_calls [outcome_intros]: "outcome durable (\<lambda>_ _. True) w (uncertain_calls run_id)"
  unfolding uncertain_calls_def by (rule out_query)

lemma out_list_tool_calls [outcome_intros]: "outcome durable (\<lambda>_ _. True) w (list_tool_calls run_id)"
  unfolding list_tool_calls_def by (rule out_query)

end
