(* ===== verification/Store_Evidence.thy ===== *)
theory Store_Evidence
  imports Store_Events
begin

text \<open>
  \<open>persistence/store.py\<close>, the artifact catalogue, the evidence ledger's rows and the claims with
  their links. All of them are append-only; a second write of the same identifier must carry the
  same data.
\<close>

section \<open>Artifacts\<close>

definition list_artifact_ids :: "string \<Rightarrow> string list io" where
  "list_artifact_ids run_id = query (\<lambda>d. Inr (sort_key id (map ar_artifact_id
     (filter (\<lambda>a. ar_run_id a = run_id) (db_artifacts d)))))"

definition list_all_artifact_ids :: "string set io" where
  "list_all_artifact_ids = query (\<lambda>d. Inr (set (map ar_artifact_id (db_artifacts d))))"

definition get_artifacts :: "string \<Rightarrow> ArtifactRecord list io" where
  "get_artifacts run_id = query (\<lambda>d. traverse (checked valid_ArtifactRecord)
     (sort_key ar_artifact_id (filter (\<lambda>a. ar_run_id a = run_id) (db_artifacts d))))"

definition record_artifact ::
  "string \<Rightarrow> string \<Rightarrow> string option \<Rightarrow> string \<Rightarrow> string \<Rightarrow> string \<Rightarrow> int \<Rightarrow> unit io" where
  "record_artifact artifact_id run_id task_id uri media_type content_hash size_bytes =
     bnd clock_now (\<lambda>now.
       on_integrity_error
         (tx (\<lambda>d. case tbl_get ar_artifact_id artifact_id (db_artifacts d) of
             Some existing \<Rightarrow>
               if ar_run_id existing = run_id \<and> ar_content_hash existing = content_hash \<and>
                  ar_uri existing = uri
               then Inr ((), d) else Inl (Durable IdempotencyConflictError)
           | None \<Rightarrow>
               if \<not> run_exists run_id d then Inl IntegrityError
               else Inr ((), d\<lparr>db_artifacts := db_artifacts d @
                 [\<lparr>ar_artifact_id = artifact_id, ar_run_id = run_id, ar_task_id = task_id,
                   ar_uri = uri, ar_media_type = media_type, ar_content_hash = content_hash,
                   ar_size_bytes = size_bytes, ar_created_at = now\<rparr>]\<rparr>)))
         (raise (Durable IdempotencyConflictError)))"

section \<open>Evidence\<close>

definition evidence_from_row :: "EvidenceORM \<Rightarrow> exn + EvidenceRecord" where
  "evidence_from_row row = checked valid_EvidenceRecord row"

definition add_evidence :: "EvidenceRecord \<Rightarrow> unit io" where
  "add_evidence record = on_sqlalchemy_error
     (tx (\<lambda>d. case tbl_get er_evidence_id (er_evidence_id record) (db_evidence d) of
         Some existing \<Rightarrow> (case evidence_from_row existing of
             Inl e \<Rightarrow> Inl e
           | Inr stored \<Rightarrow> if stored \<noteq> record then Inl (Durable IdempotencyConflictError)
               else Inr ((), d))
       | None \<Rightarrow> if \<not> run_exists (er_run_id record) d then Inl IntegrityError
           else Inr ((), d\<lparr>db_evidence := db_evidence d @ [record]\<rparr>)))
     DatabaseError"

definition get_evidence :: "string \<Rightarrow> EvidenceRecord list io" where
  "get_evidence run_id = query (\<lambda>d. traverse evidence_from_row
     (sort_key er_evidence_id (filter (\<lambda>e. er_run_id e = run_id) (db_evidence d))))"

section \<open>Claims\<close>

definition claim_links :: "Claim \<Rightarrow> ClaimEvidenceLinkORM list" where
  "claim_links claim = map (\<lambda>i. \<lparr>lk_claim_id = cl_claim_id claim, lk_evidence_id = i\<rparr>) (cl_evidence_ids claim)"

definition add_claim_body :: "Claim \<Rightarrow> database \<Rightarrow> exn + unit \<times> database" where
  "add_claim_body claim d =
     (if cl_claim_id claim \<in> co_claim_id ` set (db_claims d)
      then Inl (Durable IdempotencyConflictError)
      else
        (let evidence = filter (\<lambda>e. er_evidence_id e \<in> set (cl_evidence_ids claim)) (db_evidence d) in
         if cl_evidence_ids claim \<noteq> [] \<and> er_evidence_id ` set evidence \<noteq> set (cl_evidence_ids claim)
         then Inl (Durable PlanValidationError)
         else if cl_evidence_ids claim \<noteq> [] \<and> list_ex (\<lambda>e. er_run_id e \<noteq> cl_run_id claim) evidence
         then Inl (Durable PlanValidationError)
         else if \<not> run_exists (cl_run_id claim) d
           \<or> \<not> distinct (db_claim_evidence_links d @ claim_links claim)
         then Inl IntegrityError
         else Inr ((), d\<lparr>
           db_claims := db_claims d @ [\<lparr>co_claim_id = cl_claim_id claim, co_run_id = cl_run_id claim,
             co_text = cl_text claim, co_kind = cl_kind claim,
             co_related_task_id = cl_related_task_id claim\<rparr>],
           db_claim_evidence_links := db_claim_evidence_links d @ claim_links claim\<rparr>)))"

definition add_claim :: "Claim \<Rightarrow> unit io" where
  "add_claim claim = on_sqlalchemy_error (tx (add_claim_body claim)) DatabaseError"

definition claim_from_row :: "database \<Rightarrow> ClaimORM \<Rightarrow> exn + Claim" where
  "claim_from_row d row = checked valid_Claim
     \<lparr>cl_claim_id = co_claim_id row, cl_run_id = co_run_id row, cl_text = co_text row,
      cl_kind = co_kind row,
      cl_evidence_ids = sort_key id (map lk_evidence_id
        (filter (\<lambda>l. lk_claim_id l = co_claim_id row) (db_claim_evidence_links d))),
      cl_related_task_id = co_related_task_id row\<rparr>"

definition get_claims :: "string \<Rightarrow> Claim list io" where
  "get_claims run_id = query (\<lambda>d. traverse (claim_from_row d)
     (sort_key co_claim_id (filter (\<lambda>c. co_run_id c = run_id) (db_claims d))))"

section \<open>Durability\<close>

lemma out_artifacts [outcome_intros]:
  "outcome durable (\<lambda>_ _. True) w (list_artifact_ids r)"
  "outcome durable (\<lambda>_ _. True) w list_all_artifact_ids"
  "outcome durable (\<lambda>_ _. True) w (get_artifacts r)"
  unfolding list_artifact_ids_def list_all_artifact_ids_def get_artifacts_def by (rule out_query)+

lemma out_record_artifact [outcome_intros]:
  "outcome durable (\<lambda>_ _. True) w (record_artifact i r t u m h s)"
  unfolding record_artifact_def
  by (intro dur.out_bnd[OF out_clock] out_on_integrity_error dur.out_raise out_tx_simple)
    (auto simp: evolves_def wf_db_def tables_step_def table_simps split: option.splits if_splits)

lemma evolves_add_evidence:
  assumes "er_evidence_id e \<notin> er_evidence_id ` set (db_evidence d)"
  shows "evolves d (d\<lparr>db_evidence := db_evidence d @ [e]\<rparr>)"
proof -
  have "wf_db (d\<lparr>db_evidence := db_evidence d @ [e]\<rparr>)" if "wf_db d"
    using that assms unfolding wf_db_def by (elim conjE, intro conjI) (simp; blast)+
  then show ?thesis by (simp add: evolves_def tables_step_def)
qed

lemma out_add_evidence [outcome_intros]: "outcome durable (\<lambda>_ _. True) w (add_evidence record)"
  unfolding add_evidence_def
  by (intro out_on_sqlalchemy_error out_tx_simple)
    (auto simp: table_simps intro!: evolves_add_evidence split: option.splits if_splits sum.splits)

lemma out_get_evidence [outcome_intros]: "outcome durable (\<lambda>_ _. True) w (get_evidence r)"
  unfolding get_evidence_def by (rule out_query)

lemma wf_db_add_claim:
  assumes "wf_db d" and "co_claim_id c \<notin> co_claim_id ` set (db_claims d)"
    and "\<And>l. l \<in> set ls \<Longrightarrow> lk_claim_id l = co_claim_id c \<and>
        (\<exists>e \<in> set (db_evidence d). er_evidence_id e = lk_evidence_id l \<and> er_run_id e = co_run_id c)"
  shows "wf_db (d\<lparr>db_claims := db_claims d @ [c],
                  db_claim_evidence_links := db_claim_evidence_links d @ ls\<rparr>)"
proof -
  have old: "\<exists>c' \<in> set (db_claims d @ [c]). co_claim_id c' = lk_claim_id l \<and>
      (\<exists>e \<in> set (db_evidence d). er_evidence_id e = lk_evidence_id l \<and> er_run_id e = co_run_id c')"
    if "l \<in> set (db_claim_evidence_links d)" for l
    using that assms(1) unfolding wf_db_def by auto
  have new: "\<exists>c' \<in> set (db_claims d @ [c]). co_claim_id c' = lk_claim_id l \<and>
      (\<exists>e \<in> set (db_evidence d). er_evidence_id e = lk_evidence_id l \<and> er_run_id e = co_run_id c')"
    if "l \<in> set ls" for l
    using assms(3)[OF that] by auto
  have links: "\<forall>l \<in> set (db_claim_evidence_links d @ ls). \<exists>c' \<in> set (db_claims d @ [c]).
      co_claim_id c' = lk_claim_id l \<and>
      (\<exists>e \<in> set (db_evidence d). er_evidence_id e = lk_evidence_id l \<and> er_run_id e = co_run_id c')"
    using old new by (auto simp del: bex_simps)
  have "distinct (map co_claim_id (db_claims d @ [c]))"
    using assms(1,2) by (simp add: wf_db_def)
  then show ?thesis using assms(1) links
    unfolding wf_db_def by (elim conjE, intro conjI) (simp; fail)+
qed

lemma add_claim_body_evolves:
  assumes "add_claim_body claim d = Inr (x, d')"
  shows "evolves d d'"
proof -
  let ?c = "\<lparr>co_claim_id = cl_claim_id claim, co_run_id = cl_run_id claim,
      co_text = cl_text claim, co_kind = cl_kind claim, co_related_task_id = cl_related_task_id claim\<rparr>"
  have d': "d' = d\<lparr>db_claims := db_claims d @ [?c],
      db_claim_evidence_links := db_claim_evidence_links d @ claim_links claim\<rparr>"
    and new: "cl_claim_id claim \<notin> co_claim_id ` set (db_claims d)"
    and ev: "cl_evidence_ids claim = [] \<or> (set (cl_evidence_ids claim) \<subseteq>
        er_evidence_id ` set (filter (\<lambda>e. er_evidence_id e \<in> set (cl_evidence_ids claim)) (db_evidence d)) \<and>
      (\<forall>e \<in> set (db_evidence d). er_evidence_id e \<in> set (cl_evidence_ids claim) \<longrightarrow> er_run_id e = cl_run_id claim))"
    using assms by (auto simp: add_claim_body_def Let_def list_ex_iff split: if_splits)
  have "wf_db d'" if "wf_db d"
    unfolding d'
  proof (rule wf_db_add_claim[OF that])
    fix l assume "l \<in> set (claim_links claim)"
    then obtain i where i: "i \<in> set (cl_evidence_ids claim)" "l = \<lparr>lk_claim_id = cl_claim_id claim, lk_evidence_id = i\<rparr>"
      by (auto simp: claim_links_def)
    then obtain e where "e \<in> set (db_evidence d)" "er_evidence_id e = i" "er_run_id e = cl_run_id claim"
      using ev by fastforce
    then show "lk_claim_id l = co_claim_id ?c \<and> (\<exists>e \<in> set (db_evidence d).
        er_evidence_id e = lk_evidence_id l \<and> er_run_id e = co_run_id ?c)"
      using i by auto
  qed (use new in simp)
  then show ?thesis unfolding d' by (simp add: evolves_def tables_step_def)
qed

lemma out_add_claim [outcome_intros]: "outcome durable (\<lambda>_ _. True) w (add_claim claim)"
  unfolding add_claim_def
  by (intro out_on_sqlalchemy_error out_tx_simple) (rule add_claim_body_evolves)

lemma out_get_claims [outcome_intros]: "outcome durable (\<lambda>_ _. True) w (get_claims r)"
  unfolding get_claims_def by (rule out_query)

end
