(* ===== verification/Store_Context.thy ===== *)
theory Store_Context
  imports Store_Events
begin

text \<open>
  \<open>persistence/store.py\<close>, context snapshots and summaries, reports, and repository indexes.
\<close>

section \<open>Summaries and contexts\<close>

definition valid_summary_of :: "string \<Rightarrow> SummaryORM \<Rightarrow> bool" where
  "valid_summary_of run_id row \<longleftrightarrow> sm_run_id row = run_id \<and> sm_valid row"

definition invalidate_summary :: "string \<Rightarrow> SummaryORM \<Rightarrow> SummaryORM" where
  "invalidate_summary reason row = row\<lparr>sm_valid := False,
     sm_payload := (sm_payload row)\<lparr>su_valid := False, su_invalidated_reason := Some reason\<rparr>\<rparr>"

definition invalidate_summaries_for_run :: "string \<Rightarrow> string \<Rightarrow> nat io" where
  "invalidate_summaries_for_run run_id reason =
     tx (\<lambda>d. Inr (rowcount (valid_summary_of run_id) (db_summaries d),
        d\<lparr>db_summaries := tbl_update (valid_summary_of run_id) (invalidate_summary reason)
            (db_summaries d)\<rparr>))"

definition source_hashes_json :: "(string \<times> string) list \<Rightarrow> json" where
  "source_hashes_json kvs = JObj (map (\<lambda>(k, v). (k, JStr v)) kvs)"

definition save_context ::
  "(string \<Rightarrow> string) \<Rightarrow> ContextSnapshot \<Rightarrow> ContextItem list \<Rightarrow> SummaryRecord option \<Rightarrow> unit io" where
  "save_context sha256 snapshot items summary =
     tx (\<lambda>d.
       if \<not> run_exists (cx_run_id snapshot) d \<or> cx_context_id snapshot \<in> cn_context_id ` set (db_contexts d)
       then Inl IntegrityError
       else
         (let d1 = d\<lparr>db_contexts := db_contexts d @
                [\<lparr>cn_context_id = cx_context_id snapshot, cn_run_id = cx_run_id snapshot,
                  cn_task_id = cx_task_id snapshot, cn_payload = (snapshot, items),
                  cn_created_at = cx_created_at snapshot\<rparr>]\<rparr> in
          case summary of
            None \<Rightarrow> Inr ((), d1)
          | Some s \<Rightarrow>
              if \<not> run_exists (su_run_id s) d \<or> su_summary_id s \<in> sm_summary_id ` set (db_summaries d)
              then Inl IntegrityError
              else Inr ((), d1\<lparr>db_summaries := db_summaries d @
                [\<lparr>sm_summary_id = su_summary_id s, sm_run_id = su_run_id s, sm_level = su_level s,
                  sm_payload = s, sm_valid = su_valid s,
                  sm_source_manifest_hash =
                    sha256 (canonical_json (source_hashes_json (su_source_hashes s))),
                  sm_created_at = su_created_at s\<rparr>]\<rparr>)))"

definition load_summary :: "ContextSnapshot \<Rightarrow> database \<Rightarrow> exn + SummaryRecord option" where
  "load_summary snapshot d =
     (if cx_summary_ids snapshot = [] then Inr None
      else (case tbl_get sm_summary_id (last (cx_summary_ids snapshot)) (db_summaries d) of
          None \<Rightarrow> Inr None
        | Some row \<Rightarrow> map_sum id Some (checked valid_SummaryRecord (sm_payload row))))"

definition latest_context ::
  "string \<Rightarrow> (ContextSnapshot \<times> ContextItem list \<times> SummaryRecord option) option io" where
  "latest_context run_id = query (\<lambda>d.
     case order_by_desc (\<lambda>r. (cn_created_at r, cn_context_id r))
            (filter (\<lambda>r. cn_run_id r = run_id) (db_contexts d)) of
       [] \<Rightarrow> Inr None
     | row # _ \<Rightarrow> (case checked valid_ContextSnapshot (fst (cn_payload row)) of
         Inl e \<Rightarrow> Inl e
       | Inr snapshot \<Rightarrow> (case traverse (checked valid_ContextItem) (snd (cn_payload row)) of
           Inl e \<Rightarrow> Inl e
         | Inr items \<Rightarrow> (case load_summary snapshot d of
             Inl e \<Rightarrow> Inl e | Inr s \<Rightarrow> Inr (Some (snapshot, items, s))))))"

definition list_context_references :: "string \<Rightarrow> (string list \<times> string list) io" where
  "list_context_references run_id = query (\<lambda>d. Inr
     (map cn_context_id (sort_key (\<lambda>r. (cn_created_at r, cn_context_id r))
        (filter (\<lambda>r. cn_run_id r = run_id) (db_contexts d))),
      map sm_summary_id (sort_key (\<lambda>r. (sm_created_at r, sm_summary_id r))
        (filter (valid_summary_of run_id) (db_summaries d)))))"

section \<open>Reports\<close>

definition save_report :: "string \<Rightarrow> string \<Rightarrow> string \<Rightarrow> string \<Rightarrow> string \<Rightarrow> bool \<Rightarrow> unit io" where
  "save_report report_id run_id format content content_hash partial =
     bnd clock_now (\<lambda>now.
       tx (\<lambda>d.
         let pk = report_id @ ''-'' @ format in
         if \<not> run_exists run_id d \<or> pk \<in> rt_report_id ` set (db_reports d) then Inl IntegrityError
         else Inr ((), d\<lparr>db_reports := db_reports d @
           [\<lparr>rt_report_id = pk, rt_run_id = run_id, rt_format = format, rt_content = content,
             rt_content_hash = content_hash, rt_partial = partial, rt_created_at = now\<rparr>]\<rparr>)))"

definition get_report :: "(string \<Rightarrow> string) \<Rightarrow> string \<Rightarrow> string \<Rightarrow> (string \<times> string \<times> bool) io" where
  "get_report sha256 run_id format = query (\<lambda>d.
     case order_by_desc (\<lambda>r. (rt_created_at r, rt_report_id r))
            (filter (\<lambda>r. rt_run_id r = run_id \<and> rt_format r = format) (db_reports d)) of
       [] \<Rightarrow> Inl (Durable NotFoundError)
     | row # _ \<Rightarrow>
         if sha256 (rt_content row) \<noteq> rt_content_hash row then Inl (Durable DatabaseError)
         else Inr (rt_content row, rt_content_hash row, rt_partial row))"

section \<open>Repository indexes\<close>

definition repository_file_row :: "string \<Rightarrow> RepositoryFile \<Rightarrow> RepositoryFileORM" where
  "repository_file_row snapshot_id f =
     \<lparr>fo_repository_file_pk = snapshot_id @ '':'' @ rf_file_id f,
      fo_file = f\<lparr>rf_snapshot_id := snapshot_id\<rparr>\<rparr>"

definition file_scope :: "RepositoryFileORM \<Rightarrow> string \<times> string" where
  "file_scope r = (rf_snapshot_id (fo_file r), rf_relative_path (fo_file r))"

definition save_repository_index :: "RepositoryIndex \<Rightarrow> unit io" where
  "save_repository_index index =
     on_integrity_error
       (tx (\<lambda>d.
         let snapshot = ri_snapshot index;
             row = \<lparr>so_snapshot_id = rs_snapshot_id snapshot, so_root = rs_root snapshot,
               so_manifest_hash = rs_manifest_hash snapshot, so_file_count = rs_file_count snapshot,
               so_total_bytes = rs_total_bytes snapshot,
               so_index_payload = \<lparr>ip_summaries = ri_summaries index,
                 ip_repository_map = ri_repository_map index,
                 ip_module_dependencies = ri_module_dependencies index,
                 ip_warnings = ri_warnings index\<rparr>,
               so_created_at = rs_created_at snapshot\<rparr>;
             snapshots = db_repository_snapshots d @ [row];
             files = db_repository_files d @ map (repository_file_row (rs_snapshot_id snapshot)) (rs_files snapshot);
             chunks = db_repository_chunks d @ ri_chunks index in
         if rs_snapshot_id snapshot \<in> so_snapshot_id ` set (db_repository_snapshots d)
           \<or> \<not> distinct (map fo_repository_file_pk files) \<or> \<not> distinct (map file_scope files)
           \<or> \<not> distinct (map rc_chunk_id chunks)
           \<or> list_ex (\<lambda>c. rc_snapshot_id c \<notin> so_snapshot_id ` set snapshots) (ri_chunks index)
         then Inl IntegrityError
         else Inr ((), d\<lparr>db_repository_snapshots := snapshots, db_repository_files := files,
                         db_repository_chunks := chunks\<rparr>)))
       (raise (Durable IdempotencyConflictError))"

definition repository_file_from_row :: "RepositoryFileORM \<Rightarrow> exn + RepositoryFile" where
  "repository_file_from_row row = checked valid_RepositoryFile (fo_file row)"

definition repository_chunk_from_row :: "RepositoryChunkORM \<Rightarrow> exn + RepositoryChunk" where
  "repository_chunk_from_row row = checked valid_RepositoryChunk row"

definition get_repository_index :: "string \<Rightarrow> RepositoryIndex io" where
  "get_repository_index snapshot_id = query (\<lambda>d.
     case tbl_get so_snapshot_id snapshot_id (db_repository_snapshots d) of
       None \<Rightarrow> Inl (Durable NotFoundError)
     | Some row \<Rightarrow>
         (case traverse repository_file_from_row (sort_key (\<lambda>f. rf_relative_path (fo_file f))
                (filter (\<lambda>f. rf_snapshot_id (fo_file f) = snapshot_id) (db_repository_files d))) of
            Inl e \<Rightarrow> Inl e
          | Inr files \<Rightarrow>
         (case traverse repository_chunk_from_row
                (sort_key (\<lambda>c. (rc_relative_path c, rc_start_line c))
                  (filter (\<lambda>c. rc_snapshot_id c = snapshot_id) (db_repository_chunks d))) of
            Inl e \<Rightarrow> Inl e
          | Inr chunks \<Rightarrow> checked valid_RepositoryIndex
              \<lparr>ri_snapshot = \<lparr>rs_snapshot_id = so_snapshot_id row, rs_root = so_root row,
                 rs_manifest_hash = so_manifest_hash row, rs_file_count = so_file_count row,
                 rs_total_bytes = so_total_bytes row, rs_files = files,
                 rs_created_at = so_created_at row\<rparr>,
               ri_chunks = chunks, ri_summaries = ip_summaries (so_index_payload row),
               ri_repository_map = ip_repository_map (so_index_payload row),
               ri_module_dependencies = ip_module_dependencies (so_index_payload row),
               ri_warnings = ip_warnings (so_index_payload row)\<rparr>)))"

section \<open>Durability\<close>

lemma evolves_summaries [simp]: "evolves d (d\<lparr>db_summaries := T\<rparr>)"
  by (simp add: evolves_def wf_db_def tables_step_def)

lemma evolves_contexts [simp]: "evolves d (d\<lparr>db_contexts := db_contexts d @ T\<rparr>)"
  by (simp add: evolves_def wf_db_def tables_step_def)

lemma out_invalidate_summaries_for_run [outcome_intros]:
  "outcome durable (\<lambda>_ _. True) w (invalidate_summaries_for_run r reason)"
  unfolding invalidate_summaries_for_run_def by (rule out_tx_simple) auto

lemma evolves_context_summary [simp]:
  "evolves d (d\<lparr>db_contexts := db_contexts d @ T, db_summaries := S\<rparr>)"
  using evolves_trans[OF evolves_contexts evolves_summaries] by simp

lemma out_save_context [outcome_intros]: "outcome durable (\<lambda>_ _. True) w (save_context sha s items summary)"
  unfolding save_context_def
  by (rule out_tx_simple) (auto simp: Let_def split: if_splits option.splits)

lemma out_context_reads [outcome_intros]:
  "outcome durable (\<lambda>_ _. True) w (latest_context r)"
  "outcome durable (\<lambda>_ _. True) w (list_context_references r)"
  "outcome durable (\<lambda>_ _. True) w (get_report sha r f)"
  "outcome durable (\<lambda>_ _. True) w (get_repository_index i)"
  unfolding latest_context_def list_context_references_def get_report_def get_repository_index_def
  by (rule out_query)+

lemma out_save_report [outcome_intros]: "outcome durable (\<lambda>_ _. True) w (save_report i r f c h p)"
  unfolding save_report_def
  by (intro dur.out_bnd[OF out_clock] out_tx_simple)
    (auto simp: evolves_def wf_db_def tables_step_def Let_def split: if_splits)

lemma out_save_repository_index [outcome_intros]:
  "outcome durable (\<lambda>_ _. True) w (save_repository_index index)"
  unfolding save_repository_index_def
  by (intro out_on_integrity_error dur.out_raise out_tx_simple)
    (auto simp: evolves_def wf_db_def tables_step_def Let_def split: if_splits)

end
