(* ===== verification/Checkpoint_Manager.thy ===== *)
theory Checkpoint_Manager
  imports Store_Checkpoints Store_Tools Store_Evidence Store_Context
begin

text \<open>
  \<open>checkpoints/manager.py\<close>: writing a resume record after verifying the current tip, and finding
  the newest checkpoint whose own hash and whose parent chain verify. Metrics and tracing spans
  have no effect on the state and are left out.
\<close>

section \<open>Python dictionaries and merging\<close>

text \<open>\<open>dict.fromkeys\<close> keeps the first occurrence of every key.\<close>

fun fromkeys :: "string set \<Rightarrow> string list \<Rightarrow> string list" where
  "fromkeys seen [] = []"
| "fromkeys seen (x # xs) = (if x \<in> seen then fromkeys seen xs else x # fromkeys (insert x seen) xs)"

definition merge_ids :: "string list \<Rightarrow> string list \<Rightarrow> string list" where
  "merge_ids persisted supplied = fromkeys {} (persisted @ supplied)"

text \<open>A dict comprehension: keys in order of first insertion, the last value of each.\<close>

definition py_dict :: "(string \<times> 'v) list \<Rightarrow> (string \<times> 'v) list" where
  "py_dict kvs = List.map_filter (\<lambda>k. map_option (Pair k) (map_of (rev kvs) k)) (fromkeys {} (map fst kvs))"

lemma py_dict_in:
  assumes "(k, v) \<in> set (py_dict kvs)"
  shows "(k, v) \<in> set kvs"
proof -
  obtain x y where "map_of (rev kvs) x = Some y" "(k, v) = (x, y)"
    using assms by (auto simp: py_dict_def List.map_filter_def)
  then show ?thesis using map_of_SomeD[of "rev kvs"] by simp
qed

definition calls_by_id :: "ToolCall list \<Rightarrow> ToolCall list" where
  "calls_by_id calls = map snd (sort_key fst (py_dict (map (\<lambda>c. (tc_tool_call_id c, c)) calls)))"

definition call_checkpoint :: "ToolCall \<Rightarrow> ToolCallCheckpoint" where
  "call_checkpoint c = \<lparr>tk_tool_call_id = tc_tool_call_id c, tk_idempotency_key = tc_idempotency_key c,
     tk_status = tc_status c, tk_side_effect_class = SideEffectClass_value (tc_side_effect_class c)\<rparr>"

section \<open>Recovery of the newest valid checkpoint\<close>

text \<open>\<open>verify\<close> with CorruptCheckpointError caught, as the chain check does.\<close>

definition verifies :: "codec \<Rightarrow> CheckpointEnvelope \<Rightarrow> exn + bool" where
  "verifies c e = (case verify_envelope c e of
     Inr _ \<Rightarrow> Inr True
   | Inl x \<Rightarrow> if x = Durable CorruptCheckpointError then Inr False else Inl x)"

text \<open>
  \<open>_chain_is_valid(parsed, index)\<close> on the list from \<open>index\<close> on (newest first); \<open>find_parent\<close> is its
  inner loop over the older entries.
\<close>

function chain_is_valid :: "codec \<Rightarrow> CheckpointEnvelope option list \<Rightarrow> exn + bool"
  and find_parent :: "codec \<Rightarrow> CheckpointEnvelope \<Rightarrow> string \<Rightarrow> CheckpointEnvelope option list \<Rightarrow> exn + bool" where
  "chain_is_valid c [] = Inr False"
| "chain_is_valid c (None # older) = Inr False"
| "chain_is_valid c (Some candidate # older) =
     (case verifies c candidate of
        Inl e \<Rightarrow> Inl e
      | Inr ok \<Rightarrow>
          if \<not> ok then Inr False
          else if older = [] then Inr True
          else (case ce_parent_hash candidate of
              None \<Rightarrow> Inr (ce_sequence candidate = 1)
            | Some h \<Rightarrow> find_parent c candidate h older))"
| "find_parent c candidate h [] = Inr False"
| "find_parent c candidate h (None # older) = find_parent c candidate h older"
| "find_parent c candidate h (Some e # older) =
     (case verifies c e of
        Inl x \<Rightarrow> Inl x
      | Inr ok \<Rightarrow>
          if \<not> ok then find_parent c candidate h older
          else if ce_sequence e \<ge> ce_sequence candidate then find_parent c candidate h older
          else if h = chain_hash c e then chain_is_valid c (Some e # older)
          else find_parent c candidate h older)"
  by pat_completeness auto
termination
  by (relation "measure (\<lambda>x. case x of Inl (c, l) \<Rightarrow> 2 * length l | Inr (c, e, h, l) \<Rightarrow> 2 * length l + 1)")
    auto

definition rejection :: "int \<Rightarrow> CheckpointEnvelope option \<Rightarrow> string \<Rightarrow> json" where
  "rejection position candidate reason = JObj [(''position'', JInt position),
     (''checkpoint_id'', jopt (\<lambda>e. JStr (ce_checkpoint_id e)) candidate), (''reason'', JStr reason)]"

text \<open>The loop over the candidates: the first valid one and the rejections before it.\<close>

fun pick_valid :: "codec \<Rightarrow> int \<Rightarrow> CheckpointEnvelope option list \<Rightarrow> json list \<Rightarrow>
  exn + CheckpointEnvelope option \<times> json list" where
  "pick_valid c n [] failures = Inr (None, failures)"
| "pick_valid c n (None # older) failures =
     pick_valid c (n + 1) older (failures @ [rejection n None ''checkpoint JSON/schema is invalid''])"
| "pick_valid c n (Some candidate # older) failures =
     (case chain_is_valid c (Some candidate # older) of
        Inl e \<Rightarrow> Inl e
      | Inr ok \<Rightarrow>
          if ok then Inr (Some candidate, failures)
          else pick_valid c (n + 1) older
            (failures @ [rejection n (Some candidate) ''checkpoint parent chain is invalid'']))"

definition recover_latest :: "codec \<Rightarrow> string \<Rightarrow> CheckpointEnvelope io" where
  "recover_latest c run_id =
     bnd (list_checkpoint_json run_id) (\<lambda>raw.
       if raw = [] then raise (Durable CorruptCheckpointError)
       else bnd (lift_sum (pick_valid c 0 (map (parse_envelope c) raw) [])) (\<lambda>(found, failures).
         case found of
           Some candidate \<Rightarrow>
             bnd (when_do (failures \<noteq> [])
               (bnd (publish run_id ''checkpoint.recovered''
                 (JObj [(''selected_checkpoint_id'', JStr (ce_checkpoint_id candidate)),
                        (''selected_sequence'', JInt (ce_sequence candidate)),
                        (''rejected'', JArr failures)]) None) (\<lambda>_. ret ()))) (\<lambda>_.
             ret candidate)
         | None \<Rightarrow>
             bnd (publish run_id ''checkpoint.recovery_failed''
               (JObj [(''rejected'', JArr failures)]) None) (\<lambda>_.
             raise (Durable CorruptCheckpointError))))"

section \<open>Writing\<close>

text \<open>The optional arguments of \<open>write\<close>.\<close>

record CheckpointRefs =
  cf_context_ids :: "string list"
  cf_summary_ids :: "string list"
  cf_tool_calls :: "ToolCall list"
  cf_artifact_ids :: "string list"
  cf_evidence_ids :: "string list"
  cf_error :: "ErrorCheckpoint option"
  cf_repository_manifest_hash :: "string option"

definition no_refs :: CheckpointRefs where
  "no_refs = \<lparr>cf_context_ids = [], cf_summary_ids = [], cf_tool_calls = [], cf_artifact_ids = [],
     cf_evidence_ids = [], cf_error = None, cf_repository_manifest_hash = None\<rparr>"

text \<open>The references that are already stored, merged with the supplied ones.\<close>

definition gather_refs :: "RunRecord \<Rightarrow> CheckpointRefs \<Rightarrow> CheckpointRefs io" where
  "gather_refs run refs =
     bnd (case (cf_repository_manifest_hash refs, rr_repository_snapshot_id run) of
         (None, Some snapshot_id) \<Rightarrow>
           bnd (get_repository_index snapshot_id) (\<lambda>index.
             ret (Some (rs_manifest_hash (ri_snapshot index))))
       | (h, _) \<Rightarrow> ret h) (\<lambda>manifest.
     bnd (list_context_references (rr_run_id run)) (\<lambda>(contexts, summaries).
     bnd (list_tool_calls (rr_run_id run)) (\<lambda>tools.
     bnd (list_artifact_ids (rr_run_id run)) (\<lambda>artifacts.
     bnd (get_evidence (rr_run_id run)) (\<lambda>evidence.
     bnd (case cf_error refs of None \<Rightarrow> latest_error (rr_run_id run) | Some e \<Rightarrow> ret (Some e)) (\<lambda>error.
     ret \<lparr>cf_context_ids = merge_ids contexts (cf_context_ids refs),
          cf_summary_ids = merge_ids summaries (cf_summary_ids refs),
          cf_tool_calls = calls_by_id (tools @ cf_tool_calls refs),
          cf_artifact_ids = merge_ids artifacts (cf_artifact_ids refs),
          cf_evidence_ids = merge_ids (map er_evidence_id evidence) (cf_evidence_ids refs),
          cf_error = error, cf_repository_manifest_hash = manifest\<rparr>))))))"

text \<open>The expected sequence and the parent hash.\<close>

definition checkpoint_parent :: "codec \<Rightarrow> string \<Rightarrow> (int \<times> string option) io" where
  "checkpoint_parent c run_id =
     bnd (list_checkpoint_json run_id) (\<lambda>raw.
       if raw = [] then ret (0, None)
       else bnd (recover_latest c run_id) (\<lambda>latest.
         bnd (checkpoint_tip_sequence run_id) (\<lambda>expected_sequence.
           ret (expected_sequence, Some (chain_hash c latest)))))"

definition checkpoint_payload ::
  "RunRecord \<Rightarrow> PlanSpec \<Rightarrow> TaskRecord list \<Rightarrow> CheckpointRefs \<Rightarrow> CheckpointPayload" where
  "checkpoint_payload run plan tasks refs =
     (let states = py_dict (map (\<lambda>t. (tr_task_id t, tr_state t)) tasks) in
      \<lparr>cp_run_id = rr_run_id run, cp_run_state = rr_state run,
       cp_active_task_id = rr_active_task_id run, cp_task_states = states,
       cp_completed_task_ids = sort_key id (map fst (filter (\<lambda>(k, s). s = T_SUCCEEDED) states)),
       cp_pending_task_ids = sort_key id (map fst (filter (\<lambda>(k, s). s \<noteq> T_SUCCEEDED) states)),
       cp_plan_id = ps_plan_id plan, cp_plan_version = ps_version plan,
       cp_context_ids = cf_context_ids refs, cp_summary_ids = cf_summary_ids refs,
       cp_tool_calls = map call_checkpoint (cf_tool_calls refs),
       cp_artifact_ids = cf_artifact_ids refs, cp_evidence_ids = cf_evidence_ids refs,
       cp_retry_counters = py_dict (map (\<lambda>t. (tr_task_id t, tr_attempt_count t)) tasks),
       cp_error = cf_error refs, cp_repository_snapshot_id = rr_repository_snapshot_id run,
       cp_repository_manifest_hash = cf_repository_manifest_hash refs,
       cp_configuration_fingerprint = rr_configuration_fingerprint run\<rparr>)"

definition write_checkpoint :: "codec \<Rightarrow> int \<Rightarrow> RunRecord \<Rightarrow> PlanSpec \<Rightarrow> TaskRecord list \<Rightarrow>
  CheckpointRefs \<Rightarrow> CheckpointEnvelope io" where
  "write_checkpoint c retention_count run plan tasks refs =
     bnd (gather_refs run refs) (\<lambda>refs'.
     bnd (checkpoint_parent c (rr_run_id run)) (\<lambda>(expected_sequence, parent_hash).
     bnd (lift_sum (checked valid_CheckpointPayload (checkpoint_payload run plan tasks refs'))) (\<lambda>payload.
     bnd (ids_new ''checkpoint'') (\<lambda>checkpoint_id.
     bnd clock_now (\<lambda>now.
     bnd (lift_sum (create_envelope c checkpoint_id (expected_sequence + 1) payload parent_hash now)) (\<lambda>envelope.
     bnd (append_checkpoint c envelope expected_sequence) (\<lambda>_.
     bnd (publish (rr_run_id run) ''checkpoint.written''
       (JObj [(''checkpoint_id'', JStr (ce_checkpoint_id envelope)),
              (''sequence'', JInt (ce_sequence envelope))]) (rr_active_task_id run)) (\<lambda>_.
     bnd (prune_checkpoints (rr_run_id run) retention_count) (\<lambda>_.
     ret envelope)))))))))"

definition inspect :: "CheckpointEnvelope \<Rightarrow> json" where
  "inspect e = (let p = ce_payload e in JObj [
     (''checkpoint_id'', JStr (ce_checkpoint_id e)), (''sequence'', JInt (ce_sequence e)),
     (''schema_version'', JInt (ce_schema_version e)),
     (''created_at'', JStr (isoformat (ce_created_at e))), (''run_id'', JStr (ce_run_id e)),
     (''run_state'', JStr (RunState_value (cp_run_state p))),
     (''active_task_id'', jopt JStr (cp_active_task_id p)),
     (''completed_tasks'', jstrs (cp_completed_task_ids p)),
     (''pending_tasks'', jstrs (cp_pending_task_ids p)),
     (''plan'', JObj [(''id'', JStr (cp_plan_id p)), (''version'', JInt (cp_plan_version p))]),
     (''repository_snapshot_id'', jopt JStr (cp_repository_snapshot_id p)),
     (''tool_calls'', JArr (map tool_call_json (cp_tool_calls p))),
     (''evidence_count'', JInt (int (length (cp_evidence_ids p)))),
     (''payload_hash'', JStr (ce_payload_hash e)),
     (''parent_hash'', jopt JStr (ce_parent_hash e))])"

section \<open>Durability\<close>

lemma out_then_publish: "outcome durable (\<lambda>_ _. True) w (bnd (publish r t p k) (\<lambda>_. ret ()))"
  by (intro dur.out_bnd[OF out_publish] dur.out_ret) simp

lemma out_recover_latest [outcome_intros]: "outcome durable (\<lambda>_ _. True) w (recover_latest c run_id)"
  unfolding recover_latest_def
proof (rule dur.out_bnd[OF out_list_checkpoint_json], goal_cases)
  case (1 raw w')
  show ?case
  proof (cases "raw = []")
    case False
    have "outcome durable (\<lambda>_ _. True) w' (bnd (lift_sum (pick_valid c 0 (map (parse_envelope c) raw) [])) (\<lambda>x.
      case x of (found, failures) \<Rightarrow> case found of
           Some candidate \<Rightarrow>
             bnd (when_do (failures \<noteq> [])
               (bnd (publish run_id ''checkpoint.recovered''
                 (JObj [(''selected_checkpoint_id'', JStr (ce_checkpoint_id candidate)),
                        (''selected_sequence'', JInt (ce_sequence candidate)),
                        (''rejected'', JArr failures)]) None) (\<lambda>_. ret ()))) (\<lambda>_.
             ret candidate)
         | None \<Rightarrow>
             bnd (publish run_id ''checkpoint.recovery_failed''
               (JObj [(''rejected'', JArr failures)]) None) (\<lambda>_.
             raise (Durable CorruptCheckpointError))))"
    proof (rule dur.out_bnd[OF dur.out_lift[where Q = "\<lambda>_ _. True"]], goal_cases)
      case (2 x w'')
      then show ?case
        by (auto split: prod.splits option.splits
            intro!: dur.out_bnd[OF dur.out_when[OF out_then_publish]] dur.out_bnd[OF out_publish]
              dur.out_ret dur.out_raise)
    qed simp
    then show ?thesis using False by simp
  qed (simp add: dur.out_raise)
qed

lemma out_gather_refs: "outcome durable (\<lambda>_ _. True) w (gather_refs run refs)"
  unfolding gather_refs_def
  by (intro dur.out_bnd[where P = "\<lambda>_ _. True"])
    (auto split: option.splits prod.splits intro!: dur.out_ret dur.out_bnd[OF out_context_reads(4)]
      out_context_reads(2) out_list_tool_calls out_artifacts out_get_evidence out_latest_error
      dur.out_bnd[where P = "\<lambda>_ _. True"])

lemma out_checkpoint_parent:
  "outcome durable (\<lambda>x _. True) w (checkpoint_parent c run_id)"
  unfolding checkpoint_parent_def
  by (intro dur.out_bnd[OF out_list_checkpoint_json])
    (auto intro!: dur.out_ret dur.out_bnd[OF out_recover_latest] dur.out_bnd[OF out_checkpoint_tip_sequence])

lemma out_write_checkpoint [outcome_intros]:
  "outcome durable (\<lambda>_ _. True) w (write_checkpoint c n run plan tasks refs)"
  unfolding write_checkpoint_def
proof (rule dur.out_bnd[OF out_gather_refs], rule dur.out_bnd[OF out_checkpoint_parent], goal_cases)
  case (1 refs' w1 x w2)
  obtain s h where x: "x = (s, h)" by force
  have "0 < ce_sequence e" if "create_envelope c i m p hh t = Inr e" for i m p hh t e
    using create_envelope_InrD[OF that] by (simp add: valid_CheckpointEnvelope_def)
  then show ?case
    unfolding x prod.case
    by (intro dur.out_bnd[OF dur.out_lift[where Q = "\<lambda>_ _. True"]] dur.out_bnd[OF out_ids]
        dur.out_bnd[OF out_clock] dur.out_bnd[OF dur.out_lift[where Q = "\<lambda>e _. 0 < ce_sequence e"]]
        dur.out_bnd[OF out_append_checkpoint] dur.out_bnd[OF out_publish]
        dur.out_bnd[OF out_prune_checkpoints] dur.out_ret) simp_all
qed

end
