(* ===== verification/Checkpoint_Recovery.thy ===== *)
theory Checkpoint_Recovery
  imports Checkpoint_Manager Task_Graph
begin

text \<open>
  What \<open>checkpoints/manager.py\<close> guarantees: the recovered checkpoint is the newest whose hash chain
  verifies, a written checkpoint is the one recovered next, and the case in which retention deletes
  the last valid ancestor.
\<close>

section \<open>Hash chains\<close>

fun hash_linked :: "codec \<Rightarrow> CheckpointEnvelope list \<Rightarrow> bool" where
  "hash_linked c [] = False"
| "hash_linked c [e] = (verify_envelope c e = Inr ())"
| "hash_linked c (e # p # es) = (verify_envelope c e = Inr () \<and> ce_sequence p < ce_sequence e \<and>
     ce_parent_hash e = Some (chain_hash c p) \<and> hash_linked c (p # es))"

text \<open>A chain ends at the oldest retained row or at a first checkpoint.\<close>

definition anchored :: "CheckpointEnvelope \<Rightarrow> CheckpointEnvelope option list \<Rightarrow> bool" where
  "anchored e l \<longleftrightarrow> last l = Some e \<or> (ce_parent_hash e = None \<and> ce_sequence e = 1)"

lemma verifies_True: "verifies c e = Inr True \<longleftrightarrow> verify_envelope c e = Inr ()"
  by (auto simp: verifies_def split: sum.splits)

lemma chain_sound:
  "chain_is_valid c l = Inr True \<Longrightarrow> \<exists>e es. l \<noteq> [] \<and> hd l = Some e \<and> hash_linked c (e # es) \<and>
     Some ` set (e # es) \<subseteq> set l \<and> anchored (last (e # es)) l"
  "find_parent c e0 h l = Inr True \<Longrightarrow> \<exists>e es. hash_linked c (e # es) \<and> ce_sequence e < ce_sequence e0 \<and>
     h = chain_hash c e \<and> Some ` set (e # es) \<subseteq> set l \<and> anchored (last (e # es)) l"
proof (induction c l and c e0 h l rule: chain_is_valid_find_parent.induct)
  case (3 c candidate older)
  have v: "verify_envelope c candidate = Inr ()"
    using 3(2) by (auto simp: verifies_True split: sum.splits if_splits)
  show ?case
  proof (cases "older = []")
    case True
    then have "hash_linked c [candidate] \<and> anchored (last [candidate]) (Some candidate # older)"
      using v by (simp add: anchored_def)
    then show ?thesis by fastforce
  next
    case False
    show ?thesis
    proof (cases "ce_parent_hash candidate")
      case None
      then have "hash_linked c [candidate] \<and> anchored (last [candidate]) (Some candidate # older)"
        using v 3(2) False by (auto simp: anchored_def split: sum.splits if_splits)
      then show ?thesis by fastforce
    next
      case (Some h)
      have ok: "verifies c candidate = Inr True" using v by (simp add: verifies_True)
      have "find_parent c candidate h older = Inr True" using 3(2) ok False Some by simp
      from 3(1)[OF ok _ False Some this] obtain p es where p: "hash_linked c (p # es)"
        "ce_sequence p < ce_sequence candidate" "h = chain_hash c p" "Some ` set (p # es) \<subseteq> set older"
        "anchored (last (p # es)) older" by auto
      have "hash_linked c (candidate # p # es)" using v p Some by simp
      moreover have "anchored (last (candidate # p # es)) (Some candidate # older)"
        using p(5) False by (simp add: anchored_def)
      moreover have "Some ` set (candidate # p # es) \<subseteq> set (Some candidate # older)" using p(4) by auto
      ultimately show ?thesis by (metis list.distinct(1) list.sel(1))
    qed
  qed
next
  case (5 c candidate h older)
  then obtain e es where "hash_linked c (e # es)" "ce_sequence e < ce_sequence candidate"
    "h = chain_hash c e" "Some ` set (e # es) \<subseteq> set older" "anchored (last (e # es)) older" by auto
  moreover have "older \<noteq> []" using \<open>Some ` set (e # es) \<subseteq> set older\<close> by auto
  ultimately show ?case by (intro exI[of _ e] exI[of _ es]) (auto simp: anchored_def)
next
  case (6 c candidate h e older)
  obtain ok where ok: "verifies c e = Inr ok" using 6(5) by (auto split: sum.splits)
  have lift: ?case if older: "\<exists>e es. hash_linked c (e # es) \<and> ce_sequence e < ce_sequence candidate \<and>
        h = chain_hash c e \<and> Some ` set (e # es) \<subseteq> set older \<and> anchored (last (e # es)) older"
  proof -
    obtain e' es where e: "hash_linked c (e' # es)" "ce_sequence e' < ce_sequence candidate"
      "h = chain_hash c e'" "Some ` set (e' # es) \<subseteq> set older" "anchored (last (e' # es)) older"
      using older by blast
    moreover have "older \<noteq> []" using e(4) by auto
    ultimately show ?thesis by (intro exI[of _ e'] exI[of _ es]) (auto simp: anchored_def)
  qed
  consider "\<not> ok" | "ok" "ce_sequence e \<ge> ce_sequence candidate"
    | "ok" "\<not> ce_sequence e \<ge> ce_sequence candidate" "h = chain_hash c e"
    | "ok" "\<not> ce_sequence e \<ge> ce_sequence candidate" "h \<noteq> chain_hash c e" by blast
  then show ?case
  proof cases
    case 1
    then have "find_parent c candidate h older = Inr True" using 6(5) ok by simp
    from 6(1)[OF ok 1 this] show ?thesis by (rule lift)
  next
    case 2
    then have "find_parent c candidate h older = Inr True" using 6(5) ok by simp
    from 6(2)[OF ok _ 2(2) this] 2(1) show ?thesis by (intro lift) simp
  next
    case 3
    then have "chain_is_valid c (Some e # older) = Inr True" using 6(5) ok by simp
    from 6(3)[OF ok _ 3(2,3) this] 3(1) obtain es where
      "hash_linked c (e # es)" "Some ` set (e # es) \<subseteq> set (Some e # older)"
      "anchored (last (e # es)) (Some e # older)" by auto
    then show ?thesis using 3(2,3) by (intro exI[of _ e] exI[of _ es]) simp
  next
    case 4
    then have "find_parent c candidate h older = Inr True" using 6(5) ok by simp
    from 6(4)[OF ok _ 4(2,3) this] 4(1) show ?thesis by (intro lift) simp
  qed
qed auto

declare chain_is_valid.simps(3) [simp del] find_parent.simps(3) [simp del]

section \<open>The newest valid checkpoint\<close>

text \<open>The list of parsed checkpoints of a run, newest first, and the first valid one in it.\<close>

definition parsed_checkpoints :: "codec \<Rightarrow> string \<Rightarrow> database \<Rightarrow> CheckpointEnvelope option list" where
  "parsed_checkpoints c run_id d = map (\<lambda>r. parse_envelope c (ck_envelope_json r)) (checkpoints_desc run_id d)"

definition newest_valid :: "codec \<Rightarrow> CheckpointEnvelope option list \<Rightarrow> CheckpointEnvelope \<Rightarrow> bool" where
  "newest_valid c l e \<longleftrightarrow> (\<exists>newer older. l = newer @ Some e # older \<and>
     chain_is_valid c (Some e # older) = Inr True \<and>
     (\<forall>k < length newer. chain_is_valid c (drop k l) = Inr False))"

lemma newest_valid_Cons:
  "newest_valid c (x # l) e \<longleftrightarrow>
     (if chain_is_valid c (x # l) = Inr True then x = Some e
      else chain_is_valid c (x # l) = Inr False \<and> newest_valid c l e)"
proof (cases "chain_is_valid c (x # l) = Inr True")
  case True
  show ?thesis
  proof
    assume "newest_valid c (x # l) e"
    then obtain newer older where n: "x # l = newer @ Some e # older"
      "\<forall>k < length newer. chain_is_valid c (drop k (x # l)) = Inr False"
      by (auto simp: newest_valid_def)
    have "newer = []" using n(2) True by (cases newer) auto
    then show "if chain_is_valid c (x # l) = Inr True then x = Some e
      else chain_is_valid c (x # l) = Inr False \<and> newest_valid c l e" using n(1) True by simp
  next
    assume "if chain_is_valid c (x # l) = Inr True then x = Some e
      else chain_is_valid c (x # l) = Inr False \<and> newest_valid c l e"
    then have "x = Some e" using True by simp
    then show "newest_valid c (x # l) e"
      using True unfolding newest_valid_def by (intro exI[of _ "[]"] exI[of _ l]) auto
  qed
next
  case False
  show ?thesis
  proof
    assume "newest_valid c (x # l) e"
    then obtain newer older where n: "x # l = newer @ Some e # older"
      "chain_is_valid c (Some e # older) = Inr True"
      "\<forall>k < length newer. chain_is_valid c (drop k (x # l)) = Inr False"
      by (auto simp: newest_valid_def)
    obtain newer' where newer: "newer = x # newer'" using n(1,2) False by (cases newer) auto
    have "chain_is_valid c (x # l) = Inr False" using n(3) newer by (metis drop0 length_greater_0_conv list.distinct(1))
    moreover have "\<forall>k < length newer'. chain_is_valid c (drop k l) = Inr False"
      using n(3) newer by (metis Suc_less_eq drop_Suc_Cons length_Cons)
    moreover have "l = newer' @ Some e # older" using n(1) newer by simp
    ultimately have "newest_valid c l e" using n(2) unfolding newest_valid_def by blast
    then show "if chain_is_valid c (x # l) = Inr True then x = Some e
      else chain_is_valid c (x # l) = Inr False \<and> newest_valid c l e"
      using \<open>chain_is_valid c (x # l) = Inr False\<close> False by simp
  next
    assume "if chain_is_valid c (x # l) = Inr True then x = Some e
      else chain_is_valid c (x # l) = Inr False \<and> newest_valid c l e"
    then have nv: "newest_valid c l e" and n4: "chain_is_valid c (x # l) = Inr False"
      using False by simp_all
    obtain newer older where n: "l = newer @ Some e # older" "chain_is_valid c (Some e # older) = Inr True"
      "\<forall>k < length newer. chain_is_valid c (drop k l) = Inr False"
      using nv unfolding newest_valid_def by blast
    have "chain_is_valid c (drop k (x # l)) = Inr False" if "k < length (x # newer)" for k
      using that n(3) n4 by (cases k) simp_all
    moreover have "x # l = (x # newer) @ Some e # older" using n(1) by simp
    ultimately show "newest_valid c (x # l) e"
      using n(2) unfolding newest_valid_def by blast
  qed
qed

lemma pick_valid_length: "pick_valid c n l fs = Inr (x, fs') \<Longrightarrow> length fs \<le> length fs'"
  by (induction c n l fs rule: pick_valid.induct) (auto split: sum.splits if_splits dest: Suc_leD)

lemma pick_valid_Some:
  "pick_valid c n l fs = Inr (Some e, fs') \<Longrightarrow> newest_valid c l e \<and> (fs' = fs \<longrightarrow> hd l = Some e)"
proof (induction c n l fs rule: pick_valid.induct)
  case (2 c n older failures)
  let ?f = "failures @ [rejection n None ''checkpoint JSON/schema is invalid'']"
  have p: "pick_valid c (n + 1) older ?f = Inr (Some e, fs')" using 2(2) by simp
  have "newest_valid c older e" using 2(1)[OF p] by simp
  moreover have "fs' \<noteq> failures" using pick_valid_length[OF p] by auto
  ultimately show ?case by (simp add: newest_valid_Cons)
next
  case (3 c n candidate older failures)
  show ?case
  proof (cases "chain_is_valid c (Some candidate # older) = Inr True")
    case True
    then show ?thesis using 3(2) by (simp add: newest_valid_Cons)
  next
    case False
    then have F: "chain_is_valid c (Some candidate # older) = Inr False" using 3(2) by (auto split: sum.splits if_splits)
    let ?f = "failures @ [rejection n (Some candidate) ''checkpoint parent chain is invalid'']"
    have p: "pick_valid c (n + 1) older ?f = Inr (Some e, fs')" using 3(2) F by simp
    have "newest_valid c older e" using 3(1)[OF F _ p] by simp
    moreover have "fs' \<noteq> failures" using pick_valid_length[OF p] by auto
    ultimately show ?thesis using F by (simp add: newest_valid_Cons)
  qed
qed simp

lemma pick_valid_None:
  "pick_valid c n l fs = Inr (None, fs') \<Longrightarrow> k < length l \<Longrightarrow> chain_is_valid c (drop k l) = Inr False"
proof (induction c n l fs arbitrary: k rule: pick_valid.induct)
  case (2 c n older failures)
  then show ?case by (cases k) auto
next
  case (3 c n candidate older failures)
  have F: "chain_is_valid c (Some candidate # older) = Inr False"
    using 3(2) by (auto split: sum.splits if_splits)
  show ?case
  proof (cases k)
    case 0
    then show ?thesis using F by simp
  next
    case (Suc j)
    then show ?thesis using 3(1)[OF F] 3(2,3) F by simp
  qed
qed simp

section \<open>Soundness of recovery\<close>

lemma recover_latest_InrD:
  assumes "good w" and "recover_latest c run_id w = (Inr e, w')"
  shows "\<exists>d. evolves (w_db w) d \<and> wf_db d \<and> newest_valid c (parsed_checkpoints c run_id d) e"
proof -
  let ?d = "w_rely w (w_txn w) (w_db w)"
  have ev: "evolves (w_db w) ?d" "wf_db ?d" using assms(1) by (auto simp: good_def evolves_def)
  obtain raw w1 where raw: "list_checkpoint_json run_id w = (Inr raw, w1)"
    using assms(2) unfolding recover_latest_def by (elim bnd_InrD)
  then have "raw = map ck_envelope_json (checkpoints_desc run_id ?d)"
    using tx_InrD by (fastforce simp: list_checkpoint_json_def query_def split: sum.splits)
  then have p: "map (parse_envelope c) raw = parsed_checkpoints c run_id ?d"
    by (simp add: parsed_checkpoints_def)
  have "raw \<noteq> []" using assms(2) raw by (auto simp: recover_latest_def bnd_def raise_def)
  then obtain found fs where pick: "pick_valid c 0 (parsed_checkpoints c run_id ?d) [] = Inr (found, fs)"
    using assms(2) raw p by (auto simp: recover_latest_def bnd_def lift_sum_def split: sum.splits)
  have "found = Some e"
    using assms(2) raw \<open>raw \<noteq> []\<close> p pick
    by (auto simp: recover_latest_def bnd_def lift_sum_def raise_def ret_def split: option.splits sum.splits prod.splits)
  then show ?thesis using pick_valid_Some pick ev by blast
qed


section \<open>What a write leaves behind\<close>

text \<open>Only \<open>append_checkpoint\<close> and \<open>prune_checkpoints\<close> touch the checkpoint table.\<close>

lemma frame_publish:
  assumes "\<And>d T. sel (d\<lparr>db_events := T\<rparr>) = sel d"
  shows "outcome (frame sel) (\<lambda>_ _. True) w (publish r ty p k)"
proof -
  have b: "sel d' = sel d" if "publish_body i t r ty p k d = Inr (x, d')" for i t d x d'
    using that assms by (auto simp: publish_body_def split: option.splits if_splits)
  have "outcome (frame sel) (\<lambda>_ _. True) w (publish_attempts n (publish_body i t r ty p k))" for n i t w
  proof (induction n arbitrary: w)
    case (Suc n)
    show ?case
      unfolding publish_attempts.simps
      by (rule fr.out_catch[OF frame_tx]) (use b Suc in \<open>auto intro: fr.out_raise\<close>)
  qed (simp add: fr.out_raise)
  then show ?thesis
    unfolding publish_def by (intro fr.out_bnd[OF frame_ids] fr.out_bnd[OF frame_clock])
qed

lemmas frame_ckpt_publish = frame_publish[where sel = db_checkpoints, simplified]

lemma frame_list_json:
  "outcome (frame db_checkpoints) (\<lambda>x w'. quiet w \<longrightarrow> x = map ck_envelope_json (checkpoints_desc run_id (w_db w))) w
     (list_checkpoint_json run_id)"
  unfolding list_checkpoint_json_def
  by (rule outcomeI, cases "quiet w") (auto simp: frame_def query_quiet)

lemma frame_gather_refs: "outcome (frame sel) (\<lambda>_ _. True) w (gather_refs run refs)"
  unfolding gather_refs_def list_context_references_def list_tool_calls_def list_artifact_ids_def
    get_evidence_def latest_error_def get_repository_index_def
  by (intro fr.out_bnd[where P = "\<lambda>_ _. True"])
    (auto split: option.splits prod.splits intro!: fr.out_ret fr.out_bnd[OF frame_query] frame_query)

definition recovered_from :: "codec \<Rightarrow> string \<Rightarrow> world \<Rightarrow> CheckpointEnvelope \<Rightarrow> bool" where
  "recovered_from c run_id w e \<longleftrightarrow> newest_valid c (parsed_checkpoints c run_id (w_db w)) e"

lemma frame_recover_latest:
  "outcome (frame db_checkpoints) (\<lambda>e _. quiet w \<longrightarrow> recovered_from c run_id w e) w (recover_latest c run_id)"
proof (rule outcomeI)
  fix x w' assume run: "recover_latest c run_id w = (x, w')"
  have "outcome (frame db_checkpoints) (\<lambda>_ _. True) w (recover_latest c run_id)"
    unfolding recover_latest_def
    by (intro fr.out_bnd[OF fr.out_weaken_true[OF frame_list_json]])
      (auto split: option.splits prod.splits intro!: fr.out_bnd[OF fr.out_lift[where Q = "\<lambda>_ _. True"]]
        fr.out_bnd[OF fr.out_when] fr.out_bnd[OF frame_ckpt_publish] fr.out_ret fr.out_raise)
  then have "frame db_checkpoints w w'" using run by (rule outcomeD)
  moreover have "recovered_from c run_id w e" if xe: "x = Inr e" and q: "quiet w" for e
  proof -
    let ?raw = "map ck_envelope_json (checkpoints_desc run_id (w_db w))"
    have p: "map (parse_envelope c) ?raw = parsed_checkpoints c run_id (w_db w)"
      by (simp add: parsed_checkpoints_def)
    have raw: "list_checkpoint_json run_id w = (Inr ?raw, w\<lparr>w_txn := Suc (w_txn w)\<rparr>)"
      using q by (simp add: list_checkpoint_json_def query_quiet)
    have ne: "?raw \<noteq> []" using run raw xe by (auto simp: recover_latest_def bnd_def raise_def)
    then obtain found fs where pick: "pick_valid c 0 (parsed_checkpoints c run_id (w_db w)) [] = Inr (found, fs)"
      using run raw p xe by (auto simp: recover_latest_def bnd_def lift_sum_def split: sum.splits)
    have "found = Some e"
      using run raw ne p pick xe
      by (auto simp: recover_latest_def bnd_def lift_sum_def raise_def ret_def split: option.splits sum.splits prod.splits)
    then show ?thesis using pick_valid_Some pick unfolding recovered_from_def by blast
  qed
  ultimately show "frame db_checkpoints w w' \<and> (\<forall>v. x = Inr v \<longrightarrow> quiet w \<longrightarrow> recovered_from c run_id w v)"
    by blast
qed

lemma insort_key_snoc: "key x \<le> key r \<Longrightarrow> insort_key key x (ys @ [r]) = insort_key key x ys @ [r]"
  by (induction ys) auto

lemma sort_key_snoc:
  assumes "\<And>x. x \<in> set xs \<Longrightarrow> key x < key r"
  shows "sort_key key (xs @ [r]) = sort_key key xs @ [r]"
  using assms by (induction xs) (auto simp: insort_key_snoc less_imp_le)

lemma desc_append:
  assumes "ck_run_id r = run_id" and "\<And>x. x \<in> set (db_checkpoints d) \<Longrightarrow> ck_run_id x = run_id \<Longrightarrow> ck_sequence x < ck_sequence r"
    and "db_checkpoints d' = db_checkpoints d @ [r]"
  shows "checkpoints_desc run_id d' = r # checkpoints_desc run_id d"
proof -
  have "sort_key ck_sequence (filter (\<lambda>r. ck_run_id r = run_id) (db_checkpoints d) @ [r])
      = sort_key ck_sequence (filter (\<lambda>r. ck_run_id r = run_id) (db_checkpoints d)) @ [r]"
    using assms(2) by (intro sort_key_snoc) simp
  then show ?thesis using assms(1,3) by (simp add: checkpoints_desc_def order_by_desc_def)
qed

lemma desc_strict:
  assumes "wf_db d"
  shows "sorted_wrt (\<lambda>a b. ck_sequence b < ck_sequence a) (checkpoints_desc run_id d)"
proof -
  let ?f = "filter (\<lambda>r. ck_run_id r = run_id) (db_checkpoints d)"
  have "distinct (map (\<lambda>c. (ck_run_id c, ck_sequence c)) ?f)"
    using assms by (simp add: wf_db_def distinct_map_filter)
  then have "distinct (map ck_sequence ?f)"
    by (rule distinct_map_on) auto
  then have "distinct (map ck_sequence (sort_key ck_sequence ?f))" by (simp add: distinct_map)
  then have "sorted_wrt (<) (map ck_sequence (sort_key ck_sequence ?f))"
    by (simp add: strict_sorted_iff)
  then have "sorted_wrt (\<lambda>a b. ck_sequence a < ck_sequence b) (sort_key ck_sequence ?f)"
    by (simp add: sorted_wrt_map)
  then show ?thesis by (simp add: checkpoints_desc_def order_by_desc_def sorted_wrt_rev)
qed

lemma prune_desc:
  assumes "wf_db d" and "2 \<le> n" and "prune_body run_id n d = Inr (x, d')"
  shows "checkpoints_desc run_id d' = take n (checkpoints_desc run_id d)"
proof (cases "drop (n - 1) (checkpoints_desc run_id d)")
  case Nil
  then show ?thesis using assms(2,3) by (simp add: prune_body_def)
next
  case (Cons row rest)
  let ?l = "checkpoints_desc run_id d"
  let ?keep = "\<lambda>r. \<not> (ck_run_id r = run_id \<and> ck_sequence r < ck_sequence row)"
  have d': "d' = d\<lparr>db_checkpoints := filter ?keep (db_checkpoints d)\<rparr>"
    using assms(3) Cons by (simp add: prune_body_def Let_def)
  have swap: "filter (\<lambda>r. ck_run_id r = run_id) (filter ?keep (db_checkpoints d))
      = filter ?keep (filter (\<lambda>r. ck_run_id r = run_id) (db_checkpoints d))"
    by (simp add: filter_filter conj_commute)
  have ck: "db_checkpoints d' = filter ?keep (db_checkpoints d)" unfolding d' by simp
  have "checkpoints_desc run_id d' = rev (sort_key ck_sequence (filter ?keep
      (filter (\<lambda>r. ck_run_id r = run_id) (db_checkpoints d))))"
    by (simp only: checkpoints_desc_def order_by_desc_def ck swap)
  also have "\<dots> = rev (filter ?keep (sort_key ck_sequence
      (filter (\<lambda>r. ck_run_id r = run_id) (db_checkpoints d))))"
    by (simp only: filter_sort)
  also have "\<dots> = filter ?keep ?l"
    by (simp only: checkpoints_desc_def order_by_desc_def rev_filter)
  finally have desc': "checkpoints_desc run_id d' = filter ?keep ?l" .
  have l: "?l = take (n - 1) ?l @ row # rest" using Cons append_take_drop_id[of "n - 1" ?l] by simp
  have strict: "sorted_wrt (\<lambda>a b. ck_sequence b < ck_sequence a) (take (n - 1) ?l @ row # rest)"
    using desc_strict[OF assms(1), of run_id] l by simp
  then have new: "\<forall>r \<in> set (take (n - 1) ?l). ck_sequence row < ck_sequence r"
    unfolding sorted_wrt_append by simp
  have old: "\<forall>r \<in> set rest. ck_sequence r < ck_sequence row"
    using strict unfolding sorted_wrt_append sorted_wrt.simps by blast
  have "\<forall>r \<in> set rest. ck_run_id r = run_id"
  proof
    fix r assume "r \<in> set rest"
    then have "r \<in> set ?l" by (subst l) simp
    then show "ck_run_id r = run_id" by simp
  qed
  then have f1: "filter ?keep rest = []" using old by (simp add: filter_empty_conv)
  have f2: "filter ?keep (take (n - 1) ?l) = take (n - 1) ?l"
    using new by (intro filter_True ballI) (metis less_asym)
  have "filter ?keep (take (n - 1) ?l @ row # rest) = take (n - 1) ?l @ [row]"
    unfolding filter_append filter.simps f1 f2 by simp
  moreover have "take n ?l = take (n - 1) ?l @ [row]"
  proof -
    have "n = Suc (n - 1)" using assms(2) by simp
    moreover have "n - 1 < length ?l" using Cons by (metis drop_all linorder_not_less list.distinct(1))
    moreover have "?l ! (n - 1) = row" using Cons by (metis hd_drop_conv_nth calculation(2) list.sel(1))
    ultimately show ?thesis by (metis take_Suc_conv_app_nth)
  qed
  ultimately show ?thesis using desc' l by metis
qed

text \<open>
  The description of a successful write in a quiet world: one row more, the newest, built from the
  returned envelope, whose parent is the checkpoint recovered before; then retention.
\<close>

definition written_after :: "codec \<Rightarrow> string \<Rightarrow> nat \<Rightarrow> CheckpointEnvelope \<Rightarrow> database \<Rightarrow> database \<Rightarrow> bool" where
  "written_after c run_id n e d d' \<longleftrightarrow>
     checkpoints_desc run_id d' = take n (checkpoint_row c e # checkpoints_desc run_id d) \<and>
     valid_CheckpointEnvelope e \<and> verify_envelope c e = Inr () \<and>
     (\<forall>r \<in> set (checkpoints_desc run_id d). ck_sequence r < ce_sequence e) \<and>
     (if checkpoints_desc run_id d = [] then ce_parent_hash e = None
      else \<exists>latest. newest_valid c (parsed_checkpoints c run_id d) latest \<and>
             ce_parent_hash e = Some (chain_hash c latest))"

lemma desc_ckpt: "db_checkpoints d = db_checkpoints d' \<Longrightarrow> checkpoints_desc run_id d = checkpoints_desc run_id d'"
  by (simp add: checkpoints_desc_def)

lemma parsed_ckpt: "db_checkpoints d = db_checkpoints d' \<Longrightarrow> parsed_checkpoints c run_id d = parsed_checkpoints c run_id d'"
  unfolding parsed_checkpoints_def by (drule desc_ckpt[where run_id = run_id]) simp

lemma frame_checkpoint_parent:
  "outcome (frame db_checkpoints) (\<lambda>(s, h) _. quiet w \<longrightarrow>
     (if checkpoints_desc run_id (w_db w) = [] then h = None
      else \<exists>latest. newest_valid c (parsed_checkpoints c run_id (w_db w)) latest \<and> h = Some (chain_hash c latest))) w
     (checkpoint_parent c run_id)"
  unfolding checkpoint_parent_def
proof (rule fr.out_bnd[OF frame_list_json], goal_cases)
  case (1 raw w1)
  have db: "quiet w \<Longrightarrow> quiet w1 \<and> db_checkpoints (w_db w1) = db_checkpoints (w_db w)"
    using 1(1) by (simp add: frame_def)
  show ?case
  proof (cases "raw = []")
    case True
    then show ?thesis using 1(2) by (auto intro!: fr.out_ret)
  next
    case False
    have "outcome (frame db_checkpoints) (\<lambda>(s, h) _. quiet w \<longrightarrow> (\<exists>latest.
        newest_valid c (parsed_checkpoints c run_id (w_db w)) latest \<and> h = Some (chain_hash c latest))) w1
      (bnd (recover_latest c run_id) (\<lambda>latest. bnd (checkpoint_tip_sequence run_id) (\<lambda>s. ret (s, Some (chain_hash c latest)))))"
    proof (rule fr.out_bnd[OF frame_recover_latest], goal_cases)
      case (1 latest w2)
      have "quiet w \<longrightarrow> newest_valid c (parsed_checkpoints c run_id (w_db w)) latest"
        using 1(2) db parsed_ckpt[of "w_db w1" "w_db w" c run_id] unfolding recovered_from_def by auto
      then show ?case
        unfolding checkpoint_tip_sequence_def
        by (intro fr.out_bnd[OF frame_query] fr.out_ret) auto
    qed
    moreover have "quiet w \<longrightarrow> checkpoints_desc run_id (w_db w) \<noteq> []" using False 1(2) by auto
    ultimately show ?thesis using False by (auto elim!: outcome_weaken split: if_splits)
  qed
qed

lemma step_frame:
  assumes "outcome (frame db_checkpoints) P w m" and "outcome durable Q w m" and "m w = (x, w')"
    and "quiet w" and "wf_db (w_db w)"
  shows "quiet w' \<and> wf_db (w_db w') \<and> db_checkpoints (w_db w') = db_checkpoints (w_db w)"
  using outcomeD[OF assms(1,3)] outcomeD[OF assms(2,3)] assms(4,5) good_quiet
  by (auto simp: frame_def durable_def dest: good_wf)

lemma append_checkpoint_quiet:
  assumes "append_checkpoint c e n w = (Inr x, w')" and "quiet w"
  shows "quiet w' \<and> verify_envelope c e = Inr () \<and> append_body c e n (w_db w) = Inr (x, w_db w')"
proof -
  obtain w1 where v: "verify_envelope c e = Inr ()" "w1 = w"
    and t: "on_db_error (tx (append_body c e n)) (raise (Durable ConcurrencyConflictError)) DatabaseError w1 = (Inr x, w')"
    using assms(1) unfolding append_checkpoint_def by (auto elim!: bnd_InrD simp: lift_sum_def)
  have "tx (append_body c e n) w = (Inr x, w')"
    using t v(2) by (auto simp: on_db_error_def catch_def raise_def split: prod.splits sum.splits if_splits)
  then show ?thesis using v(1) assms(2) by (auto simp: tx_quiet split: sum.splits)
qed

lemma write_description:
  assumes q: "quiet w" and wf: "wf_db (w_db w)" and n: "2 \<le> n"
    and run: "write_checkpoint c n run plan tasks refs w = (Inr e, w')"
  shows "quiet w' \<and> wf_db (w_db w') \<and> ce_run_id e = rr_run_id run \<and>
    written_after c (rr_run_id run) (nat n) e (w_db w) (w_db w')"
proof -
  let ?r = "rr_run_id run"
  obtain refs' w1 s h w2 payload w3 cid w4 now w5 w6 u w7 eid w8 p w9 where
    1: "gather_refs run refs w = (Inr refs', w1)" and
    2: "checkpoint_parent c ?r w1 = (Inr (s, h), w2)" and
    3: "lift_sum (checked valid_CheckpointPayload (checkpoint_payload run plan tasks refs')) w2 = (Inr payload, w3)" and
    4: "ids_new ''checkpoint'' w3 = (Inr cid, w4)" and
    5: "clock_now w4 = (Inr now, w5)" and
    6: "lift_sum (create_envelope c cid (s + 1) payload h now) w5 = (Inr e, w6)" and
    7: "append_checkpoint c e s w6 = (Inr u, w7)" and
    8: "publish ?r ''checkpoint.written'' (JObj [(''checkpoint_id'', JStr (ce_checkpoint_id e)),
              (''sequence'', JInt (ce_sequence e))]) (rr_active_task_id run) w7 = (Inr eid, w8)" and
    9: "prune_checkpoints ?r n w8 = (Inr p, w9)" and w9: "w' = w9"
    using run unfolding write_checkpoint_def
    by (auto elim!: bnd_InrD simp: ret_def split: prod.splits)
  have s1: "quiet w1 \<and> wf_db (w_db w1) \<and> db_checkpoints (w_db w1) = db_checkpoints (w_db w)"
    by (rule step_frame[OF frame_gather_refs out_gather_refs 1 q wf])
  have s2: "quiet w2 \<and> wf_db (w_db w2) \<and> db_checkpoints (w_db w2) = db_checkpoints (w_db w1)"
    using step_frame[OF frame_checkpoint_parent out_checkpoint_parent 2] s1 by blast
  have parent: "if checkpoints_desc ?r (w_db w1) = [] then h = None
      else \<exists>latest. newest_valid c (parsed_checkpoints c ?r (w_db w1)) latest \<and> h = Some (chain_hash c latest)"
    using outcomeD_val[OF frame_checkpoint_parent 2] s1 by simp
  have s6: "w_db w6 = w_db w2" "quiet w6"
    using 3 4 5 6 s2 by (auto simp: lift_sum_def ids_new_def clock_now_def)
  have payload: "cp_run_id payload = ?r"
    using 3 by (auto simp: lift_sum_def checked_def checkpoint_payload_def Let_def split: if_splits)
  have "create_envelope c cid (s + 1) payload h now = Inr e" using 6 by (simp add: lift_sum_def)
  note E = create_envelope_InrD[OF this]
  have eid: "ce_run_id e = ?r" "ce_parent_hash e = h" "ce_sequence e = s + 1" using E payload by auto
  note A = append_checkpoint_quiet[OF 7 s6(2)]
  note B = append_body_InrD[OF conjunct2[OF conjunct2[OF A]]]
  have pos: "0 < ce_sequence e" using E by (simp add: valid_CheckpointEnvelope_def)
  have wf6: "wf_db (w_db w6)" using s6 s2 by simp
  have "evolves (w_db w6) (w_db w7)" using append_body_evolves A pos by blast
  then have wf7: "wf_db (w_db w7)" using wf6 by (simp add: evolves_def)
  have newer: "ck_sequence r < ce_sequence e" if "r \<in> set (checkpoints_desc ?r (w_db w6))" for r
  proof (cases "checkpoints_desc ?r (w_db w6)")
    case Nil
    then show ?thesis using that by (metis empty_iff list.set(1))
  next
    case (Cons r0 rs)
    have "r \<in> set (db_checkpoints (w_db w6))" "ck_run_id r = ?r" using that by auto
    from checkpoints_desc_hd[OF Cons this] show ?thesis using B Cons eid by simp
  qed
  have desc7: "checkpoints_desc ?r (w_db w7) = checkpoint_row c e # checkpoints_desc ?r (w_db w6)"
  proof (rule desc_append)
    show "ck_run_id (checkpoint_row c e) = ?r" using eid by (simp add: checkpoint_row_def)
    show "db_checkpoints (w_db w7) = db_checkpoints (w_db w6) @ [checkpoint_row c e]" using B by simp
    fix x assume "x \<in> set (db_checkpoints (w_db w6))" "ck_run_id x = ?r"
    then show "ck_sequence x < ck_sequence (checkpoint_row c e)"
      using newer by (simp add: checkpoint_row_def)
  qed
  have s8: "quiet w8 \<and> wf_db (w_db w8) \<and> db_checkpoints (w_db w8) = db_checkpoints (w_db w7)"
    using step_frame[OF frame_ckpt_publish out_publish 8] A wf7 by blast
  have body: "prune_body ?r (nat n) (w_db w8) = Inr (p, w_db w9)" "quiet w9"
    using 9 n s8 by (auto simp: prune_checkpoints_def tx_quiet split: sum.splits)
  have desc9: "checkpoints_desc ?r (w_db w9) = take (nat n) (checkpoints_desc ?r (w_db w8))"
    using prune_desc[OF _ _ body(1)] s8 n by simp
  have wf9: "wf_db (w_db w9)" using prune_body_evolves[OF _ body(1)] s8 by (simp add: evolves_def)
  have same: "db_checkpoints (w_db w6) = db_checkpoints (w_db w)" "db_checkpoints (w_db w1) = db_checkpoints (w_db w)"
    using s6 s2 s1 by simp_all
  have d8: "checkpoints_desc ?r (w_db w8) = checkpoint_row c e # checkpoints_desc ?r (w_db w)"
    using desc_ckpt[of "w_db w8" "w_db w7" ?r] desc_ckpt[OF same(1), of ?r] s8 desc7 by simp
  have newer': "\<forall>r \<in> set (checkpoints_desc ?r (w_db w)). ck_sequence r < ce_sequence e"
    using newer desc_ckpt[OF same(1), of ?r] by simp
  have parent': "if checkpoints_desc ?r (w_db w) = [] then ce_parent_hash e = None
      else \<exists>latest. newest_valid c (parsed_checkpoints c ?r (w_db w)) latest \<and>
             ce_parent_hash e = Some (chain_hash c latest)"
    using parent eid(2) desc_ckpt[OF same(2), of ?r] parsed_ckpt[OF same(2), of c ?r]
    by (auto split: if_splits)
  show ?thesis
    unfolding written_after_def w9
    using body(2) wf9 eid(1) desc9 d8 E newer' parent' by simp
qed

section \<open>Write, then recover\<close>

text \<open>
  Stored text is intact when it is unreadable or reads as an envelope that carries the sequence of
  its row (a corrupted row may be garbage, not another row's envelope).
\<close>

definition intact_rows :: "codec \<Rightarrow> string \<Rightarrow> database \<Rightarrow> bool" where
  "intact_rows c run_id d \<longleftrightarrow> list_all (\<lambda>r. case parse_envelope c (ck_envelope_json r) of
     None \<Rightarrow> True | Some e \<Rightarrow> ce_sequence e = ck_sequence r) (checkpoints_desc run_id d)"

lemma intact_rowsD: "intact_rows c run_id d \<Longrightarrow> r \<in> set (checkpoints_desc run_id d) \<Longrightarrow>
   parse_envelope c (ck_envelope_json r) = Some e \<Longrightarrow> ce_sequence e = ck_sequence r"
  by (auto simp: intact_rows_def list_all_iff split: option.splits)

lemma parsed_inD: "Some x \<in> set (parsed_checkpoints c run_id d) \<Longrightarrow>
   \<exists>r \<in> set (checkpoints_desc run_id d). parse_envelope c (ck_envelope_json r) = Some x"
  unfolding parsed_checkpoints_def by force

definition hash_distinct :: "codec \<Rightarrow> string \<Rightarrow> database \<Rightarrow> bool" where
  "hash_distinct c run_id d \<longleftrightarrow>
     (\<forall>a b. Some a \<in> set (parsed_checkpoints c run_id d) \<longrightarrow> Some b \<in> set (parsed_checkpoints c run_id d) \<longrightarrow>
       chain_hash c a = chain_hash c b \<longrightarrow> a = b)"

lemma find_parent_skip:
  assumes "\<forall>x. Some x \<in> set newer \<longrightarrow> valid_CheckpointEnvelope x \<and> chain_hash c x \<noteq> h"
  shows "find_parent c e h (newer @ l) = find_parent c e h l"
  using assms
proof (induction newer)
  case (Cons x newer)
  show ?case
  proof (cases x)
    case (Some y)
    then have y: "valid_CheckpointEnvelope y" "chain_hash c y \<noteq> h" using Cons.prems by simp_all
    then have "ce_schema_version y = CURRENT_CHECKPOINT_SCHEMA_VERSION"
      by (simp add: valid_CheckpointEnvelope_def)
    then obtain ok where "verifies c y = Inr ok"
      by (cases "payload_digest c (ce_payload y) = ce_payload_hash y")
        (simp_all add: verifies_def verify_envelope_def)
    moreover have "find_parent c e h (newer @ l) = find_parent c e h l" using Cons by simp
    ultimately show ?thesis using Some y(2) by (simp add: find_parent.simps(3))
  qed (use Cons in simp)
qed simp

lemma chain_after_write:
  assumes "codec_ok c" and "hash_distinct c run_id d" and "intact_rows c run_id d" and "wf_db d"
    and new: "\<forall>r \<in> set (checkpoints_desc run_id d). ck_sequence r < ce_sequence e"
    and v: "verify_envelope c e = Inr ()"
    and nv: "newest_valid c (parsed_checkpoints c run_id d) latest"
    and h: "ce_parent_hash e = Some (chain_hash c latest)"
  shows "chain_is_valid c (Some e # parsed_checkpoints c run_id d) = Inr True"
proof -
  let ?l = "parsed_checkpoints c run_id d"
  obtain newer older where n: "?l = newer @ Some latest # older" "chain_is_valid c (Some latest # older) = Inr True"
    using nv unfolding newest_valid_def by blast
  have strict: "sorted_wrt (\<lambda>a b. ck_sequence b < ck_sequence a) (checkpoints_desc run_id d)"
    using desc_strict[OF assms(4)] .
  have seqs: "sorted_wrt (\<lambda>a b. \<forall>x y. a = Some x \<longrightarrow> b = Some y \<longrightarrow> ce_sequence y < ce_sequence x) ?l"
    unfolding parsed_checkpoints_def sorted_wrt_map
  proof (rule sorted_wrt_mono_rel[OF _ strict])
    fix r s assume rs: "r \<in> set (checkpoints_desc run_id d)" "s \<in> set (checkpoints_desc run_id d)"
      "ck_sequence s < ck_sequence r"
    show "\<forall>x y. parse_envelope c (ck_envelope_json r) = Some x \<longrightarrow>
        parse_envelope c (ck_envelope_json s) = Some y \<longrightarrow> ce_sequence y < ce_sequence x"
      using intact_rowsD[OF assms(3) rs(1)] intact_rowsD[OF assms(3) rs(2)] rs(3) by simp
  qed
  have skip: "\<forall>x. Some x \<in> set newer \<longrightarrow> valid_CheckpointEnvelope x \<and> chain_hash c x \<noteq> chain_hash c latest"
  proof (intro allI impI conjI)
    fix x assume x: "Some x \<in> set newer"
    then have "Some x \<in> set ?l" using n(1) by simp
    then obtain r :: CheckpointORM where "parse_envelope c (ck_envelope_json r) = Some x"
      using parsed_inD by blast
    then show "valid_CheckpointEnvelope x" using assms(1) by (auto simp: codec_ok_def)
    have "ce_sequence latest < ce_sequence x"
      using seqs x unfolding n(1) sorted_wrt_append by auto
    then have "x \<noteq> latest" by auto
    moreover have "Some x \<in> set ?l" "Some latest \<in> set ?l" using x n(1) by auto
    ultimately show "chain_hash c x \<noteq> chain_hash c latest"
      using assms(2) unfolding hash_distinct_def by blast
  qed
  have "Some latest \<in> set ?l" using n(1) by auto
  then obtain r where r: "r \<in> set (checkpoints_desc run_id d)" "parse_envelope c (ck_envelope_json r) = Some latest"
    by (auto simp: parsed_checkpoints_def)
  then have "ce_sequence latest = ck_sequence r"
    using intact_rowsD[OF assms(3)] by simp
  then have lt: "ce_sequence latest < ce_sequence e" using new r(1) by auto
  obtain ok where ok: "verifies c latest = Inr ok"
    using n(2) by (auto simp: chain_is_valid.simps(3) split: sum.splits)
  then have "verifies c latest = Inr True"
    using n(2) by (auto simp: chain_is_valid.simps(3) split: if_splits)
  then have "find_parent c e (chain_hash c latest) ?l = Inr True"
    unfolding n(1) find_parent_skip[OF skip] using lt n(2) by (simp add: find_parent.simps(3))
  moreover have "?l \<noteq> []" using n(1) by simp
  ultimately show ?thesis using v h by (simp add: chain_is_valid.simps(3) verifies_True[THEN iffD2])
qed

lemma recover_first:
  assumes "quiet w" and "parsed_checkpoints c run_id (w_db w) = Some e # l"
    and "chain_is_valid c (Some e # l) = Inr True"
  shows "\<exists>w'. recover_latest c run_id w = (Inr e, w') \<and> quiet w' \<and> w_db w' = w_db w"
proof -
  let ?raw = "map ck_envelope_json (checkpoints_desc run_id (w_db w))"
  have p: "map (parse_envelope c) ?raw = Some e # l"
    using assms(2) by (simp add: parsed_checkpoints_def comp_def)
  then have ne: "?raw \<noteq> []" by auto
  have "list_checkpoint_json run_id w = (Inr ?raw, w\<lparr>w_txn := Suc (w_txn w)\<rparr>)"
    using assms(1) by (simp add: list_checkpoint_json_def query_quiet)
  moreover have "pick_valid c 0 (map (parse_envelope c) ?raw) [] = Inr (Some e, [])"
    unfolding p using assms(3) by simp
  ultimately show ?thesis
    using ne assms(1) by (simp add: recover_latest_def bnd_def ret_def lift_sum_def del: map_map)
qed


text \<open>
  C37. Retention counts unreadable rows: if the newest \<open>n - 1\<close> stored checkpoints of a run are
  unreadable when a new one is written under retention \<open>n\<close>, pruning deletes the ancestor that
  the new checkpoint was linked to, and the next recovery finds no valid checkpoint at all.
\<close>

theorem prune_loses_recovery:
  assumes "quiet w" and "wf_db (w_db w)" and "2 \<le> n"
    and "write_checkpoint c n run plan tasks refs w = (Inr e, w')"
    and "reads_back c e"
    and "n \<le> int (length (checkpoints_desc (rr_run_id run) (w_db w)))"
    and "\<forall>r \<in> set (take (nat n - 1) (checkpoints_desc (rr_run_id run) (w_db w))).
           parse_envelope c (ck_envelope_json r) = None"
  shows "\<forall>x w''. recover_latest c (rr_run_id run) w' \<noteq> (Inr x, w'')"
proof (intro allI notI)
  fix x w'' assume rec: "recover_latest c (rr_run_id run) w' = (Inr x, w'')"
  let ?r = "rr_run_id run"
  let ?old = "checkpoints_desc ?r (w_db w)"
  note W = write_description[OF assms(1-4)]
  have wa: "written_after c ?r (nat n) e (w_db w) (w_db w')" and q: "quiet w'" using W by blast+
  define m where "m = nat n - 1"
  have m: "nat n = Suc m" "m \<noteq> 0" using assms(3) unfolding m_def by auto
  have ne: "take m ?old \<noteq> []" "?old \<noteq> []" using assms(6) m assms(3) by auto
  have "checkpoints_desc ?r (w_db w') = checkpoint_row c e # take m ?old"
    using wa m unfolding written_after_def by simp
  then have p: "parsed_checkpoints c ?r (w_db w') = Some e # replicate (length (take m ?old)) None"
    using assms(5,7) m by (auto simp: parsed_checkpoints_def checkpoint_row_def reads_back_def
        intro!: replicate_eqI)
  have fp: "find_parent c e h (replicate k None) = Inr False" for h k by (induction k) auto
  have none: "\<not> newest_valid c (replicate k None) x" for k
  proof
    assume "newest_valid c (replicate k None) x"
    then have "Some x \<in> set (replicate k None)"
      unfolding newest_valid_def by (metis in_set_conv_decomp)
    then show False by simp
  qed
  obtain h where h: "ce_parent_hash e = Some h" using wa ne(2) unfolding written_after_def by auto
  have "recovered_from c ?r w' x" using outcomeD_val[OF frame_recover_latest rec] q by simp
  then have "newest_valid c (Some e # replicate (length (take m ?old)) None) x"
    unfolding recovered_from_def p .
  moreover have "chain_is_valid c (Some e # replicate (length (take m ?old)) None) = Inr False"
    using ne(1) h wa fp by (simp add: chain_is_valid.simps(3) written_after_def verifies_True[THEN iffD2])
  ultimately show False using none by (auto simp: newest_valid_Cons)
qed

section \<open>A concrete store\<close>

definition wit_run :: RunRecord where
  "wit_run = hd (db_runs lease_db)"

definition wit_payload :: CheckpointPayload where
  "wit_payload = checkpoint_payload wit_run example_plan [] no_refs"

definition wit_envelope :: "string \<Rightarrow> int \<Rightarrow> string option \<Rightarrow> CheckpointEnvelope" where
  "wit_envelope i n h = \<lparr>ce_checkpoint_id = i, ce_run_id = ''r'', ce_schema_version = 1,
     ce_sequence = n, ce_parent_hash = h, ce_payload = wit_payload,
     ce_payload_hash = replicate 64 (CHR ''0''), ce_created_at = 0\<rparr>"

definition wit_codec :: "CheckpointEnvelope list \<Rightarrow> codec" where
  "wit_codec es = \<lparr>sha256_of = (\<lambda>s. replicate 64 (CHR ''0'')), dump_envelope = ce_checkpoint_id,
     parse_envelope = (\<lambda>s. find (\<lambda>e. ce_checkpoint_id e = s) es)\<rparr>"

lemma wit_zeros: "is_sha256_hex (replicate 64 (CHR ''0''))"
  by code_simp

lemma wit_payload_eq: "wit_payload = \<lparr>cp_run_id = ''r'', cp_run_state = R_RUNNING,
     cp_active_task_id = None, cp_task_states = [], cp_completed_task_ids = [],
     cp_pending_task_ids = [], cp_plan_id = ''p'', cp_plan_version = 1, cp_context_ids = [],
     cp_summary_ids = [], cp_tool_calls = [], cp_artifact_ids = [], cp_evidence_ids = [],
     cp_retry_counters = [], cp_error = None, cp_repository_snapshot_id = None,
     cp_repository_manifest_hash = None, cp_configuration_fingerprint = ''f''\<rparr>"
  by (simp add: wit_payload_def checkpoint_payload_def wit_run_def lease_db_def no_refs_def
      example_plan_def py_dict_def map_filter_simps Let_def)

lemma wit_payload_valid: "valid_CheckpointPayload wit_payload"
  by (simp add: wit_payload_eq valid_CheckpointPayload_def task_sets_are_consistent_def no_nul_def
      no_nul_opt_def)

lemma wit_envelope_valid: "0 < n \<Longrightarrow> (h = None \<or> h = Some (replicate 64 (CHR ''0''))) \<Longrightarrow> no_nul i \<Longrightarrow>
   valid_CheckpointEnvelope (wit_envelope i n h)"
  using wit_zeros wit_payload_valid
  by (auto simp: valid_CheckpointEnvelope_def wit_envelope_def CURRENT_CHECKPOINT_SCHEMA_VERSION_def
      identifiers_agree_def wit_payload_eq no_nul_def)

lemma wit_create: "0 < n \<Longrightarrow> (h = None \<or> h = Some (replicate 64 (CHR ''0''))) \<Longrightarrow> no_nul i \<Longrightarrow>
   create_envelope (wit_codec es) i n wit_payload h 0 = Inr (wit_envelope i n h)"
  using wit_envelope_valid[of n h i]
  by (simp add: create_envelope_def checked_def wit_envelope_def wit_codec_def payload_digest_def
      CURRENT_CHECKPOINT_SCHEMA_VERSION_def wit_payload_eq)

lemma wit_verify: "verify_envelope (wit_codec es) (wit_envelope i n h) = Inr ()"
  by (simp add: verify_iff wit_envelope_def wit_codec_def payload_digest_def CURRENT_CHECKPOINT_SCHEMA_VERSION_def)

lemma wit_chain_hash: "chain_hash (wit_codec es) e = replicate 64 (CHR ''0'')"
  by (simp add: chain_hash_def wit_codec_def)

definition wit_db :: "CheckpointORM list \<Rightarrow> database" where
  "wit_db rows = lease_db\<lparr>db_checkpoints := rows\<rparr>"

lemma wit_gather:
  "gather_refs wit_run no_refs (quiet_world (wit_db rows)) = (Inr no_refs, (quiet_world (wit_db rows))\<lparr>w_txn := 5\<rparr>)"
  by (simp add: gather_refs_def wit_run_def lease_db_def empty_db_def no_refs_def bnd_def ret_def
      list_context_references_def list_tool_calls_def list_artifact_ids_def get_evidence_def
      latest_error_def query_def tx_def quiet_world_def crashed_def wit_db_def Let_def merge_ids_def
      calls_by_id_def py_dict_def order_by_desc_def map_filter_simps)

definition wit_id :: "nat \<Rightarrow> string" where
  "wit_id n = ''checkpoint-'' @ show_nat n"

lemma wit_id_eq: "wit_id 0 = ''checkpoint-0''" "wit_id 1 = ''checkpoint-1''" "wit_id (Suc 0) = ''checkpoint-1''"
  by code_simp+

lemma wit_no_nul: "no_nul (wit_id 0)" "no_nul (wit_id 1)" "no_nul ''first''"
  by (simp_all add: wit_id_eq no_nul_def)

lemma wit_wf: "distinct (map ck_checkpoint_id rows) \<Longrightarrow>
   distinct (map (\<lambda>c. (ck_run_id c, ck_sequence c)) rows) \<Longrightarrow> wf_db (wit_db rows)"
  using wf_lease_db by (simp add: wf_db_def wit_db_def)

lemma wit_desc_Nil: "checkpoints_desc ''r'' (wit_db []) = []"
  by (simp add: checkpoints_desc_def wit_db_def order_by_desc_def)

lemma wit_run_id: "rr_run_id wit_run = ''r''"
  by (simp add: wit_run_def lease_db_def)

lemma wit_db_sel [simp]: "db_checkpoints (wit_db rows) = rows" "run_exists ''r'' (wit_db rows)"
  "db_events (wit_db rows) = []" "(wit_db rows)\<lparr>db_checkpoints := rows'\<rparr> = wit_db rows'"
  by (simp_all add: wit_db_def lease_db_def empty_db_def run_exists_def)

lemma wit_envelope_sel [simp]: "ce_run_id (wit_envelope i n h) = ''r''" "ce_sequence (wit_envelope i n h) = n"
  "ce_parent_hash (wit_envelope i n h) = h" "ce_checkpoint_id (wit_envelope i n h) = i"
  by (simp_all add: wit_envelope_def)

lemma prune_quiet: "quiet w \<Longrightarrow> \<exists>p w'. prune_checkpoints r 2 w = (Inr p, w')"
proof -
  assume q: "quiet w"
  have "\<exists>p d'. prune_body r 2 (w_db w) = Inr (p, d')"
    by (cases "drop 1 (checkpoints_desc r (w_db w))") (simp_all add: prune_body_def Let_def)
  then show ?thesis using q by (auto simp: prune_checkpoints_def tx_quiet)
qed

lemma wit_write_first:
  "\<exists>w'. write_checkpoint (wit_codec es) 2 wit_run example_plan [] no_refs (quiet_world (wit_db [])) =
     (Inr (wit_envelope (wit_id 0) 1 None), w')"
proof -
  let ?c = "wit_codec es"
  let ?w = "quiet_world (wit_db [])"
  let ?e = "wit_envelope (wit_id 0) 1 None"
  have 2: "checkpoint_parent ?c ''r'' (?w\<lparr>w_txn := 5\<rparr>) = (Inr (0, None), ?w\<lparr>w_txn := 6\<rparr>)"
    by (simp add: checkpoint_parent_def list_checkpoint_json_def query_def tx_def bnd_def ret_def
        quiet_world_def crashed_def Let_def wit_desc_Nil)
  have 3: "create_envelope ?c (wit_id 0) 1 wit_payload None 0 = Inr ?e"
    by (rule wit_create) (simp_all add: wit_no_nul)
  have body: "append_body ?c ?e 0 (wit_db []) = Inr ((), wit_db [checkpoint_row ?c ?e])"
    by (simp add: append_body_def Let_def wit_desc_Nil)
  have 4: "append_checkpoint ?c ?e 0 (?w\<lparr>w_txn := 6, w_ids := 1, w_reads := 1\<rparr>) =
      (Inr (), ?w\<lparr>w_txn := 7, w_ids := 1, w_reads := 1, w_db := wit_db [checkpoint_row ?c ?e]\<rparr>)"
    using body by (simp add: append_checkpoint_def wit_verify on_db_error_def catch_def tx_def
        quiet_world_def crashed_def Let_def)
  have 5: "\<exists>i w'. publish ''r'' ty j None (?w\<lparr>w_txn := 7, w_ids := 1, w_reads := 1,
      w_db := wit_db [checkpoint_row ?c ?e]\<rparr>) = (Inr i, w') \<and> quiet w'" for ty j
    by (simp add: publish_def bnd_def ids_new_def clock_now_def numeral_eq_Suc catch_def tx_def
        quiet_world_def crashed_def Let_def publish_body_def get_event_def quiet_def)
  obtain i w8 where 8: "publish ''r'' ''checkpoint.written'' (JObj [(''checkpoint_id'', JStr (ce_checkpoint_id ?e)),
              (''sequence'', JInt (ce_sequence ?e))]) None (?w\<lparr>w_txn := 7, w_ids := 1, w_reads := 1,
      w_db := wit_db [checkpoint_row ?c ?e]\<rparr>) = (Inr i, w8)" "quiet w8"
    using 5 by blast
  obtain p w9 where 9: "prune_checkpoints ''r'' 2 w8 = (Inr p, w9)"
    using prune_quiet[OF 8(2)] by blast
  have ids: "ids_new ''checkpoint'' (?w\<lparr>w_txn := 6\<rparr>) = (Inr (wit_id 0), ?w\<lparr>w_txn := 6, w_ids := 1\<rparr>)"
    by (simp add: ids_new_def quiet_world_def wit_id_def)
  have clk: "clock_now (?w\<lparr>w_txn := 6, w_ids := 1\<rparr>) = (Inr 0, ?w\<lparr>w_txn := 6, w_ids := 1, w_reads := 1\<rparr>)"
    by (simp add: clock_now_def quiet_world_def)
  have act: "rr_active_task_id wit_run = None" by (simp add: wit_run_def lease_db_def)
  have pl: "checkpoint_payload wit_run example_plan [] no_refs = wit_payload" by (simp add: wit_payload_def)
  show ?thesis
    unfolding write_checkpoint_def bnd_def wit_run_id act
    using wit_gather[of "[]"] 2 3 4 8(1) 9 ids clk wit_payload_valid
    by (simp add: pl checked_def ret_def)
qed

lemma wit_codec_ok: "\<forall>e \<in> set es. valid_CheckpointEnvelope e \<Longrightarrow> codec_ok (wit_codec es)"
  by (auto simp: codec_ok_def wit_codec_def find_Some_iff)


text \<open>A store whose newest checkpoint is unreadable.\<close>

definition wit_garbage :: CheckpointORM where
  "wit_garbage = \<lparr>ck_checkpoint_id = ''second'', ck_run_id = ''r'', ck_schema_version = 1,
     ck_sequence = 2, ck_parent_hash = None, ck_payload_hash = [], ck_envelope_json = ''garbage'',
     ck_created_at = 0\<rparr>"

definition wit_hash :: "string option" where
  "wit_hash = Some (replicate 64 (CHR ''0''))"

definition wit_two :: "CheckpointEnvelope list" where
  "wit_two = [wit_envelope ''first'' 1 None, wit_envelope (wit_id 1) 3 wit_hash]"

definition wit_rows :: "CheckpointORM list" where
  "wit_rows = [checkpoint_row (wit_codec wit_two) (wit_envelope ''first'' 1 None), wit_garbage]"

lemma wit_rows_desc: "checkpoints_desc ''r'' (wit_db wit_rows) =
   [wit_garbage, checkpoint_row (wit_codec wit_two) (wit_envelope ''first'' 1 None)]"
  by (simp add: checkpoints_desc_def order_by_desc_def wit_rows_def wit_garbage_def checkpoint_row_def)

lemma wit_rows_parsed: "parsed_checkpoints (wit_codec wit_two) ''r'' (wit_db wit_rows) =
   [None, Some (wit_envelope ''first'' 1 None)]"
  by (simp add: parsed_checkpoints_def wit_rows_desc wit_garbage_def checkpoint_row_def wit_codec_def
      wit_two_def wit_id_eq)

lemma wit_rows_wf: "wf_db (wit_db wit_rows)"
  by (rule wit_wf) (simp_all add: wit_rows_def checkpoint_row_def wit_garbage_def)

lemma wit_verifies: "verifies (wit_codec es) (wit_envelope i n h) = Inr True"
  by (simp add: verifies_True wit_verify)

lemma wit_pick: "pick_valid (wit_codec wit_two) 0 [None, Some (wit_envelope ''first'' 1 None)] [] =
   Inr (Some (wit_envelope ''first'' 1 None), [rejection 0 None ''checkpoint JSON/schema is invalid''])"
  by (simp add: chain_is_valid.simps(3) wit_verifies)

text \<open>Publishing in a quiet world with a fresh identifier.\<close>

definition new_event :: "world \<Rightarrow> string \<Rightarrow> string \<Rightarrow> json \<Rightarrow> string option \<Rightarrow> EventORM" where
  "new_event w r ty j k = \<lparr>ev_event_id = ''event-'' @ w_uuid w (w_ids w), ev_run_id = r,
     ev_sequence = event_tip r (w_db w) + 1, ev_event_type = ty, ev_task_id = k, ev_payload = j,
     ev_created_at = w_clock w (w_reads w)\<rparr>"

lemma publish_quiet:
  assumes "quiet w" and "run_exists r (w_db w)"
    and "''event-'' @ w_uuid w (w_ids w) \<notin> ev_event_id ` set (db_events (w_db w))"
  shows "publish r ty j k w = (Inr (''event-'' @ w_uuid w (w_ids w)),
     w\<lparr>w_ids := Suc (w_ids w), w_reads := Suc (w_reads w), w_txn := Suc (w_txn w),
       w_db := (w_db w)\<lparr>db_events := db_events (w_db w) @ [new_event w r ty j k]\<rparr>\<rparr>)"
proof -
  have "get_event (''event-'' @ w_uuid w (w_ids w)) (w_db w) = None"
    using assms(3) by (auto simp: get_event_def table_simps image_iff)
  then show ?thesis
    using assms(1,2) by (simp add: publish_def bnd_def ids_new_def clock_now_def numeral_eq_Suc
        catch_def tx_quiet publish_body_def new_event_def)
qed

definition wit_world :: world where
  "wit_world = (quiet_world (wit_db wit_rows))\<lparr>w_clock := (\<lambda>n. 0)\<rparr>"

lemma wit_world_sel [simp]: "quiet wit_world" "w_db wit_world = wit_db wit_rows" "w_ids wit_world = 0"
  "w_reads wit_world = 0" "w_clock wit_world = (\<lambda>n. 0)" "w_uuid wit_world = show_nat" "w_txn wit_world = 0"
  by (simp_all add: wit_world_def quiet_def quiet_world_def)

lemma wit_recover:
  assumes w: "w = wit_world\<lparr>w_txn := n\<rparr>"
  shows "\<exists>w'. recover_latest (wit_codec wit_two) ''r'' w = (Inr (wit_envelope ''first'' 1 None), w') \<and>
     quiet w' \<and> w_ids w' = 1 \<and> w_uuid w' = show_nat \<and> w_clock w' = (\<lambda>n. 0) \<and>
     (\<exists>e. w_db w' = (wit_db wit_rows)\<lparr>db_events := [e]\<rparr> \<and> ev_event_id e = ''event-'' @ show_nat 0)"
proof -
  let ?c = "wit_codec wit_two"
  let ?w1 = "w\<lparr>w_txn := Suc n\<rparr>"
  let ?raw = "map ck_envelope_json (checkpoints_desc ''r'' (wit_db wit_rows))"
  let ?j = "JObj [(''selected_checkpoint_id'', JStr ''first''), (''selected_sequence'', JInt 1),
        (''rejected'', JArr [rejection 0 None ''checkpoint JSON/schema is invalid''])]"
  have p: "map (parse_envelope ?c) ?raw = [None, Some (wit_envelope ''first'' 1 None)]"
    using wit_rows_parsed by (simp add: parsed_checkpoints_def comp_def)
  have ne: "?raw \<noteq> []" by (simp add: wit_rows_desc)
  have l: "list_checkpoint_json ''r'' w = (Inr ?raw, ?w1)"
    by (simp add: list_checkpoint_json_def query_quiet w)
  have pub: "publish ''r'' ''checkpoint.recovered'' ?j None ?w1 = (Inr (''event-'' @ show_nat 0),
      ?w1\<lparr>w_ids := 1, w_reads := 1, w_txn := Suc (Suc n),
        w_db := (wit_db wit_rows)\<lparr>db_events := [new_event ?w1 ''r'' ''checkpoint.recovered'' ?j None]\<rparr>\<rparr>)"
    by (subst publish_quiet) (simp_all add: w)
  let ?e = "new_event ?w1 ''r'' ''checkpoint.recovered'' ?j None"
  let ?w' = "?w1\<lparr>w_ids := 1, w_reads := 1, w_txn := Suc (Suc n),
        w_db := (wit_db wit_rows)\<lparr>db_events := [?e]\<rparr>\<rparr>"
  have "recover_latest ?c ''r'' w = (Inr (wit_envelope ''first'' 1 None), ?w')"
    using l ne p wit_pick pub
    by (simp add: recover_latest_def bnd_def lift_sum_def ret_def del: map_map pick_valid.simps)
  then show ?thesis
    by (intro exI[of _ ?w'] exI[of _ ?e] conjI) (simp_all add: w new_event_def)
qed


lemma wit_gather_world: "gather_refs wit_run no_refs wit_world = (Inr no_refs, wit_world\<lparr>w_txn := 5\<rparr>)"
  by (simp add: gather_refs_def wit_run_def lease_db_def empty_db_def no_refs_def bnd_def ret_def
      list_context_references_def list_tool_calls_def list_artifact_ids_def get_evidence_def
      latest_error_def query_quiet wit_db_def Let_def merge_ids_def calls_by_id_def py_dict_def
      order_by_desc_def map_filter_simps)

lemma wit_append:
  assumes "d = (wit_db wit_rows)\<lparr>db_events := es\<rparr>"
  shows "\<exists>d'. append_body (wit_codec wit_two) (wit_envelope (wit_id 1) 3 wit_hash) 2 d = Inr ((), d') \<and>
    db_events d' = es \<and> run_exists ''r'' d'"
proof -
  let ?c = "wit_codec wit_two"
  have desc: "checkpoints_desc ''r'' d = [wit_garbage, checkpoint_row ?c (wit_envelope ''first'' 1 None)]"
    using desc_ckpt[of d "wit_db wit_rows" "''r''"] assms wit_rows_desc by simp
  have "from_untrusted_json ?c ''garbage'' = Inl PydanticValidationError"
    by (simp add: from_untrusted_json_def wit_codec_def wit_two_def wit_id_eq)
  moreover have "from_untrusted_json ?c ''first'' = Inr (wit_envelope ''first'' 1 None)"
    by (simp add: from_untrusted_json_Inr wit_verify) (simp add: wit_codec_def wit_two_def)
  moreover have "ck_envelope_json wit_garbage = ''garbage''"
    "ck_envelope_json (checkpoint_row ?c (wit_envelope ''first'' 1 None)) = ''first''"
    by (simp_all add: wit_garbage_def checkpoint_row_def) (simp add: wit_codec_def)
  ultimately have "parent_found ?c wit_hash (map ck_envelope_json (checkpoints_desc ''r'' d))"
    unfolding desc by (simp add: wit_chain_hash wit_hash_def)
  then show ?thesis
    using desc by (simp add: append_body_def Let_def assms run_exists_def wit_rows_def wit_garbage_def
        checkpoint_row_def wit_id_eq wit_db_def lease_db_def)
qed

lemma wit_write_third:
  "\<exists>w'. write_checkpoint (wit_codec wit_two) 2 wit_run example_plan [] no_refs wit_world =
     (Inr (wit_envelope (wit_id 1) 3 wit_hash), w')"
proof -
  let ?c = "wit_codec wit_two"
  let ?e = "wit_envelope (wit_id 1) 3 wit_hash"
  let ?w6 = "wit_world\<lparr>w_txn := 6\<rparr>"
  obtain w2 ev where rec: "recover_latest ?c ''r'' ?w6 = (Inr (wit_envelope ''first'' 1 None), w2)"
    and w2: "quiet w2" "w_ids w2 = 1" "w_uuid w2 = show_nat" "w_clock w2 = (\<lambda>n. 0)"
      "w_db w2 = (wit_db wit_rows)\<lparr>db_events := [ev]\<rparr>" "ev_event_id ev = ''event-'' @ show_nat 0"
    using wit_recover[of ?w6 6] by auto
  let ?w3 = "w2\<lparr>w_txn := Suc (w_txn w2)\<rparr>"
  let ?w4 = "?w3\<lparr>w_ids := 2, w_reads := Suc (w_reads w2)\<rparr>"
  have tip: "tip ck_run_id ck_sequence ''r'' wit_rows = 2"
    by (simp add: wit_rows_def tip_def col_max_def checkpoint_row_def wit_garbage_def)
  have raw: "list_checkpoint_json ''r'' (wit_world\<lparr>w_txn := 5\<rparr>) =
      (Inr (map ck_envelope_json (checkpoints_desc ''r'' (wit_db wit_rows))), ?w6)"
    by (simp add: list_checkpoint_json_def query_quiet)
  have 2: "checkpoint_parent ?c ''r'' (wit_world\<lparr>w_txn := 5\<rparr>) = (Inr (2, wit_hash), ?w3)"
    using rec tip wit_rows_desc raw w2
    by (simp add: checkpoint_parent_def checkpoint_tip_sequence_def query_quiet
        bnd_def ret_def wit_chain_hash wit_hash_def)
  have 3: "create_envelope ?c (wit_id 1) 3 wit_payload wit_hash 0 = Inr ?e"
    by (rule wit_create) (simp_all add: wit_id_eq no_nul_def wit_hash_def)
  obtain d' where body: "append_body ?c ?e 2 (w_db ?w4) = Inr ((), d')" "db_events d' = [ev]" "run_exists ''r'' d'"
    using wit_append[of "w_db ?w4" "[ev]"] w2 by auto
  let ?w5 = "?w4\<lparr>w_txn := Suc (Suc (w_txn w2)), w_db := d'\<rparr>"
  have 4: "append_checkpoint ?c ?e 2 ?w4 = (Inr (), ?w5)"
    using body(1) w2(1) by (simp add: append_checkpoint_def wit_verify on_db_error_def catch_def tx_quiet)
  have fresh: "''event-'' @ show_nat 2 \<noteq> ''event-'' @ show_nat 0" by code_simp
  have "\<exists>i w8. publish ''r'' ''checkpoint.written'' (JObj [(''checkpoint_id'', JStr (ce_checkpoint_id ?e)),
              (''sequence'', JInt (ce_sequence ?e))]) None ?w5 = (Inr i, w8) \<and> quiet w8"
    by (subst publish_quiet) (use w2 body fresh in simp_all)
  then obtain i w8 where 8: "publish ''r'' ''checkpoint.written'' (JObj [(''checkpoint_id'', JStr (ce_checkpoint_id ?e)),
              (''sequence'', JInt (ce_sequence ?e))]) None ?w5 = (Inr i, w8)" "quiet w8"
    by blast
  obtain p w9 where 9: "prune_checkpoints ''r'' 2 w8 = (Inr p, w9)"
    using prune_quiet[OF 8(2)] by blast
  have ids: "ids_new ''checkpoint'' ?w3 = (Inr (wit_id 1), ?w3\<lparr>w_ids := 2\<rparr>)"
    using w2 by (simp add: ids_new_def wit_id_def)
  have clk: "clock_now (?w3\<lparr>w_ids := 2\<rparr>) = (Inr 0, ?w4)"
    using w2 by (simp add: clock_now_def)
  have act: "rr_active_task_id wit_run = None" by (simp add: wit_run_def lease_db_def)
  have pl: "checkpoint_payload wit_run example_plan [] no_refs = wit_payload" by (simp add: wit_payload_def)
  show ?thesis
    unfolding write_checkpoint_def bnd_def wit_run_id act
    using wit_gather_world 2 3 4 8(1) 9 ids clk wit_payload_valid
    by (simp add: pl checked_def ret_def)
qed

lemma prune_loses_recovery_witness:
  "\<exists>e w'. write_checkpoint (wit_codec wit_two) 2 wit_run example_plan [] no_refs wit_world = (Inr e, w') \<and>
     (\<forall>x w''. recover_latest (wit_codec wit_two) ''r'' w' \<noteq> (Inr x, w''))"
proof -
  let ?c = "wit_codec wit_two"
  let ?e = "wit_envelope (wit_id 1) 3 wit_hash"
  obtain w' where w: "write_checkpoint ?c 2 wit_run example_plan [] no_refs wit_world = (Inr ?e, w')"
    using wit_write_third by blast
  have wf: "wf_db (w_db wit_world)" using wit_rows_wf by simp
  have rb: "reads_back ?c ?e" by (simp add: reads_back_def wit_codec_def wit_two_def wit_id_eq)
  have "\<forall>x w''. recover_latest ?c (rr_run_id wit_run) w' \<noteq> (Inr x, w'')"
  proof (rule prune_loses_recovery[OF _ wf _ w rb])
    show "2 \<le> int (length (checkpoints_desc (rr_run_id wit_run) (w_db wit_world)))"
      by (simp add: wit_run_id wit_rows_desc)
    show "\<forall>r \<in> set (take (nat 2 - 1) (checkpoints_desc (rr_run_id wit_run) (w_db wit_world))).
        parse_envelope ?c (ck_envelope_json r) = None"
      by (simp add: wit_run_id wit_rows_desc wit_garbage_def wit_codec_def wit_two_def wit_id_eq)
  qed simp_all
  then show ?thesis using w by (auto simp: wit_run_id)
qed

end
