(* ===== verification/Tool_Execution.thy ===== *)
theory Tool_Execution
  imports Store_Tools
begin

text \<open>
  \<open>tools/registry.py\<close> and \<open>tools/executor.py\<close>: a tool call is validated, its intent is journalled,
  the tool body runs, its output is bounded and redacted, and the result is journalled.

  A tool is an object behind the protocol \<open>Tool\<close>; its body and its reconciliation are programs of
  their own (some tools use the store). What the lemmas ask of them is \<open>well_behaved\<close>: they use the
  store through its operations and start no other tool. JSON Schema validation, the redactor the
  constructor injects, and the hash function are the parameters of \<open>tool_env\<close>.
\<close>

section \<open>Registry and policy\<close>

record tool =
  tool_definition :: ToolDefinition
  tool_body :: "json \<Rightarrow> json io"
  tool_reconcile :: "ToolCall \<Rightarrow> ToolResult option io"

type_synonym ToolRegistry = "tool list"

definition tool_name :: "tool \<Rightarrow> string" where
  "tool_name t = td_name (tool_definition t)"

definition register :: "tool \<Rightarrow> ToolRegistry \<Rightarrow> exn + ToolRegistry" where
  "register t registry =
     (if tool_name t \<in> tool_name ` set registry then Inl ValueError else Inr (registry @ [t]))"

definition get_tool :: "string \<Rightarrow> ToolRegistry \<Rightarrow> exn + tool" where
  "get_tool name registry =
     (case find (\<lambda>t. tool_name t = name) registry of
        None \<Rightarrow> Inl (Durable NotFoundError) | Some t \<Rightarrow> Inr t)"

definition tool_definitions :: "ToolRegistry \<Rightarrow> ToolDefinition list" where
  "tool_definitions registry = map tool_definition (sort_key tool_name registry)"

record ToolPolicy =
  tp_allowed_permissions :: "string set"
  tp_approved_high_impact_tools :: "string set"
  tp_maximum_output_bytes :: nat

record tool_env =
  te_schema_ok :: "json \<Rightarrow> bool"
  te_instance_ok :: "json \<Rightarrow> json \<Rightarrow> bool"
  te_redact :: "json \<Rightarrow> json"
  te_sha256 :: "string \<Rightarrow> string"

definition check_policy :: "ToolPolicy \<Rightarrow> ToolDefinition \<Rightarrow> exn + unit" where
  "check_policy policy def =
     (if td_required_permissions def - tp_allowed_permissions policy \<noteq> {}
      then Inl (Durable SecurityPolicyError)
      else if td_side_effect_class def = NON_IDEMPOTENT
        \<and> td_name def \<notin> tp_approved_high_impact_tools policy
      then Inl (Durable SecurityPolicyError) else Inr ())"

definition validate_schema :: "tool_env \<Rightarrow> json \<Rightarrow> json \<Rightarrow> exn + unit" where
  "validate_schema env schema value =
     (if \<not> te_schema_ok env schema then Inl (Durable ToolExecutionError)
      else if \<not> te_instance_ok env schema value then Inl (Durable ToolExecutionError) else Inr ())"

definition bound_output :: "ToolPolicy \<Rightarrow> json \<Rightarrow> json \<times> bool" where
  "bound_output policy value =
     (let v = (case value of JObj kvs \<Rightarrow> value | _ \<Rightarrow> JObj [(''value'', value)]);
          serialized = utf8 (canonical_json v);
          n = tp_maximum_output_bytes policy in
      if length serialized \<le> n then (v, False)
      else (JObj [(''truncated'', JBool True), (''original_bytes'', JInt (int (length serialized))),
                  (''preview'', JStr (utf8_decode (take n serialized)))], True))"

text \<open>\<open>output.get("exit_code")\<close> when it is an \<open>int\<close>; a \<open>bool\<close> is one, and is stored as 0 or 1.\<close>

fun exit_code_of :: "json \<Rightarrow> int option" where
  "exit_code_of output = (case jget ''exit_code'' output of
     Some (JInt i) \<Rightarrow> Some i | Some (JBool b) \<Rightarrow> Some (if b then 1 else 0) | _ \<Rightarrow> None)"

section \<open>Execution\<close>

text \<open>
  The start of a tool body is a step of its own and goes into the history of effects. A dead
  process takes no step.
\<close>

definition run_tool_body :: "string \<Rightarrow> 'a io \<Rightarrow> 'a io" where
  "run_tool_body call_id body = (\<lambda>w. if crashed w then (Inl Crash, w)
     else body (w\<lparr>w_txn := Suc (w_txn w), w_effects := w_effects w @ [call_id]\<rparr>))"

text \<open>\<open>except Exception\<close> around a tool body: what is not of the taxonomy becomes a tool error.\<close>

definition tool_failed :: "string \<Rightarrow> exn \<Rightarrow> 'a io" where
  "tool_failed call_id e =
     (if e = Crash then raise e
      else bnd (update_status call_id TC_FAILED) (\<lambda>_.
        case e of Durable c \<Rightarrow> raise e | _ \<Rightarrow> raise (Durable ToolExecutionError)))"

definition tool_output :: "tool_env \<Rightarrow> ToolPolicy \<Rightarrow> tool \<Rightarrow> string \<Rightarrow> json \<Rightarrow> (json \<times> bool) io" where
  "tool_output env policy t call_id arguments =
     bnd (run_tool_body call_id (tool_body t arguments)) (\<lambda>raw.
     bnd (lift_sum (validate_schema env (td_output_schema (tool_definition t)) raw)) (\<lambda>_.
       ret (bound_output policy (te_redact env raw))))"

definition tool_result :: "tool_env \<Rightarrow> string \<Rightarrow> time \<Rightarrow> json \<times> bool \<Rightarrow> ToolResult io" where
  "tool_result env call_id started bounded =
     bnd (ids_new ''toolresult'') (\<lambda>result_id.
     bnd clock_now (\<lambda>ended.
     bnd clock_now (\<lambda>created.
       lift_sum (checked valid_ToolResult
         \<lparr>tl_tool_result_id = result_id, tl_tool_call_id = call_id, tl_success = True,
          tl_output = fst bounded,
          tl_output_hash = te_sha256 env (canonical_json (fst bounded)),
          tl_exit_code = exit_code_of (fst bounded), tl_truncated = snd bounded,
          tl_duration_seconds = max (of_int (ended - started) / 1000000) 0,
          tl_created_at = created\<rparr>))))"

definition run_call :: "tool_env \<Rightarrow> ToolPolicy \<Rightarrow> tool \<Rightarrow> string \<Rightarrow> json \<Rightarrow> ToolResult io" where
  "run_call env policy t call_id arguments =
     bnd (update_status call_id TC_RUNNING) (\<lambda>_.
     bnd clock_now (\<lambda>started.
     bnd (catch (tool_output env policy t call_id arguments) (tool_failed call_id)) (\<lambda>bounded.
     bnd (tool_result env call_id started bounded) (\<lambda>result.
     bnd (record_result result) (\<lambda>_. ret result)))))"

definition new_call :: "ToolDefinition \<Rightarrow> string \<Rightarrow> string \<Rightarrow> json \<Rightarrow> string \<Rightarrow> string \<Rightarrow> ToolCall io" where
  "new_call def run_id task_id arguments arguments_hash key =
     bnd (ids_new ''toolcall'') (\<lambda>call_id.
     bnd clock_now (\<lambda>now.
       lift_sum (checked valid_ToolCall
         \<lparr>tc_tool_call_id = call_id, tc_run_id = run_id, tc_task_id = task_id,
          tc_tool_name = td_name def, tc_arguments = arguments, tc_arguments_hash = arguments_hash,
          tc_idempotency_key = key, tc_side_effect_class = td_side_effect_class def,
          tc_status = INTENT_RECORDED, tc_attempt = 1, tc_created_at = now,
          tc_started_at = None, tc_finished_at = None\<rparr>)))"

text \<open>\<open>claim_call\<close> is the part of \<open>execute\<close> between validation and the tool body: a recorded result,
  or the identifier of the call that may now run.\<close>

definition claim_call ::
  "ToolDefinition \<Rightarrow> string \<Rightarrow> string \<Rightarrow> json \<Rightarrow> string \<Rightarrow> string \<Rightarrow> (ToolResult + string) io" where
  "claim_call def run_id task_id arguments arguments_hash key =
     bnd (get_by_idempotency_key key) (\<lambda>existing. case existing of
         Some (call, result) \<Rightarrow>
           if tc_tool_name call \<noteq> td_name def \<or> tc_arguments_hash call \<noteq> arguments_hash
           then raise (Durable SecurityPolicyError)
           else (case result of
               Some r \<Rightarrow> ret (Inl r)
             | None \<Rightarrow>
                 if tc_status call = TC_FAILED \<and> td_retry_safe def
                 then bnd (prepare_retry (tc_tool_call_id call)) (\<lambda>_. ret (Inr (tc_tool_call_id call)))
                 else raise (Durable ManualReviewRequiredError))
       | None \<Rightarrow>
           bnd (new_call def run_id task_id arguments arguments_hash key) (\<lambda>call.
           bnd (record_intent call) (\<lambda>_. ret (Inr (tc_tool_call_id call)))))"

definition execute ::
  "tool_env \<Rightarrow> ToolPolicy \<Rightarrow> ToolRegistry \<Rightarrow> string \<Rightarrow> string \<Rightarrow> string \<Rightarrow> json \<Rightarrow> string \<Rightarrow>
   ToolResult io" where
  "execute env policy registry run_id task_id name arguments key =
     bnd (lift_sum (get_tool name registry)) (\<lambda>t. let def = tool_definition t in
     bnd (lift_sum (check_policy policy def)) (\<lambda>_.
     bnd (lift_sum (validate_schema env (td_input_schema def) arguments)) (\<lambda>_.
     bnd (claim_call def run_id task_id arguments (te_sha256 env (canonical_json arguments)) key) (\<lambda>c.
       case c of Inl result \<Rightarrow> ret result
       | Inr call_id \<Rightarrow> run_call env policy t call_id arguments))))"

section \<open>Reconciliation\<close>

definition reconcile_call :: "ToolRegistry \<Rightarrow> ToolResult list \<Rightarrow> ToolCall \<Rightarrow> ToolResult list io" where
  "reconcile_call registry reconciled call =
     bnd (lift_sum (get_tool (tc_tool_name call) registry)) (\<lambda>t.
     bnd (tool_reconcile t call) (\<lambda>result. case result of
         Some r \<Rightarrow> bnd (record_result r) (\<lambda>_. ret (reconciled @ [r]))
       | None \<Rightarrow>
           if tc_side_effect_class call = NON_IDEMPOTENT then
             bnd (update_status (tc_tool_call_id call) NEEDS_REVIEW) (\<lambda>_.
               raise (Durable ManualReviewRequiredError))
           else if \<not> td_retry_safe (tool_definition t) then
             bnd (update_status (tc_tool_call_id call) NEEDS_REVIEW) (\<lambda>_.
               raise (Durable ManualReviewRequiredError))
           else bnd (update_status (tc_tool_call_id call) TC_FAILED) (\<lambda>_. ret reconciled)))"

definition reconcile_uncertain :: "ToolRegistry \<Rightarrow> string \<Rightarrow> ToolResult list io" where
  "reconcile_uncertain registry run_id =
     bnd (uncertain_calls run_id) (foldA (reconcile_call registry) [])"

section \<open>What is asked of the tools\<close>

definition same_effects :: "world \<Rightarrow> world \<Rightarrow> bool" where
  "same_effects w w' \<longleftrightarrow> w_effects w' = w_effects w"

interpretation eff: evolution same_effects
  by unfold_locales (simp_all add: same_effects_def)

definition well_behaved :: "ToolRegistry \<Rightarrow> bool" where
  "well_behaved registry \<longleftrightarrow> (\<forall>t \<in> set registry.
     (\<forall>args w. outcome durable (\<lambda>_ _. True) w (tool_body t args) \<and>
        outcome same_effects (\<lambda>_ _. True) w (tool_body t args)) \<and>
     (\<forall>call w. outcome durable (\<lambda>_ _. True) w (tool_reconcile t call) \<and>
        outcome same_effects (\<lambda>_ _. True) w (tool_reconcile t call)))"

lemma get_tool_InrD: "get_tool name registry = Inr t \<Longrightarrow> t \<in> set registry \<and> tool_name t = name"
  by (auto simp: get_tool_def find_Some_iff split: option.splits)

section \<open>Durability\<close>

lemma out_run_tool_body:
  assumes "\<And>w. outcome durable (\<lambda>_ _. True) w body"
  shows "outcome durable (\<lambda>_ _. True) w (run_tool_body c body)"
proof (rule outcomeI)
  fix x w' assume run: "run_tool_body c body w = (x, w')"
  let ?w = "w\<lparr>w_txn := Suc (w_txn w), w_effects := w_effects w @ [c]\<rparr>"
  have "durable ?w w'" if "\<not> crashed w"
    using that run outcomeD[OF assms, of ?w] by (simp add: run_tool_body_def)
  moreover have "w' = w" if "crashed w" using that run by (simp add: run_tool_body_def)
  ultimately show "durable w w' \<and> (\<forall>v. x = Inr v \<longrightarrow> True)"
    by (cases "crashed w") (auto simp: durable_def)
qed

lemma out_tool_failed [outcome_intros]: "outcome durable (\<lambda>_ _. True) w (tool_failed c e)"
  unfolding tool_failed_def
  by (auto intro!: dur.out_raise dur.out_bnd[OF out_update_status] split: exn.split)

lemma out_tool_output:
  assumes "well_behaved registry" and "t \<in> set registry"
  shows "outcome durable (\<lambda>_ _. True) w (tool_output env policy t c args)"
  unfolding tool_output_def
  using assms by (intro dur.out_bnd[OF out_run_tool_body] dur.out_bnd_lift dur.out_ret)
    (simp_all add: well_behaved_def)

lemma out_tool_result [outcome_intros]:
  "outcome durable (\<lambda>_ _. True) w (tool_result env c started b)"
  unfolding tool_result_def
  by (intro dur.out_bnd[OF out_ids] dur.out_bnd[OF out_clock] dur.out_lift) simp

lemma out_run_call:
  assumes "well_behaved registry" and "t \<in> set registry"
  shows "outcome durable (\<lambda>_ _. True) w (run_call env policy t c args)"
  unfolding run_call_def
  by (intro dur.out_bnd[OF out_update_status] dur.out_bnd[OF out_clock]
      dur.out_bnd[OF dur.out_catch[OF out_tool_output[OF assms] out_tool_failed]]
      dur.out_bnd[OF out_tool_result] dur.out_bnd[OF out_record_result] dur.out_ret) simp

lemma out_new_call [outcome_intros]:
  "outcome durable (\<lambda>_ _. True) w (new_call def run_id task_id args h key)"
  unfolding new_call_def
  by (intro dur.out_bnd[OF out_ids] dur.out_bnd[OF out_clock] dur.out_lift) simp

lemma out_claim_call [outcome_intros]:
  "outcome durable (\<lambda>_ _. True) w (claim_call def run_id task_id args h key)"
  unfolding claim_call_def
  by (intro dur.out_bnd[OF out_get_by_idempotency_key])
    (auto split: option.split intro!: dur.out_raise dur.out_ret dur.out_bnd[OF out_prepare_retry]
      dur.out_bnd[OF out_new_call] dur.out_bnd[OF out_record_intent])

lemma out_execute:
  assumes "well_behaved registry"
  shows "outcome durable (\<lambda>_ _. True) w (execute env policy registry run_id task_id name args key)"
  unfolding execute_def Let_def
  by (intro dur.out_bnd_lift dur.out_bnd[OF out_claim_call])
    (auto split: sum.split intro: dur.out_ret out_run_call[OF assms] dest: get_tool_InrD)

lemma out_reconcile_call:
  assumes "well_behaved registry"
  shows "outcome durable (\<lambda>_ _. True) w (reconcile_call registry rs call)"
  unfolding reconcile_call_def
proof (rule dur.out_bnd_lift)
  fix t assume "get_tool (tc_tool_name call) registry = Inr t"
  then have "t \<in> set registry" by (simp add: get_tool_InrD)
  then have "outcome durable (\<lambda>_ _. True) w (tool_reconcile t call)"
    using assms by (simp add: well_behaved_def)
  then show "outcome durable (\<lambda>_ _. True) w (bnd (tool_reconcile t call) (\<lambda>result. case result of
         Some r \<Rightarrow> bnd (record_result r) (\<lambda>_. ret (rs @ [r]))
       | None \<Rightarrow>
           if tc_side_effect_class call = NON_IDEMPOTENT then
             bnd (update_status (tc_tool_call_id call) NEEDS_REVIEW) (\<lambda>_.
               raise (Durable ManualReviewRequiredError))
           else if \<not> td_retry_safe (tool_definition t) then
             bnd (update_status (tc_tool_call_id call) NEEDS_REVIEW) (\<lambda>_.
               raise (Durable ManualReviewRequiredError))
           else bnd (update_status (tc_tool_call_id call) TC_FAILED) (\<lambda>_. ret rs)))"
    by (rule dur.out_bnd) (auto split: option.split intro!: dur.out_raise dur.out_ret
        dur.out_bnd[OF out_record_result] dur.out_bnd[OF out_update_status])
qed

lemma out_reconcile_uncertain:
  assumes "well_behaved registry"
  shows "outcome durable (\<lambda>_ _. True) w (reconcile_uncertain registry run_id)"
  unfolding reconcile_uncertain_def
  by (intro dur.out_bnd[OF out_uncertain_calls] dur.out_foldA out_reconcile_call[OF assms]) simp

end
