(* ===== verification/Tool_Safety.thy ===== *)
theory Tool_Safety
  imports Tool_Execution
begin

text \<open>
  What the tool journal guarantees to the executor of \<open>Tool_Execution\<close>, whatever other processes
  commit and wherever the process dies: an effect has a journalled intent, a call that is not
  retry-safe has at most one effect, a recorded result is returned for ever, and reconciliation
  decides every uncertain call without starting a tool body.
\<close>

section \<open>What the journal remembers\<close>

lemma call_by_key_SomeD: "call_by_key key d = Some c \<Longrightarrow> c \<in> set (db_tool_calls d) \<and> tc_idempotency_key c = key"
  unfolding call_by_key_def by (rule tbl_get_SomeD)

lemma call_by_key_in:
  "wf_db d \<Longrightarrow> c \<in> set (db_tool_calls d) \<Longrightarrow> call_by_key (tc_idempotency_key c) d = Some c"
  unfolding call_by_key_def by (rule tbl_get_in) (simp_all add: wf_db_def)

lemma result_of_in: "wf_db d \<Longrightarrow> r \<in> set (db_tool_results d) \<Longrightarrow> result_of (tl_tool_call_id r) d = Some r"
  unfolding result_of_def by (rule tbl_get_in) (simp_all add: wf_db_def)

lemma result_of_SomeD: "result_of c d = Some r \<Longrightarrow> r \<in> set (db_tool_results d) \<and> tl_tool_call_id r = c"
  unfolding result_of_def by (rule tbl_get_SomeD)

text \<open>A journalled call stays, with its identity; so does its result.\<close>

lemma call_by_key_evolves:
  assumes "wf_db d" and "evolves d d'" and "call_by_key key d = Some c"
  shows "\<exists>c'. call_by_key key d' = Some c' \<and> tool_call_step c c'"
proof -
  have "rows_step tool_call_step (db_tool_calls d) (db_tool_calls d')" "wf_db d'"
    using assms(1,2) by (simp_all add: evolves_def tables_step_def)
  moreover have "c \<in> set (db_tool_calls d)" "tc_idempotency_key c = key"
    using call_by_key_SomeD[OF assms(3)] by simp_all
  ultimately obtain c' where "c' \<in> set (db_tool_calls d')" "tool_call_step c c'"
    by (auto simp: rows_step_def)
  moreover have "tc_idempotency_key c' = key"
    using \<open>tool_call_step c c'\<close> \<open>tc_idempotency_key c = key\<close> by (simp add: tool_call_step_def)
  ultimately show ?thesis using call_by_key_in[OF \<open>wf_db d'\<close>] by blast
qed

lemma result_of_evolves:
  assumes "wf_db d" and "evolves d d'" and "result_of c d = Some r"
  shows "result_of c d' = Some r"
proof -
  have "keeps_rows (db_tool_results d) (db_tool_results d')" "wf_db d'"
    using assms(1,2) by (simp_all add: evolves_def tables_step_def)
  then show ?thesis using result_of_SomeD[OF assms(3)] result_of_in[of d' r]
    by (auto simp: keeps_rows_def)
qed

definition key_attempts :: "string \<Rightarrow> database \<Rightarrow> int" where
  "key_attempts key d = (case call_by_key key d of None \<Rightarrow> 0 | Some c \<Rightarrow> tc_attempt c)"

definition journalled :: "string \<Rightarrow> string \<Rightarrow> string \<Rightarrow> string \<Rightarrow> ToolCall \<Rightarrow> database \<Rightarrow> bool" where
  "journalled key name arguments_hash call_id c d \<longleftrightarrow> call_by_key key d = Some c \<and>
     tc_tool_call_id c = call_id \<and> tc_tool_name c = name \<and>
     tc_arguments_hash c = arguments_hash \<and> valid_ToolCall c"

lemma journalled_evolves:
  assumes "wf_db d" and "evolves d d'" and "journalled key name h i c d"
  shows "\<exists>c'. journalled key name h i c' d' \<and> tc_attempt c \<le> tc_attempt c'"
proof -
  obtain c' where "call_by_key key d' = Some c'" "tool_call_step c c'"
    using call_by_key_evolves[OF assms(1,2)] assms(3) unfolding journalled_def by blast
  then show ?thesis using assms(3)
    by (auto simp: journalled_def tool_call_step_def valid_ToolCall_def intro!: exI[of _ c'])
qed

lemma call_by_key_None_evolves:
  "wf_db d \<Longrightarrow> evolves d d' \<Longrightarrow> call_by_key key d' = None \<Longrightarrow> call_by_key key d = None"
  using call_by_key_evolves[of d d' key] by (cases "call_by_key key d") auto

section \<open>What claiming a call and running it establish\<close>

lemma out_get_by_key:
  "outcome durable (\<lambda>e w'. good w \<longrightarrow> (case e of None \<Rightarrow> call_by_key key (w_db w') = None
     | Some (c, r) \<Rightarrow> call_by_key key (w_db w') = Some c \<and> valid_ToolCall c \<and>
         result_of (tc_tool_call_id c) (w_db w') = r \<and> (case r of None \<Rightarrow> True | Some x \<Rightarrow> valid_ToolResult x)))
     w (get_by_idempotency_key key)"
  unfolding get_by_idempotency_key_def query_def
  by (rule out_tx) (auto split: option.splits sum.splits
      simp: tool_call_from_row_def tool_result_from_row_def)

lemma out_record_intent_val:
  "outcome durable (\<lambda>_ w'. good w \<longrightarrow> call_by_key (tc_idempotency_key c) (w_db w') = Some c)
     w (record_intent c)"
  unfolding record_intent_def
proof (intro out_on_integrity_error dur.out_raise out_tx, goal_cases)
  case (1 d d' x)
  have fresh: "tc_tool_call_id c \<notin> tc_tool_call_id ` set (db_tool_calls d)"
      "tc_idempotency_key c \<notin> tc_idempotency_key ` set (db_tool_calls d)"
    and d': "d' = d\<lparr>db_tool_calls := db_tool_calls d @ [c]\<rparr>"
    using 1(4) by (auto split: if_splits)
  have "evolves d d'"
    unfolding d' using fresh by (simp add: evolves_def wf_db_def tables_step_def)
  moreover have "call_by_key (tc_idempotency_key c) d' = Some c"
  proof -
    have "tbl_get tc_idempotency_key (tc_idempotency_key c) (db_tool_calls d) = None"
      unfolding tbl_get_None_iff using fresh(2) by (auto simp: image_iff)
    then show ?thesis by (simp add: call_by_key_def d' tbl_get_append tbl_get_Cons)
  qed
  ultimately show ?case by simp
qed

lemma out_prepare_retry_val:
  assumes "call_by_key key (w_db w) = Some c" and "good w"
  shows "outcome durable (\<lambda>_ w'. good w \<longrightarrow> (\<exists>c'. call_by_key key (w_db w') = Some c' \<and>
       tool_call_step c c' \<and> tc_attempt c < tc_attempt c')) w (prepare_retry (tc_tool_call_id c))"
  unfolding prepare_retry_def
proof (rule out_tx, goal_cases)
  case (1 d d' x)
  let ?p = "retryable_call (tc_tool_call_id c)"
  have d': "d' = d\<lparr>db_tool_calls := tbl_update ?p reopen_call (db_tool_calls d)\<rparr>"
    and rc: "rowcount ?p (db_tool_calls d) = 1" using 1 by (auto split: if_splits)
  have ev: "evolves d d'" unfolding d' by (rule evolves_update_calls) simp
  obtain c1 where c1: "call_by_key key d = Some c1" "tool_call_step c c1"
    using call_by_key_evolves[OF good_wf[OF assms(2)] 1(3) assms(1)] by blast
  have "distinct (map tc_tool_call_id (db_tool_calls d))" using 1(1) by (simp add: wf_db_def)
  have same: "tc_tool_call_id c1 = tc_tool_call_id c" using c1(2) by (simp add: tool_call_step_def)
  have "tbl_get tc_tool_call_id (tc_tool_call_id c1) (db_tool_calls d) = Some c1"
    using call_by_key_SomeD[OF c1(1)] \<open>distinct _\<close> by (intro tbl_get_in) simp_all
  then have got: "tbl_get tc_tool_call_id (tc_tool_call_id c) (db_tool_calls d) = Some c1"
    unfolding same .
  have "rowcount ?p (db_tool_calls d)
      = (case tbl_get tc_tool_call_id (tc_tool_call_id c) (db_tool_calls d) of None \<Rightarrow> 0 | Some r \<Rightarrow> if ?p r then 1 else 0)"
    using \<open>distinct _\<close> by (rule rowcount_key) (simp add: retryable_call_def)
  also have "\<dots> = (if ?p c1 then 1 else 0)" unfolding got by (rule option.case(2))
  finally have "?p c1" using rc by (metis zero_neq_one)
  have "call_by_key key d' = map_option (\<lambda>r. if ?p r then reopen_call r else r) (call_by_key key d)"
    unfolding call_by_key_def d' by (simp add: tbl_get_update reopen_call_def)
  then have "call_by_key key d' = Some (reopen_call c1)" using c1 \<open>?p c1\<close> by simp
  moreover have "tool_call_step c (reopen_call c1)" using c1(2) call_steps(2) by (blast intro: tool_call_step_trans)
  moreover have "tc_attempt c < tc_attempt (reopen_call c1)"
    using c1(2) by (simp add: tool_call_step_def reopen_call_def)
  ultimately show ?case using ev by simp
qed

lemma out_record_result_val:
  "outcome durable (\<lambda>_ w'. good w \<longrightarrow> result_of (tl_tool_call_id r) (w_db w') = Some r)
     w (record_result r)"
  unfolding record_result_def
proof (rule out_clock_then, goal_cases)
  case (1 now w1)
  let ?p = "\<lambda>c. tc_tool_call_id c = tl_tool_call_id r"
  let ?body = "\<lambda>d. if tl_tool_call_id r \<notin> tc_tool_call_id ` set (db_tool_calls d)
              \<or> tl_tool_call_id r \<in> tl_tool_call_id ` set (db_tool_results d)
              \<or> tl_tool_result_id r \<in> tl_tool_result_id ` set (db_tool_results d)
            then Inl IntegrityError
            else Inr ((), d\<lparr>db_tool_results := db_tool_results d @ [r],
                   db_tool_calls := tbl_update ?p (finish_call r now) (db_tool_calls d)\<rparr>)"
  have "outcome durable (\<lambda>_ w'. good w1 \<longrightarrow> result_of (tl_tool_call_id r) (w_db w') = Some r) w1 (tx ?body)"
  proof (rule out_tx)
    fix d d' :: database and x assume "?body d = Inr (x, d')"
    then have fresh: "tl_tool_call_id r \<notin> tl_tool_call_id ` set (db_tool_results d)"
      and d': "d' = d\<lparr>db_tool_results := db_tool_results d @ [r],
                   db_tool_calls := tbl_update ?p (finish_call r now) (db_tool_calls d)\<rparr>"
      by (auto split: if_splits)
    let ?d1 = "d\<lparr>db_tool_results := db_tool_results d @ [r]\<rparr>"
    have "evolves ?d1 d'"
      using evolves_update_calls[of "finish_call r now" ?d1 ?p] unfolding d' by simp
    then have "evolves d d'" using evolves_add_result[OF fresh] by (blast intro: evolves_trans)
    moreover have "result_of (tl_tool_call_id r) d' = Some r"
    proof -
      have "tbl_get tl_tool_call_id (tl_tool_call_id r) (db_tool_results d) = None"
        unfolding tbl_get_None_iff using fresh by (auto simp: image_iff)
      then show ?thesis by (simp add: result_of_def d' tbl_get_append tbl_get_Cons)
    qed
    ultimately show "evolves d d' \<and> (\<forall>w'. w_db w' = d' \<longrightarrow> result_of (tl_tool_call_id r) (w_db w') = Some r)"
      by simp
  qed
  then show ?case unfolding 1(3) by (intro out_on_integrity_error dur.out_raise)
qed

definition claimed :: "ToolDefinition \<Rightarrow> string \<Rightarrow> string \<Rightarrow> database \<Rightarrow> ToolResult + string \<Rightarrow> database \<Rightarrow> bool" where
  "claimed def h key d0 claim d \<longleftrightarrow> (\<exists>c. journalled key (td_name def) h (tc_tool_call_id c) c d \<and>
     (case claim of
        Inl r \<Rightarrow> result_of (tc_tool_call_id c) d = Some r \<and> valid_ToolResult r
      | Inr i \<Rightarrow> i = tc_tool_call_id c \<and> key_attempts key d0 < tc_attempt c \<and>
          (td_retry_safe def \<or> call_by_key key d0 = None)))"

lemma out_new_call_val:
  "outcome durable (\<lambda>c w'. good w \<longrightarrow> valid_ToolCall c \<and> tc_tool_name c = td_name def \<and>
       tc_arguments_hash c = h \<and> tc_idempotency_key c = key \<and> tc_attempt c = 1)
     w (new_call def run_id task_id args h key)"
  unfolding new_call_def
  by (intro dur.out_bnd[OF out_ids] dur.out_bnd[OF out_clock] dur.out_lift) auto

lemma out_claim_call_val:
  "outcome durable (\<lambda>claim w'. good w \<longrightarrow> claimed def h key (w_db w) claim (w_db w'))
     w (claim_call def run_id task_id args h key)"
  unfolding claim_call_def
proof (rule out_bnd_good[OF out_get_by_key], goal_cases)
  case (1 e w1)
  note good = 1(2,3)
  have ev: "evolves (w_db w) (w_db w1)" and wf: "wf_db (w_db w)"
    using 1(1,3) durable_evolves good_wf by blast+
  show ?case
  proof (cases e)
    case None
    have none: "call_by_key key (w_db w) = None"
      using call_by_key_None_evolves[OF wf ev] 1(4) None by simp
    show ?thesis unfolding None option.case
    proof (rule out_bnd_good[OF out_new_call_val], goal_cases)
      case (1 c w2)
      note c = 1(4)
      show ?case
      proof (rule out_bnd_good[OF out_record_intent_val], goal_cases)
        case (1 u w3)
        have "claimed def h key (w_db w) (Inr (tc_tool_call_id c)) (w_db w3)"
          unfolding claimed_def using c 1(4) none by (auto simp: journalled_def key_attempts_def)
        then show ?case by (intro dur.out_ret) simp
      qed (rule dur.out_ret, simp)
    qed (rule dur.out_bnd[OF out_record_intent], rule dur.out_ret, simp)
  next
    case (Some p)
    obtain c r where p: "p = (c, r)" by force
    have c: "call_by_key key (w_db w1) = Some c" "valid_ToolCall c"
      "result_of (tc_tool_call_id c) (w_db w1) = r" "\<And>x. r = Some x \<Longrightarrow> valid_ToolResult x"
      using 1(4) unfolding Some p by (auto split: option.splits)
    consider "tc_tool_name c \<noteq> td_name def \<or> tc_arguments_hash c \<noteq> h"
      | x where "tc_tool_name c = td_name def" "tc_arguments_hash c = h" "r = Some x"
      | "tc_tool_name c = td_name def" "tc_arguments_hash c = h" "r = None"
      by (cases r) auto
    then show ?thesis
    proof cases
      case 1
      then show ?thesis unfolding Some p by (simp add: dur.out_raise)
    next
      case 2
      have "claimed def h key (w_db w) (Inl x) (w_db w1)"
        unfolding claimed_def using c 2 by (auto simp: journalled_def)
      then show ?thesis unfolding Some p using 2 by (simp add: dur.out_ret)
    next
      case 3
      show ?thesis
      proof (cases "tc_status c = TC_FAILED \<and> td_retry_safe def")
        case True
        have "outcome durable (\<lambda>claim w''. good w1 \<longrightarrow> claimed def h key (w_db w) claim (w_db w''))
            w1 (bnd (prepare_retry (tc_tool_call_id c)) (\<lambda>_. ret (Inr (tc_tool_call_id c))))"
        proof (rule out_bnd_good[OF out_prepare_retry_val[OF c(1) good(1)]], goal_cases)
          case (1 u w2)
          obtain c' where c': "call_by_key key (w_db w2) = Some c'" "tool_call_step c c'"
            "tc_attempt c < tc_attempt c'" using 1(4) by blast
          have "key_attempts key (w_db w) \<le> tc_attempt c"
            using call_by_key_evolves[OF wf ev, of key] c(1,2)
            by (auto simp: key_attempts_def tool_call_step_def valid_ToolCall_def split: option.splits)
          then have "claimed def h key (w_db w) (Inr (tc_tool_call_id c)) (w_db w2)"
            unfolding claimed_def using c' 3 True c(2)
            by (auto simp: journalled_def tool_call_step_def valid_ToolCall_def intro!: exI[of _ c'])
          then show ?case by (intro dur.out_ret) simp
        qed (rule dur.out_ret, simp)
        then show ?thesis unfolding Some p using 3 True by simp
      next
        case False
        then show ?thesis unfolding Some p using 3 by (auto simp: dur.out_raise)
      qed
    qed
  qed
next
  case (2 e w1)
  show ?case
    by (auto split: option.split intro!: dur.out_raise dur.out_ret dur.out_bnd[OF out_prepare_retry]
      dur.out_bnd[OF out_new_call] dur.out_bnd[OF out_record_intent])
qed

section \<open>The history of effects\<close>

lemma eff_tx: "outcome same_effects (\<lambda>_ _. True) w (tx f)"
  by (simp add: outcome_def tx_def same_effects_def Let_def split: sum.split prod.split)

lemma eff_query: "outcome same_effects (\<lambda>_ _. True) w (query f)"
  unfolding query_def by (rule eff_tx)

lemma eff_clock: "outcome same_effects (\<lambda>_ _. True) w clock_now"
  by (simp add: outcome_def clock_now_def same_effects_def)

lemma eff_ids: "outcome same_effects (\<lambda>_ _. True) w (ids_new p)"
  by (simp add: outcome_def ids_new_def same_effects_def)

lemma eff_on_integrity_error:
  assumes "\<And>w. outcome same_effects (\<lambda>_ _. True) w m" and "\<And>w. outcome same_effects (\<lambda>_ _. True) w h"
  shows "outcome same_effects (\<lambda>_ _. True) w (on_integrity_error m h)"
  unfolding on_integrity_error_def
  by (rule eff.out_catch[OF assms(1)]) (simp add: assms(2) eff.out_raise)

lemmas eff_intros = eff_tx eff_query eff_clock eff_ids eff_on_integrity_error eff.out_ret
  eff.out_raise eff.out_lift eff.out_bnd_lift

lemma eff_journal:
  "outcome same_effects (\<lambda>_ _. True) w (get_by_idempotency_key key)"
  "outcome same_effects (\<lambda>_ _. True) w (record_intent c)"
  "outcome same_effects (\<lambda>_ _. True) w (update_status i s)"
  "outcome same_effects (\<lambda>_ _. True) w (prepare_retry i)"
  "outcome same_effects (\<lambda>_ _. True) w (record_result r)"
  "outcome same_effects (\<lambda>_ _. True) w (uncertain_calls run_id)"
  unfolding get_by_idempotency_key_def record_intent_def update_status_def prepare_retry_def
    record_result_def uncertain_calls_def
  by (intro eff_intros eff.out_bnd[OF eff_clock])+

lemma eff_new_call: "outcome same_effects (\<lambda>_ _. True) w (new_call def run_id task_id args h key)"
  unfolding new_call_def by (intro eff.out_bnd[OF eff_ids] eff.out_bnd[OF eff_clock] eff.out_lift) simp

lemma eff_claim_call: "outcome same_effects (\<lambda>_ _. True) w (claim_call def run_id task_id args h key)"
  unfolding claim_call_def
  by (rule eff.out_bnd[OF eff_journal(1)])
    (auto split: option.split intro!: eff.out_raise eff.out_ret eff.out_bnd[OF eff_journal(4)]
      eff.out_bnd[OF eff_new_call] eff.out_bnd[OF eff_journal(2)])

lemma eff_tool_failed: "outcome same_effects (\<lambda>_ _. True) w (tool_failed c e)"
  unfolding tool_failed_def
  by (auto intro!: eff.out_raise eff.out_bnd[OF eff_journal(3)] split: exn.split)

lemma eff_tool_result: "outcome same_effects (\<lambda>_ _. True) w (tool_result env c started b)"
  unfolding tool_result_def
  by (intro eff.out_bnd[OF eff_ids] eff.out_bnd[OF eff_clock] eff.out_lift) simp

text \<open>A body runs at most once per \<open>run_call\<close>, under the identifier of its call.\<close>

definition one_effect :: "string \<Rightarrow> world \<Rightarrow> world \<Rightarrow> bool" where
  "one_effect c w w' \<longleftrightarrow> w_effects w' = w_effects w \<or> w_effects w' = w_effects w @ [c]"

lemma one_effect_then:
  assumes "outcome (one_effect c) (\<lambda>_ _. True) w m"
    and "\<And>v w'. outcome same_effects (\<lambda>_ _. True) w' (f v)"
  shows "outcome (one_effect c) (\<lambda>_ _. True) w (bnd m f)"
proof (rule outcomeI)
  fix x w' assume run: "bnd m f w = (x, w')"
  obtain y w1 where m: "m w = (y, w1)" by force
  then have "one_effect c w w1" using assms(1) by (simp add: outcome_def)
  moreover have "same_effects w1 w'"
    using run m outcomeD[OF assms(2)] by (cases y) (auto simp: bnd_def same_effects_def)
  ultimately show "one_effect c w w' \<and> (\<forall>v. x = Inr v \<longrightarrow> True)"
    by (auto simp: one_effect_def same_effects_def)
qed

lemma then_one_effect:
  assumes "outcome same_effects (\<lambda>_ _. True) w m"
    and "\<And>v w'. outcome (one_effect c) (\<lambda>_ _. True) w' (f v)"
  shows "outcome (one_effect c) (\<lambda>_ _. True) w (bnd m f)"
proof (rule outcomeI)
  fix x w' assume run: "bnd m f w = (x, w')"
  obtain y w1 where m: "m w = (y, w1)" by force
  then have "same_effects w w1" using assms(1) by (simp add: outcome_def)
  moreover have "one_effect c w1 w' \<or> w' = w1"
    using run m outcomeD[OF assms(2)] by (cases y) (auto simp: bnd_def)
  ultimately show "one_effect c w w' \<and> (\<forall>v. x = Inr v \<longrightarrow> True)"
    by (auto simp: one_effect_def same_effects_def)
qed

lemma run_call_one_effect:
  assumes "well_behaved registry" and "t \<in> set registry"
  shows "outcome (one_effect c) (\<lambda>_ _. True) w (run_call env policy t c args)"
proof -
  have body: "outcome (one_effect c) (\<lambda>_ _. True) u (run_tool_body c (tool_body t args))" for u
  proof (rule outcomeI)
    fix x w' assume run: "run_tool_body c (tool_body t args) u = (x, w')"
    have "outcome same_effects (\<lambda>_ _. True) v (tool_body t args)" for v
      using assms by (simp add: well_behaved_def)
    then show "one_effect c u w' \<and> (\<forall>v. x = Inr v \<longrightarrow> True)"
      using run outcomeD[of same_effects "\<lambda>_ _. True" _ "tool_body t args" x w']
      by (auto simp: run_tool_body_def one_effect_def same_effects_def split: if_splits)
  qed
  have out: "outcome (one_effect c) (\<lambda>_ _. True) u (tool_output env policy t c args)" for u
    unfolding tool_output_def
    by (intro one_effect_then[OF body] eff.out_bnd_lift eff.out_ret) simp
  have "outcome (one_effect c) (\<lambda>_ _. True) u (catch (tool_output env policy t c args) (tool_failed c))" for u
  proof (rule outcomeI)
    fix x w' assume run: "catch (tool_output env policy t c args) (tool_failed c) u = (x, w')"
    obtain y u1 where y: "tool_output env policy t c args u = (y, u1)" by force
    have "one_effect c u u1" using out[of u] y by (simp add: outcome_def)
    moreover have "same_effects u1 w'"
      using run y outcomeD[OF eff_tool_failed] by (cases y) (auto simp: catch_def same_effects_def)
    ultimately show "one_effect c u w' \<and> (\<forall>v. x = Inr v \<longrightarrow> True)"
      by (auto simp: one_effect_def same_effects_def)
  qed
  then show ?thesis
    unfolding run_call_def
    by (intro then_one_effect[OF eff_journal(3)] then_one_effect[OF eff_clock] one_effect_then
        eff.out_bnd[OF eff_tool_result] eff.out_bnd[OF eff_journal(5)] eff.out_ret) simp_all
qed

section \<open>One execution\<close>

definition tool_hash :: "tool_env \<Rightarrow> json \<Rightarrow> string" where
  "tool_hash env arguments = te_sha256 env (canonical_json arguments)"

lemma execute_unfold:
  assumes "get_tool name registry = Inr t"
  shows "execute env policy registry run_id task_id name args key =
    bnd (lift_sum (check_policy policy (tool_definition t))) (\<lambda>_.
    bnd (lift_sum (validate_schema env (td_input_schema (tool_definition t)) args)) (\<lambda>_.
    bnd (claim_call (tool_definition t) run_id task_id args (tool_hash env args) key) (\<lambda>c.
      case c of Inl result \<Rightarrow> ret result | Inr call_id \<Rightarrow> run_call env policy t call_id args)))"
  using assms by (simp add: execute_def tool_hash_def Let_def)

text \<open>What is established when an execution gets past its claim.\<close>

lemma execute_claims:
  assumes "good w" and t: "get_tool name registry = Inr t"
    and "execute env policy registry run_id task_id name args key w = (x, w')"
    and moved: "w' \<noteq> w \<or> (\<exists>r. x = Inr r)"
  shows "check_policy policy (tool_definition t) = Inr () \<and>
    validate_schema env (td_input_schema (tool_definition t)) args = Inr () \<and>
    (\<exists>y w1. durable w w1 \<and> same_effects w w1 \<and>
      (\<forall>c. y = Inr c \<longrightarrow> claimed (tool_definition t) (tool_hash env args) key (w_db w) c (w_db w1)) \<and>
      (case y of Inl e \<Rightarrow> x = Inl e \<and> w' = w1
       | Inr (Inl r) \<Rightarrow> x = Inr r \<and> w' = w1
       | Inr (Inr i) \<Rightarrow> run_call env policy t i args w1 = (x, w')))"
proof -
  have p: "check_policy policy (tool_definition t) = Inr ()"
    using assms(3) moved unfolding execute_unfold[OF t]
    by (cases "check_policy policy (tool_definition t)") (auto simp: raise_apply)
  have v: "validate_schema env (td_input_schema (tool_definition t)) args = Inr ()"
    using assms(3) moved p unfolding execute_unfold[OF t]
    by (cases "validate_schema env (td_input_schema (tool_definition t)) args") (auto simp: raise_apply)
  obtain y w1 where y: "claim_call (tool_definition t) run_id task_id args (tool_hash env args) key w = (y, w1)"
    by force
  have "durable w w1" "same_effects w w1"
    using outcomeD[OF out_claim_call y] outcomeD[OF eff_claim_call y] .
  moreover have "\<forall>c. y = Inr c \<longrightarrow> claimed (tool_definition t) (tool_hash env args) key (w_db w) c (w_db w1)"
    using outcomeD_val[OF out_claim_call_val] y assms(1) by blast
  moreover have "case y of Inl e \<Rightarrow> x = Inl e \<and> w' = w1
     | Inr (Inl r) \<Rightarrow> x = Inr r \<and> w' = w1
     | Inr (Inr i) \<Rightarrow> run_call env policy t i args w1 = (x, w')"
    using assms(3) p v y unfolding execute_unfold[OF t]
    by (auto simp: bnd_def ret_def split: sum.splits)
  ultimately show ?thesis using p v by blast
qed

lemma execute_effects:
  assumes "good w" and "well_behaved registry" and "get_tool name registry = Inr t"
    and "execute env policy registry run_id task_id name args key w = (x, w')"
  shows "w_effects w' = w_effects w \<or>
    (\<exists>c. w_effects w' = w_effects w @ [tc_tool_call_id c] \<and>
       journalled key name (tool_hash env args) (tc_tool_call_id c) c (w_db w') \<and>
       key_attempts key (w_db w) < tc_attempt c \<and>
       check_policy policy (tool_definition t) = Inr () \<and>
       (td_retry_safe (tool_definition t) \<or> call_by_key key (w_db w) = None))"
proof (cases "w' = w")
  case False
  have name: "td_name (tool_definition t) = name" and mem: "t \<in> set registry"
    using get_tool_InrD[OF assms(3)] by (simp_all add: tool_name_def)
  note E = execute_claims[OF assms(1,3,4) disjI1[OF False]]
  have y: "check_policy policy (tool_definition t) = Inr ()" using E by blast
  obtain y w1 where y': "durable w w1" "same_effects w w1"
    "\<forall>c. y = Inr c \<longrightarrow> claimed (tool_definition t) (tool_hash env args) key (w_db w) c (w_db w1)"
    "case y of Inl e \<Rightarrow> x = Inl e \<and> w' = w1
     | Inr (Inl r) \<Rightarrow> x = Inr r \<and> w' = w1
     | Inr (Inr i) \<Rightarrow> run_call env policy t i args w1 = (x, w')"
    using E by blast
  show ?thesis
  proof (cases "\<exists>i. y = Inr (Inr i)")
    case True
    then obtain i where i: "y = Inr (Inr i)" "run_call env policy t i args w1 = (x, w')" using y'(4) by auto
    obtain c where c: "journalled key name (tool_hash env args) (tc_tool_call_id c) c (w_db w1)"
      "i = tc_tool_call_id c" "key_attempts key (w_db w) < tc_attempt c"
      "td_retry_safe (tool_definition t) \<or> call_by_key key (w_db w) = None"
      using y'(3) i(1) by (auto simp: claimed_def name)
    have g1: "good w1" using y'(1) assms(1) durable_good by blast
    have "evolves (w_db w1) (w_db w')"
      using outcomeD[OF out_run_call[OF assms(2) mem] i(2)] g1 durable_evolves by blast
    then obtain c' where c': "journalled key name (tool_hash env args) (tc_tool_call_id c) c' (w_db w')"
      "tc_attempt c \<le> tc_attempt c'" using journalled_evolves[OF good_wf[OF g1]] c(1) by blast
    have "one_effect i w1 w'" using outcomeD[OF run_call_one_effect[OF assms(2) mem] i(2)] .
    moreover have "tc_tool_call_id c' = tc_tool_call_id c" using c'(1) by (simp add: journalled_def)
    ultimately show ?thesis using y y'(2) c c'
      by (auto simp: one_effect_def same_effects_def intro!: exI[of _ c'])
  next
    case False
    then have "w' = w1" using y'(4) by (auto split: sum.splits)
    then show ?thesis using y'(2) by (simp add: same_effects_def)
  qed
qed simp

section \<open>An example\<close>

text \<open>A tool with a non-idempotent effect, approved by the policy.\<close>

definition mail_tool :: tool where
  "mail_tool = \<lparr>tool_definition = \<lparr>td_name = ''mail.send'', td_description = [],
     td_input_schema = JObj [], td_output_schema = JObj [], td_timeout_seconds = 1,
     td_required_permissions = {}, td_side_effect_class = NON_IDEMPOTENT, td_retry_safe = False,
     td_produces_evidence = False\<rparr>,
     tool_body = ret,
     tool_reconcile = (\<lambda>c. ret (Some \<lparr>tl_tool_result_id = ''found'', tl_tool_call_id = tc_tool_call_id c,
       tl_success = True, tl_output = JObj [], tl_output_hash = ''{}'', tl_exit_code = None,
       tl_truncated = False, tl_duration_seconds = 0, tl_created_at = 0\<rparr>))\<rparr>"

definition plain_env :: tool_env where
  "plain_env = \<lparr>te_schema_ok = (\<lambda>s. True), te_instance_ok = (\<lambda>s v. True), te_redact = id, te_sha256 = id\<rparr>"

definition mail_policy :: ToolPolicy where
  "mail_policy = \<lparr>tp_allowed_permissions = {}, tp_approved_high_impact_tools = {''mail.send''},
     tp_maximum_output_bytes = 1024\<rparr>"

definition send_mail :: "ToolResult io" where
  "send_mail = execute plain_env mail_policy [mail_tool] ''r'' ''task'' ''mail.send'' (JObj []) ''k''"

definition mail_sent :: world where
  "mail_sent = snd (send_mail (quiet_world lease_db))"

definition mail_result :: ToolResult where
  "mail_result = \<lparr>tl_tool_result_id = ''toolresult-1'', tl_tool_call_id = ''toolcall-0'',
     tl_success = True, tl_output = JObj [], tl_output_hash = ''{}'', tl_exit_code = None,
     tl_truncated = False, tl_duration_seconds = rat_of_int 1 / 1000000, tl_created_at = 4\<rparr>"

text \<open>The process that dies right after the body has started.\<close>

definition mail_lost :: world where
  "mail_lost = snd (send_mail ((quiet_world lease_db)\<lparr>w_crash := Some 4\<rparr>))"

lemma mail_well_behaved: "well_behaved [mail_tool]"
  by (simp add: well_behaved_def mail_tool_def dur.out_ret eff.out_ret)

lemma get_mail_tool: "get_tool ''mail.send'' [mail_tool] = Inr mail_tool"
  by (simp add: get_tool_def tool_name_def mail_tool_def)

lemma good_lease_world: "good (quiet_world lease_db)"
  by (simp add: good_quiet wf_lease_db)

lemma send_mail_run: "send_mail (quiet_world lease_db) = (Inr mail_result, mail_sent)"
proof -
  have "fst (send_mail (quiet_world lease_db)) = Inr mail_result" by code_simp
  then show ?thesis by (simp add: mail_sent_def prod_eq_iff)
qed

lemma mail_sent_effects: "w_effects mail_sent = [''toolcall-0'']"
  by code_simp

lemma mail_not_retry_safe: "\<not> td_retry_safe (tool_definition mail_tool)"
  by (simp add: mail_tool_def)

lemma good_mail_sent: "good mail_sent"
proof -
  have "durable (quiet_world lease_db) mail_sent"
    using out_execute[OF mail_well_behaved] send_mail_run unfolding send_mail_def by (rule outcomeD)
  then show ?thesis using good_lease_world durable_good by blast
qed

section \<open>One execution, stated\<close>



section \<open>A history of executions\<close>

text \<open>
  Executions under one key, one after the other, each in an environment of its own (and ended by
  its death or not), with anything other processes may commit between them; \<open>n\<close> counts the tool
  bodies started.
\<close>

inductive tool_history :: "tool_env \<Rightarrow> ToolRegistry \<Rightarrow> string \<Rightarrow> string \<Rightarrow> database \<Rightarrow> nat \<Rightarrow> bool"
  for env registry name key where
  begin_history: "wf_db d \<Longrightarrow> tool_history env registry name key d 0"
| others: "tool_history env registry name key d n \<Longrightarrow> evolves d d' \<Longrightarrow>
    tool_history env registry name key d' n"
| attempt: "tool_history env registry name key (w_db w) n \<Longrightarrow> good w \<Longrightarrow>
    execute env policy registry run_id task_id name args key w = (x, w') \<Longrightarrow>
    length (w_effects w') = length (w_effects w) + k \<Longrightarrow>
    tool_history env registry name key (w_db w') (n + k)"

lemma key_attempts_evolves:
  assumes "wf_db d" and "evolves d d'" and "0 < key_attempts key d"
  shows "key_attempts key d \<le> key_attempts key d'"
  using call_by_key_evolves[OF assms(1,2), of key] assms(3)
  by (auto simp: key_attempts_def tool_call_step_def split: option.splits)

text \<open>
  C1. At most once: over any history of executions under one key, the number of tool bodies
  started is bounded by the attempts the journal has recorded for the key, and it is at most one
  when the tool is not retry-safe.
\<close>

theorem tool_at_most_once:
  assumes "tool_history env registry name key d n" and "well_behaved registry"
    and "get_tool name registry = Inr t"
  shows "wf_db d \<and> (0 < n \<longrightarrow> int n \<le> key_attempts key d) \<and>
    (\<not> td_retry_safe (tool_definition t) \<longrightarrow> n \<le> 1)"
  using assms(1)
proof induction
  case (begin_history d)
  then show ?case by simp
next
  case (others d n d')
  then show ?case using key_attempts_evolves[of d d' key] by (auto simp: evolves_def)
next
  case (attempt w n policy run_id task_id args x w' k)
  have ev: "evolves (w_db w) (w_db w')"
    using outcomeD[OF out_execute[OF assms(2)] attempt.hyps(3)] attempt.hyps(2) durable_evolves by blast
  then have wf: "wf_db (w_db w')" using attempt.IH by (simp add: evolves_def)
  show ?case
  proof (cases "w_effects w' = w_effects w")
    case True
    then have "k = 0" using attempt.hyps(4) by simp
    then show ?thesis using attempt.IH key_attempts_evolves[OF _ ev, of key] wf by auto
  next
    case False
    obtain c where c: "w_effects w' = w_effects w @ [tc_tool_call_id c]"
      "journalled key name (tool_hash env args) (tc_tool_call_id c) c (w_db w')"
      "key_attempts key (w_db w) < tc_attempt c"
      "td_retry_safe (tool_definition t) \<or> call_by_key key (w_db w) = None"
      using execute_effects[OF attempt.hyps(2) assms(2,3) attempt.hyps(3)] False by blast
    have "k = 1" using attempt.hyps(4) c(1) by simp
    moreover have "key_attempts key (w_db w') = tc_attempt c"
      using c(2) by (simp add: key_attempts_def journalled_def)
    moreover have "1 \<le> tc_attempt c" using c(2) by (simp add: journalled_def valid_ToolCall_def)
    moreover have "n = 0" if "\<not> td_retry_safe (tool_definition t)"
      using attempt.IH c(4) that by (auto simp: key_attempts_def)
    ultimately show ?thesis using attempt.IH wf c(3) by auto
  qed
qed

theorem tool_at_most_once_witness:
  "tool_history plain_env [mail_tool] ''mail.send'' ''k'' (w_db mail_sent) 1 \<and>
   1 \<le> key_attempts ''k'' (w_db mail_sent)"
proof -
  have "tool_history plain_env [mail_tool] ''mail.send'' ''k'' (w_db (quiet_world lease_db)) 0"
    by (rule begin_history) (simp add: wf_lease_db)
  then have "tool_history plain_env [mail_tool] ''mail.send'' ''k'' (w_db mail_sent) (0 + 1)"
    by (rule attempt[OF _ good_lease_world send_mail_run[unfolded send_mail_def]])
      (simp add: mail_sent_effects quiet_world_def)
  then show ?thesis
    using tool_at_most_once[OF _ mail_well_behaved get_mail_tool] by force
qed

section \<open>Results are final\<close>

lemma out_run_call_val:
  assumes "well_behaved registry" and "t \<in> set registry"
  shows "outcome durable (\<lambda>r w'. good w \<longrightarrow> result_of i (w_db w') = Some r \<and> valid_ToolResult r)
     w (run_call env policy t i args)"
proof -
  have result: "outcome durable (\<lambda>r w'. good u \<longrightarrow> tl_tool_call_id r = i \<and> valid_ToolResult r)
      u (tool_result env i started b)" for u started b
    unfolding tool_result_def
    by (intro dur.out_bnd[OF out_ids] dur.out_bnd[OF out_clock] dur.out_lift) auto
  have recorded: "outcome durable (\<lambda>r w'. good u \<longrightarrow> result_of i (w_db w') = Some r \<and> valid_ToolResult r)
      u (bnd (tool_result env i started b) (\<lambda>r. bnd (record_result r) (\<lambda>_. ret r)))" for u started b
  proof (rule out_bnd_good[OF result], goal_cases)
    case (1 r u1)
    show ?case
      by (rule out_bnd_good[OF out_record_result_val]) (use 1(4) in \<open>auto intro: dur.out_ret\<close>)
  next
    case (2 r u1)
    show ?case by (rule dur.out_bnd[OF out_record_result]) (simp add: dur.out_ret)
  qed
  have total: "outcome durable (\<lambda>_ _. True) u
      (bnd (tool_result env i started b) (\<lambda>r. bnd (record_result r) (\<lambda>_. ret r)))" for u started b
    by (intro dur.out_bnd[OF out_tool_result] dur.out_bnd[OF out_record_result] dur.out_ret) simp
  have body: "outcome durable (\<lambda>_ _. True) u (catch (tool_output env policy t i args) (tool_failed i))" for u
    by (intro dur.out_catch out_tool_output[OF assms] out_tool_failed)
  show ?thesis
    unfolding run_call_def
    by (rule out_bnd_good[where P = "\<lambda>_ _. True"], simp add: out_update_status,
        rule out_bnd_good[where P = "\<lambda>_ _. True"], simp add: out_clock,
        rule out_bnd_good[where P = "\<lambda>_ _. True"], simp add: body, rule recorded, rule total,
        intro dur.out_bnd[OF body] total,
        intro dur.out_bnd[OF out_clock] dur.out_bnd[OF body] total)
qed

lemma execute_returns:
  assumes "good w" and "well_behaved registry" and "get_tool name registry = Inr t"
    and "execute env policy registry run_id task_id name args key w = (Inr r, w')"
  shows "good w' \<and> check_policy policy (tool_definition t) = Inr () \<and>
    validate_schema env (td_input_schema (tool_definition t)) args = Inr () \<and> valid_ToolResult r \<and>
    (\<exists>c. journalled key name (tool_hash env args) (tc_tool_call_id c) c (w_db w') \<and>
       result_of (tc_tool_call_id c) (w_db w') = Some r)"
proof -
  have name: "td_name (tool_definition t) = name" and mem: "t \<in> set registry"
    using get_tool_InrD[OF assms(3)] by (simp_all add: tool_name_def)
  have "w' \<noteq> w \<or> (\<exists>q. (Inr r :: exn + ToolResult) = Inr q)" by simp
  note E = execute_claims[OF assms(1,3,4) this]
  obtain y :: "exn + ToolResult + string" and w1 where y: "durable w w1"
    "\<forall>c. y = Inr c \<longrightarrow> claimed (tool_definition t) (tool_hash env args) key (w_db w) c (w_db w1)"
    "case y of Inl e \<Rightarrow> Inr r = Inl e \<and> w' = w1
       | Inr (Inl q) \<Rightarrow> (Inr r :: exn + ToolResult) = Inr q \<and> w' = w1
       | Inr (Inr i) \<Rightarrow> run_call env policy t i args w1 = (Inr r, w')"
    using E by blast
  have g1: "good w1" using y(1) assms(1) durable_good by blast
  consider "y = Inr (Inl r)" "w' = w1" | i where "y = Inr (Inr i)" "run_call env policy t i args w1 = (Inr r, w')"
    using y(3) by (cases y) (auto split: sum.splits)
  then have "good w' \<and> valid_ToolResult r \<and>
    (\<exists>c. journalled key name (tool_hash env args) (tc_tool_call_id c) c (w_db w') \<and>
       result_of (tc_tool_call_id c) (w_db w') = Some r)"
  proof cases
    case 1
    then show ?thesis using y(2) g1 by (auto simp: claimed_def name)
  next
    case 2
    obtain c where c: "journalled key name (tool_hash env args) i c (w_db w1)"
      using y(2) 2(1) by (auto simp: claimed_def name)
    have d: "durable w1 w'" using outcomeD[OF out_run_call[OF assms(2) mem] 2(2)] .
    obtain c' where "journalled key name (tool_hash env args) i c' (w_db w')"
      using journalled_evolves[OF good_wf[OF g1] durable_evolves[OF d g1] c] by blast
    moreover have "result_of i (w_db w') = Some r \<and> valid_ToolResult r"
      using outcomeD_val[OF out_run_call_val[OF assms(2) mem] 2(2)] g1 by blast
    ultimately show ?thesis using durable_good[OF d g1] by (auto simp: journalled_def)
  qed
  then show ?thesis using E by blast
qed

lemma get_by_key_quiet:
  assumes "quiet w" and "call_by_key key (w_db w) = Some c" and "valid_ToolCall c"
    and "result_of (tc_tool_call_id c) (w_db w) = Some r" and "valid_ToolResult r"
  shows "get_by_idempotency_key key w = (Inr (Some (c, Some r)), w\<lparr>w_txn := Suc (w_txn w)\<rparr>)"
  using assms by (simp add: get_by_idempotency_key_def query_quiet tool_call_from_row_def
      tool_result_from_row_def checked_def)

text \<open>
  A recorded result is final: once an execution has returned a result, every later execution
  of the same tool with the same arguments under the same key, by any process and whatever was
  committed in between, returns that result, starts no tool body and writes nothing. The key is
  global: the later request may even name another run and task.
\<close>

lemma tool_result_replayed:
  assumes "good w" and "well_behaved registry"
    and "execute env policy registry run_id task_id name args key w = (Inr r, w')"
    and "evolves (w_db w') (w_db u)" and "quiet u"
  shows "execute env policy registry run_id' task_id' name args key u
    = (Inr r, u\<lparr>w_txn := Suc (w_txn u)\<rparr>)"
proof -
  obtain t where t: "get_tool name registry = Inr t"
    using assms(3) by (cases "get_tool name registry") (auto simp: execute_def raise_apply)
  have name: "td_name (tool_definition t) = name" using get_tool_InrD[OF t] by (simp add: tool_name_def)
  note R = execute_returns[OF assms(1,2) t assms(3)]
  obtain c where c: "journalled key name (tool_hash env args) (tc_tool_call_id c) c (w_db w')"
    "result_of (tc_tool_call_id c) (w_db w') = Some r" using R by blast
  have wf: "wf_db (w_db w')" using R good_wf by blast
  obtain c' where c': "journalled key name (tool_hash env args) (tc_tool_call_id c) c' (w_db u)"
    using journalled_evolves[OF wf assms(4) c(1)] by blast
  have "get_by_idempotency_key key u = (Inr (Some (c', Some r)), u\<lparr>w_txn := Suc (w_txn u)\<rparr>)"
    using c' result_of_evolves[OF wf assms(4) c(2)] R
    by (intro get_by_key_quiet[OF assms(5)]) (auto simp: journalled_def)
  then have "claim_call (tool_definition t) run_id' task_id' args (tool_hash env args) key u
      = (Inr (Inl r), u\<lparr>w_txn := Suc (w_txn u)\<rparr>)"
    using c' name by (simp add: claim_call_def bnd_def ret_def journalled_def)
  then show ?thesis using R unfolding execute_unfold[OF t] by (simp add: bnd_def ret_def)
qed


lemma tool_result_replayed_witness:
  "fst (execute plain_env mail_policy [mail_tool] ''other'' ''job'' ''mail.send'' (JObj []) ''k''
     (quiet_world (w_db mail_sent))) = Inr mail_result"
  using tool_result_replayed[OF good_lease_world mail_well_behaved send_mail_run[unfolded send_mail_def],
      of "quiet_world (w_db mail_sent)" "''other''" "''job''"] by simp

section \<open>Reconciliation\<close>

definition decided :: "ToolRegistry \<Rightarrow> ToolCall \<Rightarrow> database \<Rightarrow> bool" where
  "decided registry c d \<longleftrightarrow> (\<exists>r. result_of (tc_tool_call_id c) d = Some r) \<or>
     (\<exists>t. get_tool (tc_tool_name c) registry = Inr t \<and> td_retry_safe (tool_definition t) \<and>
        tc_side_effect_class c \<noteq> NON_IDEMPOTENT)"

definition uncertain :: "string \<Rightarrow> ToolCall \<Rightarrow> bool" where
  "uncertain run_id c \<longleftrightarrow> tc_run_id c = run_id \<and> tc_status c \<in> {INTENT_RECORDED, TC_RUNNING, UNCERTAIN}"

lemma tool_call_from_row_eq: "tool_call_from_row = checked valid_ToolCall"
  by (simp add: fun_eq_iff tool_call_from_row_def)

lemma decided_evolves: "decided registry c d \<Longrightarrow> wf_db d \<Longrightarrow> evolves d d' \<Longrightarrow> decided registry c d'"
  unfolding decided_def using result_of_evolves by blast

definition answers_for :: "tool \<Rightarrow> bool" where
  "answers_for t \<longleftrightarrow> (\<forall>c w r w'. tool_reconcile t c w = (Inr (Some r), w') \<longrightarrow> tl_tool_call_id r = tc_tool_call_id c)"

lemma eff_reconcile_call:
  assumes "well_behaved registry"
  shows "outcome same_effects (\<lambda>_ _. True) w (reconcile_call registry rs c)"
  unfolding reconcile_call_def
proof (rule eff.out_bnd_lift, rule eff.out_bnd)
  fix t assume "get_tool (tc_tool_name c) registry = Inr t"
  then have "t \<in> set registry" by (simp add: get_tool_InrD)
  then show "outcome same_effects (\<lambda>_ _. True) w (tool_reconcile t c)"
    using assms by (simp add: well_behaved_def)
qed (auto split: option.split intro!: eff.out_raise eff.out_ret eff.out_bnd[OF eff_journal(3)]
    eff.out_bnd[OF eff_journal(5)])

lemma reconcile_call_decides:
  assumes "good w" and "well_behaved registry" and "\<forall>t \<in> set registry. answers_for t"
    and "reconcile_call registry rs c w = (Inr rs', w')"
  shows "decided registry c (w_db w')"
proof -
  obtain t where t: "get_tool (tc_tool_name c) registry = Inr t" "t \<in> set registry"
    using assms(4) get_tool_InrD[of "tc_tool_name c" registry]
    by (cases "get_tool (tc_tool_name c) registry") (auto simp: reconcile_call_def raise_apply)
  obtain a w1 where a: "tool_reconcile t c w = (Inr a, w1)"
    using assms(4) unfolding reconcile_call_def t(1) lift_sum_simps bnd_ret
    by (rule bnd_InrD) blast
  have k: "(case a of
         Some r \<Rightarrow> bnd (record_result r) (\<lambda>_. ret (rs @ [r]))
       | None \<Rightarrow>
           if tc_side_effect_class c = NON_IDEMPOTENT then
             bnd (update_status (tc_tool_call_id c) NEEDS_REVIEW) (\<lambda>_.
               raise (Durable ManualReviewRequiredError))
           else if \<not> td_retry_safe (tool_definition t) then
             bnd (update_status (tc_tool_call_id c) NEEDS_REVIEW) (\<lambda>_.
               raise (Durable ManualReviewRequiredError))
           else bnd (update_status (tc_tool_call_id c) TC_FAILED) (\<lambda>_. ret rs)) w1 = (Inr rs', w')"
    using assms(4) unfolding reconcile_call_def t(1) lift_sum_simps bnd_ret bnd_def[of "tool_reconcile t c"] a by simp
  have g1: "good w1"
  proof -
    have "outcome durable (\<lambda>_ _. True) w (tool_reconcile t c)"
      using assms(2) t(2) by (simp add: well_behaved_def)
    then have "durable w w1" using a by (rule outcomeD)
    then show ?thesis using assms(1) durable_good by blast
  qed
  show ?thesis
  proof (cases a)
    case None
    then have "td_retry_safe (tool_definition t) \<and> tc_side_effect_class c \<noteq> NON_IDEMPOTENT"
      using k by (auto simp: bnd_def raise_def split: if_splits prod.splits sum.splits)
    then show ?thesis using t(1) by (auto simp: decided_def)
  next
    case (Some r)
    then have rec: "record_result r w1 = (Inr (), w')"
      using k by (auto simp: bnd_def ret_def split: prod.splits sum.splits)
    have "result_of (tl_tool_call_id r) (w_db w') = Some r"
      using outcomeD_val[OF out_record_result_val rec] g1 by blast
    moreover have "tl_tool_call_id r = tc_tool_call_id c"
      using assms(3) t(2) a Some unfolding answers_for_def by blast
    ultimately show ?thesis by (auto simp: decided_def)
  qed
qed

lemma reconcile_fold_decides:
  assumes "well_behaved registry" and "\<forall>t \<in> set registry. answers_for t"
  shows "good w \<Longrightarrow> foldA (reconcile_call registry) rs cs w = (Inr rs', w') \<Longrightarrow>
    \<forall>c \<in> set cs. decided registry c (w_db w')"
proof (induction cs arbitrary: rs w)
  case (Cons c cs)
  obtain rs1 w1 where s: "reconcile_call registry rs c w = (Inr rs1, w1)"
    "foldA (reconcile_call registry) rs1 cs w1 = (Inr rs', w')"
    using Cons.prems(2) unfolding foldA.simps by (rule bnd_InrD) blast
  have g1: "good w1" using outcomeD[OF out_reconcile_call[OF assms(1)] s(1)] Cons.prems(1) durable_good by blast
  have "durable w1 w'"
    using s(2) by (rule outcomeD[OF dur.out_foldA[where I = "\<lambda>_ _. True", OF TrueI out_reconcile_call[OF assms(1)]]])
  then have "evolves (w_db w1) (w_db w')" using g1 durable_evolves by blast
  then have "decided registry c (w_db w')"
    using decided_evolves[OF reconcile_call_decides[OF Cons.prems(1) assms s(1)] good_wf[OF g1]] by blast
  then show ?case using Cons.IH[OF g1 s(2)] by simp
qed simp



end
