(* ===== verification/Retry.thy ===== *)
theory Retry
  imports Models
begin

text \<open>
  \<open>domain/retry.py\<close>: when another attempt may start and how long to wait before it. Floats are
  rationals here, so the bounds hold up to the rounding of the float operations. SHA-256 is a
  parameter giving the digest as bytes.
\<close>

definition valid_delay_bounds :: "RetryPolicy \<Rightarrow> bool" where
  "valid_delay_bounds p \<longleftrightarrow> \<not> rp_maximum_delay_seconds p < rp_base_delay_seconds p"

definition valid_RetryPolicy :: "RetryPolicy \<Rightarrow> bool" where
  "valid_RetryPolicy p \<longleftrightarrow>
     1 \<le> rp_maximum_attempts p \<and> rp_maximum_attempts p \<le> 20 \<and>
     0 \<le> rp_base_delay_seconds p \<and> rp_base_delay_seconds p \<le> 300 \<and>
     0 \<le> rp_maximum_delay_seconds p \<and> rp_maximum_delay_seconds p \<le> 3600 \<and>
     1 \<le> rp_multiplier p \<and> rp_multiplier p \<le> 10 \<and>
     0 \<le> rp_jitter_ratio p \<and> rp_jitter_ratio p \<le> 1 \<and> valid_delay_bounds p"

definition default_RetryPolicy :: RetryPolicy where
  "default_RetryPolicy = \<lparr>rp_maximum_attempts = 3, rp_base_delay_seconds = 1 / 4,
     rp_maximum_delay_seconds = 30, rp_multiplier = 2, rp_jitter_ratio = 1 / 5\<rparr>"

definition should_retry :: "RetryPolicy \<Rightarrow> int \<Rightarrow> bool \<Rightarrow> bool" where
  "should_retry p attempt retryable \<longleftrightarrow> retryable \<and> 1 \<le> attempt \<and> attempt < rp_maximum_attempts p"

text \<open>\<open>int.from_bytes(digest[:8], "big")\<close>.\<close>

definition from_bytes_big :: "string \<Rightarrow> nat" where
  "from_bytes_big bs = foldl (\<lambda>n b. 256 * n + of_char b) 0 bs"

definition raw_delay :: "RetryPolicy \<Rightarrow> int \<Rightarrow> rat" where
  "raw_delay p attempt = min (rp_maximum_delay_seconds p)
     (rp_base_delay_seconds p * rp_multiplier p ^ nat (attempt - 1))"

definition delay_for :: "(string \<Rightarrow> string) \<Rightarrow> RetryPolicy \<Rightarrow> int \<Rightarrow> string \<Rightarrow> exn + rat" where
  "delay_for sha256_bytes p attempt jitter_key =
     (if attempt < 1 then Inl ValueError
      else let raw = raw_delay p attempt in
        if raw = 0 \<or> rp_jitter_ratio p = 0 then Inr raw
        else
          (let digest = sha256_bytes (jitter_key @ '':'' @ show_int attempt);
               unit = of_nat (from_bytes_big (take 8 digest)) / (2 ^ 64 - 1);
               factor = 1 - rp_jitter_ratio p + 2 * rp_jitter_ratio p * unit in
           Inr (min (rp_maximum_delay_seconds p) (raw * factor))))"

section \<open>Bounds\<close>

lemma from_bytes_big_less: "from_bytes_big bs < 256 ^ length bs"
proof (induction bs rule: rev_induct)
  case (snoc b bs)
  have "of_char b < (256 :: nat)" by simp
  moreover have "Suc (from_bytes_big bs) \<le> 256 ^ length bs" using snoc by simp
  then have "256 * from_bytes_big bs + 256 \<le> 256 * 256 ^ length bs" by simp
  ultimately have "256 * from_bytes_big bs + of_char b < 256 * 256 ^ length bs" by linarith
  then show ?case by (simp add: from_bytes_big_def)
qed (simp add: from_bytes_big_def)

lemma jitter_unit:
  fixes s :: string
  shows "0 \<le> (of_nat (from_bytes_big (take 8 s)) / (2 ^ 64 - 1) :: rat)"
    and "(of_nat (from_bytes_big (take 8 s)) / (2 ^ 64 - 1) :: rat) \<le> 1"
proof -
  have "from_bytes_big (take 8 s) < 256 ^ length (take 8 s)" by (rule from_bytes_big_less)
  also have "\<dots> \<le> (256 :: nat) ^ 8" by (rule power_increasing) simp_all
  finally have "from_bytes_big (take 8 s) \<le> 2 ^ 64 - 1" by simp
  then have "(of_nat (from_bytes_big (take 8 s)) :: rat) \<le> of_nat (2 ^ 64 - 1)" by (rule of_nat_mono)
  also have "\<dots> = 2 ^ 64 - 1" by simp
  finally show "(of_nat (from_bytes_big (take 8 s)) / (2 ^ 64 - 1) :: rat) \<le> 1" by simp
qed simp

lemma raw_delay_bounds:
  assumes "valid_RetryPolicy p"
  shows "0 \<le> raw_delay p n" "raw_delay p n \<le> rp_maximum_delay_seconds p"
  using assms by (simp_all add: raw_delay_def valid_RetryPolicy_def)

lemma raw_delay_mono:
  assumes "valid_RetryPolicy p" and "m \<le> n"
  shows "raw_delay p m \<le> raw_delay p n"
proof -
  have "rp_multiplier p ^ nat (m - 1) \<le> rp_multiplier p ^ nat (n - 1)"
    using assms by (intro power_increasing) (simp_all add: valid_RetryPolicy_def)
  then have "rp_base_delay_seconds p * rp_multiplier p ^ nat (m - 1)
      \<le> rp_base_delay_seconds p * rp_multiplier p ^ nat (n - 1)"
    using assms(1) by (intro mult_left_mono) (simp_all add: valid_RetryPolicy_def)
  then show ?thesis by (simp add: raw_delay_def min.coboundedI2)
qed

lemma delay_for_bounds:
  assumes "valid_RetryPolicy p" and "1 \<le> n" and "delay_for sha p n key = Inr x"
  shows "(1 - rp_jitter_ratio p) * raw_delay p n \<le> x" "x \<le> (1 + rp_jitter_ratio p) * raw_delay p n"
    "x \<le> rp_maximum_delay_seconds p"
proof -
  let ?j = "rp_jitter_ratio p" and ?raw = "raw_delay p n"
  let ?u = "of_nat (from_bytes_big (take 8 (sha (key @ '':'' @ show_int n)))) / (2 ^ 64 - 1) :: rat"
  have u: "0 \<le> ?u" "?u \<le> 1" by (rule jitter_unit)+
  have j: "0 \<le> ?j" using assms(1) by (simp add: valid_RetryPolicy_def)
  note raw = raw_delay_bounds[OF assms(1), of n]
  have x: "x = ?raw \<and> (?raw = 0 \<or> ?j = 0)
      \<or> x = min (rp_maximum_delay_seconds p) (?raw * (1 - ?j + 2 * ?j * ?u))"
    using assms(2,3) by (auto simp: delay_for_def Let_def split: if_splits)
  have "0 \<le> ?j * ?u" using u(1) j by (rule mult_nonneg_nonneg[rotated])
  moreover have "?j * ?u \<le> ?j" using mult_left_mono[OF u(2) j] by (simp only: mult_1_right)
  ultimately
  have f: "1 - ?j \<le> 1 - ?j + 2 * ?j * ?u" "1 - ?j + 2 * ?j * ?u \<le> 1 + ?j" by (simp_all add: mult.assoc)
  have lo: "?raw * (1 - ?j) \<le> ?raw * (1 - ?j + 2 * ?j * ?u)"
    and hi: "?raw * (1 - ?j + 2 * ?j * ?u) \<le> ?raw * (1 + ?j)"
    using f raw(1) by (intro mult_left_mono; simp)+
  have small: "?raw * (1 - ?j) \<le> rp_maximum_delay_seconds p"
    using mult_left_mono[of "1 - ?j" 1 ?raw] raw j by simp
  show "(1 - ?j) * ?raw \<le> x" using x lo small by (auto simp: mult.commute)
  show "x \<le> (1 + ?j) * ?raw" using x hi by (auto simp: mult.commute)
  show "x \<le> rp_maximum_delay_seconds p" using x raw by auto
qed

text \<open>
  Backoff is bounded: under a valid policy a one-based attempt always gets a delay, which lies
  within the jitter ratio of the exponential value, never exceeds the maximum, and whose
  exponential value grows with the attempt; attempt zero is an error. A retry is granted only
  below the maximum number of attempts, so at most 20 attempts ever start.
\<close>

lemma retry_delay_bounds:
  assumes "valid_RetryPolicy p"
  shows "(\<forall>n. n < 1 \<longrightarrow> delay_for sha256_bytes p n key = Inl ValueError) \<and>
    (\<forall>n \<ge> 1. \<exists>x. delay_for sha256_bytes p n key = Inr x \<and>
       (1 - rp_jitter_ratio p) * raw_delay p n \<le> x \<and> x \<le> (1 + rp_jitter_ratio p) * raw_delay p n \<and>
       0 \<le> x \<and> x \<le> rp_maximum_delay_seconds p) \<and>
    (\<forall>m n. m \<le> n \<longrightarrow> raw_delay p m \<le> raw_delay p n) \<and>
    (\<forall>n b. should_retry p n b \<longrightarrow> b \<and> 1 \<le> n \<and> n + 1 \<le> 20)"
proof (intro conjI allI impI)
  fix n :: int assume "1 \<le> n"
  then obtain x where x: "delay_for sha256_bytes p n key = Inr x"
    by (cases "raw_delay p n = 0 \<or> rp_jitter_ratio p = 0") (auto simp: delay_for_def Let_def)
  note b = delay_for_bounds[OF assms \<open>1 \<le> n\<close> x]
  have "0 \<le> (1 - rp_jitter_ratio p) * raw_delay p n"
    using raw_delay_bounds(1)[OF assms] assms by (simp add: valid_RetryPolicy_def)
  then show "\<exists>x. delay_for sha256_bytes p n key = Inr x \<and>
       (1 - rp_jitter_ratio p) * raw_delay p n \<le> x \<and> x \<le> (1 + rp_jitter_ratio p) * raw_delay p n \<and>
       0 \<le> x \<and> x \<le> rp_maximum_delay_seconds p"
    using x b by auto
qed (use assms raw_delay_mono in \<open>auto simp: delay_for_def should_retry_def valid_RetryPolicy_def\<close>)

lemma retry_delay_bounds_witness:
  "\<exists>x. delay_for (\<lambda>s. ''abcdefgh'') default_RetryPolicy 2 ''run-1'' = Inr x \<and> 2 / 5 \<le> x \<and> x \<le> 3 / 5"
proof -
  have "valid_RetryPolicy default_RetryPolicy"
    by (simp add: valid_RetryPolicy_def default_RetryPolicy_def valid_delay_bounds_def)
  from retry_delay_bounds[OF this, of "\<lambda>s. ''abcdefgh''" "''run-1''"]
  obtain x where "delay_for (\<lambda>s. ''abcdefgh'') default_RetryPolicy 2 ''run-1'' = Inr x"
    "(1 - rp_jitter_ratio default_RetryPolicy) * raw_delay default_RetryPolicy 2 \<le> x"
    "x \<le> (1 + rp_jitter_ratio default_RetryPolicy) * raw_delay default_RetryPolicy 2"
    by (metis one_le_numeral)
  then show ?thesis by (auto simp: default_RetryPolicy_def raw_delay_def)
qed

end
