(* ===== verification/Evidence_Ledger.thy ===== *)
theory Evidence_Ledger
  imports Store_Evidence Store_Leases
begin

text \<open>
  \<open>evidence/ledger.py\<close>: recording evidence with its digest, and claims that are checked against the
  evidence of their run before they are stored. \<open>sha256\<close> hashes a text; \<open>py_str\<close> is \<open>str\<close> of a
  Python value, which only feeds an excerpt.
\<close>

section \<open>Recording\<close>

datatype evidence_content = NoContent | TextContent string | MappingContent json

fun serialized :: "evidence_content \<Rightarrow> string option" where
  "serialized NoContent = None"
| "serialized (TextContent s) = Some s"
| "serialized (MappingContent j) = Some (canonical_json j)"

text \<open>\<open>identifier.split("-")[-1]\<close>\<close>

definition last_part :: "string \<Rightarrow> string" where
  "last_part s = rev (takeWhile (\<lambda>c. c \<noteq> CHR ''-'') (rev s))"

record evidence_input =
  ei_evidence_type :: EvidenceType
  ei_source :: string
  ei_source_location :: "string option"
  ei_content :: evidence_content
  ei_excerpt :: string
  ei_snapshot_id :: "string option"
  ei_task_id :: "string option"
  ei_reliability :: rat
  ei_status :: VerificationStatus
  ei_metadata :: json

definition record_evidence :: "(string \<Rightarrow> string) \<Rightarrow> string \<Rightarrow> evidence_input \<Rightarrow> EvidenceRecord io" where
  "record_evidence sha256 run_id i =
     bnd (ids_new ''evidence'') (\<lambda>new_id.
     bnd clock_now (\<lambda>now.
     bnd (lift_sum (checked valid_EvidenceRecord
       \<lparr>er_evidence_id = ''EVID-'' @ last_part new_id, er_run_id = run_id,
        er_evidence_type = ei_evidence_type i, er_source = ei_source i,
        er_source_location = ei_source_location i,
        er_content_hash = map_option sha256 (serialized (ei_content i)),
        er_snapshot_id = ei_snapshot_id i, er_related_task_id = ei_task_id i,
        er_reliability = ei_reliability i, er_excerpt = ei_excerpt i,
        er_verification_status = ei_status i, er_metadata = ei_metadata i,
        er_created_at = now\<rparr>)) (\<lambda>r.
     bnd (add_evidence r) (\<lambda>_. ret r))))"

definition chunk_evidence :: "string \<Rightarrow> RepositoryChunk \<Rightarrow> evidence_input" where
  "chunk_evidence task_id chunk =
     \<lparr>ei_evidence_type = REPOSITORY_FILE, ei_source = rc_relative_path chunk,
      ei_source_location = Some (rc_relative_path chunk @ '':'' @ show_int (rc_start_line chunk) @
        ''-'' @ show_int (rc_end_line chunk)),
      ei_content = TextContent (rc_content chunk), ei_excerpt = take 1000 (rc_content chunk),
      ei_snapshot_id = Some (rc_snapshot_id chunk), ei_task_id = Some task_id,
      ei_reliability = 9 / 10, ei_status = VERIFIED, ei_metadata = JObj []\<rparr>"

definition record_repository_chunk :: "(string \<Rightarrow> string) \<Rightarrow> string \<Rightarrow> string \<Rightarrow> RepositoryChunk \<Rightarrow> EvidenceRecord io" where
  "record_repository_chunk sha256 run_id task_id chunk =
     record_evidence sha256 run_id (chunk_evidence task_id chunk)"

definition result_evidence :: "(json \<Rightarrow> string) \<Rightarrow> string \<Rightarrow> string \<Rightarrow> ToolResult \<Rightarrow> bool \<Rightarrow> evidence_input" where
  "result_evidence py_str task_id tool_name result test_result =
     \<lparr>ei_evidence_type = (if test_result then TEST_RESULT else COMMAND_RESULT),
      ei_source = tool_name, ei_source_location = Some (tl_tool_call_id result),
      ei_content = MappingContent (tl_output result),
      ei_excerpt = take 1000 (py_str (tl_output result)),
      ei_snapshot_id = None, ei_task_id = Some task_id,
      ei_reliability = (if tl_success result then 95 / 100 else 8 / 10), ei_status = VERIFIED,
      ei_metadata = JObj [(''success'', JBool (tl_success result)),
        (''exit_code'', jopt JInt (tl_exit_code result)),
        (''truncated'', JBool (tl_truncated result)),
        (''tool_output_hash'', JStr (tl_output_hash result))]\<rparr>"

definition record_tool_result ::
  "(string \<Rightarrow> string) \<Rightarrow> (json \<Rightarrow> string) \<Rightarrow> string \<Rightarrow> string \<Rightarrow> string \<Rightarrow> ToolResult \<Rightarrow> bool \<Rightarrow> EvidenceRecord io" where
  "record_tool_result sha256 py_str run_id task_id tool_name result test_result =
     record_evidence sha256 run_id (result_evidence py_str task_id tool_name result test_result)"

section \<open>Claims\<close>

text \<open>\<open>{item.evidence_id: item for item in ...}\<close>: of two entries the later one stays.\<close>

definition evidence_by_id :: "EvidenceRecord list \<Rightarrow> string \<Rightarrow> EvidenceRecord option" where
  "evidence_by_id es = map_of (rev (map (\<lambda>e. (er_evidence_id e, e)) es))"

definition supported_kind :: "ClaimKind \<Rightarrow> bool" where
  "supported_kind k \<longleftrightarrow> k \<in> {VERIFIED_FACT, TEST_SUPPORTED}"

definition verify_claim :: "Claim \<Rightarrow> (string \<Rightarrow> EvidenceRecord option) \<Rightarrow> exn + unit" where
  "verify_claim claim evidence =
     (if list_ex (\<lambda>i. evidence i = None) (cl_evidence_ids claim) then Inl (Durable DomainValidationError)
      else
        (let records = map (\<lambda>i. the (evidence i)) (cl_evidence_ids claim) in
         if list_ex (\<lambda>r. er_run_id r \<noteq> cl_run_id claim) records then Inl (Durable DomainValidationError)
         else if list_ex (\<lambda>r. er_verification_status r = INVALID) records
         then Inl (Durable DomainValidationError)
         else if supported_kind (cl_kind claim) \<and> list_ex (\<lambda>r. er_verification_status r \<noteq> VERIFIED) records
         then Inl (Durable DomainValidationError)
         else Inr ()))"

definition claim :: "string \<Rightarrow> string \<Rightarrow> ClaimKind \<Rightarrow> string list \<Rightarrow> string option \<Rightarrow> Claim io" where
  "claim run_id text kind evidence_ids task_id =
     bnd (ids_new ''claim'') (\<lambda>new_id.
     bnd (lift_sum (checked valid_Claim
       \<lparr>cl_claim_id = ''CLAIM-'' @ last_part new_id, cl_run_id = run_id, cl_text = text,
        cl_kind = kind, cl_evidence_ids = evidence_ids, cl_related_task_id = task_id\<rparr>)) (\<lambda>c.
     bnd (get_evidence run_id) (\<lambda>es.
     bnd (lift_sum (verify_claim c (evidence_by_id es))) (\<lambda>_.
     bnd (add_claim c) (\<lambda>_. ret c)))))"

text \<open>
  \<open>verify_run\<close> returns two messages; they are the numbers of the records they print.
\<close>

fun verify_claims :: "(string \<Rightarrow> EvidenceRecord option) \<Rightarrow> Claim list \<Rightarrow> exn + unit" where
  "verify_claims evidence [] = Inr ()"
| "verify_claims evidence (c # cs) =
     (case verify_claim c evidence of Inl e \<Rightarrow> Inl e | Inr _ \<Rightarrow> verify_claims evidence cs)"

definition verify_run :: "string \<Rightarrow> string list io" where
  "verify_run run_id =
     bnd (get_evidence run_id) (\<lambda>es.
     bnd (get_claims run_id) (\<lambda>cs.
     bnd (lift_sum (verify_claims (evidence_by_id es) cs)) (\<lambda>_.
       ret [''verified '' @ show_nat (card (er_evidence_id ` set es)) @ '' evidence records'',
            ''verified '' @ show_nat (length cs) @ '' claim mappings''])))"

section \<open>Durability\<close>

lemma out_record_evidence [outcome_intros]:
  "outcome durable (\<lambda>_ _. True) w (record_evidence sha256 run_id i)"
  unfolding record_evidence_def
  by (intro dur.out_bnd[OF out_ids] dur.out_bnd[OF out_clock] dur.out_bnd_lift
      dur.out_bnd[OF out_add_evidence] dur.out_ret) simp

lemma out_claim [outcome_intros]: "outcome durable (\<lambda>_ _. True) w (claim r t k es task)"
  unfolding claim_def
  by (intro dur.out_bnd[OF out_ids] dur.out_bnd_lift dur.out_bnd[OF out_get_evidence]
      dur.out_bnd[OF out_add_claim] dur.out_ret) simp

lemma out_verify_run [outcome_intros]: "outcome durable (\<lambda>_ _. True) w (verify_run r)"
  unfolding verify_run_def
  by (intro dur.out_bnd[OF out_get_evidence] dur.out_bnd[OF out_get_claims] dur.out_bnd_lift
      dur.out_ret) simp

section \<open>What a verified claim means\<close>

definition supports :: "Claim \<Rightarrow> EvidenceRecord \<Rightarrow> bool" where
  "supports c e \<longleftrightarrow> er_run_id e = cl_run_id c \<and> er_verification_status e \<noteq> INVALID \<and>
     (supported_kind (cl_kind c) \<longrightarrow> er_verification_status e = VERIFIED)"

lemma verify_claim_iff:
  "verify_claim c ev = Inr () \<longleftrightarrow> (\<forall>i \<in> set (cl_evidence_ids c). \<exists>e. ev i = Some e \<and> supports c e)"
proof (cases "\<exists>i \<in> set (cl_evidence_ids c). ev i = None")
  case True
  then have "verify_claim c ev \<noteq> Inr ()" by (auto simp: verify_claim_def list_ex_iff)
  moreover have "\<not> (\<forall>i \<in> set (cl_evidence_ids c). \<exists>e. ev i = Some e \<and> supports c e)" using True by force
  ultimately show ?thesis by simp
next
  case False
  then have "\<forall>i \<in> set (cl_evidence_ids c). \<exists>e. ev i = Some e" by auto
  then have "(\<exists>e. ev i = Some e \<and> supports c e) \<longleftrightarrow> supports c (the (ev i))"
    if "i \<in> set (cl_evidence_ids c)" for i using that by force
  moreover have "verify_claim c ev = Inr () \<longleftrightarrow> (\<forall>i \<in> set (cl_evidence_ids c). supports c (the (ev i)))"
    using False by (auto simp: verify_claim_def list_ex_iff supports_def Let_def)
  ultimately show ?thesis by simp
qed

lemma verify_claim_error: "verify_claim c ev \<noteq> Inr () \<Longrightarrow> verify_claim c ev = Inl (Durable DomainValidationError)"
  by (auto simp: verify_claim_def Let_def split: if_splits)

lemma verify_claims_iff: "verify_claims ev cs = Inr () \<longleftrightarrow> (\<forall>c \<in> set cs. verify_claim c ev = Inr ())"
  by (induction cs) (auto split: sum.splits)

lemma evidence_by_id_SomeD: "evidence_by_id es i = Some e \<Longrightarrow> e \<in> set es \<and> er_evidence_id e = i"
  by (auto simp: evidence_by_id_def dest: map_of_SomeD)

lemma evidence_by_id_in:
  "distinct (map er_evidence_id es) \<Longrightarrow> e \<in> set es \<Longrightarrow> evidence_by_id es (er_evidence_id e) = Some e"
  unfolding evidence_by_id_def
  by (rule map_of_is_SomeI) (auto simp: comp_def rev_map[symmetric])

definition supported_in :: "database \<Rightarrow> Claim \<Rightarrow> bool" where
  "supported_in d c \<longleftrightarrow> (\<forall>i \<in> set (cl_evidence_ids c).
     \<exists>e \<in> set (db_evidence d). er_evidence_id e = i \<and> supports c e)"

definition stored_claim :: "Claim \<Rightarrow> database \<Rightarrow> bool" where
  "stored_claim c d \<longleftrightarrow>
     \<lparr>co_claim_id = cl_claim_id c, co_run_id = cl_run_id c, co_text = cl_text c,
      co_kind = cl_kind c, co_related_task_id = cl_related_task_id c\<rparr> \<in> set (db_claims d) \<and>
     set (claim_links c) \<subseteq> set (db_claim_evidence_links d)"

lemma supported_in_evolves: "supported_in d c \<Longrightarrow> wf_db d \<Longrightarrow> evolves d d' \<Longrightarrow> supported_in d' c"
  by (auto simp: supported_in_def evolves_def tables_step_def keeps_rows_def) blast

lemma evidence_from_row_eq: "evidence_from_row = checked valid_EvidenceRecord"
  by (simp add: fun_eq_iff evidence_from_row_def)

lemma get_evidence_InrD:
  assumes "get_evidence r w = (Inr es, w')"
  shows "set es = {e \<in> set (db_evidence (w_db w')). er_run_id e = r}"
  using query_InrD[OF assms[unfolded get_evidence_def]]
  by (auto simp: evidence_from_row_eq dest!: traverse_checked)

lemma evidence_wf: "wf_db d \<Longrightarrow> distinct (map er_evidence_id (db_evidence d))"
  by (simp add: wf_db_def)

lemma verified_supported:
  assumes "get_evidence r w = (Inr es, w')" and "verify_claim c (evidence_by_id es) = Inr ()"
  shows "supported_in (w_db w') c"
  unfolding supported_in_def
proof
  fix i assume "i \<in> set (cl_evidence_ids c)"
  then obtain e where "evidence_by_id es i = Some e" "supports c e"
    using assms(2) by (auto simp: verify_claim_iff)
  then show "\<exists>e \<in> set (db_evidence (w_db w')). er_evidence_id e = i \<and> supports c e"
    using evidence_by_id_SomeD[of es i e] get_evidence_InrD[OF assms(1)] by blast
qed

lemma out_add_claim_val:
  "outcome durable (\<lambda>_ w'. good w \<longrightarrow> stored_claim c (w_db w')) w (add_claim c)"
  unfolding add_claim_def
proof (intro out_on_sqlalchemy_error out_tx, goal_cases)
  case (1 d d' x)
  have "evolves d d'" using 1(4) by (rule add_claim_body_evolves)
  moreover have "stored_claim c d'"
    using 1(4) by (auto simp: add_claim_body_def Let_def stored_claim_def split: if_splits)
  ultimately show ?case by simp
qed

lemma stored_claim_evolves: "stored_claim c d \<Longrightarrow> wf_db d \<Longrightarrow> evolves d d' \<Longrightarrow> stored_claim c d'"
  by (auto simp: stored_claim_def evolves_def tables_step_def keeps_rows_def)

text \<open>
  C27. Claims are supported when stored and stay supported: when \<open>claim\<close> returns, its row and links
  are in the database and every evidence identifier it cites is a stored record of the claim's own
  run that is not invalid, and verified when the claim's kind asserts support; evidence and claims
  being append-only, this is so in every later database.
\<close>

theorem claims_are_supported:
  assumes "good w" and "claim run_id text kind ids task w = (Inr c, w')" and "evolves (w_db w') d"
  shows "stored_claim c d \<and> supported_in d c \<and> cl_run_id c = run_id \<and> cl_evidence_ids c = ids \<and> ids \<noteq> []"
proof -
  obtain new_id w1 where ids: "ids_new ''claim'' w = (Inr new_id, w1)" "w_db w1 = w_db w" "good w1"
    using assms(1) by (simp add: ids_new_def)
  let ?c = "\<lparr>cl_claim_id = ''CLAIM-'' @ last_part new_id, cl_run_id = run_id, cl_text = text,
        cl_kind = kind, cl_evidence_ids = ids, cl_related_task_id = task\<rparr>"
  have "bnd (lift_sum (checked valid_Claim ?c)) (\<lambda>c.
     bnd (get_evidence run_id) (\<lambda>es.
     bnd (lift_sum (verify_claim c (evidence_by_id es))) (\<lambda>_.
     bnd (add_claim c) (\<lambda>_. ret c)))) w1 = (Inr c, w')"
    using assms(2) ids(1) by (simp add: claim_def bnd_def[of "ids_new ''claim''"])
  then have valid: "valid_Claim ?c"
    and run: "bnd (get_evidence run_id) (\<lambda>es.
     bnd (lift_sum (verify_claim ?c (evidence_by_id es))) (\<lambda>_.
     bnd (add_claim ?c) (\<lambda>_. ret ?c))) w1 = (Inr c, w')"
    by (auto simp: checked_def raise_apply split: if_splits)
  obtain es w2 where es: "get_evidence run_id w1 = (Inr es, w2)"
    "bnd (lift_sum (verify_claim ?c (evidence_by_id es))) (\<lambda>_. bnd (add_claim ?c) (\<lambda>_. ret ?c)) w2 = (Inr c, w')"
    using run by (rule bnd_InrD) blast
  have v: "verify_claim ?c (evidence_by_id es) = Inr ()"
    using es(2) by (cases "verify_claim ?c (evidence_by_id es)") (auto simp: raise_apply)
  then have "bnd (add_claim ?c) (\<lambda>_. ret ?c) w2 = (Inr c, w')" using es(2) by simp
  then have add: "add_claim ?c w2 = (Inr (), w')" and c: "c = ?c"
    by (auto simp: bnd_def ret_def split: prod.splits sum.splits)
  have d2: "durable w1 w2" using out_get_evidence es(1) by (rule outcomeD)
  have g2: "good w2" using d2 ids(3) durable_good by blast
  have dw: "durable w2 w'" using out_add_claim add by (rule outcomeD)
  have wf': "wf_db (w_db w')" using durable_good[OF dw g2] good_wf by blast
  have "supported_in (w_db w') ?c"
    using supported_in_evolves[OF verified_supported[OF es(1) v] good_wf[OF g2] durable_evolves[OF dw g2]] .
  moreover have "stored_claim ?c (w_db w')" using outcomeD_val[OF out_add_claim_val add] g2 by blast
  ultimately show ?thesis
    using supported_in_evolves stored_claim_evolves wf' assms(3) valid unfolding c
    by (auto simp: valid_Claim_def)
qed

definition ledger_db :: database where
  "ledger_db = lease_db\<lparr>db_evidence := [\<lparr>er_evidence_id = ''EVID-1'', er_run_id = ''r'',
     er_evidence_type = USER_FACT, er_source = ''user'', er_source_location = None,
     er_content_hash = None, er_snapshot_id = None, er_related_task_id = None, er_reliability = 1,
     er_excerpt = ''yes'', er_verification_status = VERIFIED, er_metadata = JObj [],
     er_created_at = 0\<rparr>]\<rparr>"

theorem claims_are_supported_witness:
  "\<exists>c w'. claim ''r'' ''It works'' VERIFIED_FACT [''EVID-1''] None (quiet_world ledger_db) = (Inr c, w') \<and>
     supported_in (w_db w') c"
proof -
  let ?m = "claim ''r'' ''It works'' VERIFIED_FACT [''EVID-1''] None (quiet_world ledger_db)"
  have "wf_db ledger_db" by (simp add: ledger_db_def lease_db_def empty_db_def wf_db_def)
  then have g: "good (quiet_world ledger_db)" by (simp add: good_quiet)
  have "\<not> isl (fst ?m)" by code_simp
  then obtain c where "?m = (Inr c, snd ?m)" by (metis prod.collapse sum.collapse(2))
  with claims_are_supported[OF g this evolves_refl] show ?thesis by blast
qed

end
