(* ===== verification/Context_Manager.thy ===== *)
theory Context_Manager
  imports Store_Context
begin

text \<open>
  \<open>context/manager.py\<close>: the selection of context items under a token budget and the summary of what
  is left out. A float threshold is a rational here.
\<close>

section \<open>The budget\<close>

record ContextBudget =
  bg_context_limit :: int
  bg_reserved_output :: int
  bg_system_instructions :: int
  bg_user_request :: int
  bg_compression_threshold :: rat

definition available :: "ContextBudget \<Rightarrow> int" where
  "available b = bg_context_limit b - bg_reserved_output b - bg_system_instructions b - bg_user_request b"

definition compression_at :: "ContextBudget \<Rightarrow> int" where
  "compression_at b = \<lfloor>of_int (available b) * bg_compression_threshold b\<rfloor>"

definition reservations_fit :: "ContextBudget \<Rightarrow> bool" where
  "reservations_fit b \<longleftrightarrow> \<not> available b \<le> 0"

definition valid_ContextBudget :: "ContextBudget \<Rightarrow> bool" where
  "valid_ContextBudget b \<longleftrightarrow> 2048 \<le> bg_context_limit b \<and> 128 \<le> bg_reserved_output b \<and>
     128 \<le> bg_system_instructions b \<and> 128 \<le> bg_user_request b \<and>
     1 / 5 < bg_compression_threshold b \<and> bg_compression_threshold b \<le> 95 / 100 \<and> reservations_fit b"

section \<open>Items\<close>

definition PRESERVED_CATEGORIES :: "string set" where
  "PRESERVED_CATEGORIES = {''constraint'', ''negative_requirement'', ''decision'', ''question'', ''task_state''}"

text \<open>\<open>math.ceil(n / 4)\<close> on byte lengths, at least one for a non-empty text.\<close>

definition estimate_tokens :: "string \<Rightarrow> int" where
  "estimate_tokens content =
     (if content = [] then 0 else max (int ((length (utf8 content) + 3) div 4)) 1)"

definition create_item ::
  "string \<Rightarrow> string \<Rightarrow> int \<Rightarrow> string list \<Rightarrow> string list \<Rightarrow> bool \<Rightarrow> ContextItem io" where
  "create_item category content priority source_refs evidence_ids mandatory =
     bnd (ids_new ''context-item'') (\<lambda>item_id.
     bnd clock_now (\<lambda>now.
       lift_sum (checked valid_ContextItem
         \<lparr>ci_item_id = item_id, ci_category = category, ci_content = content,
          ci_estimated_tokens = estimate_tokens content, ci_priority = priority,
          ci_source_refs = source_refs, ci_evidence_ids = evidence_ids,
          ci_mandatory = mandatory, ci_created_at = now\<rparr>)))"

definition item_order :: "ContextItem \<Rightarrow> int \<times> string" where
  "item_order i = (ci_priority i, ci_item_id i)"

definition mandatory_item :: "ContextItem \<Rightarrow> bool" where
  "mandatory_item i \<longleftrightarrow> ci_mandatory i \<or> ci_category i \<in> PRESERVED_CATEGORIES"

definition mandatory_items :: "ContextItem list \<Rightarrow> ContextItem list" where
  "mandatory_items items = sort_key item_order (filter mandatory_item items)"

definition optional_items :: "ContextItem list \<Rightarrow> ContextItem list" where
  "optional_items items =
     sort_key item_order (filter (\<lambda>i. i \<notin> set (mandatory_items items)) items)"

definition tokens :: "ContextItem list \<Rightarrow> int" where
  "tokens items = sum_list (map ci_estimated_tokens items)"

text \<open>\<open>dict.fromkeys\<close> keeps the first occurrence of each key.\<close>

fun first_occurrences :: "string list \<Rightarrow> string list" where
  "first_occurrences [] = []"
| "first_occurrences (x # xs) = x # filter (\<lambda>y. y \<noteq> x) (first_occurrences xs)"

definition summary_references :: "ContextItem list \<Rightarrow> string list" where
  "summary_references items = first_occurrences
     (concat (map ci_source_refs (filter (\<lambda>i. ci_category i = ''summary'') items)))"

text \<open>The greedy loop over the optional items.\<close>

fun select_items :: "int \<Rightarrow> ContextItem list \<Rightarrow> ContextItem list \<Rightarrow> int \<Rightarrow> ContextItem list \<times> int" where
  "select_items limit [] selected used = (selected, used)"
| "select_items limit (i # is) selected used =
     (if used + ci_estimated_tokens i \<le> limit
      then select_items limit is (selected @ [i]) (used + ci_estimated_tokens i)
      else select_items limit is selected used)"

section \<open>Compression\<close>

definition summary_text :: "ContextItem list \<Rightarrow> string" where
  "summary_text removed = join_with [CHR 0x0A]
     (''Compressed navigation summary; verify conclusions against source/evidence IDs:'' #
      map (\<lambda>i. ''- ['' @ ci_item_id i @ ''] '' @ join_with '' '' (py_split (ci_content i))) removed)"

text \<open>
  The marker the code appends starts with an ellipsis, U+2026, which is beyond \<open>char\<close>; it is written
  as three dots, which are as many bytes.
\<close>

definition truncated_text :: "int \<Rightarrow> string \<Rightarrow> string" where
  "truncated_text maximum_characters content =
     (if maximum_characters < int (length content)
      then take (nat (max (maximum_characters - 20) 1)) content @ ''... [truncated]'' else content)"

definition retained_constraints_of :: "int \<Rightarrow> ContextItem list \<Rightarrow> string list" where
  "retained_constraints_of generation removed =
     (let constraints = map ci_content
            (filter (\<lambda>i. ci_category i \<in> {''constraint'', ''negative_requirement''}) removed) in
      if 1 < generation \<and> constraints = []
      then [''No removed constraint; raw constraints remain in active context.'']
      else constraints)"

definition compress ::
  "(string \<Rightarrow> string) \<Rightarrow> string \<Rightarrow> ContextItem list \<Rightarrow> SummaryLevel \<Rightarrow> int \<Rightarrow> int \<Rightarrow> SummaryRecord option io" where
  "compress sha256 run_id removed level generation maximum_tokens =
     (if removed = [] \<or> maximum_tokens < 16 then ret None
      else
        (let content = truncated_text (maximum_tokens * 4) (summary_text removed);
             estimated = min (estimate_tokens content) maximum_tokens in
         bnd (ids_new ''summary'') (\<lambda>summary_id.
         bnd clock_now (\<lambda>now.
         bnd (lift_sum (checked valid_SummaryRecord
           \<lparr>su_summary_id = summary_id, su_run_id = run_id, su_level = level, su_content = content,
            su_estimated_tokens = estimated, su_source_item_ids = map ci_item_id removed,
            su_source_hashes = map (\<lambda>i. (ci_item_id i, sha256 (ci_content i))) removed,
            su_source_summary_ids = summary_references removed,
            su_retained_constraints = retained_constraints_of generation removed,
            su_retained_questions = map ci_content (filter (\<lambda>i. ci_category i = ''question'') removed),
            su_retained_decisions = map ci_content (filter (\<lambda>i. ci_category i = ''decision'') removed),
            su_evidence_ids = sorted_list_of_set (set (concat (map ci_evidence_ids removed))),
            su_removed_item_ids = map ci_item_id removed, su_generation = generation,
            su_valid = True, su_invalidated_reason = None, su_created_at = now\<rparr>)) (\<lambda>s.
           ret (Some s))))))"

definition new_snapshot ::
  "ContextBudget \<Rightarrow> string \<Rightarrow> string option \<Rightarrow> int \<Rightarrow> string list \<Rightarrow> string list \<Rightarrow> string list \<Rightarrow> ContextSnapshot io" where
  "new_snapshot budget run_id task_id used item_ids summary_ids removed_ids =
     bnd (ids_new ''context'') (\<lambda>context_id.
     bnd clock_now (\<lambda>now.
       lift_sum (checked valid_ContextSnapshot
         \<lparr>cx_context_id = context_id, cx_run_id = run_id, cx_task_id = task_id,
          cx_budget_tokens = available budget, cx_used_tokens = used, cx_item_ids = item_ids,
          cx_summary_ids = summary_ids, cx_removed_item_ids = removed_ids, cx_created_at = now\<rparr>)))"

definition optional_limit :: "ContextBudget \<Rightarrow> int \<Rightarrow> int" where
  "optional_limit budget used =
     (let summary_reserve = min (max (available budget div 5) 64) 1024
      in max (available budget - summary_reserve) used)"

definition build ::
  "(string \<Rightarrow> string) \<Rightarrow> ContextBudget \<Rightarrow> string \<Rightarrow> ContextItem list \<Rightarrow> string option \<Rightarrow> SummaryLevel \<Rightarrow> int \<Rightarrow>
   (ContextSnapshot \<times> SummaryRecord option) io" where
  "build sha256 budget run_id items task_id level generation =
     (if card (ci_item_id ` set items) \<noteq> length items then raise (Durable DomainValidationError)
      else
        (let mandatory = mandatory_items items; optional = optional_items items;
             mandatory_tokens = tokens mandatory in
         if available budget < mandatory_tokens then raise (Durable DomainValidationError)
         else
           (let total = mandatory_tokens + tokens optional in
            if total \<le> compression_at budget then
              bnd (new_snapshot budget run_id task_id total (map ci_item_id (mandatory @ optional))
                     (summary_references (mandatory @ optional)) []) (\<lambda>s. ret (s, None))
            else
              (case select_items (optional_limit budget mandatory_tokens) optional mandatory mandatory_tokens of
                 (selected, used) \<Rightarrow>
                   let removed = filter (\<lambda>i. ci_item_id i \<notin> ci_item_id ` set selected) optional in
                   bnd (compress sha256 run_id removed level generation (available budget - used)) (\<lambda>summary.
                   let used' = used + (case summary of None \<Rightarrow> 0 | Some s \<Rightarrow> su_estimated_tokens s);
                       retained = summary_references selected in
                   bnd (new_snapshot budget run_id task_id used' (map ci_item_id selected)
                     (case summary of None \<Rightarrow> retained | Some s \<Rightarrow> retained @ [su_summary_id s])
                     (map ci_item_id removed)) (\<lambda>s. ret (s, summary)))))))"

text \<open>\<open>py_list_str\<close> prints the sorted list of stale sources inside the reason.\<close>

definition invalidate_if_stale ::
  "(string list \<Rightarrow> string) \<Rightarrow> SummaryRecord \<Rightarrow> (string \<Rightarrow> string option) \<Rightarrow> SummaryRecord" where
  "invalidate_if_stale py_list_str summary current =
     (let stale = filter (\<lambda>(source, digest). current source \<noteq> Some digest) (su_source_hashes summary) in
      if stale = [] then summary
      else summary\<lparr>su_valid := False,
             su_invalidated_reason := Some (''source content changed or disappeared: '' @
               py_list_str (sorted_list_of_set (fst ` set stale)))\<rparr>)"

section \<open>What a build returns\<close>

lemma select_items_spec:
  assumes "select_items limit is selected used = (s, u)" and "used \<le> limit"
    and "\<And>i. i \<in> set is \<Longrightarrow> 0 \<le> ci_estimated_tokens i"
  shows "\<exists>chosen. s = selected @ chosen \<and> set chosen \<subseteq> set is \<and> u = used + tokens chosen \<and> u \<le> limit"
  using assms
proof (induction "is" arbitrary: selected used)
  case (Cons i "is")
  show ?case
  proof (cases "used + ci_estimated_tokens i \<le> limit")
    case True
    then obtain chosen where "s = (selected @ [i]) @ chosen" "set chosen \<subseteq> set is"
      "u = used + ci_estimated_tokens i + tokens chosen" "u \<le> limit"
      using Cons.IH[of "selected @ [i]" "used + ci_estimated_tokens i"] Cons.prems by auto
    then show ?thesis by (auto intro!: exI[of _ "i # chosen"] simp: tokens_def)
  next
    case False
    then show ?thesis using Cons.IH[of selected used] Cons.prems by auto
  qed
qed (simp add: tokens_def)

lemma estimate_tokens_nonneg [simp]: "0 \<le> estimate_tokens c"
  by (auto simp: estimate_tokens_def)

lemma tokens_nonneg: "(\<And>i. i \<in> set is \<Longrightarrow> 0 \<le> ci_estimated_tokens i) \<Longrightarrow> 0 \<le> tokens is"
  unfolding tokens_def by (induction "is") auto

lemma new_snapshot_run:
  assumes "clean_ids w" and "no_nul run_id" and "no_nul_opt task_id" and "0 < available b"
    and "0 \<le> used" and "used \<le> available b"
  shows "\<exists>s w'. new_snapshot b run_id task_id used ids refs removed w = (Inr s, w') \<and>
    cx_used_tokens s = used \<and> cx_item_ids s = ids \<and> cx_summary_ids s = refs \<and>
    cx_removed_item_ids s = removed \<and> cx_budget_tokens s = available b"
proof -
  have "no_nul (''context-'' @ w_uuid w (w_ids w))"
    using assms(1) by (simp add: clean_ids_def no_nul_def)
  then show ?thesis
    using assms by (simp add: new_snapshot_def bnd_def ids_new_def clock_now_def checked_def
        valid_ContextSnapshot_def ret_def)
qed

lemma set_join_with: "set (join_with sep xs) \<subseteq> set sep \<union> (\<Union>x \<in> set xs. set x)"
  by (induction sep xs rule: join_with.induct) auto

lemma set_py_split: "x \<in> set (py_split s) \<Longrightarrow> set x \<subseteq> set s"
proof -
  have "x \<in> set (py_split_acc w s) \<Longrightarrow> set x \<subseteq> set w \<union> set s" for w
    by (induction w s rule: py_split_acc.induct) (fastforce split: if_splits)+
  from this[of "[]"] show "x \<in> set (py_split s) \<Longrightarrow> set x \<subseteq> set s" by (simp add: py_split_def)
qed

lemma no_nul_summary_text:
  assumes "\<And>i. i \<in> set removed \<Longrightarrow> no_nul (ci_item_id i) \<and> no_nul (ci_content i)"
  shows "no_nul (summary_text removed)"
proof -
  have "CHR 0x00 \<notin> set (join_with '' '' (py_split (ci_content i)))" if "i \<in> set removed" for i
    using assms[OF that] set_join_with[of "'' ''" "py_split (ci_content i)"] set_py_split[of _ "ci_content i"]
    by (fastforce simp: no_nul_def)
  then have "CHR 0x00 \<notin> set ('' - ['' @ ci_item_id i @ ''] '' @ join_with '' '' (py_split (ci_content i)))"
    if "i \<in> set removed" for i
    using assms[OF that] that by (simp add: no_nul_def)
  then show ?thesis
    unfolding no_nul_def summary_text_def
    by (intro contra_subsetD[OF set_join_with]) auto
qed

lemma no_nul_truncated: "no_nul s \<Longrightarrow> no_nul (truncated_text n s)"
  by (auto simp: no_nul_def truncated_text_def dest: in_set_takeD)

lemma compress_run:
  assumes "clean_ids w" and "no_nul run_id" and "1 \<le> generation" and "generation \<le> 3"
    and "\<And>i. i \<in> set removed \<Longrightarrow> valid_ContextItem i"
  shows "\<exists>r w'. compress sha256 run_id removed level generation m w = (Inr r, w') \<and> clean_ids w' \<and>
    (r = None \<longleftrightarrow> removed = [] \<or> m < 16) \<and>
    (\<forall>s. r = Some s \<longrightarrow> 0 \<le> su_estimated_tokens s \<and> su_estimated_tokens s \<le> m \<and>
       su_source_item_ids s = map ci_item_id removed \<and>
       set (su_evidence_ids s) = (\<Union>i \<in> set removed. set (ci_evidence_ids i)) \<and>
       (\<forall>i \<in> set removed. (ci_item_id i, sha256 (ci_content i)) \<in> set (su_source_hashes s)))"
proof (cases "removed = [] \<or> m < 16")
  case True
  then show ?thesis using assms(1) by (simp add: compress_def ret_def)
next
  case False
  have "no_nul (''summary-'' @ w_uuid w (w_ids w))"
    using assms(1) by (simp add: clean_ids_def no_nul_def)
  moreover have "no_nul (truncated_text (m * 4) (summary_text removed))"
    using assms(5) by (intro no_nul_truncated no_nul_summary_text) (simp add: valid_ContextItem_def)
  moreover have "generation \<le> 1 \<or> retained_constraints_of generation removed \<noteq> []"
    by (auto simp: retained_constraints_of_def Let_def)
  ultimately show ?thesis
    using False assms by (auto simp: compress_def bnd_def ids_new_def clock_now_def checked_def Let_def
        valid_SummaryRecord_def source_manifest_complete_def no_nul_opt_def ret_def clean_ids_def image_image)
qed

lemma mandatory_optional:
  shows "set (mandatory_items items) = {i \<in> set items. mandatory_item i}"
    and "set (optional_items items) = {i \<in> set items. \<not> mandatory_item i}"
  by (auto simp: mandatory_items_def optional_items_def)

definition built :: "ContextBudget \<Rightarrow> ContextItem list \<Rightarrow> ContextSnapshot \<Rightarrow> SummaryRecord option \<Rightarrow> bool" where
  "built b items s sm \<longleftrightarrow> (\<exists>kept removed.
     cx_item_ids s = map ci_item_id kept \<and> cx_removed_item_ids s = map ci_item_id removed \<and>
     set kept \<union> set removed = set items \<and> set kept \<inter> set removed = {} \<and>
     (\<forall>i \<in> set removed. \<not> mandatory_item i) \<and>
     cx_used_tokens s = tokens kept + (case sm of None \<Rightarrow> 0 | Some u \<Rightarrow> su_estimated_tokens u) \<and>
     cx_used_tokens s \<le> available b \<and>
     (case sm of
        None \<Rightarrow> removed = [] \<or> available b < tokens kept + 16
      | Some u \<Rightarrow> su_source_item_ids u = map ci_item_id removed \<and>
          set (su_evidence_ids u) = (\<Union>i \<in> set removed. set (ci_evidence_ids i))))"

lemma tokens_append [simp]: "tokens (xs @ ys) = tokens xs + tokens ys"
  by (simp add: tokens_def)

lemma build_everything:
  assumes "clean_ids w" and "no_nul run_id" and "no_nul_opt task_id" and "valid_ContextBudget b"
    and "\<And>i. i \<in> set items \<Longrightarrow> valid_ContextItem i"
    and "tokens (mandatory_items items) + tokens (optional_items items) \<le> compression_at b"
  shows "\<exists>s w'. new_snapshot b run_id task_id (tokens (mandatory_items items) + tokens (optional_items items))
      (map ci_item_id (mandatory_items items @ optional_items items)) refs [] w = (Inr s, w') \<and>
    built b items s None"
proof -
  let ?m = "mandatory_items items" and ?o = "optional_items items"
  have "0 < available b" using assms(4) by (simp add: valid_ContextBudget_def reservations_fit_def)
  moreover have "compression_at b \<le> available b"
  proof -
    have "of_int (available b) * bg_compression_threshold b \<le> of_int (available b) * 1"
      using assms(4) \<open>0 < available b\<close> by (intro mult_left_mono) (simp_all add: valid_ContextBudget_def)
    then show ?thesis unfolding compression_at_def by linarith
  qed
  moreover have "0 \<le> tokens (?m @ ?o)"
    using assms(5) by (intro tokens_nonneg) (auto simp: mandatory_optional valid_ContextItem_def)
  moreover have "tokens ?m + tokens ?o \<le> available b"
    using assms(6) \<open>compression_at b \<le> available b\<close> by linarith
  ultimately obtain s w' where s: "new_snapshot b run_id task_id (tokens ?m + tokens ?o)
      (map ci_item_id (?m @ ?o)) refs [] w = (Inr s, w')"
    "cx_used_tokens s = tokens ?m + tokens ?o" "cx_item_ids s = map ci_item_id (?m @ ?o)" "cx_removed_item_ids s = []"
    using new_snapshot_run[OF assms(1-3), of b "tokens ?m + tokens ?o" "map ci_item_id (?m @ ?o)" refs "[]"]
    by auto
  have "built b items s None"
    unfolding built_def using s \<open>tokens ?m + tokens ?o \<le> available b\<close>
    by (intro exI[of _ "?m @ ?o"] exI[of _ "[]"]) (auto simp: mandatory_optional)
  then show ?thesis using s(1) by blast
qed

lemma build_selected:
  assumes "clean_ids w" and "no_nul run_id" and "no_nul_opt task_id" and "valid_ContextBudget b"
    and "1 \<le> generation" and "generation \<le> 3"
    and items: "\<And>i. i \<in> set items \<Longrightarrow> valid_ContextItem i" and "distinct (map ci_item_id items)"
    and "tokens (mandatory_items items) \<le> available b"
    and sel: "select_items (optional_limit b (tokens (mandatory_items items))) (optional_items items)
          (mandatory_items items) (tokens (mandatory_items items)) = (selected, used)"
    and rem: "removed = filter (\<lambda>i. ci_item_id i \<notin> ci_item_id ` set selected) (optional_items items)"
  shows "\<exists>s sm w'. bnd (compress sha256 run_id removed level generation (available b - used)) (\<lambda>summary.
                   let used' = used + (case summary of None \<Rightarrow> 0 | Some s \<Rightarrow> su_estimated_tokens s);
                       retained = summary_references selected in
                   bnd (new_snapshot b run_id task_id used' (map ci_item_id selected)
                     (case summary of None \<Rightarrow> retained | Some s \<Rightarrow> retained @ [su_summary_id s])
                     (map ci_item_id removed)) (\<lambda>s. ret (s, summary))) w = (Inr (s, sm), w') \<and> built b items s sm"
proof -
  let ?m = "mandatory_items items" and ?o = "optional_items items"
  have nonneg: "0 \<le> ci_estimated_tokens i" if "i \<in> set items" for i
    using items[OF that] by (simp add: valid_ContextItem_def)
  have av: "0 < available b" using assms(4) by (simp add: valid_ContextBudget_def reservations_fit_def)
  obtain chosen where c: "selected = ?m @ chosen" "set chosen \<subseteq> set ?o" "used = tokens selected"
    "used \<le> optional_limit b (tokens ?m)"
    using select_items_spec[OF sel] nonneg by (auto simp: mandatory_optional optional_limit_def Let_def)
  have used: "0 \<le> used" "used \<le> available b"
  proof -
    show "0 \<le> used" unfolding c(3) using nonneg c(1,2) by (intro tokens_nonneg) (auto simp: mandatory_optional)
    show "used \<le> available b" using c(4) assms(9) av by (auto simp: optional_limit_def Let_def)
  qed
  have inj: "inj_on ci_item_id (set items)" using assms(8) by (simp add: distinct_map)
  have sub: "set selected \<subseteq> set items" using c(1,2) by (auto simp: mandatory_optional)
  have rem_set: "set removed = set items - set selected"
  proof -
    have same: "ci_item_id i \<in> ci_item_id ` set selected \<longleftrightarrow> i \<in> set selected" if "i \<in> set items" for i
      using inj sub that by (simp add: inj_on_image_mem_iff)
    have "set ?m \<subseteq> set selected" unfolding c(1) by simp
    then have mand: "i \<in> set selected" if "i \<in> set items" "mandatory_item i" for i
      using that by (auto simp: mandatory_optional)
    have "set removed = {i \<in> set items. \<not> mandatory_item i \<and> ci_item_id i \<notin> ci_item_id ` set selected}"
      unfolding rem set_filter mandatory_optional by blast
    then show ?thesis using same mand by blast
  qed
  have items': "i \<in> set removed \<Longrightarrow> valid_ContextItem i" for i unfolding rem_set using items by blast
  have ran: "\<exists>r w'. compress sha256 run_id removed level generation (available b - used) w = (Inr r, w') \<and> clean_ids w' \<and>
    (r = None \<longleftrightarrow> removed = [] \<or> available b - used < 16) \<and>
    (\<forall>s. r = Some s \<longrightarrow> 0 \<le> su_estimated_tokens s \<and> su_estimated_tokens s \<le> available b - used \<and>
       su_source_item_ids s = map ci_item_id removed \<and>
       set (su_evidence_ids s) = (\<Union>i \<in> set removed. set (ci_evidence_ids i)) \<and>
       (\<forall>i \<in> set removed. (ci_item_id i, sha256 (ci_content i)) \<in> set (su_source_hashes s)))"
    by (rule compress_run[OF assms(1,2,5,6) items'])
  obtain sm w1 where sm1: "compress sha256 run_id removed level generation (available b - used) w = (Inr sm, w1)"
    "clean_ids w1" "sm = None \<longleftrightarrow> removed = [] \<or> available b - used < 16"
    "\<forall>u. sm = Some u \<longrightarrow> 0 \<le> su_estimated_tokens u \<and> su_estimated_tokens u \<le> available b - used \<and>
       su_source_item_ids u = map ci_item_id removed \<and>
       set (su_evidence_ids u) = (\<Union>i \<in> set removed. set (ci_evidence_ids i)) \<and>
       (\<forall>i \<in> set removed. (ci_item_id i, sha256 (ci_content i)) \<in> set (su_source_hashes u))"
    using ran by (elim exE conjE) (rule that)
  have sm4: "0 \<le> su_estimated_tokens u" "su_estimated_tokens u \<le> available b - used"
    "su_source_item_ids u = map ci_item_id removed"
    "set (su_evidence_ids u) = (\<Union>i \<in> set removed. set (ci_evidence_ids i))" if "sm = Some u" for u
    using sm1(4) that by simp_all
  note sm = sm1(1-3) sm4
  let ?used = "used + (case sm of None \<Rightarrow> 0 | Some s \<Rightarrow> su_estimated_tokens s)"
  have "0 \<le> ?used" "?used \<le> available b" using used sm(4,5) by (cases sm; fastforce)+
  then obtain s w2 where s: "new_snapshot b run_id task_id ?used (map ci_item_id selected)
       (case sm of None \<Rightarrow> summary_references selected | Some s \<Rightarrow> summary_references selected @ [su_summary_id s])
       (map ci_item_id removed) w1 = (Inr s, w2)" "cx_used_tokens s = ?used"
       "cx_item_ids s = map ci_item_id selected" "cx_removed_item_ids s = map ci_item_id removed"
    using new_snapshot_run[OF sm(2) assms(2,3) av, of ?used] by blast
  have "built b items s sm"
    unfolding built_def
  proof (rule exI[of _ selected], rule exI[of _ removed], intro conjI)
    show "\<forall>i \<in> set removed. \<not> mandatory_item i" unfolding rem by (auto simp: mandatory_optional)
    show "case sm of None \<Rightarrow> removed = [] \<or> available b < tokens selected + 16
      | Some u \<Rightarrow> su_source_item_ids u = map ci_item_id removed \<and>
          set (su_evidence_ids u) = (\<Union>i \<in> set removed. set (ci_evidence_ids i))"
      using sm(3,6,7) c(3) by (cases sm) auto
    show "cx_item_ids s = map ci_item_id selected" "cx_removed_item_ids s = map ci_item_id removed"
      by (rule s)+
    show "set selected \<union> set removed = set items" "set selected \<inter> set removed = {}"
      using rem_set sub by blast+
    show "cx_used_tokens s = tokens selected + (case sm of None \<Rightarrow> 0 | Some u \<Rightarrow> su_estimated_tokens u)"
      "cx_used_tokens s \<le> available b"
      using s(2) c(3) \<open>?used \<le> available b\<close> by simp_all
  qed
  then show ?thesis using s(1)
    by (intro exI[of _ s], rule_tac exI[of _ sm], rule_tac exI[of _ w2])
      (simp add: sm(1) bnd_def Let_def ret_def)
qed

text \<open>
  C29. Context selection: on items with distinct identifiers, \<open>build\<close> returns exactly when the
  mandatory items and the preserved categories fit the budget. What it returns is within the
  budget and partitions the items into kept and removed ones, with every mandatory item kept;
  nothing is removed below the compression threshold; and what is removed is accounted for by
  identifier, source hash and evidence in the summary, unless fewer than 16 tokens were left.
\<close>

theorem context_build_spec:
  assumes "valid_ContextBudget b" and "clean_ids w" and "no_nul run_id" and "no_nul_opt task_id"
    and "1 \<le> generation" and "generation \<le> 3" and "\<forall>i \<in> set items. valid_ContextItem i"
    and "distinct (map ci_item_id items)"
  shows "if available b < tokens (mandatory_items items)
    then build sha256 b run_id items task_id level generation w = (Inl (Durable DomainValidationError), w)
    else \<exists>s sm w'. build sha256 b run_id items task_id level generation w = (Inr (s, sm), w') \<and>
      built b items s sm \<and>
      (tokens (mandatory_items items) + tokens (optional_items items) \<le> compression_at b
         \<longrightarrow> cx_removed_item_ids s = [])"
proof -
  let ?m = "mandatory_items items" and ?o = "optional_items items"
  have card: "card (ci_item_id ` set items) = length items"
    using distinct_card[OF assms(8)] by simp
  note inst = assms(2,3,4,1)
  show ?thesis
  proof (cases "available b < tokens ?m")
    case True
    then show ?thesis by (simp add: build_def card raise_def)
  next
    case False
    show ?thesis
    proof (cases "tokens ?m + tokens ?o \<le> compression_at b")
      case True
      obtain s w' where "new_snapshot b run_id task_id (tokens ?m + tokens ?o)
          (map ci_item_id (?m @ ?o)) (summary_references (?m @ ?o)) [] w = (Inr s, w')" "built b items s None"
        using build_everything[OF inst _ True] assms(7) by blast
      moreover have "cx_removed_item_ids s = []"
        using calculation(1) by (auto simp: new_snapshot_def bnd_def ids_new_def clock_now_def checked_def
            lift_sum_def split: if_splits)
      ultimately show ?thesis using False True
        by (auto simp: build_def card Let_def bnd_def ret_def)
    next
      case more: False
      obtain selected used where sel: "select_items (optional_limit b (tokens ?m)) ?o ?m (tokens ?m) = (selected, used)"
        by force
      show ?thesis
        using build_selected[OF inst assms(5,6) _ assms(8) _ sel refl, of sha256 level] assms(7) False more sel
        by (simp add: build_def card Let_def)
    qed
  qed
qed

definition small_budget :: ContextBudget where
  "small_budget = \<lparr>bg_context_limit = 2048, bg_reserved_output = 1536, bg_system_instructions = 128,
     bg_user_request = 128, bg_compression_threshold = 1 / 2\<rparr>"

definition noted :: "string \<Rightarrow> string \<Rightarrow> int \<Rightarrow> ContextItem" where
  "noted i category n = \<lparr>ci_item_id = i, ci_category = category, ci_content = ''text'',
     ci_estimated_tokens = n, ci_priority = 100, ci_source_refs = [], ci_evidence_ids = [''EVID-1''],
     ci_mandatory = False, ci_created_at = 0\<rparr>"

theorem context_build_spec_witness:
  "\<exists>s sm w'. build (\<lambda>t. t) small_budget ''r''
      [noted ''a'' ''constraint'' 20, noted ''b'' ''history'' 100, noted ''c'' ''history'' 200] None SL_TASK 1
      ((quiet_world empty_db)\<lparr>w_uuid := (\<lambda>n. ''x'')\<rparr>) = (Inr (s, sm), w') \<and>
    built small_budget [noted ''a'' ''constraint'' 20, noted ''b'' ''history'' 100, noted ''c'' ''history'' 200] s sm"
proof -
  let ?items = "[noted ''a'' ''constraint'' 20, noted ''b'' ''history'' 100, noted ''c'' ''history'' 200]"
  have "\<not> available small_budget < tokens (mandatory_items ?items)"
    by (simp add: available_def small_budget_def tokens_def mandatory_items_def mandatory_item_def noted_def
        PRESERVED_CATEGORIES_def)
  moreover have "valid_ContextBudget small_budget"
    by (simp add: valid_ContextBudget_def small_budget_def reservations_fit_def available_def)
  moreover have "clean_ids ((quiet_world empty_db)\<lparr>w_uuid := (\<lambda>n. ''x'')\<rparr>)"
    by (simp add: clean_ids_def no_nul_def)
  moreover have "\<forall>i \<in> set ?items. valid_ContextItem i" "distinct (map ci_item_id ?items)"
    by (simp_all add: noted_def valid_ContextItem_def no_nul_def)
  ultimately show ?thesis
    using context_build_spec[of small_budget "(quiet_world empty_db)\<lparr>w_uuid := (\<lambda>n. ''x'')\<rparr>" "''r''" None 1
        ?items "\<lambda>t. t" SL_TASK]
    by (auto simp: no_nul_def no_nul_opt_def)
qed

end
