(* ===== verification/Report_Generator.thy ===== *)
theory Report_Generator
  imports Evidence_Ledger Task_Graph
begin

text \<open>
  \<open>reporting/models.py\<close> and \<open>reporting/generator.py\<close>: the report document, its Markdown rendering,
  the bundle with its hashes, and \<open>verify\<close>, which reads the JSON text back and checks every claim
  and every citation. \<open>json.dumps\<close> with indentation, \<open>json.loads\<close>, the printing of a float and
  SHA-256 on bytes are the parameters of \<open>report_codec\<close>. The em dash of the Markdown lines lies
  beyond \<open>char\<close> and is written as two hyphens.
\<close>

section \<open>Values of the remaining enumerations\<close>

fun EvidenceType_value :: "EvidenceType \<Rightarrow> string" where
  "EvidenceType_value REPOSITORY_FILE = ''REPOSITORY_FILE''"
| "EvidenceType_value REPOSITORY_SNAPSHOT = ''REPOSITORY_SNAPSHOT''"
| "EvidenceType_value TEST_RESULT = ''TEST_RESULT''"
| "EvidenceType_value COMMAND_RESULT = ''COMMAND_RESULT''"
| "EvidenceType_value ARTIFACT = ''ARTIFACT''"
| "EvidenceType_value DATABASE_RECORD = ''DATABASE_RECORD''"
| "EvidenceType_value EXTERNAL_SOURCE = ''EXTERNAL_SOURCE''"
| "EvidenceType_value USER_FACT = ''USER_FACT''"
| "EvidenceType_value AGENT_INFERENCE = ''AGENT_INFERENCE''"

fun VerificationStatus_value :: "VerificationStatus \<Rightarrow> string" where
  "VerificationStatus_value UNVERIFIED = ''UNVERIFIED''"
| "VerificationStatus_value VERIFIED = ''VERIFIED''"
| "VerificationStatus_value CONFLICTING = ''CONFLICTING''"
| "VerificationStatus_value INVALID = ''INVALID''"

fun ClaimKind_value :: "ClaimKind \<Rightarrow> string" where
  "ClaimKind_value VERIFIED_FACT = ''VERIFIED_FACT''"
| "ClaimKind_value TEST_SUPPORTED = ''TEST_SUPPORTED''"
| "ClaimKind_value INFERENCE = ''INFERENCE''"
| "ClaimKind_value ASSUMPTION = ''ASSUMPTION''"
| "ClaimKind_value UNRESOLVED = ''UNRESOLVED''"
| "ClaimKind_value LIMITATION = ''LIMITATION''"

section \<open>Documents\<close>

record EvidenceConflict =
  ef_conflict_id :: string
  ef_run_id :: string
  ef_description :: string
  ef_evidence_ids :: "string list"
  ef_resolved :: bool
  ef_resolution :: "string option"

record VerificationEntry =
  ve_command :: string
  ve_exit_code :: "int option"
  ve_outcome :: string
  ve_evidence_ids :: "string list"

definition valid_VerificationEntry :: "VerificationEntry \<Rightarrow> bool" where
  "valid_VerificationEntry v \<longleftrightarrow> no_nul (ve_command v) \<and> no_nul (ve_outcome v)"

record ReportDocument =
  rd_report_id :: string
  rd_run_id :: string
  rd_partial :: bool
  rd_executive_summary :: string
  rd_original_objective :: string
  rd_scope :: "string list"
  rd_assumptions :: "string list"
  rd_plan_summary :: "string list"
  rd_work_completed :: "string list"
  rd_changed_artifacts :: "string list"
  rd_research_findings :: "string list"
  rd_verification_performed :: "VerificationEntry list"
  rd_test_results :: "string list"
  rd_claims :: "Claim list"
  rd_evidence :: "EvidenceRecord list"
  rd_conflicts :: "EvidenceConflict list"
  rd_failures_and_recoveries :: "string list"
  rd_remaining_risks :: "string list"
  rd_limitations :: "string list"
  rd_recommended_next_actions :: "string list"
  rd_reproduction_instructions :: "string list"
  rd_created_at :: time

definition valid_ReportDocument :: "ReportDocument \<Rightarrow> bool" where
  "valid_ReportDocument r \<longleftrightarrow> no_nul (rd_report_id r) \<and> no_nul (rd_run_id r) \<and>
     no_nul (rd_executive_summary r) \<and> no_nul (rd_original_objective r)"

record ReportBundle =
  rb_report :: ReportDocument
  rb_markdown :: string
  rb_json_text :: string
  rb_markdown_hash :: string
  rb_json_hash :: string

definition valid_ReportBundle :: "ReportBundle \<Rightarrow> bool" where
  "valid_ReportBundle b \<longleftrightarrow> no_nul (rb_markdown b) \<and> no_nul (rb_json_text b) \<and>
     no_nul (rb_markdown_hash b) \<and> no_nul (rb_json_hash b)"

record ReportInput =
  rp_run :: RunRecord
  rp_plan :: PlanSpec
  rp_tasks :: "TaskRecord list"
  rp_evidence :: "EvidenceRecord list"
  rp_claims :: "Claim list"
  rp_executive_summary :: string
  rp_changed_artifacts :: "string list"
  rp_research_findings :: "string list"
  rp_verification_performed :: "VerificationEntry list"
  rp_test_results :: "string list"
  rp_conflicts :: "EvidenceConflict list"
  rp_failures_and_recoveries :: "string list"
  rp_remaining_risks :: "string list"
  rp_limitations :: "string list"
  rp_recommended_next_actions :: "string list"
  rp_reproduction_instructions :: "string list"
  rp_partial :: bool

definition valid_ReportInput :: "ReportInput \<Rightarrow> bool" where
  "valid_ReportInput i \<longleftrightarrow> no_nul (rp_executive_summary i) \<and> rp_reproduction_instructions i \<noteq> []"

section \<open>Markdown\<close>

definition newline :: string where
  "newline = [CHR 0x0A]"

definition citations :: "string list \<Rightarrow> string" where
  "citations ids = join_with '' '' (map (\<lambda>i. ''['' @ i @ '']'') ids)"

fun numbered :: "int \<Rightarrow> string list \<Rightarrow> string list" where
  "numbered n [] = []"
| "numbered n (v # vs) = (show_int n @ ''. '' @ v) # numbered (n + 1) vs"

definition section_lines :: "string \<Rightarrow> string list \<Rightarrow> bool \<Rightarrow> string list" where
  "section_lines title values ordered =
     ['''', ''## '' @ title, ''''] @
     (if values = [] then [''- None recorded.'']
      else if ordered then numbered 1 values else map (\<lambda>v. ''- '' @ v) values)"

definition exit_text :: "int option \<Rightarrow> string" where
  "exit_text code = (case code of None \<Rightarrow> ''None'' | Some i \<Rightarrow> show_int i)"

definition verification_line :: "VerificationEntry \<Rightarrow> string" where
  "verification_line v = ''`'' @ ve_command v @ ''`: '' @ ve_outcome v @ '' (exit '' @
     exit_text (ve_exit_code v) @ '') '' @ citations (ve_evidence_ids v)"

definition claim_line :: "Claim \<Rightarrow> string" where
  "claim_line c = ''**'' @ ClaimKind_value (cl_kind c) @ ''** -- '' @ cl_text c @ '' '' @
     citations (cl_evidence_ids c)"

definition conflict_line :: "EvidenceConflict \<Rightarrow> string" where
  "conflict_line c = ef_description c @ '' '' @ citations (ef_evidence_ids c)"

definition evidence_line :: "EvidenceRecord \<Rightarrow> string" where
  "evidence_line e = ''- **'' @ er_evidence_id e @ ''** -- '' @
     EvidenceType_value (er_evidence_type e) @ '': '' @ er_source e @
     (case er_source_location e of Some (c # cs) \<Rightarrow> '' at '' @ (c # cs) | _ \<Rightarrow> '''') @ ''; '' @
     VerificationStatus_value (er_verification_status e) @ ''; hash `'' @
     (case er_content_hash e of Some (c # cs) \<Rightarrow> c # cs | _ \<Rightarrow> ''not-applicable'') @ ''`''"

definition markdown :: "ReportDocument \<Rightarrow> string" where
  "markdown r = join_with newline
     ([''# '' @ (if rd_partial r then ''Partial'' else ''Final'') @ '' report: '' @ rd_run_id r,
       '''', ''## Executive summary'', '''', rd_executive_summary r] @
      section_lines ''Original objective'' [rd_original_objective r] False @
      section_lines ''Scope'' (rd_scope r) False @
      section_lines ''Assumptions'' (rd_assumptions r) False @
      section_lines ''Plan summary'' (rd_plan_summary r) False @
      section_lines ''Work completed'' (rd_work_completed r) False @
      section_lines ''Files or artifacts changed'' (rd_changed_artifacts r) False @
      section_lines ''Research findings'' (rd_research_findings r) False @
      section_lines ''Verification performed'' (map verification_line (rd_verification_performed r)) False @
      section_lines ''Test results'' (rd_test_results r) False @
      section_lines ''Claim-to-evidence mapping'' (map claim_line (rd_claims r)) False @
      section_lines ''Conflicting evidence'' (map conflict_line (rd_conflicts r)) False @
      section_lines ''Failures and recoveries'' (rd_failures_and_recoveries r) False @
      section_lines ''Remaining risks'' (rd_remaining_risks r) False @
      section_lines ''Limitations'' (rd_limitations r) False @
      section_lines ''Recommended next actions'' (rd_recommended_next_actions r) False @
      section_lines ''Reproduction instructions'' (rd_reproduction_instructions r) True @
      ['''', ''## Evidence ledger'', ''''] @ map evidence_line (rd_evidence r) @
      ['''', ''Generated: '' @ isoformat (rd_created_at r), ''''])"

section \<open>JSON\<close>

record report_codec =
  rc_sha256 :: "string \<Rightarrow> string"
  rc_float :: "rat \<Rightarrow> string"
  rc_dumps :: "json \<Rightarrow> string"
  rc_loads :: "string \<Rightarrow> exn + json"

definition evidence_json :: "report_codec \<Rightarrow> EvidenceRecord \<Rightarrow> json" where
  "evidence_json rc e = JObj [
     (''evidence_id'', JStr (er_evidence_id e)), (''run_id'', JStr (er_run_id e)),
     (''evidence_type'', JStr (EvidenceType_value (er_evidence_type e))),
     (''source'', JStr (er_source e)), (''source_location'', jopt JStr (er_source_location e)),
     (''content_hash'', jopt JStr (er_content_hash e)), (''snapshot_id'', jopt JStr (er_snapshot_id e)),
     (''related_task_id'', jopt JStr (er_related_task_id e)),
     (''reliability'', JFloat (rc_float rc (er_reliability e))), (''excerpt'', JStr (er_excerpt e)),
     (''verification_status'', JStr (VerificationStatus_value (er_verification_status e))),
     (''metadata'', er_metadata e), (''created_at'', jtime (er_created_at e))]"

definition claim_json :: "Claim \<Rightarrow> json" where
  "claim_json c = JObj [
     (''claim_id'', JStr (cl_claim_id c)), (''run_id'', JStr (cl_run_id c)),
     (''text'', JStr (cl_text c)), (''kind'', JStr (ClaimKind_value (cl_kind c))),
     (''evidence_ids'', jstrs (cl_evidence_ids c)),
     (''related_task_id'', jopt JStr (cl_related_task_id c))]"

definition conflict_json :: "EvidenceConflict \<Rightarrow> json" where
  "conflict_json c = JObj [
     (''conflict_id'', JStr (ef_conflict_id c)), (''run_id'', JStr (ef_run_id c)),
     (''description'', JStr (ef_description c)), (''evidence_ids'', jstrs (ef_evidence_ids c)),
     (''resolved'', JBool (ef_resolved c)), (''resolution'', jopt JStr (ef_resolution c))]"

definition verification_json :: "VerificationEntry \<Rightarrow> json" where
  "verification_json v = JObj [
     (''command'', JStr (ve_command v)), (''exit_code'', jopt JInt (ve_exit_code v)),
     (''outcome'', JStr (ve_outcome v)), (''evidence_ids'', jstrs (ve_evidence_ids v))]"

definition report_json :: "report_codec \<Rightarrow> ReportDocument \<Rightarrow> json" where
  "report_json rc r = JObj [
     (''report_id'', JStr (rd_report_id r)), (''run_id'', JStr (rd_run_id r)),
     (''partial'', JBool (rd_partial r)), (''executive_summary'', JStr (rd_executive_summary r)),
     (''original_objective'', JStr (rd_original_objective r)), (''scope'', jstrs (rd_scope r)),
     (''assumptions'', jstrs (rd_assumptions r)), (''plan_summary'', jstrs (rd_plan_summary r)),
     (''work_completed'', jstrs (rd_work_completed r)),
     (''changed_artifacts'', jstrs (rd_changed_artifacts r)),
     (''research_findings'', jstrs (rd_research_findings r)),
     (''verification_performed'', JArr (map verification_json (rd_verification_performed r))),
     (''test_results'', jstrs (rd_test_results r)), (''claims'', JArr (map claim_json (rd_claims r))),
     (''evidence'', JArr (map (evidence_json rc) (rd_evidence r))),
     (''conflicts'', JArr (map conflict_json (rd_conflicts r))),
     (''failures_and_recoveries'', jstrs (rd_failures_and_recoveries r)),
     (''remaining_risks'', jstrs (rd_remaining_risks r)), (''limitations'', jstrs (rd_limitations r)),
     (''recommended_next_actions'', jstrs (rd_recommended_next_actions r)),
     (''reproduction_instructions'', jstrs (rd_reproduction_instructions r)),
     (''created_at'', jtime (rd_created_at r))]"

section \<open>Verification\<close>

text \<open>\<open>f"[{evidence_id}]" in markdown\<close>.\<close>

fun contains :: "string \<Rightarrow> string \<Rightarrow> bool" where
  "contains p [] = (p = [])"
| "contains p (c # cs) = (starts_with p (c # cs) \<or> contains p cs)"

definition all_cited :: "string \<Rightarrow> string list \<Rightarrow> bool" where
  "all_cited text ids \<longleftrightarrow> list_all (\<lambda>i. contains (''['' @ i @ '']'') text) ids"

fun verify_cited :: "string \<Rightarrow> (string \<Rightarrow> EvidenceRecord option) \<Rightarrow> Claim list \<Rightarrow> exn + unit" where
  "verify_cited text evidence [] = Inr ()"
| "verify_cited text evidence (c # cs) =
     (case verify_claim c evidence of Inl e \<Rightarrow> Inl e
      | Inr _ \<Rightarrow> if \<not> all_cited text (cl_evidence_ids c) then Inl (Durable DomainValidationError)
          else verify_cited text evidence cs)"

fun verify_conflicts ::
  "string \<Rightarrow> string \<Rightarrow> (string \<Rightarrow> EvidenceRecord option) \<Rightarrow> EvidenceConflict list \<Rightarrow> exn + unit" where
  "verify_conflicts run_id text evidence [] = Inr ()"
| "verify_conflicts run_id text evidence (c # cs) =
     (if ef_run_id c \<noteq> run_id then Inl (Durable DomainValidationError)
      else if list_ex (\<lambda>i. evidence i = None) (ef_evidence_ids c) then Inl (Durable DomainValidationError)
      else if \<not> all_cited text (ef_evidence_ids c) then Inl (Durable DomainValidationError)
      else verify_conflicts run_id text evidence cs)"

text \<open>Two Python dictionaries are equal when they agree up to the order of their keys.\<close>

definition verify_bundle :: "report_codec \<Rightarrow> ReportBundle \<Rightarrow> exn + unit" where
  "verify_bundle rc b =
     (if rc_sha256 rc (utf8 (rb_markdown b)) \<noteq> rb_markdown_hash b
      then Inl (Durable DomainValidationError)
      else if rc_sha256 rc (utf8 (rb_json_text b)) \<noteq> rb_json_hash b
      then Inl (Durable DomainValidationError)
      else (case rc_loads rc (rb_json_text b) of Inl e \<Rightarrow> Inl e
       | Inr parsed \<Rightarrow> (case jget ''report_id'' parsed of None \<Rightarrow> Inl KeyError
         | Some i \<Rightarrow>
             if i \<noteq> JStr (rd_report_id (rb_report b)) then Inl (Durable DomainValidationError)
             else if key_sorted parsed \<noteq> key_sorted (report_json rc (rb_report b))
             then Inl (Durable DomainValidationError)
             else (let evidence = evidence_by_id (rd_evidence (rb_report b)) in
               case verify_cited (rb_markdown b) evidence (rd_claims (rb_report b)) of Inl e \<Rightarrow> Inl e
               | Inr _ \<Rightarrow> verify_conflicts (rd_run_id (rb_report b)) (rb_markdown b) evidence
                   (rd_conflicts (rb_report b))))))"

section \<open>Generation\<close>

definition report_document :: "ReportInput \<Rightarrow> string \<Rightarrow> time \<Rightarrow> ReportDocument" where
  "report_document i report_id now =
     \<lparr>rd_report_id = report_id, rd_run_id = rr_run_id (rp_run i), rd_partial = rp_partial i,
      rd_executive_summary = rp_executive_summary i,
      rd_original_objective = rr_objective (rp_run i), rd_scope = ps_scope (rp_plan i),
      rd_assumptions = ps_assumptions (rp_plan i),
      rd_plan_summary = map (\<lambda>t. ts_task_id t @ '': '' @ ts_title t @ '' (depends on '' @
        (if join_with '', '' (ts_dependencies t) = [] then ''nothing''
         else join_with '', '' (ts_dependencies t)) @ '')'') (ps_tasks (rp_plan i)),
      rd_work_completed = map (\<lambda>t. ts_title (tr_spec t) @ '': '' @ TaskState_value (tr_state t) @
        '' after '' @ show_int (tr_attempt_count t) @ '' attempt(s)'') (rp_tasks i),
      rd_changed_artifacts = rp_changed_artifacts i, rd_research_findings = rp_research_findings i,
      rd_verification_performed = rp_verification_performed i, rd_test_results = rp_test_results i,
      rd_claims = rp_claims i, rd_evidence = rp_evidence i, rd_conflicts = rp_conflicts i,
      rd_failures_and_recoveries = rp_failures_and_recoveries i,
      rd_remaining_risks = rp_remaining_risks i, rd_limitations = rp_limitations i,
      rd_recommended_next_actions = rp_recommended_next_actions i,
      rd_reproduction_instructions = rp_reproduction_instructions i, rd_created_at = now\<rparr>"

definition report_bundle :: "report_codec \<Rightarrow> ReportDocument \<Rightarrow> ReportBundle" where
  "report_bundle rc r =
     (let text = rc_dumps rc (report_json rc r) @ newline in
      \<lparr>rb_report = r, rb_markdown = markdown r, rb_json_text = text,
       rb_markdown_hash = rc_sha256 rc (utf8 (markdown r)), rb_json_hash = rc_sha256 rc (utf8 text)\<rparr>)"

definition generate :: "report_codec \<Rightarrow> ReportInput \<Rightarrow> ReportBundle io" where
  "generate rc i =
     bnd (lift_sum (verify_claims (evidence_by_id (rp_evidence i)) (rp_claims i))) (\<lambda>_.
     bnd (ids_new ''report'') (\<lambda>report_id.
     bnd clock_now (\<lambda>now.
     bnd (lift_sum (checked valid_ReportDocument (report_document i report_id now))) (\<lambda>document.
     bnd (lift_sum (checked valid_ReportBundle (report_bundle rc document))) (\<lambda>bundle.
     bnd (lift_sum (verify_bundle rc bundle)) (\<lambda>_. ret bundle))))))"

lemma out_generate [outcome_intros]: "outcome durable (\<lambda>_ _. True) w (generate rc i)"
  unfolding generate_def
  by (intro dur.out_bnd_lift dur.out_bnd[OF out_ids] dur.out_bnd[OF out_clock] dur.out_ret) simp

section \<open>What a report guarantees\<close>

lemma starts_with_iff: "starts_with p s \<longleftrightarrow> (\<exists>t. s = p @ t)"
  unfolding starts_with_def by (metis append_eq_conv_conj append_take_drop_id)

lemma contains_iff: "contains p s \<longleftrightarrow> (\<exists>a b. s = a @ p @ b)"
proof (induction s)
  case (Cons c s)
  have "(\<exists>a b. c # s = a @ p @ b) \<longleftrightarrow> (\<exists>b. c # s = p @ b) \<or> (\<exists>a b. s = a @ p @ b)"
    by (metis append_Cons append_Nil list.exhaust list.inject)
  then show ?case using Cons by (simp only: contains.simps starts_with_iff)
qed simp

lemma contains_append: "contains p x \<Longrightarrow> contains p (a @ x @ b)"
  unfolding contains_iff by (metis append_assoc)

lemma contains_refl: "contains p p"
  unfolding contains_iff by (intro exI[of _ "[]"]) simp

lemma join_with_split: "x \<in> set xs \<Longrightarrow> \<exists>a b. join_with sep xs = a @ x @ b"
proof (induction sep xs rule: join_with.induct)
  case (3 sep y z zs)
  show ?case
  proof (cases "x = y")
    case True
    then show ?thesis by (intro exI[of _ "[]"] exI[of _ "sep @ join_with sep (z # zs)"]) simp
  next
    case False
    then obtain a b where "join_with sep (z # zs) = a @ x @ b" using 3 by auto
    then show ?thesis by (intro exI[of _ "y @ sep @ a"] exI[of _ b]) simp
  qed
qed (auto intro: exI[of _ "[]"])

lemma contains_join: "x \<in> set xs \<Longrightarrow> contains p x \<Longrightarrow> contains p (join_with sep xs)"
  using join_with_split[of x xs sep] contains_append[of p x] by auto

lemma contains_citations: "i \<in> set ids \<Longrightarrow> contains (''['' @ i @ '']'') (citations ids)"
  unfolding citations_def by (rule contains_join[OF _ contains_refl]) auto

lemma contains_claim_line: "i \<in> set (cl_evidence_ids c) \<Longrightarrow> contains (''['' @ i @ '']'') (claim_line c)"
  unfolding claim_line_def
  using contains_append[OF contains_citations, of i "cl_evidence_ids c"
    "''**'' @ ClaimKind_value (cl_kind c) @ ''** -- '' @ cl_text c @ '' ''" "[]"] by simp

lemma contains_conflict_line:
  "i \<in> set (ef_evidence_ids c) \<Longrightarrow> contains (''['' @ i @ '']'') (conflict_line c)"
  unfolding conflict_line_def
  using contains_append[OF contains_citations, of i "ef_evidence_ids c" "ef_description c @ '' ''" "[]"]
  by simp

lemma contains_section: "v \<in> set vs \<Longrightarrow> contains p v \<Longrightarrow> \<exists>l \<in> set (section_lines t vs False). contains p l"
  using contains_append[of p v "''- ''" "[]"] by (auto simp: section_lines_def)

lemma markdown_cites:
  "c \<in> set (rd_claims r) \<Longrightarrow> i \<in> set (cl_evidence_ids c) \<Longrightarrow> contains (''['' @ i @ '']'') (markdown r)"
  "k \<in> set (rd_conflicts r) \<Longrightarrow> i \<in> set (ef_evidence_ids k) \<Longrightarrow> contains (''['' @ i @ '']'') (markdown r)"
proof -
  assume "c \<in> set (rd_claims r)" "i \<in> set (cl_evidence_ids c)"
  then obtain l where "l \<in> set (section_lines ''Claim-to-evidence mapping'' (map claim_line (rd_claims r)) False)"
    "contains (''['' @ i @ '']'') l"
    using contains_section[of "claim_line c" "map claim_line (rd_claims r)"] contains_claim_line by fastforce
  then show "contains (''['' @ i @ '']'') (markdown r)"
    unfolding markdown_def by (intro contains_join[of l]) (simp_all only: set_append Un_iff simp_thms)
next
  assume "k \<in> set (rd_conflicts r)" "i \<in> set (ef_evidence_ids k)"
  then obtain l where "l \<in> set (section_lines ''Conflicting evidence'' (map conflict_line (rd_conflicts r)) False)"
    "contains (''['' @ i @ '']'') l"
    using contains_section[of "conflict_line k" "map conflict_line (rd_conflicts r)"] contains_conflict_line
    by fastforce
  then show "contains (''['' @ i @ '']'') (markdown r)"
    unfolding markdown_def by (intro contains_join[of l]) (simp_all only: set_append Un_iff simp_thms)
qed

lemma verify_cited_iff: "verify_cited text ev cs = Inr () \<longleftrightarrow>
  (\<forall>c \<in> set cs. verify_claim c ev = Inr () \<and> all_cited text (cl_evidence_ids c))"
  by (induction cs) (auto split: sum.splits)

lemma verify_conflicts_iff: "verify_conflicts r text ev cs = Inr () \<longleftrightarrow>
  (\<forall>c \<in> set cs. ef_run_id c = r \<and> (\<forall>i \<in> set (ef_evidence_ids c). ev i \<noteq> None) \<and>
     all_cited text (ef_evidence_ids c))"
  by (induction cs) (auto simp: list_ex_iff)

text \<open>
  Documented behaviour of the JSON library on a document: its dump is read back as an equal
  dictionary, and neither a dump (control characters are escaped) nor a digest holds a NUL.
\<close>

definition reads_back_report :: "report_codec \<Rightarrow> ReportDocument \<Rightarrow> bool" where
  "reads_back_report rc r \<longleftrightarrow>
     (let text = rc_dumps rc (report_json rc r) @ newline in
      (\<exists>v. rc_loads rc text = Inr v \<and> key_sorted v = key_sorted (report_json rc r) \<and>
         jget ''report_id'' v = Some (JStr (rd_report_id r))) \<and>
      no_nul text \<and> (\<forall>s. no_nul (rc_sha256 rc s)))"

definition reportable :: "ReportDocument \<Rightarrow> bool" where
  "reportable r \<longleftrightarrow> (let evidence = evidence_by_id (rd_evidence r) in
     (\<forall>c \<in> set (rd_claims r). \<forall>i \<in> set (cl_evidence_ids c). 
        (case evidence i of None \<Rightarrow> False | Some e \<Rightarrow> supports c e)) \<and>
     (\<forall>c \<in> set (rd_conflicts r). ef_run_id c = rd_run_id r \<and>
        (\<forall>i \<in> set (ef_evidence_ids c). evidence i \<noteq> None)))"

lemma found_iff: "(case x of None \<Rightarrow> False | Some e \<Rightarrow> P e) \<longleftrightarrow> (\<exists>e. x = Some e \<and> P e)"
  by (cases x) simp_all

lemma verify_report_bundle:
  assumes "reads_back_report rc r"
  shows "verify_bundle rc (report_bundle rc r) = Inr () \<longleftrightarrow> reportable r"
proof -
  let ?ev = "evidence_by_id (rd_evidence r)"
  have "all_cited (markdown r) (cl_evidence_ids c)" if "c \<in> set (rd_claims r)" for c
    using markdown_cites(1)[OF that] by (auto simp: all_cited_def list_all_iff)
  then have c: "verify_cited (markdown r) ?ev (rd_claims r) = Inr () \<longleftrightarrow>
      (\<forall>c \<in> set (rd_claims r). verify_claim c ?ev = Inr ())"
    by (auto simp: verify_cited_iff)
  have "all_cited (markdown r) (ef_evidence_ids c)" if "c \<in> set (rd_conflicts r)" for c
    using markdown_cites(2)[OF that] by (auto simp: all_cited_def list_all_iff)
  then have k: "verify_conflicts (rd_run_id r) (markdown r) ?ev (rd_conflicts r) = Inr () \<longleftrightarrow>
      (\<forall>c \<in> set (rd_conflicts r). ef_run_id c = rd_run_id r \<and> (\<forall>i \<in> set (ef_evidence_ids c). ?ev i \<noteq> None))"
    by (auto simp: verify_conflicts_iff)
  show ?thesis
    using assms c k
    by (auto simp: verify_bundle_def report_bundle_def reads_back_report_def reportable_def Let_def
        verify_claim_iff found_iff simp del: verify_cited.simps verify_conflicts.simps split: sum.splits)
qed

definition next_report :: "ReportInput \<Rightarrow> world \<Rightarrow> ReportDocument" where
  "next_report i w = report_document i (''report-'' @ w_uuid w (w_ids w)) (w_clock w (w_reads w))"

lemma generate_run:
  assumes "reads_back_report rc (next_report i w)"
  shows "(\<exists>b w'. generate rc i w = (Inr b, w')) \<longleftrightarrow>
      reportable (next_report i w) \<and> valid_ReportDocument (next_report i w) \<and>
      no_nul (markdown (next_report i w))" (is "?G \<longleftrightarrow> ?R")
    and "generate rc i w = (Inr b, w') \<Longrightarrow> b = report_bundle rc (next_report i w) \<and>
      verify_bundle rc b = Inr () \<and> w_db w' = w_db w"
proof -
  let ?r = "next_report i w"
  let ?w = "w\<lparr>w_ids := Suc (w_ids w), w_reads := Suc (w_reads w)\<rparr>"
  let ?claims = "verify_claims (evidence_by_id (rp_evidence i)) (rp_claims i) = Inr ()"
  let ?ok = "?claims \<and> valid_ReportDocument ?r \<and> valid_ReportBundle (report_bundle rc ?r) \<and>
     verify_bundle rc (report_bundle rc ?r) = Inr ()"
  have run: "generate rc i w = (Inr b, w') \<longleftrightarrow> ?ok \<and> b = report_bundle rc ?r \<and> w' = ?w" for b w'
    by (auto simp: generate_def bnd_def lift_sum_def ids_new_def clock_now_def ret_def checked_def
        next_report_def split: sum.splits)
  have claims: "reportable ?r \<Longrightarrow> ?claims"
    by (auto simp: verify_claims_iff verify_claim_iff found_iff reportable_def next_report_def report_document_def Let_def)
  have "valid_ReportBundle (report_bundle rc ?r) \<longleftrightarrow> no_nul (markdown ?r)"
    using assms by (auto simp: valid_ReportBundle_def report_bundle_def reads_back_report_def Let_def)
  then show "?G \<longleftrightarrow> ?R"
    using claims verify_report_bundle[OF assms] unfolding run by auto
  show "generate rc i w = (Inr b, w') \<Longrightarrow> b = report_bundle rc ?r \<and> verify_bundle rc b = Inr () \<and> w_db w' = w_db w"
    unfolding run by auto
qed

text \<open>
  C30. A report is issued exactly when it can be verified: \<open>generate\<close> returns if and only if every
  claim is supported by evidence of the report and every conflict names evidence of the report and
  its run (and the texts hold no NUL). The bundle it returns passes \<open>verify\<close>: hashes, identity and
  JSON agree with the document, and every evidence identifier a claim cites stands in the Markdown.
\<close>

theorem report_generate_spec:
  assumes "reads_back_report rc (next_report i w)"
  shows "((\<exists>b w'. generate rc i w = (Inr b, w')) \<longleftrightarrow>
      reportable (next_report i w) \<and> valid_ReportDocument (next_report i w) \<and>
      no_nul (markdown (next_report i w))) \<and>
    (\<forall>b w'. generate rc i w = (Inr b, w') \<longrightarrow> verify_bundle rc b = Inr () \<and>
       rb_report b = next_report i w \<and> w_db w' = w_db w \<and>
       (\<forall>c \<in> set (rp_claims i). \<forall>e \<in> set (cl_evidence_ids c). contains (''['' @ e @ '']'') (rb_markdown b)))"
proof (intro conjI allI impI)
  show "(\<exists>b w'. generate rc i w = (Inr b, w')) \<longleftrightarrow>
      reportable (next_report i w) \<and> valid_ReportDocument (next_report i w) \<and>
      no_nul (markdown (next_report i w))"
    using generate_run(1)[OF assms] .
next
  fix b w' assume "generate rc i w = (Inr b, w')"
  note b = generate_run(2)[OF assms this]
  show "verify_bundle rc b = Inr ()" "w_db w' = w_db w" using b by blast+
  show "rb_report b = next_report i w" using b by (simp add: report_bundle_def Let_def)
  show "\<forall>c \<in> set (rp_claims i). \<forall>e \<in> set (cl_evidence_ids c). contains (''['' @ e @ '']'') (rb_markdown b)"
    using b markdown_cites(1)[of _ "next_report i w"]
    by (auto simp: report_bundle_def Let_def next_report_def report_document_def)
qed

definition small_report :: ReportInput where
  "small_report = \<lparr>rp_run = hd (db_runs ledger_db), rp_plan = example_plan, rp_tasks = [],
     rp_evidence = db_evidence ledger_db,
     rp_claims = [\<lparr>cl_claim_id = ''CLAIM-1'', cl_run_id = ''r'', cl_text = ''It works'',
       cl_kind = VERIFIED_FACT, cl_evidence_ids = [''EVID-1''], cl_related_task_id = None\<rparr>],
     rp_executive_summary = ''Done'', rp_changed_artifacts = [], rp_research_findings = [],
     rp_verification_performed = [], rp_test_results = [], rp_conflicts = [],
     rp_failures_and_recoveries = [], rp_remaining_risks = [], rp_limitations = [],
     rp_recommended_next_actions = [], rp_reproduction_instructions = [''Run it''], rp_partial = False\<rparr>"

definition small_codec :: "json \<Rightarrow> report_codec" where
  "small_codec v = \<lparr>rc_sha256 = (\<lambda>s. ''00''), rc_float = (\<lambda>x. ''1.0''), rc_dumps = (\<lambda>v. ''{}''),
     rc_loads = (\<lambda>s. Inr v)\<rparr>"

definition read_codec :: "ReportDocument \<Rightarrow> report_codec" where
  "read_codec r = small_codec (report_json (small_codec JNull) r)"

lemma read_codec_json: "report_json (read_codec r) = report_json (small_codec JNull)"
  by (simp add: fun_eq_iff report_json_def evidence_json_def read_codec_def small_codec_def)

theorem report_generate_spec_witness:
  "\<exists>b w'. generate (read_codec (next_report small_report (quiet_world ledger_db))) small_report
      (quiet_world ledger_db) = (Inr b, w') \<and> contains ''[EVID-1]'' (rb_markdown b)"
proof -
  let ?w = "quiet_world ledger_db"
  let ?r = "next_report small_report ?w"
  have readable: "reads_back_report (read_codec ?r) ?r"
    unfolding reads_back_report_def Let_def read_codec_json
    by (simp add: read_codec_def small_codec_def no_nul_def report_json_def newline_def)
  have "reportable ?r" by code_simp
  moreover have "valid_ReportDocument ?r" by code_simp
  moreover have "no_nul (markdown ?r)" by code_simp
  moreover have "\<forall>c \<in> set (rp_claims small_report). ''EVID-1'' \<in> set (cl_evidence_ids c)"
    "rp_claims small_report \<noteq> []"
    by (simp_all add: small_report_def)
  ultimately show ?thesis using report_generate_spec[OF readable]
    by (metis append.simps(1) append.simps(2) last_in_set)
qed

end
