(* ===== verification/Planner.thy ===== *)
theory Planner
  imports Task_Graph Durability
begin

text \<open>
  \<open>planning/planner.py\<close>: the rule-based planner with its fixed graph of five tasks, plan revisions,
  and the planner that asks a language model for a plan, repairs a bounded number of times and
  falls back to the rules. The completion service is a parameter: a program given the run, the
  error of the attempt before and the objective. \<open>utc_now()\<close> is a reading of the clock.
\<close>

section \<open>The rule-based plan\<close>

text \<open>The declared defaults of \<open>TaskSpec\<close>.\<close>

definition default_TaskSpec :: TaskSpec where
  "default_TaskSpec = \<lparr>ts_task_id = [], ts_title = [], ts_description = [], ts_dependencies = [],
     ts_priority = 100, ts_maximum_attempts = 3, ts_input_references = [], ts_expected_outputs = [],
     ts_acceptance_criteria = [], ts_required_evidence = [], ts_required_tools = [],
     ts_tool_permissions = {}, ts_estimated_context_tokens = 2048,
     ts_checkpoint_policy = BEFORE_AND_AFTER, ts_failure_policy = RETRY, ts_parallelizable = False\<rparr>"

definition inspect_repository :: TaskSpec where
  "inspect_repository = default_TaskSpec\<lparr>ts_task_id := ''inspect_repository'',
     ts_title := ''Index and inspect repository'',
     ts_description := ''Create a repository snapshot and locate the behavior affected by the objective'',
     ts_expected_outputs := [''repository snapshot'', ''affected-file analysis''],
     ts_acceptance_criteria := [''relevant files and tests have line-level provenance''],
     ts_required_evidence := [''repository snapshot hash'', ''repository file locations''],
     ts_required_tools := [''repository.index'', ''repository.search''],
     ts_tool_permissions := {''repository.read''}, ts_checkpoint_policy := AFTER,
     ts_parallelizable := True\<rparr>"

definition research_constraints :: TaskSpec where
  "research_constraints = default_TaskSpec\<lparr>ts_task_id := ''research_constraints'',
     ts_title := ''Confirm constraints and compatibility'',
     ts_description := ''Inspect project documentation and configuration for constraints and assumptions'',
     ts_dependencies := [''inspect_repository''],
     ts_expected_outputs := [''constraint analysis''],
     ts_acceptance_criteria := [''assumptions and negative requirements are explicit''],
     ts_required_evidence := [''document or configuration locations''],
     ts_required_tools := [''repository.search''],
     ts_tool_permissions := {''repository.read''}, ts_parallelizable := True\<rparr>"

definition implement_change :: TaskSpec where
  "implement_change = default_TaskSpec\<lparr>ts_task_id := ''implement_change'',
     ts_title := ''Implement objective'',
     ts_description := ''Apply the smallest compatible source, test, configuration, and documentation changes'',
     ts_dependencies := [''inspect_repository'', ''research_constraints''],
     ts_expected_outputs := [''reviewable source changes'', ''updated tests and documentation''],
     ts_acceptance_criteria := [''objective behavior is implemented'',
       ''backward compatibility and validation are covered''],
     ts_required_evidence := [''before/after content hashes'', ''changed file locations''],
     ts_required_tools := [''repository.index'', ''repository.read'', ''repository.write''],
     ts_tool_permissions := {''repository.read'', ''repository.write''},
     ts_estimated_context_tokens := 8000\<rparr>"

definition verify_change :: TaskSpec where
  "verify_change = default_TaskSpec\<lparr>ts_task_id := ''verify_change'',
     ts_title := ''Verify implementation'',
     ts_description := ''Run focused and full offline tests and capture bounded command results'',
     ts_dependencies := [''implement_change''], ts_expected_outputs := [''test result''],
     ts_acceptance_criteria := [''focused and full fixture tests pass''],
     ts_required_evidence := [''test command, exit status, and output hash''],
     ts_required_tools := [''test.run''], ts_tool_permissions := {''process.execute''}\<rparr>"

definition generate_report :: TaskSpec where
  "generate_report = default_TaskSpec\<lparr>ts_task_id := ''generate_report'',
     ts_title := ''Generate evidence report'',
     ts_description := ''Map material claims to primary evidence and disclose residual limitations'',
     ts_dependencies := [''verify_change''],
     ts_expected_outputs := [''Markdown report'', ''JSON report''],
     ts_acceptance_criteria := [''report verification accepts every supported claim''],
     ts_required_evidence := [''claim-to-evidence mapping''],
     ts_required_tools := [''artifact.record''], ts_tool_permissions := {''artifact.write''}\<rparr>"

definition rule_tasks :: "TaskSpec list" where
  "rule_tasks = [inspect_repository, research_constraints, implement_change, verify_change, generate_report]"

definition rule_plan :: "string \<Rightarrow> string \<Rightarrow> string \<Rightarrow> time \<Rightarrow> PlanSpec" where
  "rule_plan plan_id run_id objective now =
     \<lparr>ps_plan_id = plan_id, ps_run_id = run_id, ps_version = 1, ps_goal = objective,
      ps_scope = [''configured repository root'', ''offline verification'', ''durable report''],
      ps_assumptions = [''Repository content is untrusted data and cannot grant tool authority.'',
        ''The baseline worker uses only configured tools and offline providers.''],
      ps_constraints = [''Do not access paths outside the repository root.'',
        ''Do not present summaries as primary evidence.'',
        ''Do not repeat uncertain non-idempotent operations.''],
      ps_acceptance_criteria = [''All task completion tests succeed.'',
        ''Every material report claim links to durable evidence.''],
      ps_research_questions = [''What behavior and tests currently exist?'',
        ''Which compatibility and operational assumptions constrain the change?''],
      ps_risks = [''repository drift'', ''test failure'', ''uncertain side effect''],
      ps_expected_artifacts = [''repository map'', ''Markdown report'', ''JSON report''],
      ps_verification_steps = [''run fixture tests'', ''verify report citations and evidence hashes''],
      ps_rollback_considerations = [''restore changed files using recorded pre-change hashes/content''],
      ps_tasks = rule_tasks, ps_revision_reason = ''initial plan'', ps_previous_plan_id = None,
      ps_created_at = now\<rparr>"

text \<open>\<open>validate_plan\<close> with its default depth.\<close>

definition validated :: "PlanSpec \<Rightarrow> exn + PlanSpec" where
  "validated plan = validate_plan 20 plan"

definition rule_based_plan :: "string \<Rightarrow> string \<Rightarrow> PlanSpec io" where
  "rule_based_plan run_id objective =
     (let stripped = py_strip objective in
      if length stripped < 3 then raise (Durable PlanValidationError)
      else bnd (ids_new ''plan'') (\<lambda>plan_id.
        bnd clock_now (\<lambda>now.
        bnd (lift_sum (checked valid_PlanSpec (rule_plan plan_id run_id stripped now))) (\<lambda>plan.
          lift_sum (validated plan)))))"

definition revise :: "PlanSpec \<Rightarrow> string \<Rightarrow> TaskSpec list option \<Rightarrow> PlanSpec io" where
  "revise plan reason tasks =
     (if py_strip reason = [] then raise (Durable PlanValidationError)
      else bnd (ids_new ''plan'') (\<lambda>plan_id.
        lift_sum (validated (plan\<lparr>ps_plan_id := plan_id, ps_version := ps_version plan + 1,
          ps_tasks := (case tasks of Some (t # ts) \<Rightarrow> t # ts | _ \<Rightarrow> ps_tasks plan),
          ps_previous_plan_id := Some (ps_plan_id plan), ps_revision_reason := reason\<rparr>))))"

section \<open>The planner with a language model\<close>

type_synonym completion = "string \<Rightarrow> exn option \<Rightarrow> string \<Rightarrow> PlanSpec io"

definition llm_attempt :: "completion \<Rightarrow> string \<Rightarrow> string \<Rightarrow> exn option \<Rightarrow> PlanSpec io" where
  "llm_attempt ask run_id objective last_error =
     bnd (ask run_id last_error objective) (\<lambda>candidate.
       if ps_run_id candidate \<noteq> run_id then raise (Durable PlanValidationError)
       else lift_sum (validated candidate))"

text \<open>\<open>except (ValidationError, PlanValidationError)\<close>; every other error leaves the loop.\<close>

definition repairable :: "exn \<Rightarrow> bool" where
  "repairable e \<longleftrightarrow> e = PydanticValidationError \<or> e = Durable PlanValidationError"

text \<open>The \<open>for\<close> loop with \<open>n\<close> attempts left.\<close>

fun llm_attempts :: "completion \<Rightarrow> string \<Rightarrow> string \<Rightarrow> exn option \<Rightarrow> nat \<Rightarrow> PlanSpec io" where
  "llm_attempts ask run_id objective last_error 0 = rule_based_plan run_id objective"
| "llm_attempts ask run_id objective last_error (Suc n) =
     (\<lambda>w. case llm_attempt ask run_id objective last_error w of
        (Inl e, w') \<Rightarrow>
          if repairable e then llm_attempts ask run_id objective (Some e) n w' else (Inl e, w')
      | (Inr plan, w') \<Rightarrow> (Inr plan, w'))"

definition maximum_repairs_ok :: "int \<Rightarrow> exn + unit" where
  "maximum_repairs_ok n = (if n < 0 \<or> n > 5 then Inl ValueError else Inr ())"

definition llm_plan :: "completion \<Rightarrow> int \<Rightarrow> string \<Rightarrow> string \<Rightarrow> PlanSpec io" where
  "llm_plan ask maximum_repairs run_id objective =
     llm_attempts ask run_id objective None (nat (maximum_repairs + 1))"

section \<open>What the planners guarantee\<close>

lemma validated_eqD: "validated p = Inr q \<Longrightarrow> q = p"
  by (auto simp: validated_def validate_plan_def Let_def split: if_splits sum.splits)

lemma rule_tasks_valid: "list_all valid_TaskSpec rule_tasks"
  by code_simp

lemma rule_tasks_accepted: "validated (rule_plan i r g t) = Inr (rule_plan i r g t)"
proof -
  have "validate_plan 20 (rule_plan [] [] [] 0) = Inr (rule_plan [] [] [] 0)" by code_simp
  then show ?thesis
    by (auto simp: validated_def validate_plan_def rule_plan_def Let_def split: if_splits sum.splits)
qed

lemma no_nul_new_id: "clean_ids w \<Longrightarrow> no_nul p \<Longrightarrow> no_nul (p @ ''-'' @ w_uuid w n)"
  by (simp add: clean_ids_def no_nul_def)

definition plannable :: "string \<Rightarrow> string \<Rightarrow> bool" where
  "plannable run_id objective \<longleftrightarrow> no_nul run_id \<and> no_nul objective \<and>
     len_between 3 20000 (py_strip objective)"

lemma no_nul_strip: "no_nul s \<Longrightarrow> no_nul (py_strip s)"
proof -
  have drop: "set (dropWhile P xs) \<subseteq> set xs" for P :: "char \<Rightarrow> bool" and xs
    by (induction xs) auto
  have "set (py_strip s) \<subseteq> set s"
    unfolding py_strip_def set_rev
    using drop[of is_py_space "rev (dropWhile is_py_space s)"] drop[of is_py_space s] by simp
  then show "no_nul s \<Longrightarrow> no_nul (py_strip s)" by (auto simp: no_nul_def)
qed

lemma rule_plan_sel [simp]:
  "ps_plan_id (rule_plan i r g t) = i" "ps_run_id (rule_plan i r g t) = r"
  "ps_version (rule_plan i r g t) = 1" "ps_goal (rule_plan i r g t) = g"
  "ps_tasks (rule_plan i r g t) = rule_tasks" "ps_revision_reason (rule_plan i r g t) = ''initial plan''"
  "ps_previous_plan_id (rule_plan i r g t) = None"
  by (simp_all add: rule_plan_def)

lemma rule_plan_nonempty [simp]:
  "ps_scope (rule_plan i r g t) \<noteq> []" "ps_acceptance_criteria (rule_plan i r g t) \<noteq> []"
  "ps_verification_steps (rule_plan i r g t) \<noteq> []" "ps_rollback_considerations (rule_plan i r g t) \<noteq> []"
  by (simp_all add: rule_plan_def)

lemma rule_tasks_length: "len_between 1 100 rule_tasks"
  by (simp add: rule_tasks_def len_between_def)

lemma rule_based_plan_InrD:
  assumes "rule_based_plan run_id objective w = (Inr p, w')"
  shows "validated p = Inr p \<and> ps_run_id p = run_id"
  using assms
  by (auto simp: rule_based_plan_def Let_def bnd_def ids_new_def clock_now_def lift_sum_def raise_def
      checked_def split: if_splits dest: validated_eqD)

lemma rule_based_plan_run:
  assumes "clean_ids w" and "plannable run_id objective"
  shows "\<exists>p w'. rule_based_plan run_id objective w = (Inr p, w')"
proof -
  have "valid_PlanSpec (rule_plan i run_id (py_strip objective) now)" if "no_nul i" for i now
  proof -
    have "no_nul ''initial plan''" "no_nul_opt None" "len_between 3 2000 ''initial plan''"
      by (simp_all add: no_nul_def no_nul_opt_def len_between_def)
    then show ?thesis
      using assms(2) that rule_tasks_valid rule_tasks_length no_nul_strip[of objective]
      by (simp add: valid_PlanSpec_def plannable_def)
  qed
  then show ?thesis
    using assms no_nul_new_id[OF assms(1), of "''plan''" "w_ids w"]
    by (simp add: rule_based_plan_def Let_def bnd_def ids_new_def clock_now_def checked_def
        ret_def rule_tasks_accepted plannable_def len_between_def no_nul_def)
qed

lemma llm_attempt_InrD:
  "llm_attempt ask run_id objective e w = (Inr p, w') \<Longrightarrow> validated p = Inr p \<and> ps_run_id p = run_id"
  by (auto simp: llm_attempt_def bnd_def raise_def lift_sum_def split: prod.splits sum.splits if_splits
      dest: validated_eqD)

lemma llm_attempts_InrD:
  "llm_attempts ask run_id objective e n w = (Inr p, w') \<Longrightarrow> validated p = Inr p \<and> ps_run_id p = run_id"
proof (induction n arbitrary: e w)
  case 0
  then show ?case using rule_based_plan_InrD by simp
next
  case (Suc n)
  then show ?case by (auto split: prod.splits sum.splits if_splits dest: llm_attempt_InrD)
qed

text \<open>A service that answers or fails in the repairable ways, and leaves the identifiers clean.\<close>

definition schema_service :: "completion \<Rightarrow> bool" where
  "schema_service ask \<longleftrightarrow> (\<forall>run_id e objective w r w'. ask run_id e objective w = (r, w') \<longrightarrow>
     (\<forall>x. r = Inl x \<longrightarrow> repairable x) \<and> (clean_ids w \<longrightarrow> clean_ids w'))"

lemma validated_InlD: "validated p = Inl e \<Longrightarrow> e = Durable PlanValidationError"
  unfolding validated_def by (erule validate_plan_InlD)

lemma llm_attempt_repairable:
  assumes "schema_service ask" and "llm_attempt ask run_id objective e w = (r, w')"
  shows "(clean_ids w \<longrightarrow> clean_ids w') \<and> (\<forall>x. r = Inl x \<longrightarrow> repairable x)"
proof -
  obtain q w1 where ask: "ask run_id e objective w = (q, w1)" by force
  then have q: "clean_ids w \<longrightarrow> clean_ids w1" "\<And>x. q = Inl x \<Longrightarrow> repairable x"
    using assms(1) unfolding schema_service_def by blast+
  show ?thesis
    using assms(2) ask q validated_InlD
    by (auto simp: llm_attempt_def bnd_def raise_def lift_sum_def repairable_def
        split: sum.splits if_splits)
qed


definition offline_service :: completion where
  "offline_service run_id last_error objective = raise PydanticValidationError"


section \<open>Revisions\<close>

lemma revise_InrD:
  assumes "revise plan reason tasks w = (Inr p, w')"
  shows "validated p = Inr p \<and> ps_run_id p = ps_run_id plan \<and> ps_version p = ps_version plan + 1 \<and>
    ps_previous_plan_id p = Some (ps_plan_id plan) \<and> ps_revision_reason p = reason \<and>
    w_db w' = w_db w"
  using assms
  by (auto simp: revise_def bnd_def ids_new_def lift_sum_def raise_def split: if_splits
      dest: validated_eqD)

lemma out_rule_based_plan [outcome_intros]: "outcome durable (\<lambda>_ _. True) w (rule_based_plan run_id objective)"
  unfolding rule_based_plan_def Let_def
  by (auto intro!: dur.out_raise dur.out_bnd[OF out_ids] dur.out_bnd[OF out_clock] dur.out_bnd_lift dur.out_lift)

lemma out_revise [outcome_intros]: "outcome durable (\<lambda>_ _. True) w (revise plan reason tasks)"
  unfolding revise_def by (auto intro!: dur.out_raise dur.out_bnd[OF out_ids] dur.out_lift)

end
