(* ===== verification/Run_Report.thy ===== *)
theory Run_Report
  imports Report_Generator Retry Context_Manager Checkpoint_Manager Tool_Execution
begin

text \<open>
  The parts of \<open>orchestration/orchestrator.py\<close> that render a run: the audit entries taken from the
  event log and \<open>_generate_report\<close>, which reads evidence, claims and events, has the report
  generated and stores its two formats.

  \<open>agent_env\<close> holds what the orchestrator is built from: the settings, the context budget, the
  codecs, the hash functions of the standard library, the task worker (a program of its own behind
  the protocol \<open>TaskWorker\<close>), the text of an exception and the timer of the heartbeat.
\<close>

record agent_env =
  ae_settings :: Settings
  ae_budget :: ContextBudget
  ae_codec :: codec
  ae_report :: report_codec
  ae_sha256 :: "string \<Rightarrow> string"
  ae_sha256_bytes :: "string \<Rightarrow> string"
  ae_worker :: "RunRecord \<Rightarrow> TaskRecord \<Rightarrow> TaskOutcome option io"
  ae_message :: "exn \<Rightarrow> string"
  ae_beats :: "world \<Rightarrow> nat"

section \<open>Audit entries\<close>

text \<open>
  \<open>str(value)\<close> of a payload member. A member that is missing prints as \<open>None\<close>, like null; the
  representation of lists and dictionaries, which no audited member is, is not expanded.
\<close>

fun py_str :: "json option \<Rightarrow> string" where
  "py_str (Some (JStr s)) = s"
| "py_str (Some (JInt i)) = show_int i"
| "py_str (Some (JFloat f)) = f"
| "py_str (Some (JBool b)) = (if b then ''True'' else ''False'')"
| "py_str (Some (JArr xs)) = ''[...]''"
| "py_str (Some (JObj kvs)) = ''{...}''"
| "py_str _ = ''None''"

definition bounded :: "string \<Rightarrow> string" where
  "bounded s = take 300 (join_with '' '' (py_split s))"

definition reportable_audit_entry :: "EventORM \<Rightarrow> string option" where
  "reportable_audit_entry event =
     (let event_type = ev_event_type event;
          field = (\<lambda>k. bounded (py_str (jget k (ev_payload event))));
          task_id = bounded (case ev_task_id event of Some (c # cs) \<Rightarrow> c # cs | _ \<Rightarrow> ''run'') in
      if \<not> (case ev_payload event of JObj _ \<Rightarrow> True | _ \<Rightarrow> False) then None
      else if event_type \<in> {''task.failed_retryable'', ''task.failed_terminal''} then
        Some (event_type @ '': '' @ task_id @ '', attempt '' @ field ''attempt'' @ '', category '' @
          field ''category'' @ '': '' @ field ''message'')
      else if event_type \<in> {''run.paused'', ''run.cancelled'', ''run.failed''} then
        Some (event_type @ '': '' @ field ''reason'')
      else if event_type = ''manual_review.required'' then
        Some (''manual_review.required: '' @ task_id @ '', category '' @ field ''category'' @ '': '' @
          field ''message'')
      else if event_type = ''recovery.completed'' then
        Some (''recovery.completed: resumed from checkpoint '' @ field ''checkpoint_id'' @
          ''; repository drifted='' @ field ''repository_drifted'')
      else if event_type = ''checkpoint.recovered'' then
        Some (''checkpoint.recovered: selected sequence '' @ field ''selected_sequence'' @
          '' after rejecting '' @ field ''rejected_sequences'')
      else if event_type = ''repository.drift_detected'' then
        Some (''repository.drift_detected: policy '' @ field ''policy'')
      else None)"

section \<open>The report of a run\<close>

definition verification_entry :: "EvidenceRecord \<Rightarrow> VerificationEntry" where
  "verification_entry e =
     \<lparr>ve_command = er_source e, ve_exit_code = exit_code_of (er_metadata e),
      ve_outcome = take 500 (er_excerpt e), ve_evidence_ids = [er_evidence_id e]\<rparr>"

definition report_input ::
  "RunRecord \<Rightarrow> PlanSpec \<Rightarrow> TaskRecord list \<Rightarrow> EvidenceRecord list \<Rightarrow> Claim list \<Rightarrow> EventORM list \<Rightarrow>
   bool \<Rightarrow> ReportInput" where
  "report_input run plan tasks evidence claims events partial =
     (let tests = filter (\<lambda>e. er_evidence_type e = TEST_RESULT) evidence in
      \<lparr>rp_run = run, rp_plan = plan, rp_tasks = tasks, rp_evidence = evidence, rp_claims = claims,
       rp_executive_summary =
         (if \<not> partial then ''The run completed its validated plan and generated an evidence-linked report.''
          else ''The run ended in '' @ RunState_value (rr_state run) @
            ''; durable partial results are preserved.''),
       rp_changed_artifacts = sorted_list_of_set (er_source ` set
         (filter (\<lambda>e. er_evidence_type e \<in> {REPOSITORY_FILE, ARTIFACT}) evidence)),
       rp_research_findings = map cl_text
         (filter (\<lambda>c. cl_kind c \<in> {VERIFIED_FACT, INFERENCE}) claims),
       rp_verification_performed = map verification_entry tests,
       rp_test_results = map (\<lambda>e. er_excerpt e @ '' ['' @ er_evidence_id e @ '']'') tests,
       rp_conflicts = [], rp_failures_and_recoveries = List.map_filter reportable_audit_entry events,
       rp_remaining_risks = ps_risks plan,
       rp_limitations = [''Report conclusions are scoped to the recorded repository snapshot and offline tests.''],
       rp_recommended_next_actions = [''Review the changed files and deploy through the normal release process.''],
       rp_reproduction_instructions = [''Run `durable-agent verify RUN_ID`.'',
         ''Run the repository test command shown in Verification performed.''],
       rp_partial = partial\<rparr>)"

definition run_report ::
  "agent_env \<Rightarrow> RunRecord \<Rightarrow> PlanSpec \<Rightarrow> TaskRecord list \<Rightarrow> bool \<Rightarrow> string io" where
  "run_report env run plan tasks partial =
     bnd (get_evidence (rr_run_id run)) (\<lambda>evidence.
     bnd (get_claims (rr_run_id run)) (\<lambda>claims.
     bnd (stream (rr_run_id run)) (\<lambda>events.
     bnd (lift_sum (checked
       (\<lambda>i. list_all valid_VerificationEntry (rp_verification_performed i) \<and> valid_ReportInput i)
       (report_input run plan tasks evidence claims events partial))) (\<lambda>input.
     bnd (generate (ae_report env) input) (\<lambda>bundle.
     bnd (save_report (rd_report_id (rb_report bundle)) (rr_run_id run) ''markdown''
       (utf8 (rb_markdown bundle)) (rb_markdown_hash bundle) partial) (\<lambda>_.
     bnd (save_report (rd_report_id (rb_report bundle)) (rr_run_id run) ''json''
       (utf8 (rb_json_text bundle)) (rb_json_hash bundle) partial) (\<lambda>_.
     ret (rd_report_id (rb_report bundle)))))))))"

lemma out_run_report [outcome_intros]: "outcome durable (\<lambda>_ _. True) w (run_report env run plan tasks p)"
  unfolding run_report_def
  by (intro dur.out_bnd[OF out_get_evidence] dur.out_bnd[OF out_get_claims] dur.out_bnd[OF out_stream]
      dur.out_bnd_lift dur.out_bnd[OF out_generate] dur.out_bnd[OF out_save_report] dur.out_ret) simp

end
