(* ===== verification/Batch.thy ===== *)
theory Batch
  imports Task_Graph
begin

text \<open>
  The pure scheduling decisions of \<open>orchestration/orchestrator.py\<close>: which ready tasks form a batch,
  which tasks a failed one blocks, and which summary level comes next. The loop that closes the
  blocked set ends because every repetition blocks a task more.
\<close>

section \<open>Selecting a batch\<close>

fun parallel_prefix :: "int \<Rightarrow> TaskRecord list \<Rightarrow> TaskRecord list" where
  "parallel_prefix limit [] = []"
| "parallel_prefix limit (c # cs) =
     (if limit \<le> 0 \<or> \<not> ts_parallelizable (tr_spec c) then [] else c # parallel_prefix (limit - 1) cs)"

definition batch_limit :: "int \<Rightarrow> int \<Rightarrow> int option \<Rightarrow> int" where
  "batch_limit maximum_concurrency executed maximum_tasks =
     (case maximum_tasks of None \<Rightarrow> maximum_concurrency
      | Some m \<Rightarrow> min maximum_concurrency (m - executed))"

definition select_batch :: "int \<Rightarrow> TaskRecord list \<Rightarrow> int \<Rightarrow> int option \<Rightarrow> TaskRecord list" where
  "select_batch maximum_concurrency candidates executed maximum_tasks =
     (let limit = batch_limit maximum_concurrency executed maximum_tasks; first = hd candidates in
      if limit \<le> 1 \<or> \<not> ts_parallelizable (tr_spec first) then [first]
      else parallel_prefix limit candidates)"

section \<open>What a failed task blocks\<close>

text \<open>One pass of the \<open>for\<close> loop over the tasks.\<close>

fun blocked_pass :: "TaskRecord list \<Rightarrow> string set \<Rightarrow> bool \<Rightarrow> string set \<times> bool" where
  "blocked_pass [] blocked changed = (blocked, changed)"
| "blocked_pass (t # ts) blocked changed =
     (if tr_task_id t \<in> blocked then blocked_pass ts blocked changed
      else if blocked \<inter> set (ts_dependencies (tr_spec t)) \<noteq> {}
      then blocked_pass ts (insert (tr_task_id t) blocked) True
      else blocked_pass ts blocked changed)"

lemma blocked_pass_grows: "blocked_pass ts b c = (b', c') \<Longrightarrow> b \<subseteq> b' \<and> b' \<subseteq> b \<union> tr_task_id ` set ts"
proof (induction ts arbitrary: b c)
  case (Cons t ts)
  show ?case
  proof (cases "tr_task_id t \<notin> b \<and> b \<inter> set (ts_dependencies (tr_spec t)) \<noteq> {}")
    case True
    then have "blocked_pass ts (insert (tr_task_id t) b) True = (b', c')" using Cons.prems by simp
    then show ?thesis using Cons.IH by fastforce
  next
    case False
    then have "blocked_pass ts b c = (b', c')" using Cons.prems by (auto split: if_splits)
    then show ?thesis using Cons.IH by fastforce
  qed
qed simp

lemma blocked_pass_changed: "blocked_pass ts b False = (b', True) \<Longrightarrow> b' \<noteq> b"
proof (induction ts arbitrary: b)
  case (Cons t ts)
  show ?case
  proof (cases "tr_task_id t \<notin> b \<and> b \<inter> set (ts_dependencies (tr_spec t)) \<noteq> {}")
    case True
    then have "blocked_pass ts (insert (tr_task_id t) b) True = (b', True)" using Cons.prems by simp
    then have "insert (tr_task_id t) b \<subseteq> b'" using blocked_pass_grows by blast
    then show ?thesis using True by blast
  next
    case False
    then have "blocked_pass ts b False = (b', True)" using Cons.prems by (auto split: if_splits)
    then show ?thesis by (rule Cons.IH)
  qed
qed simp

text \<open>The \<open>while changed\<close> loop.\<close>

function close_blocked :: "TaskRecord list \<Rightarrow> string set \<Rightarrow> string set" where
  "close_blocked tasks blocked =
     (case blocked_pass tasks blocked False of
        (blocked', changed) \<Rightarrow> if changed then close_blocked tasks blocked' else blocked')"
  by pat_completeness auto

termination
proof (relation "measure (\<lambda>(tasks, b). card (tr_task_id ` set tasks - b))", rule wf_measure)
  fix tasks :: "TaskRecord list" and b b' c'
  assume "(b', c') = blocked_pass tasks b False" "c'"
  then have r: "blocked_pass tasks b False = (b', True)" by simp
  have sub: "b \<subseteq> b'" "b' \<subseteq> b \<union> tr_task_id ` set tasks" "b' \<noteq> b"
    using blocked_pass_grows[OF r] blocked_pass_changed[OF r] by auto
  then obtain x where "x \<in> b'" "x \<notin> b" by blast
  then have "tr_task_id ` set tasks - b' \<subset> tr_task_id ` set tasks - b" using sub by blast
  then show "((tasks, b'), (tasks, b)) \<in> measure (\<lambda>(tasks, b). card (tr_task_id ` set tasks - b))"
    by (simp add: psubset_card_mono)
qed

declare close_blocked.simps [simp del]

definition blocked_by :: "TaskRecord list \<Rightarrow> string \<Rightarrow> string set" where
  "blocked_by tasks failed_task_id = close_blocked tasks {failed_task_id}"

section \<open>Summary levels\<close>

definition next_summary_level :: "SummaryRecord option \<Rightarrow> SummaryLevel \<times> int" where
  "next_summary_level current = (case current of None \<Rightarrow> (SL_TASK, 1)
     | Some s \<Rightarrow> if 3 \<le> su_generation s then (SL_TASK, 1)
         else if su_generation s = 1 then (SL_TASK_GROUP, 2) else (SL_RUN, 3))"

lemma next_summary_level_range: "1 \<le> snd (next_summary_level s) \<and> snd (next_summary_level s) \<le> 3"
  by (auto simp: next_summary_level_def split: option.splits)

section \<open>The blocked set is the set of descendants\<close>

text \<open>The task \<open>x\<close> waits for \<open>d\<close>: one edge, read off the records.\<close>

definition waits_for :: "TaskRecord list \<Rightarrow> (string \<times> string) set" where
  "waits_for tasks = {(d, x). \<exists>t \<in> set tasks. x = tr_task_id t \<and> d \<in> set (ts_dependencies (tr_spec t))}"

lemma blocked_pass_sound:
  "blocked_pass ts b c = (b', c') \<Longrightarrow> set ts \<subseteq> set tasks \<Longrightarrow> b' \<subseteq> (waits_for tasks)\<^sup>* `` b"
proof (induction ts arbitrary: b c)
  case (Cons t ts)
  show ?case
  proof (cases "tr_task_id t \<notin> b \<and> b \<inter> set (ts_dependencies (tr_spec t)) \<noteq> {}")
    case True
    then have "blocked_pass ts (insert (tr_task_id t) b) True = (b', c')" using Cons.prems by simp
    then have b': "b' \<subseteq> (waits_for tasks)\<^sup>* `` insert (tr_task_id t) b"
      using Cons.prems(2) by (intro Cons.IH) simp_all
    obtain d where "d \<in> b" "(d, tr_task_id t) \<in> waits_for tasks"
      using True Cons.prems(2) by (auto simp: waits_for_def)
    then have "(waits_for tasks)\<^sup>* `` insert (tr_task_id t) b \<subseteq> (waits_for tasks)\<^sup>* `` b"
      by (blast intro: converse_rtrancl_into_rtrancl)
    then show ?thesis using b' by blast
  next
    case False
    then have "blocked_pass ts b c = (b', c')" using Cons.prems by (auto split: if_splits)
    then show ?thesis using Cons by simp
  qed
qed auto

lemma blocked_pass_True: "blocked_pass ts b True = (b', c') \<Longrightarrow> c'"
  by (induction ts arbitrary: b) (auto split: if_splits)

lemma blocked_unchanged: "blocked_pass ts b c = (b', False) \<Longrightarrow> b' = b"
  by (induction ts) (auto split: if_splits dest: blocked_pass_True)

lemma blocked_pass_closed:
  "blocked_pass ts b c = (b', False) \<Longrightarrow> t \<in> set ts \<Longrightarrow> b \<inter> set (ts_dependencies (tr_spec t)) \<noteq> {} \<Longrightarrow>
   b' = b \<and> tr_task_id t \<in> b"
proof (induction ts arbitrary: b c)
  case (Cons u us)
  have nu: "tr_task_id u \<in> b \<or> b \<inter> set (ts_dependencies (tr_spec u)) = {}"
    using Cons.prems(1) blocked_pass_True[of us "insert (tr_task_id u) b"] by (auto split: if_splits)
  then have run: "blocked_pass us b c = (b', False)" using Cons.prems(1) by (auto split: if_splits)
  show ?case
  proof (cases "t = u")
    case True
    then show ?thesis using nu blocked_unchanged[OF run] Cons.prems(3) by blast
  next
    case False
    then show ?thesis using Cons.IH[OF run] Cons.prems by simp
  qed
qed simp

lemma close_blocked_eq: "close_blocked tasks b = (waits_for tasks)\<^sup>* `` b"
proof (induction tasks b rule: close_blocked.induct)
  case (1 tasks b)
  obtain b' c' where p: "blocked_pass tasks b False = (b', c')" by force
  have sub: "b \<subseteq> b'" "b' \<subseteq> (waits_for tasks)\<^sup>* `` b"
    using blocked_pass_grows[OF p] blocked_pass_sound[OF p] by auto
  show ?case
  proof (cases c')
    case True
    have "close_blocked tasks b = (waits_for tasks)\<^sup>* `` b'"
      using 1[OF p[symmetric] True] p True by (simp add: close_blocked.simps)
    also have "\<dots> = (waits_for tasks)\<^sup>* `` b"
    proof
      show "(waits_for tasks)\<^sup>* `` b \<subseteq> (waits_for tasks)\<^sup>* `` b'" using sub(1) by blast
      show "(waits_for tasks)\<^sup>* `` b' \<subseteq> (waits_for tasks)\<^sup>* `` b"
        using sub(2) by (auto intro: rtrancl_trans)
    qed
    finally show ?thesis .
  next
    case False
    then have p0: "blocked_pass tasks b False = (b', False)" using p by simp
    have closed: "y \<in> b'" if "x \<in> b'" "(x, y) \<in> waits_for tasks" for x y
    proof -
      note xy = that
      obtain t where t: "t \<in> set tasks" "y = tr_task_id t" "x \<in> set (ts_dependencies (tr_spec t))"
        using xy(2) by (auto simp: waits_for_def)
      have "x \<in> b" using xy(1) blocked_unchanged[OF p0] by simp
      then show ?thesis using blocked_pass_closed[OF p0 t(1)] t sub(1) by blast
    qed
    have "y \<in> b'" if "(x, y) \<in> (waits_for tasks)\<^sup>*" "x \<in> b'" for x y
      using that by (induction rule: rtrancl_induct) (auto intro: closed)
    then have "(waits_for tasks)\<^sup>* `` b \<subseteq> b'" using sub(1) by blast
    then show ?thesis using sub p False by (auto simp: close_blocked.simps)
  qed
qed

text \<open>
  The tasks skipped after a failure are its transitive dependents: the repeated passes over the
  task list always end, and the set they compute is what the dependency edges reach from the
  failed task.
\<close>

lemma blocked_set_is_reachability:
  "blocked_by tasks failed = {x. (failed, x) \<in> (waits_for tasks)\<^sup>*}"
  unfolding blocked_by_def by (auto simp: close_blocked_eq)

section \<open>Batches are independent\<close>

lemma parallel_prefix_spec:
  "0 \<le> n \<Longrightarrow> (\<exists>rest. cs = parallel_prefix n cs @ rest) \<and> int (length (parallel_prefix n cs)) \<le> n \<and>
   (\<forall>c \<in> set (parallel_prefix n cs). ts_parallelizable (tr_spec c))"
proof (induction n cs rule: parallel_prefix.induct)
  case (2 n c cs)
  then show ?case by (cases "n \<le> 0 \<or> \<not> ts_parallelizable (tr_spec c)") auto
qed simp

lemma select_batch_prefix:
  assumes "candidates \<noteq> []" and "1 \<le> batch_limit mc executed m"
  shows "\<exists>rest. candidates = select_batch mc candidates executed m @ rest"
    and "select_batch mc candidates executed m \<noteq> []"
    and "int (length (select_batch mc candidates executed m)) \<le> batch_limit mc executed m"
    and "2 \<le> length (select_batch mc candidates executed m) \<Longrightarrow>
      \<forall>t \<in> set (select_batch mc candidates executed m). ts_parallelizable (tr_spec t)"
proof -
  let ?l = "batch_limit mc executed m"
  obtain c cs where c: "candidates = c # cs" using assms(1) by (cases candidates) auto
  have "(\<exists>rest. candidates = select_batch mc candidates executed m @ rest) \<and>
      select_batch mc candidates executed m \<noteq> [] \<and>
      int (length (select_batch mc candidates executed m)) \<le> ?l \<and>
      (2 \<le> length (select_batch mc candidates executed m) \<longrightarrow>
        (\<forall>t \<in> set (select_batch mc candidates executed m). ts_parallelizable (tr_spec t)))"
  proof (cases "1 < ?l \<and> ts_parallelizable (tr_spec c)")
    case True
    then have eq: "select_batch mc (c # cs) executed m = parallel_prefix ?l (c # cs)"
      by (simp add: select_batch_def Let_def)
    have "parallel_prefix ?l (c # cs) \<noteq> []" using True by simp
    moreover have "0 \<le> ?l" using True by linarith
    ultimately show ?thesis
      using parallel_prefix_spec[of ?l "c # cs"] unfolding c eq by blast
  next
    case False
    then have "select_batch mc candidates executed m = [c]" by (auto simp: select_batch_def Let_def c)
    then show ?thesis using assms(2) c by simp
  qed
  then show "\<exists>rest. candidates = select_batch mc candidates executed m @ rest"
    and "select_batch mc candidates executed m \<noteq> []"
    and "int (length (select_batch mc candidates executed m)) \<le> batch_limit mc executed m"
    and "2 \<le> length (select_batch mc candidates executed m) \<Longrightarrow>
      \<forall>t \<in> set (select_batch mc candidates executed m). ts_parallelizable (tr_spec t)"
    by blast+
qed


definition ready_pair :: "TaskRecord list" where
  "ready_pair = [new_TaskRecord ''r'' ''p'' (example_task ''a'' []), new_TaskRecord ''r'' ''p'' (example_task ''b'' [])]"


end
