(* ===== verification/Orchestrator.thy ===== *)
theory Orchestrator
  imports Run_Report Batch Store_Lifecycle
begin

text \<open>
  \<open>orchestration/orchestrator.py\<close>: \<open>advance\<close> and its helpers, in the order the code runs them. One
  iteration of the \<open>while True\<close> loop is \<open>iteration\<close>; the loop runs on fuel, one unit per iteration,
  and returns None when the fuel is out, which is not an exit of the program.

  Inside the loop the lease is a mutable cell that the heartbeat renews, and the \<open>finally\<close> clause
  releases what it holds at that time, so the loop is a program over pairs of world and lease
  (\<open>agent\<close>). Logging and metrics are left out. The workers of a batch run one after the other here;
  their interleaving is that of their transactions, and each of these may be preceded by what
  \<open>w_rely\<close> does.
\<close>

section \<open>State of the loop\<close>

type_synonym 'a agent = "(world \<times> LeaseRecord, exn, 'a) act"

definition io :: "'a io \<Rightarrow> 'a agent" where
  "io m = (\<lambda>(w, l). case m w of (x, w') \<Rightarrow> (x, (w', l)))"

record RunAdvanceResult =
  ra_run :: RunRecord
  ra_tasks :: "TaskRecord list"
  ra_tasks_executed :: int
  ra_checkpoint_id :: "string option"
  ra_report_id :: "string option"

text \<open>The local variables of the loop.\<close>

record loop_state =
  ls_run :: RunRecord
  ls_tasks :: "TaskRecord list"
  ls_items :: "ContextItem list"
  ls_summary :: "SummaryRecord option"
  ls_outcomes :: "TaskOutcome list"
  ls_executed :: int
  ls_checkpoint_id :: "string option"

type_synonym started = "nat \<times> TaskRecord \<times> string"

record failure =
  fl_index :: nat
  fl_task :: TaskRecord
  fl_attempt_id :: string
  fl_error :: error_class
  fl_message :: string
  fl_terminal :: bool

definition write_run_checkpoint ::
  "agent_env \<Rightarrow> RunRecord \<Rightarrow> PlanSpec \<Rightarrow> TaskRecord list \<Rightarrow> CheckpointRefs \<Rightarrow> string io" where
  "write_run_checkpoint env run plan tasks refs =
     bnd (write_checkpoint (ae_codec env) (st_checkpoint_retention_count (ae_settings env)) run plan tasks refs)
       (\<lambda>e. ret (ce_checkpoint_id e))"

section \<open>Pausing, cancelling, failing\<close>

text \<open>
  \<open>_pause\<close>: from RUNNING the state goes through PAUSE_REQUESTED on its way to PAUSED, in one update.
\<close>

definition pause_run ::
  "agent_env \<Rightarrow> RunRecord \<Rightarrow> PlanSpec \<Rightarrow> TaskRecord list \<Rightarrow> LifecycleRequest \<Rightarrow> (RunRecord \<times> string) io" where
  "pause_run env run0 plan tasks request =
     bnd (get_run (rr_run_id run0)) (\<lambda>run.
     bnd (lift_sum (if rr_state run = R_RUNNING then transition_run (rr_state run) R_PAUSE_REQUESTED
                    else Inr (rr_state run))) (\<lambda>between.
     bnd (lift_sum (transition_run between R_PAUSED)) (\<lambda>state.
     bnd clock_now (\<lambda>now.
     bnd (update_run (run\<lparr>rr_state := state, rr_active_task_id := None, rr_updated_at := now\<rparr>)
            (rr_version run)) (\<lambda>run'.
     bnd (apply_lifecycle_request request) (\<lambda>_.
     bnd (write_run_checkpoint env run' plan tasks no_refs) (\<lambda>checkpoint_id.
     bnd (publish (rr_run_id run') ''run.paused''
       (JObj [(''reason'', JStr (lq_reason request)), (''checkpoint_id'', JStr checkpoint_id)]) None) (\<lambda>_.
     ret (run', checkpoint_id)))))))))"

definition settled :: "TaskState \<Rightarrow> bool" where
  "settled s \<longleftrightarrow> s \<in> {T_SUCCEEDED, T_FAILED_TERMINAL, T_CANCELLED, T_SKIPPED}"

definition cancel_task :: "TaskRecord \<Rightarrow> TaskRecord io" where
  "cancel_task task =
     (if settled (tr_state task) then ret task
      else bnd (lift_sum (transition_task (tr_state task) T_CANCELLED)) (\<lambda>state.
        bnd clock_now (\<lambda>now.
          cancel_task_and_open_attempts (task\<lparr>tr_state := state, tr_finished_at := Some now\<rparr>)
            (tr_version task))))"

definition cancel_run ::
  "agent_env \<Rightarrow> RunRecord \<Rightarrow> PlanSpec \<Rightarrow> TaskRecord list \<Rightarrow> LifecycleRequest \<Rightarrow>
   (RunRecord \<times> TaskRecord list \<times> string) io" where
  "cancel_run env run0 plan tasks request =
     bnd (mapA cancel_task tasks) (\<lambda>updated.
     bnd (get_run (rr_run_id run0)) (\<lambda>run.
     bnd (lift_sum (transition_run (rr_state run) R_CANCELLED)) (\<lambda>state.
     bnd clock_now (\<lambda>now.
     bnd clock_now (\<lambda>finished.
     bnd (update_run (run\<lparr>rr_state := state, rr_active_task_id := None, rr_updated_at := now,
            rr_finished_at := Some finished\<rparr>) (rr_version run)) (\<lambda>run'.
     bnd (apply_lifecycle_request request) (\<lambda>_.
     bnd (write_run_checkpoint env run' plan updated no_refs) (\<lambda>checkpoint_id.
     bnd (publish (rr_run_id run') ''run.cancelled''
       (JObj [(''reason'', JStr (lq_reason request)), (''checkpoint_id'', JStr checkpoint_id)]) None) (\<lambda>_.
     ret (run', updated, checkpoint_id))))))))))"

definition fail_stuck_run ::
  "agent_env \<Rightarrow> RunRecord \<Rightarrow> PlanSpec \<Rightarrow> TaskRecord list \<Rightarrow> (RunRecord \<times> string) io" where
  "fail_stuck_run env run0 plan tasks =
     bnd (get_run (rr_run_id run0)) (\<lambda>run.
     bnd (lift_sum (transition_run (rr_state run) R_FAILED)) (\<lambda>state.
     bnd clock_now (\<lambda>now.
     bnd clock_now (\<lambda>finished.
     bnd (update_run (run\<lparr>rr_state := state, rr_updated_at := now, rr_finished_at := Some finished\<rparr>)
            (rr_version run)) (\<lambda>run'.
     bnd (publish (rr_run_id run') ''run.failed''
       (JObj [(''reason'', JStr ''no ready tasks and plan is incomplete'')]) None) (\<lambda>_.
     bnd (write_run_checkpoint env run' plan tasks no_refs) (\<lambda>checkpoint_id.
     ret (run', checkpoint_id))))))))"

text \<open>The branch of \<open>advance\<close> in which every task has succeeded or was skipped.\<close>

definition complete_run ::
  "agent_env \<Rightarrow> string \<Rightarrow> RunRecord \<Rightarrow> PlanSpec \<Rightarrow> TaskRecord list \<Rightarrow> (RunRecord \<times> string \<times> string) io" where
  "complete_run env run_id run plan tasks =
     bnd (lift_sum (transition_run (rr_state run) R_COMPLETED)) (\<lambda>state.
     bnd clock_now (\<lambda>now.
     bnd clock_now (\<lambda>finished.
     bnd (update_run (run\<lparr>rr_state := state, rr_active_task_id := None, rr_updated_at := now,
            rr_finished_at := Some finished\<rparr>) (rr_version run)) (\<lambda>run'.
     bnd (write_run_checkpoint env run' plan tasks no_refs) (\<lambda>checkpoint_id.
     bnd (run_report env run' plan tasks False) (\<lambda>report_id.
     bnd (publish run_id ''run.completed'' (JObj [(''report_id'', JStr report_id)]) None) (\<lambda>_.
     ret (run', checkpoint_id, report_id))))))))"

section \<open>Starting a batch\<close>

definition promote_ready :: "TaskRecord list \<Rightarrow> TaskRecord list io" where
  "promote_ready tasks =
     bnd (lift_sum (ready_tasks tasks)) (\<lambda>candidates.
       mapA (\<lambda>task. if tr_task_id task \<notin> tr_task_id ` set candidates then ret task
         else bnd (lift_sum (transition_task (tr_state task) T_READY)) (\<lambda>state.
           update_task (task\<lparr>tr_state := state\<rparr>) (tr_version task))) tasks)"

text \<open>\<open>next(index for index, item in enumerate(tasks) if ...)\<close>.\<close>

fun index_of :: "string \<Rightarrow> TaskRecord list \<Rightarrow> exn + nat" where
  "index_of task_id [] = Inl StopIteration"
| "index_of task_id (t # ts) =
     (if tr_task_id t = task_id then Inr 0 else map_sum id Suc (index_of task_id ts))"

definition start_task ::
  "RunRecord \<Rightarrow> int \<Rightarrow> TaskRecord list \<times> started list \<Rightarrow> TaskRecord \<Rightarrow> (TaskRecord list \<times> started list) io" where
  "start_task run batch_size acc candidate =
     (case acc of (tasks, started) \<Rightarrow>
       bnd (lift_sum (index_of (tr_task_id candidate) tasks)) (\<lambda>task_index.
       bnd (lift_sum (transition_task (tr_state candidate) T_RUNNING)) (\<lambda>state.
       bnd clock_now (\<lambda>now.
       bnd (update_task (candidate\<lparr>tr_state := state,
              tr_attempt_count := tr_attempt_count candidate + 1, tr_started_at := Some now\<rparr>)
              (tr_version candidate)) (\<lambda>task.
       bnd (start_task_attempt (rr_run_id run) (tr_task_id task) (tr_attempt_count task)) (\<lambda>attempt_id.
       bnd (publish (rr_run_id run) ''task.started''
         (JObj [(''attempt'', JInt (tr_attempt_count task)), (''batch_size'', JInt batch_size)])
         (Some (tr_task_id task))) (\<lambda>_.
       ret (tasks[task_index := task], started @ [(task_index, task, attempt_id)]))))))))"

definition start_batch ::
  "agent_env \<Rightarrow> RunRecord \<Rightarrow> PlanSpec \<Rightarrow> TaskRecord list \<Rightarrow> TaskRecord list \<Rightarrow>
   (RunRecord \<times> TaskRecord list \<times> started list \<times> string option) io" where
  "start_batch env run0 plan tasks0 batch =
     bnd (foldA (start_task run0 (int (length batch))) (tasks0, []) batch) (\<lambda>(tasks, started).
     bnd (get_run (rr_run_id run0)) (\<lambda>current_run.
     bnd clock_now (\<lambda>now.
     bnd (update_run (current_run\<lparr>
            rr_active_task_id := (case started of [(_, t, _)] \<Rightarrow> Some (tr_task_id t) | _ \<Rightarrow> None),
            rr_updated_at := now\<rparr>) (rr_version current_run)) (\<lambda>run.
     if list_ex (\<lambda>(_, t, _). ts_checkpoint_policy (tr_spec t) = BEFORE_AND_AFTER) started
     then bnd (write_run_checkpoint env run plan tasks no_refs) (\<lambda>checkpoint_id.
       ret (run, tasks, started, Some checkpoint_id))
     else ret (run, tasks, started, None)))))"

section \<open>Executing a batch under the heartbeat\<close>

type_synonym task_result = "TaskOutcome option \<times> exn option"

text \<open>\<open>except Exception\<close> around the worker; the death of the process is not an \<open>Exception\<close>.\<close>

definition execute_one :: "agent_env \<Rightarrow> RunRecord \<Rightarrow> TaskRecord \<Rightarrow> task_result io" where
  "execute_one env run task =
     catch (bnd (ae_worker env run task) (\<lambda>result. ret (result, None)))
       (\<lambda>e. if e = Crash then raise e else ret (None, Some e))"

definition renew :: "agent_env \<Rightarrow> unit agent" where
  "renew env = (\<lambda>(w, l).
     case renew_lease l (st_lease_ttl_seconds (ae_settings env)) w of
       (Inl e, w') \<Rightarrow> (Inl e, (w', l))
     | (Inr l', w') \<Rightarrow> (Inr (), (w', l')))"

text \<open>
  \<open>heartbeat\<close>: one renewal per elapsed period. It keeps the error that ended it; an ended heartbeat
  renews no more. \<open>ae_beats\<close> says how many periods elapse before the next event.
\<close>

fun beat :: "agent_env \<Rightarrow> nat \<Rightarrow> exn option \<Rightarrow> exn option agent" where
  "beat env 0 failed = ret failed"
| "beat env (Suc n) (Some e) = ret (Some e)"
| "beat env (Suc n) None =
     catch (bnd (renew env) (\<lambda>_. beat env n None)) (\<lambda>e. if e = Crash then raise e else ret (Some e))"

definition heartbeat :: "agent_env \<Rightarrow> exn option \<Rightarrow> exn option agent" where
  "heartbeat env failed = (\<lambda>(w, l). beat env (ae_beats env w) failed (w, l))"

fun run_workers ::
  "agent_env \<Rightarrow> RunRecord \<Rightarrow> exn option \<Rightarrow> TaskRecord list \<Rightarrow> (task_result list \<times> exn option) agent" where
  "run_workers env run failed [] = bnd (heartbeat env failed) (\<lambda>failed'. ret ([], failed'))"
| "run_workers env run failed (t # ts) =
     bnd (heartbeat env failed) (\<lambda>failed'.
     bnd (io (execute_one env run t)) (\<lambda>result.
     bnd (run_workers env run failed' ts) (\<lambda>(results, failed'').
       ret (result # results, failed''))))"

definition execute_batch ::
  "agent_env \<Rightarrow> RunRecord \<Rightarrow> TaskRecord list \<Rightarrow> task_result list agent" where
  "execute_batch env run tasks =
     bnd (run_workers env run None tasks) (\<lambda>(results, failed).
       case failed of Some e \<Rightarrow> raise e
       | None \<Rightarrow> bnd (renew env) (\<lambda>_. ret results))"

section \<open>Committing the results\<close>

definition append_summary_navigation :: "ContextItem list \<Rightarrow> SummaryRecord \<Rightarrow> ContextItem list io" where
  "append_summary_navigation items summary =
     (if list_ex (\<lambda>i. su_summary_id summary \<in> set (ci_source_refs i)) items then ret items
      else bnd (create_item ''summary'' (su_content summary) 1000 [su_summary_id summary]
             (su_evidence_ids summary) (3 \<le> su_generation summary)) (\<lambda>i. ret (items @ [i])))"

definition checkpoint_due :: "Settings \<Rightarrow> TaskRecord \<Rightarrow> TaskRecord list \<Rightarrow> bool" where
  "checkpoint_due settings task tasks \<longleftrightarrow>
     ts_checkpoint_policy (tr_spec task) \<in> {AFTER, BEFORE_AND_AFTER} \<or>
     int (length (filter (\<lambda>t. tr_state t = T_SUCCEEDED) tasks)) mod st_checkpoint_every_tasks settings = 0"

definition running_ids :: "TaskRecord list \<Rightarrow> string list" where
  "running_ids tasks = sort (map tr_task_id (filter (\<lambda>t. tr_state t = T_RUNNING) tasks))"

text \<open>The task of a worker that returned: its row and attempt first, then the run.\<close>

definition commit_task ::
  "string \<Rightarrow> TaskRecord list \<Rightarrow> started \<Rightarrow> TaskOutcome \<Rightarrow> (TaskRecord \<times> TaskRecord list \<times> RunRecord) io" where
  "commit_task run_id tasks s out = (case s of (task_index, task0, attempt_id) \<Rightarrow>
     bnd (lift_sum (transition_task (tr_state task0) T_SUCCEEDED)) (\<lambda>state.
     bnd clock_now (\<lambda>finished.
     bnd (update_task_and_finish_attempt (task0\<lparr>tr_state := state, tr_finished_at := Some finished\<rparr>)
            (tr_version task0) attempt_id T_SUCCEEDED None) (\<lambda>task.
     let tasks' = tasks[task_index := task]; ids = running_ids tasks' in
     bnd (get_run run_id) (\<lambda>current_run.
     bnd clock_now (\<lambda>now.
     bnd (update_run (current_run\<lparr>
            rr_active_task_id := (if length ids = 1 then Some (hd ids) else None), rr_updated_at := now,
            rr_repository_snapshot_id := (case to_repository_snapshot_id out of
               None \<Rightarrow> rr_repository_snapshot_id current_run | Some i \<Rightarrow> Some i)\<rparr>)
            (rr_version current_run)) (\<lambda>run.
     ret (task, tasks', run))))))))"

text \<open>Its two context items, the snapshot built from all items, and the new navigation item.\<close>

definition extend_context ::
  "agent_env \<Rightarrow> string \<Rightarrow> TaskRecord \<Rightarrow> TaskOutcome \<Rightarrow> ContextItem list \<Rightarrow> SummaryRecord option \<Rightarrow>
   (ContextSnapshot \<times> SummaryRecord option \<times> ContextItem list) io" where
  "extend_context env run_id task out items summary =
     bnd (create_item ''task_state''
       (''Task '' @ tr_task_id task @ '' succeeded on attempt '' @ show_int (tr_attempt_count task) @ ''.'')
       10 [tr_task_id task] (to_evidence_ids out) False) (\<lambda>i1.
     bnd (create_item ''history'' (to_context_note out) 100 [tr_task_id task]
       (to_evidence_ids out) False) (\<lambda>i2.
     let items' = items @ [i1, i2]; (level, generation) = next_summary_level summary in
     bnd (build (ae_sha256 env) (ae_budget env) run_id items' (Some (tr_task_id task)) level generation) (\<lambda>(snapshot, new).
     bnd (save_context (ae_sha256 env) snapshot items' new) (\<lambda>_.
     ret (snapshot, new, items')))))"

definition outcome_refs :: "ContextSnapshot \<Rightarrow> TaskOutcome list \<Rightarrow> CheckpointRefs" where
  "outcome_refs snapshot outcomes = no_refs\<lparr>cf_context_ids := [cx_context_id snapshot],
     cf_summary_ids := cx_summary_ids snapshot,
     cf_artifact_ids := concat (map to_artifact_ids outcomes),
     cf_evidence_ids := concat (map to_evidence_ids outcomes)\<rparr>"

definition commit_success ::
  "agent_env \<Rightarrow> string \<Rightarrow> PlanSpec \<Rightarrow> loop_state \<Rightarrow> started \<Rightarrow> TaskOutcome \<Rightarrow> loop_state io" where
  "commit_success env run_id plan st s out =
     bnd (commit_task run_id (ls_tasks st) s out) (\<lambda>(task, tasks, run).
     let outcomes = ls_outcomes st @ [out] in
     bnd (extend_context env run_id task out (ls_items st) (ls_summary st)) (\<lambda>(snapshot, new, items).
     bnd (if checkpoint_due (ae_settings env) task tasks
          then bnd (write_run_checkpoint env run plan tasks (outcome_refs snapshot outcomes)) (\<lambda>i. ret (Some i))
          else ret (ls_checkpoint_id st)) (\<lambda>checkpoint_id.
     bnd (publish run_id ''task.succeeded''
       (JObj [(''attempt'', JInt (tr_attempt_count task)), (''checkpoint_id'', jopt JStr checkpoint_id),
              (''evidence_ids'', jstrs (to_evidence_ids out))]) (Some (tr_task_id task))) (\<lambda>_.
     let selected = filter (\<lambda>i. ci_item_id i \<in> set (cx_item_ids snapshot)) items in
     bnd (case new of None \<Rightarrow> ret selected | Some u \<Rightarrow> append_summary_navigation selected u) (\<lambda>items'.
     ret (st\<lparr>ls_run := run, ls_tasks := tasks, ls_outcomes := outcomes, ls_items := items',
       ls_summary := (case new of None \<Rightarrow> ls_summary st | Some u \<Rightarrow> Some u),
       ls_checkpoint_id := checkpoint_id, ls_executed := ls_executed st + 1\<rparr>))))))"

definition failure_of :: "agent_env \<Rightarrow> started \<Rightarrow> exn \<Rightarrow> failure" where
  "failure_of env s e = (case s of (task_index, task, attempt_id) \<Rightarrow>
     (case e of
        Durable c \<Rightarrow> \<lparr>fl_index = task_index, fl_task = task, fl_attempt_id = attempt_id, fl_error = c,
          fl_message = ae_message env e, fl_terminal = False\<rparr>
      | _ \<Rightarrow> \<lparr>fl_index = task_index, fl_task = task, fl_attempt_id = attempt_id,
          fl_error = ToolExecutionError,
          fl_message = ''unexpected task worker failure: '' @ ae_message env e, fl_terminal = True\<rparr>))"

definition no_outcome :: "started \<Rightarrow> failure" where
  "no_outcome s = (case s of (task_index, task, attempt_id) \<Rightarrow>
     \<lparr>fl_index = task_index, fl_task = task, fl_attempt_id = attempt_id, fl_error = ToolExecutionError,
      fl_message = ''task worker returned no outcome'', fl_terminal = True\<rparr>)"

definition commit_result ::
  "agent_env \<Rightarrow> string \<Rightarrow> PlanSpec \<Rightarrow> loop_state \<times> failure list \<Rightarrow> started \<times> task_result \<Rightarrow>
   (loop_state \<times> failure list) io" where
  "commit_result env run_id plan acc sr =
     (case (acc, sr) of ((st, failures), (s, (result, error))) \<Rightarrow>
       (case error of
          Some e \<Rightarrow> ret (st, failures @ [failure_of env s e])
        | None \<Rightarrow> (case result of
            None \<Rightarrow> ret (st, failures @ [no_outcome s])
          | Some out \<Rightarrow>
              bnd (commit_success env run_id plan st s out) (\<lambda>st'. ret (st', failures)))))"

section \<open>Failures\<close>

definition skip_task :: "string set \<Rightarrow> TaskRecord list \<times> string list \<Rightarrow> TaskRecord \<Rightarrow>
    (TaskRecord list \<times> string list) io" where
  "skip_task blocked acc task = (case acc of (tasks, skipped) \<Rightarrow>
     if tr_task_id task \<notin> blocked \<or> tr_state task \<notin> {T_PENDING, T_READY, T_WAITING}
     then ret (tasks @ [task], skipped)
     else bnd (lift_sum (transition_task (tr_state task) T_SKIPPED)) (\<lambda>state.
       bnd clock_now (\<lambda>finished.
       bnd (update_task (task\<lparr>tr_state := state, tr_finished_at := Some finished\<rparr>) (tr_version task))
         (\<lambda>task'. ret (tasks @ [task'], skipped @ [tr_task_id task'])))))"

definition skip_transitive_dependents :: "TaskRecord list \<Rightarrow> string \<Rightarrow> TaskRecord list io" where
  "skip_transitive_dependents tasks failed_task_id =
     bnd (foldA (skip_task (blocked_by tasks failed_task_id - {failed_task_id})) ([], []) tasks)
       (\<lambda>(tasks', skipped).
     bnd (publish (tr_run_id (hd tasks')) ''task.dependents_skipped''
       (JObj [(''skipped_task_ids'', jstrs (sort skipped))]) (Some failed_task_id)) (\<lambda>_.
     ret tasks'))"

definition requires_review :: "failure \<Rightarrow> bool" where
  "requires_review f \<longleftrightarrow>
     ts_failure_policy (tr_spec (fl_task f)) = MANUAL_REVIEW \<and> \<not> fl_terminal f"

definition retries :: "Settings \<Rightarrow> failure \<Rightarrow> bool" where
  "retries settings f \<longleftrightarrow> \<not> fl_terminal f \<and> ts_failure_policy (tr_spec (fl_task f)) = RETRY \<and>
     should_retry (st_retry settings) (tr_attempt_count (fl_task f)) (error_retryable (fl_error f)) \<and>
     tr_attempt_count (fl_task f) < ts_maximum_attempts (tr_spec (fl_task f))"

definition failure_target :: "Settings \<Rightarrow> failure \<Rightarrow> TaskState" where
  "failure_target settings f = (if requires_review f then T_WAITING
     else if retries settings f then T_FAILED_RETRYABLE else T_FAILED_TERMINAL)"

definition failure_event :: "Settings \<Rightarrow> failure \<Rightarrow> string" where
  "failure_event settings f = (if requires_review f then ''manual_review.required''
     else if retries settings f then ''task.failed_retryable'' else ''task.failed_terminal'')"

text \<open>What the batch's failures ask for.\<close>

record disposition =
  dn_tasks :: "TaskRecord list"
  dn_retry :: "TaskRecord list"
  dn_skip :: "string list"
  dn_review :: bool
  dn_fail :: bool

definition skips_dependents :: "Settings \<Rightarrow> failure \<Rightarrow> bool" where
  "skips_dependents settings f \<longleftrightarrow> ts_failure_policy (tr_spec (fl_task f)) = SKIP_DEPENDENTS \<and>
     \<not> fl_terminal f \<and> \<not> retries settings f"

definition failure_payload :: "Settings \<Rightarrow> failure \<Rightarrow> TaskRecord \<Rightarrow> string \<Rightarrow> json" where
  "failure_payload settings f task error_id =
     JObj [(''attempt'', JInt (tr_attempt_count task)), (''error_id'', JStr error_id),
       (''category'', JStr (ErrorCategory_value (error_category (fl_error f)))),
       (''message'', JStr (fl_message f)), (''retryable'', JBool (retries settings f))]"

definition dispose :: "Settings \<Rightarrow> disposition \<Rightarrow> failure \<Rightarrow> TaskRecord \<Rightarrow> disposition" where
  "dispose settings acc f task =
     (let retry = retries settings f; review = requires_review f; skip = skips_dependents settings f in
      \<lparr>dn_tasks = (dn_tasks acc)[fl_index f := task],
       dn_retry = dn_retry acc @ (if retry then [task] else []),
       dn_skip = dn_skip acc @ (if skip then [tr_task_id task] else []),
       dn_review = (dn_review acc \<or> review),
       dn_fail = (dn_fail acc \<or> (\<not> skip \<and> \<not> retry \<and> \<not> review))\<rparr>)"

definition commit_failure ::
  "agent_env \<Rightarrow> string \<Rightarrow> disposition \<Rightarrow> failure \<Rightarrow> disposition io" where
  "commit_failure env run_id acc f =
     (let settings = ae_settings env; task0 = fl_task f; target = failure_target settings f in
      bnd (record_error run_id (Some (tr_task_id task0)) (fl_error f) (fl_message f)) (\<lambda>error_id.
      bnd (lift_sum (transition_task (tr_state task0) target)) (\<lambda>state.
      bnd (if target = T_FAILED_TERMINAL then bnd clock_now (\<lambda>now. ret (Some now)) else ret None) (\<lambda>finished.
      bnd (update_task_and_finish_attempt
             (task0\<lparr>tr_state := state, tr_finished_at := finished, tr_last_error_id := Some error_id\<rparr>)
             (tr_version task0) (fl_attempt_id f) target (Some error_id)) (\<lambda>task.
      bnd (publish run_id (failure_event settings f) (failure_payload settings f task error_id)
        (Some (tr_task_id task))) (\<lambda>_.
      ret (dispose settings acc f task)))))))"

text \<open>The update of the run: failed, paused for review through PAUSE_REQUESTED, or only touched.\<close>

definition disposed_state :: "bool \<Rightarrow> bool \<Rightarrow> RunState \<Rightarrow> exn + RunState" where
  "disposed_state fail_run manual_review state =
     (if fail_run then transition_run state R_FAILED
      else if manual_review then
        (case (if state = R_RUNNING then transition_run state R_PAUSE_REQUESTED else Inr state) of
           Inl e \<Rightarrow> Inl e | Inr between \<Rightarrow> transition_run between R_PAUSED)
      else Inr state)"

definition handle_batch_failures ::
  "agent_env \<Rightarrow> RunRecord \<Rightarrow> PlanSpec \<Rightarrow> TaskRecord list \<Rightarrow> failure list \<Rightarrow>
   (RunRecord \<times> TaskRecord list \<times> string \<times> bool \<times> TaskRecord list) io" where
  "handle_batch_failures env run plan tasks failures =
     bnd (foldA (commit_failure env (rr_run_id run))
       \<lparr>dn_tasks = tasks, dn_retry = [], dn_skip = [], dn_review = False, dn_fail = False\<rparr> failures) (\<lambda>d.
     bnd (foldA skip_transitive_dependents (dn_tasks d) (dn_skip d)) (\<lambda>tasks'.
     bnd (get_run (rr_run_id run)) (\<lambda>current_run.
     bnd clock_now (\<lambda>now.
     bnd (lift_sum (disposed_state (dn_fail d) (dn_review d) (rr_state current_run))) (\<lambda>state.
     bnd (if dn_fail d then bnd clock_now (\<lambda>t. ret (Some t)) else ret (rr_finished_at current_run)) (\<lambda>finished.
     bnd (update_run (current_run\<lparr>rr_state := state, rr_active_task_id := None,
            rr_updated_at := now, rr_finished_at := finished\<rparr>) (rr_version current_run)) (\<lambda>run'.
     bnd (write_run_checkpoint env run' plan tasks' no_refs) (\<lambda>checkpoint_id.
     ret (run', tasks', checkpoint_id, dn_fail d \<or> dn_review d, dn_retry d)))))))))"

text \<open>\<open>clock.sleep\<close> only waits; the delay before it may raise.\<close>

definition sleep_for :: "agent_env \<Rightarrow> string \<Rightarrow> unit \<Rightarrow> TaskRecord \<Rightarrow> unit io" where
  "sleep_for env run_id u task =
     bnd (lift_sum (delay_for (ae_sha256_bytes env) (st_retry (ae_settings env)) (tr_attempt_count task)
            (run_id @ '':'' @ tr_task_id task))) (\<lambda>_. ret ())"

section \<open>The loop\<close>

text \<open>An iteration goes round again with the new state, or leaves the loop with it and a report.\<close>

datatype step_result = Again loop_state | Leave loop_state "string option"

definition obey_request ::
  "agent_env \<Rightarrow> PlanSpec \<Rightarrow> loop_state \<Rightarrow> LifecycleRequest \<Rightarrow> step_result io" where
  "obey_request env plan st request =
     (if lq_kind request = Cancel then
        bnd (cancel_run env (ls_run st) plan (ls_tasks st) request) (\<lambda>(run, tasks, checkpoint_id).
        bnd (run_report env run plan tasks True) (\<lambda>report_id.
        ret (Leave (st\<lparr>ls_run := run, ls_tasks := tasks, ls_checkpoint_id := Some checkpoint_id\<rparr>)
              (Some report_id))))
      else
        bnd (pause_run env (ls_run st) plan (ls_tasks st) request) (\<lambda>(run, checkpoint_id).
        ret (Leave (st\<lparr>ls_run := run, ls_checkpoint_id := Some checkpoint_id\<rparr>) None)))"

definition finish_run :: "agent_env \<Rightarrow> string \<Rightarrow> PlanSpec \<Rightarrow> loop_state \<Rightarrow> step_result io" where
  "finish_run env run_id plan st =
     bnd (pending_lifecycle_request run_id) (\<lambda>request.
       if request \<noteq> None then ret (Again st)
       else
         bnd (get_run run_id) (\<lambda>run.
         if list_all (\<lambda>t. tr_state t \<in> {T_SUCCEEDED, T_SKIPPED}) (ls_tasks st) then
           bnd (complete_run env run_id run plan (ls_tasks st)) (\<lambda>(run', checkpoint_id, report_id).
           ret (Leave (st\<lparr>ls_run := run', ls_checkpoint_id := Some checkpoint_id\<rparr>) (Some report_id)))
         else
           bnd (fail_stuck_run env run plan (ls_tasks st)) (\<lambda>(run', checkpoint_id).
           bnd (run_report env run' plan (ls_tasks st) True) (\<lambda>report_id.
           ret (Leave (st\<lparr>ls_run := run', ls_checkpoint_id := Some checkpoint_id\<rparr>) (Some report_id))))))"

definition settle_failures ::
  "agent_env \<Rightarrow> string \<Rightarrow> PlanSpec \<Rightarrow> loop_state \<Rightarrow> failure list \<Rightarrow> step_result io" where
  "settle_failures env run_id plan st failures =
     (if failures = [] then ret (Again st)
      else
        bnd (handle_batch_failures env (ls_run st) plan (ls_tasks st) failures)
          (\<lambda>(run, tasks, checkpoint_id, leave, retry_tasks).
        let st' = st\<lparr>ls_run := run, ls_tasks := tasks, ls_checkpoint_id := Some checkpoint_id\<rparr> in
        bnd (foldA (sleep_for env run_id) () retry_tasks) (\<lambda>_.
        if leave then bnd (run_report env run plan tasks True) (\<lambda>report_id. ret (Leave st' (Some report_id)))
        else ret (Again st'))))"

definition run_batch ::
  "agent_env \<Rightarrow> string \<Rightarrow> PlanSpec \<Rightarrow> loop_state \<Rightarrow> TaskRecord list \<Rightarrow> step_result agent" where
  "run_batch env run_id plan st batch =
     bnd (io (start_batch env (ls_run st) plan (ls_tasks st) batch)) (\<lambda>(run, tasks, started, before).
     bnd (execute_batch env run (map (\<lambda>(_, t, _). t) started)) (\<lambda>results.
       io (bnd (foldA (commit_result env run_id plan)
             (st\<lparr>ls_run := run, ls_tasks := tasks,
                 ls_checkpoint_id := (case before of None \<Rightarrow> ls_checkpoint_id st | Some i \<Rightarrow> Some i)\<rparr>, [])
             (zip started results)) (\<lambda>(st', failures).
           settle_failures env run_id plan st' failures))))"

definition iteration ::
  "agent_env \<Rightarrow> string \<Rightarrow> int option \<Rightarrow> PlanSpec \<Rightarrow> loop_state \<Rightarrow> step_result agent" where
  "iteration env run_id maximum_tasks plan st =
     bnd (io (pending_lifecycle_request run_id)) (\<lambda>request. case request of
         Some q \<Rightarrow> io (obey_request env plan st q)
       | None \<Rightarrow>
           if (case maximum_tasks of None \<Rightarrow> False | Some m \<Rightarrow> m \<le> ls_executed st) then ret (Leave st None)
           else
             bnd (io (promote_ready (ls_tasks st))) (\<lambda>tasks.
             bnd (io (lift_sum (ready_tasks tasks))) (\<lambda>candidates.
             let st' = st\<lparr>ls_tasks := tasks\<rparr> in
             if candidates = [] then io (finish_run env run_id plan st')
             else run_batch env run_id plan st'
               (select_batch (st_maximum_concurrency (ae_settings env)) candidates (ls_executed st)
                 maximum_tasks))))"

fun advance_loop ::
  "agent_env \<Rightarrow> string \<Rightarrow> int option \<Rightarrow> PlanSpec \<Rightarrow> nat \<Rightarrow> loop_state \<Rightarrow>
   (loop_state \<times> string option) option agent" where
  "advance_loop env run_id maximum_tasks plan 0 st = ret None"
| "advance_loop env run_id maximum_tasks plan (Suc fuel) st =
     bnd (iteration env run_id maximum_tasks plan st) (\<lambda>r. case r of
         Again st' \<Rightarrow> advance_loop env run_id maximum_tasks plan fuel st'
       | Leave st' report_id \<Rightarrow> ret (Some (st', report_id)))"

section \<open>The use case\<close>

text \<open>The \<open>try\<close>/\<open>finally\<close> around the loop: the lease that is held when it ends is released.\<close>

definition under_lease :: "'a agent \<Rightarrow> LeaseRecord \<Rightarrow> 'a io" where
  "under_lease m lease = (\<lambda>w. case m (w, lease) of (x, (w', l)) \<Rightarrow>
     (case release_lease l w' of (Inl e, w'') \<Rightarrow> (Inl e, w'') | (Inr _, w'') \<Rightarrow> (x, w'')))"

definition initial_state :: "string \<Rightarrow> RunRecord \<Rightarrow> TaskRecord list \<Rightarrow> loop_state io" where
  "initial_state run_id run tasks =
     bnd (latest_context run_id) (\<lambda>latest.
     bnd (case latest of
         None \<Rightarrow> ret ([], None)
       | Some (snapshot, items, summary) \<Rightarrow>
           let selected = filter (\<lambda>i. ci_item_id i \<in> set (cx_item_ids snapshot)) items in
           (case summary of
              None \<Rightarrow> ret (selected, None)
            | Some u \<Rightarrow> bnd (append_summary_navigation selected u) (\<lambda>items'. ret (items', Some u)))) (\<lambda>(items, summary).
     ret \<lparr>ls_run = run, ls_tasks = tasks, ls_items = items, ls_summary = summary, ls_outcomes = [],
          ls_executed = 0, ls_checkpoint_id = None\<rparr>))"

definition unchanged_result :: "string \<Rightarrow> RunRecord \<Rightarrow> RunAdvanceResult option io" where
  "unchanged_result run_id run =
     bnd (get_tasks run_id None) (\<lambda>tasks.
       ret (Some \<lparr>ra_run = run, ra_tasks = tasks, ra_tasks_executed = 0, ra_checkpoint_id = None,
         ra_report_id = None\<rparr>))"

definition advance_result :: "(loop_state \<times> string option) option \<Rightarrow> RunAdvanceResult option" where
  "advance_result r = (case r of None \<Rightarrow> None
     | Some (st, report_id) \<Rightarrow> Some \<lparr>ra_run = ls_run st, ra_tasks = ls_tasks st,
         ra_tasks_executed = ls_executed st, ra_checkpoint_id = ls_checkpoint_id st,
         ra_report_id = report_id\<rparr>)"

definition advance_owned ::
  "agent_env \<Rightarrow> nat \<Rightarrow> string \<Rightarrow> int option \<Rightarrow> RunRecord \<Rightarrow> LeaseRecord \<Rightarrow> RunAdvanceResult option io" where
  "advance_owned env fuel run_id maximum_tasks run lease =
     bnd (get_plan run_id None) (\<lambda>plan.
     bnd (get_tasks run_id None) (\<lambda>tasks.
     bnd (initial_state run_id run tasks) (\<lambda>st.
     bnd (under_lease (advance_loop env run_id maximum_tasks plan fuel st) lease) (\<lambda>r.
     ret (advance_result r)))))"

definition advance ::
  "agent_env \<Rightarrow> nat \<Rightarrow> string \<Rightarrow> string \<Rightarrow> int option \<Rightarrow> RunAdvanceResult option io" where
  "advance env fuel run_id worker_id maximum_tasks =
     (if (case maximum_tasks of None \<Rightarrow> False | Some m \<Rightarrow> m < 0) then raise ValueError
      else
        bnd (acquire_lease run_id worker_id (st_lease_ttl_seconds (ae_settings env))) (\<lambda>lease.
        bnd (get_run run_id) (\<lambda>run.
        if rr_state run \<notin> {R_RUNNING, R_PAUSE_REQUESTED, R_PAUSED} then
          bnd (release_lease lease) (\<lambda>_. unchanged_result run_id run)
        else if rr_state run = R_PAUSED then
          bnd (pending_lifecycle_request run_id) (\<lambda>pending.
            if (case pending of None \<Rightarrow> True | Some q \<Rightarrow> lq_kind q \<noteq> Cancel)
            then bnd (release_lease lease) (\<lambda>_. unchanged_result run_id run)
            else advance_owned env fuel run_id maximum_tasks run lease)
        else advance_owned env fuel run_id maximum_tasks run lease)))"

end
