(* ===== verification/Recovery.thy ===== *)
theory Recovery
  imports Orchestrator Store_Context
begin

text \<open>
  \<open>recovery/manager.py\<close>: the circuit breaker and \<open>RecoveryManager.resume\<close> with its helpers. The
  repository indexer, which reads the file system, and the planner's \<open>revise\<close> are the programs
  \<open>re_index\<close> and \<open>re_revise\<close> that the manager is built with; the tools are the registry of
  \<open>Tool_Execution\<close>. Tracing spans are left out.
\<close>

section \<open>Circuit breaker\<close>

record CircuitBreaker =
  cb_threshold :: int
  cb_recovery :: time
  cb_failures :: int
  cb_opened_at :: "time option"

definition new_breaker :: "int \<Rightarrow> int \<Rightarrow> exn + CircuitBreaker" where
  "new_breaker failure_threshold recovery_seconds =
     (if failure_threshold < 1 \<or> recovery_seconds < 1 then Inl ValueError
      else Inr \<lparr>cb_threshold = failure_threshold, cb_recovery = seconds recovery_seconds,
                cb_failures = 0, cb_opened_at = None\<rparr>)"

definition allow :: "time \<Rightarrow> CircuitBreaker \<Rightarrow> bool" where
  "allow now b = (case cb_opened_at b of None \<Rightarrow> True | Some t \<Rightarrow> t + cb_recovery b \<le> now)"

definition before_call :: "time \<Rightarrow> CircuitBreaker \<Rightarrow> exn + unit" where
  "before_call now b = (if allow now b then Inr () else Inl (Durable ProviderRetryableError))"

definition breaker_success :: "CircuitBreaker \<Rightarrow> CircuitBreaker" where
  "breaker_success b = b\<lparr>cb_failures := 0, cb_opened_at := None\<rparr>"

definition breaker_failure :: "time \<Rightarrow> CircuitBreaker \<Rightarrow> CircuitBreaker" where
  "breaker_failure now b =
     (let b' = b\<lparr>cb_failures := cb_failures b + 1\<rparr> in
      if cb_threshold b' \<le> cb_failures b' then b'\<lparr>cb_opened_at := Some now\<rparr> else b')"

definition is_open :: "time \<Rightarrow> CircuitBreaker \<Rightarrow> bool" where
  "is_open now b \<longleftrightarrow> cb_opened_at b \<noteq> None \<and> \<not> allow now b"

section \<open>Resuming a run\<close>

record recovery_env =
  re_settings :: Settings
  re_codec :: codec
  re_index :: "string \<Rightarrow> RepositoryIndex option \<Rightarrow> RepositoryIndex io"
  re_revise :: "PlanSpec \<Rightarrow> string \<Rightarrow> PlanSpec io"
  re_tools :: ToolRegistry

record RecoveryResult =
  rv_run :: RunRecord
  rv_tasks :: "TaskRecord list"
  rv_checkpoint :: CheckpointEnvelope
  rv_lease :: LeaseRecord
  rv_repository_drifted :: bool
  rv_reconciled_tool_result_ids :: "string list"

definition revised_task :: "string \<Rightarrow> PlanSpec \<Rightarrow> TaskRecord list \<Rightarrow> TaskSpec \<Rightarrow> exn + TaskRecord" where
  "revised_task run_id revised prior spec =
     (case map_of (rev (map (\<lambda>t. (tr_task_id t, t)) prior)) (ts_task_id spec) of
        None \<Rightarrow> checked valid_TaskRecord (new_TaskRecord run_id (ps_plan_id revised) spec)
      | Some t \<Rightarrow>
          if tr_spec t = spec then Inr (t\<lparr>tr_plan_id := ps_plan_id revised, tr_version := 1\<rparr>)
          else checked valid_TaskRecord (new_TaskRecord run_id (ps_plan_id revised) spec))"

definition revise_plan_after_drift :: "recovery_env \<Rightarrow> RunRecord \<Rightarrow> RunRecord io" where
  "revise_plan_after_drift env run =
     bnd (get_plan (rr_run_id run) None) (\<lambda>previous.
     bnd (get_tasks (rr_run_id run) None) (\<lambda>prior.
     bnd (re_revise env previous ''repository drift invalidated indexed assumptions during recovery'') (\<lambda>revised.
     bnd (save_plan revised) (\<lambda>_.
     bnd (lift_sum (traverse (revised_task (rr_run_id run) revised prior) (ps_tasks revised))) (\<lambda>tasks.
     bnd (save_tasks tasks) (\<lambda>_.
     bnd clock_now (\<lambda>now.
     bnd (update_run (run\<lparr>rr_active_plan_id := Some (ps_plan_id revised), rr_updated_at := now\<rparr>)
            (rr_version run)) (\<lambda>run'.
     bnd (publish (rr_run_id run') ''plan.revised''
       (JObj [(''plan_id'', JStr (ps_plan_id revised)), (''previous_plan_id'', JStr (ps_plan_id previous)),
              (''version'', JInt (ps_version revised)), (''reason'', JStr (ps_revision_reason revised))])
       None) (\<lambda>_.
     ret run')))))))))"

definition abandoned_target :: "TaskRecord \<Rightarrow> TaskState" where
  "abandoned_target task =
     (if tr_attempt_count task < ts_maximum_attempts (tr_spec task) then T_FAILED_RETRYABLE
      else T_FAILED_TERMINAL)"

text \<open>A retryable task is made ready again in a second update.\<close>

definition make_ready :: "TaskRecord \<Rightarrow> TaskRecord io" where
  "make_ready task =
     bnd (lift_sum (transition_task (tr_state task) T_READY)) (\<lambda>state.
       update_task (task\<lparr>tr_state := state\<rparr>) (tr_version task))"

definition recover_abandoned_task :: "TaskRecord \<Rightarrow> TaskRecord io" where
  "recover_abandoned_task task0 =
     (let retryable = tr_attempt_count task0 < ts_maximum_attempts (tr_spec task0);
          target = abandoned_target task0 in
      bnd (record_error (tr_run_id task0) (Some (tr_task_id task0)) ConcurrencyConflictError
             ''worker ownership ended before the task attempt completed'') (\<lambda>error_id.
      bnd (finish_open_task_attempts (tr_run_id task0) (tr_task_id task0) target error_id) (\<lambda>_.
      bnd (lift_sum (transition_task (tr_state task0) target)) (\<lambda>state.
      bnd (if retryable then ret None else bnd clock_now (\<lambda>now. ret (Some now))) (\<lambda>finished.
      bnd (update_task (task0\<lparr>tr_state := state, tr_last_error_id := Some error_id,
             tr_finished_at := finished\<rparr>) (tr_version task0)) (\<lambda>task1.
      bnd (if retryable then make_ready task1 else ret task1) (\<lambda>task.
      bnd (publish (tr_run_id task) ''recovery.abandoned_attempt''
        (JObj [(''error_id'', JStr error_id), (''attempt'', JInt (tr_attempt_count task)),
               (''retryable'', JBool retryable)]) (Some (tr_task_id task))) (\<lambda>_.
      ret task))))))))"

definition recover_task :: "TaskRecord \<Rightarrow> TaskRecord io" where
  "recover_task task =
     (if tr_state task \<in> {T_PAUSED, T_WAITING} then make_ready task
      else if tr_state task = T_RUNNING then recover_abandoned_task task
      else ret task)"

definition validate_repository ::
  "recovery_env \<Rightarrow> RunRecord \<Rightarrow> CheckpointEnvelope \<Rightarrow> (RunRecord \<times> bool) io" where
  "validate_repository env run checkpoint =
     (case (cp_repository_snapshot_id (ce_payload checkpoint), cp_repository_manifest_hash (ce_payload checkpoint)) of
        (Some snapshot_id, Some manifest_hash) \<Rightarrow>
          if snapshot_id = [] \<or> manifest_hash = [] \<or> rr_repository_root run \<in> {None, Some []}
          then ret (run, False)
          else
            bnd (get_repository_index snapshot_id) (\<lambda>previous.
            bnd (re_index env (st_repository_root (re_settings env)) (Some previous)) (\<lambda>current.
            if rs_manifest_hash (ri_snapshot current) = manifest_hash then ret (run, False)
            else
              bnd (publish (rr_run_id run) ''repository.drift_detected''
                (JObj [(''previous_snapshot_id'', JStr snapshot_id),
                       (''previous_manifest_hash'', JStr manifest_hash),
                       (''current_manifest_hash'', JStr (rs_manifest_hash (ri_snapshot current))),
                       (''policy'', JStr (RepositoryDriftPolicy_value
                          (st_repository_drift_policy (re_settings env))))]) None) (\<lambda>_.
              if st_repository_drift_policy (re_settings env) = DRIFT_FAIL
              then raise (Durable RepositoryChangedError)
              else
                bnd (save_repository_index current) (\<lambda>_.
                bnd (invalidate_summaries_for_run (rr_run_id run)
                       ''repository content changed during pause'') (\<lambda>_.
                bnd clock_now (\<lambda>now.
                bnd (update_run (run\<lparr>rr_repository_snapshot_id := Some (rs_snapshot_id (ri_snapshot current)),
                       rr_updated_at := now\<rparr>) (rr_version run)) (\<lambda>run'.
                ret (run', True))))))))
      | _ \<Rightarrow> ret (run, False))"

text \<open>The first transition, from PAUSED or RUNNING; a run that is already RECOVERING keeps its row.\<close>

definition enter_recovery :: "RunRecord \<Rightarrow> RunRecord io" where
  "enter_recovery run =
     (if rr_state run \<notin> {R_PAUSED, R_RUNNING, R_RECOVERING} then raise (Durable DomainValidationError)
      else if rr_state run = R_RECOVERING then ret run
      else bnd (lift_sum (transition_run (rr_state run) R_RECOVERING)) (\<lambda>state.
        bnd clock_now (\<lambda>now.
          update_run (run\<lparr>rr_state := state, rr_updated_at := now\<rparr>) (rr_version run))))"

definition check_configuration :: "recovery_env \<Rightarrow> string \<Rightarrow> CheckpointEnvelope \<Rightarrow> unit io" where
  "check_configuration env run_id checkpoint =
     (if cp_configuration_fingerprint (ce_payload checkpoint) \<noteq> st_fingerprint (re_settings env) then
        bnd (publish run_id ''recovery.configuration_incompatible''
          (JObj [(''checkpoint_fingerprint'', JStr (cp_configuration_fingerprint (ce_payload checkpoint))),
                 (''current_fingerprint'', JStr (st_fingerprint (re_settings env)))]) None) (\<lambda>_.
        raise (Durable DomainValidationError))
      else ret ())"

definition finish_recovery ::
  "recovery_env \<Rightarrow> string \<Rightarrow> LeaseRecord \<Rightarrow> RunRecord \<Rightarrow> TaskRecord list \<Rightarrow> CheckpointEnvelope \<Rightarrow> bool \<Rightarrow>
   ToolResult list \<Rightarrow> RecoveryResult io" where
  "finish_recovery env run_id lease run tasks checkpoint drifted reconciled =
     bnd (lift_sum (transition_run (rr_state run) R_RUNNING)) (\<lambda>state.
     bnd clock_now (\<lambda>now.
     bnd (update_run (run\<lparr>rr_state := state, rr_active_task_id := None, rr_updated_at := now\<rparr>)
            (rr_version run)) (\<lambda>run'.
     bnd (get_plan run_id None) (\<lambda>plan.
     bnd (write_checkpoint (re_codec env) (st_checkpoint_retention_count (re_settings env)) run' plan tasks
            no_refs) (\<lambda>post.
     bnd (publish run_id ''recovery.completed''
       (JObj [(''checkpoint_id'', JStr (ce_checkpoint_id checkpoint)),
              (''repository_drifted'', JBool drifted),
              (''reconciled_tool_results'', jstrs (map tl_tool_result_id reconciled)),
              (''fencing_token'', JInt (le_fencing_token lease)),
              (''post_recovery_checkpoint_id'', JStr (ce_checkpoint_id post))]) None) (\<lambda>_.
     ret \<lparr>rv_run = run', rv_tasks = tasks, rv_checkpoint = checkpoint, rv_lease = lease,
          rv_repository_drifted = drifted,
          rv_reconciled_tool_result_ids = map tl_tool_result_id reconciled\<rparr>))))))"

definition resume_body :: "recovery_env \<Rightarrow> string \<Rightarrow> LeaseRecord \<Rightarrow> RecoveryResult io" where
  "resume_body env run_id lease =
     bnd (get_run run_id) (\<lambda>run0.
     bnd (enter_recovery run0) (\<lambda>run1.
     bnd (recover_latest (re_codec env) run_id) (\<lambda>checkpoint.
     bnd (check_configuration env run_id checkpoint) (\<lambda>_.
     bnd (validate_repository env run1 checkpoint) (\<lambda>(run2, drifted).
     bnd (if drifted \<and> st_repository_drift_policy (re_settings env) = DRIFT_REPLAN
          then revise_plan_after_drift env run2 else ret run2) (\<lambda>run3.
     bnd (reconcile_uncertain (re_tools env) run_id) (\<lambda>reconciled.
     bnd (get_tasks run_id None) (\<lambda>tasks0.
     bnd (mapA recover_task tasks0) (\<lambda>tasks.
     finish_recovery env run_id lease run3 tasks checkpoint drifted reconciled)))))))))"

text \<open>\<open>except BaseException\<close>: the lease is given back and the error raised again.\<close>

definition resume :: "recovery_env \<Rightarrow> string \<Rightarrow> string \<Rightarrow> RecoveryResult io" where
  "resume env run_id worker_id =
     bnd (acquire_lease run_id worker_id (st_lease_ttl_seconds (re_settings env))) (\<lambda>lease.
     catch (resume_body env run_id lease) (\<lambda>e. bnd (release_lease lease) (\<lambda>_. raise e)))"

end
