(* ===== verification/Orchestrator_Safety.thy ===== *)
theory Orchestrator_Safety
  imports Orchestrator
begin

text \<open>
  The advance loop keeps the promise of \<open>durable\<close>: each compare-and-swap it makes is from a row it
  has seen to a lifecycle successor of that row, so whatever other processes commit meanwhile, and
  wherever the process is refused or dies, the stored histories stay lifecycle histories. The
  lemmas follow the code: the operations on the run, the operations on the tasks, an iteration,
  the loop. They assume a good world and keep it good.
\<close>

section \<open>Sequencing in a good world\<close>

lemma out_bnd_g:
  assumes "good w" and "outcome durable P w m"
    and "\<And>v w'. durable w w' \<Longrightarrow> good w' \<Longrightarrow> P v w' \<Longrightarrow> outcome durable Q w' (f v)"
  shows "outcome durable Q w (bnd m f)"
  using assms(2)
proof (rule dur.out_bnd)
  fix v w' assume "durable w w'" "P v w'"
  then show "outcome durable Q w' (f v)" using assms(3) durable_good[OF _ assms(1)] by blast
qed

lemma out_next:
  assumes "good w" and "outcome durable (\<lambda>_ _. True) w m"
    and "\<And>v w'. durable w w' \<Longrightarrow> good w' \<Longrightarrow> outcome durable Q w' (f v)"
  shows "outcome durable Q w (bnd m f)"
  using assms by (intro out_bnd_g[of w "\<lambda>_ _. True"])

lemma clock_then:
  assumes "good w" and "\<And>now w'. good w' \<Longrightarrow> w_db w' = w_db w \<Longrightarrow> outcome durable Q w' (f now)"
  shows "outcome durable Q w (bnd clock_now f)"
  using assms by (intro out_clock_then) simp

lemma outcome_true: "outcome R Q w m \<Longrightarrow> outcome R (\<lambda>_ _. True) w m"
  by (erule outcome_weaken) simp

lemma get_run_then:
  assumes "good w"
    and "\<And>r w'. durable w w' \<Longrightarrow> good w' \<Longrightarrow> seen_run r w' \<Longrightarrow> rr_run_id r = i \<Longrightarrow> outcome durable Q w' (k r)"
  shows "outcome durable Q w (bnd (get_run i) k)"
proof (rule out_bnd_g[OF assms(1)])
  show "outcome durable (\<lambda>r w'. seen_run r w' \<and> rr_run_id r = i) w (get_run i)"
    by (rule outcome_weaken[OF out_get_run]) (simp add: assms(1))
qed (use assms(2) in blast)

lemma update_run_then:
  assumes "good w" and "seen_run r0 w" and "run_successor r0 r"
    and "\<And>r' w'. durable w w' \<Longrightarrow> good w' \<Longrightarrow> seen_run r' w' \<Longrightarrow> rr_run_id r' = rr_run_id r0 \<Longrightarrow>
      outcome durable Q w' (k r')"
  shows "outcome durable Q w (bnd (update_run r (rr_version r0)) k)"
proof (rule out_bnd_g[OF assms(1)])
  show "outcome durable (\<lambda>r' w'. seen_run r' w' \<and> rr_run_id r' = rr_run_id r0) w (update_run r (rr_version r0))"
    using assms(1-3)
    by (intro outcome_weaken[OF out_update_run[OF _ _ refl]]) (auto simp: run_successor_def)
qed (use assms(4) in blast)

lemma update_run_g:
  "good w \<Longrightarrow> seen_run r0 w \<Longrightarrow> run_successor r0 r \<Longrightarrow>
   outcome durable (\<lambda>r' w'. seen_run r' w') w (update_run r (rr_version r0))"
  by (rule outcome_weaken[OF out_update_run[OF _ _ refl]]) auto

lemma get_tasks_g: "good w \<Longrightarrow> outcome durable (\<lambda>ts w'. seen_tasks ts w') w (get_tasks i p)"
  by (rule outcome_weaken[OF out_get_tasks]) simp

lemma update_task_g:
  "good w \<Longrightarrow> seen_task (task_to_row t0) w \<Longrightarrow> task_successor t0 t \<Longrightarrow>
   outcome durable (\<lambda>t' w'. seen_task (task_to_row t') w') w (update_task t (tr_version t0))"
  "good w \<Longrightarrow> seen_task (task_to_row t0) w \<Longrightarrow> task_successor t0 t \<Longrightarrow>
   outcome durable (\<lambda>t' w'. seen_task (task_to_row t') w') w
     (update_task_and_finish_attempt t (tr_version t0) i s e)"
  "good w \<Longrightarrow> seen_task (task_to_row t0) w \<Longrightarrow> task_successor t0 t \<Longrightarrow>
   outcome durable (\<lambda>t' w'. seen_task (task_to_row t') w') w (cancel_task_and_open_attempts t (tr_version t0))"
  by (rule outcome_weaken[OF out_update_task[OF _ _ refl]]
      outcome_weaken[OF out_update_task_and_finish_attempt[OF _ _ refl]]
      outcome_weaken[OF out_cancel_task_and_open_attempts[OF _ _ refl]]; simp)+

lemma mapA_tasks:
  assumes "good w" and "seen_tasks ts w"
    and "\<And>t w'. good w' \<Longrightarrow> seen_task (task_to_row t) w' \<Longrightarrow>
      outcome durable (\<lambda>t' w''. seen_task (task_to_row t') w'') w' (f t)"
  shows "outcome durable (\<lambda>ts' w'. seen_tasks ts' w') w (mapA f ts)"
  using assms(1,2)
proof (induction ts arbitrary: w)
  case Nil
  then show ?case by (simp add: dur.out_ret seen_tasks_def)
next
  case (Cons t ts)
  have t: "seen_task (task_to_row t) w" "seen_tasks ts w" using Cons.prems(2) by (simp_all add: seen_tasks_def)
  show ?case
    unfolding mapA.simps
  proof (rule out_bnd_g[OF Cons.prems(1) assms(3)[OF Cons.prems(1) t(1)]])
    fix t' w1 assume w1: "durable w w1" "good w1" "seen_task (task_to_row t') w1"
    have "seen_tasks ts w1" using t(2) w1(1) Cons.prems(1) by (rule seen_tasks_mono)
    show "outcome durable (\<lambda>ts' w'. seen_tasks ts' w') w1 (bnd (mapA f ts) (\<lambda>ys. ret (t' # ys)))"
    proof (rule out_bnd_g[OF w1(2) Cons.IH[OF w1(2) \<open>seen_tasks ts w1\<close>]])
      fix ys w2 assume "durable w1 w2" "good w2" "seen_tasks ys w2"
      then show "outcome durable (\<lambda>ts' w'. seen_tasks ts' w') w2 (ret (t' # ys))"
        using seen_task_mono[OF w1(3) _ w1(2)] by (intro dur.out_ret) (simp add: seen_tasks_def)
    qed
  qed
qed

lemma task_move_successor:
  "transition_task (tr_state t) s = Inr s' \<Longrightarrow> task_successor t (t\<lparr>tr_state := s', tr_finished_at := f\<rparr>)"
  "transition_task (tr_state t) s = Inr s' \<Longrightarrow> task_successor t (t\<lparr>tr_state := s'\<rparr>)"
  "transition_task (tr_state t) s = Inr s' \<Longrightarrow>
     task_successor t (t\<lparr>tr_state := s', tr_finished_at := f, tr_last_error_id := e\<rparr>)"
  "transition_task (tr_state t) s = Inr s' \<Longrightarrow>
     task_successor t (t\<lparr>tr_state := s', tr_attempt_count := tr_attempt_count t + 1, tr_started_at := f\<rparr>)"
  by (auto simp: task_successor_def dest: transition_task_reaches)

lemma run_move_successor:
  "run_reaches (rr_state r) s \<Longrightarrow> run_successor r (r\<lparr>rr_state := s, rr_updated_at := n, rr_finished_at := f\<rparr>)"
  "run_reaches (rr_state r) s \<Longrightarrow>
     run_successor r (r\<lparr>rr_state := s, rr_active_task_id := a, rr_updated_at := n\<rparr>)"
  "run_reaches (rr_state r) s \<Longrightarrow>
     run_successor r (r\<lparr>rr_state := s, rr_active_task_id := a, rr_updated_at := n, rr_finished_at := f\<rparr>)"
  "run_successor r (r\<lparr>rr_active_task_id := a, rr_updated_at := n\<rparr>)"
  "run_successor r (r\<lparr>rr_active_task_id := a, rr_updated_at := n, rr_repository_snapshot_id := p\<rparr>)"
  by (simp_all add: run_successor_def)

lemmas seen_mono = seen_run_mono seen_task_mono seen_tasks_mono

section \<open>The run\<close>

lemma out_write_run_checkpoint [outcome_intros]:
  "outcome durable (\<lambda>_ _. True) w (write_run_checkpoint env run plan tasks refs)"
  unfolding write_run_checkpoint_def
  by (intro dur.out_bnd[OF out_write_checkpoint] dur.out_ret) simp

lemma out_run_tail:
  "outcome durable (\<lambda>_ _. True) w (bnd (write_run_checkpoint env run plan tasks refs) (\<lambda>c.
     bnd (publish i ty (p c) k) (\<lambda>_. ret (x c))))"
  by (intro dur.out_bnd[OF out_write_run_checkpoint] dur.out_bnd[OF out_publish] dur.out_ret) simp

lemma out_run_tail':
  "outcome durable (\<lambda>_ _. True) w (bnd (apply_lifecycle_request q) (\<lambda>_.
     bnd (write_run_checkpoint env run plan tasks refs) (\<lambda>c. bnd (publish i ty (p c) k) (\<lambda>_. ret (x c)))))"
  by (intro dur.out_bnd[OF out_apply_lifecycle_request] out_run_tail)

lemma seen_same_db:
  "seen_run r w \<Longrightarrow> w_db w' = w_db w \<Longrightarrow> seen_run r w'"
  "seen_task t w \<Longrightarrow> w_db w' = w_db w \<Longrightarrow> seen_task t w'"
  "seen_tasks ts w \<Longrightarrow> w_db w' = w_db w \<Longrightarrow> seen_tasks ts w'"
  by (simp_all add: seen_run_def seen_task_def seen_tasks_def)

lemma out_pause_run: "good w \<Longrightarrow> outcome durable (\<lambda>_ _. True) w (pause_run env run plan tasks q)"
  unfolding pause_run_def
proof (erule get_run_then, intro dur.out_bnd_lift, rule clock_then, assumption, rule update_run_then)
  fix r state between now and w' w'' :: world
  assume w: "seen_run r w'" "w_db w'' = w_db w'" and
    tr: "(if rr_state r = R_RUNNING then transition_run (rr_state r) R_PAUSE_REQUESTED
              else Inr (rr_state r)) = Inr between" "transition_run between R_PAUSED = Inr state"
  show "seen_run r w''" using w by (rule seen_same_db)
  have "run_reaches (rr_state r) between" using tr(1) by (auto split: if_splits dest: transition_run_reaches)
  then have "run_reaches (rr_state r) state" using transition_run_reaches[OF tr(2)] by simp
  then show "run_successor r (r\<lparr>rr_state := state, rr_active_task_id := None, rr_updated_at := now\<rparr>)"
    by (rule run_move_successor)
qed (assumption, rule out_run_tail')

lemma out_cancel_run:
  assumes "good w" and "seen_tasks tasks w"
  shows "outcome durable (\<lambda>_ _. True) w (cancel_run env run plan tasks q)"
  unfolding cancel_run_def
proof (rule out_bnd_g[OF assms(1) mapA_tasks[OF assms]])
  fix t w' assume w: "good w'" "seen_task (task_to_row t) w'"
  show "outcome durable (\<lambda>t' w''. seen_task (task_to_row t') w'') w' (cancel_task t)"
  proof (cases "settled (tr_state t)")
    case True
    then show ?thesis using w by (simp add: cancel_task_def dur.out_ret)
  next
    case False
    show ?thesis
      unfolding cancel_task_def if_not_P[OF False]
      using w by (intro dur.out_bnd_lift clock_then update_task_g)
        (blast intro: seen_same_db task_move_successor)+
  qed
next
  fix updated w1 assume "good w1"
  then show "outcome durable (\<lambda>_ _. True) w1 (bnd (get_run (rr_run_id run)) (\<lambda>r.
     bnd (lift_sum (transition_run (rr_state r) R_CANCELLED)) (\<lambda>state.
     bnd clock_now (\<lambda>now.
     bnd clock_now (\<lambda>finished.
     bnd (update_run (r\<lparr>rr_state := state, rr_active_task_id := None, rr_updated_at := now,
            rr_finished_at := Some finished\<rparr>) (rr_version r)) (\<lambda>run'.
     bnd (apply_lifecycle_request q) (\<lambda>_.
     bnd (write_run_checkpoint env run' plan updated no_refs) (\<lambda>checkpoint_id.
     bnd (publish (rr_run_id run') ''run.cancelled''
       (JObj [(''reason'', JStr (lq_reason q)), (''checkpoint_id'', JStr checkpoint_id)]) None) (\<lambda>_.
     ret (run', updated, checkpoint_id))))))))))"
    by (intro get_run_then dur.out_bnd_lift clock_then update_run_then out_run_tail')
      (blast intro: seen_same_db run_move_successor transition_run_reaches)+
qed

lemma out_fail_stuck_run: "good w \<Longrightarrow> outcome durable (\<lambda>_ _. True) w (fail_stuck_run env run plan tasks)"
  unfolding fail_stuck_run_def
  by (intro get_run_then dur.out_bnd_lift clock_then update_run_then dur.out_bnd[OF out_publish]
      dur.out_bnd[OF out_write_run_checkpoint] dur.out_ret)
    (blast intro: seen_same_db run_move_successor transition_run_reaches)+

lemma out_complete_run:
  "good w \<Longrightarrow> seen_run run w \<Longrightarrow> outcome durable (\<lambda>_ _. True) w (complete_run env i run plan tasks)"
  unfolding complete_run_def
  by (intro dur.out_bnd_lift clock_then update_run_then dur.out_bnd[OF out_publish]
      dur.out_bnd[OF out_write_run_checkpoint] dur.out_bnd[OF out_run_report] dur.out_ret)
    (blast intro: seen_same_db run_move_successor transition_run_reaches)+

section \<open>Context\<close>

lemma out_create_item [outcome_intros]:
  "outcome durable (\<lambda>_ _. True) w (create_item category content priority refs ids mandatory)"
  unfolding create_item_def
  by (intro dur.out_bnd[OF out_ids] dur.out_bnd[OF out_clock] dur.out_lift) simp

lemma out_build [outcome_intros]:
  "outcome durable (\<lambda>_ _. True) w (build sha b run_id items task_id level generation)"
proof -
  have snapshot: "outcome durable (\<lambda>_ _. True) w (new_snapshot b run_id task_id used ids refs removed)"
    for w used ids refs removed
    unfolding new_snapshot_def
    by (intro dur.out_bnd[OF out_ids] dur.out_bnd[OF out_clock] dur.out_lift) simp
  have compress: "outcome durable (\<lambda>_ _. True) w (compress sha run_id removed level generation n)" for w removed n
    unfolding compress_def Let_def
    by (auto intro!: dur.out_ret dur.out_bnd[OF out_ids] dur.out_bnd[OF out_clock] dur.out_bnd_lift)
  show ?thesis
    unfolding build_def Let_def
    by (auto intro!: dur.out_raise dur.out_ret dur.out_bnd[OF snapshot] dur.out_bnd[OF compress]
        split: prod.splits)
qed

lemma out_append_summary_navigation [outcome_intros]:
  "outcome durable (\<lambda>_ _. True) w (append_summary_navigation items u)"
  unfolding append_summary_navigation_def
  by (auto intro!: dur.out_ret dur.out_bnd[OF out_create_item])

lemma out_extend_context [outcome_intros]:
  "outcome durable (\<lambda>_ _. True) w (extend_context env run_id task out items summary)"
  unfolding extend_context_def Let_def
  by (auto intro!: dur.out_ret dur.out_bnd[OF out_create_item] dur.out_bnd[OF out_build]
      dur.out_bnd[OF out_save_context] split: prod.splits)

section \<open>The tasks\<close>

lemma foldA_g:
  assumes "good w" and "I s w"
    and "\<And>s x w1. x \<in> set xs \<Longrightarrow> durable w w1 \<Longrightarrow> good w1 \<Longrightarrow> I s w1 \<Longrightarrow> outcome durable I w1 (f s x)"
  shows "outcome durable I w (foldA f s xs)"
  using assms
proof (induction xs arbitrary: s w)
  case Nil
  then show ?case by (simp add: dur.out_ret)
next
  case (Cons x xs)
  have "outcome durable I w (f s x)" using Cons.prems by simp
  then show ?case
    unfolding foldA.simps
  proof (rule out_bnd_g[OF Cons.prems(1)])
    fix v w' assume w': "durable w w'" "good w'" "I v w'"
    show "outcome durable I w' (foldA f v xs)"
    proof (rule Cons.IH[OF w'(2,3)])
      fix s y w1 assume "y \<in> set xs" "durable w' w1" "good w1" "I s w1"
      then show "outcome durable I w1 (f s y)"
        using Cons.prems(3)[of y w1 s] durable_trans[OF w'(1)] by simp
    qed
  qed
qed

lemma promote_ready_g:
  assumes "good w" and "seen_tasks tasks w"
  shows "outcome durable (\<lambda>ts w'. seen_tasks ts w') w (promote_ready tasks)"
  unfolding promote_ready_def
proof (rule dur.out_bnd_lift, rule mapA_tasks[OF assms])
  fix candidates t w' assume w: "good w'" "seen_task (task_to_row t) w'"
  show "outcome durable (\<lambda>t' w''. seen_task (task_to_row t') w'') w'
     (if tr_task_id t \<notin> tr_task_id ` set candidates then ret t
      else bnd (lift_sum (transition_task (tr_state t) T_READY)) (\<lambda>state.
        update_task (t\<lparr>tr_state := state\<rparr>) (tr_version t)))"
  proof (cases "tr_task_id t \<notin> tr_task_id ` set candidates")
    case True
    then show ?thesis using w by (simp add: dur.out_ret)
  next
    case False
    show ?thesis unfolding if_not_P[OF False]
      using w by (intro dur.out_bnd_lift update_task_g) (blast intro: task_move_successor)+
  qed
qed

definition seen_started :: "started list \<Rightarrow> world \<Rightarrow> bool" where
  "seen_started ss w \<longleftrightarrow> (\<forall>(i, t, a) \<in> set ss. seen_task (task_to_row t) w)"

lemma seen_started_mono: "seen_started ss w \<Longrightarrow> durable w w' \<Longrightarrow> good w \<Longrightarrow> seen_started ss w'"
  unfolding seen_started_def using seen_task_mono by blast

lemma seen_tasks_update: "seen_tasks ts w \<Longrightarrow> seen_task (task_to_row t) w \<Longrightarrow> seen_tasks (ts[i := t]) w"
  unfolding seen_tasks_def using set_update_subset_insert[of ts i t] by blast

text \<open>A fact about the final value that holds in every world the process may reach from here.\<close>

lemma outcome_from:
  assumes "outcome durable (\<lambda>x w'. durable w w' \<longrightarrow> Q x w') w m"
  shows "outcome durable Q w m"
  using assms by (auto simp: outcome_def)

lemma out_bnd_val:
  assumes "good w" and "\<And>v w'. durable w w' \<Longrightarrow> good w' \<Longrightarrow> Q v w' \<Longrightarrow> Q' (g v) w'" and "outcome durable Q w m"
  shows "outcome durable Q' w (bnd m (\<lambda>v. ret (g v)))"
  using assms by (intro out_bnd_g[OF assms(1,3)] dur.out_ret)

definition seen_acc :: "TaskRecord list \<times> started list \<Rightarrow> world \<Rightarrow> bool" where
  "seen_acc acc w \<longleftrightarrow> seen_tasks (fst acc) w \<and> seen_started (snd acc) w"

lemma seen_acc_mono: "seen_acc acc w \<Longrightarrow> durable w w' \<Longrightarrow> good w \<Longrightarrow> seen_acc acc w'"
  unfolding seen_acc_def using seen_tasks_mono seen_started_mono by blast

lemma start_task_g:
  assumes "good w" and "seen_task (task_to_row c) w" and "seen_acc acc w"
  shows "outcome durable seen_acc w (start_task run n acc c)"
proof -
  obtain ts ss where acc: "acc = (ts, ss)" by force
  show ?thesis
    unfolding start_task_def acc prod.case
  proof (intro dur.out_bnd_lift, rule clock_then[OF assms(1)])
    fix i state now w1
    assume tr: "transition_task (tr_state c) T_RUNNING = Inr state" and w1: "good w1" "w_db w1 = w_db w"
    have w1': "seen_acc (ts, ss) w1"
      using assms(3) w1(2) seen_same_db unfolding acc seen_acc_def seen_started_def by auto
    show "outcome durable seen_acc w1
       (bnd (update_task (c\<lparr>tr_state := state, tr_attempt_count := tr_attempt_count c + 1,
                tr_started_at := Some now\<rparr>) (tr_version c)) (\<lambda>task.
        bnd (start_task_attempt (rr_run_id run) (tr_task_id task) (tr_attempt_count task)) (\<lambda>attempt_id.
        bnd (publish (rr_run_id run) ''task.started''
           (JObj [(''attempt'', JInt (tr_attempt_count task)), (''batch_size'', JInt n)])
           (Some (tr_task_id task))) (\<lambda>_.
        ret (ts[i := task], ss @ [(i, task, attempt_id)])))))"
    proof (rule out_bnd_g[OF w1(1) update_task_g(1)[OF w1(1) seen_same_db(2)[OF assms(2) w1(2)]
        task_move_successor(4)[OF tr]]])
      fix task w2 assume w2: "durable w1 w2" "good w2" "seen_task (task_to_row task) w2"
      have "seen_acc (ts, ss) w2" using seen_acc_mono[OF w1' w2(1) w1(1)] .
      then have "seen_acc (ts[i := task], ss @ [(i, task, a)]) w2" for a
        using w2(3) by (auto simp: seen_acc_def seen_started_def intro: seen_tasks_update)
      then have keep: "durable w2 w' \<longrightarrow> seen_acc (ts[i := task], ss @ [(i, task, a)]) w'" for a w'
        using seen_acc_mono w2(2) by blast
      show "outcome durable seen_acc w2
        (bnd (start_task_attempt (rr_run_id run) (tr_task_id task) (tr_attempt_count task)) (\<lambda>attempt_id.
         bnd (publish (rr_run_id run) ''task.started''
           (JObj [(''attempt'', JInt (tr_attempt_count task)), (''batch_size'', JInt n)])
           (Some (tr_task_id task))) (\<lambda>_.
         ret (ts[i := task], ss @ [(i, task, attempt_id)]))))"
        by (rule outcome_from, intro dur.out_bnd[OF out_start_task_attempt] dur.out_bnd[OF out_publish] dur.out_ret)
          (rule keep)
    qed
  qed
qed

lemma start_batch_g:
  assumes "good w" and "seen_tasks ts w" and "\<And>c. c \<in> set batch \<Longrightarrow> seen_task (task_to_row c) w"
  shows "outcome durable (\<lambda>x w'. seen_acc (fst (snd x), fst (snd (snd x))) w') w
    (start_batch env run plan ts batch)"
  unfolding start_batch_def
proof (rule out_bnd_g[OF assms(1)], rule foldA_g[OF assms(1), where I = seen_acc])
  show "seen_acc (ts, []) w" using assms(2) by (simp add: seen_acc_def seen_started_def)
next
  fix acc c w1 assume "c \<in> set batch" "durable w w1" "good w1" "seen_acc acc w1"
  then show "outcome durable seen_acc w1 (start_task run (int (length batch)) acc c)"
    using seen_task_mono[OF assms(3) _ assms(1)] by (intro start_task_g)
next
  fix acc w1
  assume w1: "good w1" "seen_acc acc w1"
  obtain ts' ss where acc: "acc = (ts', ss)" by force
  have seen: "durable w1 w' \<longrightarrow> seen_acc (ts', ss) w'" for w'
    using w1 seen_acc_mono unfolding acc by blast
  show "outcome durable (\<lambda>x w'. seen_acc (fst (snd x), fst (snd (snd x))) w') w1
    (case acc of (tasks, started) \<Rightarrow>
       bnd (get_run (rr_run_id run)) (\<lambda>r. bnd clock_now (\<lambda>now.
       bnd (update_run (r\<lparr>rr_active_task_id := case started of [(_, t, _)] \<Rightarrow> Some (tr_task_id t) | _ \<Rightarrow> None,
                           rr_updated_at := now\<rparr>) (rr_version r)) (\<lambda>run.
       if list_ex (\<lambda>(_, t, _). ts_checkpoint_policy (tr_spec t) = BEFORE_AND_AFTER) started
       then bnd (write_run_checkpoint env run plan tasks no_refs) (\<lambda>i. ret (run, tasks, started, Some i))
       else ret (run, tasks, started, None)))))"
    unfolding acc prod.case
  proof (rule outcome_from, intro get_run_then clock_then update_run_then)
    fix r' w4
    show "outcome durable (\<lambda>x w'. durable w1 w' \<longrightarrow> seen_acc (fst (snd x), fst (snd (snd x))) w') w4
     (if list_ex (\<lambda>(_, t, _). ts_checkpoint_policy (tr_spec t) = BEFORE_AND_AFTER) ss
      then bnd (write_run_checkpoint env r' plan ts' no_refs) (\<lambda>i. ret (r', ts', ss, Some i))
      else ret (r', ts', ss, None))"
      using seen by (auto intro!: dur.out_ret dur.out_bnd[OF out_write_run_checkpoint])
  qed (blast intro: w1 seen_same_db run_move_successor)+
qed

lemma commit_task_g:
  assumes "good w" and "seen_tasks ts w" and "seen_task (task_to_row t) w"
  shows "outcome durable (\<lambda>x w'. seen_tasks (fst (snd x)) w') w (commit_task run_id ts (i, t, a) out)"
  unfolding commit_task_def prod.case
proof (rule dur.out_bnd_lift, rule clock_then[OF assms(1)])
  fix state now w1
  assume tr: "transition_task (tr_state t) T_SUCCEEDED = Inr state" and w1: "good w1" "w_db w1 = w_db w"
  note seen = seen_same_db(3)[OF assms(2) w1(2)] seen_same_db(2)[OF assms(3) w1(2)]
  show "outcome durable (\<lambda>x w'. seen_tasks (fst (snd x)) w') w1
     (bnd (update_task_and_finish_attempt (t\<lparr>tr_state := state, tr_finished_at := Some now\<rparr>)
            (tr_version t) a T_SUCCEEDED None) (\<lambda>task.
      let tasks' = ts[i := task]; ids = running_ids tasks' in
      bnd (get_run run_id) (\<lambda>r.
      bnd clock_now (\<lambda>now.
      bnd (update_run (r\<lparr>rr_active_task_id := (if length ids = 1 then Some (hd ids) else None),
            rr_updated_at := now, rr_repository_snapshot_id := (case to_repository_snapshot_id out of
               None \<Rightarrow> rr_repository_snapshot_id r | Some i \<Rightarrow> Some i)\<rparr>) (rr_version r)) (\<lambda>run.
      ret (task, tasks', run))))))"
  proof (rule out_bnd_g[OF w1(1) update_task_g(2)[OF w1(1) seen(2) task_move_successor(1)[OF tr]]])
    fix task w2 assume w2: "durable w1 w2" "good w2" "seen_task (task_to_row task) w2"
    have "seen_tasks (ts[i := task]) w2"
      using seen_tasks_update[OF seen_tasks_mono[OF seen(1) w2(1) w1(1)] w2(3)] .
    then have keep: "durable w2 w' \<longrightarrow> seen_tasks (ts[i := task]) w'" for w'
      using w2(2) seen_tasks_mono by blast
    show "outcome durable (\<lambda>x w'. seen_tasks (fst (snd x)) w') w2
      (let tasks' = ts[i := task]; ids = running_ids tasks' in
      bnd (get_run run_id) (\<lambda>r.
      bnd clock_now (\<lambda>now.
      bnd (update_run (r\<lparr>rr_active_task_id := (if length ids = 1 then Some (hd ids) else None),
            rr_updated_at := now, rr_repository_snapshot_id := (case to_repository_snapshot_id out of
               None \<Rightarrow> rr_repository_snapshot_id r | Some i \<Rightarrow> Some i)\<rparr>) (rr_version r)) (\<lambda>run.
      ret (task, tasks', run)))))"
      unfolding Let_def
    proof (rule outcome_from, intro get_run_then clock_then update_run_then)
      show "outcome durable (\<lambda>x w'. durable w2 w' \<longrightarrow> seen_tasks (fst (snd x)) w') w3
          (ret (task, ts[i := task], r'))" for r' w3
        using keep by (intro dur.out_ret) simp
    qed (blast intro: w2 seen_same_db run_move_successor)+
  qed
qed

definition seen_results :: "loop_state \<times> failure list \<Rightarrow> world \<Rightarrow> bool" where
  "seen_results acc w \<longleftrightarrow> seen_tasks (ls_tasks (fst acc)) w \<and>
     (\<forall>f \<in> set (snd acc). seen_task (task_to_row (fl_task f)) w)"

lemma seen_results_mono: "seen_results acc w \<Longrightarrow> durable w w' \<Longrightarrow> good w \<Longrightarrow> seen_results acc w'"
  unfolding seen_results_def using seen_task_mono seen_tasks_mono by blast

lemma commit_success_g:
  assumes "good w" and "seen_tasks (ls_tasks st) w" and "seen_task (task_to_row t) w"
  shows "outcome durable (\<lambda>st' w'. seen_tasks (ls_tasks st') w') w
    (commit_success env run_id plan st (i, t, a) out)"
  unfolding commit_success_def
proof (rule out_bnd_g[OF assms(1) commit_task_g[OF assms]])
  fix x :: "TaskRecord \<times> TaskRecord list \<times> RunRecord" and w1
  assume w1: "good w1" "seen_tasks (fst (snd x)) w1"
  obtain task ts run where x: "x = (task, ts, run)" by (cases x) auto
  have keep: "durable w1 w' \<longrightarrow> seen_tasks ts w'" for w'
    using w1 seen_tasks_mono x by auto
  show "outcome durable (\<lambda>st' w'. seen_tasks (ls_tasks st') w') w1
    (case x of (task, tasks, run) \<Rightarrow>
     let outcomes = ls_outcomes st @ [out] in
     bnd (extend_context env run_id task out (ls_items st) (ls_summary st)) (\<lambda>(snapshot, new, items).
     bnd (if checkpoint_due (ae_settings env) task tasks
          then bnd (write_run_checkpoint env run plan tasks (outcome_refs snapshot outcomes)) (\<lambda>i. ret (Some i))
          else ret (ls_checkpoint_id st)) (\<lambda>checkpoint_id.
     bnd (publish run_id ''task.succeeded''
       (JObj [(''attempt'', JInt (tr_attempt_count task)), (''checkpoint_id'', jopt JStr checkpoint_id),
              (''evidence_ids'', jstrs (to_evidence_ids out))]) (Some (tr_task_id task))) (\<lambda>_.
     let selected = filter (\<lambda>i. ci_item_id i \<in> set (cx_item_ids snapshot)) items in
     bnd (case new of None \<Rightarrow> ret selected | Some u \<Rightarrow> append_summary_navigation selected u) (\<lambda>items'.
     ret (st\<lparr>ls_run := run, ls_tasks := tasks, ls_outcomes := outcomes, ls_items := items',
       ls_summary := (case new of None \<Rightarrow> ls_summary st | Some u \<Rightarrow> Some u),
       ls_checkpoint_id := checkpoint_id, ls_executed := ls_executed st + 1\<rparr>))))))"
    unfolding x prod.case Let_def
  proof (rule outcome_from, rule dur.out_bnd[OF out_extend_context])
    fix c :: "ContextSnapshot \<times> SummaryRecord option \<times> ContextItem list" and w2
    obtain snapshot new items where c: "c = (snapshot, new, items)" by (cases c) auto
    have mid: "outcome durable (\<lambda>_ _. True) w (if checkpoint_due (ae_settings env) task ts
          then bnd (write_run_checkpoint env run plan ts (outcome_refs snapshot (ls_outcomes st @ [out]))) (\<lambda>i. ret (Some i))
          else ret (ls_checkpoint_id st))" for w
      by (auto intro!: dur.out_ret dur.out_bnd[OF out_write_run_checkpoint])
    have nav: "outcome durable (\<lambda>_ _. True) w
        (case new of None \<Rightarrow> ret xs | Some u \<Rightarrow> append_summary_navigation xs u)" for w xs
      by (auto intro!: dur.out_ret out_append_summary_navigation split: option.split)
    show "outcome durable (\<lambda>x w'. durable w1 w' \<longrightarrow> seen_tasks (ls_tasks x) w') w2
      (case c of (snapshot, new, items) \<Rightarrow>
        bnd (if checkpoint_due (ae_settings env) task ts
          then bnd (write_run_checkpoint env run plan ts (outcome_refs snapshot (ls_outcomes st @ [out]))) (\<lambda>i. ret (Some i))
          else ret (ls_checkpoint_id st)) (\<lambda>checkpoint_id.
        bnd (publish run_id ''task.succeeded''
          (JObj [(''attempt'', JInt (tr_attempt_count task)), (''checkpoint_id'', jopt JStr checkpoint_id),
              (''evidence_ids'', jstrs (to_evidence_ids out))]) (Some (tr_task_id task))) (\<lambda>_.
        bnd (case new of None \<Rightarrow> ret (filter (\<lambda>i. ci_item_id i \<in> set (cx_item_ids snapshot)) items)
             | Some u \<Rightarrow> append_summary_navigation (filter (\<lambda>i. ci_item_id i \<in> set (cx_item_ids snapshot)) items) u) (\<lambda>items'.
        ret (st\<lparr>ls_run := run, ls_tasks := ts, ls_outcomes := ls_outcomes st @ [out], ls_items := items',
          ls_summary := (case new of None \<Rightarrow> ls_summary st | Some u \<Rightarrow> Some u),
          ls_checkpoint_id := checkpoint_id, ls_executed := ls_executed st + 1\<rparr>)))))"
      unfolding c prod.case
      by (intro dur.out_bnd[OF mid] dur.out_bnd[OF out_publish] dur.out_bnd[OF nav] dur.out_ret)
        (simp add: keep)
  qed
qed

lemma commit_result_g:
  assumes "good w" and "seen_results acc w" and "seen_task (task_to_row (fst (snd s))) w"
  shows "outcome durable seen_results w (commit_result env run_id plan acc (s, r))"
proof -
  obtain st fs where acc: "acc = (st, fs)" by force
  obtain i t a where s: "s = (i, t, a)" by (cases s) auto
  obtain result error where r: "r = (result, error)" by force
  have t: "seen_task (task_to_row t) w" using assms(3) s by simp
  have more: "seen_results (st, fs @ [f]) w" if "fl_task f = t" for f
    using assms(2) t that by (simp add: seen_results_def acc)
  show ?thesis
  proof (cases error)
    case (Some e)
    have "fl_task (failure_of env s e) = t" by (cases e) (simp_all add: failure_of_def s)
    then show ?thesis using more by (simp add: commit_result_def acc r Some dur.out_ret)
  next
    case None
    show ?thesis
    proof (cases result)
      case no: None
      have "fl_task (no_outcome s) = t" by (simp add: no_outcome_def s)
      then show ?thesis using more by (simp add: commit_result_def acc r None no dur.out_ret)
    next
      case (Some out)
      have st: "seen_tasks (ls_tasks st) w" using assms(2) by (simp add: seen_results_def acc)
      have "outcome durable seen_results w (bnd (commit_success env run_id plan st (i, t, a) out) (\<lambda>st'. ret (st', fs)))"
      proof (rule out_bnd_g[OF assms(1) commit_success_g[OF assms(1) st t]])
        fix st' :: loop_state and w' assume w': "durable w w'" "seen_tasks (ls_tasks st') w'"
        have "seen_results (st, fs) w'" using seen_results_mono assms(1,2) w'(1) acc by blast
        then show "outcome durable seen_results w' (ret (st', fs))"
          using w' by (intro dur.out_ret) (simp add: seen_results_def)
      qed
      then show ?thesis by (simp add: commit_result_def acc r s None Some)
    qed
  qed
qed

section \<open>Failures\<close>

definition seen_pending :: "failure list \<Rightarrow> disposition \<Rightarrow> world \<Rightarrow> bool" where
  "seen_pending fs d w \<longleftrightarrow> seen_tasks (dn_tasks d) w \<and> (\<forall>f \<in> set fs. seen_task (task_to_row (fl_task f)) w)"

lemma seen_pending_mono: "seen_pending fs d w \<Longrightarrow> durable w w' \<Longrightarrow> good w \<Longrightarrow> seen_pending fs d w'"
  unfolding seen_pending_def using seen_task_mono seen_tasks_mono by blast

lemma seen_pending_dispose:
  "seen_pending fs d w \<Longrightarrow> seen_task (task_to_row t) w \<Longrightarrow> seen_pending fs (dispose settings d f t) w"
  by (auto simp: seen_pending_def dispose_def Let_def intro: seen_tasks_update)

lemma commit_failure_g:
  assumes "good w" and "seen_pending fs d w" and "f \<in> set fs"
  shows "outcome durable (\<lambda>d'. seen_pending fs d') w (commit_failure env run_id d f)"
  unfolding commit_failure_def Let_def
proof (rule out_next[OF assms(1) out_record_error], rule dur.out_bnd_lift, rule out_next)
  fix e w1 state
  assume w1: "durable w w1" "good w1"
  show "good w1" by fact
  show "outcome durable (\<lambda>_ _. True) w1 (if failure_target (ae_settings env) f = T_FAILED_TERMINAL
       then bnd clock_now (\<lambda>now. ret (Some now)) else ret None)"
    by (auto intro!: dur.out_ret dur.out_bnd[OF out_clock])
next
  fix e w1 state finished w2
  assume w: "durable w w1" "good w1" "durable w1 w2" "good w2"
    and tr: "transition_task (tr_state (fl_task f)) (failure_target (ae_settings env) f) = Inr state"
  have seen: "seen_pending fs d w'" if "durable w2 w'" for w'
    using seen_pending_mono[OF assms(2) _ assms(1)] w durable_trans that by blast
  have "seen_task (task_to_row (fl_task f)) w2"
    using seen[OF durable_refl] assms(3) by (simp add: seen_pending_def)
  note row = update_task_g(2)[OF w(4) this task_move_successor(3)[OF tr]]
  show "outcome durable (\<lambda>d'. seen_pending fs d') w2
    (bnd (update_task_and_finish_attempt
             ((fl_task f)\<lparr>tr_state := state, tr_finished_at := finished, tr_last_error_id := Some e\<rparr>)
             (tr_version (fl_task f)) (fl_attempt_id f) (failure_target (ae_settings env) f) (Some e)) (\<lambda>task.
      bnd (publish run_id (failure_event (ae_settings env) f) (failure_payload (ae_settings env) f task e)
        (Some (tr_task_id task))) (\<lambda>_.
      ret (dispose (ae_settings env) d f task))))"
  proof (rule out_bnd_g[OF w(4) row])
    fix task w3 assume w3: "durable w2 w3" "good w3" "seen_task (task_to_row task) w3"
    have "seen_pending fs (dispose (ae_settings env) d f task) w3"
      using seen_pending_dispose[OF seen[OF w3(1)] w3(3)] .
    then have keep: "durable w3 w' \<longrightarrow> seen_pending fs (dispose (ae_settings env) d f task) w'" for w'
      using w3(2) seen_pending_mono by blast
    show "outcome durable (\<lambda>d'. seen_pending fs d') w3
      (bnd (publish run_id (failure_event (ae_settings env) f) (failure_payload (ae_settings env) f task e)
        (Some (tr_task_id task))) (\<lambda>_. ret (dispose (ae_settings env) d f task)))"
      by (rule outcome_from, intro dur.out_bnd[OF out_publish] dur.out_ret) (rule keep)
  qed
qed

lemma skip_task_g:
  assumes "good w" and "seen_tasks (fst acc) w" and "seen_task (task_to_row t) w"
  shows "outcome durable (\<lambda>x w'. seen_tasks (fst x) w') w (skip_task blocked acc t)"
proof -
  obtain ts ss where acc: "acc = (ts, ss)" by force
  show ?thesis
  proof (cases "tr_task_id t \<notin> blocked \<or> tr_state t \<notin> {T_PENDING, T_READY, T_WAITING}")
    case True
    then show ?thesis using assms by (auto simp: skip_task_def acc seen_tasks_def intro!: dur.out_ret)
  next
    case False
    show ?thesis
      unfolding skip_task_def acc prod.case if_not_P[OF False]
    proof (rule dur.out_bnd_lift, rule clock_then[OF assms(1)])
      fix state now w1
      assume tr: "transition_task (tr_state t) T_SKIPPED = Inr state" and w1: "good w1" "w_db w1 = w_db w"
      have ts: "seen_tasks ts w1" using assms(2) w1(2) acc by (auto intro: seen_same_db)
      show "outcome durable (\<lambda>x w'. seen_tasks (fst x) w') w1
        (bnd (update_task (t\<lparr>tr_state := state, tr_finished_at := Some now\<rparr>) (tr_version t))
          (\<lambda>t'. ret (ts @ [t'], ss @ [tr_task_id t'])))"
      proof (rule out_bnd_val[OF w1(1) _ update_task_g(1)[OF w1(1) seen_same_db(2)[OF assms(3) w1(2)]
              task_move_successor(1)[OF tr]]])
        fix t' :: TaskRecord and w2 assume "durable w1 w2" "seen_task (task_to_row t') w2"
        then show "seen_tasks (fst (ts @ [t'], ss @ [tr_task_id t'])) w2"
          using seen_tasks_mono[OF ts _ w1(1)] by (simp add: seen_tasks_def)
      qed
    qed
  qed
qed

lemma skip_dependents_g:
  assumes "good w" and "seen_tasks ts w"
  shows "outcome durable (\<lambda>ts' w'. seen_tasks ts' w') w (skip_transitive_dependents ts i)"
  unfolding skip_transitive_dependents_def
proof (rule out_bnd_g[OF assms(1)], rule foldA_g[OF assms(1), where I = "\<lambda>x w. seen_tasks (fst x) w"])
  fix acc :: "TaskRecord list \<times> string list" and t w1
  assume "t \<in> set ts" "durable w w1" "good w1" "seen_tasks (fst acc) w1"
  then show "outcome durable (\<lambda>x w. seen_tasks (fst x) w) w1 (skip_task (blocked_by ts i - {i}) acc t)"
    using seen_tasks_mono[OF assms(2) _ assms(1)] by (intro skip_task_g) (auto simp: seen_tasks_def)
next
  fix x :: "TaskRecord list \<times> string list" and w1 assume w1: "good w1" "seen_tasks (fst x) w1"
  then have keep: "durable w1 w' \<longrightarrow> seen_tasks (fst x) w'" for w' using seen_tasks_mono by blast
  show "outcome durable (\<lambda>ts' w'. seen_tasks ts' w') w1
    (case x of (ts', skipped) \<Rightarrow> bnd (publish (tr_run_id (hd ts')) ''task.dependents_skipped''
       (JObj [(''skipped_task_ids'', jstrs (sort skipped))]) (Some i)) (\<lambda>_. ret ts'))"
    unfolding prod.case_eq_if
    by (rule outcome_from, intro dur.out_bnd[OF out_publish] dur.out_ret) (rule keep)
qed (simp add: seen_tasks_def)

lemma disposed_state_reaches: "disposed_state b c s = Inr s' \<Longrightarrow> run_reaches s s'"
  by (auto simp: disposed_state_def split: if_splits sum.splits dest!: transition_run_reaches)


lemma handle_batch_failures_g:
  assumes "good w" and "seen_tasks ts w" and "\<forall>f \<in> set fs. seen_task (task_to_row (fl_task f)) w"
  shows "outcome durable (\<lambda>x w'. seen_tasks (fst (snd x)) w') w (handle_batch_failures env run plan ts fs)"
  unfolding handle_batch_failures_def
proof (rule out_bnd_g[OF assms(1)], rule foldA_g[OF assms(1), where I = "seen_pending fs"])
  show "seen_pending fs \<lparr>dn_tasks = ts, dn_retry = [], dn_skip = [], dn_review = False, dn_fail = False\<rparr> w"
    using assms by (simp add: seen_pending_def)
next
  fix d f w1 assume "f \<in> set fs" "good w1" "seen_pending fs d w1"
  then show "outcome durable (seen_pending fs) w1 (commit_failure env (rr_run_id run) d f)"
    by (intro commit_failure_g)
next
  fix d w1 assume w1: "good w1" "seen_pending fs d w1"
  then have "seen_tasks (dn_tasks d) w1" by (simp add: seen_pending_def)
  then have fold: "outcome durable seen_tasks w1 (foldA skip_transitive_dependents (dn_tasks d) (dn_skip d))"
    using w1(1) by (intro foldA_g) (blast intro: skip_dependents_g)+
  have finished: "outcome durable (\<lambda>_ _. True) w
      (if dn_fail d then bnd clock_now (\<lambda>t. ret (Some t)) else ret (rr_finished_at r))" for w r
    by (auto intro!: dur.out_ret dur.out_bnd[OF out_clock])
  show "outcome durable (\<lambda>x w'. seen_tasks (fst (snd x)) w') w1
    (bnd (foldA skip_transitive_dependents (dn_tasks d) (dn_skip d)) (\<lambda>tasks'.
     bnd (get_run (rr_run_id run)) (\<lambda>current_run.
     bnd clock_now (\<lambda>now.
     bnd (lift_sum (disposed_state (dn_fail d) (dn_review d) (rr_state current_run))) (\<lambda>state.
     bnd (if dn_fail d then bnd clock_now (\<lambda>t. ret (Some t)) else ret (rr_finished_at current_run)) (\<lambda>finished.
     bnd (update_run (current_run\<lparr>rr_state := state, rr_active_task_id := None,
            rr_updated_at := now, rr_finished_at := finished\<rparr>) (rr_version current_run)) (\<lambda>run'.
     bnd (write_run_checkpoint env run' plan tasks' no_refs) (\<lambda>checkpoint_id.
     ret (run', tasks', checkpoint_id, dn_fail d \<or> dn_review d, dn_retry d)))))))))"
  proof (rule out_bnd_g[OF w1(1) fold])
    fix ts' w2 assume w2: "good w2" "seen_tasks ts' w2"
    then have keep: "durable w2 w' \<longrightarrow> seen_tasks ts' w'" for w' using seen_tasks_mono by blast
    show "outcome durable (\<lambda>x w'. seen_tasks (fst (snd x)) w') w2
      (bnd (get_run (rr_run_id run)) (\<lambda>current_run.
       bnd clock_now (\<lambda>now.
       bnd (lift_sum (disposed_state (dn_fail d) (dn_review d) (rr_state current_run))) (\<lambda>state.
       bnd (if dn_fail d then bnd clock_now (\<lambda>t. ret (Some t)) else ret (rr_finished_at current_run)) (\<lambda>finished.
       bnd (update_run (current_run\<lparr>rr_state := state, rr_active_task_id := None,
              rr_updated_at := now, rr_finished_at := finished\<rparr>) (rr_version current_run)) (\<lambda>run'.
       bnd (write_run_checkpoint env run' plan ts' no_refs) (\<lambda>checkpoint_id.
       ret (run', ts', checkpoint_id, dn_fail d \<or> dn_review d, dn_retry d))))))))"
    proof (rule outcome_from, rule get_run_then[OF w2(1)], rule clock_then, assumption, rule dur.out_bnd_lift)
      fix r state now and w3 w4 :: world
      assume w: "seen_run r w3" "good w4" "w_db w4 = w_db w3"
        and to: "disposed_state (dn_fail d) (dn_review d) (rr_state r) = Inr state"
      have seen: "seen_run r w4" using w by (blast intro: seen_same_db)
      show "outcome durable (\<lambda>x w'. durable w2 w' \<longrightarrow> seen_tasks (fst (snd x)) w') w4
       (bnd (if dn_fail d then bnd clock_now (\<lambda>t. ret (Some t)) else ret (rr_finished_at r)) (\<lambda>finished.
        bnd (update_run (r\<lparr>rr_state := state, rr_active_task_id := None,
              rr_updated_at := now, rr_finished_at := finished\<rparr>) (rr_version r)) (\<lambda>run'.
        bnd (write_run_checkpoint env run' plan ts' no_refs) (\<lambda>checkpoint_id.
        ret (run', ts', checkpoint_id, dn_fail d \<or> dn_review d, dn_retry d)))))"
      proof (rule out_next[OF w(2) finished])
        fix finished w5 assume w5: "durable w4 w5" "good w5"
        show "outcome durable (\<lambda>x w'. durable w2 w' \<longrightarrow> seen_tasks (fst (snd x)) w') w5
         (bnd (update_run (r\<lparr>rr_state := state, rr_active_task_id := None,
              rr_updated_at := now, rr_finished_at := finished\<rparr>) (rr_version r)) (\<lambda>run'.
          bnd (write_run_checkpoint env run' plan ts' no_refs) (\<lambda>checkpoint_id.
          ret (run', ts', checkpoint_id, dn_fail d \<or> dn_review d, dn_retry d))))"
        proof (rule update_run_then[OF w5(2) seen_run_mono[OF seen w5(1) w(2)]
              run_move_successor(3)[OF disposed_state_reaches[OF to]]])
          fix run' w6
          show "outcome durable (\<lambda>x w'. durable w2 w' \<longrightarrow> seen_tasks (fst (snd x)) w') w6
           (bnd (write_run_checkpoint env run' plan ts' no_refs) (\<lambda>checkpoint_id.
            ret (run', ts', checkpoint_id, dn_fail d \<or> dn_review d, dn_retry d)))"
            using keep by (intro dur.out_bnd[OF out_write_run_checkpoint] dur.out_ret) simp
        qed
      qed
    qed
  qed
qed

lemma out_sleep_for: "outcome durable (\<lambda>_ _. True) w (sleep_for env run_id u t)"
  unfolding sleep_for_def by (intro dur.out_bnd_lift dur.out_ret) simp

section \<open>An iteration\<close>

text \<open>The state an iteration hands to the next one holds rows the process has seen.\<close>

definition seen_result :: "step_result \<Rightarrow> world \<Rightarrow> bool" where
  "seen_result r w = (case r of Again st \<Rightarrow> seen_tasks (ls_tasks st) w | Leave _ _ \<Rightarrow> True)"

lemma obey_request_g:
  assumes "good w" and "seen_tasks (ls_tasks st) w"
  shows "outcome durable seen_result w (obey_request env plan st q)"
proof -
  have leave: "outcome durable seen_result w (ret (Leave st' i))" for w st' i
    by (simp add: dur.out_ret seen_result_def)
  show ?thesis
    unfolding obey_request_def
    using assms by (auto intro!: dur.out_bnd[OF out_cancel_run] dur.out_bnd[OF out_pause_run]
        dur.out_bnd[OF out_run_report] leave)
qed

lemma finish_run_g:
  assumes "good w" and "seen_tasks (ls_tasks st) w"
  shows "outcome durable seen_result w (finish_run env run_id plan st)"
  unfolding finish_run_def
proof (rule out_next[OF assms(1) outcome_true[OF out_pending_lifecycle_request]])
  fix q w1 assume w1: "durable w w1" "good w1"
  have leave: "outcome durable seen_result w (ret (Leave st' i))" for w st' i
    by (simp add: dur.out_ret seen_result_def)
  have again: "outcome durable seen_result w1 (ret (Again st))"
    using seen_tasks_mono[OF assms(2) w1(1) assms(1)] by (simp add: dur.out_ret seen_result_def)
  show "outcome durable seen_result w1
    (if q \<noteq> None then ret (Again st)
     else bnd (get_run run_id) (\<lambda>run.
       if list_all (\<lambda>t. tr_state t \<in> {T_SUCCEEDED, T_SKIPPED}) (ls_tasks st) then
         bnd (complete_run env run_id run plan (ls_tasks st)) (\<lambda>(run', checkpoint_id, report_id).
         ret (Leave (st\<lparr>ls_run := run', ls_checkpoint_id := Some checkpoint_id\<rparr>) (Some report_id)))
       else
         bnd (fail_stuck_run env run plan (ls_tasks st)) (\<lambda>(run', checkpoint_id).
         bnd (run_report env run' plan (ls_tasks st) True) (\<lambda>report_id.
         ret (Leave (st\<lparr>ls_run := run', ls_checkpoint_id := Some checkpoint_id\<rparr>) (Some report_id))))))"
    using w1(2) by (auto intro!: again get_run_then dur.out_bnd[OF out_complete_run]
        dur.out_bnd[OF out_fail_stuck_run]
        dur.out_bnd[OF out_run_report] leave split: prod.split)
qed

lemma settle_failures_g:
  assumes "good w" and "seen_results (st, fs) w"
  shows "outcome durable seen_result w (settle_failures env run_id plan st fs)"
proof (cases "fs = []")
  case True
  then show ?thesis
    using assms by (simp add: settle_failures_def dur.out_ret seen_result_def seen_results_def)
next
  case False
  have fs: "seen_tasks (ls_tasks st) w" "\<forall>f \<in> set fs. seen_task (task_to_row (fl_task f)) w"
    using assms(2) by (simp_all add: seen_results_def)
  show ?thesis
    unfolding settle_failures_def if_not_P[OF False]
  proof (rule out_bnd_g[OF assms(1) handle_batch_failures_g[OF assms(1) fs]])
    fix x :: "RunRecord \<times> TaskRecord list \<times> string \<times> bool \<times> TaskRecord list" and w1
    assume w1: "good w1" "seen_tasks (fst (snd x)) w1"
    obtain run ts c leave retry where x: "x = (run, ts, c, leave, retry)" by (cases x) auto
    have sleep: "outcome durable (\<lambda>_ _. True) w (foldA (sleep_for env run_id) () retry)" for w
      by (rule dur.out_foldA) (simp_all add: out_sleep_for)
    have keep: "durable w1 w' \<longrightarrow> seen_tasks ts w'" for w' using w1 seen_tasks_mono x by auto
    show "outcome durable seen_result w1 (case x of (run, tasks, checkpoint_id, leave, retry_tasks) \<Rightarrow>
        let st' = st\<lparr>ls_run := run, ls_tasks := tasks, ls_checkpoint_id := Some checkpoint_id\<rparr> in
        bnd (foldA (sleep_for env run_id) () retry_tasks) (\<lambda>_.
        if leave then bnd (run_report env run plan tasks True) (\<lambda>report_id. ret (Leave st' (Some report_id)))
        else ret (Again st')))"
      unfolding x prod.case Let_def
    proof (rule outcome_from, rule dur.out_bnd[OF sleep])
      fix u w2
      show "outcome durable (\<lambda>x w'. durable w1 w' \<longrightarrow> seen_result x w') w2
        (if leave then bnd (run_report env run plan ts True) (\<lambda>report_id.
            ret (Leave (st\<lparr>ls_run := run, ls_tasks := ts, ls_checkpoint_id := Some c\<rparr>) (Some report_id)))
         else ret (Again (st\<lparr>ls_run := run, ls_tasks := ts, ls_checkpoint_id := Some c\<rparr>)))"
        using keep by (auto intro!: dur.out_ret dur.out_bnd[OF out_run_report] simp: seen_result_def)
    qed
  qed
qed


section \<open>The loop under the heartbeat\<close>

text \<open>What the orchestrator expects of a task worker: every exit keeps the promise.\<close>

definition durable_worker :: "agent_env \<Rightarrow> bool" where
  "durable_worker env \<longleftrightarrow> (\<forall>run t w. outcome durable (\<lambda>_ _. True) w (ae_worker env run t))"

definition adurable :: "world \<times> LeaseRecord \<Rightarrow> world \<times> LeaseRecord \<Rightarrow> bool" where
  "adurable s s' \<longleftrightarrow> durable (fst s) (fst s')"

interpretation ad: evolution adurable
  by unfold_locales (auto simp: adurable_def intro: durable_trans)

lemma out_io: "outcome durable Q w m \<Longrightarrow> outcome adurable (\<lambda>x s. Q x (fst s)) (w, l) (io m)"
  by (auto simp: outcome_def io_def adurable_def split: prod.splits)

lemma out_io_g: "outcome durable Q (fst s) m \<Longrightarrow> outcome adurable (\<lambda>x s. Q x (fst s)) s (io m)"
  using out_io[of Q "fst s" m "snd s"] by simp

lemma out_bnd_ag:
  assumes "good (fst s)" and "outcome adurable P s m"
    and "\<And>v s'. durable (fst s) (fst s') \<Longrightarrow> good (fst s') \<Longrightarrow> P v s' \<Longrightarrow> outcome adurable Q s' (f v)"
  shows "outcome adurable Q s (bnd m f)"
  using assms(2)
proof (rule ad.out_bnd)
  fix v s' assume "adurable s s'" "P v s'"
  then show "outcome adurable Q s' (f v)"
    using assms(3) durable_good[OF _ assms(1)] by (auto simp: adurable_def)
qed

lemma out_agent_true: "outcome durable (\<lambda>_ _. True) (fst s) m \<Longrightarrow> outcome adurable (\<lambda>_ _. True) s (io m)"
  by (erule out_io_g)

lemma out_execute_one:
  assumes "durable_worker env"
  shows "outcome durable (\<lambda>_ _. True) w (execute_one env run t)"
  unfolding execute_one_def
proof (rule dur.out_catch)
  show "outcome durable (\<lambda>_ _. True) w (bnd (ae_worker env run t) (\<lambda>result. ret (result, None)))"
    using assms by (intro dur.out_bnd[of "\<lambda>_ _. True"] dur.out_ret) (simp_all add: durable_worker_def)
qed (auto intro!: dur.out_raise dur.out_ret)

lemma out_renew: "outcome adurable (\<lambda>_ _. True) s (renew env)"
proof (rule outcomeI)
  fix x s' assume run: "renew env s = (x, s')"
  obtain w l where s: "s = (w, l)" by force
  obtain y w' where r: "renew_lease l (st_lease_ttl_seconds (ae_settings env)) w = (y, w')" by force
  have "durable w w'" using outcomeD[OF out_renew_lease r] .
  then show "adurable s s' \<and> (\<forall>v. x = Inr v \<longrightarrow> True)"
    using run r by (cases y) (auto simp: renew_def s adurable_def)
qed

lemma out_beat: "outcome adurable (\<lambda>_ _. True) s (beat env n failed)"
proof (induction env n failed arbitrary: s rule: beat.induct)
  case (3 env n)
  have "outcome adurable (\<lambda>_ _. True) s (bnd (renew env) (\<lambda>_. beat env n None))" for s
    by (rule ad.out_bnd[OF out_renew]) (rule 3)
  then show ?case
    unfolding beat.simps by (intro ad.out_catch) (auto intro: ad.out_raise ad.out_ret)
qed (simp_all add: ad.out_ret)

lemma out_heartbeat: "outcome adurable (\<lambda>_ _. True) s (heartbeat env failed)"
proof -
  obtain w l where s: "s = (w, l)" by force
  have "heartbeat env failed s = beat env (ae_beats env w) failed s" by (simp add: heartbeat_def s)
  then show ?thesis using out_beat[of s env "ae_beats env w" failed] by (simp add: outcome_def)
qed

lemma out_run_workers:
  assumes "durable_worker env"
  shows "outcome adurable (\<lambda>_ _. True) s (run_workers env run failed ts)"
proof (induction ts arbitrary: s failed)
  case Nil
  show ?case by (simp, intro ad.out_bnd[OF out_heartbeat] ad.out_ret) simp
next
  case (Cons t ts)
  show ?case
    by (simp, intro ad.out_bnd[OF out_heartbeat] ad.out_bnd[OF out_agent_true[OF out_execute_one[OF assms]]]
        ad.out_bnd[OF Cons.IH]) (auto intro: ad.out_ret)
qed

lemma out_execute_batch:
  assumes "durable_worker env"
  shows "outcome adurable (\<lambda>_ _. True) s (execute_batch env run ts)"
  unfolding execute_batch_def
proof (rule ad.out_bnd[OF out_run_workers[OF assms]])
  fix v :: "task_result list \<times> exn option" and s'
  show "outcome adurable (\<lambda>_ _. True) s' (case v of (results, failed) \<Rightarrow>
     (case failed of Some e \<Rightarrow> raise e | None \<Rightarrow> bnd (renew env) (\<lambda>_. ret results)))"
    by (cases v, cases "snd v") (auto intro!: ad.out_raise ad.out_bnd[OF out_renew] ad.out_ret)
qed

lemma run_batch_g:
  assumes "good (fst s)" and "seen_tasks (ls_tasks st) (fst s)" and "durable_worker env"
    and "\<And>c. c \<in> set batch \<Longrightarrow> c \<in> set (ls_tasks st)"
  shows "outcome adurable (\<lambda>r s'. seen_result r (fst s')) s (run_batch env run_id plan st batch)"
  unfolding run_batch_def
proof (rule out_bnd_ag[OF assms(1) out_io_g[OF start_batch_g[OF assms(1,2)]]])
  show "seen_task (task_to_row c) (fst s)" if "c \<in> set batch" for c
    using assms(2) assms(4)[OF that] by (simp add: seen_tasks_def)
next
  fix x :: "RunRecord \<times> TaskRecord list \<times> started list \<times> string option" and s1 :: "world \<times> LeaseRecord"
  assume s1: "good (fst s1)" "seen_acc (fst (snd x), fst (snd (snd x))) (fst s1)"
  obtain run ts ss before where x: "x = (run, ts, ss, before)" by (cases x) auto
  have seen: "seen_tasks ts (fst s1)" "seen_started ss (fst s1)" using s1(2) by (simp_all add: x seen_acc_def)
  let ?st = "st\<lparr>ls_run := run, ls_tasks := ts,
    ls_checkpoint_id := (case before of None \<Rightarrow> ls_checkpoint_id st | Some i \<Rightarrow> Some i)\<rparr>"
  have "outcome adurable (\<lambda>r s'. seen_result r (fst s')) s1
    (bnd (execute_batch env run (map (\<lambda>(_, t, _). t) ss)) (\<lambda>results.
       io (bnd (foldA (commit_result env run_id plan) (?st, []) (zip ss results)) (\<lambda>(st', failures).
           settle_failures env run_id plan st' failures))))"
  proof (rule out_bnd_ag[OF s1(1) out_execute_batch[OF assms(3)]], rule out_io_g, rule out_bnd_g, assumption)
    fix results and s2 :: "world \<times> LeaseRecord" assume s2: "durable (fst s1) (fst s2)" "good (fst s2)"
    show "outcome durable seen_results (fst s2) (foldA (commit_result env run_id plan) (?st, []) (zip ss results))"
    proof (rule foldA_g[OF s2(2)])
      show "seen_results (?st, []) (fst s2)"
        using seen_tasks_mono[OF seen(1) s2(1) s1(1)] by (simp add: seen_results_def)
    next
      fix acc sr w1
      assume sr: "sr \<in> set (zip ss results)" and w1: "durable (fst s2) w1" "good w1" "seen_results acc w1"
      obtain i t a r where sr': "sr = ((i, t, a), r)" by (cases sr) auto
      then have "(i, t, a) \<in> set ss" using sr by (auto dest: set_zip_leftD)
      then have "seen_task (task_to_row t) w1"
        using seen_started_mono[OF seen(2) durable_trans[OF s2(1) w1(1)] s1(1)] by (auto simp: seen_started_def)
      then show "outcome durable seen_results w1 (commit_result env run_id plan acc sr)"
        unfolding sr' using w1 by (intro commit_result_g) auto
    qed
  next
    fix v :: "loop_state \<times> failure list" and w2 assume "good w2" "seen_results v w2"
    then show "outcome durable seen_result w2
       (case v of (st', failures) \<Rightarrow> settle_failures env run_id plan st' failures)"
      by (cases v) (auto intro: settle_failures_g)
  qed
  then show "outcome adurable (\<lambda>r s'. seen_result r (fst s')) s1
    (case x of (run, tasks, started, before) \<Rightarrow>
       bnd (execute_batch env run (map (\<lambda>(_, t, _). t) started)) (\<lambda>results.
       io (bnd (foldA (commit_result env run_id plan)
             (st\<lparr>ls_run := run, ls_tasks := tasks,
                 ls_checkpoint_id := (case before of None \<Rightarrow> ls_checkpoint_id st | Some i \<Rightarrow> Some i)\<rparr>, [])
             (zip started results)) (\<lambda>(st', failures).
           settle_failures env run_id plan st' failures))))"
    by (simp add: x)
qed

lemma select_batch_sub:
  assumes "candidates \<noteq> []"
  shows "set (select_batch m candidates n k) \<subseteq> set candidates"
proof -
  have "set (parallel_prefix i cs) \<subseteq> set cs" for i cs
    by (induction i cs rule: parallel_prefix.induct) auto
  then show ?thesis using assms by (cases candidates) (auto simp: select_batch_def Let_def split: if_splits)
qed

lemma iteration_g:
  assumes "good (fst s)" and "seen_tasks (ls_tasks st) (fst s)" and "durable_worker env"
  shows "outcome adurable (\<lambda>r s'. seen_result r (fst s')) s (iteration env run_id maximum plan st)"
  unfolding iteration_def
proof (rule out_bnd_ag[OF assms(1) out_agent_true[OF outcome_true[OF out_pending_lifecycle_request]]])
  fix request and s1 :: "world \<times> LeaseRecord" assume s1: "durable (fst s) (fst s1)" "good (fst s1)"
  have seen1: "seen_tasks (ls_tasks st) (fst s1)" using seen_tasks_mono[OF assms(2) s1(1) assms(1)] .
  let ?batch = "\<lambda>tasks candidates. let st' = st\<lparr>ls_tasks := tasks\<rparr> in
     if candidates = [] then io (finish_run env run_id plan st')
     else run_batch env run_id plan st'
       (select_batch (st_maximum_concurrency (ae_settings env)) candidates (ls_executed st) maximum)"
  have go: "outcome adurable (\<lambda>r s'. seen_result r (fst s')) s1
    (bnd (io (promote_ready (ls_tasks st))) (\<lambda>tasks.
     bnd (io (lift_sum (ready_tasks tasks))) (?batch tasks)))"
  proof (rule out_bnd_ag[OF s1(2) out_io_g[OF promote_ready_g[OF s1(2) seen1]]])
    fix tasks and s2 :: "world \<times> LeaseRecord" assume s2: "good (fst s2)" "seen_tasks tasks (fst s2)"
    have lift: "outcome adurable (\<lambda>c s'. seen_tasks tasks (fst s') \<and> ready_tasks tasks = Inr c) s2
        (io (lift_sum (ready_tasks tasks)))"
      using out_io_g[OF dur.out_lift[of "ready_tasks tasks" "\<lambda>c w. seen_tasks tasks w \<and> ready_tasks tasks = Inr c" "fst s2"]]
        s2(2) by simp
    show "outcome adurable (\<lambda>r s'. seen_result r (fst s')) s2
        (bnd (io (lift_sum (ready_tasks tasks))) (?batch tasks))"
    proof (rule out_bnd_ag[OF s2(1) lift])
      fix candidates and s3 :: "world \<times> LeaseRecord"
      assume s3: "good (fst s3)" "seen_tasks tasks (fst s3) \<and> ready_tasks tasks = Inr candidates"
      then show "outcome adurable (\<lambda>r s'. seen_result r (fst s')) s3 (?batch tasks candidates)"
        using ready_tasks_sub select_batch_sub
        by (auto simp: Let_def intro!: out_io_g finish_run_g run_batch_g assms(3)) blast
    qed
  qed
  show "outcome adurable (\<lambda>r s'. seen_result r (fst s')) s1 (case request of
         Some q \<Rightarrow> io (obey_request env plan st q)
       | None \<Rightarrow>
           if (case maximum of None \<Rightarrow> False | Some m \<Rightarrow> m \<le> ls_executed st) then ret (Leave st None)
           else bnd (io (promote_ready (ls_tasks st))) (\<lambda>tasks.
                bnd (io (lift_sum (ready_tasks tasks))) (?batch tasks)))"
  proof (cases request)
    case None
    then show ?thesis using go by (auto intro: ad.out_ret simp: seen_result_def)
  next
    case (Some q)
    then show ?thesis using out_io_g[OF obey_request_g[OF s1(2) seen1]] by simp
  qed
qed

lemma advance_loop_g:
  assumes "good (fst s)" and "seen_tasks (ls_tasks st) (fst s)" and "durable_worker env"
  shows "outcome adurable (\<lambda>_ _. True) s (advance_loop env run_id maximum plan fuel st)"
  using assms(1,2)
proof (induction fuel arbitrary: st s)
  case 0
  show ?case by (simp add: ad.out_ret)
next
  case (Suc fuel)
  show ?case
    unfolding advance_loop.simps
  proof (rule out_bnd_ag[OF Suc.prems(1) iteration_g[OF Suc.prems assms(3)]])
    fix r :: step_result and s' :: "world \<times> LeaseRecord" assume s': "good (fst s')" "seen_result r (fst s')"
    then show "outcome adurable (\<lambda>_ _. True) s' (case r of
         Again st' \<Rightarrow> advance_loop env run_id maximum plan fuel st'
       | Leave st' report_id \<Rightarrow> ret (Some (st', report_id)))"
      using Suc.IH by (cases r) (auto simp: seen_result_def ad.out_ret)
  qed
qed

section \<open>The use case\<close>

lemma out_under_lease:
  assumes "outcome adurable (\<lambda>_ _. True) (w, lease) m"
  shows "outcome durable (\<lambda>_ _. True) w (under_lease m lease)"
proof (rule outcomeI)
  fix x w' assume run: "under_lease m lease w = (x, w')"
  obtain y w1 l where m: "m (w, lease) = (y, w1, l)" by (cases "m (w, lease)") auto
  obtain z w2 where r: "release_lease l w1 = (z, w2)" by force
  have "durable w w1" using outcomeD[OF assms m] by (simp add: adurable_def)
  moreover have "durable w1 w2" using outcomeD[OF out_release_lease r] .
  moreover have "w' = w2" using run m r by (cases z) (auto simp: under_lease_def)
  ultimately show "durable w w' \<and> (\<forall>v. x = Inr v \<longrightarrow> True)" using durable_trans by blast
qed

lemma initial_state_g:
  assumes "good w" and "seen_tasks tasks w"
  shows "outcome durable (\<lambda>st w'. seen_tasks (ls_tasks st) w') w (initial_state run_id run tasks)"
  unfolding initial_state_def
proof (rule outcome_from, rule dur.out_bnd[OF out_context_reads(1)])
  fix latest w1
  have items: "outcome durable (\<lambda>_ _. True) w1 (case latest of
         None \<Rightarrow> ret ([], None)
       | Some (snapshot, items, summary) \<Rightarrow>
           let selected = filter (\<lambda>i. ci_item_id i \<in> set (cx_item_ids snapshot)) items in
           (case summary of
              None \<Rightarrow> ret (selected, None)
            | Some u \<Rightarrow> bnd (append_summary_navigation selected u) (\<lambda>items'. ret (items', Some u))))"
    by (auto simp: Let_def intro!: dur.out_ret dur.out_bnd[OF out_append_summary_navigation]
        split: option.split prod.split)
  show "outcome durable (\<lambda>st w'. durable w w' \<longrightarrow> seen_tasks (ls_tasks st) w') w1
     (bnd (case latest of
         None \<Rightarrow> ret ([], None)
       | Some (snapshot, items, summary) \<Rightarrow>
           let selected = filter (\<lambda>i. ci_item_id i \<in> set (cx_item_ids snapshot)) items in
           (case summary of
              None \<Rightarrow> ret (selected, None)
            | Some u \<Rightarrow> bnd (append_summary_navigation selected u) (\<lambda>items'. ret (items', Some u)))) (\<lambda>(items, summary).
     ret \<lparr>ls_run = run, ls_tasks = tasks, ls_items = items, ls_summary = summary, ls_outcomes = [],
          ls_executed = 0, ls_checkpoint_id = None\<rparr>))"
    using seen_tasks_mono[OF assms(2) _ assms(1)]
    by (intro dur.out_bnd[OF items]) (auto intro!: dur.out_ret split: prod.split)
qed

lemma out_advance_owned:
  assumes "good w" and "durable_worker env"
  shows "outcome durable (\<lambda>_ _. True) w (advance_owned env fuel run_id maximum run lease)"
  unfolding advance_owned_def
proof (rule out_next[OF assms(1) out_get_plan], rule out_bnd_g, assumption, erule get_tasks_g,
    rule out_bnd_g, assumption, rule initial_state_g, assumption, assumption)
  fix plan tasks and st :: loop_state and w' assume "good w'" "seen_tasks (ls_tasks st) w'"
  then have "outcome adurable (\<lambda>_ _. True) (w', lease) (advance_loop env run_id maximum plan fuel st)"
    by (intro advance_loop_g assms(2)) simp_all
  then show "outcome durable (\<lambda>_ _. True) w'
      (bnd (under_lease (advance_loop env run_id maximum plan fuel st) lease) (\<lambda>r. ret (advance_result r)))"
    by (intro dur.out_bnd[OF out_under_lease] dur.out_ret) simp_all
qed

lemma out_advance:
  assumes "good w" and "durable_worker env"
  shows "outcome durable (\<lambda>_ _. True) w (advance env fuel run_id worker maximum)"
proof -
  have unchanged: "outcome durable (\<lambda>_ _. True) w (bnd (release_lease l) (\<lambda>_. unchanged_result i run))"
    for w l i run
    unfolding unchanged_result_def
    by (intro dur.out_bnd[OF out_release_lease] dur.out_bnd[OF outcome_true[OF out_get_tasks]] dur.out_ret) simp
  show ?thesis
    unfolding advance_def using assms
    by (auto intro!: dur.out_raise out_next[OF _ out_acquire_lease] get_run_then unchanged out_advance_owned
        out_next[OF _ outcome_true[OF out_pending_lifecycle_request]])
qed

end
