(* ===== verification/Results.thy ===== *)
theory Results
  imports Store_Lifecycle
begin

text \<open>
  What an operation returns, whatever the world does: \<open>returns Q w m\<close> says that the value of \<open>m\<close>,
  when it has one, satisfies \<open>Q\<close>. It is the outcome relation of \<open>Prelude\<close> with nothing asked of the
  states, so its rules are those of the locale.
\<close>

abbreviation returns :: "('a \<Rightarrow> 'w \<Rightarrow> bool) \<Rightarrow> 'w \<Rightarrow> ('w, 'e, 'a) act \<Rightarrow> bool" where
  "returns \<equiv> outcome (\<lambda>_ _. True)"

interpretation val: evolution "\<lambda>_ _. True"
  by unfold_locales simp_all

lemma val_any: "returns (\<lambda>_ _. True) w m"
  by (simp add: outcome_def split: prod.split)

lemma val_then: "(\<And>v w'. returns Q w' (f v)) \<Longrightarrow> returns Q w (bnd m f)"
  by (rule val.out_bnd[OF val_any])

lemma val_then_ret: "(\<And>v w'. Q (g v) w') \<Longrightarrow> returns Q w (bnd m (\<lambda>v. ret (g v)))"
  by (rule val_then, rule val.out_ret)

lemma val_tx: "(\<And>d x d'. f d = Inr (x, d') \<Longrightarrow> Q x) \<Longrightarrow> returns (\<lambda>x _. Q x) w (tx f)"
  by (rule outcomeI) (auto dest: tx_InrD)

lemma val_query: "(\<And>d x. f d = Inr x \<Longrightarrow> Q x) \<Longrightarrow> returns (\<lambda>x _. Q x) w (query f)"
  unfolding query_def by (rule val_tx) (auto split: sum.splits)

lemma val_both: "returns P w m \<Longrightarrow> returns Q w m \<Longrightarrow> returns (\<lambda>x w'. P x w' \<and> Q x w') w m"
  by (auto simp: outcome_def split: prod.splits)

lemma val_of_outcome: "outcome R Q w m \<Longrightarrow> returns Q w m"
  by (auto simp: outcome_def split: prod.splits)

lemma transition_task_InrD: "transition_task s s' = Inr s'' \<Longrightarrow> s'' = s'"
  by (auto simp: transition_task_def check_transition_def split: if_splits)

lemma transition_run_InrD: "transition_run s s' = Inr s'' \<Longrightarrow> s'' = s'"
  by (auto simp: transition_run_def check_transition_def split: if_splits)

lemma val_update_run: "returns (\<lambda>r' _. r' = r\<lparr>rr_version := v + 1\<rparr>) w (update_run r v)"
  unfolding update_run_def Let_def on_sqlalchemy_error_def
  by (rule val.out_catch) (auto intro!: val_tx val.out_raise split: if_splits)

lemma val_update_task:
  "returns (\<lambda>t' _. t' = t\<lparr>tr_version := v + 1\<rparr>) w (update_task t v)"
  "returns (\<lambda>t' _. t' = t\<lparr>tr_version := v + 1\<rparr>) w (update_task_and_finish_attempt t v i s e)"
  unfolding update_task_def update_task_and_finish_attempt_def
  by (auto intro!: val_then val_tx split: if_splits)

lemma val_mapA:
  assumes "\<And>x w. x \<in> set xs \<Longrightarrow> returns (\<lambda>y _. P x y) w (f x)"
  shows "returns (\<lambda>ys _. list_all2 P xs ys) w (mapA f xs)"
  using assms
proof (induction xs arbitrary: w)
  case Nil
  then show ?case by (simp add: val.out_ret)
next
  case (Cons x xs)
  have head: "returns (\<lambda>y _. P x y) w (f x)" using Cons.prems by simp
  have tail: "returns (\<lambda>ys _. list_all2 P xs ys) w (mapA f xs)" for w using Cons by simp
  show ?case
    unfolding mapA.simps
    by (rule val.out_bnd[OF head], rule val.out_bnd[OF tail], rule val.out_ret) simp
qed

lemma val_foldA:
  assumes "I s" and "\<And>s x w. x \<in> set xs \<Longrightarrow> I s \<Longrightarrow> returns (\<lambda>s' _. I s') w (f s x)"
  shows "returns (\<lambda>s' _. I s') w (foldA f s xs)"
  using assms by (intro val.out_foldA[where I = "\<lambda>s _. I s"])

end
