(* ===== verification/Calm_World.thy ===== *)
theory Calm_World
  imports Store_Events
begin

text \<open>
  Evaluating operations on a concrete quiet world: a stopped clock, numbered identifiers, no other
  process, no faults. \<open>calm k r i d\<close> is such a world after \<open>k\<close> transactions, \<open>r\<close> clock reads and
  \<open>i\<close> identifiers, with database \<open>d\<close>. The congruence rules keep the simplifier out of a
  continuation until the operation before it has run, so \<open>simp\<close> executes a program step by step.
\<close>

named_theorems calm_simps

definition calm :: "nat \<Rightarrow> nat \<Rightarrow> nat \<Rightarrow> database \<Rightarrow> world" where
  "calm k r i d = \<lparr>w_db = d, w_clock = (\<lambda>n. 0), w_reads = r, w_uuid = (\<lambda>n. replicate n (CHR ''x'')),
     w_ids = i, w_txn = k, w_rely = (\<lambda>n d. d), w_fault = (\<lambda>n. NoFault), w_crash = None, w_effects = []\<rparr>"

definition calm_id :: "string \<Rightarrow> nat \<Rightarrow> string" where
  "calm_id p i = p @ ''-'' @ replicate i (CHR ''x'')"

lemma quiet_calm [simp]: "quiet (calm k r i d)"
  by (simp add: quiet_def calm_def)

lemma calm_db [simp]: "w_db (calm k r i d) = d"
  by (simp add: calm_def)

lemma good_calm: "wf_db d \<Longrightarrow> good (calm k r i d)"
  by (simp add: good_quiet)

lemma calm_id_eq [simp]: "calm_id p i = calm_id p j \<longleftrightarrow> i = j"
  by (simp add: calm_id_def)

lemma calm_id_no_nul [simp]: "CHR 0x00 \<in> set (calm_id p i) \<longleftrightarrow> CHR 0x00 \<in> set p"
  by (auto simp: calm_id_def no_nul_def)

lemma calm_steps [calm_simps]:
  "tx f (calm k r i d) = (case f d of Inl e \<Rightarrow> (Inl e, calm (Suc k) r i d)
     | Inr x \<Rightarrow> (Inr (fst x), calm (Suc k) r i (snd x)))"
  "query g (calm k r i d) = (g d, calm (Suc k) r i d)"
  "clock_now (calm k r i d) = (Inr 0, calm k (Suc r) i d)"
  "ids_new p (calm k r i d) = (Inr (calm_id p i), calm k r (Suc i) d)"
  by (auto simp: clock_now_def ids_new_def calm_def calm_id_def tx_def query_def crashed_def split: sum.splits)

lemma calm_sequence [calm_simps]:
  "bnd m f w = (case m w of (x, w') \<Rightarrow> (case x of Inl e \<Rightarrow> (Inl e, w') | Inr v \<Rightarrow> f v w'))"
  "catch m h w = (case m w of (x, w') \<Rightarrow> (case x of Inl e \<Rightarrow> h e w' | Inr v \<Rightarrow> (Inr v, w')))"
  "ret v w = (Inr v, w)" "raise e w = (Inl e, w)" "lift_sum s w = (s, w)"
  by (auto simp: bnd_def catch_def ret_def raise_def lift_sum_def split: sum.splits prod.splits)

lemma calm_cong:
  "w = w' \<Longrightarrow> bnd m f w = bnd m f w'"
  "w = w' \<Longrightarrow> catch m h w = catch m h w'"
  "w = w' \<Longrightarrow> tx b w = tx b w'"
  "w = w' \<Longrightarrow> query q w = query q w'"
  by simp_all

text \<open>\<open>yields Q x\<close>: the run \<open>x\<close> ended with a value that satisfies \<open>Q\<close>.\<close>

definition yields :: "('a \<Rightarrow> bool) \<Rightarrow> (exn + 'a) \<times> 'w \<Rightarrow> bool" where
  "yields Q x \<longleftrightarrow> (case fst x of Inl e \<Rightarrow> False | Inr v \<Rightarrow> Q v)"

lemma yields_simps [calm_simps]: "yields Q (Inr v, w) = Q v" "yields Q (Inl e, w) = False"
  by (simp_all add: yields_def)

lemma yieldsD: "yields Q x \<Longrightarrow> \<exists>v w'. x = (Inr v, w') \<and> Q v"
  by (cases x) (auto simp: yields_def split: sum.splits)

text \<open>An event that was published here.\<close>

definition calm_event :: "nat \<Rightarrow> string \<Rightarrow> string \<Rightarrow> json \<Rightarrow> string option \<Rightarrow> database \<Rightarrow> EventORM" where
  "calm_event i r ty j k d = \<lparr>ev_event_id = calm_id ''event'' i, ev_run_id = r, ev_sequence = event_tip r d + 1,
     ev_event_type = ty, ev_task_id = k, ev_payload = j, ev_created_at = 0\<rparr>"

lemma calm_event_id [simp]: "ev_event_id (calm_event i r ty j k d) = calm_id ''event'' i"
  by (simp add: calm_event_def)

lemma publish_calm [calm_simps]:
  assumes "run_exists run_id d" and "calm_id ''event'' i \<notin> ev_event_id ` set (db_events d)"
  shows "publish run_id ty j task (calm k r i d) = (Inr (calm_id ''event'' i),
     calm (Suc k) (Suc r) (Suc i) (d\<lparr>db_events := db_events d @ [calm_event i run_id ty j task d]\<rparr>))"
proof -
  have "get_event (calm_id ''event'' i) d = None" using assms(2) by (auto simp: get_event_def table_simps image_iff)
  then show ?thesis
    using assms(1) by (simp add: publish_def calm_simps numeral_eq_Suc publish_body_def calm_event_def)
qed

end
