(* ===== verification/Examples.thy ===== *)
theory Examples
  imports Checkpoint_Recovery Calm_World Run_Report
begin

text \<open>
  Concrete inputs that the witnesses share: settings, a run whose worker died, and an agent whose
  workers return no outcome.
\<close>

text \<open>A run whose worker died on the first of three attempts, with one checkpoint.\<close>

definition resume_task :: TaskRecord where
  "resume_task = (new_TaskRecord ''r'' ''p'' (example_task ''a'' []))
     \<lparr>tr_state := T_RUNNING, tr_attempt_count := 1, tr_started_at := Some 0\<rparr>"

definition resume_codec :: codec where
  "resume_codec = wit_codec [wit_envelope ''first'' 1 None]"

definition resume_db :: database where
  "resume_db = lease_db\<lparr>
     db_plans := [\<lparr>po_plan_id = ''p'', po_run_id = ''r'', po_version = 1, po_payload = example_plan,
       po_created_at = 0\<rparr>],
     db_tasks := [task_to_row resume_task],
     db_checkpoints := [checkpoint_row resume_codec (wit_envelope ''first'' 1 None)]\<rparr>"

definition example_settings :: Settings where
  "example_settings = \<lparr>st_retry = \<lparr>rp_maximum_attempts = 3, rp_base_delay_seconds = 1,
       rp_maximum_delay_seconds = 2, rp_multiplier = 2, rp_jitter_ratio = 0\<rparr>,
     st_checkpoint_every_tasks = 1, st_maximum_concurrency = 1, st_lease_ttl_seconds = 30,
     st_lease_renewal_seconds = 10, st_repository_root = ''/'', st_repository_drift_policy = DRIFT_FAIL,
     st_checkpoint_retention_count = 5, st_event_retention_days = 1, st_artifact_retention_days = 1,
     st_fingerprint = ''f''\<rparr>"

lemma example_sel [calm_simps]:
  "st_lease_ttl_seconds example_settings = 30"
  "st_fingerprint example_settings = ''f''" "st_checkpoint_retention_count example_settings = 5"
  "db_leases resume_db = []" "db_events resume_db = []" "db_errors resume_db = []"
  "db_tool_calls resume_db = []" "db_task_attempts resume_db = []" "db_evidence resume_db = []"
  "db_contexts resume_db = []" "db_summaries resume_db = []" "db_artifacts resume_db = []"
  "db_runs resume_db = [\<lparr>rr_run_id = ''r'', rr_owner_id = ''o'', rr_objective = ''x'',
     rr_state = R_RUNNING, rr_active_plan_id = None, rr_active_task_id = None,
     rr_repository_root = None, rr_repository_snapshot_id = None,
     rr_configuration_fingerprint = ''f'', rr_version = 1, rr_created_at = 0, rr_updated_at = 0,
     rr_finished_at = None\<rparr>]"
  "db_tasks resume_db = [task_to_row resume_task]"
  "db_plans resume_db = [\<lparr>po_plan_id = ''p'', po_run_id = ''r'', po_version = 1, po_payload = example_plan,
     po_created_at = 0\<rparr>]"
  "db_checkpoints resume_db = [checkpoint_row resume_codec (wit_envelope ''first'' 1 None)]"
  by (simp_all add: example_settings_def resume_db_def lease_db_def empty_db_def)

lemma example_valid [calm_simps]:
  "valid_TaskSpec (example_task ''a'' [])" "ts_maximum_attempts (example_task ''a'' []) = 3"
  "ts_task_id (example_task ''a'' []) = ''a''" "valid_PlanSpec example_plan"
  "ps_plan_id example_plan = ''p''" "ps_version example_plan = 1"
  by code_simp+

lemma wit_sel [calm_simps]:
  "dump_envelope (wit_codec es) e = ce_checkpoint_id e"
  "parse_envelope (wit_codec es) s = find (\<lambda>e. ce_checkpoint_id e = s) es"
  "sha256_of (wit_codec es) s = replicate 64 (CHR ''0'')"
  "ce_payload (wit_envelope i n h) = wit_payload" "ce_schema_version (wit_envelope i n h) = 1"
  "ce_payload_hash (wit_envelope i n h) = replicate 64 (CHR ''0'')"
  "cp_configuration_fingerprint wit_payload = ''f''" "cp_repository_snapshot_id wit_payload = None"
  "calm_id ''checkpoint'' k \<noteq> ''first''"
  by (simp_all add: wit_codec_def wit_envelope_def wit_payload_eq calm_id_def)

lemma wf_resume_db: "wf_db resume_db"
proof -
  have "wf_db (wit_db (db_checkpoints resume_db))" by (rule wit_wf) (simp_all add: calm_simps)
  then show ?thesis
    by (simp add: wf_db_def resume_db_def wit_db_def lease_db_def empty_db_def task_to_row_def resume_task_def
        new_TaskRecord_def example_valid)
qed

definition example_agent :: agent_env where
  "example_agent = \<lparr>ae_settings = example_settings,
     ae_budget = \<lparr>bg_context_limit = 2048, bg_reserved_output = 1536, bg_system_instructions = 128,
       bg_user_request = 128, bg_compression_threshold = 1 / 2\<rparr>,
     ae_codec = resume_codec, ae_report = small_codec JNull, ae_sha256 = (\<lambda>s. s), ae_sha256_bytes = (\<lambda>s. s),
     ae_worker = (\<lambda>run task. ret None), ae_message = (\<lambda>e. ''failed''), ae_beats = (\<lambda>w. 0)\<rparr>"

end
