(* ===== verification/Recovery_Safety.thy ===== *)
theory Recovery_Safety
  imports Recovery Orchestrator_Safety Results Examples
begin

text \<open>
  What \<open>recovery/manager.py\<close> guarantees: resuming keeps the stored histories, a run it returns is
  RUNNING and none of its tasks is left to a dead worker, and the circuit breaker is the plain
  specification "open for the recovery time after the last of enough failures in a row".
\<close>

section \<open>Recovery keeps the promise\<close>

text \<open>What the manager expects of the indexer, the planner and the tools.\<close>

definition durable_recovery :: "recovery_env \<Rightarrow> bool" where
  "durable_recovery env \<longleftrightarrow> well_behaved (re_tools env) \<and>
     (\<forall>root previous w. outcome durable (\<lambda>_ _. True) w (re_index env root previous)) \<and>
     (\<forall>plan reason w. outcome durable (\<lambda>_ _. True) w (re_revise env plan reason))"

lemma enter_recovery_g:
  assumes "good w" and "seen_run run w"
  shows "outcome durable (\<lambda>r w'. seen_run r w') w (enter_recovery run)"
proof -
  have move: "outcome durable (\<lambda>r w'. seen_run r w') w
    (bnd (lift_sum (transition_run (rr_state run) R_RECOVERING)) (\<lambda>state.
     bnd clock_now (\<lambda>now. update_run (run\<lparr>rr_state := state, rr_updated_at := now\<rparr>) (rr_version run))))"
  proof (rule dur.out_bnd_lift, rule clock_then[OF assms(1)])
    fix state now w1
    assume to: "transition_run (rr_state run) R_RECOVERING = Inr state" and w1: "good w1" "w_db w1 = w_db w"
    have "run_successor run (run\<lparr>rr_state := state, rr_updated_at := now\<rparr>)"
      using transition_run_reaches[OF to] by (simp add: run_successor_def)
    then show "outcome durable (\<lambda>r w'. seen_run r w') w1
        (update_run (run\<lparr>rr_state := state, rr_updated_at := now\<rparr>) (rr_version run))"
      by (rule update_run_g[OF w1(1) seen_same_db(1)[OF assms(2) w1(2)]])
  qed
  then show ?thesis using assms by (auto simp: enter_recovery_def intro!: dur.out_raise dur.out_ret)
qed

lemma make_ready_g:
  "good w \<Longrightarrow> seen_task (task_to_row t) w \<Longrightarrow>
   outcome durable (\<lambda>t' w'. seen_task (task_to_row t') w') w (make_ready t)"
  unfolding make_ready_def by (intro dur.out_bnd_lift update_task_g) (blast intro: task_move_successor)+

lemma recover_abandoned_task_g:
  assumes "good w" and "seen_task (task_to_row t) w"
  shows "outcome durable (\<lambda>t' w'. seen_task (task_to_row t') w') w (recover_abandoned_task t)"
  unfolding recover_abandoned_task_def Let_def
proof (rule out_next[OF assms(1) out_record_error], rule out_next, assumption,
    rule out_finish_open_task_attempts, rule dur.out_bnd_lift, rule out_next, assumption)
  fix w' :: world
  show "outcome durable (\<lambda>_ _. True) w'
    (if tr_attempt_count t < ts_maximum_attempts (tr_spec t) then ret None
     else bnd clock_now (\<lambda>now. ret (Some now)))"
    by (auto intro!: dur.out_ret dur.out_bnd[OF out_clock])
next
  fix e w1 n w2 state finished w3
  assume w: "durable w w1" "durable w1 w2" "durable w2 w3" "good w3"
    and tr: "transition_task (tr_state t) (abandoned_target t) = Inr state"
  have "seen_task (task_to_row t) w3"
    using seen_task_mono[OF assms(2) durable_trans[OF w(1) durable_trans[OF w(2,3)]] assms(1)] .
  moreover have "task_successor t (t\<lparr>tr_state := state, tr_last_error_id := Some e, tr_finished_at := finished\<rparr>)"
    using transition_task_reaches[OF tr] by (simp add: task_successor_def)
  ultimately have step: "outcome durable (\<lambda>t' w'. seen_task (task_to_row t') w') w3
      (update_task (t\<lparr>tr_state := state, tr_last_error_id := Some e, tr_finished_at := finished\<rparr>) (tr_version t))"
    by (rule update_task_g(1)[OF w(4)])
  show "outcome durable (\<lambda>t' w'. seen_task (task_to_row t') w') w3
    (bnd (update_task (t\<lparr>tr_state := state, tr_last_error_id := Some e, tr_finished_at := finished\<rparr>)
            (tr_version t)) (\<lambda>task1.
     bnd (if tr_attempt_count t < ts_maximum_attempts (tr_spec t) then make_ready task1 else ret task1) (\<lambda>task.
     bnd (publish (tr_run_id task) ''recovery.abandoned_attempt''
        (JObj [(''error_id'', JStr e), (''attempt'', JInt (tr_attempt_count task)),
               (''retryable'', JBool (tr_attempt_count t < ts_maximum_attempts (tr_spec t)))])
        (Some (tr_task_id task))) (\<lambda>_. ret task))))"
  proof (rule out_bnd_g[OF w(4) step], rule out_bnd_g, assumption)
    fix task1 :: TaskRecord and w4 assume w4: "good w4" "seen_task (task_to_row task1) w4"
    then show "outcome durable (\<lambda>t' w'. seen_task (task_to_row t') w') w4
        (if tr_attempt_count t < ts_maximum_attempts (tr_spec t) then make_ready task1 else ret task1)"
      by (auto intro!: make_ready_g dur.out_ret)
  next
    fix task1 task :: TaskRecord and w4 w5 assume w5: "good w5" "seen_task (task_to_row task) w5"
    then have keep: "durable w5 w' \<longrightarrow> seen_task (task_to_row task) w'" for w' using seen_task_mono by blast
    show "outcome durable (\<lambda>t' w'. seen_task (task_to_row t') w') w5
      (bnd (publish (tr_run_id task) ''recovery.abandoned_attempt''
        (JObj [(''error_id'', JStr e), (''attempt'', JInt (tr_attempt_count task)),
               (''retryable'', JBool (tr_attempt_count t < ts_maximum_attempts (tr_spec t)))])
        (Some (tr_task_id task))) (\<lambda>_. ret task))"
      by (rule outcome_from, intro dur.out_bnd[OF out_publish] dur.out_ret) (rule keep)
  qed
qed

lemma recover_task_g:
  assumes "good w" and "seen_task (task_to_row t) w"
  shows "outcome durable (\<lambda>t' w'. seen_task (task_to_row t') w') w (recover_task t)"
  using assms by (auto simp: recover_task_def intro!: make_ready_g recover_abandoned_task_g dur.out_ret)

lemma validate_repository_g:
  assumes "good w" and "seen_run run w" and "durable_recovery env"
  shows "outcome durable (\<lambda>x w'. seen_run (fst x) w') w (validate_repository env run c)"
proof -
  have same: "outcome durable (\<lambda>x w'. seen_run (fst x) w') w' (ret (run, False))" if "durable w w'" for w'
    using seen_run_mono[OF assms(2) that assms(1)] by (simp add: dur.out_ret)
  have index: "outcome durable (\<lambda>_ _. True) w (re_index env root p)" for w root p
    using assms(3) by (simp add: durable_recovery_def)
  have move: "outcome durable (\<lambda>x w'. seen_run (fst x) w') w'
      (bnd (update_run (run\<lparr>rr_repository_snapshot_id := s, rr_updated_at := now\<rparr>) (rr_version run))
        (\<lambda>run'. ret (run', True)))" if "durable w w'" "good w'" for w' s now
    by (rule out_bnd_val[OF that(2) _ update_run_g[OF that(2) seen_run_mono[OF assms(2) that(1) assms(1)]]])
      (simp_all add: run_successor_def)
  have drift: "outcome durable (\<lambda>x w'. seen_run (fst x) w') w'
    (bnd (save_repository_index index) (\<lambda>_.
     bnd (invalidate_summaries_for_run i reason) (\<lambda>_.
     bnd clock_now (\<lambda>now.
     bnd (update_run (run\<lparr>rr_repository_snapshot_id := s, rr_updated_at := now\<rparr>) (rr_version run)) (\<lambda>run'.
     ret (run', True))))))" if "durable w w'" "good w'" for w' index i reason s
  proof (rule out_next[OF that(2) out_save_repository_index], rule out_next, assumption,
      rule out_invalidate_summaries_for_run, rule out_next, assumption, rule out_clock)
    fix now w1 w2 w3 assume "durable w' w1" "durable w1 w2" "durable w2 w3" "good w3"
    then show "outcome durable (\<lambda>x w'. seen_run (fst x) w') w3
      (bnd (update_run (run\<lparr>rr_repository_snapshot_id := s, rr_updated_at := now\<rparr>) (rr_version run))
        (\<lambda>run'. ret (run', True)))"
      using durable_trans that(1) by (intro move) blast+
  qed
  show ?thesis
    unfolding validate_repository_def
    using assms(1)
    by (auto intro!: same out_next[OF _ out_context_reads(4)] out_next[OF _ index] out_next[OF _ out_publish]
        dur.out_raise drift split: option.split) (blast intro: durable_trans)+
qed

lemma revise_plan_after_drift_g:
  assumes "good w" and "seen_run run w" and "durable_recovery env"
  shows "outcome durable (\<lambda>r w'. seen_run r w') w (revise_plan_after_drift env run)"
proof -
  have revise: "outcome durable (\<lambda>_ _. True) w (re_revise env p r)" for w p r
    using assms(3) by (simp add: durable_recovery_def)
  have tail: "outcome durable (\<lambda>r w'. seen_run r w') w'
    (bnd (update_run (run\<lparr>rr_active_plan_id := a, rr_updated_at := now\<rparr>) (rr_version run)) (\<lambda>run'.
     bnd (publish (rr_run_id run') ty p k) (\<lambda>_. ret run')))" if "durable w w'" "good w'" for w' a now ty p k
  proof (rule out_bnd_g[OF that(2) update_run_g[OF that(2) seen_run_mono[OF assms(2) that(1) assms(1)]]])
    fix run' w2 assume w2: "good w2" "seen_run run' w2"
    then have keep: "durable w2 w' \<longrightarrow> seen_run run' w'" for w' using seen_run_mono by blast
    show "outcome durable (\<lambda>r w'. seen_run r w') w2 (bnd (publish (rr_run_id run') ty p k) (\<lambda>_. ret run'))"
      by (rule outcome_from, intro dur.out_bnd[OF out_publish] dur.out_ret) (rule keep)
  qed (simp add: run_successor_def)
  show ?thesis
    unfolding revise_plan_after_drift_def
  proof (rule out_next[OF assms(1) out_get_plan], rule out_next, assumption, rule outcome_true[OF out_get_tasks],
      rule out_next, assumption, rule revise, rule out_next, assumption, rule out_save_plan, rule dur.out_bnd_lift, rule out_next, assumption,
      rule out_save_tasks, rule out_next, assumption, rule out_clock, rule tail)
    fix w1 w2 w3 w4 w5 w6
    assume "durable w w1" "durable w1 w2" "durable w2 w3" "durable w3 w4" "durable w4 w5" "durable w5 w6"
    then show "durable w w6" using durable_trans by blast
  qed
qed

text \<open>What a finished recovery has stored.\<close>

definition seen_recovery :: "RecoveryResult \<Rightarrow> world \<Rightarrow> bool" where
  "seen_recovery rv w \<longleftrightarrow> seen_run (rv_run rv) w \<and> seen_tasks (rv_tasks rv) w"

lemma finish_recovery_g:
  assumes "good w" and "seen_run run w" and "seen_tasks tasks w"
  shows "outcome durable seen_recovery w (finish_recovery env run_id lease run tasks c drifted rs)"
  unfolding finish_recovery_def
proof (rule outcome_from, rule dur.out_bnd_lift, rule clock_then[OF assms(1)], rule update_run_then, assumption)
  fix state now and w1 :: world assume "w_db w1 = w_db w"
  then show "seen_run run w1" using assms(2) seen_same_db by blast
next
  fix state now w1 assume "transition_run (rr_state run) R_RUNNING = Inr state"
  then show "run_successor run (run\<lparr>rr_state := state, rr_active_task_id := None, rr_updated_at := now\<rparr>)"
    by (intro run_move_successor) (rule transition_run_reaches)
next
  fix state now w1 run' w2 assume w2: "good w2" "seen_run run' w2"
  have keep: "durable w2 w' \<longrightarrow> durable w w' \<longrightarrow> seen_run run' w' \<and> seen_tasks tasks w'" for w'
    using seen_run_mono[OF w2(2) _ w2(1)] seen_tasks_mono[OF assms(3) _ assms(1)] by blast
  show "outcome durable (\<lambda>rv w'. durable w w' \<longrightarrow> seen_recovery rv w') w2
    (bnd (get_plan run_id None) (\<lambda>plan.
     bnd (write_checkpoint (re_codec env) (st_checkpoint_retention_count (re_settings env)) run' plan tasks
            no_refs) (\<lambda>post.
     bnd (publish run_id ''recovery.completed''
       (JObj [(''checkpoint_id'', JStr (ce_checkpoint_id c)),
              (''repository_drifted'', JBool drifted),
              (''reconciled_tool_results'', jstrs (map tl_tool_result_id rs)),
              (''fencing_token'', JInt (le_fencing_token lease)),
              (''post_recovery_checkpoint_id'', JStr (ce_checkpoint_id post))]) None) (\<lambda>_.
     ret \<lparr>rv_run = run', rv_tasks = tasks, rv_checkpoint = c, rv_lease = lease,
          rv_repository_drifted = drifted,
          rv_reconciled_tool_result_ids = map tl_tool_result_id rs\<rparr>))))"
    by (rule outcome_from, intro dur.out_bnd[OF out_get_plan] dur.out_bnd[OF out_write_checkpoint]
        dur.out_bnd[OF out_publish] dur.out_ret) (simp add: seen_recovery_def keep)
qed

lemma resume_body_g:
  assumes "good w" and "durable_recovery env"
  shows "outcome durable seen_recovery w (resume_body env run_id lease)"
  unfolding resume_body_def
proof (rule get_run_then[OF assms(1)], rule out_bnd_g, assumption, rule enter_recovery_g, assumption, assumption)
  fix run0 w1 run1 w2
  assume w2: "good w2" "seen_run run1 w2"
  have reconcile: "outcome durable (\<lambda>_ _. True) w (reconcile_uncertain (re_tools env) run_id)" for w
    using assms(2) by (intro out_reconcile_uncertain) (simp add: durable_recovery_def)
  have check: "outcome durable (\<lambda>_ _. True) w (check_configuration env run_id c)" for w c
    by (auto simp: check_configuration_def intro!: dur.out_bnd[OF out_publish] dur.out_raise dur.out_ret)
  have rest: "outcome durable seen_recovery w3
    (bnd (if drifted \<and> st_repository_drift_policy (re_settings env) = DRIFT_REPLAN
          then revise_plan_after_drift env run2 else ret run2) (\<lambda>run3.
     bnd (reconcile_uncertain (re_tools env) run_id) (\<lambda>reconciled.
     bnd (get_tasks run_id None) (\<lambda>tasks0.
     bnd (mapA recover_task tasks0) (\<lambda>tasks.
     finish_recovery env run_id lease run3 tasks c drifted reconciled)))))"
    if w3: "good w3" "seen_run run2 w3" for w3 run2 c drifted
  proof (rule out_bnd_g[OF w3(1)])
    show "outcome durable (\<lambda>r w'. seen_run r w') w3
       (if drifted \<and> st_repository_drift_policy (re_settings env) = DRIFT_REPLAN
        then revise_plan_after_drift env run2 else ret run2)"
      using w3 assms(2) by (auto intro!: revise_plan_after_drift_g dur.out_ret)
  next
    fix run3 w4 assume w4: "good w4" "seen_run run3 w4"
    show "outcome durable seen_recovery w4
      (bnd (reconcile_uncertain (re_tools env) run_id) (\<lambda>reconciled.
       bnd (get_tasks run_id None) (\<lambda>tasks0.
       bnd (mapA recover_task tasks0) (\<lambda>tasks.
       finish_recovery env run_id lease run3 tasks c drifted reconciled))))"
    proof (rule out_next[OF w4(1) reconcile], rule out_bnd_g, assumption, erule get_tasks_g)
      fix rs w5 tasks w6
      assume w56: "durable w4 w5" "durable w5 w6" "good w6" "seen_tasks tasks w6"
      have map: "outcome durable (\<lambda>ts' w'. seen_tasks ts' w') w6 (mapA recover_task tasks)"
        by (rule mapA_tasks[OF w56(3,4)]) (rule recover_task_g)
      show "outcome durable seen_recovery w6 (bnd (mapA recover_task tasks) (\<lambda>tasks.
         finish_recovery env run_id lease run3 tasks c drifted rs))"
      proof (rule out_bnd_g[OF w56(3) map], rule finish_recovery_g, assumption)
        fix w7 assume "durable w6 w7"
        then show "seen_run run3 w7"
          using seen_run_mono[OF w4(2) _ w4(1)] w56(1,2) durable_trans by blast
      qed
    qed
  qed
  show "outcome durable seen_recovery w2
    (bnd (recover_latest (re_codec env) run_id) (\<lambda>checkpoint.
     bnd (check_configuration env run_id checkpoint) (\<lambda>_.
     bnd (validate_repository env run1 checkpoint) (\<lambda>(run2, drifted).
     bnd (if drifted \<and> st_repository_drift_policy (re_settings env) = DRIFT_REPLAN
          then revise_plan_after_drift env run2 else ret run2) (\<lambda>run3.
     bnd (reconcile_uncertain (re_tools env) run_id) (\<lambda>reconciled.
     bnd (get_tasks run_id None) (\<lambda>tasks0.
     bnd (mapA recover_task tasks0) (\<lambda>tasks.
     finish_recovery env run_id lease run3 tasks checkpoint drifted reconciled))))))))"
  proof (rule out_next[OF w2(1) out_recover_latest], rule out_next, assumption, rule check, rule out_bnd_g, assumption,
      rule validate_repository_g, assumption)
    fix w3 w4 assume "durable w2 w3" "durable w3 w4"
    then show "seen_run run1 w4" using seen_run_mono[OF w2(2) _ w2(1)] durable_trans by blast
  next
    fix c w3 u w4 and x :: "RunRecord \<times> bool" and w5
    assume "good w5" "seen_run (fst x) w5"
    then show "outcome durable seen_recovery w5 (case x of (run2, drifted) \<Rightarrow>
      bnd (if drifted \<and> st_repository_drift_policy (re_settings env) = DRIFT_REPLAN
          then revise_plan_after_drift env run2 else ret run2) (\<lambda>run3.
      bnd (reconcile_uncertain (re_tools env) run_id) (\<lambda>reconciled.
      bnd (get_tasks run_id None) (\<lambda>tasks0.
      bnd (mapA recover_task tasks0) (\<lambda>tasks.
      finish_recovery env run_id lease run3 tasks c drifted reconciled)))))"
      using rest[of w5 "fst x" "snd x" c] by (simp add: case_prod_beta)
  qed (rule assms(2))
qed

lemma resume_g:
  assumes "good w" and "durable_recovery env"
  shows "outcome durable seen_recovery w (resume env run_id worker)"
  unfolding resume_def
proof (rule out_next[OF assms(1) out_acquire_lease], rule dur.out_catch)
  fix lease w1 assume "good w1"
  then show "outcome durable seen_recovery w1 (resume_body env run_id lease)"
    using assms(2) by (rule resume_body_g)
qed (auto intro!: dur.out_bnd[OF out_release_lease] dur.out_raise)

section \<open>What a recovery returns\<close>

text \<open>Where recovery leaves a task: parked tasks and interrupted ones with attempts left are ready.\<close>

definition recovered_state :: "TaskRecord \<Rightarrow> TaskState" where
  "recovered_state t =
     (if tr_state t \<in> {T_PAUSED, T_WAITING} then T_READY
      else if tr_state t = T_RUNNING then
        (if tr_attempt_count t < ts_maximum_attempts (tr_spec t) then T_READY else T_FAILED_TERMINAL)
      else tr_state t)"

definition same_task :: "TaskRecord \<Rightarrow> TaskRecord \<Rightarrow> bool" where
  "same_task t t' \<longleftrightarrow> tr_run_id t' = tr_run_id t \<and> tr_plan_id t' = tr_plan_id t \<and> tr_spec t' = tr_spec t \<and>
     tr_attempt_count t' = tr_attempt_count t"

lemma val_make_ready:
  "returns (\<lambda>t' _. same_task t t' \<and> tr_state t' = T_READY) w (make_ready t)"
  unfolding make_ready_def
  by (rule val.out_bnd_lift, rule outcome_weaken[OF val_update_task(1)])
    (auto simp: same_task_def dest: transition_task_InrD)

lemma val_recover_abandoned_task:
  assumes "tr_state t = T_RUNNING"
  shows "returns (\<lambda>t' _. same_task t t' \<and> tr_state t' = recovered_state t) w (recover_abandoned_task t)"
  unfolding recover_abandoned_task_def Let_def
proof (rule val_then, rule val_then, rule val.out_bnd_lift, rule val_then, rule val.out_bnd[OF val_update_task(1)])
  fix e n state f t1 and w' :: world
  let ?left = "tr_attempt_count t < ts_maximum_attempts (tr_spec t)"
  assume tr: "transition_task (tr_state t) (abandoned_target t) = Inr state"
    and t1: "t1 = t\<lparr>tr_state := state, tr_last_error_id := Some e, tr_finished_at := f\<rparr>
      \<lparr>tr_version := tr_version t + 1\<rparr>"
  have state: "state = abandoned_target t" using tr by (rule transition_task_InrD)
  have step: "returns (\<lambda>t' _. same_task t t' \<and> tr_state t' = recovered_state t) w'
      (if ?left then make_ready t1 else ret t1)"
  proof (cases ?left)
    case True
    then show ?thesis
      using assms outcome_weaken[OF val_make_ready[of t1 w']]
      by (auto simp: same_task_def t1 recovered_state_def)
  next
    case False
    then show ?thesis
      using assms state by (auto intro!: val.out_ret simp: same_task_def t1 recovered_state_def abandoned_target_def)
  qed
  show "returns (\<lambda>t' _. same_task t t' \<and> tr_state t' = recovered_state t) w'
     (bnd (if ?left then make_ready t1 else ret t1) (\<lambda>task.
      bnd (publish (tr_run_id task) ''recovery.abandoned_attempt''
        (JObj [(''error_id'', JStr e), (''attempt'', JInt (tr_attempt_count task)),
               (''retryable'', JBool ?left)]) (Some (tr_task_id task))) (\<lambda>_. ret task)))"
    by (rule val.out_bnd[OF step], rule val_then, rule val.out_ret) simp
qed

lemma val_recover_task:
  "returns (\<lambda>t' _. same_task t t' \<and> tr_state t' = recovered_state t) w (recover_task t)"
proof -
  consider "tr_state t \<in> {T_PAUSED, T_WAITING}" | "tr_state t = T_RUNNING"
    | "tr_state t \<notin> {T_PAUSED, T_WAITING, T_RUNNING}" by blast
  then show ?thesis
  proof cases
    case 1
    then show ?thesis
      using outcome_weaken[OF val_make_ready[of t w]] by (auto simp: recover_task_def recovered_state_def)
  next
    case 2
    then show ?thesis using val_recover_abandoned_task by (simp add: recover_task_def)
  next
    case 3
    then show ?thesis
      by (auto intro!: val.out_ret simp: recover_task_def recovered_state_def same_task_def)
  qed
qed

definition recovered :: "recovery_env \<Rightarrow> RecoveryResult \<Rightarrow> bool" where
  "recovered env rv \<longleftrightarrow> rr_state (rv_run rv) = R_RUNNING \<and> rr_active_task_id (rv_run rv) = None \<and>
     cp_configuration_fingerprint (ce_payload (rv_checkpoint rv)) = st_fingerprint (re_settings env) \<and>
     (\<exists>ts. list_all2 (\<lambda>t t'. same_task t t' \<and> tr_state t' = recovered_state t) ts (rv_tasks rv))"

lemma val_finish_recovery:
  assumes "cp_configuration_fingerprint (ce_payload c) = st_fingerprint (re_settings env)"
    and "list_all2 (\<lambda>t t'. same_task t t' \<and> tr_state t' = recovered_state t) ts tasks"
  shows "returns (\<lambda>rv _. recovered env rv) w (finish_recovery env run_id lease run tasks c drifted rs)"
  unfolding finish_recovery_def
proof (rule val.out_bnd_lift, rule val_then, rule val.out_bnd[OF val_update_run], rule val_then, rule val_then,
    rule val_then_ret)
  fix state now run' p e u and w' :: world
  assume "transition_run (rr_state run) R_RUNNING = Inr state"
    and "run' = run\<lparr>rr_state := state, rr_active_task_id := None, rr_updated_at := now\<rparr>
      \<lparr>rr_version := rr_version run + 1\<rparr>"
  then show "recovered env \<lparr>rv_run = run', rv_tasks = tasks, rv_checkpoint = c, rv_lease = lease,
      rv_repository_drifted = drifted, rv_reconciled_tool_result_ids = map tl_tool_result_id rs\<rparr>"
    using assms by (auto simp: recovered_def dest: transition_run_InrD)
qed

lemma val_resume: "returns (\<lambda>rv _. recovered env rv) w (resume env run_id worker)"
proof -
  have check: "returns (\<lambda>_ _. cp_configuration_fingerprint (ce_payload c) = st_fingerprint (re_settings env)) w
      (check_configuration env run_id c)" for w c
    by (auto simp: check_configuration_def intro!: val_then val.out_raise val.out_ret)
  have body: "returns (\<lambda>rv _. recovered env rv) w (resume_body env run_id lease)" for w lease
    unfolding resume_body_def
  proof (rule val_then, rule val_then, rule val_then, rule val.out_bnd[OF check], rule val_then)
    fix run0 run1 and c :: CheckpointEnvelope and u and x :: "RunRecord \<times> bool" and w'
    assume fp: "cp_configuration_fingerprint (ce_payload c) = st_fingerprint (re_settings env)"
    have "returns (\<lambda>rv _. recovered env rv) w'
      (bnd (if b \<and> st_repository_drift_policy (re_settings env) = DRIFT_REPLAN
          then revise_plan_after_drift env r else ret r) (\<lambda>run3.
       bnd (reconcile_uncertain (re_tools env) run_id) (\<lambda>reconciled.
       bnd (get_tasks run_id None) (\<lambda>tasks0.
       bnd (mapA recover_task tasks0) (\<lambda>tasks.
       finish_recovery env run_id lease run3 tasks c b reconciled)))))" for r b
      by (rule val_then, rule val_then, rule val_then, rule val.out_bnd[OF val_mapA],
          rule val_recover_task, rule val_finish_recovery[OF fp])
    then show "returns (\<lambda>rv _. recovered env rv) w' (case x of (run2, drifted) \<Rightarrow>
      bnd (if drifted \<and> st_repository_drift_policy (re_settings env) = DRIFT_REPLAN
          then revise_plan_after_drift env run2 else ret run2) (\<lambda>run3.
      bnd (reconcile_uncertain (re_tools env) run_id) (\<lambda>reconciled.
      bnd (get_tasks run_id None) (\<lambda>tasks0.
      bnd (mapA recover_task tasks0) (\<lambda>tasks.
      finish_recovery env run_id lease run3 tasks c drifted reconciled)))))"
      by (simp add: case_prod_beta)
  qed
  show ?thesis
    unfolding resume_def by (rule val_then, rule val.out_catch[OF body], rule val_then, rule val.out_raise)
qed


definition resume_env :: recovery_env where
  "resume_env = \<lparr>re_settings = example_settings, re_codec = resume_codec,
     re_index = (\<lambda>path previous. raise ValueError), re_revise = (\<lambda>plan reason. ret plan), re_tools = []\<rparr>"

lemma resume_env_sel [calm_simps]:
  "re_settings resume_env = example_settings" "re_codec resume_env = resume_codec" "re_tools resume_env = []"
  by (simp_all add: resume_env_def)

lemmas run_resume = resume_def[THEN fun_cong] acquire_lease_def[THEN fun_cong]
  on_integrity_error_def[THEN fun_cong] resume_body_def[THEN fun_cong] get_run_def[THEN fun_cong]
  enter_recovery_def[THEN fun_cong] update_run_def[THEN fun_cong] on_sqlalchemy_error_def[THEN fun_cong]
  recover_latest_def[THEN fun_cong] list_checkpoint_json_def[THEN fun_cong]
  check_configuration_def[THEN fun_cong] validate_repository_def[THEN fun_cong]
  reconcile_uncertain_def[THEN fun_cong] uncertain_calls_def[THEN fun_cong] get_tasks_def[THEN fun_cong]
  recover_task_def[THEN fun_cong] recover_abandoned_task_def[THEN fun_cong] record_error_def[THEN fun_cong]
  finish_open_task_attempts_def[THEN fun_cong] update_task_def[THEN fun_cong] make_ready_def[THEN fun_cong]
  finish_recovery_def[THEN fun_cong] get_plan_def[THEN fun_cong] write_checkpoint_def[THEN fun_cong]
  gather_refs_def[THEN fun_cong] list_context_references_def[THEN fun_cong]
  list_tool_calls_def[THEN fun_cong] list_artifact_ids_def[THEN fun_cong] get_evidence_def[THEN fun_cong]
  latest_error_def[THEN fun_cong] checkpoint_parent_def[THEN fun_cong]
  checkpoint_tip_sequence_def[THEN fun_cong] append_checkpoint_def[THEN fun_cong]
  prune_checkpoints_def[THEN fun_cong] on_db_error_def[THEN fun_cong]

lemmas run_rows = acquire_body_def get_lease_def checked_def valid_LeaseRecord_def no_nul_def
  no_nul_opt_def len_between_def run_exists_def Let_def get_run_row_def run_from_row_def
  valid_RunRecord_def tbl_get_Cons transition_run_def check_transition_def transition_task_def run_at_def
  resume_task_def new_TaskRecord_def task_to_row_def abandoned_target_def set_task_values_def task_at_def
  requested_plan_def order_by_desc_def task_from_row_def valid_TaskRecord_def attempts_within_bound_def

lemmas run_checkpoints = checkpoints_desc_def checkpoint_row_def wit_zeros wit_verify wit_verifies
  chain_is_valid.simps verify_envelope_def resume_codec_def checkpoint_payload_def py_dict_def
  map_filter_simps append_body_def prune_body_def create_envelope_def payload_digest_def
  valid_CheckpointEnvelope_def identifiers_agree_def valid_CheckpointPayload_def
  task_sets_are_consistent_def CURRENT_CHECKPOINT_SCHEMA_VERSION_def from_untrusted_json_def
  chain_hash_def tip_def col_max_def no_refs_def merge_ids_def calls_by_id_def valid_ErrorCheckpoint_def

lemma resume_runs:
  "yields (\<lambda>rv. map tr_state (rv_tasks rv) = [T_READY])
     (resume resume_env ''r'' ''worker'' (calm 0 0 0 resume_db))"
  by (simp add: run_resume run_rows run_checkpoints calm_simps cong: calm_cong)


section \<open>The circuit breaker\<close>

datatype breaker_event = Succeeded | FailedAt time

fun breaker_step :: "CircuitBreaker \<Rightarrow> breaker_event \<Rightarrow> CircuitBreaker" where
  "breaker_step b Succeeded = breaker_success b"
| "breaker_step b (FailedAt t) = breaker_failure t b"

text \<open>The times of the failures in a row that end a history, newest first.\<close>

definition recent_failures :: "breaker_event list \<Rightarrow> time list" where
  "recent_failures es = List.map_filter (\<lambda>e. case e of FailedAt t \<Rightarrow> Some t | Succeeded \<Rightarrow> None)
     (takeWhile (\<lambda>e. e \<noteq> Succeeded) (rev es))"

text \<open>The specification: enough failures in a row, and the newest one not long enough ago.\<close>

definition blocked_at :: "int \<Rightarrow> int \<Rightarrow> breaker_event list \<Rightarrow> time \<Rightarrow> bool" where
  "blocked_at threshold recovery es now \<longleftrightarrow>
     threshold \<le> int (length (recent_failures es)) \<and> now < hd (recent_failures es) + seconds recovery"

lemma recent_failures_snoc:
  "recent_failures (es @ [Succeeded]) = []"
  "recent_failures (es @ [FailedAt t]) = t # recent_failures es"
  by (simp_all add: recent_failures_def map_filter_simps)

lemma breaker_state:
  assumes "new_breaker n r = Inr b"
  shows "foldl breaker_step b es = \<lparr>cb_threshold = n, cb_recovery = seconds r,
    cb_failures = int (length (recent_failures es)),
    cb_opened_at = (if n \<le> int (length (recent_failures es)) then Some (hd (recent_failures es)) else None)\<rparr>"
proof (induction es rule: rev_induct)
  case Nil
  then show ?case
    using assms by (auto simp: new_breaker_def recent_failures_def map_filter_simps split: if_splits)
next
  case (snoc e es)
  then show ?case
    using assms by (cases e) (auto simp: recent_failures_snoc breaker_success_def breaker_failure_def Let_def
        new_breaker_def split: if_splits)
qed

text \<open>
  The circuit breaker is the plain specification: whatever calls succeeded and failed, it
  refuses a call exactly when the calls since the last success all failed, at least
  \<open>failure_threshold\<close> of them, the newest less than \<open>recovery_seconds\<close> ago. Afterwards one
  more failure makes it refuse again at once, and one success makes it accept.
\<close>

lemma circuit_breaker_spec:
  assumes "new_breaker n r = Inr b"
  shows "is_open now (foldl breaker_step b es) = blocked_at n r es now \<and>
    before_call now (foldl breaker_step b es) =
      (if blocked_at n r es now then Inl (Durable ProviderRetryableError) else Inr ())"
  by (auto simp: breaker_state[OF assms] is_open_def before_call_def allow_def blocked_at_def)

lemma circuit_breaker_spec_witness:
  "\<exists>b. new_breaker 2 30 = Inr b \<and>
     before_call 31000000 (foldl breaker_step b [FailedAt 1000000, FailedAt 2000000])
       = Inl (Durable ProviderRetryableError) \<and>
     before_call 32000000 (foldl breaker_step b [FailedAt 1000000, FailedAt 2000000]) = Inr ()"
proof -
  obtain b where b: "new_breaker 2 30 = Inr b" by (simp add: new_breaker_def)
  show ?thesis
    using b circuit_breaker_spec[OF b, of _ "[FailedAt 1000000, FailedAt 2000000]"]
    by (simp add: blocked_at_def recent_failures_def map_filter_simps seconds_def)
qed

end
