(* ===== verification/Orchestrator_Progress.thy ===== *)
theory Orchestrator_Progress
  imports Orchestrator_Safety Results Examples
begin

text \<open>
  The advance loop ends. \<open>attempts_left\<close> counts, over the tasks the loop holds, the attempts each
  still has; whatever the workers return, an iteration that goes round again has used up at least
  one. The claims about values hold in every world (\<open>returns\<close>); only the \<open>continue\<close> after a second
  look at the lifecycle requests needs a world in which nobody else files one in between.
\<close>

section \<open>Attempts left\<close>

definition budget :: "TaskRecord \<Rightarrow> nat" where
  "budget t = (if settled (tr_state t) then 0
     else Suc (nat (ts_maximum_attempts (tr_spec t) - tr_attempt_count t)))"

definition attempts_left :: "TaskRecord list \<Rightarrow> nat" where
  "attempts_left ts = sum_list (map budget ts)"

text \<open>The same tasks with no more attempts left, and strictly fewer at the places \<open>J\<close>.\<close>

definition shrinks :: "TaskRecord list \<Rightarrow> nat set \<Rightarrow> TaskRecord list \<Rightarrow> bool" where
  "shrinks ts0 J ts \<longleftrightarrow> length ts = length ts0 \<and>
     (\<forall>i < length ts0. tr_spec (ts ! i) = tr_spec (ts0 ! i) \<and> budget (ts ! i) \<le> budget (ts0 ! i)) \<and>
     (\<forall>i \<in> J. i < length ts0 \<and> budget (ts ! i) < budget (ts0 ! i))"

lemma shrinks_refl [simp]: "shrinks ts {} ts"
  by (simp add: shrinks_def)

lemma shrinks_put:
  assumes "shrinks ts0 J ts" and "i < length ts0" and "tr_spec t = tr_spec (ts0 ! i)"
    and "budget t < budget (ts0 ! i)"
  shows "shrinks ts0 (insert i J) (ts[i := t])"
  using assms by (auto simp: shrinks_def nth_list_update)

lemma shrinks_put_le:
  assumes "shrinks ts0 {} ts" and "i < length ts0" and "tr_spec t = tr_spec (ts0 ! i)"
    and "budget t \<le> budget (ts0 ! i)"
  shows "shrinks ts0 {} (ts[i := t])"
  using assms by (auto simp: shrinks_def nth_list_update)

definition no_more :: "TaskRecord \<Rightarrow> TaskRecord \<Rightarrow> bool" where
  "no_more t t' \<longleftrightarrow> tr_spec t' = tr_spec t \<and> budget t' \<le> budget t"

lemma shrinks_all2:
  assumes "shrinks ts0 J ts" and "list_all2 no_more ts ts'"
  shows "shrinks ts0 J ts'"
  unfolding shrinks_def
proof (intro conjI allI impI ballI)
  have len: "length ts' = length ts" "length ts = length ts0"
    using assms by (auto simp: shrinks_def dest: list_all2_lengthD)
  then show "length ts' = length ts0" by simp
  have le: "tr_spec (ts' ! i) = tr_spec (ts ! i) \<and> budget (ts' ! i) \<le> budget (ts ! i)" if "i < length ts0" for i
    using assms(2) that len by (auto simp: list_all2_conv_all_nth no_more_def)
  show "tr_spec (ts' ! i) = tr_spec (ts0 ! i)" "budget (ts' ! i) \<le> budget (ts0 ! i)" if "i < length ts0" for i
    using le[OF that] assms(1) that by (auto simp: shrinks_def intro: order_trans)
  show "i < length ts0" "budget (ts' ! i) < budget (ts0 ! i)" if "i \<in> J" for i
    using le[of i] assms(1) that by (auto simp: shrinks_def intro: order_le_less_trans)
qed

lemma shrinks_ids: "shrinks ts0 J ts \<Longrightarrow> map tr_task_id ts = map tr_task_id ts0"
  by (rule nth_equalityI) (auto simp: shrinks_def)

lemma shrinks_attempts_left:
  assumes "shrinks ts0 J ts" and "J \<noteq> {}"
  shows "attempts_left ts < attempts_left ts0"
proof -
  have sum: "attempts_left xs = (\<Sum>i<length xs. budget (xs ! i))" for xs
    by (simp add: attempts_left_def sum_list_sum_nth atLeast0LessThan)
  have len: "length ts = length ts0" using assms(1) by (simp add: shrinks_def)
  have "(\<Sum>i<length ts0. budget (ts ! i)) < (\<Sum>i<length ts0. budget (ts0 ! i))"
    using assms by (intro sum_strict_mono_ex1) (auto simp: shrinks_def)
  then show ?thesis by (simp add: sum len)
qed

section \<open>Starting a batch\<close>

lemma leaves_unsettled: "transition_task s s' = Inr s'' \<Longrightarrow> s' \<noteq> s \<Longrightarrow> \<not> settled s"
  by (cases s) (auto simp: transition_task_def check_transition_def settled_def)

lemma val_promote_ready: "returns (\<lambda>ts' _. list_all2 no_more ts ts') w (promote_ready ts)"
  unfolding promote_ready_def
proof (rule val.out_bnd_lift, rule val_mapA)
  fix candidates t and w :: world
  have move: "returns (\<lambda>t' _. no_more t t') w (bnd (lift_sum (transition_task (tr_state t) T_READY)) (\<lambda>state.
      update_task (t\<lparr>tr_state := state\<rparr>) (tr_version t)))"
  proof (rule val.out_bnd_lift, rule outcome_weaken[OF val_update_task(1)])
    fix state t'
    assume tr: "transition_task (tr_state t) T_READY = Inr state"
      and t': "t' = t\<lparr>tr_state := state\<rparr>\<lparr>tr_version := tr_version t + 1\<rparr>"
    have "state = T_READY" using tr by (rule transition_task_InrD)
    moreover have "\<not> settled (tr_state t)" using leaves_unsettled[OF tr] by (auto simp: settled_def)
    ultimately show "no_more t t'" by (simp add: no_more_def t' budget_def)
  qed
  show "returns (\<lambda>t' _. no_more t t') w
     (if tr_task_id t \<notin> tr_task_id ` set candidates then ret t
      else bnd (lift_sum (transition_task (tr_state t) T_READY)) (\<lambda>state.
        update_task (t\<lparr>tr_state := state\<rparr>) (tr_version t)))"
    using move by (auto intro: val.out_ret simp: no_more_def)
qed

text \<open>A task that was started from the place \<open>i\<close>: its attempt is counted.\<close>

definition started_ok :: "TaskRecord list \<Rightarrow> nat \<Rightarrow> TaskRecord \<Rightarrow> bool" where
  "started_ok ts0 i t \<longleftrightarrow> i < length ts0 \<and> tr_spec t = tr_spec (ts0 ! i) \<and> tr_state t = T_RUNNING \<and>
     tr_attempt_count t = tr_attempt_count (ts0 ! i) + 1 \<and> \<not> settled (tr_state (ts0 ! i))"

lemma started_budget: "started_ok ts0 i t \<Longrightarrow> budget t \<le> budget (ts0 ! i)"
  by (auto simp: started_ok_def budget_def)

text \<open>How a started task can end: settled, or retryable with attempts left.\<close>

lemma ended_budget:
  assumes "started_ok ts0 i t" and "tr_spec t' = tr_spec t" and "tr_attempt_count t' = tr_attempt_count t"
    and "settled (tr_state t') \<or> tr_attempt_count t < ts_maximum_attempts (tr_spec t)"
  shows "budget t' < budget (ts0 ! i)"
  using assms by (auto simp: started_ok_def budget_def)

lemma index_of_InrD: "index_of k ts = Inr i \<Longrightarrow> i < length ts \<and> tr_task_id (ts ! i) = k"
  by (induction ts arbitrary: i) (auto split: if_splits sum.splits simp: map_sum_def)

definition batch_ok :: "TaskRecord list \<Rightarrow> TaskRecord list \<times> started list \<Rightarrow> bool" where
  "batch_ok ts0 acc \<longleftrightarrow> shrinks ts0 {} (fst acc) \<and> (\<forall>(i, t, a) \<in> set (snd acc). started_ok ts0 i t)"

lemma val_start_task:
  assumes "distinct (map tr_task_id ts0)" and "c \<in> set ts0" and "batch_ok ts0 acc"
  shows "returns (\<lambda>acc' _. batch_ok ts0 acc' \<and> length (snd acc') = Suc (length (snd acc))) w
    (start_task run n acc c)"
proof -
  obtain ts ss where acc: "acc = (ts, ss)" by force
  have shr: "shrinks ts0 {} ts" using assms(3) by (simp add: batch_ok_def acc)
  show ?thesis
    unfolding start_task_def acc prod.case
  proof (rule val.out_bnd_lift, rule val.out_bnd_lift, rule val_then, rule val.out_bnd[OF val_update_task(1)],
      rule val_then, rule val_then_ret)
    fix i state now t a e and w' :: world
    assume i: "index_of (tr_task_id c) ts = Inr i"
      and tr: "transition_task (tr_state c) T_RUNNING = Inr state"
      and t: "t = c\<lparr>tr_state := state, tr_attempt_count := tr_attempt_count c + 1, tr_started_at := Some now\<rparr>
        \<lparr>tr_version := tr_version c + 1\<rparr>"
    have len: "i < length ts0" and "tr_task_id (ts0 ! i) = tr_task_id c"
      using index_of_InrD[OF i] shr by (auto simp: shrinks_def)
    then have c: "ts0 ! i = c" using assms(1,2) by (metis distinct_map inj_onD nth_mem)
    have "\<not> settled (tr_state c)" using leaves_unsettled[OF tr] by (auto simp: settled_def)
    moreover have "state = T_RUNNING" using tr by (rule transition_task_InrD)
    ultimately have ok: "started_ok ts0 i t" using len by (simp add: started_ok_def t c)
    have "shrinks ts0 {} (ts[i := t])"
      using shrinks_put_le[OF shr len _ started_budget[OF ok]] ok by (simp add: started_ok_def)
    then show "batch_ok ts0 (ts[i := t], ss @ [(i, t, a)]) \<and>
        length (snd (ts[i := t], ss @ [(i, t, a)])) = Suc (length (snd (ts, ss)))"
      using ok assms(3) by (auto simp: batch_ok_def acc)
  qed
qed

lemma val_start_tasks:
  assumes "distinct (map tr_task_id ts0)" and "set batch \<subseteq> set ts0" and "batch_ok ts0 acc"
  shows "returns (\<lambda>acc' _. batch_ok ts0 acc' \<and> length (snd acc') = length (snd acc) + length batch) w
    (foldA (start_task run n) acc batch)"
  using assms(2,3)
proof (induction batch arbitrary: acc w)
  case Nil
  then show ?case by (simp add: val.out_ret)
next
  case (Cons c cs)
  have c: "c \<in> set ts0" "set cs \<subseteq> set ts0" using Cons.prems(1) by auto
  show ?case
    unfolding foldA.simps
  proof (rule val.out_bnd[OF val_start_task[OF assms(1) c(1) Cons.prems(2)]])
    fix acc' :: "TaskRecord list \<times> started list" and w'
    assume "batch_ok ts0 acc' \<and> length (snd acc') = Suc (length (snd acc))"
    then show "returns (\<lambda>acc' _. batch_ok ts0 acc' \<and> length (snd acc') = length (snd acc) + length (c # cs)) w'
        (foldA (start_task run n) acc' cs)"
      using Cons.IH[OF c(2), of acc' w'] by simp
  qed
qed

lemma val_start_batch:
  assumes "distinct (map tr_task_id ts0)" and "set batch \<subseteq> set ts0"
  shows "returns (\<lambda>x _. batch_ok ts0 (fst (snd x), fst (snd (snd x))) \<and>
      length (fst (snd (snd x))) = length batch) w (start_batch env run plan ts0 batch)"
  unfolding start_batch_def
proof (rule val.out_bnd, rule val_start_tasks[OF assms])
  show "batch_ok ts0 (ts0, [])" by (simp add: batch_ok_def)
next
  fix acc :: "TaskRecord list \<times> started list" and w' :: world
  assume "batch_ok ts0 acc \<and> length (snd acc) = length (snd (ts0, [])) + length batch"
  then show "returns (\<lambda>x _. batch_ok ts0 (fst (snd x), fst (snd (snd x))) \<and>
      length (fst (snd (snd x))) = length batch) w'
    (case acc of (tasks, started) \<Rightarrow>
       bnd (get_run (rr_run_id run)) (\<lambda>current_run.
       bnd clock_now (\<lambda>now.
       bnd (update_run (current_run\<lparr>
            rr_active_task_id := (case started of [(_, t, _)] \<Rightarrow> Some (tr_task_id t) | _ \<Rightarrow> None),
            rr_updated_at := now\<rparr>) (rr_version current_run)) (\<lambda>run.
       if list_ex (\<lambda>(_, t, _). ts_checkpoint_policy (tr_spec t) = BEFORE_AND_AFTER) started
       then bnd (write_run_checkpoint env run plan tasks no_refs) (\<lambda>checkpoint_id.
         ret (run, tasks, started, Some checkpoint_id))
       else ret (run, tasks, started, None)))))"
    by (cases acc) (auto intro!: val_then val.out_ret)
qed

section \<open>The workers' results\<close>

lemma val_run_workers:
  "returns (\<lambda>x _. length (fst x) = length ts) s (run_workers env run failed ts)"
proof (induction ts arbitrary: s failed)
  case Nil
  show ?case by (simp, rule val_then_ret) simp
next
  case (Cons t ts)
  show ?case
    by (simp, rule val_then, rule val_then, rule val.out_bnd[OF Cons.IH]) (auto intro: val.out_ret)
qed

lemma val_execute_batch:
  "returns (\<lambda>results _. length results = length ts) s (execute_batch env run ts)"
  unfolding execute_batch_def
  by (rule val.out_bnd[OF val_run_workers]) (auto split: prod.split option.split intro!: val.out_raise val_then_ret)

text \<open>Every place of \<open>J\<close> has ended or is among the failures still to be settled.\<close>

definition results_ok :: "TaskRecord list \<Rightarrow> nat set \<Rightarrow> loop_state \<times> failure list \<Rightarrow> bool" where
  "results_ok ts0 J acc \<longleftrightarrow> (\<exists>K. shrinks ts0 K (ls_tasks (fst acc)) \<and> J \<subseteq> K \<union> fl_index ` set (snd acc)) \<and>
     (\<forall>f \<in> set (snd acc). started_ok ts0 (fl_index f) (fl_task f))"

lemma val_commit_task:
  "returns (\<lambda>x _. \<exists>t'. tr_spec t' = tr_spec t \<and> tr_attempt_count t' = tr_attempt_count t \<and>
     tr_state t' = T_SUCCEEDED \<and> fst (snd x) = ts[i := t']) w (commit_task run_id ts (i, t, a) out)"
  unfolding commit_task_def prod.case Let_def
proof (rule val.out_bnd_lift, rule val_then, rule val.out_bnd[OF val_update_task(2)], rule val_then, rule val_then,
    rule val_then_ret)
  fix state f t' r now r' and w' :: world
  assume tr: "transition_task (tr_state t) T_SUCCEEDED = Inr state"
    and t': "t' = t\<lparr>tr_state := state, tr_finished_at := Some f\<rparr>\<lparr>tr_version := tr_version t + 1\<rparr>"
  then show "\<exists>t''. tr_spec t'' = tr_spec t \<and> tr_attempt_count t'' = tr_attempt_count t \<and>
     tr_state t'' = T_SUCCEEDED \<and> fst (snd (t', ts[i := t'], r')) = ts[i := t'']"
    using transition_task_InrD[OF tr] by (intro exI[of _ t']) simp
qed

lemma val_commit_success:
  "returns (\<lambda>st' _. \<exists>t'. tr_spec t' = tr_spec t \<and> tr_attempt_count t' = tr_attempt_count t \<and>
     tr_state t' = T_SUCCEEDED \<and> ls_tasks st' = (ls_tasks st)[i := t']) w
     (commit_success env run_id plan st (i, t, a) out)"
  unfolding commit_success_def
  by (rule val.out_bnd[OF val_commit_task])
    (auto simp: Let_def split: prod.split intro!: val_then val.out_ret)

lemma val_commit_result:
  assumes "results_ok ts0 J acc" and "started_ok ts0 i t"
  shows "returns (\<lambda>acc' _. results_ok ts0 (insert i J) acc') w (commit_result env run_id plan acc ((i, t, a), r))"
proof -
  obtain st fs where acc: "acc = (st, fs)" by force
  obtain K where K: "shrinks ts0 K (ls_tasks st)" "J \<subseteq> K \<union> fl_index ` set fs"
    using assms(1) by (auto simp: results_ok_def acc)
  have fs: "\<forall>f \<in> set fs. started_ok ts0 (fl_index f) (fl_task f)"
    using assms(1) by (simp add: results_ok_def acc)
  have more: "results_ok ts0 (insert i J) (st, fs @ [f])" if "fl_task f = t" "fl_index f = i" for f
    using K fs that assms(2) by (auto simp: results_ok_def)
  obtain result error where r: "r = (result, error)" by force
  consider e where "error = Some e" | "error = None" "result = None" | out where "error = None" "result = Some out"
    by (cases error; cases result) auto
  then show ?thesis
  proof cases
    case 1
    have "fl_task (failure_of env (i, t, a) e) = t" "fl_index (failure_of env (i, t, a) e) = i"
      by (cases e; simp add: failure_of_def)+
    then show ?thesis using more 1 by (simp add: commit_result_def acc r val.out_ret)
  next
    case 2
    have "fl_task (no_outcome (i, t, a)) = t" "fl_index (no_outcome (i, t, a)) = i"
      by (simp_all add: no_outcome_def)
    then show ?thesis using more 2 by (simp add: commit_result_def acc r val.out_ret)
  next
    case 3
    have "returns (\<lambda>acc' _. results_ok ts0 (insert i J) acc') w
        (bnd (commit_success env run_id plan st (i, t, a) out) (\<lambda>st'. ret (st', fs)))"
    proof (rule val.out_bnd[OF val_commit_success], rule val.out_ret)
      fix st' :: loop_state
      assume "\<exists>t'. tr_spec t' = tr_spec t \<and> tr_attempt_count t' = tr_attempt_count t \<and>
        tr_state t' = T_SUCCEEDED \<and> ls_tasks st' = (ls_tasks st)[i := t']"
      then obtain t' where t': "tr_spec t' = tr_spec t" "tr_attempt_count t' = tr_attempt_count t"
        "tr_state t' = T_SUCCEEDED" "ls_tasks st' = (ls_tasks st)[i := t']" by blast
      have "budget t' < budget (ts0 ! i)"
        using ended_budget[OF assms(2) t'(1,2)] t'(3) by (simp add: settled_def)
      then have "shrinks ts0 (insert i K) (ls_tasks st')"
        using shrinks_put[OF K(1)] assms(2) t' by (simp add: started_ok_def)
      then show "results_ok ts0 (insert i J) (st', fs)"
        using K(2) fs by (auto simp: results_ok_def intro!: exI[of _ "insert i K"])
    qed
    then show ?thesis using 3 by (simp add: commit_result_def acc r)
  qed
qed

lemma val_commit_results:
  assumes "\<forall>((i, t, a), r) \<in> set srs. started_ok ts0 i t" and "results_ok ts0 J acc"
  shows "returns (\<lambda>acc' _. results_ok ts0 (J \<union> (\<lambda>((i, t, a), r). i) ` set srs) acc') w
    (foldA (commit_result env run_id plan) acc srs)"
  using assms
proof (induction srs arbitrary: acc J w)
  case Nil
  then show ?case by (simp add: val.out_ret)
next
  case (Cons sr srs)
  obtain i t a r where sr: "sr = ((i, t, a), r)" by (cases sr) auto
  have ok: "started_ok ts0 i t" using Cons.prems(1) by (simp add: sr)
  show ?case
    unfolding foldA.simps sr
  proof (rule val.out_bnd[OF val_commit_result[OF Cons.prems(2) ok]])
    fix acc' :: "loop_state \<times> failure list" and w' assume "results_ok ts0 (insert i J) acc'"
    then have "returns (\<lambda>acc' _. results_ok ts0 (insert i J \<union> (\<lambda>((i, t, a), r). i) ` set srs) acc') w'
      (foldA (commit_result env run_id plan) acc' srs)"
      using Cons.prems(1) by (intro Cons.IH) auto
    then show "returns (\<lambda>acc' _. results_ok ts0 (J \<union> (\<lambda>((i, t, a), r). i) ` set (((i, t, a), r) # srs)) acc') w'
      (foldA (commit_result env run_id plan) acc' srs)"
      by simp
  qed
qed

section \<open>Failures\<close>

text \<open>A failure is settled at its place, or the batch leaves the loop for review.\<close>

definition disposed_ok :: "TaskRecord list \<Rightarrow> nat set \<Rightarrow> disposition \<Rightarrow> bool" where
  "disposed_ok ts0 J d \<longleftrightarrow> dn_review d \<or> (\<exists>K. shrinks ts0 K (dn_tasks d) \<and> J \<subseteq> K)"

lemma dispose_ok:
  assumes "disposed_ok ts0 J d" and "started_ok ts0 (fl_index f) (fl_task f)"
    and "tr_spec t = tr_spec (fl_task f)" and "tr_attempt_count t = tr_attempt_count (fl_task f)"
    and "tr_state t = failure_target settings f"
  shows "disposed_ok ts0 (insert (fl_index f) J) (dispose settings d f t)"
proof (cases "dn_review d \<or> requires_review f")
  case True
  then show ?thesis by (simp add: disposed_ok_def dispose_def Let_def)
next
  case False
  then obtain K where K: "shrinks ts0 K (dn_tasks d)" "J \<subseteq> K" using assms(1) by (auto simp: disposed_ok_def)
  have "settled (tr_state t) \<or> tr_attempt_count (fl_task f) < ts_maximum_attempts (tr_spec (fl_task f))"
    using False assms(5) by (auto simp: failure_target_def settled_def retries_def)
  from ended_budget[OF assms(2-4) this]
  have "shrinks ts0 (insert (fl_index f) K) ((dn_tasks d)[fl_index f := t])"
    using shrinks_put[OF K(1)] assms(2,3) by (simp add: started_ok_def)
  then show ?thesis
    using K(2) by (auto simp: disposed_ok_def dispose_def Let_def intro!: exI[of _ "insert (fl_index f) K"])
qed

lemma val_commit_failure:
  assumes "disposed_ok ts0 J d" and "started_ok ts0 (fl_index f) (fl_task f)"
  shows "returns (\<lambda>d' _. disposed_ok ts0 (insert (fl_index f) J) d') w (commit_failure env run_id d f)"
  unfolding commit_failure_def Let_def
proof (rule val_then, rule val.out_bnd_lift, rule val_then, rule val.out_bnd[OF val_update_task(2)], rule val_then_ret)
  fix e state finished t u and w' :: world
  assume "transition_task (tr_state (fl_task f)) (failure_target (ae_settings env) f) = Inr state"
    and "t = (fl_task f)\<lparr>tr_state := state, tr_finished_at := finished, tr_last_error_id := Some e\<rparr>
      \<lparr>tr_version := tr_version (fl_task f) + 1\<rparr>"
  then show "disposed_ok ts0 (insert (fl_index f) J) (dispose (ae_settings env) d f t)"
    by (intro dispose_ok[OF assms]) (auto dest: transition_task_InrD)
qed

lemma val_commit_failures:
  assumes "\<forall>f \<in> set fs. started_ok ts0 (fl_index f) (fl_task f)" and "disposed_ok ts0 J d"
  shows "returns (\<lambda>d' _. disposed_ok ts0 (J \<union> fl_index ` set fs) d') w (foldA (commit_failure env run_id) d fs)"
  using assms
proof (induction fs arbitrary: d J w)
  case Nil
  then show ?case by (simp add: val.out_ret)
next
  case (Cons f fs)
  show ?case
    unfolding foldA.simps
  proof (rule val.out_bnd, rule val_commit_failure[OF Cons.prems(2)])
    show "started_ok ts0 (fl_index f) (fl_task f)" using Cons.prems(1) by simp
    fix d' and w' :: world assume "disposed_ok ts0 (insert (fl_index f) J) d'"
    then show "returns (\<lambda>d' _. disposed_ok ts0 (J \<union> fl_index ` set (f # fs)) d') w' (foldA (commit_failure env run_id) d' fs)"
      using Cons.IH[of "insert (fl_index f) J" d' w'] Cons.prems(1) by simp
  qed
qed

lemma val_skip_task:
  "returns (\<lambda>acc' _. \<exists>t'. no_more t t' \<and> fst acc' = fst acc @ [t']) w (skip_task blocked acc t)"
proof -
  obtain ts ss where acc: "acc = (ts, ss)" by force
  show ?thesis
  proof (cases "tr_task_id t \<notin> blocked \<or> tr_state t \<notin> {T_PENDING, T_READY, T_WAITING}")
    case True
    then show ?thesis by (auto simp: skip_task_def acc no_more_def intro!: val.out_ret)
  next
    case False
    show ?thesis
      unfolding skip_task_def acc prod.case if_not_P[OF False]
    proof (rule val.out_bnd_lift, rule val_then, rule val.out_bnd[OF val_update_task(1)], rule val.out_ret)
      fix state f t' and w' :: world
      assume tr: "transition_task (tr_state t) T_SKIPPED = Inr state"
        and "t' = t\<lparr>tr_state := state, tr_finished_at := Some f\<rparr>\<lparr>tr_version := tr_version t + 1\<rparr>"
      then show "\<exists>t''. no_more t t'' \<and> fst (ts @ [t'], ss @ [tr_task_id t']) = fst (ts, ss) @ [t'']"
        using transition_task_InrD[OF tr] by (intro exI[of _ t']) (simp add: no_more_def budget_def settled_def)
    qed
  qed
qed

lemma val_skip_tasks:
  "returns (\<lambda>acc' _. \<exists>ts'. list_all2 no_more ts ts' \<and> fst acc' = fst acc @ ts') w (foldA (skip_task blocked) acc ts)"
proof (induction ts arbitrary: acc w)
  case Nil
  then show ?case by (simp add: val.out_ret)
next
  case (Cons t ts)
  show ?case
    unfolding foldA.simps
  proof (rule val.out_bnd[OF val_skip_task])
    fix acc' :: "TaskRecord list \<times> string list" and w'
    assume "\<exists>t'. no_more t t' \<and> fst acc' = fst acc @ [t']"
    then obtain t' where t': "no_more t t'" "fst acc' = fst acc @ [t']" by blast
    show "returns (\<lambda>acc' _. \<exists>ts'. list_all2 no_more (t # ts) ts' \<and> fst acc' = fst acc @ ts') w'
        (foldA (skip_task blocked) acc' ts)"
    proof (rule outcome_weaken[OF Cons.IH])
      fix x :: "TaskRecord list \<times> string list"
      assume "\<exists>ts'. list_all2 no_more ts ts' \<and> fst x = fst acc' @ ts'"
      then obtain ts' where "list_all2 no_more ts ts'" "fst x = fst acc' @ ts'" by blast
      then show "\<exists>ts'. list_all2 no_more (t # ts) ts' \<and> fst x = fst acc @ ts'"
        using t' by (intro exI[of _ "t' # ts'"]) simp
    qed
  qed
qed

lemma val_skip_dependents: "returns (\<lambda>ts' _. list_all2 no_more ts ts') w (skip_transitive_dependents ts i)"
  unfolding skip_transitive_dependents_def
proof (rule val.out_bnd[OF val_skip_tasks])
  fix acc :: "TaskRecord list \<times> string list" and w' :: world
  assume "\<exists>ts'. list_all2 no_more ts ts' \<and> fst acc = fst ([], []) @ ts'"
  then show "returns (\<lambda>ts' _. list_all2 no_more ts ts') w' (case acc of (tasks', skipped) \<Rightarrow>
     bnd (publish (tr_run_id (hd tasks')) ''task.dependents_skipped''
       (JObj [(''skipped_task_ids'', jstrs (sort skipped))]) (Some i)) (\<lambda>_. ret tasks'))"
    by (cases acc) (auto intro!: val_then_ret)
qed

lemma val_handle_batch_failures:
  assumes "\<forall>f \<in> set fs. started_ok ts0 (fl_index f) (fl_task f)" and "shrinks ts0 J ts"
  shows "returns (\<lambda>x _. fst (snd (snd (snd x))) \<or>
      (\<exists>K. shrinks ts0 K (fst (snd x)) \<and> J \<union> fl_index ` set fs \<subseteq> K)) w
    (handle_batch_failures env run plan ts fs)"
  unfolding handle_batch_failures_def
proof (rule val.out_bnd, rule val_commit_failures[OF assms(1)])
  show "disposed_ok ts0 J \<lparr>dn_tasks = ts, dn_retry = [], dn_skip = [], dn_review = False, dn_fail = False\<rparr>"
    using assms(2) by (auto simp: disposed_ok_def)
next
  fix d and w' :: world assume d: "disposed_ok ts0 (J \<union> fl_index ` set fs) d"
  let ?I = "\<lambda>ts. dn_review d \<or> (\<exists>K. shrinks ts0 K ts \<and> J \<union> fl_index ` set fs \<subseteq> K)"
  have skip: "returns (\<lambda>ts' _. ?I ts') w' (foldA skip_transitive_dependents (dn_tasks d) (dn_skip d))"
  proof (rule val_foldA)
    show "?I (dn_tasks d)" using d by (simp add: disposed_ok_def)
    fix ts i and w'' :: world assume "?I ts"
    then show "returns (\<lambda>ts' _. ?I ts') w'' (skip_transitive_dependents ts i)"
      by (intro outcome_weaken[OF val_skip_dependents]) (blast intro: shrinks_all2)
  qed
  show "returns (\<lambda>x _. fst (snd (snd (snd x))) \<or>
      (\<exists>K. shrinks ts0 K (fst (snd x)) \<and> J \<union> fl_index ` set fs \<subseteq> K)) w'
    (bnd (foldA skip_transitive_dependents (dn_tasks d) (dn_skip d)) (\<lambda>tasks'.
     bnd (get_run (rr_run_id run)) (\<lambda>current_run.
     bnd clock_now (\<lambda>now.
     bnd (lift_sum (disposed_state (dn_fail d) (dn_review d) (rr_state current_run))) (\<lambda>state.
     bnd (if dn_fail d then bnd clock_now (\<lambda>t. ret (Some t)) else ret (rr_finished_at current_run)) (\<lambda>finished.
     bnd (update_run (current_run\<lparr>rr_state := state, rr_active_task_id := None,
            rr_updated_at := now, rr_finished_at := finished\<rparr>) (rr_version current_run)) (\<lambda>run'.
     bnd (write_run_checkpoint env run' plan tasks' no_refs) (\<lambda>checkpoint_id.
     ret (run', tasks', checkpoint_id, dn_fail d \<or> dn_review d, dn_retry d)))))))))"
    by (rule val.out_bnd[OF skip], (rule val_then)+, rule val.out_ret) auto
qed

section \<open>An iteration uses up an attempt\<close>

lemma val_settle_failures:
  assumes "results_ok ts0 J (st, fs)"
  shows "returns (\<lambda>r _. \<forall>st'. r = Again st' \<longrightarrow> (\<exists>K. shrinks ts0 K (ls_tasks st') \<and> J \<subseteq> K)) w
    (settle_failures env run_id plan st fs)"
proof -
  obtain K where K: "shrinks ts0 K (ls_tasks st)" "J \<subseteq> K \<union> fl_index ` set fs"
    and fs: "\<forall>f \<in> set fs. started_ok ts0 (fl_index f) (fl_task f)"
    using assms by (auto simp: results_ok_def)
  show ?thesis
  proof (cases "fs = []")
    case True
    then show ?thesis using K by (auto simp: settle_failures_def intro!: val.out_ret)
  next
    case False
    show ?thesis
      unfolding settle_failures_def if_not_P[OF False]
    proof (rule val.out_bnd[OF val_handle_batch_failures[OF fs K(1)]])
      fix x :: "RunRecord \<times> TaskRecord list \<times> string \<times> bool \<times> TaskRecord list" and w' :: world
      assume x: "fst (snd (snd (snd x))) \<or> (\<exists>K'. shrinks ts0 K' (fst (snd x)) \<and> K \<union> fl_index ` set fs \<subseteq> K')"
      obtain run ts c leave retry where x': "x = (run, ts, c, leave, retry)" by (cases x) auto
      have "\<exists>K'. shrinks ts0 K' ts \<and> J \<subseteq> K'" if "\<not> leave"
        using x that K(2) unfolding x' fst_conv snd_conv by blast
      then show "returns (\<lambda>r _. \<forall>st'. r = Again st' \<longrightarrow> (\<exists>K. shrinks ts0 K (ls_tasks st') \<and> J \<subseteq> K)) w'
        (case x of (run, tasks, checkpoint_id, leave, retry_tasks) \<Rightarrow>
          let st' = st\<lparr>ls_run := run, ls_tasks := tasks, ls_checkpoint_id := Some checkpoint_id\<rparr> in
          bnd (foldA (sleep_for env run_id) () retry_tasks) (\<lambda>_.
          if leave then bnd (run_report env run plan tasks True) (\<lambda>report_id. ret (Leave st' (Some report_id)))
          else ret (Again st')))"
        by (auto simp: x' Let_def intro!: val_then val.out_ret)
    qed
  qed
qed

lemma val_io: "returns (\<lambda>x _. Q x) (fst s) m \<Longrightarrow> returns (\<lambda>x _. Q x) s (io m)"
  by (cases s) (auto simp: outcome_def io_def split: prod.splits)

lemma val_run_batch:
  assumes "distinct (map tr_task_id (ls_tasks st))" and "set batch \<subseteq> set (ls_tasks st)" and "batch \<noteq> []"
  shows "returns (\<lambda>r _. \<forall>st'. r = Again st' \<longrightarrow>
      (\<exists>K. shrinks (ls_tasks st) K (ls_tasks st') \<and> K \<noteq> {})) s (run_batch env run_id plan st batch)"
  unfolding run_batch_def
proof (rule val.out_bnd, rule val_io, rule val_start_batch[OF assms(1,2)])
  fix x :: "RunRecord \<times> TaskRecord list \<times> started list \<times> string option" and s' :: "world \<times> LeaseRecord"
  let ?ts0 = "ls_tasks st"
  assume x: "batch_ok ?ts0 (fst (snd x), fst (snd (snd x))) \<and> length (fst (snd (snd x))) = length batch"
  obtain run ts ss before where x': "x = (run, ts, ss, before)" by (cases x) auto
  let ?st = "st\<lparr>ls_run := run, ls_tasks := ts,
    ls_checkpoint_id := (case before of None \<Rightarrow> ls_checkpoint_id st | Some i \<Rightarrow> Some i)\<rparr>"
  have start: "results_ok ?ts0 {} (?st, [])" using x by (auto simp: results_ok_def batch_ok_def x')
  have "returns (\<lambda>r _. \<forall>st'. r = Again st' \<longrightarrow> (\<exists>K. shrinks ?ts0 K (ls_tasks st') \<and> K \<noteq> {})) s'
    (bnd (execute_batch env run (map (\<lambda>(_, t, _). t) ss)) (\<lambda>results.
       io (bnd (foldA (commit_result env run_id plan) (?st, []) (zip ss results)) (\<lambda>(st', failures).
           settle_failures env run_id plan st' failures))))"
  proof (rule val.out_bnd[OF val_execute_batch], rule val_io, rule val.out_bnd, rule val_commit_results[OF _ start])
    fix results :: "task_result list"
    show "\<forall>((i, t, a), r) \<in> set (zip ss results). started_ok ?ts0 i t"
      using x by (fastforce simp: batch_ok_def x' dest: set_zip_leftD)
  next
    fix results :: "task_result list" and v :: "loop_state \<times> failure list" and w' :: world
    let ?J = "{} \<union> (\<lambda>((i, t, a), r). i) ` set (zip ss results)"
    assume len: "length results = length (map (\<lambda>(_, t, _). t) ss)" and v: "results_ok ?ts0 ?J v"
    have "zip ss results \<noteq> []" using x assms(3) len by (cases ss; cases results) (auto simp: x')
    then have ne: "?J \<noteq> {}" by simp
    show "returns (\<lambda>r _. \<forall>st'. r = Again st' \<longrightarrow> (\<exists>K. shrinks ?ts0 K (ls_tasks st') \<and> K \<noteq> {})) w'
        (case v of (st', failures) \<Rightarrow> settle_failures env run_id plan st' failures)"
    proof -
      obtain J where J: "results_ok ?ts0 J (fst v, snd v)" "J \<noteq> {}" using v ne unfolding prod.collapse by blast
      have "returns (\<lambda>r _. \<forall>st'. r = Again st' \<longrightarrow> (\<exists>K. shrinks ?ts0 K (ls_tasks st') \<and> K \<noteq> {})) w'
          (settle_failures env run_id plan (fst v) (snd v))"
        by (rule outcome_weaken[OF val_settle_failures[OF J(1)]]) (use J(2) in blast)
      then show ?thesis by (simp add: case_prod_beta)
    qed
  qed
  then show "returns (\<lambda>r _. \<forall>st'. r = Again st' \<longrightarrow> (\<exists>K. shrinks ?ts0 K (ls_tasks st') \<and> K \<noteq> {})) s'
    (case x of (run, tasks, started, before) \<Rightarrow>
       bnd (execute_batch env run (map (\<lambda>(_, t, _). t) started)) (\<lambda>results.
       io (bnd (foldA (commit_result env run_id plan)
             (st\<lparr>ls_run := run, ls_tasks := tasks,
                 ls_checkpoint_id := (case before of None \<Rightarrow> ls_checkpoint_id st | Some i \<Rightarrow> Some i)\<rparr>, [])
             (zip started results)) (\<lambda>(st', failures).
           settle_failures env run_id plan st' failures))))"
    by (simp add: x')
qed

text \<open>Nothing but this process files requests, and promoting tasks files none.\<close>

abbreviation requests :: "database \<Rightarrow> LifecycleRequestORM list \<times> LifecycleRequestORM list" where
  "requests d \<equiv> (db_pause_requests d, db_cancellation_requests d)"

lemma pending_depends:
  assumes "quiet w" and "quiet w'" and "requests (w_db w) = requests (w_db w')"
  shows "fst (pending_lifecycle_request r w) = fst (pending_lifecycle_request r w')"
proof -
  have "requests_of k (w_db w) = requests_of k (w_db w')" for k using assms(3) by (cases k) simp_all
  then have "first_pending k r (w_db w) = first_pending k r (w_db w')" for k by (simp only: first_pending_def)
  then show ?thesis using assms(1,2)
    by (simp add: pending_lifecycle_request_def query_quiet cong: option.case_cong)
qed

lemma frame_promote_ready: "outcome (frame requests) (\<lambda>_ _. True) w (promote_ready ts)"
  unfolding promote_ready_def
  by (rule fr.out_bnd_lift, rule fr.out_mapA)
    (auto simp: update_task_def intro!: fr.out_ret fr.out_bnd_lift frame_tx split: if_splits)

lemma frame_outcome_val: "outcome (frame sel) (\<lambda>_ _. True) w m \<Longrightarrow> m w = (x, w') \<Longrightarrow> frame sel w w'"
  by (rule outcomeD)

lemma finish_run_stops:
  assumes "fst (pending_lifecycle_request run_id w) = Inr None"
  shows "returns (\<lambda>r _. \<forall>st'. r \<noteq> Again st') w (finish_run env run_id plan st)"
proof -
  obtain w' where w': "pending_lifecycle_request run_id w = (Inr None, w')"
    using assms by (cases "pending_lifecycle_request run_id w") auto
  let ?rest = "bnd (get_run run_id) (\<lambda>run.
         if list_all (\<lambda>t. tr_state t \<in> {T_SUCCEEDED, T_SKIPPED}) (ls_tasks st) then
           bnd (complete_run env run_id run plan (ls_tasks st)) (\<lambda>(run', checkpoint_id, report_id).
           ret (Leave (st\<lparr>ls_run := run', ls_checkpoint_id := Some checkpoint_id\<rparr>) (Some report_id)))
         else
           bnd (fail_stuck_run env run plan (ls_tasks st)) (\<lambda>(run', checkpoint_id).
           bnd (run_report env run' plan (ls_tasks st) True) (\<lambda>report_id.
           ret (Leave (st\<lparr>ls_run := run', ls_checkpoint_id := Some checkpoint_id\<rparr>) (Some report_id)))))"
  have "finish_run env run_id plan st w = ?rest w'"
    by (simp add: finish_run_def bnd_def[of "pending_lifecycle_request run_id"] w')
  moreover have "returns (\<lambda>r _. \<forall>st'. r \<noteq> Again st') w' ?rest"
    by (auto intro!: val_then val.out_ret split: prod.split)
  ultimately show ?thesis by (simp add: outcome_def)
qed

lemma bnd_io: "m w = (Inr x, w') \<Longrightarrow> bnd (io m) f (w, l) = f x (w', l)"
  by (simp add: bnd_def io_def)

lemma iteration_progress:
  assumes "quiet (fst s)" and "distinct (map tr_task_id (ls_tasks st))"
    and "iteration env run_id maximum plan st s = (Inr (Again st'), s')"
  shows "\<exists>K. shrinks (ls_tasks st) K (ls_tasks st') \<and> K \<noteq> {}"
proof -
  obtain w l where s: "s = (w, l)" by force
  obtain p w1 where p: "pending_lifecycle_request run_id w = (p, w1)" by force
  have w1: "quiet w1" "requests (w_db w1) = requests (w_db w)"
    using assms(1) p by (auto simp: s pending_lifecycle_request_def query_quiet)
  obtain request where request: "p = Inr request"
    using assms(3) p by (cases p) (auto simp: iteration_def s io_def bnd_def)
  let ?rest = "\<lambda>request. case request of
         Some q \<Rightarrow> io (obey_request env plan st q)
       | None \<Rightarrow>
           if (case maximum of None \<Rightarrow> False | Some m \<Rightarrow> m \<le> ls_executed st) then ret (Leave st None)
           else
             bnd (io (promote_ready (ls_tasks st))) (\<lambda>tasks.
             bnd (io (lift_sum (ready_tasks tasks))) (\<lambda>candidates.
             let st' = st\<lparr>ls_tasks := tasks\<rparr> in
             if candidates = [] then io (finish_run env run_id plan st')
             else run_batch env run_id plan st'
               (select_batch (st_maximum_concurrency (ae_settings env)) candidates (ls_executed st) maximum)))"
  have "iteration env run_id maximum plan st s = ?rest request (w1, l)"
    unfolding iteration_def s by (rule bnd_io) (simp add: p request)
  then have run: "?rest request (w1, l) = (Inr (Again st'), s')" using assms(3) by simp
  show ?thesis
  proof (cases request)
    case (Some q)
    have "returns (\<lambda>r _. \<forall>st'. r \<noteq> Again st') w1 (obey_request env plan st q)"
      unfolding obey_request_def by (auto intro!: val_then val.out_ret split: prod.split)
    then have "returns (\<lambda>r _. \<forall>st'. r \<noteq> Again st') (w1, l) (io (obey_request env plan st q))"
      by (intro val_io) simp
    then show ?thesis using run Some by (auto dest: outcomeD_val)
  next
    case None
    have below: "\<not> (case maximum of None \<Rightarrow> False | Some m \<Rightarrow> m \<le> ls_executed st)"
      using run None by (auto simp: ret_def)
    obtain r w2 where r: "promote_ready (ls_tasks st) w1 = (r, w2)" by force
    have "frame requests w1 w2" using outcomeD[OF frame_promote_ready r] .
    then have w2: "quiet w2" "requests (w_db w2) = requests (w_db w)" using w1 by (auto simp: frame_def)
    obtain tasks where tasks: "r = Inr tasks"
      using run None below r by (cases r) (auto simp: io_def bnd_def)
    obtain candidates where c: "ready_tasks tasks = Inr candidates"
      using run None below r tasks by (cases "ready_tasks tasks") (auto simp: io_def bnd_def lift_sum_def)
    let ?st = "st\<lparr>ls_tasks := tasks\<rparr>"
    have run': "(if candidates = [] then io (finish_run env run_id plan ?st)
        else run_batch env run_id plan ?st
         (select_batch (st_maximum_concurrency (ae_settings env)) candidates (ls_executed st) maximum)) (w2, l)
        = (Inr (Again st'), s')"
      using run None below r tasks c by (simp add: io_def bnd_def lift_sum_def Let_def split: if_splits)
    have more: "list_all2 no_more (ls_tasks st) tasks"
      using outcomeD_val[OF val_promote_ready r[unfolded tasks]] .
    then have first: "shrinks (ls_tasks st) {} tasks" using shrinks_all2[OF shrinks_refl] by blast
    show ?thesis
    proof (cases "candidates = []")
      case True
      have "fst (pending_lifecycle_request run_id w2) = Inr None"
        using pending_depends[of w w2 run_id] assms(1) w2 p request None by (simp add: s)
      from finish_run_stops[OF this]
      have "returns (\<lambda>r _. \<forall>st'. r \<noteq> Again st') (w2, l) (io (finish_run env run_id plan ?st))"
        by (intro val_io) simp
      then show ?thesis using run' True by (auto dest: outcomeD_val)
    next
      case False
      let ?batch = "select_batch (st_maximum_concurrency (ae_settings env)) candidates (ls_executed st) maximum"
      have ne: "?batch \<noteq> []" using False by (cases candidates) (auto simp: select_batch_def Let_def)
      have sub: "set ?batch \<subseteq> set (ls_tasks ?st)"
        using select_batch_sub[OF False] ready_tasks_sub[OF c] by (simp; blast)
      have dist: "distinct (map tr_task_id (ls_tasks ?st))" using assms(2) shrinks_ids[OF first] by simp
      have "\<exists>K. shrinks tasks K (ls_tasks st') \<and> K \<noteq> {}"
        using outcomeD_val[OF val_run_batch[OF dist sub ne, where s = "(w2, l)"]] run' False by auto
      then obtain K where K: "shrinks tasks K (ls_tasks st')" "K \<noteq> {}" by blast
      have "shrinks (ls_tasks st) K (ls_tasks st')"
        using first K(1) by (fastforce simp: shrinks_def intro: order_trans order_less_le_trans)
      then show ?thesis using K(2) by blast
    qed
  qed
qed

lemma advance_loop_ends:
  assumes "quiet (fst s)" and "good (fst s)" and "seen_tasks (ls_tasks st) (fst s)"
    and "distinct (map tr_task_id (ls_tasks st))" and "durable_worker env"
    and "attempts_left (ls_tasks st) < fuel"
  shows "fst (advance_loop env run_id maximum plan fuel st s) \<noteq> Inr None"
  using assms(1-4,6)
proof (induction fuel arbitrary: st s)
  case 0
  then show ?case by simp
next
  case (Suc fuel)
  obtain r s' where r: "iteration env run_id maximum plan st s = (r, s')"
    by (cases "iteration env run_id maximum plan st s")
  have out: "outcome adurable (\<lambda>r s'. seen_result r (fst s')) s (iteration env run_id maximum plan st)"
    by (rule iteration_g[OF Suc.prems(2,3) assms(5)])
  have dur: "durable (fst s) (fst s')" using outcomeD[OF out r] by (simp add: adurable_def)
  consider e where "r = Inl e" | st' i where "r = Inr (Leave st' i)" | st' where "r = Inr (Again st')"
    by (metis step_result.exhaust sum.exhaust)
  then show ?case
  proof cases
    case 3
    obtain K where K: "shrinks (ls_tasks st) K (ls_tasks st')" "K \<noteq> {}"
      using iteration_progress[OF Suc.prems(1,4)] r 3 by blast
    have "fst (advance_loop env run_id maximum plan fuel st' s') \<noteq> Inr None"
    proof (rule Suc.IH)
      show "quiet (fst s')" using durable_quiet[OF dur] Suc.prems(1) by simp
      show "good (fst s')" using durable_good[OF dur Suc.prems(2)] .
      show "seen_tasks (ls_tasks st') (fst s')" using outcomeD_val[OF out] r 3 by (simp add: seen_result_def)
      show "distinct (map tr_task_id (ls_tasks st'))" using shrinks_ids[OF K(1)] Suc.prems(4) by simp
      show "attempts_left (ls_tasks st') < fuel" using shrinks_attempts_left[OF K] Suc.prems(5) by simp
    qed
    then show ?thesis using r 3 by (simp add: bnd_def)
  qed (use r in \<open>simp_all add: bnd_def ret_def\<close>)
qed

section \<open>The use case\<close>

text \<open>With enough fuel the run \<open>m fuel w\<close> ends.\<close>

definition ends :: "(nat \<Rightarrow> world \<Rightarrow> (exn + 'a option) \<times> world) \<Rightarrow> world \<Rightarrow> bool" where
  "ends m w \<longleftrightarrow> (\<exists>N. \<forall>fuel \<ge> N. fst (m fuel w) \<noteq> Inr None)"

lemma ends_bnd:
  assumes "\<And>v w'. p w = (Inr v, w') \<Longrightarrow> ends (\<lambda>fuel. f fuel v) w'"
  shows "ends (\<lambda>fuel. bnd p (f fuel)) w"
proof (cases "p w")
  case (Pair x w')
  then show ?thesis using assms by (cases x) (auto simp: ends_def bnd_def)
qed

lemma ends_if: "(b \<Longrightarrow> ends m w) \<Longrightarrow> (\<not> b \<Longrightarrow> ends m' w) \<Longrightarrow> ends (\<lambda>fuel. if b then m fuel else m' fuel) w"
  by (cases b) simp_all

lemma ends_some: "returns (\<lambda>x _. x \<noteq> None) w m \<Longrightarrow> ends (\<lambda>fuel. m) w"
  by (cases "m w") (auto simp: ends_def outcome_def)

lemma ends_under_lease:
  assumes "\<And>fuel. N \<le> fuel \<Longrightarrow> fst (m fuel (w, lease)) \<noteq> Inr None"
  shows "ends (\<lambda>fuel. bnd (under_lease (m fuel) lease) (\<lambda>r. ret (advance_result r))) w"
proof -
  have "fst (bnd (under_lease (m fuel) lease) (\<lambda>r. ret (advance_result r)) w) \<noteq> Inr None" if "N \<le> fuel" for fuel
    using assms[OF that]
    by (auto simp: bnd_def ret_def under_lease_def advance_result_def split: prod.splits sum.splits option.splits)
  then show ?thesis unfolding ends_def by blast
qed

definition healthy :: "world \<Rightarrow> bool" where
  "healthy w \<longleftrightarrow> quiet w \<and> good w"

lemma healthy_step: "outcome durable Q w m \<Longrightarrow> m w = (x, w') \<Longrightarrow> healthy w \<Longrightarrow> healthy w'"
  by (auto simp: healthy_def durable_quiet dest: outcomeD durable_good)

lemma advance_owned_ends:
  assumes "healthy w" and "durable_worker env"
  shows "ends (\<lambda>fuel. advance_owned env fuel run_id maximum run lease) w"
  unfolding advance_owned_def
proof (rule ends_bnd, rule ends_bnd, rule ends_bnd)
  fix plan w1 tasks w2 st w3
  assume run: "get_plan run_id None w = (Inr plan, w1)" "get_tasks run_id None w1 = (Inr tasks, w2)"
    "initial_state run_id run tasks w2 = (Inr st, w3)"
  have w1: "healthy w1" using healthy_step[OF out_get_plan run(1) assms(1)] .
  have tasks: "seen_tasks tasks w2" "distinct (map tr_task_id tasks)"
    using outcomeD_val[OF out_get_tasks run(2)] w1 by (auto simp: healthy_def tasks_of_def)
  have w2: "healthy w2" using healthy_step[OF out_get_tasks run(2) w1] .
  have init: "outcome durable (\<lambda>st w'. seen_tasks (ls_tasks st) w') w2 (initial_state run_id run tasks)"
    using w2 tasks(1) by (intro initial_state_g) (simp_all add: healthy_def)
  have "returns (\<lambda>st _. ls_tasks st = tasks) w2 (initial_state run_id run tasks)"
    unfolding initial_state_def by (rule val_then, rule val_then) (auto split: prod.split intro: val.out_ret)
  then have st: "ls_tasks st = tasks" using outcomeD_val run(3) by fast
  have w3: "healthy w3" using healthy_step[OF init run(3) w2] .
  show "ends (\<lambda>fuel. bnd (under_lease (advance_loop env run_id maximum plan fuel st) lease)
      (\<lambda>r. ret (advance_result r))) w3"
  proof (rule ends_under_lease)
    fix fuel assume "Suc (attempts_left tasks) \<le> fuel"
    then show "fst (advance_loop env run_id maximum plan fuel st (w3, lease)) \<noteq> Inr None"
      using w3 outcomeD_val[OF init run(3)] tasks(2) assms(2)
      by (intro advance_loop_ends) (simp_all add: healthy_def st)
  qed
qed

lemma unchanged_some: "returns (\<lambda>x _. x \<noteq> None) w (bnd (release_lease l) (\<lambda>_. unchanged_result i run))"
  unfolding unchanged_result_def by (rule val_then, rule val_then_ret) simp


lemma example_worker: "durable_worker example_agent"
  by (simp add: durable_worker_def example_agent_def dur.out_ret)


text \<open>What the stored histories keep.\<close>

definition histories_kept :: "database \<Rightarrow> database \<Rightarrow> bool" where
  "histories_kept d d' \<longleftrightarrow>
     (\<forall>r \<in> set (db_runs d). \<exists>r' \<in> set (db_runs d'). rr_run_id r' = rr_run_id r \<and>
        rr_owner_id r' = rr_owner_id r \<and> run_reaches (rr_state r) (rr_state r') \<and>
        (run_terminal (rr_state r) \<longrightarrow> rr_state r' = rr_state r)) \<and>
     (\<forall>t \<in> set (db_tasks d). \<exists>t' \<in> set (db_tasks d'). tm_task_pk t' = tm_task_pk t \<and>
        tm_spec t' = tm_spec t \<and> tm_attempt_count t \<le> tm_attempt_count t' \<and>
        task_reaches (tm_state t) (tm_state t') \<and>
        (task_terminal (tm_state t) \<longrightarrow> tm_state t' = tm_state t)) \<and>
     (\<forall>a \<in> set (db_task_attempts d). at_finished_at a \<noteq> None \<longrightarrow> a \<in> set (db_task_attempts d')) \<and>
     (\<forall>e \<in> set (db_events d). \<not> prunable_event e \<longrightarrow> e \<in> set (db_events d')) \<and>
     set (db_plans d) \<subseteq> set (db_plans d') \<and> set (db_tool_results d) \<subseteq> set (db_tool_results d') \<and>
     set (db_evidence d) \<subseteq> set (db_evidence d') \<and> set (db_claims d) \<subseteq> set (db_claims d') \<and>
     set (db_reports d) \<subseteq> set (db_reports d') \<and> set (db_errors d) \<subseteq> set (db_errors d')"

lemma run_terminal_final: "run_reaches s s' \<Longrightarrow> run_terminal s \<Longrightarrow> s' = s"
  by (induction rule: converse_rtranclp_induct) (auto simp: run_edge_iff elim: run_terminal.elims)

lemma task_terminal_final: "task_reaches s s' \<Longrightarrow> task_terminal s \<Longrightarrow> s' = s"
  by (induction rule: converse_rtranclp_induct) (auto simp: task_edge_iff elim: task_terminal.elims)

lemma tables_histories: "tables_step d d' \<Longrightarrow> histories_kept d d'"
  unfolding histories_kept_def
proof (intro conjI ballI)
  assume d: "tables_step d d'"
  show "\<exists>r' \<in> set (db_runs d'). rr_run_id r' = rr_run_id r \<and> rr_owner_id r' = rr_owner_id r \<and>
      run_reaches (rr_state r) (rr_state r') \<and> (run_terminal (rr_state r) \<longrightarrow> rr_state r' = rr_state r)"
    if "r \<in> set (db_runs d)" for r
  proof -
    obtain r' where "r' \<in> set (db_runs d')" "run_step r r'"
      using tables_step_runs[OF d] \<open>r \<in> set (db_runs d)\<close> by (auto simp: rows_step_def)
    then show ?thesis by (intro bexI[of _ r']) (auto simp: run_step_def dest: run_terminal_final)
  qed
  show "\<exists>t' \<in> set (db_tasks d'). tm_task_pk t' = tm_task_pk t \<and> tm_spec t' = tm_spec t \<and>
      tm_attempt_count t \<le> tm_attempt_count t' \<and> task_reaches (tm_state t) (tm_state t') \<and>
      (task_terminal (tm_state t) \<longrightarrow> tm_state t' = tm_state t)"
    if "t \<in> set (db_tasks d)" for t
  proof -
    obtain t' where "t' \<in> set (db_tasks d')" "task_step t t'"
      using tables_step_tasks[OF d] \<open>t \<in> set (db_tasks d)\<close> by (auto simp: rows_step_def)
    then show ?thesis by (intro bexI[of _ t']) (auto simp: task_step_def dest: task_terminal_final)
  qed
  show "at_finished_at a \<noteq> None \<longrightarrow> a \<in> set (db_task_attempts d')" if "a \<in> set (db_task_attempts d)" for a
    using d that by (fastforce simp: tables_step_def rows_step_def attempt_step_def)
  show "\<not> prunable_event e \<longrightarrow> e \<in> set (db_events d')" if "e \<in> set (db_events d)" for e
    using d that by (simp add: tables_step_def keeps_audit_def)
qed (simp_all add: tables_step_def keeps_rows_def)

lemma durable_histories:
  "durable w w' \<Longrightarrow> good w \<Longrightarrow> wf_db (w_db w') \<and> histories_kept (w_db w) (w_db w')"
  using durable_evolves good_wf tables_histories by (auto simp: evolves_def)

text \<open>
  However \<open>advance\<close> ends, by returning, by an exception, by a refused or lost transaction or by
  the death of the process, and whatever other processes that keep to the same rules commit in
  between, the stored histories are kept: every run and task is still there, in a state its old
  state leads to by lifecycle transitions, terminal states are final, finished attempts, audit
  events, tool results, evidence, claims, reports and errors are untouched, and all unique
  constraints hold.
\<close>

lemma advance_keeps_histories:
  assumes "good w" and "durable_worker env" and "advance env fuel run_id worker maximum w = (x, w')"
  shows "wf_db (w_db w') \<and> histories_kept (w_db w) (w_db w')"
  using durable_histories[OF outcomeD[OF out_advance[OF assms(1,2)] assms(3)] assms(1)] .

lemma advance_keeps_histories_witness:
  "histories_kept resume_db (w_db (snd (advance example_agent 3 ''r'' ''worker'' None (calm 0 0 0 resume_db))))"
proof -
  obtain x w' where run: "advance example_agent 3 ''r'' ''worker'' None (calm 0 0 0 resume_db) = (x, w')"
    by (cases "advance example_agent 3 ''r'' ''worker'' None (calm 0 0 0 resume_db)")
  show ?thesis
    using advance_keeps_histories[OF good_calm[OF wf_resume_db] example_worker run] run by simp
qed

end
