(* ===== verification/Service.thy ===== *)
theory Service
  imports Recovery Planner Evidence_Ledger
begin

text \<open>
  \<open>application/service.py\<close>: the use cases behind the command line and the HTTP interface. Each
  checks the owner of the run first. The planner, the indexer, the artifact store and the path
  operations of the operating system are what \<open>service_env\<close> holds; metrics and spans are left out.
\<close>

record service_env =
  sv_agent :: agent_env
  sv_recovery :: recovery_env
  sv_plan :: "string \<Rightarrow> string \<Rightarrow> PlanSpec io"
  sv_index :: "string \<Rightarrow> RepositoryIndex io"
  sv_resolve :: "string \<Rightarrow> exn + string"
  sv_is_dir :: "string \<Rightarrow> bool"
  sv_artifact_get :: "string \<Rightarrow> string \<Rightarrow> unit io"
  sv_prune_orphans :: "string set \<Rightarrow> time \<Rightarrow> bool \<Rightarrow> string list io"

record RetentionCleanupResult =
  cu_dry_run :: bool
  cu_event_cutoff :: time
  cu_artifact_cutoff :: time
  cu_eligible_event_count :: nat
  cu_deleted_event_count :: nat
  cu_compacted_run_ids :: "string list"
  cu_orphan_artifact_ids :: "string list"
  cu_deleted_orphan_count :: nat

abbreviation sv_settings :: "service_env \<Rightarrow> Settings" where
  "sv_settings env \<equiv> ae_settings (sv_agent env)"

abbreviation sv_sha256 :: "service_env \<Rightarrow> string \<Rightarrow> string" where
  "sv_sha256 env \<equiv> ae_sha256 (sv_agent env)"

section \<open>Ownership\<close>

definition owned_run :: "string \<Rightarrow> string \<Rightarrow> RunRecord io" where
  "owned_run run_id owner_id =
     bnd (get_run run_id) (\<lambda>run.
       if rr_owner_id run \<noteq> owner_id then raise (Durable SecurityPolicyError) else ret run)"

definition new_worker_id :: "string \<Rightarrow> string io" where
  "new_worker_id owner_id = bnd (ids_new ''worker'') (\<lambda>i. ret (i @ '':'' @ owner_id))"

definition require_key :: "string \<Rightarrow> unit io" where
  "require_key idempotency_key =
     (if py_strip idempotency_key = [] then raise (Durable DomainValidationError) else ret ())"

section \<open>Creating a run\<close>

definition index_repository :: "service_env \<Rightarrow> string \<Rightarrow> string io" where
  "index_repository env path =
     bnd (sv_index env path) (\<lambda>result.
     bnd (save_repository_index result) (\<lambda>_.
     ret (rs_snapshot_id (ri_snapshot result))))"

text \<open>The checks on the arguments; the result is the resolved repository path.\<close>

definition check_repository :: "service_env \<Rightarrow> string option \<Rightarrow> exn + string" where
  "check_repository env repository_path =
     (case sv_resolve env (case repository_path of Some p \<Rightarrow> p | None \<Rightarrow> st_repository_root (sv_settings env)) of
        Inl e \<Rightarrow> Inl e
      | Inr repository \<Rightarrow>
          if \<not> sv_is_dir env repository then Inl (Durable DomainValidationError)
          else (case sv_resolve env (st_repository_root (sv_settings env)) of
              Inl e \<Rightarrow> Inl e
            | Inr sandbox_root \<Rightarrow> if repository \<noteq> sandbox_root then Inl (Durable SecurityPolicyError) else Inr repository))"

definition create_request_hash :: "service_env \<Rightarrow> string \<Rightarrow> string \<Rightarrow> string \<Rightarrow> string" where
  "create_request_hash env owner_id objective repository =
     sv_sha256 env (canonical_json (JObj [(''owner_id'', JStr owner_id), (''objective'', JStr objective),
       (''repository'', JStr repository)]))"

text \<open>From the stored run in state CREATED to the running one.\<close>

definition start_planned ::
  "service_env \<Rightarrow> RunRecord \<Rightarrow> PlanSpec \<Rightarrow> TaskRecord list \<Rightarrow> RepositoryIndex \<Rightarrow> RunRecord io" where
  "start_planned env run1 plan tasks index =
     bnd (lift_sum (transition_run (rr_state run1) R_RUNNING)) (\<lambda>running.
     bnd clock_now (\<lambda>t2.
     bnd (update_run (run1\<lparr>rr_state := running, rr_active_plan_id := Some (ps_plan_id plan),
            rr_updated_at := t2\<rparr>) (rr_version run1)) (\<lambda>run2.
     bnd (write_checkpoint (ae_codec (sv_agent env)) (st_checkpoint_retention_count (sv_settings env))
            run2 plan tasks
            (no_refs\<lparr>cf_repository_manifest_hash := Some (rs_manifest_hash (ri_snapshot index))\<rparr>)) (\<lambda>_.
     bnd (publish (rr_run_id run2) ''plan.created''
       (JObj [(''plan_id'', JStr (ps_plan_id plan)), (''version'', JInt (ps_version plan)),
              (''task_count'', JInt (int (length tasks)))]) None) (\<lambda>_.
     ret run2)))))"

definition save_new_plan :: "service_env \<Rightarrow> string \<Rightarrow> string \<Rightarrow> (PlanSpec \<times> TaskRecord list) io" where
  "save_new_plan env run_id objective =
     bnd (sv_plan env run_id objective) (\<lambda>plan.
     bnd (save_plan plan) (\<lambda>_.
     bnd (lift_sum (traverse (\<lambda>spec. checked valid_TaskRecord
            (new_TaskRecord run_id (ps_plan_id plan) spec)) (ps_tasks plan))) (\<lambda>tasks.
     bnd (save_tasks tasks) (\<lambda>_.
     ret (plan, tasks)))))"

definition plan_run :: "service_env \<Rightarrow> RunRecord \<Rightarrow> string \<Rightarrow> RepositoryIndex \<Rightarrow> RunRecord io" where
  "plan_run env run0 objective index =
     bnd (publish (rr_run_id run0) ''run.created''
       (JObj [(''objective_hash'', JStr (sv_sha256 env objective)),
              (''snapshot_id'', JStr (rs_snapshot_id (ri_snapshot index)))]) None) (\<lambda>_.
     bnd (lift_sum (transition_run (rr_state run0) R_PLANNING)) (\<lambda>planning.
     bnd clock_now (\<lambda>t1.
     bnd (update_run (run0\<lparr>rr_state := planning, rr_updated_at := t1\<rparr>) (rr_version run0)) (\<lambda>run1.
     bnd (save_new_plan env (rr_run_id run1) objective) (\<lambda>(plan, tasks).
     start_planned env run1 plan tasks index)))))"

definition new_run_record ::
  "service_env \<Rightarrow> string \<Rightarrow> string \<Rightarrow> string \<Rightarrow> RepositoryIndex \<Rightarrow> string \<Rightarrow> time \<Rightarrow> RunRecord" where
  "new_run_record env owner_id objective repository index run_id now =
     \<lparr>rr_run_id = run_id, rr_owner_id = owner_id, rr_objective = objective, rr_state = R_CREATED,
      rr_active_plan_id = None, rr_active_task_id = None, rr_repository_root = Some repository,
      rr_repository_snapshot_id = Some (rs_snapshot_id (ri_snapshot index)),
      rr_configuration_fingerprint = st_fingerprint (sv_settings env), rr_version = 1,
      rr_created_at = now, rr_updated_at = now, rr_finished_at = None\<rparr>"

definition create_fresh ::
  "service_env \<Rightarrow> string \<Rightarrow> string \<Rightarrow> string \<Rightarrow> string \<Rightarrow> string \<Rightarrow> RunRecord io" where
  "create_fresh env objective owner_id idempotency_key repository request_hash =
     bnd (sv_index env repository) (\<lambda>index.
     bnd (save_repository_index index) (\<lambda>_.
     bnd clock_now (\<lambda>now.
     bnd (ids_new ''run'') (\<lambda>run_id.
     bnd (lift_sum (checked valid_RunRecord
       (new_run_record env owner_id objective repository index run_id now))) (\<lambda>run0.
     bnd (create_run (sv_sha256 env) run0 idempotency_key request_hash) (\<lambda>run.
     if rr_active_plan_id run \<noteq> None then ret run
     else plan_run env run objective index))))))"

definition service_create_run ::
  "service_env \<Rightarrow> string \<Rightarrow> string \<Rightarrow> string \<Rightarrow> string option \<Rightarrow> RunRecord io" where
  "service_create_run env objective0 owner_id idempotency_key repository_path =
     (let objective = py_strip objective0 in
      if objective = [] then raise (Durable DomainValidationError)
      else
        bnd (require_key idempotency_key) (\<lambda>_.
        bnd (lift_sum (check_repository env repository_path)) (\<lambda>repository.
        let request_hash = create_request_hash env owner_id objective repository in
        bnd (find_idempotent_run (sv_sha256 env) owner_id idempotency_key request_hash) (\<lambda>existing.
        case existing of Some run \<Rightarrow> ret run
        | None \<Rightarrow> create_fresh env objective owner_id idempotency_key repository request_hash))))"

section \<open>Advancing, pausing, resuming, cancelling\<close>

definition service_advance ::
  "service_env \<Rightarrow> nat \<Rightarrow> string \<Rightarrow> string \<Rightarrow> int option \<Rightarrow> RunAdvanceResult option io" where
  "service_advance env fuel run_id owner_id maximum_tasks =
     bnd (owned_run run_id owner_id) (\<lambda>_.
     bnd (new_worker_id owner_id) (\<lambda>worker_id.
     advance (sv_agent env) fuel run_id worker_id maximum_tasks))"

definition reason_hash :: "service_env \<Rightarrow> string \<Rightarrow> string \<Rightarrow> string" where
  "reason_hash env run_id reason =
     sv_sha256 env (canonical_json (JObj [(''run_id'', JStr run_id), (''reason'', JStr reason)]))"

definition file_request ::
  "service_env \<Rightarrow> LifecycleKind \<Rightarrow> string \<Rightarrow> string \<Rightarrow> string \<Rightarrow> string \<Rightarrow> LifecycleRequest io" where
  "file_request env kind run_id owner_id reason idempotency_key =
     bnd (ids_new (kind_name kind)) (\<lambda>request_id.
     bnd clock_now (\<lambda>now.
     bnd (lift_sum (checked valid_LifecycleRequest
       \<lparr>lq_request_id = request_id, lq_run_id = run_id, lq_kind = kind, lq_reason = reason,
        lq_requested_by = owner_id, lq_status = LS_PENDING, lq_created_at = now, lq_applied_at = None\<rparr>)) (\<lambda>q.
     create_lifecycle_request (sv_sha256 env) q (Some idempotency_key)
       (Some (reason_hash env run_id reason)))))"

definition mark_pausing :: "RunRecord \<Rightarrow> unit io" where
  "mark_pausing run =
     (if rr_state run = R_RUNNING then
        bnd (lift_sum (transition_run (rr_state run) R_PAUSE_REQUESTED)) (\<lambda>state.
        bnd clock_now (\<lambda>now.
        bnd (update_run (run\<lparr>rr_state := state, rr_updated_at := now\<rparr>) (rr_version run)) (\<lambda>_. ret ())))
      else ret ())"

definition service_pause ::
  "service_env \<Rightarrow> string \<Rightarrow> string \<Rightarrow> string \<Rightarrow> string \<Rightarrow> LifecycleRequest io" where
  "service_pause env run_id owner_id reason idempotency_key =
     bnd (owned_run run_id owner_id) (\<lambda>run.
     bnd (require_key idempotency_key) (\<lambda>_.
     bnd (find_idempotent_lifecycle_request (sv_sha256 env) owner_id run_id Pause idempotency_key
            (reason_hash env run_id reason)) (\<lambda>existing.
     case existing of Some q \<Rightarrow> ret q
     | None \<Rightarrow>
         if rr_state run \<notin> {R_RUNNING, R_PAUSE_REQUESTED} then raise (Durable DomainValidationError)
         else
           bnd (file_request env Pause run_id owner_id reason idempotency_key) (\<lambda>request.
           bnd (mark_pausing run) (\<lambda>_.
           bnd (publish run_id ''pause.requested''
             (JObj [(''request_id'', JStr (lq_request_id request)), (''reason'', JStr reason)]) None) (\<lambda>_.
           ret request))))))"

definition service_cancel ::
  "service_env \<Rightarrow> string \<Rightarrow> string \<Rightarrow> string \<Rightarrow> string \<Rightarrow> LifecycleRequest io" where
  "service_cancel env run_id owner_id reason idempotency_key =
     bnd (owned_run run_id owner_id) (\<lambda>run.
     bnd (require_key idempotency_key) (\<lambda>_.
     bnd (find_idempotent_lifecycle_request (sv_sha256 env) owner_id run_id Cancel idempotency_key
            (reason_hash env run_id reason)) (\<lambda>existing.
     case existing of Some q \<Rightarrow> ret q
     | None \<Rightarrow>
         if rr_state run \<in> {R_COMPLETED, R_FAILED, R_CANCELLED} then raise (Durable DomainValidationError)
         else
           bnd (file_request env Cancel run_id owner_id reason idempotency_key) (\<lambda>request.
           bnd (publish run_id ''cancellation.requested''
             (JObj [(''request_id'', JStr (lq_request_id request)), (''reason'', JStr reason)]) None) (\<lambda>_.
           ret request)))))"

definition resume_hash :: "service_env \<Rightarrow> string \<Rightarrow> int option \<Rightarrow> string" where
  "resume_hash env run_id maximum_tasks =
     sv_sha256 env (canonical_json (JObj [(''run_id'', JStr run_id),
       (''maximum_tasks'', jopt JInt maximum_tasks)]))"

text \<open>Whether the resume with this key was asked for before.\<close>

definition is_replay :: "service_env \<Rightarrow> string \<Rightarrow> string \<Rightarrow> int option \<Rightarrow> string option \<Rightarrow> bool io" where
  "is_replay env run_id owner_id maximum_tasks key =
     (case key of None \<Rightarrow> ret False
      | Some idempotency_key \<Rightarrow>
          bnd (require_key idempotency_key) (\<lambda>_.
          bnd (claim_idempotent_action (sv_sha256 env) owner_id (''resume:'' @ run_id) idempotency_key
                 (resume_hash env run_id maximum_tasks) run_id) (\<lambda>fresh. ret (\<not> fresh))))"

definition resume_and_advance ::
  "service_env \<Rightarrow> nat \<Rightarrow> string \<Rightarrow> string \<Rightarrow> int option \<Rightarrow> RunAdvanceResult option io" where
  "resume_and_advance env fuel run_id worker_id maximum_tasks =
     bnd (resume (sv_recovery env) run_id worker_id) (\<lambda>_.
       advance (sv_agent env) fuel run_id worker_id maximum_tasks)"

definition service_resume ::
  "service_env \<Rightarrow> nat \<Rightarrow> string \<Rightarrow> string \<Rightarrow> int option \<Rightarrow> string option \<Rightarrow> RunAdvanceResult option io" where
  "service_resume env fuel run_id owner_id maximum_tasks key =
     bnd (owned_run run_id owner_id) (\<lambda>run.
     bnd (is_replay env run_id owner_id maximum_tasks key) (\<lambda>replay.
     if replay \<and> rr_state run \<notin> {R_PAUSED, R_RECOVERING} then unchanged_result run_id run
     else
       bnd (new_worker_id owner_id) (\<lambda>worker_id.
       catch (resume_and_advance env fuel run_id worker_id maximum_tasks)
         (\<lambda>e. if e = Durable ConcurrencyConflictError \<and> replay
           then bnd (owned_run run_id owner_id) (unchanged_result run_id)
           else raise e))))"

section \<open>Reading and verifying\<close>

definition status :: "string \<Rightarrow> string \<Rightarrow> RunRecord io" where
  "status run_id owner_id = owned_run run_id owner_id"

definition latest_checkpoint :: "service_env \<Rightarrow> string \<Rightarrow> string \<Rightarrow> CheckpointEnvelope io" where
  "latest_checkpoint env run_id owner_id =
     bnd (owned_run run_id owner_id) (\<lambda>_. recover_latest (ae_codec (sv_agent env)) run_id)"

text \<open>\<open>uri.removeprefix("artifact://") or artifact_id\<close>.\<close>

definition artifact_key :: "ArtifactRecord \<Rightarrow> string" where
  "artifact_key a =
     (let prefix = ''artifact://''; uri = ar_uri a;
          key = (if starts_with prefix uri then drop (length prefix) uri else uri) in
      if key = [] then ar_artifact_id a else key)"

definition verify_artifact :: "service_env \<Rightarrow> string list \<Rightarrow> ArtifactRecord \<Rightarrow> string list io" where
  "verify_artifact env messages a =
     bnd (sv_artifact_get env (artifact_key a) (ar_content_hash a)) (\<lambda>_.
     ret (messages @ [''verified artifact '' @ ar_artifact_id a @ '' hash '' @ ar_content_hash a]))"

definition verify_report :: "service_env \<Rightarrow> string \<Rightarrow> string list \<Rightarrow> string \<Rightarrow> string list io" where
  "verify_report env run_id messages format =
     catch
       (bnd (get_report (sv_sha256 env) run_id format) (\<lambda>(_, digest, partial).
        ret (messages @ [''verified '' @ format @ '' report hash '' @ digest @ '' (partial='' @
          (if partial then ''True'' else ''False'') @ '')''])))
       (\<lambda>e. if e = Durable NotFoundError
         then ret (messages @ [''no '' @ format @ '' report exists yet'']) else raise e)"

definition service_verify :: "service_env \<Rightarrow> string \<Rightarrow> string \<Rightarrow> string list io" where
  "service_verify env run_id owner_id =
     bnd (owned_run run_id owner_id) (\<lambda>_.
     bnd (verify_run run_id) (\<lambda>messages.
     bnd (get_artifacts run_id) (\<lambda>artifacts.
     bnd (foldA (verify_artifact env) messages artifacts) (\<lambda>messages'.
     foldA (verify_report env run_id) messages' [''markdown'', ''json'']))))"

text \<open>\<open>bytes.decode\<close>: bytes that no text encodes to raise; \<open>UnicodeDecodeError\<close> is a \<open>ValueError\<close>.\<close>

definition decode_text :: "string \<Rightarrow> exn + string" where
  "decode_text content =
     (if utf8 (utf8_decode content) = content then Inr (utf8_decode content) else Inl ValueError)"

definition service_report :: "service_env \<Rightarrow> string \<Rightarrow> string \<Rightarrow> string \<Rightarrow> string io" where
  "service_report env run_id owner_id format =
     bnd (owned_run run_id owner_id) (\<lambda>_.
     if format \<notin> {''markdown'', ''json''} then raise (Durable DomainValidationError)
     else bnd (get_report (sv_sha256 env) run_id format) (\<lambda>(content, _, _). lift_sum (decode_text content)))"

section \<open>Retention\<close>

definition days :: "int \<Rightarrow> time" where
  "days n = seconds (n * 86400)"

definition cleanup_retention :: "service_env \<Rightarrow> bool \<Rightarrow> RetentionCleanupResult io" where
  "cleanup_retention env dry_run =
     bnd clock_now (\<lambda>t1.
     bnd clock_now (\<lambda>t2.
     let event_cutoff = t1 - days (st_event_retention_days (sv_settings env));
         artifact_cutoff = t2 - days (st_artifact_retention_days (sv_settings env)) in
     bnd list_all_artifact_ids (\<lambda>known.
     bnd (sv_prune_orphans env known artifact_cutoff dry_run) (\<lambda>orphans.
     bnd (compact_terminal_events (sv_sha256 env) event_cutoff dry_run) (\<lambda>(eligible, compacted).
     ret \<lparr>cu_dry_run = dry_run, cu_event_cutoff = event_cutoff, cu_artifact_cutoff = artifact_cutoff,
          cu_eligible_event_count = eligible,
          cu_deleted_event_count = (if dry_run then 0 else eligible),
          cu_compacted_run_ids = compacted, cu_orphan_artifact_ids = orphans,
          cu_deleted_orphan_count = (if dry_run then 0 else length orphans)\<rparr>)))))"

end
