(* ===== verification/Service_Safety.thy ===== *)
theory Service_Safety
  imports Service Recovery_Safety Orchestrator_Progress
begin

text \<open>
  What the application service promises to its clients: sessions keep the stored histories, a run is
  only served to its owner, and a creation key names one run for ever.
\<close>

section \<open>Requests\<close>

text \<open>The use cases as values, and a session that serves them one after the other.\<close>

datatype service_request =
    Index string
  | Create string string string "string option"
  | Advance string string "int option"
  | Pause_Run string string string string
  | Resume_Run string string "int option" "string option"
  | Cancel_Run string string string string
  | Status string string
  | Latest_Checkpoint string string
  | Verify string string
  | Report string string string
  | Cleanup bool

fun serve :: "service_env \<Rightarrow> nat \<Rightarrow> service_request \<Rightarrow> unit io" where
  "serve env fuel (Index path) = bnd (index_repository env path) (\<lambda>_. ret ())"
| "serve env fuel (Create objective owner key path) =
     bnd (service_create_run env objective owner key path) (\<lambda>_. ret ())"
| "serve env fuel (Advance run_id owner m) = bnd (service_advance env fuel run_id owner m) (\<lambda>_. ret ())"
| "serve env fuel (Pause_Run run_id owner reason key) =
     bnd (service_pause env run_id owner reason key) (\<lambda>_. ret ())"
| "serve env fuel (Resume_Run run_id owner m key) =
     bnd (service_resume env fuel run_id owner m key) (\<lambda>_. ret ())"
| "serve env fuel (Cancel_Run run_id owner reason key) =
     bnd (service_cancel env run_id owner reason key) (\<lambda>_. ret ())"
| "serve env fuel (Status run_id owner) = bnd (status run_id owner) (\<lambda>_. ret ())"
| "serve env fuel (Latest_Checkpoint run_id owner) = bnd (latest_checkpoint env run_id owner) (\<lambda>_. ret ())"
| "serve env fuel (Verify run_id owner) = bnd (service_verify env run_id owner) (\<lambda>_. ret ())"
| "serve env fuel (Report run_id owner format) = bnd (service_report env run_id owner format) (\<lambda>_. ret ())"
| "serve env fuel (Cleanup dry_run) = bnd (cleanup_retention env dry_run) (\<lambda>_. ret ())"

definition session :: "service_env \<Rightarrow> nat \<Rightarrow> service_request list \<Rightarrow> world \<Rightarrow> world" where
  "session env fuel qs w = foldl (\<lambda>w q. snd (serve env fuel q w)) w qs"

definition durable_service :: "service_env \<Rightarrow> bool" where
  "durable_service env \<longleftrightarrow> durable_worker (sv_agent env) \<and> durable_recovery (sv_recovery env) \<and>
     (\<forall>i objective w. outcome durable (\<lambda>_ _. True) w (sv_plan env i objective)) \<and>
     (\<forall>path w. outcome durable (\<lambda>_ _. True) w (sv_index env path)) \<and>
     (\<forall>key hash w. outcome durable (\<lambda>_ _. True) w (sv_artifact_get env key hash)) \<and>
     (\<forall>known cutoff dry w. outcome durable (\<lambda>_ _. True) w (sv_prune_orphans env known cutoff dry))"

section \<open>Every use case is durable\<close>

lemma out_owned_run:
  assumes "good w"
  shows "outcome durable (\<lambda>r w'. seen_run r w') w (owned_run run_id owner)"
  unfolding owned_run_def using assms
  by (intro get_run_then) (auto intro!: dur.out_raise dur.out_ret)

lemma owned_run_then:
  assumes "good w" and "\<And>r w'. good w' \<Longrightarrow> seen_run r w' \<Longrightarrow> outcome durable Q w' (k r)"
  shows "outcome durable Q w (bnd (owned_run run_id owner) k)"
  using assms by (intro out_bnd_g[OF _ out_owned_run])

lemma out_new_worker_id: "outcome durable (\<lambda>_ _. True) w (new_worker_id owner)"
  unfolding new_worker_id_def by (intro dur.out_bnd[OF out_ids] dur.out_ret) simp

lemma out_require_key: "outcome durable (\<lambda>_ _. True) w (require_key key)"
  by (auto simp: require_key_def intro!: dur.out_raise dur.out_ret)

lemma out_tx_g:
  assumes "good w" and "\<And>d d' x. f d = Inr (x, d') \<Longrightarrow> evolves d d' \<and> (\<forall>w'. w_db w' = d' \<longrightarrow> Q x w')"
  shows "outcome durable Q w (tx f)"
  by (rule outcome_weaken[OF out_tx[of w f Q]]) (use assms in auto)

lemma out_query_g:
  assumes "good w" and "\<And>d x w'. f d = Inr x \<Longrightarrow> w_db w' = d \<Longrightarrow> Q x w'"
  shows "outcome durable Q w (query f)"
  unfolding query_def by (rule out_tx_g[OF assms(1)]) (auto split: sum.splits intro: assms(2))

lemma add_key_runs [simp]: "db_runs (add_key k d) = db_runs d"
  by (simp add: add_key_def)

text \<open>The key that names a created run.\<close>

definition registered :: "(string \<Rightarrow> string) \<Rightarrow> string \<Rightarrow> string \<Rightarrow> string \<Rightarrow> string \<Rightarrow> database \<Rightarrow> bool" where
  "registered sha256 owner key request_hash run_id d \<longleftrightarrow>
     (\<exists>k. get_key (idempotency_pk sha256 owner ''create_run'' key) d = Some k \<and>
        ik_request_hash k = request_hash \<and> ik_resource_id k = run_id)"

lemma get_key_evolves:
  assumes "get_key pk d = Some k" and "evolves d d'" and "wf_db d"
  shows "get_key pk d' = Some k"
proof -
  have "k \<in> set (db_idempotency_keys d')" "wf_db d'"
    using get_key_SomeD[OF assms(1)] assms(2,3) by (auto simp: evolves_def tables_step_def keeps_rows_def)
  then show ?thesis using get_key_in[of d' k] get_key_SomeD[OF assms(1)] by simp
qed

lemma registered_evolves:
  "registered sha owner key h i d \<Longrightarrow> evolves d d' \<Longrightarrow> wf_db d \<Longrightarrow> registered sha owner key h i d'"
  unfolding registered_def using get_key_evolves by blast

lemma get_added_key:
  "get_key (ik_idempotency_pk k) d = None \<Longrightarrow> db_idempotency_keys d' = db_idempotency_keys d \<Longrightarrow>
   get_key (ik_idempotency_pk k) (add_key k d') = Some k"
  by (simp add: get_key_def add_key_def tbl_get_append) (simp add: tbl_get_def)

lemma out_create_run_seen:
  assumes "good w"
  shows "outcome durable (\<lambda>r w'. seen_run r w' \<and>
    registered sha256 (rr_owner_id run) key hash (rr_run_id r) (w_db w')) w (create_run sha256 run key hash)"
  unfolding create_run_def Let_def
proof (rule clock_then[OF assms], rule out_on_db_error, goal_cases)
  case (1 now w')
  let ?k = "new_key sha256 (rr_owner_id run) ''create_run'' key hash (rr_run_id run) now"
  have pk: "ik_idempotency_pk ?k = idempotency_pk sha256 (rr_owner_id run) ''create_run'' key"
    "ik_request_hash ?k = hash" "ik_resource_id ?k = rr_run_id run"
    by (simp_all add: new_key_def)
  have new: "registered sha256 (rr_owner_id run) key hash (rr_run_id run) (add_key ?k (d\<lparr>db_runs := rs\<rparr>))"
    if "get_key (idempotency_pk sha256 (rr_owner_id run) ''create_run'' key) d = None" for d rs
    using get_added_key[of ?k d "d\<lparr>db_runs := rs\<rparr>"] that pk by (auto simp: registered_def)
  show ?case
    by (rule out_tx_g[OF 1(1)])
      (auto split: option.splits if_splits sum.splits dest!: get_run_row_SomeD
        intro: evolves_trans[OF evolves_add_run evolves_add_key] seen_runI new simp: registered_def[of _ _ _ "ik_request_hash _"])
next
  case (2 now w' w'')
  show ?case
    by (rule out_query_g[OF durable_good[OF 2(3,1)]])
      (auto split: option.splits if_splits dest!: get_run_row_SomeD intro: seen_runI simp: registered_def)
qed

lemma out_save_new_plan:
  assumes "durable_service env"
  shows "outcome durable (\<lambda>_ _. True) w (save_new_plan env i objective)"
proof -
  have plan: "outcome durable (\<lambda>_ _. True) w (sv_plan env i objective)" for w
    using assms by (simp add: durable_service_def)
  show ?thesis
    unfolding save_new_plan_def
    by (intro dur.out_bnd[OF plan] dur.out_bnd[OF out_save_plan] dur.out_bnd[OF out_save_tasks]
        dur.out_bnd_lift dur.out_ret) simp
qed

lemma out_start_planned:
  assumes "good w" and "seen_run run w"
  shows "outcome durable (\<lambda>r _. rr_run_id r = rr_run_id run) w (start_planned env run plan tasks index)"
  unfolding start_planned_def
proof (rule dur.out_bnd_lift, rule clock_then[OF assms(1)], rule update_run_then, assumption)
  fix state now and w' :: world
  assume w': "good w'" "w_db w' = w_db w" and tr: "transition_run (rr_state run) R_RUNNING = Inr state"
  show "seen_run run w'" using seen_same_db(1)[OF assms(2) w'(2)] .
  show "run_successor run (run\<lparr>rr_state := state, rr_active_plan_id := Some (ps_plan_id plan), rr_updated_at := now\<rparr>)"
    using transition_run_reaches[OF tr] by (simp add: run_successor_def)
qed (intro dur.out_bnd[OF out_write_checkpoint] dur.out_bnd[OF out_publish] dur.out_ret, simp)

lemma out_plan_run:
  assumes "good w" and "seen_run run w" and env: "durable_service env"
  shows "outcome durable (\<lambda>r _. rr_run_id r = rr_run_id run) w (plan_run env run objective index)"
  unfolding plan_run_def
proof (rule out_next[OF assms(1) out_publish], rule dur.out_bnd_lift, rule clock_then, assumption,
    rule update_run_then, assumption)
  fix state now and w1 w2 :: world
  assume w1: "durable w w1" "good w1" "w_db w2 = w_db w1"
    and tr: "transition_run (rr_state run) R_PLANNING = Inr state"
  show "seen_run run w2" using seen_same_db(1)[OF seen_run_mono[OF assms(2) w1(1) assms(1)] w1(3)] .
  show "run_successor run (run\<lparr>rr_state := state, rr_updated_at := now\<rparr>)"
    using transition_run_reaches[OF tr] by (simp add: run_successor_def)
next
  fix run1 and w1 :: world assume w1: "good w1" "seen_run run1 w1" "rr_run_id run1 = rr_run_id run"
  have "outcome durable (\<lambda>r _. rr_run_id r = rr_run_id run) w'
      (case x of (plan, tasks) \<Rightarrow> start_planned env run1 plan tasks index)"
    if "durable w1 w'" "good w'" for x w'
    using out_start_planned[OF that(2) seen_run_mono[OF w1(2) that(1) w1(1)]] w1(3) by (simp split: prod.split)
  then show "outcome durable (\<lambda>r _. rr_run_id r = rr_run_id run) w1
      (bnd (save_new_plan env (rr_run_id run1) objective) (\<lambda>(plan, tasks). start_planned env run1 plan tasks index))"
    by (intro out_next[OF w1(1) out_save_new_plan[OF env]])
qed

text \<open>A creation that returns has a key, and the key names the run it returns.\<close>

definition creation_hash :: "service_env \<Rightarrow> string \<Rightarrow> string \<Rightarrow> string option \<Rightarrow> string option" where
  "creation_hash env objective owner path = (case check_repository env path of Inl e \<Rightarrow> None
     | Inr repository \<Rightarrow> Some (create_request_hash env owner (py_strip objective) repository))"

definition names_run :: "service_env \<Rightarrow> string \<Rightarrow> string \<Rightarrow> string option \<Rightarrow> string \<Rightarrow> database \<Rightarrow> bool" where
  "names_run env owner key hash run_id d \<longleftrightarrow>
     (\<exists>h. hash = Some h \<and> registered (sv_sha256 env) owner key h run_id d)"

lemma plan_or_return:
  assumes "good w" and "seen_run run w" and "durable_service env"
    and "registered sha owner key h (rr_run_id run) (w_db w)"
  shows "outcome durable (\<lambda>r w'. registered sha owner key h (rr_run_id r) (w_db w')) w
    (if rr_active_plan_id run \<noteq> None then ret run else plan_run env run goal index)"
proof (cases "rr_active_plan_id run = None")
  case True
  have "outcome durable (\<lambda>r w'. registered sha owner key h (rr_run_id r) (w_db w')) w (plan_run env run goal index)"
    by (rule outcome_from, rule outcome_weaken[OF out_plan_run[OF assms(1-3)]])
      (use registered_evolves[OF assms(4)] durable_evolves assms(1) good_wf in auto)
  then show ?thesis using True by simp
qed (use assms(4) in \<open>simp add: dur.out_ret\<close>)

lemma out_find_registered:
  "outcome durable (\<lambda>x w'. \<forall>r. x = Some r \<longrightarrow> registered sha owner key h (rr_run_id r) (w_db w')) w
     (find_idempotent_run sha owner key h)"
proof (rule outcomeI)
  fix x w' assume run: "find_idempotent_run sha owner key h w = (x, w')"
  have "registered sha owner key h (rr_run_id r) (w_db w')" if "x = Inr (Some r)" for r
    using query_InrD[OF run[unfolded find_idempotent_run_def that]]
    by (auto simp: registered_def split: option.splits if_splits sum.splits dest!: get_run_row_SomeD)
  then show "durable w w' \<and> (\<forall>v. x = Inr v \<longrightarrow>
      (\<forall>r. v = Some r \<longrightarrow> registered sha owner key h (rr_run_id r) (w_db w')))"
    using outcomeD[OF out_find_idempotent_run run] by auto
qed

lemma out_create_fresh:
  assumes "good w" and "durable_service env"
  shows "outcome durable (\<lambda>r w'. registered (sv_sha256 env) owner key h (rr_run_id r) (w_db w')) w
    (create_fresh env objective owner key repository h)"
proof -
  have index: "outcome durable (\<lambda>_ _. True) w (sv_index env p)" for w p
    using assms(2) by (simp add: durable_service_def)
  have owner: "rr_owner_id (new_run_record env owner objective repository index i t) = owner" for index i t
    by (simp add: new_run_record_def)
  show ?thesis
    unfolding create_fresh_def using assms owner
    by (auto intro!: out_next[OF assms(1) index] out_next[OF _ out_save_repository_index] out_next[OF _ out_clock]
        out_next[OF _ out_ids] dur.out_bnd_lift out_bnd_g[OF _ out_create_run_seen] plan_or_return
        simp del: not_None_eq)
qed

lemma create_run_names:
  assumes "good w" and "durable_service env"
  shows "outcome durable (\<lambda>r w'. names_run env owner key (creation_hash env objective owner path) (rr_run_id r) (w_db w'))
    w (service_create_run env objective owner key path)"
proof (cases "py_strip objective = []")
  case False
  let ?hash = "create_request_hash env owner (py_strip objective)"
  have found: "outcome durable (\<lambda>r w'. registered (sv_sha256 env) owner key h (rr_run_id r) (w_db w')) w'
      (bnd (find_idempotent_run (sv_sha256 env) owner key h) (\<lambda>existing. case existing of Some run \<Rightarrow> ret run
         | None \<Rightarrow> create_fresh env (py_strip objective) owner key repository h))"
    if "good w'" for w' repository h
    using assms(2) by (auto intro!: out_bnd_g[OF that out_find_registered] dur.out_ret out_create_fresh
        split: option.split)
  have "outcome durable (\<lambda>r w'. names_run env owner key (creation_hash env objective owner path) (rr_run_id r) (w_db w'))
    w (bnd (require_key key) (\<lambda>_. bnd (lift_sum (check_repository env path)) (\<lambda>repository.
       bnd (find_idempotent_run (sv_sha256 env) owner key (?hash repository)) (\<lambda>existing.
         case existing of Some run \<Rightarrow> ret run
         | None \<Rightarrow> create_fresh env (py_strip objective) owner key repository (?hash repository)))))"
    by (rule out_next[OF assms(1) out_require_key], rule dur.out_bnd_lift)
      (simp add: found names_run_def creation_hash_def)
  then show ?thesis using False by (simp add: service_create_run_def Let_def)
qed (simp add: service_create_run_def Let_def dur.out_raise)

lemma out_service_create_run:
  "good w \<Longrightarrow> durable_service env \<Longrightarrow>
   outcome durable (\<lambda>_ _. True) w (service_create_run env objective owner key path)"
  by (rule outcome_true[OF create_run_names])

lemma out_file_request: "outcome durable (\<lambda>_ _. True) w (file_request env kind i owner reason key)"
  unfolding file_request_def
  by (intro dur.out_bnd[OF out_ids] dur.out_bnd[OF out_clock] dur.out_bnd_lift out_create_lifecycle_request)

lemma out_mark_pausing:
  assumes "good w" and "seen_run run w"
  shows "outcome durable (\<lambda>_ _. True) w (mark_pausing run)"
proof (cases "rr_state run = R_RUNNING")
  case True
  have "outcome durable (\<lambda>_ _. True) w
    (bnd (lift_sum (transition_run (rr_state run) R_PAUSE_REQUESTED)) (\<lambda>state.
     bnd clock_now (\<lambda>now.
     bnd (update_run (run\<lparr>rr_state := state, rr_updated_at := now\<rparr>) (rr_version run)) (\<lambda>_. ret ()))))"
  proof (rule dur.out_bnd_lift, rule clock_then[OF assms(1)], rule update_run_then, assumption)
    fix state now and w' :: world
    assume w': "w_db w' = w_db w" and tr: "transition_run (rr_state run) R_PAUSE_REQUESTED = Inr state"
    show "seen_run run w'" using seen_same_db(1)[OF assms(2) w'] .
    show "run_successor run (run\<lparr>rr_state := state, rr_updated_at := now\<rparr>)"
      using transition_run_reaches[OF tr] by (simp add: run_successor_def)
  qed (intro dur.out_ret, simp)
  then show ?thesis using True by (simp add: mark_pausing_def)
qed (simp add: mark_pausing_def dur.out_ret)

lemma out_service_pause:
  assumes "good w"
  shows "outcome durable (\<lambda>_ _. True) w (service_pause env i owner reason key)"
  unfolding service_pause_def
proof (rule owned_run_then[OF assms], goal_cases)
  case (1 run w1)
  have later: "outcome durable (\<lambda>_ _. True) w2 (bnd (file_request env Pause i owner reason key) (\<lambda>request.
      bnd (mark_pausing run) (\<lambda>_.
      bnd (publish i ''pause.requested'' (p request) None) (\<lambda>_. ret request))))"
    if "durable w1 w2" "good w2" for w2 p
    using that(2) seen_run_mono[OF 1(2) durable_trans[OF that(1)] 1(1)]
    by (intro out_next[OF _ out_file_request] out_next[OF _ out_mark_pausing] dur.out_bnd[OF out_publish]
        dur.out_ret) auto
  show ?case
    using 1(1) by (auto intro!: out_next[OF _ out_require_key] dur.out_raise dur.out_ret later
        out_next[OF _ out_find_idempotent_lifecycle_request] split: option.split intro: durable_trans)
qed

lemma out_service_cancel:
  assumes "good w"
  shows "outcome durable (\<lambda>_ _. True) w (service_cancel env i owner reason key)"
  unfolding service_cancel_def using assms
  by (auto intro!: owned_run_then dur.out_bnd[OF out_require_key] dur.out_raise dur.out_ret
      dur.out_bnd[OF out_find_idempotent_lifecycle_request] dur.out_bnd[OF out_file_request]
      dur.out_bnd[OF out_publish] split: option.split)

lemma out_unchanged: "outcome durable (\<lambda>_ _. True) w (unchanged_result i run)"
  unfolding unchanged_result_def by (intro dur.out_bnd[OF outcome_true[OF out_get_tasks]] dur.out_ret) simp

lemma out_is_replay: "outcome durable (\<lambda>_ _. True) w (is_replay env i owner m key)"
  unfolding is_replay_def
  by (auto intro!: dur.out_ret dur.out_bnd[OF out_require_key] dur.out_bnd[OF out_claim_idempotent_action]
      split: option.split)

lemma out_service_advance:
  assumes "good w" and "durable_service env"
  shows "outcome durable (\<lambda>_ _. True) w (service_advance env fuel i owner m)"
  unfolding service_advance_def using assms
  by (auto intro!: owned_run_then out_next[OF _ out_new_worker_id] out_advance simp: durable_service_def)

lemma out_service_resume:
  assumes "good w" and "durable_service env"
  shows "outcome durable (\<lambda>_ _. True) w (service_resume env fuel i owner m key)"
proof -
  have env: "durable_worker (sv_agent env)" "durable_recovery (sv_recovery env)"
    using assms(2) by (simp_all add: durable_service_def)
  have both: "outcome durable (\<lambda>_ _. True) w (resume_and_advance env fuel i worker m)" if "good w" for w worker
    unfolding resume_and_advance_def using that
    by (intro out_next[OF _ outcome_true[OF resume_g[OF _ env(2)]]] out_advance env)
  have retry: "outcome durable (\<lambda>_ _. True) w' (catch (resume_and_advance env fuel i worker m)
      (\<lambda>e. if e = Durable ConcurrencyConflictError \<and> replay then bnd (owned_run i owner) (unchanged_result i)
        else raise e))" if "good w'" for w' worker replay
  proof (rule dur.out_catch[OF both[OF that]])
    fix e w'' assume "durable w' w''"
    then have "good w''" using durable_good that by blast
    then show "outcome durable (\<lambda>_ _. True) w'' (if e = Durable ConcurrencyConflictError \<and> replay
        then bnd (owned_run i owner) (unchanged_result i) else raise e)"
      by (auto intro!: owned_run_then out_unchanged dur.out_raise)
  qed
  show ?thesis
    unfolding service_resume_def using assms(1)
    by (auto intro!: owned_run_then out_next[OF _ out_is_replay] out_unchanged
        out_next[OF _ out_new_worker_id] retry)
qed

lemma out_verify_artifact:
  assumes "durable_service env"
  shows "outcome durable (\<lambda>_ _. True) w (verify_artifact env messages a)"
proof -
  have "outcome durable (\<lambda>_ _. True) w (sv_artifact_get env k h)" for w k h
    using assms by (simp add: durable_service_def)
  then show ?thesis unfolding verify_artifact_def by (intro dur.out_bnd dur.out_ret) auto
qed

lemma out_verify_report: "outcome durable (\<lambda>_ _. True) w (verify_report env i messages format)"
proof -
  have report: "outcome durable (\<lambda>_ _. True) w (get_report sha i f)" for sha f w
    unfolding get_report_def by (rule out_query)
  show ?thesis
    unfolding verify_report_def
    by (intro dur.out_catch dur.out_bnd[OF report]) (auto intro!: dur.out_ret dur.out_raise)
qed

lemma out_service_reads:
  assumes "good w" and "durable_service env"
  shows "outcome durable (\<lambda>_ _. True) w (status i owner)"
    "outcome durable (\<lambda>_ _. True) w (latest_checkpoint env i owner)"
    "outcome durable (\<lambda>_ _. True) w (service_verify env i owner)"
    "outcome durable (\<lambda>_ _. True) w (service_report env i owner format)"
    "outcome durable (\<lambda>_ _. True) w (index_repository env path)"
    "outcome durable (\<lambda>_ _. True) w (cleanup_retention env dry)"
proof -
  have artifacts: "outcome durable (\<lambda>_ _. True) w (get_artifacts i)" for w i
    unfolding get_artifacts_def by (rule out_query)
  have report: "outcome durable (\<lambda>_ _. True) w (get_report sha i f)" for w sha i f
    unfolding get_report_def by (rule out_query)
  have known: "outcome durable (\<lambda>_ _. True) w list_all_artifact_ids" for w
    unfolding list_all_artifact_ids_def by (rule out_query)
  have env: "outcome durable (\<lambda>_ _. True) w (sv_index env p)"
    "outcome durable (\<lambda>_ _. True) w (sv_prune_orphans env ids t dry)" for w p ids t
    using assms(2) by (simp_all add: durable_service_def)
  show "outcome durable (\<lambda>_ _. True) w (status i owner)"
    unfolding status_def by (rule outcome_true[OF out_owned_run[OF assms(1)]])
  show "outcome durable (\<lambda>_ _. True) w (latest_checkpoint env i owner)"
    unfolding latest_checkpoint_def by (intro owned_run_then assms(1) out_recover_latest)
  have loops: "outcome durable (\<lambda>_ _. True) w (foldA (verify_artifact env) m as)"
    "outcome durable (\<lambda>_ _. True) w (foldA (verify_report env i) m fs)" for w m as fs
    by (rule dur.out_foldA[where I = "\<lambda>_ _. True"];
        simp add: out_verify_artifact[OF assms(2)] out_verify_report)+
  show "outcome durable (\<lambda>_ _. True) w (service_verify env i owner)"
    unfolding service_verify_def
    by (intro owned_run_then assms(1) dur.out_bnd[OF out_verify_run] dur.out_bnd[OF artifacts]
        dur.out_bnd[OF loops(1)] loops(2))
  show "outcome durable (\<lambda>_ _. True) w (service_report env i owner format)"
    unfolding service_report_def
    by (intro owned_run_then assms(1)) (auto intro!: dur.out_raise dur.out_bnd[OF report] dur.out_lift)
  show "outcome durable (\<lambda>_ _. True) w (index_repository env path)"
    unfolding index_repository_def
    by (intro dur.out_bnd[OF env(1)] dur.out_bnd[OF out_save_repository_index] dur.out_ret) simp
  show "outcome durable (\<lambda>_ _. True) w (cleanup_retention env dry)"
    unfolding cleanup_retention_def Let_def
    by (intro dur.out_bnd[OF out_clock] dur.out_bnd[OF known] dur.out_bnd[OF env(2)]
        dur.out_bnd[OF out_compact_terminal_events]) (auto intro!: dur.out_ret)
qed

lemma out_serve:
  assumes "good w" and "durable_service env"
  shows "outcome durable (\<lambda>_ _. True) w (serve env fuel q)"
  by (cases q) (auto intro!: dur.out_ret dur.out_bnd[OF out_service_reads(1)[OF assms]]
      dur.out_bnd[OF out_service_reads(2)[OF assms]] dur.out_bnd[OF out_service_reads(3)[OF assms]]
      dur.out_bnd[OF out_service_reads(4)[OF assms]] dur.out_bnd[OF out_service_reads(5)[OF assms]]
      dur.out_bnd[OF out_service_reads(6)[OF assms]] dur.out_bnd[OF out_service_create_run[OF assms]]
      dur.out_bnd[OF out_service_advance[OF assms]] dur.out_bnd[OF out_service_resume[OF assms]]
      dur.out_bnd[OF out_service_pause[OF assms(1)]] dur.out_bnd[OF out_service_cancel[OF assms(1)]])

lemma session_durable:
  assumes "good w" and "durable_service env"
  shows "durable w (session env fuel qs w)"
  using assms(1) unfolding session_def
proof (induction qs arbitrary: w)
  case (Cons q qs)
  have d: "durable w (snd (serve env fuel q w))"
    using outcomeD[OF out_serve[OF Cons.prems assms(2)]] by (cases "serve env fuel q w") auto
  then show ?case using Cons.IH[OF durable_good[OF d Cons.prems]] by (auto intro: durable_trans)
qed simp

text \<open>
  Whatever sequence of requests a process serves, whoever sends them, and however each of them
  ends, the stored histories are kept between any two points of the session: states only move along
  the lifecycle tables, terminal states and finished attempts are final, plans, results, evidence,
  claims, reports, errors and audit events stay, and all unique constraints hold.
\<close>

lemma service_keeps_histories:
  assumes "good w" and "durable_service env"
  shows "wf_db (w_db (session env fuel (qs @ rs) w)) \<and>
    histories_kept (w_db (session env fuel qs w)) (w_db (session env fuel (qs @ rs) w))"
proof -
  have "good (session env fuel qs w)" using durable_good[OF session_durable[OF assms] assms(1)] .
  moreover have "session env fuel (qs @ rs) w = session env fuel rs (session env fuel qs w)"
    by (simp add: session_def)
  ultimately show ?thesis
    using durable_histories[OF session_durable[OF _ assms(2)]] by metis
qed

section \<open>Creation keys\<close>

lemma bnd_returns: "bnd m f w = (Inr y, w') \<Longrightarrow> \<exists>x w1. m w = (Inr x, w1) \<and> f x w1 = (Inr y, w')"
  by (auto simp: bnd_def split: prod.splits sum.splits)

lemma query_InrD_db: "query f w = (Inr x, w') \<Longrightarrow> w_db w' = w_rely w (w_txn w) (w_db w)"
  unfolding query_def by (drule tx_InrD) (auto split: sum.splits)

lemma query_reads: "query f w = (Inr x, w') \<Longrightarrow> f (w_rely w (w_txn w) (w_db w)) = Inr x"
  unfolding query_def by (drule tx_InrD) (auto split: sum.splits)

text \<open>A creation under a key in use, when it returns.\<close>

lemma replayed_creation:
  assumes "registered (sv_sha256 env) owner key h i d" and "wf_db d" and "good w" and "evolves d (w_db w)"
    and "service_create_run env objective owner key path w = (Inr r, w')"
  shows "rr_run_id r = i \<and> creation_hash env objective owner path = Some h \<and>
    w_db w' = w_rely w (w_txn w) (w_db w)"
proof -
  let ?pk = "idempotency_pk (sv_sha256 env) owner ''create_run'' key"
  obtain repository x w1 where repo: "check_repository env path = Inr repository"
    and find: "find_idempotent_run (sv_sha256 env) owner key
      (create_request_hash env owner (py_strip objective) repository) w = (Inr x, w1)"
    and last: "(case x of Some run \<Rightarrow> ret run | None \<Rightarrow> create_fresh env (py_strip objective) owner key repository
      (create_request_hash env owner (py_strip objective) repository)) w1 = (Inr r, w')"
    using assms(5) by (auto simp: service_create_run_def Let_def raise_def lift_sum_def ret_def require_key_def
        dest!: bnd_returns split: if_splits)
  have db: "w_db w1 = w_rely w (w_txn w) (w_db w)"
    using query_InrD_db[OF find[unfolded find_idempotent_run_def]] .
  have "registered (sv_sha256 env) owner key h i (w_db w1)"
    unfolding db using assms(3) by (intro registered_evolves[OF registered_evolves[OF assms(1,4,2)]])
      (auto simp: good_def)
  then have "x = Some r \<and> rr_run_id r = i \<and> h = create_request_hash env owner (py_strip objective) repository \<and> w' = w1"
    using query_InrD[OF find[unfolded find_idempotent_run_def]] last
    by (auto simp: registered_def ret_def split: option.splits if_splits sum.splits dest!: get_run_row_SomeD)
  then show ?thesis using repo db by (simp add: creation_hash_def)
qed

text \<open>
  C26. Creating a run is idempotent: after a creation that returned, and whatever the database went
  through since, a creation by the same owner with the same key that returns gives the same run and
  writes nothing, and it can only return for a request with the same digest. So no retry, in this
  process or another, creates a second run, and a key is never reused for a different request.
\<close>

theorem create_run_idempotent:
  assumes "good w" and "durable_service env"
    and "service_create_run env objective owner key path w = (Inr run, w1)"
    and "good w2" and "evolves (w_db w1) (w_db w2)"
    and "service_create_run env objective' owner key path' w2 = (Inr run', w3)"
  shows "rr_run_id run' = rr_run_id run \<and> w_db w3 = w_rely w2 (w_txn w2) (w_db w2) \<and>
    creation_hash env objective' owner path' = creation_hash env objective owner path"
proof -
  obtain h where h: "creation_hash env objective owner path = Some h"
    "registered (sv_sha256 env) owner key h (rr_run_id run) (w_db w1)"
    using outcomeD_val[OF create_run_names[OF assms(1,2)] assms(3)] by (auto simp: names_run_def)
  have "wf_db (w_db w1)"
    using outcomeD[OF create_run_names[OF assms(1,2)] assms(3)] durable_good assms(1) good_wf by blast
  from replayed_creation[OF h(2) this assms(4,5,6)] show ?thesis using h(1) by simp
qed

section \<open>Ownership\<close>

text \<open>The run a request is about and the owner it claims.\<close>

fun claimed_run :: "service_request \<Rightarrow> (string \<times> string) option" where
  "claimed_run (Advance i owner m) = Some (i, owner)"
| "claimed_run (Pause_Run i owner reason key) = Some (i, owner)"
| "claimed_run (Resume_Run i owner m key) = Some (i, owner)"
| "claimed_run (Cancel_Run i owner reason key) = Some (i, owner)"
| "claimed_run (Status i owner) = Some (i, owner)"
| "claimed_run (Latest_Checkpoint i owner) = Some (i, owner)"
| "claimed_run (Verify i owner) = Some (i, owner)"
| "claimed_run (Report i owner format) = Some (i, owner)"
| "claimed_run q = None"

text \<open>The world after one read: only what other processes committed has changed.\<close>

definition after_read :: "world \<Rightarrow> world" where
  "after_read w = (if crashed w then w
     else w\<lparr>w_txn := Suc (w_txn w), w_db := w_rely w (w_txn w) (w_db w)\<rparr>)"

lemma query_after: "query f w = (fst (query f w), after_read w)"
  by (auto simp: query_def tx_def after_read_def Let_def split: sum.splits)

lemma owned_run_refused:
  assumes "good w" and "run \<in> set (db_runs (w_db w))" and "owner \<noteq> rr_owner_id run"
  shows "\<exists>e. owned_run (rr_run_id run) owner w = (Inl e, after_read w) \<and>
    (quiet w \<and> valid_RunRecord run \<longrightarrow> e = Durable SecurityPolicyError)"
proof -
  let ?d = "w_rely w (w_txn w) (w_db w)" and ?q = "get_run (rr_run_id run) w"
  have ev: "evolves (w_db w) ?d" "wf_db (w_db w)" using assms(1) by (simp_all add: good_def)
  obtain row where row: "row \<in> set (db_runs ?d)" "run_step run row"
    using seen_run_evolves[OF assms(2) step_refl(1) ev(2,1)] by blast
  have "get_run_row (rr_run_id run) ?d = Some row"
    using get_run_row_in[of ?d row] row run_step_id[OF row(2)] ev by (simp add: evolves_def)
  then have owner: "rr_owner_id r = rr_owner_id run" if "?q = (Inr r, w')" for r w'
    using query_reads[OF that[unfolded get_run_def]] row(2) by (auto simp: run_step_def)
  have after: "?q = (fst ?q, after_read w)" unfolding get_run_def by (rule query_after)
  have quiet: "?q = (Inr run, after_read w)" if "quiet w" "valid_RunRecord run"
  proof -
    have "get_run_row (rr_run_id run) (w_db w) = Some run" using get_run_row_in ev(2) assms(2) by blast
    then have "fst ?q = Inr run" using that
      by (simp add: get_run_def query_def tx_def quiet_def crashed_def run_from_row_eq checked_def)
    then show ?thesis using after by simp
  qed
  show ?thesis
  proof (cases "fst ?q")
    case (Inl e)
    then have "owned_run (rr_run_id run) owner w = (Inl e, after_read w)"
      using after by (metis (no_types, lifting) bnd_def owned_run_def old.prod.case old.sum.simps(5))
    moreover have "\<not> (quiet w \<and> valid_RunRecord run)" using quiet Inl by auto
    ultimately show ?thesis by blast
  next
    case (Inr r)
    then have "?q = (Inr r, after_read w)" using after by simp
    then show ?thesis using owner assms(3) by (auto simp: owned_run_def bnd_def raise_def)
  qed
qed

lemma refused_bnd: "m w = (Inl e, w') \<Longrightarrow> bnd m f w = (Inl e, w')"
  by (simp add: bnd_def)

text \<open>
  A run is served to its owner only: every request about a run of somebody else fails before it
  does anything. No row, no identifier and no effect comes from it, it does not even read on, and
  without faults the error is the security policy's.
\<close>

lemma other_owner_refused:
  assumes "good w" and "run \<in> set (db_runs (w_db w))" and "claimed_run q = Some (rr_run_id run, owner)"
    and "owner \<noteq> rr_owner_id run"
  shows "\<exists>e. serve env fuel q w = (Inl e, after_read w) \<and>
    (quiet w \<and> valid_RunRecord run \<longrightarrow> e = Durable SecurityPolicyError)"
proof -
  obtain e where e: "owned_run (rr_run_id run) owner w = (Inl e, after_read w)"
    "quiet w \<and> valid_RunRecord run \<longrightarrow> e = Durable SecurityPolicyError"
    using owned_run_refused[OF assms(1,2,4)] by blast
  have "serve env fuel q w = (Inl e, after_read w)"
    using assms(3) by (cases q) (auto simp: service_advance_def service_pause_def service_resume_def
        service_cancel_def status_def latest_checkpoint_def service_verify_def service_report_def
        intro!: refused_bnd e(1))
  then show ?thesis using e(2) by blast
qed

section \<open>An example service\<close>

definition example_index :: RepositoryIndex where
  "example_index = \<lparr>ri_snapshot = \<lparr>rs_snapshot_id = ''snap'', rs_root = ''/'', rs_manifest_hash = replicate 64 (CHR ''0''),
       rs_file_count = 0, rs_total_bytes = 0, rs_files = [], rs_created_at = 0\<rparr>,
     ri_chunks = [], ri_summaries = [], ri_repository_map = [], ri_module_dependencies = [], ri_warnings = []\<rparr>"

definition example_service :: service_env where
  "example_service = \<lparr>sv_agent = example_agent, sv_recovery = resume_env,
     sv_plan = (\<lambda>i goal. ret (example_plan\<lparr>ps_run_id := i, ps_tasks := [example_task ''a'' []]\<rparr>)),
     sv_index = (\<lambda>path. ret example_index), sv_resolve = Inr, sv_is_dir = (\<lambda>path. True),
     sv_artifact_get = (\<lambda>key hash. ret ()), sv_prune_orphans = (\<lambda>known cutoff dry. ret [])\<rparr>"

lemma resume_env_durable: "durable_recovery resume_env"
  by (simp add: durable_recovery_def resume_env_def well_behaved_def dur.out_raise dur.out_ret)

lemma example_service_durable: "durable_service example_service"
  by (simp add: durable_service_def example_service_def example_worker resume_env_durable dur.out_ret)

lemma example_service_sel [calm_simps]:
  "sv_agent example_service = example_agent" "sv_plan example_service i g =
     ret (example_plan\<lparr>ps_run_id := i, ps_tasks := [example_task ''a'' []]\<rparr>)"
  "sv_index example_service path = ret example_index" "sv_resolve example_service = Inr"
  "sv_is_dir example_service p = True"
  by (simp_all add: example_service_def)

lemma example_agent_sel [calm_simps]:
  "ae_settings example_agent = example_settings" "ae_codec example_agent = resume_codec"
  "ae_sha256 example_agent = (\<lambda>s. s)" "st_repository_root example_settings = ''/''"
  by (simp_all add: example_agent_def example_settings_def)

lemma example_strip [calm_simps]:
  "py_strip ''k'' = ''k''" "py_strip '' goal '' = ''goal''" "py_strip ''goal'' = ''goal''"
  by code_simp+

lemma example_dependencies [calm_simps]: "ts_dependencies (example_task ''a'' []) = []"
  by code_simp

lemma example_repository [calm_simps]:
  "check_repository example_service None = Inr ''/''" "check_repository example_service (Some ''/'') = Inr ''/''"
  by (simp_all add: check_repository_def calm_simps)

lemma example_index_sel [calm_simps]:
  "ri_snapshot example_index = \<lparr>rs_snapshot_id = ''snap'', rs_root = ''/'',
     rs_manifest_hash = replicate 64 (CHR ''0''), rs_file_count = 0, rs_total_bytes = 0, rs_files = [],
     rs_created_at = 0\<rparr>"
  "ri_chunks example_index = []"
  by (simp_all add: example_index_def)

lemmas run_create = service_create_run_def[THEN fun_cong] require_key_def[THEN fun_cong]
  find_idempotent_run_def[THEN fun_cong] create_fresh_def[THEN fun_cong]
  save_repository_index_def[THEN fun_cong] create_run_def[THEN fun_cong] plan_run_def[THEN fun_cong]
  save_new_plan_def[THEN fun_cong] save_plan_def[THEN fun_cong] save_tasks_def[THEN fun_cong]
  start_planned_def[THEN fun_cong]

lemmas run_creation = get_key_def new_key_def key_free_def new_run_record_def add_key_def empty_db_def
  tbl_get_append task_dependencies_def

lemma creation_runs:
  "yields (\<lambda>x. rr_run_id (fst x) = rr_run_id (snd x))
     (bnd (service_create_run example_service '' goal '' ''o'' ''k'' None) (\<lambda>r.
      bnd (service_create_run example_service ''goal'' ''o'' ''k'' (Some ''/'')) (\<lambda>r'. ret (r, r')))
      (calm 0 0 0 empty_db))"
  by (simp add: run_create run_creation run_resume run_rows run_checkpoints calm_simps cong: calm_cong option.case_cong)

lemma wf_empty_db: "wf_db empty_db"
  by (simp add: wf_db_def empty_db_def)

theorem create_run_idempotent_witness:
  "\<exists>run w1 run' w3. service_create_run example_service '' goal '' ''o'' ''k'' None (calm 0 0 0 empty_db) = (Inr run, w1) \<and>
     service_create_run example_service ''goal'' ''o'' ''k'' (Some ''/'') w1 = (Inr run', w3) \<and>
     rr_run_id run' = rr_run_id run"
proof -
  obtain x w3 where "bnd (service_create_run example_service '' goal '' ''o'' ''k'' None) (\<lambda>r.
      bnd (service_create_run example_service ''goal'' ''o'' ''k'' (Some ''/'')) (\<lambda>r'. ret (r, r')))
      (calm 0 0 0 empty_db) = (Inr x, w3)"
    using yieldsD[OF creation_runs] by (elim exE conjE)
  then obtain run w1 run' w2
    where first: "service_create_run example_service '' goal '' ''o'' ''k'' None (calm 0 0 0 empty_db) = (Inr run, w1)"
      and again: "service_create_run example_service ''goal'' ''o'' ''k'' (Some ''/'') w1 = (Inr run', w2)"
    by (auto dest!: bnd_returns)
  have "good w1"
    using outcomeD[OF out_service_create_run[OF good_calm[OF wf_empty_db] example_service_durable] first]
      durable_good good_calm[OF wf_empty_db] by blast
  from create_run_idempotent[OF good_calm[OF wf_empty_db] example_service_durable first this evolves_refl again]
  show ?thesis using first again by blast
qed

lemma other_owner_refused_witness:
  "serve example_service 9 (Cancel_Run ''r'' ''mallory'' ''stop'' ''k'') (calm 0 0 0 resume_db) =
     (Inl (Durable SecurityPolicyError), calm 1 0 0 resume_db)"
proof -
  obtain r where r: "r \<in> set (db_runs resume_db)" "rr_run_id r = ''r''" "rr_owner_id r = ''o''" "valid_RunRecord r"
    by (simp add: calm_simps valid_RunRecord_def no_nul_def no_nul_opt_def len_between_def)
  have "after_read (calm 0 0 0 resume_db) = calm 1 0 0 resume_db"
    by (simp add: after_read_def calm_def crashed_def)
  then show ?thesis
    using other_owner_refused[OF good_calm[OF wf_resume_db, of 0 0 0], of r
      "Cancel_Run ''r'' ''mallory'' ''stop'' ''k''" "''mallory''" example_service 9] r by auto
qed

end
