(* ===== verification/Review_Attempts.thy ===== *)
theory Review_Attempts
  imports Recovery_Safety Orchestrator_Progress
begin

text \<open>
  A task under the policy \<open>MANUAL_REVIEW\<close> and its bound on attempts. The advance loop counts an
  attempt when it starts one, a failure under this policy waits for review whatever the count, and
  recovery makes a waiting task ready again: the row then breaks the schema it is read with.
\<close>

section \<open>A run that can not be read\<close>

definition active_plan :: "string \<Rightarrow> database \<Rightarrow> string option" where
  "active_plan run_id d = Option.bind (get_run_row run_id d) rr_active_plan_id"

definition overrun :: "string \<Rightarrow> string \<Rightarrow> database \<Rightarrow> bool" where
  "overrun run_id p d \<longleftrightarrow> active_plan run_id d = Some p \<and>
     (\<exists>t \<in> set (db_tasks d). tm_run_id t = run_id \<and> tm_plan_id t = p \<and>
        ts_maximum_attempts (tm_spec t) < tm_attempt_count t)"

lemma traverse_checked_Inl:
  assumes "x \<in> set xs" and "f x = Inl e" and "\<And>y e'. f y = Inl e' \<Longrightarrow> e' = e"
  shows "traverse f xs = Inl e"
  using assms(1)
proof (induction xs)
  case (Cons y ys)
  show ?case
  proof (cases "f y")
    case (Inl e')
    then show ?thesis using assms(3) by simp
  next
    case (Inr z)
    then have "x \<noteq> y" using assms(2) by force
    then show ?thesis using Cons Inr by simp
  qed
qed simp

lemma task_from_row_Inl [dest]: "task_from_row r = Inl e \<Longrightarrow> e = PydanticValidationError"
  by (simp add: task_from_row_def checked_def split: if_splits)

lemma overrun_row: "ts_maximum_attempts (tm_spec t) < tm_attempt_count t \<Longrightarrow>
    task_from_row t = Inl PydanticValidationError"
  by (simp add: task_from_row_def checked_def valid_TaskRecord_def attempts_within_bound_def)

lemma get_tasks_overrun:
  assumes "quiet w" and "overrun run_id p (w_db w)"
  shows "fst (get_tasks run_id None w) = Inl PydanticValidationError"
proof -
  obtain r t where r: "get_run_row run_id (w_db w) = Some r" "rr_active_plan_id r = Some p"
    and t: "t \<in> set (db_tasks (w_db w))" "tm_run_id t = run_id" "tm_plan_id t = p"
      "ts_maximum_attempts (tm_spec t) < tm_attempt_count t"
    using assms(2) by (auto simp: overrun_def active_plan_def bind_eq_Some_conv)
  have "traverse task_from_row (sort_key tm_task_id
      (filter (\<lambda>t. tm_run_id t = run_id \<and> tm_plan_id t = p) (db_tasks (w_db w)))) = Inl PydanticValidationError"
    using t overrun_row[OF t(4)] by (intro traverse_checked_Inl[of t]) auto
  then show ?thesis using r by (simp add: get_tasks_def query_quiet[OF assms(1)] requested_plan_def)
qed

section \<open>Advancing it\<close>

text \<open>\<open>dead run_id p m\<close>: on such a run, in a world without interference, \<open>m\<close> ends with an exception.\<close>

definition dead :: "string \<Rightarrow> string \<Rightarrow> 'a io \<Rightarrow> bool" where
  "dead run_id p m \<longleftrightarrow>
     (\<forall>w. quiet w \<and> overrun run_id p (w_db w) \<longrightarrow> (\<exists>e. fst (m w) = Inl e))"

abbreviation plan_rows :: "database \<Rightarrow> RunRecord list \<times> TaskORM list" where
  "plan_rows d \<equiv> (db_runs d, db_tasks d)"

lemma overrun_rows: "plan_rows d = plan_rows d' \<Longrightarrow> overrun run_id p d = overrun run_id p d'"
  by (simp add: overrun_def active_plan_def get_run_row_def)

lemma dead_raise: "dead run_id p (raise e)"
  by (simp add: dead_def raise_def)

lemma dead_get_tasks: "dead run_id p (bnd (get_tasks run_id None) f)"
  using get_tasks_overrun by (force simp: dead_def bnd_def split: prod.splits sum.splits)

lemma dead_bnd:
  assumes "\<And>w. outcome (frame plan_rows) (\<lambda>_ _. True) w m" and "\<And>x. dead run_id p (f x)"
  shows "dead run_id p (bnd m f)"
  unfolding dead_def
proof (intro allI impI, elim conjE)
  fix w assume w: "quiet w" "overrun run_id p (w_db w)"
  obtain x w1 where run: "m w = (x, w1)" by force
  have "frame plan_rows w w1" using outcomeD[OF assms(1) run] .
  then have "quiet w1" "overrun run_id p (w_db w1)"
    using w overrun_rows[of "w_db w1" "w_db w"] by (simp_all add: frame_def)
  then show "\<exists>e. fst (bnd m f w) = Inl e"
    using assms(2) run by (cases x) (auto simp: bnd_def dead_def)
qed

lemma dead_if: "dead run_id p m \<Longrightarrow> dead run_id p m' \<Longrightarrow> dead run_id p (if b then m else m')"
  by simp

lemma frame_acquire: "outcome (frame plan_rows) (\<lambda>_ _. True) w (acquire_lease run owner ttl)"
  unfolding acquire_lease_def on_integrity_error_def
  by (intro fr.out_bnd[OF frame_clock] fr.out_catch frame_tx)
    (auto simp: acquire_body_def Let_def intro: fr.out_raise split: option.splits if_splits sum.splits)

lemma frame_reads:
  "outcome (frame sel) (\<lambda>_ _. True) w (get_run run_id)"
  "outcome (frame sel) (\<lambda>_ _. True) w (get_plan run_id None)"
  "outcome (frame sel) (\<lambda>_ _. True) w (pending_lifecycle_request run_id)"
  unfolding get_run_def get_plan_def pending_lifecycle_request_def by (rule frame_query)+

lemma frame_release: "outcome (frame plan_rows) (\<lambda>_ _. True) w (release_lease l)"
  unfolding release_lease_def by (rule frame_tx) (auto split: if_splits)

lemma dead_advance: "dead run_id p (advance env fuel run_id worker maximum)"
proof -
  have owned: "dead run_id p (advance_owned env fuel run_id maximum run l)" for run l
    unfolding advance_owned_def by (intro dead_bnd frame_reads dead_get_tasks)
  have unchanged: "dead run_id p (bnd (release_lease l) (\<lambda>_. unchanged_result run_id run))" for run l
    unfolding unchanged_result_def by (intro dead_bnd frame_release dead_get_tasks)
  show ?thesis
    unfolding advance_def by (intro dead_if dead_bnd dead_raise frame_acquire frame_reads owned unchanged)
qed

section \<open>How a run gets there\<close>

definition counted :: "TaskRecord \<Rightarrow> world \<Rightarrow> bool" where
  "counted c w \<longleftrightarrow> (\<exists>t. tr_spec t = tr_spec c \<and> tr_run_id t = tr_run_id c \<and> tr_plan_id t = tr_plan_id c \<and>
     tr_attempt_count t = tr_attempt_count c + 1 \<and> seen_task (task_to_row t) w)"

lemma counted_mono: "counted c w \<Longrightarrow> durable w w' \<Longrightarrow> good w \<Longrightarrow> counted c w'"
  unfolding counted_def using seen_task_mono by blast

lemma start_task_counted:
  assumes "good w" and "seen_task (task_to_row c) w"
  shows "outcome durable (\<lambda>_ w'. counted c w') w (start_task run n acc c)"
proof -
  obtain ts ss where acc: "acc = (ts, ss)" by force
  show ?thesis
    unfolding start_task_def acc prod.case
  proof (intro dur.out_bnd_lift, rule clock_then[OF assms(1)])
    fix i state now w1
    assume tr: "transition_task (tr_state c) T_RUNNING = Inr state" and w1: "good w1" "w_db w1 = w_db w"
    let ?t = "c\<lparr>tr_state := state, tr_attempt_count := tr_attempt_count c + 1, tr_started_at := Some now\<rparr>"
    let ?rest = "\<lambda>task. bnd (start_task_attempt (rr_run_id run) (tr_task_id task) (tr_attempt_count task)) (\<lambda>attempt_id.
        bnd (publish (rr_run_id run) ''task.started''
           (JObj [(''attempt'', JInt (tr_attempt_count task)), (''batch_size'', JInt n)])
           (Some (tr_task_id task))) (\<lambda>_.
        ret (ts[i := task], ss @ [(i, task, attempt_id)])))"
    have update: "outcome durable (\<lambda>task w'. counted c w') w1 (update_task ?t (tr_version c))"
    proof (rule outcomeI)
      fix x w2 assume run: "update_task ?t (tr_version c) w1 = (x, w2)"
      note g = update_task_g(1)[OF w1(1) seen_same_db(2)[OF assms(2) w1(2)] task_move_successor(4)[OF tr, of "Some now"]]
      have "counted c w2" if "x = Inr task" for task
      proof -
        have "task = ?t\<lparr>tr_version := tr_version c + 1\<rparr>"
          using run that by (auto simp: update_task_def tx_def Let_def split: if_splits sum.splits prod.splits)
        then show ?thesis
          using outcomeD_val[OF g run[unfolded that]] unfolding counted_def
          by (intro exI[of _ task]) simp
      qed
      then show "durable w1 w2 \<and> (\<forall>v. x = Inr v \<longrightarrow> counted c w2)" using outcomeD[OF g run] by blast
    qed
    show "outcome durable (\<lambda>_ w'. counted c w') w1 (bnd (update_task ?t (tr_version c)) ?rest)"
    proof (rule out_bnd_g[OF w1(1) update])
      fix task w2 assume w2: "good w2" "counted c w2"
      then have keep: "durable w2 w' \<longrightarrow> counted c w'" for w' using counted_mono by blast
      show "outcome durable (\<lambda>_ w'. counted c w') w2 (?rest task)"
        by (rule outcome_from, intro dur.out_bnd[OF out_start_task_attempt] dur.out_bnd[OF out_publish] dur.out_ret)
          (rule keep)
    qed
  qed
qed

lemma counted_overrun:
  assumes "counted c w" and "good w" and "evolves (w_db w) d"
    and "tr_attempt_count c = ts_maximum_attempts (tr_spec c)"
    and "active_plan (tr_run_id c) d = Some (tr_plan_id c)"
  shows "overrun (tr_run_id c) (tr_plan_id c) d"
proof -
  obtain t where t: "tr_spec t = tr_spec c" "tr_run_id t = tr_run_id c" "tr_plan_id t = tr_plan_id c"
    "tr_attempt_count t = tr_attempt_count c + 1" "seen_task (task_to_row t) w"
    using assms(1) unfolding counted_def by blast
  obtain r where r: "r \<in> set (db_tasks d)" "task_step (task_to_row t) r"
    using t(5) seen_task_evolves[OF _ _ good_wf[OF assms(2)] assms(3)] unfolding seen_task_def by blast
  then have "tm_run_id r = tr_run_id c \<and> tm_plan_id r = tr_plan_id c \<and> tm_spec r = tr_spec c \<and>
      tr_attempt_count c < tm_attempt_count r"
    using t(1-4) by (auto simp: task_step_def task_to_row_def)
  then show ?thesis using r(1) assms(4,5) by (auto simp: overrun_def)
qed

text \<open>
  C35. The bound on attempts does not hold under \<open>MANUAL_REVIEW\<close>, and exceeding it blocks the run for
  good: whatever its attempt count, a task that fails waits for review, and recovery makes it ready
  again; starting a task that has used all its attempts commits a row above its bound; and from then
  on, whatever later commits do to the database, every \<open>advance\<close> of the run ends with an exception
  as long as that plan is its active plan.
\<close>

theorem review_overruns_attempts:
  assumes "good w" and "seen_task (task_to_row c) w"
    and "tr_attempt_count c = ts_maximum_attempts (tr_spec c)"
    and "start_task run n acc c w = (Inr acc', w')"
  shows "(\<forall>settings f. requires_review f \<longrightarrow> failure_target settings f = T_WAITING) \<and>
    (\<forall>t. tr_state t = T_WAITING \<longrightarrow> recovered_state t = T_READY) \<and>
    (\<forall>w2 env fuel worker maximum. quiet w2 \<and> evolves (w_db w') (w_db w2) \<and>
       active_plan (tr_run_id c) (w_db w2) = Some (tr_plan_id c) \<longrightarrow>
       (\<exists>e. fst (advance env fuel (tr_run_id c) worker maximum w2) = Inl e))"
proof -
  note start = start_task_counted[OF assms(1,2), of run n acc]
  have w': "counted c w'" "good w'"
    using outcomeD_val[OF start assms(4)] outcomeD[OF start assms(4)] assms(1) durable_good by blast+
  have "\<exists>e. fst (advance env fuel (tr_run_id c) worker maximum w2) = Inl e"
    if "quiet w2" "evolves (w_db w') (w_db w2)" "active_plan (tr_run_id c) (w_db w2) = Some (tr_plan_id c)"
    for w2 env fuel worker maximum
    using dead_advance counted_overrun[OF w' that(2) assms(3) that(3)] that(1) unfolding dead_def by blast
  then show ?thesis by (simp add: failure_target_def recovered_state_def)
qed

definition review_task :: TaskRecord where
  "review_task = resume_task\<lparr>tr_state := T_READY, tr_attempt_count := 3\<rparr>"

definition review_db :: database where
  "review_db = resume_db\<lparr>db_runs := map (\<lambda>r. r\<lparr>rr_active_plan_id := Some ''p''\<rparr>) (db_runs resume_db),
     db_tasks := [task_to_row review_task]\<rparr>"

lemma wf_review_db: "wf_db review_db"
  using wf_resume_db
  by (simp add: review_db_def wf_db_def calm_simps task_to_row_def review_task_def resume_task_def)

lemma review_sel [calm_simps]:
  "db_runs review_db = map (\<lambda>r. r\<lparr>rr_active_plan_id := Some ''p''\<rparr>) (db_runs resume_db)"
  "db_tasks review_db = [task_to_row review_task]" "db_task_attempts review_db = []" "db_events review_db = []"
  "tr_task_id review_task = ''a''" "tr_run_id review_task = ''r''" "tr_plan_id review_task = ''p''"
  "tr_state review_task = T_READY" "tr_version review_task = 1" "tr_attempt_count review_task = 3"
  "ts_maximum_attempts (tr_spec review_task) = 3"
  by (simp_all add: review_db_def review_task_def resume_task_def new_TaskRecord_def calm_simps)

definition review_start :: "(exn + TaskRecord list \<times> started list) \<times> world" where
  "review_start = start_task (hd (db_runs review_db)) 1 ([review_task], []) review_task (calm 0 0 0 review_db)"

lemma review_starts:
  "yields (\<lambda>_. True) review_start \<and>
   active_plan ''r'' (w_db (snd review_start)) = Some ''p'' \<and> quiet (snd review_start)"
  by (simp add: review_start_def start_task_def calm_simps run_rows
      update_task_def[THEN fun_cong] start_task_attempt_def[THEN fun_cong] on_integrity_error_def[THEN fun_cong]
      active_plan_def cong: calm_cong)

theorem review_overruns_attempts_witness:
  "\<exists>acc w'. review_start = (Inr acc, w') \<and>
     (\<exists>e. fst (advance example_agent 3 ''r'' ''worker'' None w') = Inl e)"
proof -
  obtain acc w' where run: "review_start = (Inr acc, w')" using review_starts yieldsD by blast
  have seen: "seen_task (task_to_row review_task) (calm 0 0 0 review_db)"
    by (rule seen_taskI) (simp add: calm_simps)
  have "\<exists>e. fst (advance example_agent 3 ''r'' ''worker'' None w') = Inl e"
    using review_overruns_attempts[OF good_calm[OF wf_review_db] seen _ run[unfolded review_start_def]]
      review_starts by (simp add: calm_simps run evolves_refl)
  then show ?thesis using run by blast
qed

end
