(* ===== verification/Event_Delivery.thy ===== *)
theory Event_Delivery
  imports Store_Events
begin

text \<open>
  The retry loop of \<open>publish\<close> (\<open>persistence/store.py\<close>) makes progress: exactly when one of its eight
  transactions goes through, the event is published.
\<close>

definition published :: "string \<Rightarrow> string \<Rightarrow> string \<Rightarrow> json \<Rightarrow> string option \<Rightarrow> EventORM \<Rightarrow> bool" where
  "published i r ty p k e \<longleftrightarrow> ev_event_id e = i \<longrightarrow>
     ev_run_id e = r \<and> ev_event_type e = ty \<and> ev_task_id e = k \<and> ev_payload e = p"

text \<open>The identifier belongs to this process: no other process stores an event under it.\<close>

definition own_event :: "string \<Rightarrow> world \<Rightarrow> bool" where
  "own_event i w \<longleftrightarrow>
     (\<forall>n d. \<forall>e \<in> set (db_events (w_rely w n d)). ev_event_id e = i \<longrightarrow> e \<in> set (db_events d))"

definition publishing :: "string \<Rightarrow> string \<Rightarrow> string \<Rightarrow> json \<Rightarrow> string option \<Rightarrow> world \<Rightarrow> bool" where
  "publishing i r ty p k w \<longleftrightarrow> good w \<and> w_crash w = None \<and> own_event i w \<and> run_exists r (w_db w) \<and>
     (\<forall>e \<in> set (db_events (w_db w)). published i r ty p k e)"

lemma run_exists_evolves: "run_exists r d \<Longrightarrow> wf_db d \<Longrightarrow> evolves d d' \<Longrightarrow> run_exists r d'"
proof -
  assume "run_exists r d" "wf_db d" "evolves d d'"
  then obtain x where x: "x \<in> set (db_runs d)" "rr_run_id x = r" and step: "tables_step d d'"
    by (auto simp: run_exists_def evolves_def)
  then obtain x' where "x' \<in> set (db_runs d')" "run_step x x'"
    using tables_step_runs[OF step] unfolding rows_step_def by blast
  moreover from this have "rr_run_id x' = r" using x by (auto simp: run_step_def)
  ultimately show ?thesis unfolding run_exists_def by blast
qed

lemma publish_body_total:
  assumes "run_exists r d" and "\<forall>e \<in> set (db_events d). published i r ty p k e"
  shows "\<exists>d'. publish_body i t r ty p k d = Inr (i, d') \<and> (\<forall>e \<in> set (db_events d'). published i r ty p k e)"
  using assms tbl_get_SomeD[of ev_event_id i "db_events d"]
  by (auto simp: publish_body_def get_event_def published_def split: option.splits)

lemma publishing_tx:
  assumes "publishing i r ty p k w" and "tx (publish_body i t r ty p k) w = (x, w')"
  shows "publishing i r ty p k w' \<and> w_fault w' = w_fault w \<and> w_txn w' = Suc (w_txn w) \<and>
    x = (if w_fault w (w_txn w) = NoFault then Inr i else Inl SQLAlchemyError)"
proof -
  let ?d = "w_rely w (w_txn w) (w_db w)"
  have w: "good w" "w_crash w = None" "own_event i w" "run_exists r (w_db w)"
    "\<forall>e \<in> set (db_events (w_db w)). published i r ty p k e"
    using assms(1) by (auto simp: publishing_def)
  have ev: "evolves (w_db w) ?d" using w(1) by (simp add: good_def)
  have d: "run_exists r ?d" "\<forall>e \<in> set (db_events ?d). published i r ty p k e"
    using run_exists_evolves[OF w(4) good_wf[OF w(1)] ev] w(3,5) by (fastforce simp: own_event_def published_def)+
  then obtain d' where body: "publish_body i t r ty p k ?d = Inr (i, d')"
    "\<forall>e \<in> set (db_events d'). published i r ty p k e" using publish_body_total by blast
  have d': "run_exists r d'"
    using d(1) body(1) by (auto simp: publish_body_def run_exists_def split: option.splits if_splits)
  have good: "good w'" using tx_good[OF w(1) _ assms(2)] evolves_publish by blast
  have run: "(x, w') = (if w_fault w (w_txn w) = Refused then (Inl SQLAlchemyError, w\<lparr>w_txn := Suc (w_txn w), w_db := ?d\<rparr>)
      else (if w_fault w (w_txn w) = CommitLost then Inl SQLAlchemyError else Inr i,
            w\<lparr>w_txn := Suc (w_txn w), w_db := d'\<rparr>))"
    using assms(2) by (cases "w_fault w (w_txn w)") (auto simp: tx_def crashed_def w(2) body(1) Let_def)
  then have "w_rely w' = w_rely w" "w_crash w' = None" and db: "w_db w' = ?d \<or> w_db w' = d'"
    and rest: "w_fault w' = w_fault w" "w_txn w' = Suc (w_txn w)"
    using w(2) by (auto split: if_splits)
  then have "publishing i r ty p k w'"
    using good d d' body(2) w(3) by (auto simp: publishing_def own_event_def)
  moreover have "x = (if w_fault w (w_txn w) = NoFault then Inr i else Inl SQLAlchemyError)"
    using run by (cases "w_fault w (w_txn w)") simp_all
  ultimately show ?thesis using rest by simp
qed

lemma publish_attempts_result:
  assumes "publishing i r ty p k w"
  shows "fst (publish_attempts n (publish_body i t r ty p k) w) =
    (if \<exists>j < n. w_fault w (w_txn w + j) = NoFault then Inr i else Inl (Durable ConcurrencyConflictError))"
  using assms
proof (induction n arbitrary: w)
  case 0
  then show ?case by (simp add: raise_def)
next
  case (Suc n)
  obtain x w' where tx: "tx (publish_body i t r ty p k) w = (x, w')" by force
  note step = publishing_tx[OF Suc.prems tx]
  have split: "(\<exists>j < Suc n. w_fault w (w_txn w + j) = NoFault) \<longleftrightarrow>
      w_fault w (w_txn w) = NoFault \<or> (\<exists>j < n. w_fault w' (w_txn w' + j) = NoFault)"
    using step by (auto simp: less_Suc_eq_0_disj)
  show ?case
    using step Suc.IH[of w'] by (cases "w_fault w (w_txn w) = NoFault") (auto simp: split tx catch_def)
qed

text \<open>
  C25. Publishing gets through whatever is not a lasting failure: with other processes at work, and
  under any transactions that are refused or whose commit is not acknowledged, \<open>publish\<close> returns
  the identifier of its event as soon as one of its eight transactions goes through, and gives up with a
  conflict exactly when none of them does.
\<close>

theorem publish_gets_through:
  assumes "good w" and "w_crash w = None" and "run_exists run_id (w_db w)"
    and "i = ''event-'' @ w_uuid w (w_ids w)" and "own_event i w"
    and "i \<notin> ev_event_id ` set (db_events (w_db w))"
  shows "fst (publish run_id event_type payload task_id w) =
    (if \<exists>k < 8. w_fault w (w_txn w + k) = NoFault then Inr i else Inl (Durable ConcurrencyConflictError))"
proof -
  let ?w = "w\<lparr>w_ids := Suc (w_ids w), w_reads := Suc (w_reads w)\<rparr>"
  have "publishing i run_id event_type payload task_id ?w"
    using assms by (force simp: publishing_def own_event_def published_def)
  from publish_attempts_result[OF this, of 8] show ?thesis
    by (simp add: publish_def bnd_def ids_new_def clock_now_def assms(4))
qed

text \<open>Seven refusals or lost commits in a row, with two kinds of fault taking turns.\<close>

definition stormy_world :: world where
  "stormy_world = (quiet_world lease_db)\<lparr>w_fault :=
     (\<lambda>n. if 7 \<le> n then NoFault else if even n then Refused else CommitLost)\<rparr>"

theorem publish_gets_through_witness:
  "fst (publish ''r'' ''run.created'' JNull None stormy_world) = Inr (''event-'' @ show_nat 0)"
proof -
  have db: "w_db stormy_world = lease_db" and env: "w_rely stormy_world = (\<lambda>n d. d)"
    "w_crash stormy_world = None" "''event-'' @ show_nat 0 = ''event-'' @ w_uuid stormy_world (w_ids stormy_world)"
    by (simp_all add: stormy_world_def quiet_world_def)
  have "\<exists>k < 8. w_fault stormy_world (w_txn stormy_world + k) = NoFault"
    by (rule exI[of _ 7]) (simp add: stormy_world_def quiet_world_def)
  moreover have "good stormy_world" by (simp add: good_def db env wf_lease_db)
  moreover have "own_event i stormy_world" for i by (simp add: own_event_def env)
  moreover have "run_exists ''r'' (w_db stormy_world)" "db_events (w_db stormy_world) = []"
    by (simp_all add: db lease_db_def empty_db_def run_exists_def)
  ultimately show ?thesis using publish_gets_through[OF _ env(2) _ env(3)] by simp
qed

end
