(* ===== verification/Memory_Journal.thy ===== *)
theory Memory_Journal
  imports Store_Tools Store_Leases Calm_World "HOL-Library.AList"
begin

text \<open>
  \<open>tools/journal.py\<close>: the \<open>ToolJournal\<close> protocol and its deterministic in-memory implementation. The
  SQL journal of \<open>Store_Tools\<close> refines it: whatever the SQL journal answers, the dictionaries answer
  too, up to the times the SQL journal also records.
\<close>

section \<open>The dictionaries\<close>

record journal =
  mj_calls :: "(string \<times> ToolCall) list"
  mj_results :: "string \<rightharpoonup> ToolResult"
  mj_keys :: "string \<rightharpoonup> string"

type_synonym 'a mem = "(journal, exn, 'a) act"

definition empty_journal :: journal where
  "empty_journal = \<lparr>mj_calls = [], mj_results = Map.empty, mj_keys = Map.empty\<rparr>"

text \<open>\<open>self.calls[call_id]\<close>, and the assignment to it.\<close>

definition mem_call :: "string \<Rightarrow> ToolCall mem" where
  "mem_call call_id = (\<lambda>j. case map_of (mj_calls j) call_id of
     None \<Rightarrow> (Inl KeyError, j) | Some call \<Rightarrow> (Inr call, j))"

definition mem_set_call :: "string \<Rightarrow> ToolCall \<Rightarrow> unit mem" where
  "mem_set_call call_id call = (\<lambda>j. (Inr (), j\<lparr>mj_calls := AList.update call_id call (mj_calls j)\<rparr>))"

definition mem_get_by_idempotency_key :: "string \<Rightarrow> (ToolCall \<times> ToolResult option) option mem" where
  "mem_get_by_idempotency_key key = (\<lambda>j. case mj_keys j key of
     None \<Rightarrow> (Inr None, j)
   | Some call_id \<Rightarrow> bnd (mem_call call_id) (\<lambda>call. ret (Some (call, mj_results j call_id))) j)"

definition mem_record_intent :: "ToolCall \<Rightarrow> unit mem" where
  "mem_record_intent call = (\<lambda>j.
     if mj_keys j (tc_idempotency_key call) \<noteq> None then (Inl ValueError, j)
     else bnd (mem_set_call (tc_tool_call_id call) call) (\<lambda>_ j. (Inr (),
       j\<lparr>mj_keys := (mj_keys j)(tc_idempotency_key call \<mapsto> tc_tool_call_id call)\<rparr>)) j)"

definition mem_update_status :: "string \<Rightarrow> ToolCallStatus \<Rightarrow> unit mem" where
  "mem_update_status call_id status =
     bnd (mem_call call_id) (\<lambda>call. mem_set_call call_id (call\<lparr>tc_status := status\<rparr>))"

definition mem_prepare_retry :: "string \<Rightarrow> unit mem" where
  "mem_prepare_retry call_id =
     bnd (mem_call call_id) (\<lambda>call j.
       if tc_status call \<noteq> TC_FAILED \<or> mj_results j call_id \<noteq> None then (Inl ValueError, j)
       else mem_set_call call_id (call\<lparr>tc_status := INTENT_RECORDED, tc_attempt := tc_attempt call + 1,
              tc_started_at := None, tc_finished_at := None\<rparr>) j)"

definition mem_record_result :: "ToolResult \<Rightarrow> unit mem" where
  "mem_record_result result = (\<lambda>j.
     mem_update_status (tl_tool_call_id result) (if tl_success result then TC_SUCCEEDED else TC_FAILED)
       (j\<lparr>mj_results := (mj_results j)(tl_tool_call_id result \<mapsto> result)\<rparr>))"

definition mem_uncertain_calls :: "string \<Rightarrow> ToolCall list mem" where
  "mem_uncertain_calls run_id = (\<lambda>j. (Inr
     (filter (\<lambda>c. tc_run_id c = run_id \<and> tc_status c \<in> {INTENT_RECORDED, TC_RUNNING, UNCERTAIN})
       (map snd (mj_calls j))), j))"

section \<open>The journal as a sequence of requests\<close>

datatype journal_request =
    Get_Key string
  | Record_Intent ToolCall
  | Update_Status string ToolCallStatus
  | Prepare_Retry string
  | Record_Result ToolResult
  | Uncertain_Calls string

datatype journal_answer = Nothing | Found "(ToolCall \<times> ToolResult option) option" | Calls "ToolCall list"

fun sql_journal :: "journal_request \<Rightarrow> journal_answer io" where
  "sql_journal (Get_Key key) = bnd (get_by_idempotency_key key) (\<lambda>x. ret (Found x))"
| "sql_journal (Record_Intent call) = bnd (record_intent call) (\<lambda>_. ret Nothing)"
| "sql_journal (Update_Status call_id s) = bnd (update_status call_id s) (\<lambda>_. ret Nothing)"
| "sql_journal (Prepare_Retry call_id) = bnd (prepare_retry call_id) (\<lambda>_. ret Nothing)"
| "sql_journal (Record_Result r) = bnd (record_result r) (\<lambda>_. ret Nothing)"
| "sql_journal (Uncertain_Calls run_id) = bnd (uncertain_calls run_id) (\<lambda>cs. ret (Calls cs))"

fun memory_journal :: "journal_request \<Rightarrow> journal_answer mem" where
  "memory_journal (Get_Key key) = bnd (mem_get_by_idempotency_key key) (\<lambda>x. ret (Found x))"
| "memory_journal (Record_Intent call) = bnd (mem_record_intent call) (\<lambda>_. ret Nothing)"
| "memory_journal (Update_Status call_id s) = bnd (mem_update_status call_id s) (\<lambda>_. ret Nothing)"
| "memory_journal (Prepare_Retry call_id) = bnd (mem_prepare_retry call_id) (\<lambda>_. ret Nothing)"
| "memory_journal (Record_Result r) = bnd (mem_record_result r) (\<lambda>_. ret Nothing)"
| "memory_journal (Uncertain_Calls run_id) = bnd (mem_uncertain_calls run_id) (\<lambda>cs. ret (Calls cs))"

section \<open>The abstraction\<close>

text \<open>A call without the times that only the SQL journal writes.\<close>

definition untimed :: "ToolCall \<Rightarrow> ToolCall" where
  "untimed c = c\<lparr>tc_started_at := None, tc_finished_at := None\<rparr>"

fun untimed_answer :: "journal_answer \<Rightarrow> journal_answer" where
  "untimed_answer Nothing = Nothing"
| "untimed_answer (Found x) = Found (map_option (map_prod untimed id) x)"
| "untimed_answer (Calls cs) = Calls (map untimed cs)"

text \<open>\<open>represents j d\<close>: the dictionaries \<open>j\<close> hold what the tables of \<open>d\<close> hold.\<close>

definition represents :: "journal \<Rightarrow> database \<Rightarrow> bool" where
  "represents j d \<longleftrightarrow>
     map (map_prod id untimed) (mj_calls j) = map (\<lambda>c. (tc_tool_call_id c, untimed c)) (db_tool_calls d) \<and>
     mj_results j = (\<lambda>i. result_of i d) \<and>
     mj_keys j = (\<lambda>k. map_option tc_tool_call_id (call_by_key k d))"

definition refines :: "('a \<Rightarrow> 'b \<Rightarrow> bool) \<Rightarrow> 'a io \<Rightarrow> 'b mem \<Rightarrow> bool" where
  "refines Q m n \<longleftrightarrow> (\<forall>w j x w'. wf_db (w_db w) \<and> w_rely w = (\<lambda>n d. d) \<and> represents j (w_db w) \<and>
     m w = (Inr x, w') \<longrightarrow>
       (\<exists>y j'. n j = (Inr y, j') \<and> Q x y \<and> represents j' (w_db w') \<and> wf_db (w_db w') \<and>
          w_rely w' = (\<lambda>n d. d)))"

lemma refinesI:
  assumes "\<And>w. outcome durable (\<lambda>_ _. True) w m"
    and "\<And>w j x w'. wf_db (w_db w) \<Longrightarrow> w_rely w = (\<lambda>n d. d) \<Longrightarrow> represents j (w_db w) \<Longrightarrow> m w = (Inr x, w') \<Longrightarrow>
      \<exists>y j'. n j = (Inr y, j') \<and> Q x y \<and> represents j' (w_db w')"
  shows "refines Q m n"
  unfolding refines_def
proof (intro allI impI, elim conjE)
  fix w j x w' assume w: "wf_db (w_db w)" "w_rely w = (\<lambda>n d. d)" "represents j (w_db w)" "m w = (Inr x, w')"
  then have good: "good w" by (simp add: good_def)
  have step: "durable w w'" using outcomeD[OF assms(1) w(4)] by blast
  have "wf_db (w_db w')" using good_wf[OF durable_good[OF step good]] .
  moreover have "w_rely w' = (\<lambda>n d. d)" using step w(2) by (simp add: durable_def same_env_def)
  ultimately
  show "\<exists>y j'. n j = (Inr y, j') \<and> Q x y \<and> represents j' (w_db w') \<and> wf_db (w_db w') \<and>
      w_rely w' = (\<lambda>n d. d)"
    using assms(2)[OF w] by blast
qed

lemma refines_map: "refines Q m n \<Longrightarrow> (\<And>x y. Q x y \<Longrightarrow> P (f x) (g y)) \<Longrightarrow>
  refines P (bnd m (\<lambda>x. ret (f x))) (bnd n (\<lambda>y. ret (g y)))"
  unfolding refines_def
proof (intro allI impI, elim conjE)
  fix w j z w' assume m: "\<forall>w j x w'. wf_db (w_db w) \<and> w_rely w = (\<lambda>n d. d) \<and> represents j (w_db w) \<and>
     m w = (Inr x, w') \<longrightarrow> (\<exists>y j'. n j = (Inr y, j') \<and> Q x y \<and> represents j' (w_db w') \<and> wf_db (w_db w') \<and>
          w_rely w' = (\<lambda>n d. d))" and PQ: "\<And>x y. Q x y \<Longrightarrow> P (f x) (g y)"
    and w: "wf_db (w_db w)" "w_rely w = (\<lambda>n d. d)" "represents j (w_db w)"
    and run: "bnd m (\<lambda>x. ret (f x)) w = (Inr z, w')"
  obtain x where x: "m w = (Inr x, w')" "z = f x"
    using run by (auto simp: bnd_def ret_def split: prod.splits sum.splits)
  with m w obtain y j' where "n j = (Inr y, j')" "Q x y" "represents j' (w_db w')" "wf_db (w_db w')"
    "w_rely w' = (\<lambda>n d. d)" by blast
  then show "\<exists>y j'. bnd n (\<lambda>y. ret (g y)) j = (Inr y, j') \<and> P z y \<and> represents j' (w_db w') \<and>
      wf_db (w_db w') \<and> w_rely w' = (\<lambda>n d. d)"
    using PQ x(2) by (simp add: bnd_def ret_def)
qed

text \<open>What a transaction that ran alone did, with its clock and its error handling around it.\<close>

lemma alone_tx: "tx f w = (Inr x, w') \<Longrightarrow> w_rely w = (\<lambda>n d. d) \<Longrightarrow> f (w_db w) = Inr (x, w_db w')"
  by (drule tx_InrD) simp

lemma alone_query: "query f w = (Inr x, w') \<Longrightarrow> w_rely w = (\<lambda>n d. d) \<Longrightarrow> f (w_db w) = Inr x \<and> w_db w' = w_db w"
  unfolding query_def by (drule alone_tx) (auto split: sum.splits)

lemma alone_handled:
  "on_integrity_error m (raise e) w = (Inr x, w') \<Longrightarrow> m w = (Inr x, w')"
  by (auto simp: on_integrity_error_def catch_def raise_def split: prod.splits sum.splits if_splits)

lemma alone_clock:
  "bnd clock_now f w = (Inr x, w') \<Longrightarrow>
   \<exists>now w1. f now w1 = (Inr x, w') \<and> w_db w1 = w_db w \<and> w_rely w1 = w_rely w"
  by (rule exI[of _ "w_clock w (w_reads w)"], rule exI[of _ "w\<lparr>w_reads := Suc (w_reads w)\<rparr>"])
    (simp add: bnd_def clock_now_def)

lemma alone_clock_tx:
  assumes "w_rely w = (\<lambda>n d. d)"
  shows "bnd clock_now (\<lambda>now. tx (f now)) w = (Inr x, w') \<Longrightarrow> \<exists>now. Inr (x, w_db w') = f now (w_db w)"
    "bnd clock_now (\<lambda>now. on_integrity_error (tx (f now)) (raise e)) w = (Inr x, w') \<Longrightarrow>
      \<exists>now. Inr (x, w_db w') = f now (w_db w)"
  using assms by (auto dest!: alone_clock alone_handled alone_tx) (metis+)

section \<open>Looking up and updating represented calls\<close>

lemma untimed_sel [simp]:
  "tc_tool_call_id (untimed c) = tc_tool_call_id c" "tc_run_id (untimed c) = tc_run_id c"
  "tc_status (untimed c) = tc_status c" "tc_attempt (untimed c) = tc_attempt c"
  by (simp_all add: untimed_def)

lemma untimed_eqD:
  assumes "untimed c = untimed r"
  shows "tc_tool_call_id c = tc_tool_call_id r" "tc_run_id c = tc_run_id r" "tc_status c = tc_status r"
    "tc_attempt c = tc_attempt r"
  by (fact arg_cong[OF assms, of tc_tool_call_id, unfolded untimed_sel]
      arg_cong[OF assms, of tc_run_id, unfolded untimed_sel]
      arg_cong[OF assms, of tc_status, unfolded untimed_sel]
      arg_cong[OF assms, of tc_attempt, unfolded untimed_sel])+

lemma represents_find:
  assumes "represents j d"
  shows "map_option untimed (map_of (mj_calls j) i) = map_option untimed (tbl_get tc_tool_call_id i (db_tool_calls d))"
proof -
  have al: "map_of (map (map_prod id untimed) al) i = map_option untimed (map_of al i)" for al
    by (induction al) auto
  have cs: "map_of (map (\<lambda>c. (tc_tool_call_id c, untimed c)) cs) i = map_option untimed (tbl_get tc_tool_call_id i cs)" for cs
    by (induction cs) (auto simp: tbl_get_def)
  have "map (map_prod id untimed) (mj_calls j) = map (\<lambda>c. (tc_tool_call_id c, untimed c)) (db_tool_calls d)"
    using assms by (simp add: represents_def)
  then show ?thesis using al[of "mj_calls j"] cs[of "db_tool_calls d"] by simp
qed

lemma represents_row:
  assumes "represents j d" and "wf_db d" and "r \<in> set (db_tool_calls d)"
  obtains c where "map_of (mj_calls j) (tc_tool_call_id r) = Some c" "untimed c = untimed r"
proof -
  have "tbl_get tc_tool_call_id (tc_tool_call_id r) (db_tool_calls d) = Some r"
    using assms(2,3) by (intro tbl_get_in) (simp_all add: wf_db_def)
  then show ?thesis using represents_find[OF assms(1), of "tc_tool_call_id r"] that by auto
qed

lemma represents_keys:
  assumes "represents j d"
  shows "map fst (mj_calls j) = map tc_tool_call_id (db_tool_calls d)"
proof -
  have "map (map_prod id untimed) (mj_calls j) = map (\<lambda>c. (tc_tool_call_id c, untimed c)) (db_tool_calls d)"
    using assms by (simp add: represents_def)
  from arg_cong[OF this, of "map fst"] show ?thesis by (simp add: comp_def)
qed

lemma update_present:
  "distinct (map fst al) \<Longrightarrow> i \<in> fst ` set al \<Longrightarrow>
   AList.update i c al = map (\<lambda>(k, x). if k = i then (k, c) else (k, x)) al"
proof (induction al)
  case (Cons kv al)
  have "map (\<lambda>(k, x). if k = i then (k, c) else (k, x)) al = al" if "i \<notin> fst ` set al"
    using that by (intro map_idI) (auto simp: image_iff)
  then show ?case using Cons by (cases kv) auto
qed simp

lemma update_absent: "i \<notin> fst ` set al \<Longrightarrow> AList.update i c al = al @ [(i, c)]"
  by (induction al) auto

lemma represents_update:
  assumes rep: "represents j d" and wf: "wf_db d" and row: "r \<in> set (db_tool_calls d)"
    and p: "\<And>q. q \<in> set (db_tool_calls d) \<Longrightarrow> p q \<longleftrightarrow> tc_tool_call_id q = tc_tool_call_id r"
    and c: "untimed c = untimed (f r)"
    and keys: "\<And>q. tc_tool_call_id (f q) = tc_tool_call_id q" "\<And>q. tc_idempotency_key (f q) = tc_idempotency_key q"
  shows "represents (j\<lparr>mj_calls := AList.update (tc_tool_call_id r) c (mj_calls j)\<rparr>)
    (d\<lparr>db_tool_calls := tbl_update p f (db_tool_calls d)\<rparr>)"
proof -
  let ?i = "tc_tool_call_id r"
  have dist: "distinct (map tc_tool_call_id (db_tool_calls d))" using wf by (simp add: wf_db_def)
  have only: "q = r" if "q \<in> set (db_tool_calls d)" "tc_tool_call_id q = ?i" for q
    using that row dist by (auto simp: distinct_map dest: inj_onD)
  have "AList.update ?i c (mj_calls j) = map (\<lambda>(k, x). if k = ?i then (k, c) else (k, x)) (mj_calls j)"
    using represents_keys[OF rep] dist row by (intro update_present) (simp, metis image_set imageI)
  then have "map (map_prod id untimed) (AList.update ?i c (mj_calls j)) =
      map (\<lambda>(k, x). if k = ?i then (k, untimed c) else (k, x)) (map (map_prod id untimed) (mj_calls j))"
    by (auto simp: comp_def)
  also have "\<dots> = map (\<lambda>q. (tc_tool_call_id q, untimed q)) (tbl_update p f (db_tool_calls d))"
    using rep only by (auto simp: represents_def tbl_update_def p c keys)
  finally have calls: "map (map_prod id untimed) (AList.update ?i c (mj_calls j)) =
      map (\<lambda>q. (tc_tool_call_id q, untimed q)) (tbl_update p f (db_tool_calls d))" .
  have "map_option tc_tool_call_id (tbl_get tc_idempotency_key k (tbl_update p f xs)) =
      map_option tc_tool_call_id (tbl_get tc_idempotency_key k xs)" for k xs
    by (induction xs) (auto simp: tbl_get_def keys)
  then show ?thesis using rep calls by (simp add: represents_def call_by_key_def result_of_def)
qed

section \<open>Each operation refines its dictionary version\<close>

lemma mem_call_row:
  assumes "represents j d" and "wf_db d" and "r \<in> set (db_tool_calls d)"
  obtains c where "mem_call (tc_tool_call_id r) j = (Inr c, j)" "untimed c = untimed r"
proof -
  obtain c where "map_of (mj_calls j) (tc_tool_call_id r) = Some c" "untimed c = untimed r"
    by (rule represents_row[OF assms])
  then show thesis by (intro that[of c]) (simp_all add: mem_call_def)
qed

lemma row_of_count:
  assumes "rowcount p xs = 1"
  obtains r where "r \<in> set xs" "p r"
proof -
  have "filter p xs \<noteq> []" using assms by (auto simp: rowcount_def)
  then have "hd (filter p xs) \<in> {x \<in> set xs. p x}" using hd_in_set[of "filter p xs"] by simp
  then show thesis using that by blast
qed

lemma refines_get_key:
  "refines (\<lambda>x y. map_option (map_prod untimed id) x = map_option (map_prod untimed id) y)
     (get_by_idempotency_key key) (mem_get_by_idempotency_key key)"
proof (rule refinesI[OF out_get_by_idempotency_key])
  fix w j x w' assume wf: "wf_db (w_db w)" and rely: "w_rely w = (\<lambda>n d. d)" and rep: "represents j (w_db w)"
    and run: "get_by_idempotency_key key w = (Inr x, w')"
  let ?d = "w_db w"
  have same: "w_db w' = ?d" and x: "(case call_by_key key ?d of None \<Rightarrow> Inr None
     | Some row \<Rightarrow> (case tool_call_from_row row of Inl e \<Rightarrow> Inl e
       | Inr call \<Rightarrow> (case result_of (tc_tool_call_id row) ?d of
           None \<Rightarrow> Inr (Some (call, None))
         | Some result \<Rightarrow> (case tool_result_from_row result of
             Inl e \<Rightarrow> Inl e | Inr r \<Rightarrow> Inr (Some (call, Some r)))))) = Inr x"
    using alone_query[OF run[unfolded get_by_idempotency_key_def] rely] by simp_all
  have keys: "mj_keys j key = map_option tc_tool_call_id (call_by_key key ?d)"
    and results: "mj_results j = (\<lambda>i. result_of i ?d)"
    using rep by (simp_all add: represents_def)
  show "\<exists>y j'. mem_get_by_idempotency_key key j = (Inr y, j') \<and>
      map_option (map_prod untimed id) x = map_option (map_prod untimed id) y \<and> represents j' (w_db w')"
  proof (cases "call_by_key key ?d")
    case None
    then show ?thesis using x keys rep same by (simp add: mem_get_by_idempotency_key_def)
  next
    case (Some row)
    have row: "row \<in> set (db_tool_calls ?d)" using tbl_get_SomeD[OF Some[unfolded call_by_key_def]] by blast
    obtain c where c: "mem_call (tc_tool_call_id row) j = (Inr c, j)" "untimed c = untimed row"
      by (rule mem_call_row[OF rep wf row])
    have "x = Some (row, result_of (tc_tool_call_id row) ?d)"
      using x Some by (auto simp: tool_call_from_row_def tool_result_from_row_def split: sum.splits option.splits)
    moreover have "mem_get_by_idempotency_key key j = (Inr (Some (c, result_of (tc_tool_call_id row) ?d)), j)"
      using c(1) keys results Some by (simp add: mem_get_by_idempotency_key_def bnd_def ret_def)
    ultimately show ?thesis
      using c(2) rep by (intro exI[of _ "Some (c, result_of (tc_tool_call_id row) ?d)"] exI[of _ j]) (simp add: same)
  qed
qed

lemma refines_record_intent: "refines (\<lambda>x y. x = y) (record_intent call) (mem_record_intent call)"
proof (rule refinesI[OF out_record_intent])
  fix w j x w' assume wf: "wf_db (w_db w)" and rely: "w_rely w = (\<lambda>n d. d)" and rep: "represents j (w_db w)"
    and run: "record_intent call w = (Inr x, w')"
  let ?d = "w_db w"
  have fresh: "tc_tool_call_id call \<notin> tc_tool_call_id ` set (db_tool_calls ?d)"
      "tc_idempotency_key call \<notin> tc_idempotency_key ` set (db_tool_calls ?d)"
    and d': "w_db w' = ?d\<lparr>db_tool_calls := db_tool_calls ?d @ [call]\<rparr>"
    using alone_tx[OF alone_handled[OF run[unfolded record_intent_def]] rely] by (auto split: if_splits)
  let ?j = "j\<lparr>mj_calls := AList.update (tc_tool_call_id call) call (mj_calls j),
    mj_keys := (mj_keys j)(tc_idempotency_key call \<mapsto> tc_tool_call_id call)\<rparr>"
  have none: "call_by_key (tc_idempotency_key call) ?d = None"
    using fresh(2) by (auto simp: call_by_key_def table_simps image_iff)
  then have "mj_keys j (tc_idempotency_key call) = None" using rep by (simp add: represents_def)
  then have run': "mem_record_intent call j = (Inr (), ?j)"
    by (simp add: mem_record_intent_def mem_set_call_def bnd_def)
  have "tc_tool_call_id call \<notin> fst ` set (mj_calls j)"
    using fresh(1) represents_keys[OF rep] by (metis image_set)
  then have "AList.update (tc_tool_call_id call) call (mj_calls j) = mj_calls j @ [(tc_tool_call_id call, call)]"
    by (rule update_absent)
  moreover have "mj_keys ?j = (\<lambda>k. map_option tc_tool_call_id (call_by_key k (w_db w')))"
    using rep none by (auto simp: represents_def d' call_by_key_def tbl_get_append tbl_get_Cons split: option.split)
  ultimately have "represents ?j (w_db w')"
    unfolding represents_def using rep by (simp add: represents_def d' result_of_def)
  then show "\<exists>y j'. mem_record_intent call j = (Inr y, j') \<and> x = y \<and> represents j' (w_db w')"
    using run' by simp
qed

lemma untimed_status:
  "untimed c = untimed q \<Longrightarrow> untimed (c\<lparr>tc_status := s\<rparr>) = untimed (set_status s now q)"
  "untimed c = untimed q \<Longrightarrow>
   untimed (c\<lparr>tc_status := (if tl_success r then TC_SUCCEEDED else TC_FAILED)\<rparr>) = untimed (finish_call r now q)"
  by (cases c, cases q, simp add: untimed_def set_status_def finish_call_def)+

text \<open>An update of one call, whatever the row is set to.\<close>

lemma refines_update_row:
  assumes "represents j d" and "wf_db d" and "rowcount p (db_tool_calls d) = 1"
    and "\<And>r q. r \<in> set (db_tool_calls d) \<Longrightarrow> q \<in> set (db_tool_calls d) \<Longrightarrow> p r \<Longrightarrow>
      p q \<longleftrightarrow> tc_tool_call_id q = tc_tool_call_id r"
    and "\<And>q. tc_tool_call_id (f q) = tc_tool_call_id q" "\<And>q. tc_idempotency_key (f q) = tc_idempotency_key q"
    and "\<And>c q. untimed c = untimed q \<Longrightarrow> untimed (g c) = untimed (f q)"
  shows "\<exists>r c. r \<in> set (db_tool_calls d) \<and> p r \<and> mem_call (tc_tool_call_id r) j = (Inr c, j) \<and>
    untimed c = untimed r \<and>
    represents (j\<lparr>mj_calls := AList.update (tc_tool_call_id r) (g c) (mj_calls j)\<rparr>)
      (d\<lparr>db_tool_calls := tbl_update p f (db_tool_calls d)\<rparr>)"
proof -
  obtain r where r: "r \<in> set (db_tool_calls d)" "p r" by (rule row_of_count[OF assms(3)])
  obtain c where c: "mem_call (tc_tool_call_id r) j = (Inr c, j)" "untimed c = untimed r"
    by (rule mem_call_row[OF assms(1,2) r(1)])
  from represents_update[OF assms(1,2) r(1), of p "g c" f] show ?thesis
    using r c assms(4)[OF r(1) _ r(2)] assms(5,6) assms(7)[OF c(2)] by blast
qed

lemma refines_update_status: "refines (\<lambda>x y. x = y) (update_status i s) (mem_update_status i s)"
proof (rule refinesI[OF out_update_status])
  fix w j x w' assume wf: "wf_db (w_db w)" and rely: "w_rely w = (\<lambda>n d. d)" and rep: "represents j (w_db w)"
    and run: "update_status i s w = (Inr x, w')"
  let ?d = "w_db w" and ?p = "\<lambda>c. tc_tool_call_id c = i"
  obtain now where count: "rowcount ?p (db_tool_calls ?d) = 1"
    and d': "w_db w' = ?d\<lparr>db_tool_calls := tbl_update ?p (set_status s now) (db_tool_calls ?d)\<rparr>"
    using alone_clock_tx(1)[OF rely run[unfolded update_status_def]] by (auto split: if_splits)
  obtain c where c: "mem_call i j = (Inr c, j)"
    and rep': "represents (j\<lparr>mj_calls := AList.update i (c\<lparr>tc_status := s\<rparr>) (mj_calls j)\<rparr>) (w_db w')"
    using refines_update_row[OF rep wf count, of "set_status s now" "\<lambda>c. c\<lparr>tc_status := s\<rparr>", OF _ _ _ untimed_status(1)]
    by (auto simp: d' set_status_def)
  then show "\<exists>y j'. mem_update_status i s j = (Inr y, j') \<and> x = y \<and> represents j' (w_db w')"
    by (simp add: mem_update_status_def bnd_def mem_set_call_def)
qed

lemma refines_prepare_retry: "refines (\<lambda>x y. x = y) (prepare_retry i) (mem_prepare_retry i)"
proof (rule refinesI[OF out_prepare_retry])
  fix w j x w' assume wf: "wf_db (w_db w)" and rely: "w_rely w = (\<lambda>n d. d)" and rep: "represents j (w_db w)"
    and run: "prepare_retry i w = (Inr x, w')"
  let ?d = "w_db w" and ?g = "\<lambda>c :: ToolCall. c\<lparr>tc_status := INTENT_RECORDED, tc_attempt := tc_attempt c + 1,
    tc_started_at := None, tc_finished_at := None\<rparr>"
  have none: "result_of i ?d = None" and count: "rowcount (retryable_call i) (db_tool_calls ?d) = 1"
    and d': "w_db w' = ?d\<lparr>db_tool_calls := tbl_update (retryable_call i) reopen_call (db_tool_calls ?d)\<rparr>"
    using alone_tx[OF run[unfolded prepare_retry_def] rely] by (auto split: if_splits)
  have dist: "distinct (map tc_tool_call_id (db_tool_calls ?d))" using wf by (simp add: wf_db_def)
  have same: "retryable_call i q \<longleftrightarrow> tc_tool_call_id q = tc_tool_call_id r"
    if "r \<in> set (db_tool_calls ?d)" "q \<in> set (db_tool_calls ?d)" "retryable_call i r" for r q
    using that dist by (auto simp: retryable_call_def distinct_map dest: inj_onD)
  have untimed_reopen: "untimed (?g c) = untimed (reopen_call q)" if "untimed c = untimed q" for c q
    using that by (cases c, cases q) (simp add: untimed_def reopen_call_def)
  from refines_update_row[OF rep wf count same, of reopen_call ?g, OF _ _ _ _ _ untimed_reopen]
  obtain r c where r: "retryable_call i r" and c: "mem_call (tc_tool_call_id r) j = (Inr c, j)" "untimed c = untimed r"
    and rep': "represents (j\<lparr>mj_calls := AList.update (tc_tool_call_id r) (?g c) (mj_calls j)\<rparr>) (w_db w')"
    by (auto simp: d' reopen_call_def)
  have "tc_tool_call_id r = i" "tc_status c = TC_FAILED" "mj_results j i = None"
    using r untimed_eqD(3)[OF c(2)] none rep by (auto simp: retryable_call_def represents_def)
  then show "\<exists>y j'. mem_prepare_retry i j = (Inr y, j') \<and> x = y \<and> represents j' (w_db w')"
    using c(1) rep' by (simp add: mem_prepare_retry_def bnd_def mem_set_call_def)
qed

lemma refines_record_result: "refines (\<lambda>x y. x = y) (record_result r) (mem_record_result r)"
proof (rule refinesI[OF out_record_result])
  fix w j x w' assume wf: "wf_db (w_db w)" and rely: "w_rely w = (\<lambda>n d. d)" and rep: "represents j (w_db w)"
    and run: "record_result r w = (Inr x, w')"
  let ?i = "tl_tool_call_id r" and ?s = "if tl_success r then TC_SUCCEEDED else TC_FAILED"
  let ?d1 = "(w_db w)\<lparr>db_tool_results := db_tool_results (w_db w) @ [r]\<rparr>"
  let ?p = "\<lambda>c. tc_tool_call_id c = ?i" and ?j = "j\<lparr>mj_results := (mj_results j)(?i \<mapsto> r)\<rparr>"
  obtain now where mem: "?i \<in> tc_tool_call_id ` set (db_tool_calls (w_db w))"
    and fresh: "?i \<notin> tl_tool_call_id ` set (db_tool_results (w_db w))"
    and d': "w_db w' = ?d1\<lparr>db_tool_calls := tbl_update ?p (finish_call r now) (db_tool_calls ?d1)\<rparr>"
    using alone_clock_tx(2)[OF rely run[unfolded record_result_def]] by (auto split: if_splits)
  have wf1: "wf_db ?d1" using evolves_add_result[of r "w_db w"] fresh wf by (simp add: evolves_def)
  have "tbl_get tl_tool_call_id ?i (db_tool_results (w_db w)) = None"
    using fresh by (auto simp: table_simps image_iff)
  then have "mj_results ?j = (\<lambda>i. result_of i ?d1)"
    using rep by (auto simp: represents_def result_of_def tbl_get_append tbl_get_Cons split: option.split)
  then have rep1: "represents ?j ?d1" using rep by (simp add: represents_def call_by_key_def)
  have "tbl_get tc_tool_call_id ?i (db_tool_calls (w_db w)) \<noteq> None"
    using mem by (auto simp: tbl_get_None_iff)
  then obtain q where "tbl_get tc_tool_call_id ?i (db_tool_calls (w_db w)) = Some q" by blast
  moreover from tbl_get_SomeD[OF this] have "?p q" by blast
  ultimately have count: "rowcount ?p (db_tool_calls ?d1) = 1"
    using rowcount_key[of tc_tool_call_id "db_tool_calls (w_db w)" ?p ?i] wf by (simp add: wf_db_def)
  obtain c where "mem_call ?i ?j = (Inr c, ?j)"
    "represents (?j\<lparr>mj_calls := AList.update ?i (c\<lparr>tc_status := ?s\<rparr>) (mj_calls ?j)\<rparr>) (w_db w')"
    using refines_update_row[OF rep1 wf1 count, of "finish_call r now" "\<lambda>c. c\<lparr>tc_status := ?s\<rparr>", OF _ _ _ untimed_status(2)]
    by (auto simp: d' finish_call_def)
  then show "\<exists>y j'. mem_record_result r j = (Inr y, j') \<and> x = y \<and> represents j' (w_db w')"
    by (simp add: mem_record_result_def mem_update_status_def bnd_def mem_set_call_def)
qed

lemma refines_uncertain_calls:
  "refines (\<lambda>x y. map untimed x = map untimed y) (uncertain_calls i) (mem_uncertain_calls i)"
proof (rule refinesI[OF out_uncertain_calls])
  fix w j x w' assume rely: "w_rely w = (\<lambda>n d. d)" and rep: "represents j (w_db w)"
    and run: "uncertain_calls i w = (Inr x, w')"
  let ?P = "\<lambda>c. tc_run_id c = i \<and> tc_status c \<in> {INTENT_RECORDED, TC_RUNNING, UNCERTAIN}"
  have same: "w_db w' = w_db w" and x: "x = filter ?P (db_tool_calls (w_db w))"
    using alone_query[OF run[unfolded uncertain_calls_def] rely] traverse_checked
    by (auto simp: tool_call_from_row_def[abs_def])
  have "map (map_prod id untimed) (mj_calls j) = map (\<lambda>c. (tc_tool_call_id c, untimed c)) (db_tool_calls (w_db w))"
    using rep by (simp add: represents_def)
  from arg_cong[OF this, of "map snd"]
  have "map untimed (map snd (mj_calls j)) = map untimed (db_tool_calls (w_db w))" by (simp add: comp_def)
  moreover have "map untimed (filter ?P cs) = filter ?P (map untimed cs)" for cs
    by (induction cs) auto
  ultimately have "map untimed x = map untimed (filter ?P (map snd (mj_calls j)))" using x by simp
  then show "\<exists>y j'. mem_uncertain_calls i j = (Inr y, j') \<and> map untimed x = map untimed y \<and> represents j' (w_db w')"
    using rep same by (simp add: mem_uncertain_calls_def)
qed

section \<open>Sequences of requests\<close>

definition same_answer :: "journal_answer \<Rightarrow> journal_answer \<Rightarrow> bool" where
  "same_answer x y \<longleftrightarrow> untimed_answer x = untimed_answer y"

lemma refines_journal: "refines same_answer (sql_journal q) (memory_journal q)"
  by (cases q) (auto intro!: refines_map[OF refines_get_key] refines_map[OF refines_record_intent]
      refines_map[OF refines_update_status] refines_map[OF refines_prepare_retry]
      refines_map[OF refines_record_result] refines_map[OF refines_uncertain_calls] simp: same_answer_def)

lemma refinesD:
  "refines Q m n \<Longrightarrow> wf_db (w_db w) \<Longrightarrow> w_rely w = (\<lambda>n d. d) \<Longrightarrow> represents j (w_db w) \<Longrightarrow> m w = (Inr x, w') \<Longrightarrow>
   \<exists>y j'. n j = (Inr y, j') \<and> Q x y \<and> represents j' (w_db w') \<and> wf_db (w_db w') \<and> w_rely w' = (\<lambda>n d. d)"
  unfolding refines_def by blast

text \<open>
  C28. The SQL journal refines the in-memory one: started on tables that the dictionaries represent,
  and with no other writer, every sequence of requests that the SQL journal answers is answered by
  the dictionaries with the same answers, up to the start and finish times that only the SQL journal
  records, and they represent the tables again. In particular whatever the in-memory journal refuses
  the SQL journal refuses too.
\<close>

theorem sql_journal_refines_memory_journal:
  assumes "wf_db (w_db w)" and "w_rely w = (\<lambda>n d. d)" and "represents j (w_db w)"
    and "mapA sql_journal qs w = (Inr xs, w')"
  shows "\<exists>ys j'. mapA memory_journal qs j = (Inr ys, j') \<and> list_all2 same_answer xs ys \<and>
    represents j' (w_db w')"
  using assms
proof (induction qs arbitrary: w j xs)
  case Nil
  then show ?case by (simp add: ret_def)
next
  case (Cons q qs)
  obtain x w1 xs' where x: "sql_journal q w = (Inr x, w1)" and xs': "mapA sql_journal qs w1 = (Inr xs', w')"
    and xs: "xs = x # xs'"
    using Cons.prems(4) by (auto simp: bnd_def ret_def split: prod.splits sum.splits)
  obtain y j1 where y: "memory_journal q j = (Inr y, j1)" "same_answer x y" "represents j1 (w_db w1)"
    and w1: "wf_db (w_db w1)" "w_rely w1 = (\<lambda>n d. d)"
    using refinesD[OF refines_journal Cons.prems(1-3) x] by (elim exE conjE)
  obtain ys j' where "mapA memory_journal qs j1 = (Inr ys, j')" "list_all2 same_answer xs' ys" "represents j' (w_db w')"
    using Cons.IH[OF w1 y(3) xs'] by (elim exE conjE)
  then show ?case
    using y xs by (intro exI[of _ "y # ys"] exI[of _ j']) (simp add: bnd_def ret_def)
qed

lemma represents_empty: "represents empty_journal d" if "db_tool_calls d = []" "db_tool_results d = []"
  using that by (simp add: represents_def empty_journal_def call_by_key_def result_of_def tbl_get_def)

definition example_call :: ToolCall where
  "example_call = \<lparr>tc_tool_call_id = ''c'', tc_run_id = ''r'', tc_task_id = ''t'', tc_tool_name = ''grep'',
     tc_arguments = JNull, tc_arguments_hash = ''h'', tc_idempotency_key = ''k'',
     tc_side_effect_class = SE_NONE, tc_status = INTENT_RECORDED, tc_attempt = 1, tc_created_at = 0,
     tc_started_at = None, tc_finished_at = None\<rparr>"

definition example_requests :: "journal_request list" where
  "example_requests = [Record_Intent example_call, Update_Status ''c'' TC_FAILED, Prepare_Retry ''c'',
     Uncertain_Calls ''r'']"

lemma example_requests_run:
  "yields (\<lambda>xs. xs = [Nothing, Nothing, Nothing, Calls [example_call\<lparr>tc_attempt := 2\<rparr>]])
     (mapA sql_journal example_requests (calm 0 0 0 lease_db))"
  by (simp add: example_requests_def record_intent_def[THEN fun_cong] update_status_def[THEN fun_cong]
      prepare_retry_def[THEN fun_cong] uncertain_calls_def[THEN fun_cong] on_integrity_error_def[THEN fun_cong]
      run_exists_def lease_db_def empty_db_def result_of_def retryable_call_def tbl_get_def set_status_def
      reopen_call_def tool_call_from_row_def checked_def valid_ToolCall_def example_call_def no_nul_def
      calm_simps cong: calm_cong)

theorem sql_journal_refines_memory_journal_witness:
  "\<exists>ys j'. mapA memory_journal example_requests empty_journal = (Inr ys, j') \<and>
     list_all2 same_answer [Nothing, Nothing, Nothing, Calls [example_call\<lparr>tc_attempt := 2\<rparr>]] ys"
proof -
  obtain w' where run: "mapA sql_journal example_requests (calm 0 0 0 lease_db) =
      (Inr [Nothing, Nothing, Nothing, Calls [example_call\<lparr>tc_attempt := 2\<rparr>]], w')"
    using yieldsD[OF example_requests_run] by auto
  have "represents empty_journal (w_db (calm 0 0 0 lease_db))"
    by (rule represents_empty) (simp_all add: lease_db_def empty_db_def)
  from sql_journal_refines_memory_journal[OF _ _ this run] show ?thesis
    using wf_lease_db by (auto simp: calm_def)
qed

end
