(* ===== verification/LLM_Compressor.thy ===== *)
theory LLM_Compressor
  imports Context_Manager Calm_World
begin

text \<open>
  \<open>context/llm.py\<close>: the optional compressor that lets a language model write the summary. The model
  is a parameter and is not trusted: what it returns is checked against the items it was given.
\<close>

record CompressionDraft =
  cd_content :: string
  cd_source_item_ids :: "string list"
  cd_evidence_ids :: "string list"
  cd_retained_constraints :: "string list"
  cd_retained_questions :: "string list"
  cd_retained_decisions :: "string list"

text \<open>\<open>complete_structured\<close> with the schema \<open>CompressionDraft\<close>: from the untrusted content to a draft.\<close>

type_synonym draft_service = "string \<Rightarrow> CompressionDraft io"

definition untrusted_items :: "ContextItem list \<Rightarrow> string" where
  "untrusted_items items = join_with [CHR 0x0A]
     (map (\<lambda>i. ''['' @ ci_item_id i @ ''] '' @ ci_category i @ '': '' @ ci_content i) items)"

definition required_constraints :: "ContextItem list \<Rightarrow> string set" where
  "required_constraints items =
     ci_content ` {i \<in> set items. ci_category i \<in> {''constraint'', ''negative_requirement''}}"

text \<open>The three checks on the draft, in their order.\<close>

definition check_draft :: "ContextItem list \<Rightarrow> CompressionDraft \<Rightarrow> exn + unit" where
  "check_draft items draft =
     (if \<not> set (cd_source_item_ids draft) \<subseteq> set (map ci_item_id items)
      then Inl (Durable DomainValidationError)
      else if \<not> set (cd_evidence_ids draft) \<subseteq> set (concat (map ci_evidence_ids items))
      then Inl (Durable DomainValidationError)
      else if \<not> required_constraints items \<subseteq> set (cd_retained_constraints draft)
      then Inl (Durable DomainValidationError)
      else Inr ())"

definition draft_summary ::
  "(string \<Rightarrow> string) \<Rightarrow> string \<Rightarrow> ContextItem list \<Rightarrow> int \<Rightarrow> SummaryLevel \<Rightarrow> int \<Rightarrow> CompressionDraft \<Rightarrow> string \<Rightarrow>
   time \<Rightarrow> SummaryRecord" where
  "draft_summary sha256 run_id items maximum_tokens level generation draft summary_id now =
     (let content = take (nat (maximum_tokens * 4)) (cd_content draft) in
      \<lparr>su_summary_id = summary_id, su_run_id = run_id, su_level = level, su_content = content,
       su_estimated_tokens = min (max (int ((length (utf8 content) + 3) div 4)) 1) maximum_tokens,
       su_source_item_ids = cd_source_item_ids draft,
       su_source_hashes = map (\<lambda>i. (ci_item_id i, sha256 (ci_content i))) items,
       su_source_summary_ids = [], su_retained_constraints = cd_retained_constraints draft,
       su_retained_questions = cd_retained_questions draft,
       su_retained_decisions = cd_retained_decisions draft,
       su_evidence_ids = cd_evidence_ids draft, su_removed_item_ids = map ci_item_id items,
       su_generation = generation, su_valid = True, su_invalidated_reason = None, su_created_at = now\<rparr>)"

definition llm_compress ::
  "(string \<Rightarrow> string) \<Rightarrow> draft_service \<Rightarrow> string \<Rightarrow> ContextItem list \<Rightarrow> int \<Rightarrow> SummaryLevel \<Rightarrow> int \<Rightarrow> SummaryRecord io" where
  "llm_compress sha256 llm run_id items maximum_tokens level generation =
     (if maximum_tokens < 16 then raise (Durable DomainValidationError)
      else
        bnd (llm (untrusted_items items)) (\<lambda>draft.
        bnd (lift_sum (check_draft items draft)) (\<lambda>_.
        bnd (ids_new ''summary'') (\<lambda>summary_id.
        bnd clock_now (\<lambda>now.
        lift_sum (checked valid_SummaryRecord
          (draft_summary sha256 run_id items maximum_tokens level generation draft summary_id now)))))))"

section \<open>What a summary is grounded in\<close>

text \<open>
  A draft the compressor can use. Although the checks ask for a subset of the item identifiers only,
  \<open>SummaryRecord\<close> wants the hashes to cover the sources exactly, and the hashes are those of all
  items: so a usable draft names every item.
\<close>

definition usable_draft :: "ContextItem list \<Rightarrow> int \<Rightarrow> int \<Rightarrow> CompressionDraft \<Rightarrow> bool" where
  "usable_draft items maximum_tokens generation draft \<longleftrightarrow>
     set (cd_source_item_ids draft) = ci_item_id ` set items \<and> items \<noteq> [] \<and>
     set (cd_evidence_ids draft) \<subseteq> \<Union> (set ` ci_evidence_ids ` set items) \<and>
     required_constraints items \<subseteq> set (cd_retained_constraints draft) \<and>
     (1 < generation \<longrightarrow> cd_retained_constraints draft \<noteq> []) \<and>
     no_nul (take (nat (maximum_tokens * 4)) (cd_content draft))"

lemma usable_draft_iff:
  assumes "16 \<le> maximum_tokens" and "no_nul run_id" and "no_nul summary_id" and "1 \<le> generation" and "generation \<le> 3"
  shows "check_draft items draft = Inr () \<and>
    valid_SummaryRecord (draft_summary sha run_id items maximum_tokens level generation draft summary_id now) \<longleftrightarrow>
    usable_draft items maximum_tokens generation draft"
proof -
  have "set (map ci_item_id items) = set (cd_source_item_ids draft) \<Longrightarrow>
      cd_source_item_ids draft \<noteq> [] \<longleftrightarrow> items \<noteq> []" by (cases items) auto
  then show ?thesis
    using assms by (auto simp: check_draft_def usable_draft_def valid_SummaryRecord_def draft_summary_def Let_def
      source_manifest_complete_def no_nul_opt_def image_image simp flip: image_comp)
qed

lemma draft_tokens:
  "16 \<le> n \<Longrightarrow> 1 \<le> su_estimated_tokens (draft_summary sha r items n level g draft i now) \<and>
   su_estimated_tokens (draft_summary sha r items n level g draft i now) \<le> n \<and>
   int (length (su_content (draft_summary sha r items n level g draft i now))) \<le> n * 4"
  by (auto simp: draft_summary_def Let_def min_def)

text \<open>
  A summary a language model wrote is grounded: whatever the model returns, a summary is issued
  exactly when the draft names the given items and no others, cites only their evidence and repeats
  each of their constraints, and then the summary carries the digest of every item it replaces and
  stays within the token and character budget.
\<close>

lemma llm_summary_grounded:
  assumes "llm (untrusted_items items) w = (Inr draft, w1)" and "16 \<le> maximum_tokens" and "no_nul run_id"
    and "clean_ids w1" and "1 \<le> generation" and "generation \<le> 3"
  shows "((\<exists>s w'. llm_compress sha256 llm run_id items maximum_tokens level generation w = (Inr s, w')) \<longleftrightarrow>
      usable_draft items maximum_tokens generation draft) \<and>
    (\<forall>s w'. llm_compress sha256 llm run_id items maximum_tokens level generation w = (Inr s, w') \<longrightarrow>
       su_source_hashes s = map (\<lambda>i. (ci_item_id i, sha256 (ci_content i))) items \<and>
       set (su_source_item_ids s) = ci_item_id ` set items \<and>
       set (su_evidence_ids s) \<subseteq> \<Union> (set ` ci_evidence_ids ` set items) \<and>
       required_constraints items \<subseteq> set (su_retained_constraints s) \<and>
       1 \<le> su_estimated_tokens s \<and> su_estimated_tokens s \<le> maximum_tokens \<and>
       int (length (su_content s)) \<le> maximum_tokens * 4 \<and> w_db w' = w_db w1)"
proof -
  let ?i = "''summary-'' @ w_uuid w1 (w_ids w1)" and ?now = "w_clock w1 (w_reads w1)"
  let ?s = "draft_summary sha256 run_id items maximum_tokens level generation draft ?i ?now"
  have "no_nul ?i" using assms(4) by (simp add: clean_ids_def no_nul_def)
  note usable = usable_draft_iff[OF assms(2,3) this assms(5,6), of items draft sha256 level ?now]
  let ?w = "w1\<lparr>w_ids := Suc (w_ids w1), w_reads := Suc (w_reads w1)\<rparr>"
  have run: "llm_compress sha256 llm run_id items maximum_tokens level generation w =
      (case check_draft items draft of Inl e \<Rightarrow> (Inl e, w1) | Inr u \<Rightarrow> (checked valid_SummaryRecord ?s, ?w))"
    using assms(1,2) by (simp add: llm_compress_def bnd_def ids_new_def clock_now_def lift_sum_def split: sum.split)
  have iff: "(\<exists>s w'. llm_compress sha256 llm run_id items maximum_tokens level generation w = (Inr s, w')) \<longleftrightarrow>
      usable_draft items maximum_tokens generation draft"
    using usable unfolding run by (auto split: sum.splits)
  have result: "s = ?s \<and> w' = ?w \<and> usable_draft items maximum_tokens generation draft"
    if "llm_compress sha256 llm run_id items maximum_tokens level generation w = (Inr s, w')" for s w'
    using that usable unfolding run by (auto split: sum.splits)
  show ?thesis
    using iff draft_tokens[OF assms(2), of sha256 run_id items level generation draft ?i ?now]
    by (auto dest!: result) (auto simp: usable_draft_def draft_summary_def Let_def)
qed

definition draft_items :: "ContextItem list" where
  "draft_items = [\<lparr>ci_item_id = ''i1'', ci_category = ''constraint'', ci_content = ''never push'',
      ci_estimated_tokens = 3, ci_priority = 1, ci_source_refs = [], ci_evidence_ids = [], ci_mandatory = False,
      ci_created_at = 0\<rparr>,
    \<lparr>ci_item_id = ''i2'', ci_category = ''history'', ci_content = ''tests pass'', ci_estimated_tokens = 3,
      ci_priority = 2, ci_source_refs = [], ci_evidence_ids = [''e1''], ci_mandatory = False, ci_created_at = 0\<rparr>]"

definition honest_draft :: CompressionDraft where
  "honest_draft = \<lparr>cd_content = ''Tests pass; never push.'', cd_source_item_ids = [''i2'', ''i1''],
     cd_evidence_ids = [''e1''], cd_retained_constraints = [''never push''], cd_retained_questions = [],
     cd_retained_decisions = []\<rparr>"

lemma llm_summary_grounded_witness:
  "(\<exists>s w'. llm_compress (\<lambda>s. s) (\<lambda>text. ret honest_draft) ''r'' draft_items 16 SL_TASK 1 (calm 0 0 0 empty_db) = (Inr s, w')) \<and>
   \<not> (\<exists>s w'. llm_compress (\<lambda>s. s) (\<lambda>text. ret (honest_draft\<lparr>cd_source_item_ids := [''i1'']\<rparr>)) ''r'' draft_items 16
        SL_TASK 1 (calm 0 0 0 empty_db) = (Inr s, w'))"
proof -
  have clean: "clean_ids (calm 0 0 0 empty_db)" by (simp add: clean_ids_def calm_def no_nul_def)
  have r: "no_nul ''r''" by (simp add: no_nul_def)
  let ?w = "calm 0 0 0 empty_db"
  have iff: "(\<exists>s w'. llm_compress (\<lambda>s. s) (\<lambda>text. ret d) ''r'' draft_items 16 SL_TASK 1 ?w = (Inr s, w')) \<longleftrightarrow>
      usable_draft draft_items 16 1 d" for d
    by (rule conjunct1[OF llm_summary_grounded[where w = ?w and ?w1.0 = ?w]]) (simp_all add: ret_def clean r)
  have "usable_draft draft_items 16 1 honest_draft"
    "\<not> usable_draft draft_items 16 1 (honest_draft\<lparr>cd_source_item_ids := [''i1'']\<rparr>)" by code_simp+
  then show ?thesis unfolding iff by blast
qed

end
