(* ===== verification/Python_Text.thy ===== *)
theory Python_Text
  imports Report_Generator
begin

text \<open>
  The methods of \<open>str\<close> that several components use, on the characters up to U+00FF.
\<close>

text \<open>\<open>str.replace\<close> with a non-empty pattern, \<open>str.rstrip\<close>, \<open>str.lower\<close>.\<close>

fun py_replace :: "string \<Rightarrow> string \<Rightarrow> string \<Rightarrow> string" where
  "py_replace old new [] = []"
| "py_replace old new (c # cs) =
     (if old \<noteq> [] \<and> starts_with old (c # cs) then new @ py_replace old new (drop (length old - 1) cs)
      else c # py_replace old new cs)"

definition py_rstrip :: "string \<Rightarrow> string" where
  "py_rstrip s = rev (dropWhile is_py_space (rev s))"

definition lower_char :: "char \<Rightarrow> char" where
  "lower_char c = (let n = of_char c :: nat in
     if (65 \<le> n \<and> n \<le> 90) \<or> (192 \<le> n \<and> n \<le> 222 \<and> n \<noteq> 215) then char_of (n + 32) else c)"

definition py_lower :: "string \<Rightarrow> string" where
  "py_lower s = map lower_char s"

text \<open>\<open>str.removeprefix\<close>, and the part after the last separator, \<open>rsplit(sep, maxsplit=1)[-1]\<close>.\<close>

definition py_removeprefix :: "string \<Rightarrow> string \<Rightarrow> string" where
  "py_removeprefix prefix s = (if starts_with prefix s then drop (length prefix) s else s)"

definition after_last :: "char \<Rightarrow> string \<Rightarrow> string" where
  "after_last sep s = rev (takeWhile (\<lambda>c. c \<noteq> sep) (rev s))"

text \<open>\<open>str.splitlines()\<close>, and its length.\<close>

definition is_line_break :: "char \<Rightarrow> bool" where
  "is_line_break c \<longleftrightarrow> c \<in> {CHR 0x0A, CHR 0x0B, CHR 0x0C, CHR 0x0D, CHR 0x1C, CHR 0x1D, CHR 0x1E, CHR 0x85}"

fun line_count :: "bool \<Rightarrow> string \<Rightarrow> int" where
  "line_count pending [] = (if pending then 1 else 0)"
| "line_count pending (c # cs) =
     (if c = CHR 0x0D \<and> cs \<noteq> [] \<and> hd cs = CHR 0x0A then 1 + line_count False (tl cs)
      else if is_line_break c then 1 + line_count False cs
      else line_count True cs)"

fun split_lines :: "string \<Rightarrow> string \<Rightarrow> string list" where
  "split_lines w [] = (if w = [] then [] else [rev w])"
| "split_lines w (c # cs) =
     (if c = CHR 0x0D \<and> cs \<noteq> [] \<and> hd cs = CHR 0x0A then rev w # split_lines [] (tl cs)
      else if is_line_break c then rev w # split_lines [] cs
      else split_lines (c # w) cs)"

definition py_splitlines :: "string \<Rightarrow> string list" where
  "py_splitlines s = split_lines [] s"

text \<open>\<open>items[:n]\<close>\<close>

definition py_take :: "int \<Rightarrow> 'a list \<Rightarrow> 'a list" where
  "py_take n xs = take (nat (if n < 0 then int (length xs) + n else n)) xs"

lemma length_split_lines: "int (length (split_lines w s)) = line_count (w \<noteq> []) s"
  by (induction w s rule: split_lines.induct) auto

end
