(* ===== verification/Demo_Worker.thy ===== *)
theory Demo_Worker
  imports Orchestrator_Safety Tool_Execution Python_Text
begin

text \<open>
  \<open>application/demo_worker.py\<close>: the worker the repository ships. It carries out the five tasks of the
  rule-based plan with the tool executor, the evidence ledger and the store, and so it is what the
  orchestrator's parameter \<open>ae_worker\<close> stands for. The tools are a registry, the failure injector and
  \<open>str\<close> of a mapping are the parameters of \<open>demo_env\<close>.
\<close>

record demo_env =
  dw_root :: string
  dw_tool_env :: tool_env
  dw_policy :: ToolPolicy
  dw_tools :: ToolRegistry
  dw_hit :: "string \<Rightarrow> unit io"
  dw_py_str :: "json \<Rightarrow> string"

abbreviation dw_sha256 :: "demo_env \<Rightarrow> string \<Rightarrow> string" where
  "dw_sha256 env \<equiv> te_sha256 (dw_tool_env env)"

definition valid_TaskOutcome :: "TaskOutcome \<Rightarrow> bool" where
  "valid_TaskOutcome out \<longleftrightarrow> no_nul_opt (to_repository_snapshot_id out) \<and>
     no_nul (to_context_note out) \<and> length (to_context_note out) \<le> 100000"

text \<open>The keyword arguments of \<open>TaskOutcome\<close> that are not given.\<close>

definition no_outcome_refs :: TaskOutcome where
  "no_outcome_refs = \<lparr>to_evidence_ids = [], to_artifact_ids = [], to_changed_files = [],
     to_test_results = [], to_repository_snapshot_id = None, to_context_note = ''task completed''\<rparr>"

section \<open>Text\<close>

definition quoted :: "string \<Rightarrow> string" where
  "quoted s = CHR 0x22 # s @ [CHR 0x22]"

section \<open>The edits\<close>

definition delay_line :: string where
  "delay_line = ''    retry_delay_seconds: float = 0.01'' @ newline"

definition negative_delay_line :: string where
  "negative_delay_line = ''            raise ValueError('' @ quoted ''retry delay cannot be negative'' @ '')'' @ newline"

definition transform_config :: "string \<Rightarrow> string" where
  "transform_config content =
     (let content1 = (if contains ''retry_limit: int'' content then content
            else py_replace delay_line (delay_line @ ''    retry_limit: int = 3'' @ newline) content) in
      if contains ''retry limit must be positive'' content1 then content1
      else py_replace negative_delay_line
             (negative_delay_line @ ''        if self.retry_limit < 1:'' @ newline @
              ''            raise ValueError('' @ quoted ''retry limit must be positive'' @ '')'' @ newline) content1)"

definition transform_client :: "string \<Rightarrow> string" where
  "transform_client content = py_replace ''for _attempt in range(3):''
     ''for _attempt in range(self._config.retry_limit):'' content"

definition readme_addition :: string where
  "readme_addition = newline @ ''## Retry configuration'' @ newline @ newline @
     ''Set `ServiceConfig(retry_limit=N)` to permit N delivery attempts. '' @
     ''The default remains 3 for backward compatibility, and limits must be positive.'' @ newline"

definition transform_readme :: "string \<Rightarrow> string" where
  "transform_readme content =
     (if contains ''## Retry configuration'' content then content
      else py_rstrip content @ newline @ readme_addition)"

definition test_addition :: string where
  "test_addition = concat (map (\<lambda>line. newline @ line)
     [[], [], ''def test_configurable_retry_limit() -> None:'',
      ''    transport = ScriptedTransport([TransientTransportError('' @ quoted ''one'' @ ''), '' @ quoted ''sent'' @ ''])'',
      ''    client = NotificationClient('',
      ''        transport, ServiceConfig(retry_delay_seconds=0, retry_limit=2)'',
      ''    )'',
      ''    assert client.notify('' @ quoted ''hello'' @ '') == '' @ quoted ''sent:hello'',
      ''    assert transport.calls == 2'', [], [],
      ''def test_retry_limit_must_be_positive() -> None:'',
      ''    try:'',
      ''        ServiceConfig(retry_limit=0)'',
      ''    except ValueError as error:'',
      ''        assert str(error) == '' @ quoted ''retry limit must be positive'',
      ''    else:'',
      ''        raise AssertionError('' @ quoted ''zero retry limit was accepted'' @ '')'', []])"

definition transform_tests :: "string \<Rightarrow> string" where
  "transform_tests content =
     (if contains ''test_configurable_retry_limit'' content then content
      else py_rstrip content @ test_addition)"

definition transformations :: "(string \<times> (string \<Rightarrow> string)) list" where
  "transformations = [(''sample_service/config.py'', transform_config),
     (''sample_service/client.py'', transform_client), (''README.md'', transform_readme),
     (''tests/test_client.py'', transform_tests)]"

section \<open>Using the tools\<close>

definition use_tool :: "demo_env \<Rightarrow> RunRecord \<Rightarrow> TaskRecord \<Rightarrow> string \<Rightarrow> json \<Rightarrow> string \<Rightarrow> ToolResult io" where
  "use_tool env run task name arguments suffix =
     execute (dw_tool_env env) (dw_policy env) (dw_tools env) (rr_run_id run) (tr_task_id task) name arguments
       (rr_run_id run @ '':'' @ tr_task_id task @ '':'' @ suffix)"

definition demo_snapshot_id :: "demo_env \<Rightarrow> RunRecord \<Rightarrow> TaskRecord \<Rightarrow> string" where
  "demo_snapshot_id env run task =
     ''snap-'' @ take 32 (dw_sha256 env (rr_run_id run @ '':'' @ tr_task_id task))"

text \<open>\<open>str(output[key])\<close>, and \<open>output.get(key)\<close>.\<close>

definition output_str :: "demo_env \<Rightarrow> string \<Rightarrow> ToolResult \<Rightarrow> exn + string" where
  "output_str env key result = (case jget key (tl_output result) of
     None \<Rightarrow> Inl KeyError | Some (JStr s) \<Rightarrow> Inr s | Some v \<Rightarrow> Inr (dw_py_str env v))"

fun item_id_of :: "json \<Rightarrow> exn + string" where
  "item_id_of (JObj kvs) = (case jget ''item_id'' (JObj kvs) of
     Some (JStr i) \<Rightarrow> Inr i | _ \<Rightarrow> Inl (Durable ToolExecutionError))"
| "item_id_of v = Inl (Durable ToolExecutionError)"

definition retrieved_item_ids :: "json option \<Rightarrow> exn + string list" where
  "retrieved_item_ids items = (case items of
     Some (JArr xs) \<Rightarrow> traverse item_id_of xs | _ \<Rightarrow> Inl (Durable ToolExecutionError))"

text \<open>
  \<open>next(chunk for chunk in ...)\<close>. The exception leaves the coroutine as a \<open>RuntimeError\<close>; no handler
  of the program tells the two apart.
\<close>

definition find_chunk :: "RepositoryIndex \<Rightarrow> string \<Rightarrow> exn + RepositoryChunk" where
  "find_chunk index item_id = (case find (\<lambda>c. rc_chunk_id c = item_id) (ri_chunks index) of
     None \<Rightarrow> Inl StopIteration | Some c \<Rightarrow> Inr c)"

definition record_chunks ::
  "demo_env \<Rightarrow> RunRecord \<Rightarrow> TaskRecord \<Rightarrow> RepositoryIndex \<Rightarrow> string list \<Rightarrow> EvidenceRecord list io" where
  "record_chunks env run task index item_ids =
     mapA (\<lambda>item_id. bnd (lift_sum (find_chunk index item_id)) (\<lambda>chunk.
       record_repository_chunk (dw_sha256 env) (rr_run_id run) (tr_task_id task) chunk)) item_ids"

definition reindex :: "demo_env \<Rightarrow> RunRecord \<Rightarrow> TaskRecord \<Rightarrow> RepositoryIndex io" where
  "reindex env run task =
     bnd (use_tool env run task ''repository.index''
       (JObj [(''snapshot_id'', JStr (demo_snapshot_id env run task)),
              (''previous_snapshot_id'', jopt JStr (rr_repository_snapshot_id run))]) ''repository-index'') (\<lambda>result.
     bnd (lift_sum (output_str env ''snapshot_id'' result)) (\<lambda>snapshot_id.
     get_repository_index snapshot_id))"

definition search_repository :: "demo_env \<Rightarrow> RunRecord \<Rightarrow> TaskRecord \<Rightarrow> string \<Rightarrow> string \<Rightarrow> int \<Rightarrow> string list io" where
  "search_repository env run task snapshot_id words limit =
     bnd (use_tool env run task ''repository.search''
       (JObj [(''snapshot_id'', JStr snapshot_id), (''query'', JStr words), (''limit'', JInt limit)])
       ''repository-search'') (\<lambda>search.
     lift_sum (retrieved_item_ids (jget ''items'' (tl_output search))))"

section \<open>The tasks\<close>

definition map_evidence :: "RunRecord \<Rightarrow> TaskRecord \<Rightarrow> RepositoryIndex \<Rightarrow> string \<Rightarrow> evidence_input" where
  "map_evidence run task index artifact_id =
     \<lparr>ei_evidence_type = ARTIFACT, ei_source = rr_run_id run @ ''-repository-map.md'',
      ei_source_location = Some artifact_id, ei_content = TextContent (ri_repository_map index),
      ei_excerpt = ''Generated repository map with file and symbol provenance.'', ei_snapshot_id = None,
      ei_task_id = Some (tr_task_id task), ei_reliability = 9 / 10, ei_status = VERIFIED,
      ei_metadata = JObj []\<rparr>"

definition snapshot_evidence :: "demo_env \<Rightarrow> TaskRecord \<Rightarrow> RepositorySnapshot \<Rightarrow> evidence_input" where
  "snapshot_evidence env task snapshot =
     \<lparr>ei_evidence_type = REPOSITORY_SNAPSHOT, ei_source = dw_root env,
      ei_source_location = Some (rs_snapshot_id snapshot),
      ei_content = MappingContent (JObj [(''manifest_hash'', JStr (rs_manifest_hash snapshot)),
        (''files'', JArr (map (\<lambda>f. JObj [(''path'', JStr (rf_relative_path f)), (''hash'', JStr (rf_content_hash f))])
          (filter (\<lambda>f. \<not> rf_is_deleted f) (rs_files snapshot))))]),
      ei_excerpt = ''Indexed '' @ show_int (rs_file_count snapshot) @ '' files ('' @
        show_int (rs_total_bytes snapshot) @ '' bytes).'',
      ei_snapshot_id = Some (rs_snapshot_id snapshot), ei_task_id = Some (tr_task_id task),
      ei_reliability = 1, ei_status = VERIFIED, ei_metadata = JObj []\<rparr>"

text \<open>The artifact with the repository map: its file, its row and its evidence.\<close>

definition record_map :: "demo_env \<Rightarrow> RunRecord \<Rightarrow> TaskRecord \<Rightarrow> RepositoryIndex \<Rightarrow> (string \<times> EvidenceRecord) io" where
  "record_map env run task index =
     bnd (use_tool env run task ''artifact.record''
       (JObj [(''artifact_id'', JStr (rr_run_id run @ ''-repository-map.md'')),
              (''content'', JStr (ri_repository_map index)), (''media_type'', JStr ''text/markdown'')])
       ''repository-map'') (\<lambda>result.
     bnd (lift_sum (output_str env ''artifact_id'' result)) (\<lambda>artifact_id.
     bnd (lift_sum (output_str env ''content_hash'' result)) (\<lambda>content_hash.
     bnd (record_artifact artifact_id (rr_run_id run) (Some (tr_task_id task)) (''artifact://'' @ artifact_id)
       ''text/markdown'' content_hash (int (length (utf8 (ri_repository_map index))))) (\<lambda>_.
     bnd (record_evidence (dw_sha256 env) (rr_run_id run) (map_evidence run task index artifact_id)) (\<lambda>e.
     ret (artifact_id, e))))))"

definition inspect_task :: "demo_env \<Rightarrow> RunRecord \<Rightarrow> TaskRecord \<Rightarrow> TaskOutcome io" where
  "inspect_task env run task =
     bnd (reindex env run task) (\<lambda>index.
     bnd (record_map env run task index) (\<lambda>(artifact_id, artifact_evidence).
     let snapshot = ri_snapshot index in
     bnd (record_evidence (dw_sha256 env) (rr_run_id run) (snapshot_evidence env task snapshot)) (\<lambda>evidence.
     bnd (search_repository env run task (rs_snapshot_id snapshot) ''retry limit attempts config tests'' 6) (\<lambda>item_ids.
     bnd (record_chunks env run task index (take 3 item_ids)) (\<lambda>file_evidence.
     bnd (claim (rr_run_id run)
       (''The repository snapshot contains '' @ show_int (rs_file_count snapshot) @ '' indexed text files.'')
       VERIFIED_FACT [er_evidence_id evidence] (Some (tr_task_id task))) (\<lambda>_.
     lift_sum (checked valid_TaskOutcome (no_outcome_refs\<lparr>
       to_evidence_ids := er_evidence_id evidence # er_evidence_id artifact_evidence # map er_evidence_id file_evidence,
       to_artifact_ids := [artifact_id], to_repository_snapshot_id := Some (rs_snapshot_id snapshot),
       to_context_note := ri_repository_map index @ newline @ concat (replicate 500 ''indexed-context '')\<rparr>))))))))"

definition constraint_text :: string where
  "constraint_text = ''The sample service'' @ CHR 0x27 # ''s compatibility requirement is a three-attempt default.''"

definition research_task :: "demo_env \<Rightarrow> RunRecord \<Rightarrow> TaskRecord \<Rightarrow> TaskOutcome io" where
  "research_task env run task =
     bnd (dw_hit env ''research_constraints'') (\<lambda>_.
     if rr_repository_snapshot_id run \<in> {None, Some []} then raise (Durable DomainValidationError)
     else
       let snapshot_id = the (rr_repository_snapshot_id run) in
       bnd (get_repository_index snapshot_id) (\<lambda>index.
       bnd (search_repository env run task snapshot_id ''historical three attempt retry compatibility'' 10) (\<lambda>result_ids.
       if result_ids = [] then raise (Durable DomainValidationError)
       else
         bnd (record_chunks env run task index (take 3 result_ids)) (\<lambda>records.
         bnd (claim (rr_run_id run)
           constraint_text VERIFIED_FACT
           (map er_evidence_id records) (Some (tr_task_id task))) (\<lambda>_.
         lift_sum (checked valid_TaskOutcome (no_outcome_refs\<lparr>
           to_evidence_ids := map er_evidence_id records,
           to_context_note := ''Compatibility constraint preserved: default retry_limit is three. '' @
             concat (replicate 500 ''constraint-context '')\<rparr>)))))))"

text \<open>One file of the change: read, edit, write against the hash that was read, record.\<close>

definition file_evidence :: "TaskRecord \<Rightarrow> string \<Rightarrow> string \<Rightarrow> string \<Rightarrow> string \<Rightarrow> evidence_input" where
  "file_evidence task path new_content old_hash new_hash =
     \<lparr>ei_evidence_type = REPOSITORY_FILE, ei_source = path,
      ei_source_location = Some (path @ '':1-'' @ show_int (line_count False new_content)),
      ei_content = TextContent new_content,
      ei_excerpt = ''Updated '' @ path @ ''; hash '' @ new_hash, ei_snapshot_id = None,
      ei_task_id = Some (tr_task_id task), ei_reliability = 95 / 100, ei_status = VERIFIED,
      ei_metadata = JObj [(''pre_change_hash'', JStr old_hash)]\<rparr>"

definition edit_file ::
  "demo_env \<Rightarrow> RunRecord \<Rightarrow> TaskRecord \<Rightarrow> string \<times> (string \<Rightarrow> string) \<Rightarrow> EvidenceRecord io" where
  "edit_file env run task = (\<lambda>(path, transform).
     bnd (use_tool env run task ''repository.read'' (JObj [(''path'', JStr path)]) (''read:'' @ path)) (\<lambda>read.
     bnd (lift_sum (output_str env ''content'' read)) (\<lambda>old_content.
     let new_content = transform old_content in
     bnd (lift_sum (case jget ''content_hash'' (tl_output read) of None \<Rightarrow> Inl KeyError | Some h \<Rightarrow> Inr h)) (\<lambda>expected.
     bnd (use_tool env run task ''repository.write''
       (JObj [(''path'', JStr path), (''content'', JStr new_content), (''expected_hash'', expected)])
       (''write:'' @ path)) (\<lambda>write.
     bnd (lift_sum (output_str env ''content_hash'' write)) (\<lambda>new_hash.
     bnd (lift_sum (output_str env ''content_hash'' read)) (\<lambda>old_hash.
     record_evidence (dw_sha256 env) (rr_run_id run)
       (file_evidence task path new_content old_hash new_hash))))))))"

definition implement_task :: "demo_env \<Rightarrow> RunRecord \<Rightarrow> TaskRecord \<Rightarrow> TaskOutcome io" where
  "implement_task env run task =
     bnd (mapA (edit_file env run task) transformations) (\<lambda>records.
     bnd (reindex env run task) (\<lambda>index.
     bnd (claim (rr_run_id run)
       ''Configuration, client behavior, documentation, and tests now support retry_limit.'' VERIFIED_FACT
       (map er_evidence_id records) (Some (tr_task_id task))) (\<lambda>_.
     lift_sum (checked valid_TaskOutcome (no_outcome_refs\<lparr>
       to_evidence_ids := map er_evidence_id records, to_changed_files := map fst transformations,
       to_repository_snapshot_id := Some (rs_snapshot_id (ri_snapshot index)),
       to_context_note := ''Implemented retry_limit with default 3 and positive-value validation.''\<rparr>)))))"

definition pytest_arguments :: json where
  "pytest_arguments = JObj [(''argv'', JArr [JStr ''python3'', JStr ''-m'', JStr ''pytest'', JStr ''-q'']),
     (''cwd'', JStr ''.'')]"

text \<open>\<open>str(result.output.get("stdout", "tests passed"))\<close>\<close>

definition output_stdout :: "demo_env \<Rightarrow> ToolResult \<Rightarrow> string" where
  "output_stdout env result = (case jget ''stdout'' (tl_output result) of
     None \<Rightarrow> ''tests passed'' | Some (JStr s) \<Rightarrow> s | Some v \<Rightarrow> dw_py_str env v)"

definition verify_task :: "demo_env \<Rightarrow> RunRecord \<Rightarrow> TaskRecord \<Rightarrow> TaskOutcome io" where
  "verify_task env run task =
     bnd (use_tool env run task ''test.run'' pytest_arguments ''pytest'') (\<lambda>result.
     if tl_exit_code result \<noteq> Some 0 then raise (Durable ToolExecutionError)
     else
       bnd (record_tool_result (dw_sha256 env) (dw_py_str env) (rr_run_id run) (tr_task_id task)
         ''pytest -q'' result True) (\<lambda>evidence.
       bnd (claim (rr_run_id run) ''The modified sample service passes its complete automated test suite.''
         TEST_SUPPORTED [er_evidence_id evidence] (Some (tr_task_id task))) (\<lambda>_.
       lift_sum (checked valid_TaskOutcome (no_outcome_refs\<lparr>
         to_evidence_ids := [er_evidence_id evidence], to_test_results := [output_stdout env result],
         to_context_note := ''pytest completed successfully: '' @ dw_py_str env (tl_output result)\<rparr>)))))"

text \<open>\<open>"; ".join(messages)\<close>\<close>

fun join_semicolon :: "string list \<Rightarrow> string" where
  "join_semicolon [] = []"
| "join_semicolon [m] = m"
| "join_semicolon (m # ms) = m @ ''; '' @ join_semicolon ms"

definition report_task :: "RunRecord \<Rightarrow> TaskOutcome io" where
  "report_task run =
     bnd (verify_run (rr_run_id run)) (\<lambda>messages.
     lift_sum (checked valid_TaskOutcome (no_outcome_refs\<lparr>to_context_note := join_semicolon messages\<rparr>)))"

definition demo_execute :: "demo_env \<Rightarrow> RunRecord \<Rightarrow> TaskRecord \<Rightarrow> TaskOutcome option io" where
  "demo_execute env run task =
     bnd (if tr_task_id task = ''inspect_repository'' then inspect_task env run task
          else if tr_task_id task = ''research_constraints'' then research_task env run task
          else if tr_task_id task = ''implement_change'' then implement_task env run task
          else if tr_task_id task = ''verify_change'' then verify_task env run task
          else if tr_task_id task = ''generate_report'' then report_task run
          else raise (Durable DomainValidationError)) (\<lambda>out. ret (Some out))"

end
