(* ===== verification/Demo_Safety.thy ===== *)
theory Demo_Safety
  imports Demo_Worker Tool_Safety Examples
begin

text \<open>
  The demonstration worker is a worker the orchestrator can rely on: on every exit it only extends the
  database, and the references it returns are stored.
\<close>

section \<open>Every exit keeps the promise\<close>

definition durable_demo :: "demo_env \<Rightarrow> bool" where
  "durable_demo env \<longleftrightarrow> well_behaved (dw_tools env) \<and> (\<forall>name w. outcome durable (\<lambda>_ _. True) w (dw_hit env name))"

lemma out_use_tool: "durable_demo env \<Longrightarrow> outcome durable (\<lambda>_ _. True) w (use_tool env run task name args suffix)"
  unfolding use_tool_def durable_demo_def by (intro out_execute) simp

lemma out_get_repository_index: "outcome durable (\<lambda>_ _. True) w (get_repository_index i)"
  unfolding get_repository_index_def by (rule out_query)

lemma out_reindex: "durable_demo env \<Longrightarrow> outcome durable (\<lambda>_ _. True) w (reindex env run task)"
  unfolding reindex_def
  by (intro dur.out_bnd[OF out_use_tool] dur.out_bnd_lift out_get_repository_index)

lemma out_search_repository:
  "durable_demo env \<Longrightarrow> outcome durable (\<lambda>_ _. True) w (search_repository env run task s q n)"
  unfolding search_repository_def by (intro dur.out_bnd[OF out_use_tool] dur.out_lift) simp

lemma out_record_chunks: "outcome durable (\<lambda>_ _. True) w (record_chunks env run task index ids)"
  unfolding record_chunks_def record_repository_chunk_def
  by (intro dur.out_mapA dur.out_bnd_lift out_record_evidence)

lemma out_record_map: "durable_demo env \<Longrightarrow> outcome durable (\<lambda>_ _. True) w (record_map env run task index)"
  unfolding record_map_def
  by (intro dur.out_bnd[OF out_use_tool] dur.out_bnd_lift dur.out_bnd[OF out_record_artifact]
      dur.out_bnd[OF out_record_evidence] dur.out_ret) simp

lemma out_edit_file: "durable_demo env \<Longrightarrow> outcome durable (\<lambda>_ _. True) w (edit_file env run task f)"
  unfolding edit_file_def Let_def
  by (cases f) (simp, intro dur.out_bnd[OF out_use_tool] dur.out_bnd_lift out_record_evidence)

lemma out_inspect_task: "durable_demo env \<Longrightarrow> outcome durable (\<lambda>_ _. True) w (inspect_task env run task)"
  unfolding inspect_task_def Let_def
  by (intro dur.out_bnd[OF out_reindex] dur.out_bnd[OF out_record_map]; (simp add: split_def)?)
    (intro dur.out_bnd[OF out_record_evidence] dur.out_bnd[OF out_search_repository]
      dur.out_bnd[OF out_record_chunks] dur.out_bnd[OF out_claim] dur.out_lift; simp)

lemma out_research_task: "durable_demo env \<Longrightarrow> outcome durable (\<lambda>_ _. True) w (research_task env run task)"
  unfolding research_task_def Let_def
  by (intro dur.out_bnd[of "\<lambda>_ _. True" _ "dw_hit env _"])
    (auto simp: durable_demo_def intro!: dur.out_raise dur.out_bnd[OF out_get_repository_index]
      dur.out_bnd[OF out_search_repository] dur.out_bnd[OF out_record_chunks] dur.out_bnd[OF out_claim] dur.out_lift)

lemma out_implement_task: "durable_demo env \<Longrightarrow> outcome durable (\<lambda>_ _. True) w (implement_task env run task)"
  unfolding implement_task_def
  by (intro dur.out_bnd[OF dur.out_mapA[OF out_edit_file]] dur.out_bnd[OF out_reindex] dur.out_bnd[OF out_claim]
      dur.out_lift) simp_all

lemma out_verify_task: "durable_demo env \<Longrightarrow> outcome durable (\<lambda>_ _. True) w (verify_task env run task)"
  unfolding verify_task_def record_tool_result_def
  by (intro dur.out_bnd[OF out_use_tool])
    (auto intro!: dur.out_raise dur.out_bnd[OF out_record_evidence] dur.out_bnd[OF out_claim] dur.out_lift)

lemma out_report_task: "outcome durable (\<lambda>_ _. True) w (report_task run)"
  unfolding report_task_def by (intro dur.out_bnd[OF out_verify_run] dur.out_lift) simp

lemmas out_tasks = out_inspect_task out_research_task out_implement_task out_verify_task out_report_task

lemma out_demo_execute: "durable_demo env \<Longrightarrow> outcome durable (\<lambda>_ _. True) w (demo_execute env run task)"
  unfolding demo_execute_def
  by (rule dur.out_bnd[of "\<lambda>_ _. True"]) (simp_all add: out_tasks dur.out_raise dur.out_ret)

lemma demo_worker_is_durable: "durable_demo env \<Longrightarrow> durable_worker (agent\<lparr>ae_worker := demo_execute env\<rparr>)"
  by (simp add: durable_worker_def out_demo_execute)

section \<open>What is returned is stored\<close>

definition evidence_stored :: "RunRecord \<Rightarrow> TaskRecord \<Rightarrow> string \<Rightarrow> database \<Rightarrow> bool" where
  "evidence_stored run task i d \<longleftrightarrow> (\<exists>e \<in> set (db_evidence d). er_evidence_id e = i \<and>
     er_run_id e = rr_run_id run \<and> er_related_task_id e = Some (tr_task_id task) \<and>
     er_verification_status e = VERIFIED)"

definition artifact_stored :: "RunRecord \<Rightarrow> string \<Rightarrow> database \<Rightarrow> bool" where
  "artifact_stored run i d \<longleftrightarrow> (\<exists>a \<in> set (db_artifacts d). ar_artifact_id a = i \<and> ar_run_id a = rr_run_id run)"

definition snapshot_stored :: "string \<Rightarrow> database \<Rightarrow> bool" where
  "snapshot_stored i d \<longleftrightarrow> (\<exists>s \<in> set (db_repository_snapshots d). so_snapshot_id s = i)"

definition outcome_stored :: "RunRecord \<Rightarrow> TaskRecord \<Rightarrow> TaskOutcome \<Rightarrow> database \<Rightarrow> bool" where
  "outcome_stored run task out d \<longleftrightarrow>
     (\<forall>i \<in> set (to_evidence_ids out). evidence_stored run task i d) \<and>
     (\<forall>i \<in> set (to_artifact_ids out). artifact_stored run i d) \<and>
     (\<forall>i. to_repository_snapshot_id out = Some i \<longrightarrow> snapshot_stored i d)"

lemma stored_evolves:
  assumes "evolves d d'" and "wf_db d"
  shows "evidence_stored run task i d \<Longrightarrow> evidence_stored run task i d'"
    and "artifact_stored run i d \<Longrightarrow> artifact_stored run i d'"
    and "snapshot_stored i d \<Longrightarrow> snapshot_stored i d'"
  using assms by (auto simp: evidence_stored_def artifact_stored_def snapshot_stored_def evolves_def
      tables_step_def keeps_rows_def)

lemma outcome_stored_evolves: "outcome_stored run task out d \<Longrightarrow> evolves d d' \<Longrightarrow> wf_db d \<Longrightarrow> outcome_stored run task out d'"
  unfolding outcome_stored_def by (meson stored_evolves)

lemma stored_mono:
  assumes "durable w w'" and "good w"
  shows "evidence_stored run task i (w_db w) \<Longrightarrow> evidence_stored run task i (w_db w')"
    and "artifact_stored run i (w_db w) \<Longrightarrow> artifact_stored run i (w_db w')"
    and "snapshot_stored i (w_db w) \<Longrightarrow> snapshot_stored i (w_db w')"
  using stored_evolves[OF durable_evolves[OF assms] good_wf[OF assms(2)]] by blast+

lemma out_add_evidence_val:
  "outcome durable (\<lambda>_ w'. good w \<longrightarrow> e \<in> set (db_evidence (w_db w'))) w (add_evidence e)"
  unfolding add_evidence_def
proof (intro out_on_sqlalchemy_error out_tx, goal_cases)
  case (1 d d' x)
  then show ?case
    by (auto simp: table_simps evidence_from_row_eq checked_def intro!: evolves_add_evidence
        dest: tbl_get_SomeD split: option.splits if_splits sum.splits)
qed

lemma out_record_evidence_g:
  assumes "good w" and "ei_task_id i = Some (tr_task_id task)" and "ei_status i = VERIFIED"
  shows "outcome durable (\<lambda>e w'. evidence_stored run task (er_evidence_id e) (w_db w')) w
    (record_evidence sha256 (rr_run_id run) i)"
  unfolding record_evidence_def
proof (rule out_next[OF assms(1) out_ids], rule clock_then, assumption, rule dur.out_bnd_lift)
  fix new_id w1 now w2 e
  assume "good w2" and e: "checked valid_EvidenceRecord
       \<lparr>er_evidence_id = ''EVID-'' @ last_part new_id, er_run_id = rr_run_id run,
        er_evidence_type = ei_evidence_type i, er_source = ei_source i,
        er_source_location = ei_source_location i,
        er_content_hash = map_option sha256 (serialized (ei_content i)),
        er_snapshot_id = ei_snapshot_id i, er_related_task_id = ei_task_id i,
        er_reliability = ei_reliability i, er_excerpt = ei_excerpt i,
        er_verification_status = ei_status i, er_metadata = ei_metadata i,
        er_created_at = now\<rparr> = Inr e"
  then show "outcome durable (\<lambda>e w'. evidence_stored run task (er_evidence_id e) (w_db w')) w2
      (bnd (add_evidence e) (\<lambda>_. ret e))"
    using assms(2,3)
    by (intro out_bnd_g[OF _ out_add_evidence_val] dur.out_ret)
      (auto simp: evidence_stored_def checked_def split: if_splits)
qed

lemma mapA_stored:
  assumes "good w"
    and "\<And>v w w'. durable w w' \<Longrightarrow> good w \<Longrightarrow> P v w \<Longrightarrow> P v w'"
    and "\<And>x w. good w \<Longrightarrow> outcome durable P w (f x)"
  shows "outcome durable (\<lambda>vs w'. \<forall>v \<in> set vs. P v w') w (mapA f xs)"
  using assms(1)
proof (induction xs arbitrary: w)
  case Nil
  then show ?case by (simp add: dur.out_ret)
next
  case (Cons x xs)
  show ?case
    unfolding mapA.simps
  proof (rule out_bnd_g[OF Cons.prems assms(3)[OF Cons.prems]])
    fix v w1 assume w1: "good w1" "P v w1"
    then show "outcome durable (\<lambda>vs w'. \<forall>v \<in> set vs. P v w') w1 (bnd (mapA f xs) (\<lambda>ys. ret (v # ys)))"
      using assms(2) by (intro out_bnd_g[OF w1(1) Cons.IH[OF w1(1)]] dur.out_ret) auto
  qed
qed

lemma out_record_chunks_g:
  assumes "good w"
  shows "outcome durable (\<lambda>es w'. \<forall>e \<in> set es. evidence_stored run task (er_evidence_id e) (w_db w')) w
    (record_chunks env run task index ids)"
  unfolding record_chunks_def record_repository_chunk_def
  by (rule mapA_stored[OF assms stored_mono(1)], assumption+)
    (intro dur.out_bnd_lift out_record_evidence_g; simp add: chunk_evidence_def)

lemma snapshot_storedI: "s \<in> set (db_repository_snapshots d) \<Longrightarrow> snapshot_stored (so_snapshot_id s) d"
  by (auto simp: snapshot_stored_def)

lemma out_get_repository_index_g:
  "good w \<Longrightarrow> outcome durable (\<lambda>index w'. snapshot_stored (rs_snapshot_id (ri_snapshot index)) (w_db w')) w
     (get_repository_index i)"
proof (rule outcomeI, intro conjI allI impI)
  fix x w' assume run: "get_repository_index i w = (x, w')"
  show "durable w w'" using out_get_repository_index run by (rule outcomeD)
  fix index assume "x = Inr index"
  with run show "snapshot_stored (rs_snapshot_id (ri_snapshot index)) (w_db w')"
    unfolding get_repository_index_def
    by (auto dest!: query_InrD tbl_get_SomeD simp: checked_def intro!: snapshot_storedI
        split: option.splits sum.splits if_splits)
qed

lemma out_reindex_g:
  assumes "durable_demo env" and "good w"
  shows "outcome durable (\<lambda>index w'. snapshot_stored (rs_snapshot_id (ri_snapshot index)) (w_db w')) w
    (reindex env run task)"
  unfolding reindex_def
  by (intro out_next[OF assms(2) out_use_tool[OF assms(1)]] dur.out_bnd_lift out_get_repository_index_g)

lemma out_edit_file_g:
  assumes "durable_demo env" and "good w"
  shows "outcome durable (\<lambda>e w'. evidence_stored run task (er_evidence_id e) (w_db w')) w (edit_file env run task f)"
  unfolding edit_file_def Let_def split_def
  by (intro out_next[OF _ out_use_tool[OF assms(1)]] dur.out_bnd_lift out_record_evidence_g assms(2); assumption?)
    (simp_all add: file_evidence_def)

lemma artifact_storedI: "a \<in> set (db_artifacts d) \<Longrightarrow> ar_run_id a = rr_run_id run \<Longrightarrow> artifact_stored run (ar_artifact_id a) d"
  by (auto simp: artifact_stored_def)

lemma out_record_artifact_val:
  "outcome durable (\<lambda>_ w'. good w \<longrightarrow> artifact_stored run i (w_db w')) w
     (record_artifact i (rr_run_id run) t u m h s)"
  unfolding record_artifact_def
proof (rule out_clock_then, goal_cases)
  case (1 now w1)
  have "outcome durable (\<lambda>_ w'. good w1 \<longrightarrow> artifact_stored run i (w_db w')) w1
     (on_integrity_error (tx (\<lambda>d. case tbl_get ar_artifact_id i (db_artifacts d) of
             Some existing \<Rightarrow>
               if ar_run_id existing = rr_run_id run \<and> ar_content_hash existing = h \<and>
                  ar_uri existing = u
               then Inr ((), d) else Inl (Durable IdempotencyConflictError)
           | None \<Rightarrow>
               if \<not> run_exists (rr_run_id run) d then Inl IntegrityError
               else Inr ((), d\<lparr>db_artifacts := db_artifacts d @
                 [\<lparr>ar_artifact_id = i, ar_run_id = rr_run_id run, ar_task_id = t,
                   ar_uri = u, ar_media_type = m, ar_content_hash = h,
                   ar_size_bytes = s, ar_created_at = now\<rparr>]\<rparr>)))
         (raise (Durable IdempotencyConflictError)))"
  proof (intro out_on_integrity_error dur.out_raise out_tx conjI allI impI, goal_cases)
    case (1 d d' x)
    from 1(4) show ?case
      by (auto simp: evolves_def wf_db_def tables_step_def table_simps split: option.splits if_splits)
  next
    case (2 d d' x w')
    from 2(4) have "artifact_stored run i d'"
      by (auto dest!: tbl_get_SomeD simp: artifact_stored_def split: option.splits if_splits)
    with 2(5) show ?case by simp
  qed
  then show ?case using 1 by simp
qed

lemma outcome_storedI:
  assumes "\<And>i. i \<in> set (to_evidence_ids out) \<Longrightarrow> evidence_stored run task i d"
    and "\<And>i. i \<in> set (to_artifact_ids out) \<Longrightarrow> artifact_stored run i d"
    and "\<And>i. to_repository_snapshot_id out = Some i \<Longrightarrow> snapshot_stored i d"
  shows "outcome_stored run task out d"
  using assms by (simp add: outcome_stored_def)

lemma out_outcome:
  assumes "outcome_stored run task out (w_db w)"
  shows "outcome durable (\<lambda>o' w'. outcome_stored run task o' (w_db w')) w (lift_sum (checked valid_TaskOutcome out))"
  using assms by (intro dur.out_lift) (auto simp: checked_def split: if_splits)

text \<open>The references of one step, carried to a later world.\<close>

definition refs_stored :: "RunRecord \<Rightarrow> TaskRecord \<Rightarrow> string list \<Rightarrow> string list \<Rightarrow> string list \<Rightarrow> world \<Rightarrow> bool" where
  "refs_stored run task es as ss w \<longleftrightarrow> (\<forall>i \<in> set es. evidence_stored run task i (w_db w)) \<and>
     (\<forall>i \<in> set as. artifact_stored run i (w_db w)) \<and> (\<forall>i \<in> set ss. snapshot_stored i (w_db w))"

lemma refs_stored_mono: "refs_stored run task es as ss w \<Longrightarrow> durable w w' \<Longrightarrow> good w \<Longrightarrow> refs_stored run task es as ss w'"
  using stored_mono unfolding refs_stored_def by blast

text \<open>A step with stored references \<open>g v\<close> is followed by the rest, which may add to those at hand.\<close>

lemma refs_then:
  assumes "good w" and "refs_stored run task es as ss w"
    and "outcome durable (\<lambda>v w'. refs_stored run task (g v) (h v) (k v) w') w m"
    and "\<And>v w'. good w' \<Longrightarrow> refs_stored run task (g v @ es) (h v @ as) (k v @ ss) w' \<Longrightarrow> outcome durable Q w' (f v)"
  shows "outcome durable Q w (bnd m f)"
proof (rule out_bnd_g[OF assms(1,3)])
  fix v w' assume w': "durable w w'" "good w'" "refs_stored run task (g v) (h v) (k v) w'"
  then have "refs_stored run task (g v @ es) (h v @ as) (k v @ ss) w'"
    using refs_stored_mono[OF assms(2) w'(1) assms(1)] by (auto simp: refs_stored_def)
  with w'(2) show "outcome durable Q w' (f v)" by (rule assms(4))
qed

lemma refs_next:
  assumes "good w" and "refs_stored run task es as ss w" and "outcome durable (\<lambda>_ _. True) w m"
    and "\<And>v w'. good w' \<Longrightarrow> refs_stored run task es as ss w' \<Longrightarrow> outcome durable Q w' (f v)"
  shows "outcome durable Q w (bnd m f)"
  using assms refs_stored_mono by (intro out_next[OF assms(1,3)]) blast

lemma refs_outcome:
  assumes "refs_stored run task es as ss w" and "set (to_evidence_ids out) \<subseteq> set es"
    and "set (to_artifact_ids out) \<subseteq> set as" and "set_option (to_repository_snapshot_id out) \<subseteq> set ss"
  shows "outcome durable (\<lambda>v w'. outcome_stored run task v (w_db w')) w (lift_sum (checked valid_TaskOutcome out))"
  using assms by (intro out_outcome outcome_storedI) (auto simp: refs_stored_def)

lemma refs_start: "refs_stored run task [] [] [] w"
  by (simp add: refs_stored_def)

lemma refs_evidence:
  assumes "outcome durable (\<lambda>e w'. evidence_stored run task (er_evidence_id e) (w_db w')) w m"
  shows "outcome durable (\<lambda>e w'. refs_stored run task [er_evidence_id e] [] [] w') w m"
  using assms by (simp add: refs_stored_def)

lemma refs_evidence_list:
  assumes "outcome durable (\<lambda>es w'. \<forall>e \<in> set es. evidence_stored run task (er_evidence_id e) (w_db w')) w m"
  shows "outcome durable (\<lambda>es w'. refs_stored run task (map er_evidence_id es) [] [] w') w m"
  using assms by (simp add: refs_stored_def)

lemma refs_index:
  assumes "outcome durable (\<lambda>index w'. snapshot_stored (rs_snapshot_id (ri_snapshot index)) (w_db w')) w m"
  shows "outcome durable (\<lambda>index w'. refs_stored run task [] [] [rs_snapshot_id (ri_snapshot index)] w') w m"
  using assms by (simp add: refs_stored_def)

lemma out_record_map_g:
  assumes "durable_demo env" and "good w"
  shows "outcome durable (\<lambda>v w'. refs_stored run task [er_evidence_id (snd v)] [fst v] [] w') w
    (record_map env run task index)"
  unfolding record_map_def
proof (intro out_next[OF assms(2) out_use_tool[OF assms(1)]] dur.out_bnd_lift)
  fix result w1 i h assume g: "good w1"
  let ?Q = "\<lambda>v w'. refs_stored run task [er_evidence_id (snd v)] [fst v] [] w'"
  have "outcome durable (\<lambda>_ w'. refs_stored run task [] [i] [] w') w1
      (record_artifact i (rr_run_id run) t u m h n)" for t u m n
    using out_record_artifact_val[of w1 run i] g by (simp add: refs_stored_def)
  then show "outcome durable ?Q w1
      (bnd (record_artifact i (rr_run_id run) (Some (tr_task_id task)) (''artifact://'' @ i) ''text/markdown'' h
         (int (length (utf8 (ri_repository_map index))))) (\<lambda>_.
       bnd (record_evidence (dw_sha256 env) (rr_run_id run) (map_evidence run task index i)) (\<lambda>e. ret (i, e))))"
    by (rule refs_then[OF g refs_start])
      (rule refs_then[OF _ _ refs_evidence[OF out_record_evidence_g]],
        auto simp: map_evidence_def intro!: dur.out_ret)
qed

abbreviation returns_stored :: "RunRecord \<Rightarrow> TaskRecord \<Rightarrow> world \<Rightarrow> TaskOutcome io \<Rightarrow> bool" where
  "returns_stored run task w m \<equiv> outcome durable (\<lambda>v w'. outcome_stored run task v (w_db w')) w m"

lemma inspect_task_g:
  assumes "durable_demo env" and "good w"
  shows "returns_stored run task w (inspect_task env run task)"
  unfolding inspect_task_def Let_def split_def
  apply (rule refs_then[OF assms(2) refs_start refs_index[OF out_reindex_g[OF assms]]])
  apply (rule refs_then[OF _ _ out_record_map_g[OF assms(1)]], assumption+)
  apply (rule refs_then[OF _ _ refs_evidence[OF out_record_evidence_g]], assumption+)
    apply (simp_all add: snapshot_evidence_def)
  apply (rule refs_next[OF _ _ out_search_repository[OF assms(1)]], assumption+)
  apply (rule refs_then[OF _ _ refs_evidence_list[OF out_record_chunks_g]], assumption+)
  apply (rule refs_next[OF _ _ out_claim], assumption+)
  by (erule refs_outcome) auto

lemma research_task_g:
  assumes "durable_demo env" and "good w"
  shows "returns_stored run task w (research_task env run task)"
proof -
  have "outcome durable (\<lambda>_ _. True) w (dw_hit env n)" for n w using assms(1) by (simp add: durable_demo_def)
  then show ?thesis
    unfolding research_task_def Let_def
    apply (intro out_next[OF assms(2)])
     apply simp
    apply (simp split del: if_split)
    apply (split if_split, intro conjI impI dur.out_raise)
    apply (rule out_next[OF _ out_get_repository_index], assumption)
    apply (rule out_next[OF _ out_search_repository[OF assms(1)]], assumption)
    apply (split if_split, intro conjI impI dur.out_raise)
    apply (rule refs_then[OF _ refs_start refs_evidence_list[OF out_record_chunks_g]], assumption+)
    apply (rule refs_next[OF _ _ out_claim], assumption+)
    by (erule refs_outcome) (auto simp: no_outcome_refs_def)
qed

lemma implement_task_g:
  assumes "durable_demo env" and "good w"
  shows "returns_stored run task w (implement_task env run task)"
proof -
  have "outcome durable (\<lambda>es w'. \<forall>e \<in> set es. evidence_stored run task (er_evidence_id e) (w_db w')) w
      (mapA (edit_file env run task) transformations)"
    by (rule mapA_stored[OF assms(2) stored_mono(1)], assumption+) (rule out_edit_file_g[OF assms(1)])
  then show ?thesis
    unfolding implement_task_def
    apply (rule refs_then[OF assms(2) refs_start refs_evidence_list])
    apply (rule refs_then[OF _ _ refs_index[OF out_reindex_g[OF assms(1)]]], assumption+)
    apply (rule refs_next[OF _ _ out_claim], assumption+)
    by (erule refs_outcome) (auto simp: no_outcome_refs_def)
qed

lemma verify_task_g:
  assumes "durable_demo env" and "good w"
  shows "returns_stored run task w (verify_task env run task)"
  unfolding verify_task_def record_tool_result_def
  apply (rule out_next[OF assms(2) out_use_tool[OF assms(1)]])
  apply (split if_split, intro conjI impI dur.out_raise)
  apply (rule refs_then[OF _ refs_start refs_evidence[OF out_record_evidence_g]], assumption+)
    apply (simp_all add: result_evidence_def)
  apply (rule refs_next[OF _ _ out_claim], assumption+)
  by (erule refs_outcome) (auto simp: no_outcome_refs_def)

lemma report_task_g:
  assumes "good w"
  shows "returns_stored run task w (report_task run)"
  unfolding report_task_def
  by (rule out_next[OF assms out_verify_run]) (rule refs_outcome[OF refs_start], simp_all add: no_outcome_refs_def)

lemmas tasks_g = inspect_task_g research_task_g implement_task_g verify_task_g report_task_g

lemma demo_execute_g:
  assumes "durable_demo env" and "good w"
  shows "outcome durable (\<lambda>v w'. \<forall>out. v = Some out \<longrightarrow> outcome_stored run task out (w_db w')) w
    (demo_execute env run task)"
  unfolding demo_execute_def
  by (rule out_bnd_g[OF assms(2), of "\<lambda>v w'. outcome_stored run task v (w_db w')"])
    (simp_all add: tasks_g assms dur.out_raise dur.out_ret)

text \<open>
  What the demonstration worker returns is in the database: whatever its tools and its
  environment do, when a task returns an outcome, every evidence identifier of it is a verified
  record of that run and that task, every artifact identifier is in the catalogue under that run, and
  the snapshot it names is stored; and all of this stays so in every later database.
\<close>

lemma demo_outcome_is_stored:
  assumes "durable_demo env" and "good w" and "demo_execute env run task w = (Inr (Some out), w')"
    and "evolves (w_db w') d"
  shows "outcome_stored run task out d"
proof -
  have d: "durable w w'" using out_demo_execute[OF assms(1)] assms(3) by (rule outcomeD)
  have "outcome_stored run task out (w_db w')"
    using outcomeD_val[OF demo_execute_g[OF assms(1,2)] assms(3)] by simp
  then show ?thesis
    using assms(4) durable_good[OF d assms(2)] good_wf by (blast intro: outcome_stored_evolves)
qed

section \<open>An example\<close>

text \<open>
  The verification task, run again after a crash: the test runner's result is in the journal and is
  not computed a second time.
\<close>

definition pytest_tool :: tool where
  "pytest_tool = \<lparr>tool_definition = \<lparr>td_name = ''test.run'', td_description = [],
     td_input_schema = JObj [], td_output_schema = JObj [], td_timeout_seconds = 1,
     td_required_permissions = {}, td_side_effect_class = IDEMPOTENT, td_retry_safe = True,
     td_produces_evidence = False\<rparr>,
     tool_body = (\<lambda>args. ret (JObj [(''exit_code'', JInt 0), (''stdout'', JStr ''5 passed'')])),
     tool_reconcile = (\<lambda>c. ret None)\<rparr>"

definition example_demo :: demo_env where
  "example_demo = \<lparr>dw_root = ''/'',
     dw_tool_env = \<lparr>te_schema_ok = (\<lambda>s. True), te_instance_ok = (\<lambda>s v. True), te_redact = id,
       te_sha256 = (\<lambda>s. replicate 64 (CHR ''0''))\<rparr>,
     dw_policy = mail_policy, dw_tools = [pytest_tool], dw_hit = (\<lambda>name. ret ()), dw_py_str = (\<lambda>j. ''ok'')\<rparr>"

definition pytest_call :: ToolCall where
  "pytest_call = \<lparr>tc_tool_call_id = ''c'', tc_run_id = ''r'', tc_task_id = ''verify_change'',
     tc_tool_name = ''test.run'', tc_arguments = pytest_arguments, tc_arguments_hash = replicate 64 (CHR ''0''),
     tc_idempotency_key = ''r:verify_change:pytest'', tc_side_effect_class = IDEMPOTENT,
     tc_status = TC_SUCCEEDED, tc_attempt = 1, tc_created_at = 0, tc_started_at = Some 0, tc_finished_at = Some 0\<rparr>"

definition pytest_result :: ToolResult where
  "pytest_result = \<lparr>tl_tool_result_id = ''t'', tl_tool_call_id = ''c'', tl_success = True,
     tl_output = JObj [(''exit_code'', JInt 0), (''stdout'', JStr ''5 passed'')],
     tl_output_hash = ''h'', tl_exit_code = Some 0, tl_truncated = False, tl_duration_seconds = 1, tl_created_at = 0\<rparr>"

definition demo_db :: database where
  "demo_db = lease_db\<lparr>db_tool_calls := [pytest_call], db_tool_results := [pytest_result]\<rparr>"

definition demo_run :: RunRecord where
  "demo_run = hd (db_runs lease_db)"

definition demo_task :: TaskRecord where
  "demo_task = new_TaskRecord ''r'' ''p'' (example_task ''verify_change'' [])"

definition demo_verified :: "(exn + TaskOutcome option) \<times> world" where
  "demo_verified = demo_execute example_demo demo_run demo_task (calm 0 0 1 demo_db)"

lemma durable_example_demo: "durable_demo example_demo"
  by (simp add: durable_demo_def example_demo_def well_behaved_def pytest_tool_def dur.out_ret eff.out_ret)

lemma wf_demo_db: "wf_db demo_db"
  using wf_lease_db by (simp add: demo_db_def lease_db_def wf_db_def empty_db_def pytest_call_def pytest_result_def)

lemma demo_sel [calm_simps]:
  "rr_run_id demo_run = ''r''" "tr_task_id demo_task = ''verify_change''"
  "get_tool ''test.run'' (dw_tools example_demo) = Inr pytest_tool"
  "check_policy (dw_policy example_demo) (tool_definition pytest_tool) = Inr ()"
  "validate_schema (dw_tool_env example_demo) s v = Inr ()"
  "te_sha256 (dw_tool_env example_demo) = (\<lambda>s. replicate 64 (CHR ''0''))"
  "dw_py_str example_demo = (\<lambda>j. ''ok'')"
  "td_name (tool_definition pytest_tool) = ''test.run''"
  by (simp_all add: demo_run_def demo_task_def lease_db_def new_TaskRecord_def example_task_def get_tool_def
      example_demo_def pytest_tool_def tool_name_def check_policy_def mail_policy_def validate_schema_def)

lemma demo_replay [calm_simps]:
  "get_by_idempotency_key ''r:verify_change:pytest'' (calm k r i demo_db) =
     (Inr (Some (pytest_call, Some pytest_result)), calm (Suc k) r i demo_db)"
  by (simp add: get_by_idempotency_key_def[THEN fun_cong] call_by_key_def result_of_def demo_db_def tbl_get_def
      tool_call_from_row_def tool_result_from_row_def checked_def valid_ToolCall_def valid_ToolResult_def
      pytest_call_def pytest_result_def no_nul_def calm_simps)

lemma demo_pytest [calm_simps]:
  "use_tool example_demo demo_run demo_task ''test.run'' pytest_arguments ''pytest'' (calm k r i demo_db) =
     (Inr pytest_result, calm (Suc k) r i demo_db)"
  by (simp add: use_tool_def[THEN fun_cong] execute_def[THEN fun_cong] claim_call_def[THEN fun_cong] Let_def calm_simps
      pytest_call_def cong: calm_cong)

definition demo_evidence :: EvidenceRecord where
  "demo_evidence = \<lparr>er_evidence_id = ''EVID-x'', er_run_id = ''r'', er_evidence_type = TEST_RESULT,
     er_source = ''pytest -q'', er_source_location = Some ''c'',
     er_content_hash = Some (replicate 64 (CHR ''0'')), er_snapshot_id = None,
     er_related_task_id = Some ''verify_change'', er_reliability = 19 / 20, er_excerpt = ''ok'',
     er_verification_status = VERIFIED,
     er_metadata = JObj [(''success'', JBool True), (''exit_code'', JInt 0), (''truncated'', JBool False),
       (''tool_output_hash'', JStr ''h'')],
     er_created_at = 0\<rparr>"

definition demo_claim :: Claim where
  "demo_claim = \<lparr>cl_claim_id = ''CLAIM-xx'', cl_run_id = ''r'',
     cl_text = ''The modified sample service passes its complete automated test suite.'',
     cl_kind = TEST_SUPPORTED, cl_evidence_ids = [''EVID-x''], cl_related_task_id = Some ''verify_change''\<rparr>"

lemma last_parts: "last_part (calm_id ''evidence'' 1) = ''x''" "last_part (calm_id ''claim'' 2) = ''xx''"
  by code_simp+

lemma demo_records_valid: "valid_EvidenceRecord demo_evidence" "valid_Claim demo_claim"
  by code_simp+

lemma demo_record [calm_simps]:
  "record_tool_result (\<lambda>s. replicate 64 (CHR ''0'')) (\<lambda>j. ''ok'') ''r'' ''verify_change'' ''pytest -q'' pytest_result True
     (calm k r (Suc 0) demo_db) = (Inr demo_evidence, calm (Suc k) (Suc r) (Suc (Suc 0)) (demo_db\<lparr>db_evidence := [demo_evidence]\<rparr>))"
proof -
  have "checked valid_EvidenceRecord demo_evidence = Inr demo_evidence"
    using demo_records_valid by (simp add: checked_def)
  note this[unfolded demo_evidence_def, simp]
  have "add_evidence demo_evidence (calm k (Suc r) 2 demo_db) =
      (Inr (), calm (Suc k) (Suc r) 2 (demo_db\<lparr>db_evidence := [demo_evidence]\<rparr>))"
    by (simp add: add_evidence_def[THEN fun_cong] on_sqlalchemy_error_def[THEN fun_cong] calm_simps demo_db_def
        lease_db_def empty_db_def run_exists_def demo_evidence_def tbl_get_def cong: calm_cong)
  note this[unfolded demo_evidence_def numeral_2_eq_2, simp]
  show ?thesis
    by (simp add: record_tool_result_def record_evidence_def[THEN fun_cong] result_evidence_def pytest_result_def
        calm_simps last_parts[unfolded One_nat_def] demo_evidence_def numeral_2_eq_2 cong: calm_cong)
qed

lemma demo_claimed [calm_simps]:
  "claim ''r'' ''The modified sample service passes its complete automated test suite.'' TEST_SUPPORTED [''EVID-x'']
     (Some ''verify_change'') (calm k r (Suc (Suc 0)) (demo_db\<lparr>db_evidence := [demo_evidence]\<rparr>)) =
   (Inr demo_claim, calm (Suc (Suc k)) r (Suc (Suc (Suc 0))) (snd (projr (add_claim_body demo_claim (demo_db\<lparr>db_evidence := [demo_evidence]\<rparr>)))))"
proof -
  let ?d = "demo_db\<lparr>db_evidence := [demo_evidence]\<rparr>"
  have c: "checked valid_Claim demo_claim = Inr demo_claim" "evidence_from_row demo_evidence = Inr demo_evidence"
    using demo_records_valid by (simp_all add: checked_def evidence_from_row_def)
  note c(1)[unfolded demo_claim_def, simp]
  have "verify_claim demo_claim (evidence_by_id [demo_evidence]) = Inr ()"
    by (auto simp: verify_claim_iff demo_claim_def evidence_by_id_def supports_def demo_evidence_def)
  moreover have "\<exists>d'. add_claim_body demo_claim ?d = Inr ((), d')"
    by (simp add: add_claim_body_def demo_claim_def demo_db_def lease_db_def empty_db_def demo_evidence_def
        run_exists_def claim_links_def)
  moreover have "get_evidence ''r'' (calm k r i ?d) = (Inr [demo_evidence], calm (Suc k) r i ?d)" for k r i
    using c(2) by (simp add: get_evidence_def[THEN fun_cong] calm_simps sort_key_def demo_evidence_def[THEN arg_cong[of _ _ er_run_id]])
  ultimately show ?thesis
    by (auto simp: claim_def[THEN fun_cong] calm_simps last_parts[unfolded numeral_2_eq_2] demo_claim_def numeral_eq_Suc
        add_claim_def[THEN fun_cong] on_sqlalchemy_error_def[THEN fun_cong] cong: calm_cong)
qed

lemma demo_verified_run:
  "yields (\<lambda>v. \<exists>out. v = Some out \<and> to_evidence_ids out = [''EVID-x'']) demo_verified"
proof -
  have "valid_TaskOutcome (no_outcome_refs\<lparr>
       to_evidence_ids := [''EVID-x''], to_test_results := [output_stdout example_demo pytest_result],
       to_context_note := ''pytest completed successfully: ok''\<rparr>)"
    by (simp add: valid_TaskOutcome_def no_outcome_refs_def no_nul_def no_nul_opt_def)
  then show ?thesis
    by (simp add: checked_def[of valid_TaskOutcome] demo_verified_def demo_execute_def[THEN fun_cong] verify_task_def[THEN fun_cong] calm_simps
        pytest_result_def[THEN arg_cong[of _ _ tl_exit_code]] demo_evidence_def[THEN arg_cong[of _ _ er_evidence_id]]
        cong: calm_cong)
qed

lemma demo_outcome_is_stored_witness:
  "\<exists>out w'. demo_verified = (Inr (Some out), w') \<and> to_evidence_ids out = [''EVID-x''] \<and>
     evidence_stored demo_run demo_task ''EVID-x'' (w_db w')"
proof -
  obtain out w' where out: "demo_verified = (Inr (Some out), w')" "to_evidence_ids out = [''EVID-x'']"
    using yieldsD[OF demo_verified_run] by auto
  from demo_outcome_is_stored[OF durable_example_demo good_calm[OF wf_demo_db] out(1)[unfolded demo_verified_def] evolves_refl]
  have "evidence_stored demo_run demo_task ''EVID-x'' (w_db w')" using out(2) by (simp add: outcome_stored_def)
  with out show ?thesis by blast
qed

end
