(* ===== verification/Artifact_Files.thy ===== *)
theory Artifact_Files
  imports Durability "HOL-Library.AList"
begin

text \<open>
  \<open>persistence/artifacts.py\<close> with \<open>open_readonly_no_follow\<close> of \<open>security/paths.py\<close>: the directory of
  artifact files. \<open>put\<close> is a sequence of file-system calls, and other processes run theirs in
  between, so it is a machine with a phase per call; any process may die in any phase. An artifact
  identifier has no slash and does not start with a dot, so its path is an entry of the directory.
\<close>

section \<open>The directory\<close>

text \<open>
  An entry is a regular file with its bytes and modification time, a symbolic link with what it
  resolves to, or anything else. A hard link made by \<open>put\<close> shares a file no one writes any more.
\<close>

datatype link_target = Entry string | Elsewhere | Dangling

datatype inode = Regular string time | Symlink link_target | Special

type_synonym directory = "(string \<times> inode) list"

definition valid_artifact_id :: "string \<Rightarrow> bool" where
  "valid_artifact_id i \<longleftrightarrow> i \<noteq> [] \<and> is_alnum (hd i) \<and> length i \<le> 128 \<and>
     list_all (\<lambda>c. is_alnum c \<or> c \<in> set ''_.-'') (tl i)"

definition temporary_prefix :: string where
  "temporary_prefix = ''.artifact-''"

text \<open>\<open>Path.exists\<close> follows links.\<close>

definition file_exists :: "directory \<Rightarrow> string \<Rightarrow> bool" where
  "file_exists d i = (case map_of d i of
     None \<Rightarrow> False
   | Some (Symlink (Entry n)) \<Rightarrow> map_of d n \<noteq> None
   | Some (Symlink Dangling) \<Rightarrow> False
   | Some _ \<Rightarrow> True)"

definition open_readonly_no_follow :: "directory \<Rightarrow> string \<Rightarrow> exn + string" where
  "open_readonly_no_follow d i = (case map_of d i of
     Some (Regular content _) \<Rightarrow> Inr content | _ \<Rightarrow> Inl (Durable SecurityPolicyError))"

text \<open>\<open>resolve_within_root\<close> of an existing entry: a link is followed, but not out of the directory.\<close>

definition resolve_entry :: "directory \<Rightarrow> string \<Rightarrow> exn + string" where
  "resolve_entry d i = (case map_of d i of
     None \<Rightarrow> Inl (Durable SecurityPolicyError)
   | Some (Symlink (Entry n)) \<Rightarrow> if map_of d n = None then Inl (Durable SecurityPolicyError) else Inr n
   | Some (Symlink _) \<Rightarrow> Inl (Durable SecurityPolicyError)
   | Some _ \<Rightarrow> Inr i)"

definition get_artifact :: "(string \<Rightarrow> string) \<Rightarrow> string \<Rightarrow> string option \<Rightarrow> directory \<Rightarrow> exn + string" where
  "get_artifact sha256 i expected d =
     (if \<not> valid_artifact_id i then Inl (Durable SecurityPolicyError)
      else case resolve_entry d i of
        Inl _ \<Rightarrow> Inl (Durable NotFoundError)
      | Inr target \<Rightarrow> (case open_readonly_no_follow d target of
          Inl e \<Rightarrow> Inl e
        | Inr content \<Rightarrow>
            if expected \<noteq> None \<and> Some (sha256 content) \<noteq> expected
            then Inl (Durable ArtifactIntegrityError) else Inr content))"

section \<open>Writing\<close>

datatype put_result = Stored string | Failed error_class | FileNotFound

text \<open>
  The phases of a \<open>put\<close>: before the existence check; the file exists and is compared; no file, a
  temporary one is made, written, linked; a name taken meanwhile is compared; the temporary file is
  removed, on success and on failure. \<open>Dead\<close>: the process died.
\<close>

datatype phase = Start | Compare | Create | Fill string | Link string | Recheck string | Unlink string
  | Discard string put_result | Finished put_result | Dead

record put_call =
  pc_artifact_id :: string
  pc_content :: string
  pc_phase :: phase

text \<open>One file-system call of a \<open>put\<close>; \<open>temporary\<close> is the name \<open>mkstemp\<close> would choose now.\<close>

definition put_step ::
  "(string \<Rightarrow> string) \<Rightarrow> int \<Rightarrow> string \<Rightarrow> time \<Rightarrow> put_call \<Rightarrow> directory \<Rightarrow> phase \<times> directory" where
  "put_step sha256 maximum_bytes temporary now p d =
     (let i = pc_artifact_id p; content = pc_content p; digest = sha256 content in
      case pc_phase p of
        Start \<Rightarrow>
          (if \<not> valid_artifact_id i \<or> int (length content) > maximum_bytes
           then Finished (Failed SecurityPolicyError)
           else if file_exists d i then Compare else Create, d)
      | Compare \<Rightarrow>
          (case open_readonly_no_follow d i of
             Inl _ \<Rightarrow> Finished (Failed SecurityPolicyError)
           | Inr found \<Rightarrow> if sha256 found \<noteq> digest then Finished (Failed IdempotencyConflictError)
               else Finished (Stored digest), d)
      | Create \<Rightarrow> (Fill temporary, AList.update temporary (Regular [] now) d)
      | Fill t \<Rightarrow> (Link t, AList.update t (Regular content now) d)
      | Link t \<Rightarrow>
          (case map_of d t of
             None \<Rightarrow> (Discard t FileNotFound, d)
           | Some file \<Rightarrow> if map_of d i = None then (Unlink t, AList.update i file d) else (Recheck t, d))
      | Recheck t \<Rightarrow>
          (case open_readonly_no_follow d i of
             Inl _ \<Rightarrow> Discard t (Failed SecurityPolicyError)
           | Inr found \<Rightarrow> if sha256 found \<noteq> digest then Discard t (Failed IdempotencyConflictError)
               else Unlink t, d)
      | Unlink t \<Rightarrow>
          if map_of d t = None then (Discard t FileNotFound, d)
          else (Finished (Stored digest), AList.delete t d)
      | Discard t result \<Rightarrow> (Finished result, AList.delete t d)
      | Finished result \<Rightarrow> (Finished result, d)
      | Dead \<Rightarrow> (Dead, d))"

section \<open>Cleaning\<close>

definition prunable_name :: "string \<Rightarrow> bool" where
  "prunable_name n \<longleftrightarrow> valid_artifact_id n \<or> starts_with temporary_prefix n"

text \<open>
  The loop of \<open>prune_orphans\<close> over the sorted names, with the names it has listed. The caller excludes
  writers, so the second look at a file finds what the first one found.
\<close>

fun prune_loop ::
  "string set \<Rightarrow> time \<Rightarrow> bool \<Rightarrow> string list \<Rightarrow> string list \<Rightarrow> directory \<Rightarrow> (exn + string list) \<times> directory" where
  "prune_loop known older_than dry_run [] candidates d = (Inr candidates, d)"
| "prune_loop known older_than dry_run (n # ns) candidates d =
     (if n = ''.gitkeep'' \<or> n \<in> known then prune_loop known older_than dry_run ns candidates d
      else case map_of d n of
        Some (Symlink _) \<Rightarrow> (Inl (Durable SecurityPolicyError), d)
      | Some (Regular _ modified) \<Rightarrow>
          if \<not> prunable_name n \<or> modified \<ge> older_than then prune_loop known older_than dry_run ns candidates d
          else prune_loop known older_than dry_run ns (candidates @ [n]) (if dry_run then d else AList.delete n d)
      | _ \<Rightarrow> prune_loop known older_than dry_run ns candidates d)"

definition prune_orphans ::
  "string set \<Rightarrow> time \<Rightarrow> bool \<Rightarrow> directory \<Rightarrow> (exn + string list) \<times> directory" where
  "prune_orphans known older_than dry_run d = prune_loop known older_than dry_run (sort (map fst d)) [] d"

section \<open>The store in use\<close>

definition idle :: "put_call \<Rightarrow> bool" where
  "idle p \<longleftrightarrow> (case pc_phase p of Finished _ \<Rightarrow> True | Dead \<Rightarrow> True | _ \<Rightarrow> False)"

definition fresh_temporary :: "string \<Rightarrow> directory \<Rightarrow> bool" where
  "fresh_temporary t d \<longleftrightarrow> starts_with temporary_prefix t \<and> map_of d t = None"

text \<open>
  Any number of \<open>put\<close>s, each one file-system call at a time, in any order; a write may be cut short
  by a crash; a process may die anywhere; and a cleaning that knows the identifiers \<open>keep\<close> of the
  catalogue runs while no \<open>put\<close> does.
\<close>

inductive store_step ::
  "(string \<Rightarrow> string) \<Rightarrow> int \<Rightarrow> string set \<Rightarrow> directory \<times> put_call list \<Rightarrow> directory \<times> put_call list \<Rightarrow> bool"
  for sha256 maximum_bytes keep where
  begin_put: "store_step sha256 maximum_bytes keep (d, ps)
    (d, ps @ [\<lparr>pc_artifact_id = i, pc_content = content, pc_phase = Start\<rparr>])"
| run_put: "k < length ps \<Longrightarrow> fresh_temporary t d \<Longrightarrow> put_step sha256 maximum_bytes t now (ps ! k) d = (ph, d') \<Longrightarrow>
    store_step sha256 maximum_bytes keep (d, ps) (d', ps[k := (ps ! k)\<lparr>pc_phase := ph\<rparr>])"
| partial_write: "k < length ps \<Longrightarrow> pc_phase (ps ! k) = Fill t \<Longrightarrow>
    store_step sha256 maximum_bytes keep (d, ps)
      (AList.update t (Regular (take n (pc_content (ps ! k))) now) d, ps)"
| die: "k < length ps \<Longrightarrow> store_step sha256 maximum_bytes keep (d, ps) (d, ps[k := (ps ! k)\<lparr>pc_phase := Dead\<rparr>])"
| clean: "list_all idle ps \<Longrightarrow> keep \<subseteq> known \<Longrightarrow> prune_orphans known older_than dry_run d = (r, d') \<Longrightarrow>
    store_step sha256 maximum_bytes keep (d, ps) (d', ps)"

abbreviation store_steps ::
  "(string \<Rightarrow> string) \<Rightarrow> int \<Rightarrow> string set \<Rightarrow> directory \<times> put_call list \<Rightarrow> directory \<times> put_call list \<Rightarrow> bool" where
  "store_steps sha256 maximum_bytes keep \<equiv> (store_step sha256 maximum_bytes keep)\<^sup>*\<^sup>*"

section \<open>Cleaning keeps what it must\<close>

definition orphan :: "string set \<Rightarrow> time \<Rightarrow> directory \<Rightarrow> string \<Rightarrow> bool" where
  "orphan known older_than d n \<longleftrightarrow> n \<noteq> ''.gitkeep'' \<and> n \<notin> known \<and> prunable_name n \<and>
     (\<exists>content modified. map_of d n = Some (Regular content modified) \<and> modified < older_than)"

definition stray_link :: "string set \<Rightarrow> directory \<Rightarrow> string \<Rightarrow> bool" where
  "stray_link known d n \<longleftrightarrow> n \<noteq> ''.gitkeep'' \<and> n \<notin> known \<and> (\<exists>t. map_of d n = Some (Symlink t))"

lemma delete_lookup: "map_of (AList.delete n d) m = (if m = n then None else map_of d m)"
  by (simp add: AList.delete_conv')

lemma orphan_delete: "m \<noteq> n \<Longrightarrow> orphan known t (AList.delete n d) m = orphan known t d m"
  "m \<noteq> n \<Longrightarrow> stray_link known (AList.delete n d) m = stray_link known d m"
  by (simp_all add: orphan_def stray_link_def delete_lookup)

definition removed :: "bool \<Rightarrow> string list \<Rightarrow> directory \<Rightarrow> directory" where
  "removed dry_run names d = (if dry_run then d else filter (\<lambda>e. fst e \<notin> set names) d)"

lemma removed_simps: "removed b [] d = d" "removed True ns d = d"
  "removed False ns (AList.delete n d) = removed False (n # ns) d"
  by (auto simp: removed_def AList.delete_eq filter_filter intro: filter_cong)

lemma prune_loop_cases:
  "stray_link known d n \<Longrightarrow> prune_loop known t dry (n # ns) cs d = (Inl (Durable SecurityPolicyError), d)"
  "orphan known t d n \<Longrightarrow> prune_loop known t dry (n # ns) cs d =
     prune_loop known t dry ns (cs @ [n]) (if dry then d else AList.delete n d)"
  "\<not> stray_link known d n \<Longrightarrow> \<not> orphan known t d n \<Longrightarrow>
     prune_loop known t dry (n # ns) cs d = prune_loop known t dry ns cs d"
  by (auto simp: stray_link_def orphan_def split: option.splits inode.splits)

lemma orphan_not_stray: "orphan known t d n \<Longrightarrow> \<not> stray_link known d n"
  by (auto simp: orphan_def stray_link_def)

lemma prune_loop_spec:
  assumes "distinct ns"
  shows "prune_loop known t dry ns cs d =
    (let before = takeWhile (\<lambda>n. \<not> stray_link known d n) ns; found = filter (orphan known t d) before in
     (if before = ns then Inr (cs @ found) else Inl (Durable SecurityPolicyError), removed dry found d))"
  using assms
proof (induction ns arbitrary: cs d)
  case Nil
  then show ?case by (simp add: removed_simps)
next
  case (Cons n ns)
  let ?d = "if dry then d else AList.delete n d"
  have neq: "m \<noteq> n" if "m \<in> set ns" for m using Cons.prems that by auto
  have same: "takeWhile (\<lambda>m. \<not> stray_link known ?d m) ns = takeWhile (\<lambda>m. \<not> stray_link known d m) ns"
    by (intro takeWhile_cong) (simp_all add: orphan_delete neq)
  then have "filter (orphan known t ?d) (takeWhile (\<lambda>m. \<not> stray_link known ?d m) ns) =
      filter (orphan known t d) (takeWhile (\<lambda>m. \<not> stray_link known d m) ns)"
    by (auto simp: orphan_delete neq dest: set_takeWhileD intro!: filter_cong)
  note found = this
  consider "stray_link known d n" | "orphan known t d n" | "\<not> stray_link known d n" "\<not> orphan known t d n" by blast
  then show ?case
  proof cases
    case 1
    then show ?thesis by (simp add: prune_loop_cases Let_def removed_simps del: prune_loop.simps(2))
  next
    case 2
    then have "\<not> stray_link known d n" by (rule orphan_not_stray)
    with 2 show ?thesis
      using Cons.IH[of "cs @ [n]" ?d] Cons.prems same found
      by (cases dry) (simp_all add: neq orphan_delete prune_loop_cases Let_def removed_simps del: prune_loop.simps(2))
  next
    case 3
    then show ?thesis using Cons.IH[of cs d] Cons.prems by (simp add: prune_loop_cases Let_def del: prune_loop.simps(2))
  qed
qed

lemma prune_orphans_eq:
  assumes "distinct (map fst d)"
  shows "prune_orphans known t dry d =
    (let ns = sort (map fst d); before = takeWhile (\<lambda>n. \<not> stray_link known d n) ns;
         found = filter (orphan known t d) before in
     (if before = ns then Inr found else Inl (Durable SecurityPolicyError), removed dry found d))"
  unfolding prune_orphans_def using assms by (simp add: prune_loop_spec Let_def)

lemma lookup_removed: "map_of (removed dry ns d) n = (if \<not> dry \<and> n \<in> set ns then None else map_of d n)"
proof -
  have "map_of (filter (\<lambda>e. fst e \<notin> set ns) d) n = (if n \<in> set ns then None else map_of d n)"
    by (induction d) auto
  then show ?thesis by (simp add: removed_def)
qed

text \<open>
  What the cleaning of the artifact directory deletes: it looks at the names in order and refuses at
  the first stray symbolic link; when there is none it reports exactly the orphans (uncatalogued regular
  files of an artifact's or temporary file's name, older than the cutoff), in order; a dry run deletes
  nothing, and a run deletes reported orphans only, so every other entry is as it was.
\<close>

lemma prune_orphans_spec:
  assumes "distinct (map fst d)" and "prune_orphans known older_than dry_run d = (r, d')"
  shows "r = (if \<exists>n \<in> fst ` set d. stray_link known d n then Inl (Durable SecurityPolicyError)
      else Inr (filter (orphan known older_than d) (sort (map fst d)))) \<and>
    (dry_run \<longrightarrow> d' = d) \<and>
    (\<forall>n. map_of d' n = map_of d n \<or> (\<not> dry_run \<and> orphan known older_than d n \<and> map_of d' n = None)) \<and>
    (\<forall>names. r = Inr names \<and> \<not> dry_run \<longrightarrow> (\<forall>n. map_of d' n = (if n \<in> set names then None else map_of d n)))"
proof -
  let ?ns = "sort (map fst d)"
  let ?before = "takeWhile (\<lambda>n. \<not> stray_link known d n) ?ns"
  let ?found = "filter (orphan known older_than d) ?before"
  have r: "r = (if ?before = ?ns then Inr ?found else Inl (Durable SecurityPolicyError))"
    and d': "d' = removed dry_run ?found d"
    using assms by (simp_all add: prune_orphans_eq Let_def)
  define found where "found = ?found"
  have names: "r = (if \<exists>n \<in> fst ` set d. stray_link known d n then Inl (Durable SecurityPolicyError)
      else Inr (filter (orphan known older_than d) ?ns))"
  proof (cases "\<exists>n \<in> fst ` set d. stray_link known d n")
    case True
    then have "?before \<noteq> ?ns" by (auto simp: takeWhile_eq_all_conv)
    with True r show ?thesis by simp
  next
    case False
    then have "?before = ?ns" by (auto simp: takeWhile_eq_all_conv)
    with False r show ?thesis by (metis (no_types, lifting))
  qed
  have "orphan known older_than d n" if "n \<in> set found" for n using that by (simp add: found_def)
  moreover have "r = Inr found" if "r = Inr names" for names using r that by (auto simp: found_def split: if_splits)
  moreover have "removed True ns d = d" for ns by (simp add: removed_def)
  ultimately have "(dry_run \<longrightarrow> d' = d) \<and>
    (\<forall>n. map_of d' n = map_of d n \<or> (\<not> dry_run \<and> orphan known older_than d n \<and> map_of d' n = None)) \<and>
    (\<forall>names. r = Inr names \<and> \<not> dry_run \<longrightarrow> (\<forall>n. map_of d' n = (if n \<in> set names then None else map_of d n)))"
    unfolding d' found_def[symmetric] by (auto simp: lookup_removed)
  with names show ?thesis by blast
qed

section \<open>Concurrent writers\<close>

fun temporary_of :: "phase \<Rightarrow> string option" where
  "temporary_of (Fill t) = Some t"
| "temporary_of (Link t) = Some t"
| "temporary_of (Recheck t) = Some t"
| "temporary_of (Unlink t) = Some t"
| "temporary_of (Discard t _) = Some t"
| "temporary_of _ = None"

definition stored_file :: "(string \<Rightarrow> string) \<Rightarrow> directory \<Rightarrow> string \<Rightarrow> string \<Rightarrow> bool" where
  "stored_file sha256 d i h \<longleftrightarrow> (\<exists>content modified. map_of d i = Some (Regular content modified) \<and> sha256 content = h)"

definition owns :: "directory \<Rightarrow> put_call \<Rightarrow> bool" where
  "owns d p \<longleftrightarrow> (\<forall>t. temporary_of (pc_phase p) = Some t \<longrightarrow>
     \<not> valid_artifact_id t \<and> (\<exists>x m. map_of d t = Some (Regular x m)) \<and>
     (pc_phase p = Link t \<longrightarrow> (\<exists>m. map_of d t = Some (Regular (pc_content p) m))))"

definition call_ok :: "(string \<Rightarrow> string) \<Rightarrow> string set \<Rightarrow> directory \<Rightarrow> put_call \<Rightarrow> bool" where
  "call_ok sha256 keep d p \<longleftrightarrow> owns d p \<and>
     (case pc_phase p of
        Start \<Rightarrow> True
      | Dead \<Rightarrow> True
      | Finished (Stored h) \<Rightarrow> h = sha256 (pc_content p) \<and> valid_artifact_id (pc_artifact_id p) \<and>
          (pc_artifact_id p \<in> keep \<longrightarrow> stored_file sha256 d (pc_artifact_id p) h)
      | Finished _ \<Rightarrow> True
      | Unlink t \<Rightarrow> valid_artifact_id (pc_artifact_id p) \<and> stored_file sha256 d (pc_artifact_id p) (sha256 (pc_content p))
      | Discard t r \<Rightarrow> (\<forall>h. r \<noteq> Stored h)
      | _ \<Rightarrow> valid_artifact_id (pc_artifact_id p))"

lemma starts_with_self: "starts_with p (p @ s)"
  by (simp add: starts_with_def)

lemma temporary_not_valid: "fresh_temporary t d \<Longrightarrow> \<not> valid_artifact_id t"
proof
  assume "fresh_temporary t d" "valid_artifact_id t"
  then have "take 1 t = ''.''" "is_alnum (hd t)" "t \<noteq> []"
    unfolding fresh_temporary_def starts_with_def temporary_prefix_def valid_artifact_id_def
    by (auto simp: take_Cons' split: if_splits dest: arg_cong[of _ _ "take 1"])
  then show False by (cases t) (simp_all add: is_alnum_def)
qed

text \<open>A call keeps its standing when the entries it relies on stay.\<close>

lemma call_ok_frame:
  assumes "call_ok sha256 keep d p"
    and "\<And>n. map_of d n \<noteq> None \<Longrightarrow> (valid_artifact_id n \<and> (n \<in> keep \<or> \<not> idle p)) \<or> temporary_of (pc_phase p) = Some n \<Longrightarrow>
      map_of d' n = map_of d n"
  shows "call_ok sha256 keep d' p"
proof -
  have "owns d' p"
    using assms unfolding call_ok_def owns_def by (metis option.distinct(1))
  moreover have "stored_file sha256 d' i h" if "stored_file sha256 d i h" "valid_artifact_id i" "i \<in> keep \<or> \<not> idle p" for i h
    using that assms(2)[of i] by (auto simp: stored_file_def)
  ultimately show ?thesis
    using assms(1) unfolding call_ok_def
    by (auto simp: idle_def split: phase.splits put_result.splits)
qed

lemma update_lookup: "map_of (AList.update k v d) n = (if n = k then Some v else map_of d n)"
  by (simp add: AList.update_conv')

lemma open_Inr: "open_readonly_no_follow d i = Inr x \<longleftrightarrow> (\<exists>m. map_of d i = Some (Regular x m))"
  by (auto simp: open_readonly_no_follow_def split: option.splits inode.splits)

lemma put_step_ok:
  assumes "call_ok sha256 keep d p" and "fresh_temporary t d"
    and "put_step sha256 maximum_bytes t now p d = (ph, d')"
  shows "call_ok sha256 keep d' (p\<lparr>pc_phase := ph\<rparr>)"
proof (cases p)
  case (fields i content q)
  note A = assms[unfolded fields] temporary_not_valid[OF assms(2)]
  note D = put_step_def Let_def call_ok_def owns_def
  show ?thesis
  proof (cases q)
    case Start
    then show ?thesis
      unfolding fields using A by (auto simp: D split: if_splits)
  next
    case Compare
    then show ?thesis
      unfolding fields using A by (auto simp: D open_Inr stored_file_def split: if_splits sum.splits)
  next
    case Create
    then show ?thesis
      unfolding fields using A by (auto simp: D update_lookup)
  next
    case (Fill s)
    then show ?thesis
      unfolding fields using A by (auto simp: D update_lookup)
  next
    case (Link s)
    then obtain m where m: "map_of d s = Some (Regular content m)" "\<not> valid_artifact_id s" "valid_artifact_id i"
      using A(1) by (auto simp: call_ok_def owns_def)
    show ?thesis
    proof (cases "map_of d i")
      case None
      then have "ph = Unlink s" "d' = AList.update i (Regular content m) d"
        using A(3) Link m by (simp_all add: put_step_def Let_def)
      then show ?thesis unfolding fields using m by (auto simp: call_ok_def owns_def stored_file_def update_lookup)
    next
      case (Some x)
      then have "ph = Recheck s" "d' = d" using A(3) Link m by (simp_all add: put_step_def Let_def)
      then show ?thesis unfolding fields using m by (simp add: call_ok_def owns_def)
    qed
  next
    case (Recheck s)
    then show ?thesis
      unfolding fields using A by (auto simp: D open_Inr stored_file_def split: if_splits sum.splits)
  next
    case (Unlink s)
    then have "ph = Finished (Stored (sha256 content))" "d' = AList.delete s d" "\<not> valid_artifact_id s"
      "valid_artifact_id i" "stored_file sha256 d i (sha256 content)"
      using A by (auto simp: D)
    then show ?thesis
      unfolding fields by (auto simp: call_ok_def owns_def stored_file_def delete_lookup)
  next
    case (Discard s r)
    then show ?thesis
      unfolding fields using A by (auto simp: D split: put_result.splits)
  next
    case (Finished r)
    then show ?thesis
      unfolding fields using A by (simp add: put_step_def Let_def)
  next
    case Dead
    then show ?thesis
      unfolding fields using A by (simp add: put_step_def Let_def)
  qed
qed

lemma put_step_frame:
  assumes "fresh_temporary t d" and "put_step sha256 maximum_bytes t now p d = (ph, d')"
    and "map_of d n \<noteq> None" and "temporary_of (pc_phase p) \<noteq> Some n"
  shows "map_of d' n = map_of d n"
  using assms
  by (cases "pc_phase p")
    (auto simp: put_step_def Let_def update_lookup delete_lookup fresh_temporary_def split: if_splits option.splits sum.splits)

lemma put_step_temporary:
  assumes "put_step sha256 maximum_bytes t now p d = (ph, d')" and "temporary_of ph = Some s"
  shows "s = t \<or> temporary_of (pc_phase p) = Some s"
  using assms
  by (cases "pc_phase p") (auto simp: put_step_def Let_def split: if_splits option.splits sum.splits)

lemma put_step_new:
  assumes "call_ok sha256 keep d p" and "fresh_temporary t d"
    and "put_step sha256 maximum_bytes t now p d = (ph, d')"
    and "valid_artifact_id i" and "map_of d' i = Some (Regular x m)"
  shows "map_of d i = Some (Regular x m) \<or> (i = pc_artifact_id p \<and> x = pc_content p)"
  using assms temporary_not_valid[OF assms(2)]
  by (cases "pc_phase p")
    (auto simp: put_step_def Let_def call_ok_def owns_def update_lookup delete_lookup
      split: if_splits option.splits sum.splits)

lemma put_step_distinct:
  "put_step sha256 maximum_bytes t now p d = (ph, d') \<Longrightarrow> distinct (map fst d) \<Longrightarrow> distinct (map fst d')"
  by (cases "pc_phase p")
    (auto simp: put_step_def Let_def distinct_update AList.distinct_delete split: if_splits option.splits sum.splits)

text \<open>The invariant of the store, relative to the directory \<open>d0\<close> it started from.\<close>

definition store_inv ::
  "(string \<Rightarrow> string) \<Rightarrow> string set \<Rightarrow> directory \<Rightarrow> directory \<times> put_call list \<Rightarrow> bool" where
  "store_inv sha256 keep d0 = (\<lambda>(d, ps).
     distinct (map fst d) \<and> list_all (call_ok sha256 keep d) ps \<and>
     (\<forall>k l t. k < length ps \<longrightarrow> l < length ps \<longrightarrow> temporary_of (pc_phase (ps ! k)) = Some t \<longrightarrow>
        temporary_of (pc_phase (ps ! l)) = Some t \<longrightarrow> k = l) \<and>
     (\<forall>i x m. valid_artifact_id i \<longrightarrow> map_of d i = Some (Regular x m) \<longrightarrow>
        map_of d0 i = Some (Regular x m) \<or> (\<exists>p \<in> set ps. pc_artifact_id p = i \<and> pc_content p = x)) \<and>
     (\<forall>i x m. valid_artifact_id i \<longrightarrow> i \<in> keep \<longrightarrow> map_of d0 i = Some (Regular x m) \<longrightarrow>
        map_of d i = Some (Regular x m)))"

lemma store_inv_start: "distinct (map fst d) \<Longrightarrow> store_inv sha256 keep d (d, [])"
  by (simp add: store_inv_def)

text \<open>A step of call \<open>k\<close> that leaves the entries of the others alone keeps the invariant.\<close>

lemma store_inv_change:
  assumes inv: "store_inv sha256 keep d0 (d, ps)" and k: "k < length ps"
    and distinct: "distinct (map fst d')" and ok: "call_ok sha256 keep d' q"
    and same: "pc_artifact_id q = pc_artifact_id (ps ! k)" "pc_content q = pc_content (ps ! k)"
    and frame: "\<And>n. map_of d n \<noteq> None \<Longrightarrow> temporary_of (pc_phase (ps ! k)) \<noteq> Some n \<Longrightarrow> map_of d' n = map_of d n"
    and new: "\<And>i x m. valid_artifact_id i \<Longrightarrow> map_of d' i = Some (Regular x m) \<Longrightarrow>
      map_of d i = Some (Regular x m) \<or> (i = pc_artifact_id q \<and> x = pc_content q)"
    and temp: "\<And>t. temporary_of (pc_phase q) = Some t \<Longrightarrow>
      map_of d t = None \<or> temporary_of (pc_phase (ps ! k)) = Some t"
  shows "store_inv sha256 keep d0 (d', ps[k := q])"
proof -
  have okd: "call_ok sha256 keep d (ps ! l)" if "l < length ps" for l
    using inv that by (simp add: store_inv_def list_all_length)
  have own: "\<not> valid_artifact_id t \<and> map_of d t \<noteq> None" if "l < length ps" "temporary_of (pc_phase (ps ! l)) = Some t" for l t
    using okd[OF that(1)] that(2) by (auto simp: call_ok_def owns_def)
  have uniq: "k = l" if "l < length ps" "temporary_of (pc_phase (ps ! k)) = Some t" "temporary_of (pc_phase (ps ! l)) = Some t" for l t
    using inv k that unfolding store_inv_def by blast
  have others: "call_ok sha256 keep d' (ps ! l)" if l: "l < length ps" "l \<noteq> k" for l
  proof (rule call_ok_frame[OF okd[OF l(1)]])
    fix n assume "map_of d n \<noteq> None"
      and n: "valid_artifact_id n \<and> (n \<in> keep \<or> \<not> idle (ps ! l)) \<or> temporary_of (pc_phase (ps ! l)) = Some n"
    moreover have "temporary_of (pc_phase (ps ! k)) \<noteq> Some n"
      using n own[OF k] uniq[OF l(1)] l(2) by blast
    ultimately show "map_of d' n = map_of d n" using frame by blast
  qed
  have "list_all (call_ok sha256 keep d') (ps[k := q])"
    using others ok k by (auto simp: list_all_length nth_list_update)
  moreover have "a = b" if ab: "a < length ps" "b < length ps" "temporary_of (pc_phase (ps[k := q] ! a)) = Some t"
    "temporary_of (pc_phase (ps[k := q] ! b)) = Some t" for a b t
  proof -
    have old: "temporary_of (pc_phase (ps ! k)) = Some t" if "l < length ps" "l \<noteq> k" "temporary_of (pc_phase q) = Some t"
      "temporary_of (pc_phase (ps ! l)) = Some t" for l
      using temp[OF that(3)] own[OF that(1,4)] by blast
    consider "a = k" "b = k" | "a \<noteq> k" "b = k" | "a = k" "b \<noteq> k" | "a \<noteq> k" "b \<noteq> k" by blast
    then show ?thesis
    proof cases
      case 2
      then show ?thesis using ab old[of a] uniq[of a t] k by simp
    next
      case 3
      then show ?thesis using ab old[of b] uniq[of b t] k by simp
    next
      case 4
      then show ?thesis using ab inv by (simp add: store_inv_def)
    qed simp
  qed
  moreover have "map_of d0 i = Some (Regular x m) \<or> (\<exists>p \<in> set (ps[k := q]). pc_artifact_id p = i \<and> pc_content p = x)"
    if "valid_artifact_id i" "map_of d' i = Some (Regular x m)" for i x m
  proof -
    have q: "q \<in> set (ps[k := q])" using k by (rule set_update_memI)
    have "\<exists>p' \<in> set (ps[k := q]). pc_artifact_id p' = pc_artifact_id p \<and> pc_content p' = pc_content p" if p: "p \<in> set ps" for p
    proof -
      obtain l where l: "l < length ps" "p = ps ! l" using p by (auto simp: in_set_conv_nth)
      show ?thesis
      proof (cases "l = k")
        case True
        then show ?thesis using q same l by auto
      next
        case False
        then have "p = ps[k := q] ! l" "l < length (ps[k := q])" using l by simp_all
        then show ?thesis by (metis nth_mem)
      qed
    qed
    moreover have "map_of d0 i = Some (Regular x m) \<or> (\<exists>p \<in> set ps. pc_artifact_id p = i \<and> pc_content p = x)"
      if "map_of d i = Some (Regular x m)"
      using inv \<open>valid_artifact_id i\<close> that by (simp add: store_inv_def)
    ultimately show ?thesis using new[OF that] q by metis
  qed
  moreover have "map_of d' i = Some (Regular x m)" if i: "valid_artifact_id i" "i \<in> keep" "map_of d0 i = Some (Regular x m)" for i x m
  proof -
    have "map_of d i = Some (Regular x m)" using inv i by (simp add: store_inv_def)
    moreover have "temporary_of (pc_phase (ps ! k)) \<noteq> Some i" using own[OF k] i(1) by blast
    ultimately show ?thesis using frame[of i] by simp
  qed
  ultimately show ?thesis using distinct by (simp add: store_inv_def)
qed

lemma store_inv_ok: "store_inv sha256 keep d0 (d, ps) \<Longrightarrow> k < length ps \<Longrightarrow> call_ok sha256 keep d (ps ! k)"
  by (simp add: store_inv_def list_all_length)

lemma idle_temporary: "idle p \<Longrightarrow> temporary_of (pc_phase p) = None"
  by (auto simp: idle_def split: phase.splits)

lemma store_inv_clean:
  assumes inv: "store_inv sha256 keep d0 (d, ps)" and idle: "list_all idle ps" and known: "keep \<subseteq> known"
    and prune: "prune_orphans known older_than dry_run d = (r, d')"
  shows "store_inv sha256 keep d0 (d', ps)"
proof -
  have dist: "distinct (map fst d)" using inv by (simp add: store_inv_def)
  define ns where "ns = filter (orphan known older_than d) (takeWhile (\<lambda>n. \<not> stray_link known d n) (sort (map fst d)))"
  have d': "d' = removed dry_run ns d" "\<And>n. n \<in> set ns \<Longrightarrow> orphan known older_than d n"
    using prune dist by (simp_all add: prune_orphans_eq Let_def ns_def)
  have kept: "map_of d' n = map_of d n" if "n \<in> keep" for n
    using d' known that by (auto simp: lookup_removed orphan_def)
  have less: "map_of d' n = Some v \<Longrightarrow> map_of d n = Some v" for n v
    by (auto simp: d'(1) lookup_removed split: if_splits)
  have "distinct (map fst d')" using dist by (auto simp: d'(1) removed_def distinct_map_filter)
  moreover have "call_ok sha256 keep d' p" if "p \<in> set ps" for p
  proof (rule call_ok_frame)
    show "call_ok sha256 keep d p" using inv that by (simp add: store_inv_def list_all_iff)
    fix n assume "valid_artifact_id n \<and> (n \<in> keep \<or> \<not> idle p) \<or> temporary_of (pc_phase p) = Some n"
    then have "n \<in> keep" using idle that by (auto simp: list_all_iff idle_temporary)
    then show "map_of d' n = map_of d n" by (rule kept)
  qed
  moreover have "temporary_of (pc_phase (ps ! k)) = None" if "k < length ps" for k
    using idle that by (simp add: list_all_length idle_temporary)
  moreover have "map_of d0 i = Some (Regular x m) \<or> (\<exists>p \<in> set ps. pc_artifact_id p = i \<and> pc_content p = x)"
    if "valid_artifact_id i" "map_of d' i = Some (Regular x m)" for i x m
    using inv that(1) less[OF that(2)] by (simp add: store_inv_def)
  moreover have "map_of d' i = Some (Regular x m)" if "valid_artifact_id i" "i \<in> keep" "map_of d0 i = Some (Regular x m)" for i x m
    using inv that kept by (simp add: store_inv_def)
  ultimately show ?thesis by (simp add: store_inv_def list_all_iff)
qed

lemma store_inv_step:
  assumes "store_step sha256 maximum_bytes keep s s'" and "store_inv sha256 keep d0 s"
  shows "store_inv sha256 keep d0 s'"
  using assms
proof (induction rule: store_step.induct)
  case (begin_put d ps i content)
  let ?p = "\<lparr>pc_artifact_id = i, pc_content = content, pc_phase = Start\<rparr>"
  have "call_ok sha256 keep d ?p" by (simp add: call_ok_def owns_def)
  with begin_put show ?case
    unfolding store_inv_def by (auto simp: nth_append less_Suc_eq split: if_splits) blast+
next
  case (run_put k ps t d now ph d')
  note ok = store_inv_ok[OF run_put(4,1)]
  have "distinct (map fst d)" using run_put(4) by (simp add: store_inv_def)
  then have "distinct (map fst d')" by (rule put_step_distinct[OF run_put(3)])
  then show ?case
  proof (rule store_inv_change[OF run_put(4,1) _ put_step_ok[OF ok run_put(2,3)]])
    show "map_of d' n = map_of d n" if "map_of d n \<noteq> None" "temporary_of (pc_phase (ps ! k)) \<noteq> Some n" for n
      by (rule put_step_frame[OF run_put(2,3) that])
    show "map_of d i = Some (Regular x m) \<or> (i = pc_artifact_id ((ps ! k)\<lparr>pc_phase := ph\<rparr>) \<and> x = pc_content ((ps ! k)\<lparr>pc_phase := ph\<rparr>))"
      if "valid_artifact_id i" "map_of d' i = Some (Regular x m)" for i x m
      using put_step_new[OF ok run_put(2,3) that] by simp
    show "map_of d s = None \<or> temporary_of (pc_phase (ps ! k)) = Some s"
      if "temporary_of (pc_phase ((ps ! k)\<lparr>pc_phase := ph\<rparr>)) = Some s" for s
      using put_step_temporary[OF run_put(3), of s] that run_put(2) by (auto simp: fresh_temporary_def)
  qed simp_all
next
  case (partial_write k ps t d n now)
  note ok = store_inv_ok[OF partial_write(3,1)]
  have t: "\<not> valid_artifact_id t" using ok partial_write(2) by (simp add: call_ok_def owns_def)
  let ?d = "AList.update t (Regular (take n (pc_content (ps ! k))) now) d"
  have "store_inv sha256 keep d0 (?d, ps[k := ps ! k])"
  proof (rule store_inv_change[OF partial_write(3,1)])
    show "distinct (map fst ?d)" using partial_write(3) by (simp add: store_inv_def distinct_update)
    show "call_ok sha256 keep ?d (ps ! k)"
      using ok partial_write(2) by (simp add: call_ok_def owns_def update_lookup)
  qed (use t partial_write(2) in \<open>auto simp: update_lookup split: if_splits\<close>)
  then show ?case by simp
next
  case (die k ps d)
  have "distinct (map fst d)" using die(2) by (simp add: store_inv_def)
  moreover have "call_ok sha256 keep d ((ps ! k)\<lparr>pc_phase := Dead\<rparr>)" by (simp add: call_ok_def owns_def)
  ultimately show ?case by (rule store_inv_change[OF die(2,1)]) simp_all
next
  case (clean ps known d older_than dry_run r d')
  show ?case by (rule store_inv_clean[OF clean(4,1-3)])
qed

lemma store_inv_steps:
  "store_steps sha256 maximum_bytes keep s s' \<Longrightarrow> store_inv sha256 keep d0 s \<Longrightarrow> store_inv sha256 keep d0 s'"
  by (induction rule: rtranclp_induct) (auto intro: store_inv_step)

text \<open>
  C10. The artifact store is write-once and atomic: from any directory, under any interleaving of \<open>put\<close>s
  by any number of processes that may each die anywhere, with cleanings that spare the identifiers
  \<open>keep\<close> of the catalogue: a file under an artifact identifier always has the content it had at the
  start or the complete content of one \<open>put\<close> under that identifier; the files of \<open>keep\<close> never change
  or disappear; and when a \<open>put\<close> under \<open>keep\<close> has answered with a digest, it is the digest of its
  content, and \<open>get\<close> with that digest reads a file of that digest, then and ever after.
\<close>

theorem artifact_store_write_once:
  assumes "distinct (map fst d0)" and "store_steps sha256 maximum_bytes keep (d0, []) (d, ps)"
  shows "(\<forall>i x m. valid_artifact_id i \<and> map_of d i = Some (Regular x m) \<longrightarrow>
      map_of d0 i = Some (Regular x m) \<or> (\<exists>p \<in> set ps. pc_artifact_id p = i \<and> pc_content p = x)) \<and>
    (\<forall>i x m. valid_artifact_id i \<and> i \<in> keep \<and> map_of d0 i = Some (Regular x m) \<longrightarrow> map_of d i = Some (Regular x m)) \<and>
    (\<forall>p \<in> set ps. \<forall>h. pc_phase p = Finished (Stored h) \<and> pc_artifact_id p \<in> keep \<longrightarrow>
      h = sha256 (pc_content p) \<and>
      (\<exists>x. get_artifact sha256 (pc_artifact_id p) (Some h) d = Inr x \<and> sha256 x = h))"
proof -
  have inv: "store_inv sha256 keep d0 (d, ps)"
    using store_inv_steps[OF assms(2) store_inv_start[OF assms(1)]] .
  have "h = sha256 (pc_content p) \<and> (\<exists>x. get_artifact sha256 (pc_artifact_id p) (Some h) d = Inr x \<and> sha256 x = h)"
    if p: "p \<in> set ps" "pc_phase p = Finished (Stored h)" "pc_artifact_id p \<in> keep" for p h
  proof -
    have "call_ok sha256 keep d p" using inv p(1) by (simp add: store_inv_def list_all_iff)
    then have "h = sha256 (pc_content p)" "valid_artifact_id (pc_artifact_id p)" "stored_file sha256 d (pc_artifact_id p) h"
      using p(2,3) by (auto simp: call_ok_def)
    then show ?thesis
      by (auto simp: stored_file_def get_artifact_def resolve_entry_def open_readonly_no_follow_def)
  qed
  then show ?thesis using inv unfolding store_inv_def by simp
qed

section \<open>An example\<close>

text \<open>
  Two processes store different contents under one name. Both find no file and write a temporary one;
  the first links it, and the second, which loses the race, reports a conflict and cleans up.
\<close>

fun schedule :: "(nat \<times> string) list \<Rightarrow> directory \<times> put_call list \<Rightarrow> (directory \<times> put_call list) option" where
  "schedule [] s = Some s"
| "schedule ((k, t) # ks) (d, ps) =
     (if k < length ps \<and> fresh_temporary t d
      then (case put_step (\<lambda>x. x) 100 t 0 (ps ! k) d of
        (ph, d') \<Rightarrow> schedule ks (d', ps[k := (ps ! k)\<lparr>pc_phase := ph\<rparr>]))
      else None)"

lemma schedule_steps: "schedule ks s = Some s' \<Longrightarrow> store_steps (\<lambda>x. x) 100 keep s s'"
proof (induction ks s rule: schedule.induct)
  case (2 k t ks d ps)
  obtain ph d' where step: "put_step (\<lambda>x. x) 100 t 0 (ps ! k) d = (ph, d')" by force
  then have "k < length ps" "fresh_temporary t d" and rest: "schedule ks (d', ps[k := (ps ! k)\<lparr>pc_phase := ph\<rparr>]) = Some s'"
    using 2(2) by (auto split: if_splits)
  then have "store_step (\<lambda>x. x) 100 keep (d, ps) (d', ps[k := (ps ! k)\<lparr>pc_phase := ph\<rparr>])"
    using step by (intro store_step.run_put)
  moreover have "store_steps (\<lambda>x. x) 100 keep (d', ps[k := (ps ! k)\<lparr>pc_phase := ph\<rparr>]) s'"
    using 2(1)[OF _ step[symmetric] rest] \<open>k < length ps\<close> \<open>fresh_temporary t d\<close> by simp
  ultimately show ?case by (rule converse_rtranclp_into_rtranclp)
qed simp

definition race_calls :: "put_call list" where
  "race_calls = [\<lparr>pc_artifact_id = ''a'', pc_content = ''one'', pc_phase = Start\<rparr>,
     \<lparr>pc_artifact_id = ''a'', pc_content = ''two'', pc_phase = Start\<rparr>]"

definition race_schedule :: "(nat \<times> string) list" where
  "race_schedule = zip [0, 1, 0, 1, 0, 1, 0, 1, 0, 1, 1]
     (map (\<lambda>n. ''.artifact-'' @ replicate n (CHR ''x'')) [0..<11])"

definition race_end :: "directory \<times> put_call list" where
  "race_end = ([(''a'', Regular ''one'' 0)],
     [\<lparr>pc_artifact_id = ''a'', pc_content = ''one'', pc_phase = Finished (Stored ''one'')\<rparr>,
      \<lparr>pc_artifact_id = ''a'', pc_content = ''two'', pc_phase = Finished (Failed IdempotencyConflictError)\<rparr>])"

lemma race_run: "schedule race_schedule ([], race_calls) = Some race_end"
  by code_simp

lemma race_steps: "store_steps (\<lambda>x. x) 100 keep ([], []) race_end"
proof -
  have "store_steps (\<lambda>x. x) 100 keep ([], []) ([], race_calls)"
    using store_step.begin_put[of "\<lambda>x. x" 100 keep "[]" "[]" "''a''" "''one''"]
      store_step.begin_put[of "\<lambda>x. x" 100 keep "[]" "[hd race_calls]" "''a''" "''two''"]
    by (auto simp: race_calls_def intro: rtranclp_trans)
  then show ?thesis using schedule_steps[OF race_run] by (rule rtranclp_trans)
qed

theorem artifact_store_write_once_witness:
  "get_artifact (\<lambda>x. x) ''a'' (Some ''one'') (fst race_end) = Inr ''one'' \<and>
   (\<exists>p \<in> set (snd race_end). pc_phase p = Finished (Failed IdempotencyConflictError))"
proof -
  have d: "distinct (map fst ([] :: directory))" by simp
  have "store_steps (\<lambda>x. x) 100 {''a''} ([], []) (fst race_end, snd race_end)" using race_steps by simp
  from artifact_store_write_once[OF d this] show ?thesis by (simp add: race_end_def)
qed

lemma prune_orphans_spec_witness:
  "prune_orphans {''a''} 5 False [(''b'', Regular [] 1), (''a'', Regular [] 0), (''c'', Regular [] 9)] =
     (Inr [''b''], [(''a'', Regular [] 0), (''c'', Regular [] 9)])"
proof -
  let ?d = "[(''b'', Regular [] 1), (''a'', Regular [] 0), (''c'', Regular [] 9)]"
  have run: "prune_orphans {''a''} 5 False ?d = (Inr [''b''], [(''a'', Regular [] 0), (''c'', Regular [] 9)])"
    by code_simp
  from prune_orphans_spec[OF _ this] run show ?thesis by simp
qed

end
