(* ===== verification/Configuration.thy ===== *)
theory Configuration
  imports Tool_Execution Context_Manager Retry Store_Context
begin

text \<open>
  \<open>configuration/settings.py\<close>, and what \<open>build_application\<close> of \<open>application/factory.py\<close> derives from the
  settings: the policy of the tool executor, the budget of the context manager, the fingerprint.
  Reading the environment and the \<open>.env\<close> file is left to \<open>pydantic_settings\<close>; \<open>resolve\<close> is
  \<open>Path.resolve\<close>.
\<close>

section \<open>The settings\<close>

datatype environment = Development | Testing | Production

datatype log_level = LOG_DEBUG | LOG_INFO | LOG_WARNING | LOG_ERROR | LOG_CRITICAL

record AppSettings =
  as_environment :: environment
  as_database_url :: string
  as_sync_database_url :: string
  as_artifact_directory :: string
  as_repository_root :: string
  as_log_level :: log_level
  as_log_json :: bool
  as_llm_provider :: string
  as_model_name :: string
  as_model_context_limit :: int
  as_reserved_output_tokens :: int
  as_system_instruction_tokens :: int
  as_user_request_tokens :: int
  as_context_compression_threshold :: rat
  as_retry :: RetryPolicy
  as_tool_timeout_seconds :: rat
  as_checkpoint_every_tasks :: int
  as_maximum_concurrency :: int
  as_lease_ttl_seconds :: int
  as_lease_renewal_seconds :: int
  as_allow_file_writes :: bool
  as_allow_shell :: bool
  as_allow_patch :: bool
  as_network_access :: bool
  as_allowed_commands :: "string list"
  as_allowed_environment_variables :: "string list"
  as_maximum_tool_output_bytes :: int
  as_maximum_file_bytes :: int
  as_maximum_repository_bytes :: int
  as_indexing_exclusions :: "string list"
  as_repository_drift_policy :: RepositoryDriftPolicy
  as_checkpoint_retention_count :: int
  as_event_retention_days :: int
  as_artifact_retention_days :: int
  as_metrics_enabled :: bool
  as_tracing_enabled :: bool
  as_api_auth_token :: "string option"
  as_require_api_authentication :: bool
  as_api_allowed_owners :: "string list"

definition default_AppSettings :: AppSettings where
  "default_AppSettings = \<lparr>as_environment = Development,
     as_database_url = ''sqlite+aiosqlite:///./durable-agent.db'',
     as_sync_database_url = ''sqlite:///./durable-agent.db'', as_artifact_directory = ''artifacts'',
     as_repository_root = ''.'', as_log_level = LOG_INFO, as_log_json = True,
     as_llm_provider = ''deterministic'', as_model_name = ''offline-baseline'',
     as_model_context_limit = 32768, as_reserved_output_tokens = 4096, as_system_instruction_tokens = 2048,
     as_user_request_tokens = 4096, as_context_compression_threshold = 8 / 10,
     as_retry = default_RetryPolicy, as_tool_timeout_seconds = 60, as_checkpoint_every_tasks = 1,
     as_maximum_concurrency = 1, as_lease_ttl_seconds = 60, as_lease_renewal_seconds = 20,
     as_allow_file_writes = False, as_allow_shell = False, as_allow_patch = False, as_network_access = False,
     as_allowed_commands = [''python'', ''python3'', ''pytest'', ''ruff'', ''mypy''],
     as_allowed_environment_variables = [''PATH'', ''LANG'', ''LC_ALL'', ''TERM''],
     as_maximum_tool_output_bytes = 1000000, as_maximum_file_bytes = 2000000,
     as_maximum_repository_bytes = 100000000,
     as_indexing_exclusions = [''.git/'', ''.venv/'', ''__pycache__/'', ''node_modules/'', ''artifacts/''],
     as_repository_drift_policy = DRIFT_REINDEX, as_checkpoint_retention_count = 100,
     as_event_retention_days = 365, as_artifact_retention_days = 90, as_metrics_enabled = True,
     as_tracing_enabled = True, as_api_auth_token = None, as_require_api_authentication = False,
     as_api_allowed_owners = []\<rparr>"

section \<open>Validation\<close>

definition async_database_driver :: "string \<Rightarrow> bool" where
  "async_database_driver url \<longleftrightarrow> starts_with ''sqlite+aiosqlite://'' url \<or>
     starts_with ''postgresql+asyncpg://'' url \<or> starts_with ''postgresql+psycopg://'' url"

definition sync_database_driver :: "string \<Rightarrow> bool" where
  "sync_database_driver url \<longleftrightarrow> starts_with ''sqlite://'' url \<or> starts_with ''postgresql+psycopg://'' url"

definition plain_command_names :: "string list \<Rightarrow> bool" where
  "plain_command_names commands \<longleftrightarrow>
     list_all (\<lambda>c. CHR ''/'' \<notin> set c \<and> CHR 0x5C \<notin> set c \<and> c \<noteq> []) commands"

definition reserved_tokens :: "AppSettings \<Rightarrow> int" where
  "reserved_tokens s = as_reserved_output_tokens s + as_system_instruction_tokens s + as_user_request_tokens s"

definition cross_field_constraints :: "AppSettings \<Rightarrow> bool" where
  "cross_field_constraints s \<longleftrightarrow>
     \<not> reserved_tokens s \<ge> as_model_context_limit s \<and>
     \<not> as_lease_renewal_seconds s * 2 \<ge> as_lease_ttl_seconds s \<and>
     \<not> (as_environment s = Production \<and> as_require_api_authentication s \<and> as_api_auth_token s = None) \<and>
     \<not> (as_environment s = Production \<and> starts_with ''sqlite'' (as_database_url s))"

definition field_bounds :: "AppSettings \<Rightarrow> bool" where
  "field_bounds s \<longleftrightarrow>
     2048 \<le> as_model_context_limit s \<and> as_model_context_limit s \<le> 10000000 \<and>
     128 \<le> as_reserved_output_tokens s \<and> 128 \<le> as_system_instruction_tokens s \<and>
     128 \<le> as_user_request_tokens s \<and>
     2 / 10 < as_context_compression_threshold s \<and> as_context_compression_threshold s \<le> 95 / 100 \<and>
     0 < as_tool_timeout_seconds s \<and> as_tool_timeout_seconds s \<le> 3600 \<and>
     1 \<le> as_checkpoint_every_tasks s \<and> as_checkpoint_every_tasks s \<le> 100 \<and>
     1 \<le> as_maximum_concurrency s \<and> as_maximum_concurrency s \<le> 128 \<and>
     5 \<le> as_lease_ttl_seconds s \<and> as_lease_ttl_seconds s \<le> 3600 \<and>
     1 \<le> as_lease_renewal_seconds s \<and> as_lease_renewal_seconds s \<le> 1800 \<and>
     1024 \<le> as_maximum_tool_output_bytes s \<and> as_maximum_tool_output_bytes s \<le> 100000000 \<and>
     1024 \<le> as_maximum_file_bytes s \<and> as_maximum_file_bytes s \<le> 1000000000 \<and>
     1024 \<le> as_maximum_repository_bytes s \<and> as_maximum_repository_bytes s \<le> 100000000000 \<and>
     2 \<le> as_checkpoint_retention_count s \<and> as_checkpoint_retention_count s \<le> 100000 \<and>
     1 \<le> as_event_retention_days s \<and> as_event_retention_days s \<le> 3650 \<and>
     1 \<le> as_artifact_retention_days s \<and> as_artifact_retention_days s \<le> 3650"

definition valid_AppSettings :: "AppSettings \<Rightarrow> bool" where
  "valid_AppSettings s \<longleftrightarrow> field_bounds s \<and> valid_RetryPolicy (as_retry s) \<and>
     async_database_driver (as_database_url s) \<and> sync_database_driver (as_sync_database_url s) \<and>
     plain_command_names (as_allowed_commands s) \<and> cross_field_constraints s"

definition available_context_tokens :: "AppSettings \<Rightarrow> int" where
  "available_context_tokens s = as_model_context_limit s - reserved_tokens s"

section \<open>The fingerprint\<close>

text \<open>\<open>url.split(":", maxsplit=1)[0]\<close>\<close>

definition dialect_of :: "string \<Rightarrow> string" where
  "dialect_of url = takeWhile (\<lambda>c. c \<noteq> CHR '':'') url"

definition fingerprint_keys :: "(string \<Rightarrow> string) \<Rightarrow> AppSettings \<Rightarrow> json" where
  "fingerprint_keys resolve s = JObj
     [(''database_dialect'', JStr (dialect_of (as_database_url s))),
      (''repository_root'', JStr (resolve (as_repository_root s))),
      (''llm_provider'', JStr (as_llm_provider s)),
      (''model_name'', JStr (as_model_name s)),
      (''model_context_limit'', JInt (as_model_context_limit s)),
      (''reserved_output_tokens'', JInt (as_reserved_output_tokens s)),
      (''maximum_concurrency'', JInt (as_maximum_concurrency s)),
      (''tool_permissions'', JObj [(''write'', JBool (as_allow_file_writes s)),
         (''shell'', JBool (as_allow_shell s)), (''patch'', JBool (as_allow_patch s)),
         (''network'', JBool (as_network_access s))]),
      (''maximum_file_bytes'', JInt (as_maximum_file_bytes s)),
      (''maximum_repository_bytes'', JInt (as_maximum_repository_bytes s)),
      (''repository_drift_policy'', JStr (RepositoryDriftPolicy_value (as_repository_drift_policy s)))]"

definition fingerprint :: "(string \<Rightarrow> string) \<Rightarrow> (string \<Rightarrow> string) \<Rightarrow> AppSettings \<Rightarrow> string" where
  "fingerprint sha256 resolve s = sha256 (canonical_json (fingerprint_keys resolve s))"

section \<open>What the factory derives\<close>

definition context_budget :: "AppSettings \<Rightarrow> ContextBudget" where
  "context_budget s = \<lparr>bg_context_limit = as_model_context_limit s,
     bg_reserved_output = as_reserved_output_tokens s,
     bg_system_instructions = as_system_instruction_tokens s, bg_user_request = as_user_request_tokens s,
     bg_compression_threshold = as_context_compression_threshold s\<rparr>"

definition allowed_permissions :: "AppSettings \<Rightarrow> string set" where
  "allowed_permissions s = {''repository.read'', ''artifact.write''} \<union>
     (if as_allow_file_writes s then {''repository.write''} else {}) \<union>
     (if as_allow_patch s then {''repository.patch''} else {}) \<union>
     (if as_allow_shell s then {''process.execute''} else {}) \<union>
     (if as_network_access s then {''network.research''} else {})"

definition tool_policy :: "AppSettings \<Rightarrow> ToolPolicy" where
  "tool_policy s = \<lparr>tp_allowed_permissions = allowed_permissions s, tp_approved_high_impact_tools = {},
     tp_maximum_output_bytes = nat (as_maximum_tool_output_bytes s)\<rparr>"

text \<open>The part of the settings that the orchestrator, the recovery and the service read.\<close>

definition core_settings :: "(string \<Rightarrow> string) \<Rightarrow> (string \<Rightarrow> string) \<Rightarrow> AppSettings \<Rightarrow> Settings" where
  "core_settings sha256 resolve s = \<lparr>st_retry = as_retry s,
     st_checkpoint_every_tasks = as_checkpoint_every_tasks s,
     st_maximum_concurrency = as_maximum_concurrency s, st_lease_ttl_seconds = as_lease_ttl_seconds s,
     st_lease_renewal_seconds = as_lease_renewal_seconds s, st_repository_root = as_repository_root s,
     st_repository_drift_policy = as_repository_drift_policy s,
     st_checkpoint_retention_count = as_checkpoint_retention_count s,
     st_event_retention_days = as_event_retention_days s,
     st_artifact_retention_days = as_artifact_retention_days s,
     st_fingerprint = fingerprint sha256 resolve s\<rparr>"

text \<open>
  C39. Settings that pass validation configure every component within its own contract: the context budget
  is one the context manager accepts and leaves at least one token, the one the settings announce; the
  retry policy is valid; a lease can be renewed twice before it expires; the retention keeps at least
  two checkpoints; and the tool output bound is the one the executor's policy requires.
\<close>

theorem settings_configure_valid_parts:
  assumes "valid_AppSettings s"
  shows "valid_ContextBudget (context_budget s) \<and>
    available (context_budget s) = available_context_tokens s \<and> 1 \<le> available_context_tokens s \<and>
    valid_RetryPolicy (st_retry (core_settings sha256 resolve s)) \<and>
    2 * st_lease_renewal_seconds (core_settings sha256 resolve s) < st_lease_ttl_seconds (core_settings sha256 resolve s) \<and>
    2 \<le> st_checkpoint_retention_count (core_settings sha256 resolve s) \<and>
    1024 \<le> tp_maximum_output_bytes (tool_policy s)"
proof -
  have b: "field_bounds s" and c: "cross_field_constraints s" and r: "valid_RetryPolicy (as_retry s)"
    using assms by (simp_all add: valid_AppSettings_def)
  have limit: "reserved_tokens s < as_model_context_limit s" "as_lease_renewal_seconds s * 2 < as_lease_ttl_seconds s"
    using c by (simp_all add: cross_field_constraints_def)
  have "valid_ContextBudget (context_budget s)"
    using b limit(1)
    by (simp add: valid_ContextBudget_def context_budget_def reservations_fit_def available_def field_bounds_def reserved_tokens_def)
  moreover have "available (context_budget s) = available_context_tokens s" "1 \<le> available_context_tokens s"
    using limit(1) by (simp_all add: available_def context_budget_def available_context_tokens_def reserved_tokens_def)
  moreover have "1024 \<le> nat (as_maximum_tool_output_bytes s)" using b unfolding field_bounds_def by linarith
  ultimately show ?thesis
    using b limit(2) r by (simp add: core_settings_def tool_policy_def field_bounds_def)
qed

lemma default_settings_valid: "valid_AppSettings default_AppSettings"
  by code_simp

theorem settings_configure_valid_parts_witness:
  "valid_ContextBudget (context_budget default_AppSettings) \<and> available_context_tokens default_AppSettings = 22528"
  using settings_configure_valid_parts[OF default_settings_valid] by (simp add: default_AppSettings_def
    available_context_tokens_def reserved_tokens_def)

end
