(* ===== verification/Shipped_Tools.thy ===== *)
theory Shipped_Tools
  imports Configuration Tool_Safety Demo_Safety Python_Text
begin

text \<open>
  The tools \<open>build_application\<close> registers (\<open>application/factory.py\<close>): their declarations
  (\<open>tools/filesystem.py\<close>, \<open>tools/search.py\<close>, \<open>tools/subprocess.py\<close>), and the bodies of those that work on
  the store (\<open>tools/search.py\<close>). The bodies that work on files or processes, the indexer, the retrieval
  engine, the search provider and the artifact store's \<open>put\<close> are the parameters of \<open>tools_env\<close>.
\<close>

section \<open>Declarations\<close>

definition schema_type :: "string \<Rightarrow> json" where
  "schema_type t = JObj [(''type'', JStr t)]"

definition schema_text :: "int \<Rightarrow> json" where
  "schema_text n = JObj [(''type'', JStr ''string''), (''minLength'', JInt n)]"

definition schema_text_between :: "int \<Rightarrow> int \<Rightarrow> json" where
  "schema_text_between m n = JObj [(''type'', JStr ''string''), (''minLength'', JInt m), (''maxLength'', JInt n)]"

definition schema_integer_between :: "int \<Rightarrow> int \<Rightarrow> json" where
  "schema_integer_between m n = JObj [(''type'', JStr ''integer''), (''minimum'', JInt m), (''maximum'', JInt n)]"

definition schema_array :: "string \<Rightarrow> json" where
  "schema_array t = JObj [(''type'', JStr ''array''), (''items'', schema_type t)]"

definition schema_digest :: json where
  "schema_digest = JObj [(''type'', JStr ''string''), (''pattern'', JStr ''^[0-9a-f]{64}$'')]"

definition closed_object :: "(string \<times> json) list \<Rightarrow> string list \<Rightarrow> json" where
  "closed_object properties required = JObj [(''type'', JStr ''object''), (''properties'', JObj properties),
     (''required'', JArr (map JStr required)), (''additionalProperties'', JBool False)]"

definition open_object :: "string list \<Rightarrow> json" where
  "open_object required = JObj [(''type'', JStr ''object''), (''required'', JArr (map JStr required))]"

definition repository_read_tool :: ToolDefinition where
  "repository_read_tool = \<lparr>td_name = ''repository.read'',
     td_description = ''Read a UTF-8 repository file inside the approved root'',
     td_input_schema = closed_object [(''path'', schema_text 1)] [''path''],
     td_output_schema = open_object [''path'', ''content'', ''content_hash''],
     td_timeout_seconds = 10, td_required_permissions = {''repository.read''},
     td_side_effect_class = SE_NONE, td_retry_safe = True, td_produces_evidence = True\<rparr>"

definition repository_write_tool :: ToolDefinition where
  "repository_write_tool = \<lparr>td_name = ''repository.write'',
     td_description = ''Atomically write a repository text file after expected-hash validation'',
     td_input_schema = closed_object [(''path'', schema_text 1), (''content'', schema_type ''string''),
       (''expected_hash'', JObj [(''type'', JArr [JStr ''string'', JStr ''null''])])]
       [''path'', ''content'', ''expected_hash''],
     td_output_schema = open_object [''path'', ''content_hash'', ''bytes''],
     td_timeout_seconds = 10, td_required_permissions = {''repository.write''},
     td_side_effect_class = IDEMPOTENT, td_retry_safe = True, td_produces_evidence = True\<rparr>"

definition repository_patch_tool :: ToolDefinition where
  "repository_patch_tool = \<lparr>td_name = ''repository.patch'',
     td_description = ''Atomically replace one exact fragment in an existing repository file'',
     td_input_schema = closed_object [(''path'', schema_text 1), (''old'', schema_text 1),
       (''new'', schema_type ''string''), (''expected_hash'', schema_digest),
       (''expected_result_hash'', schema_digest)]
       [''path'', ''old'', ''new'', ''expected_hash'', ''expected_result_hash''],
     td_output_schema = open_object [''path'', ''content_hash'', ''bytes'', ''replacements''],
     td_timeout_seconds = 10, td_required_permissions = {''repository.patch''},
     td_side_effect_class = IDEMPOTENT, td_retry_safe = True, td_produces_evidence = True\<rparr>"

definition document_retrieve_tool :: ToolDefinition where
  "document_retrieve_tool = \<lparr>td_name = ''document.retrieve'',
     td_description = ''Retrieve an approved local UTF-8 document as untrusted content'',
     td_input_schema = closed_object [(''path'', schema_text 1)] [''path''],
     td_output_schema = open_object [''path'', ''content'', ''content_hash'', ''untrusted''],
     td_timeout_seconds = 10, td_required_permissions = {''repository.read''},
     td_side_effect_class = SE_NONE, td_retry_safe = True, td_produces_evidence = True\<rparr>"

definition repository_index_tool :: ToolDefinition where
  "repository_index_tool = \<lparr>td_name = ''repository.index'',
     td_description = ''Create an immutable index for the configured repository root'',
     td_input_schema = closed_object [(''snapshot_id'', schema_text_between 1 256),
       (''previous_snapshot_id'', JObj [(''type'', JArr [JStr ''string'', JStr ''null'']),
          (''minLength'', JInt 1), (''maxLength'', JInt 256)])] [''snapshot_id''],
     td_output_schema = closed_object [(''snapshot_id'', schema_type ''string''),
       (''manifest_hash'', schema_type ''string''), (''file_count'', schema_type ''integer''),
       (''total_bytes'', schema_type ''integer''), (''warnings'', schema_array ''string'')]
       [''snapshot_id'', ''manifest_hash'', ''file_count'', ''total_bytes'', ''warnings''],
     td_timeout_seconds = 300, td_required_permissions = {''repository.read''},
     td_side_effect_class = IDEMPOTENT, td_retry_safe = True, td_produces_evidence = True\<rparr>"

definition repository_search_tool :: ToolDefinition where
  "repository_search_tool = \<lparr>td_name = ''repository.search'',
     td_description = ''Hybrid-search the current repository snapshot'',
     td_input_schema = closed_object [(''snapshot_id'', schema_text_between 1 256),
       (''query'', schema_text_between 1 10000), (''limit'', schema_integer_between 1 100)]
       [''snapshot_id'', ''query''],
     td_output_schema = closed_object [(''snapshot_id'', schema_type ''string''),
       (''manifest_hash'', schema_type ''string''), (''items'', schema_array ''object'')]
       [''snapshot_id'', ''manifest_hash'', ''items''],
     td_timeout_seconds = 30, td_required_permissions = {''repository.read''},
     td_side_effect_class = SE_NONE, td_retry_safe = True, td_produces_evidence = True\<rparr>"

definition research_search_tool :: ToolDefinition where
  "research_search_tool = \<lparr>td_name = ''research.search'',
     td_description = ''Search an approved research provider and return untrusted results'',
     td_input_schema = closed_object [(''query'', schema_text_between 1 10000),
       (''limit'', schema_integer_between 1 50)] [''query''],
     td_output_schema = closed_object [(''items'', schema_array ''object''),
       (''untrusted'', JObj [(''const'', JBool True)])] [''items'', ''untrusted''],
     td_timeout_seconds = 30, td_required_permissions = {''network.research''},
     td_side_effect_class = SE_NONE, td_retry_safe = True, td_produces_evidence = True\<rparr>"

definition artifact_record_tool :: ToolDefinition where
  "artifact_record_tool = \<lparr>td_name = ''artifact.record'',
     td_description = ''Store a bounded generated artifact by stable ID'',
     td_input_schema = closed_object [(''artifact_id'', schema_text 1), (''content'', schema_type ''string''),
       (''media_type'', schema_text 1)] [''artifact_id'', ''content'', ''media_type''],
     td_output_schema = open_object [''artifact_id'', ''content_hash''],
     td_timeout_seconds = 30, td_required_permissions = {''artifact.write''},
     td_side_effect_class = IDEMPOTENT, td_retry_safe = True, td_produces_evidence = True\<rparr>"

definition argv_schema :: json where
  "argv_schema = closed_object [(''argv'', JObj [(''type'', JStr ''array''), (''items'', schema_type ''string''),
     (''minItems'', JInt 1)]), (''cwd'', schema_type ''string'')] [''argv'']"

definition shell_run_tool :: "AppSettings \<Rightarrow> ToolDefinition" where
  "shell_run_tool s = \<lparr>td_name = ''shell.run'',
     td_description = ''Run an allowlisted executable with an argument array'',
     td_input_schema = argv_schema,
     td_output_schema = open_object [''argv'', ''exit_code'', ''stdout'', ''stderr'', ''truncated''],
     td_timeout_seconds = as_tool_timeout_seconds s, td_required_permissions = {''process.execute''},
     td_side_effect_class = REVERSIBLE, td_retry_safe = False, td_produces_evidence = True\<rparr>"

text \<open>\<open>base.model_copy(update=...)\<close>\<close>

definition test_run_tool :: "AppSettings \<Rightarrow> ToolDefinition" where
  "test_run_tool s = (shell_run_tool s)\<lparr>td_name := ''test.run'',
     td_description := ''Run pytest with explicit arguments inside the repository'',
     td_input_schema := argv_schema\<rparr>"

section \<open>Bodies\<close>

text \<open>
  What the tools find outside the modelled part: the resolved root, \<open>Path.resolve\<close>, the indexer, the hybrid
  search with its items as JSON, the research provider, \<open>put\<close>, \<open>str\<close> and \<open>int\<close> of a value the
  schemas exclude, and the bodies and reconcilers of the file and process tools by name.
\<close>

record host =
  ho_root :: string
  ho_resolve :: "string \<Rightarrow> string"
  ho_index :: "string \<Rightarrow> RepositoryIndex option \<Rightarrow> string option \<Rightarrow> RepositoryIndex io"
  ho_hybrid :: "RepositoryChunk list \<Rightarrow> string \<Rightarrow> int \<Rightarrow> json list io"
  ho_research :: "string \<Rightarrow> int \<Rightarrow> json list io"
  ho_put :: "string \<Rightarrow> string \<Rightarrow> string io"
  ho_py_str :: "json \<Rightarrow> string"
  ho_py_int :: "json \<Rightarrow> exn + int"
  ho_sha256 :: "string \<Rightarrow> string"
  ho_body :: "string \<Rightarrow> json \<Rightarrow> json io"
  ho_reconcile :: "string \<Rightarrow> ToolCall \<Rightarrow> ToolResult option io"

definition text_of :: "host \<Rightarrow> json \<Rightarrow> string" where
  "text_of h v = (case v of JStr s \<Rightarrow> s | _ \<Rightarrow> ho_py_str h v)"

text \<open>\<open>str(arguments[key])\<close>, and \<open>int(arguments.get("limit", 10))\<close>.\<close>

definition text_argument :: "host \<Rightarrow> string \<Rightarrow> json \<Rightarrow> exn + string" where
  "text_argument h key arguments =
     (case jget key arguments of None \<Rightarrow> Inl KeyError | Some v \<Rightarrow> Inr (text_of h v))"

definition limit_argument :: "host \<Rightarrow> json \<Rightarrow> exn + int" where
  "limit_argument h arguments =
     (case jget ''limit'' arguments of None \<Rightarrow> Inr 10 | Some (JInt n) \<Rightarrow> Inr n | Some v \<Rightarrow> ho_py_int h v)"

definition index_output :: "RepositoryIndex \<Rightarrow> json" where
  "index_output index = JObj [(''snapshot_id'', JStr (rs_snapshot_id (ri_snapshot index))),
     (''manifest_hash'', JStr (rs_manifest_hash (ri_snapshot index))),
     (''file_count'', JInt (rs_file_count (ri_snapshot index))),
     (''total_bytes'', JInt (rs_total_bytes (ri_snapshot index))),
     (''warnings'', JArr (map JStr (ri_warnings index)))]"

text \<open>\<open>try: get_repository_index ... except NotFoundError\<close>, with the check of the root.\<close>

definition find_index :: "host \<Rightarrow> string \<Rightarrow> RepositoryIndex option io" where
  "find_index h snapshot_id =
     bnd (catch (bnd (get_repository_index snapshot_id) (\<lambda>index. ret (Some index)))
       (\<lambda>e. if e = Durable NotFoundError then ret None else raise e)) (\<lambda>existing.
     case existing of
       None \<Rightarrow> ret None
     | Some index \<Rightarrow>
         if ho_resolve h (rs_root (ri_snapshot index)) \<noteq> ho_root h then raise (Durable SecurityPolicyError)
         else ret (Some index))"

definition previous_index :: "host \<Rightarrow> json \<Rightarrow> RepositoryIndex option io" where
  "previous_index h arguments = (case jget ''previous_snapshot_id'' arguments of
     None \<Rightarrow> ret None
   | Some JNull \<Rightarrow> ret None
   | Some v \<Rightarrow> bnd (get_repository_index (text_of h v)) (\<lambda>index. ret (Some index)))"

definition index_body :: "host \<Rightarrow> json \<Rightarrow> json io" where
  "index_body h arguments =
     bnd (lift_sum (text_argument h ''snapshot_id'' arguments)) (\<lambda>snapshot_id.
     bnd (find_index h snapshot_id) (\<lambda>existing.
     case existing of
       Some index \<Rightarrow> ret (index_output index)
     | None \<Rightarrow>
         bnd (previous_index h arguments) (\<lambda>previous.
         bnd (ho_index h (ho_root h) previous (Some snapshot_id)) (\<lambda>index.
         bnd (save_repository_index index) (\<lambda>_.
         ret (index_output index))))))"

definition index_reconcile :: "host \<Rightarrow> ToolCall \<Rightarrow> ToolResult option io" where
  "index_reconcile h call = (case jget ''snapshot_id'' (tc_arguments call) of
     Some (JStr snapshot_id) \<Rightarrow>
       bnd (find_index h snapshot_id) (\<lambda>existing.
       case existing of
         None \<Rightarrow> ret None
       | Some index \<Rightarrow>
           bnd (ids_new ''toolresult'') (\<lambda>result_id.
           bnd clock_now (\<lambda>now.
           bnd (lift_sum (checked valid_ToolResult
             \<lparr>tl_tool_result_id = result_id, tl_tool_call_id = tc_tool_call_id call, tl_success = True,
              tl_output = index_output index, tl_output_hash = ho_sha256 h (canonical_json (index_output index)),
              tl_exit_code = None, tl_truncated = False, tl_duration_seconds = 0, tl_created_at = now\<rparr>)) (\<lambda>r.
           ret (Some r)))))
   | _ \<Rightarrow> ret None)"

definition search_body :: "host \<Rightarrow> json \<Rightarrow> json io" where
  "search_body h arguments =
     bnd (lift_sum (text_argument h ''snapshot_id'' arguments)) (\<lambda>snapshot_id.
     bnd (get_repository_index snapshot_id) (\<lambda>index.
     bnd (lift_sum (text_argument h ''query'' arguments)) (\<lambda>words.
     bnd (lift_sum (limit_argument h arguments)) (\<lambda>limit.
     bnd (ho_hybrid h (ri_chunks index) words limit) (\<lambda>items.
     ret (JObj [(''snapshot_id'', JStr (rs_snapshot_id (ri_snapshot index))),
       (''manifest_hash'', JStr (rs_manifest_hash (ri_snapshot index))), (''items'', JArr items)]))))))"

definition research_body :: "host \<Rightarrow> json \<Rightarrow> json io" where
  "research_body h arguments =
     bnd (lift_sum (text_argument h ''query'' arguments)) (\<lambda>words.
     bnd (lift_sum (limit_argument h arguments)) (\<lambda>limit.
     bnd (ho_research h words limit) (\<lambda>items.
     ret (JObj [(''items'', JArr (py_take limit items)), (''untrusted'', JBool True)]))))"

definition artifact_body :: "host \<Rightarrow> json \<Rightarrow> json io" where
  "artifact_body h arguments =
     bnd (lift_sum (text_argument h ''artifact_id'' arguments)) (\<lambda>artifact_id.
     bnd (lift_sum (text_argument h ''content'' arguments)) (\<lambda>content.
     bnd (lift_sum (text_argument h ''media_type'' arguments)) (\<lambda>media_type.
     bnd (ho_put h artifact_id (utf8 content)) (\<lambda>digest.
     ret (JObj [(''artifact_id'', JStr artifact_id), (''content_hash'', JStr digest)])))))"

definition no_reconcile :: "ToolCall \<Rightarrow> ToolResult option io" where
  "no_reconcile call = ret None"

definition host_tool :: "host \<Rightarrow> ToolDefinition \<Rightarrow> tool" where
  "host_tool h def = \<lparr>tool_definition = def, tool_body = ho_body h (td_name def),
     tool_reconcile = ho_reconcile h (td_name def)\<rparr>"

definition store_tool :: "ToolDefinition \<Rightarrow> (json \<Rightarrow> json io) \<Rightarrow> (ToolCall \<Rightarrow> ToolResult option io) \<Rightarrow> tool" where
  "store_tool def body rec = \<lparr>tool_definition = def, tool_body = body, tool_reconcile = rec\<rparr>"

definition shipped_registry :: "host \<Rightarrow> AppSettings \<Rightarrow> ToolRegistry" where
  "shipped_registry h s =
     [host_tool h repository_read_tool, host_tool h document_retrieve_tool,
      host_tool h repository_write_tool, host_tool h repository_patch_tool,
      store_tool repository_index_tool (index_body h) (index_reconcile h),
      store_tool repository_search_tool (search_body h) no_reconcile,
      store_tool research_search_tool (research_body h) no_reconcile,
      host_tool h (shell_run_tool s), host_tool h (test_run_tool s),
      store_tool artifact_record_tool (artifact_body h) no_reconcile]"

section \<open>The switches\<close>

definition enabled_tools :: "AppSettings \<Rightarrow> string set" where
  "enabled_tools s = {''repository.read'', ''document.retrieve'', ''repository.index'', ''repository.search'',
     ''artifact.record''} \<union>
     (if as_allow_file_writes s then {''repository.write''} else {}) \<union>
     (if as_allow_patch s then {''repository.patch''} else {}) \<union>
     (if as_allow_shell s then {''shell.run'', ''test.run''} else {}) \<union>
     (if as_network_access s then {''research.search''} else {})"

lemmas tool_declarations = repository_read_tool_def document_retrieve_tool_def repository_write_tool_def
  repository_patch_tool_def repository_index_tool_def repository_search_tool_def research_search_tool_def
  shell_run_tool_def test_run_tool_def artifact_record_tool_def

lemma shipped_definitions:
  "map tool_definition (shipped_registry h s) = [repository_read_tool, document_retrieve_tool,
     repository_write_tool, repository_patch_tool, repository_index_tool, repository_search_tool,
     research_search_tool, shell_run_tool s, test_run_tool s, artifact_record_tool]"
  by (simp add: shipped_registry_def host_tool_def store_tool_def)

lemma shipped_names_distinct: "distinct (map tool_name (shipped_registry h s))"
  by (simp add: shipped_registry_def host_tool_def store_tool_def tool_name_def tool_declarations)

lemma check_policy_shipped:
  "def \<in> set (map tool_definition (shipped_registry h s)) \<Longrightarrow>
   (check_policy (tool_policy s) def = Inr ()) = (td_name def \<in> enabled_tools s)"
  unfolding shipped_definitions
  by (simp only: list.set insert_iff empty_iff, elim disjE; hypsubst?)
    (simp_all add: check_policy_def tool_policy_def allowed_permissions_def enabled_tools_def tool_declarations)

lemma check_policy_Inl: "check_policy p def \<noteq> Inr () \<Longrightarrow> check_policy p def = Inl (Durable SecurityPolicyError)"
  by (simp add: check_policy_def split: if_splits)

lemma enabled_shipped:
  "name \<in> enabled_tools s \<Longrightarrow> name \<in> td_name ` set (map tool_definition (shipped_registry h s))"
  unfolding shipped_definitions
  by (auto simp: enabled_tools_def tool_declarations split: if_splits)

text \<open>
  C23. The switches of the settings are the only way to an effect: with the policy and the registry the
  factory builds, a tool is found and permitted exactly when its name is among the enabled ones, and
  asking for any other name returns the error with the world as it was: no body started, no row
  written, no clock read.
\<close>

theorem switches_gate_tools:
  "(\<exists>t. get_tool name (shipped_registry h s) = Inr t \<and>
      check_policy (tool_policy s) (tool_definition t) = Inr ()) = (name \<in> enabled_tools s) \<and>
   (name \<in> enabled_tools s \<or>
      (\<exists>e. e \<in> {NotFoundError, SecurityPolicyError} \<and>
        execute tenv (tool_policy s) (shipped_registry h s) run_id task_id name arguments key w = (Inl (Durable e), w)))"
proof (cases "get_tool name (shipped_registry h s)")
  case (Inl e)
  then have e: "e = Durable NotFoundError" and none: "find (\<lambda>t. tool_name t = name) (shipped_registry h s) = None"
    by (auto simp: get_tool_def split: option.splits)
  have "name \<notin> td_name ` set (map tool_definition (shipped_registry h s))"
    using none by (auto simp: find_None_iff tool_name_def)
  then have "name \<notin> enabled_tools s" using enabled_shipped by blast
  then show ?thesis using Inl e by (simp add: execute_def raise_apply)
next
  case (Inr t)
  then have t: "t \<in> set (shipped_registry h s)" "td_name (tool_definition t) = name"
    using get_tool_InrD[OF Inr] by (simp_all add: tool_name_def)
  then have iff: "(check_policy (tool_policy s) (tool_definition t) = Inr ()) = (name \<in> enabled_tools s)"
    using check_policy_shipped[of "tool_definition t" h s] by simp
  show ?thesis
  proof (cases "name \<in> enabled_tools s")
    case True
    then show ?thesis using Inr iff by simp
  next
    case False
    then have "check_policy (tool_policy s) (tool_definition t) = Inl (Durable SecurityPolicyError)"
      using iff check_policy_Inl by blast
    then show ?thesis using Inr False by (simp add: execute_def Let_def raise_apply)
  qed
qed

section \<open>The shipped tools keep the promise\<close>

definition durable_host :: "host \<Rightarrow> bool" where
  "durable_host h \<longleftrightarrow>
     (\<forall>root previous i w. outcome durable (\<lambda>_ _. True) w (ho_index h root previous i) \<and>
        outcome same_effects (\<lambda>_ _. True) w (ho_index h root previous i)) \<and>
     (\<forall>cs q n w. outcome durable (\<lambda>_ _. True) w (ho_hybrid h cs q n) \<and>
        outcome same_effects (\<lambda>_ _. True) w (ho_hybrid h cs q n)) \<and>
     (\<forall>q n w. outcome durable (\<lambda>_ _. True) w (ho_research h q n) \<and>
        outcome same_effects (\<lambda>_ _. True) w (ho_research h q n)) \<and>
     (\<forall>i c w. outcome durable (\<lambda>_ _. True) w (ho_put h i c) \<and>
        outcome same_effects (\<lambda>_ _. True) w (ho_put h i c)) \<and>
     (\<forall>name args w. outcome durable (\<lambda>_ _. True) w (ho_body h name args) \<and>
        outcome same_effects (\<lambda>_ _. True) w (ho_body h name args)) \<and>
     (\<forall>name call w. outcome durable (\<lambda>_ _. True) w (ho_reconcile h name call) \<and>
        outcome same_effects (\<lambda>_ _. True) w (ho_reconcile h name call))"

end
