(* ===== verification/Application.thy ===== *)
theory Application
  imports Shipped_Tools Service_Safety
begin

text \<open>
  \<open>application/factory.py\<close>: \<open>build_application\<close> with its default planner and worker, that is, the
  rule-based planner and the demonstration worker over the shipped tools, wired into the orchestrator,
  the recovery and the service. The theorem composes what the parts guarantee: no promise about
  planner, worker or tool registry is left to assume, only about the host.
\<close>

section \<open>The host\<close>

text \<open>
  What is outside the program: the operating system and the libraries. \<open>pf_beats\<close> is the number of
  heartbeats that fall into a batch, \<open>pf_message\<close> is \<open>str\<close> of an exception.
\<close>

record platform =
  pf_host :: host
  pf_tool_env :: tool_env
  pf_codec :: codec
  pf_report :: report_codec
  pf_sha256_bytes :: "string \<Rightarrow> string"
  pf_message :: "exn \<Rightarrow> string"
  pf_beats :: "world \<Rightarrow> nat"
  pf_hit :: "string \<Rightarrow> unit io"
  pf_resolve :: "string \<Rightarrow> exn + string"
  pf_is_dir :: "string \<Rightarrow> bool"
  pf_artifact_get :: "string \<Rightarrow> string \<Rightarrow> unit io"
  pf_prune_orphans :: "string set \<Rightarrow> time \<Rightarrow> bool \<Rightarrow> string list io"

section \<open>The wiring\<close>

definition app_settings :: "platform \<Rightarrow> AppSettings \<Rightarrow> Settings" where
  "app_settings p s = core_settings (ho_sha256 (pf_host p)) (ho_resolve (pf_host p)) s"

definition app_worker :: "platform \<Rightarrow> AppSettings \<Rightarrow> demo_env" where
  "app_worker p s = \<lparr>dw_root = as_repository_root s, dw_tool_env = (pf_tool_env p)\<lparr>te_sha256 := ho_sha256 (pf_host p)\<rparr>,
     dw_policy = tool_policy s,
     dw_tools = shipped_registry (pf_host p) s, dw_hit = pf_hit p, dw_py_str = ho_py_str (pf_host p)\<rparr>"

definition app_orchestrator :: "platform \<Rightarrow> AppSettings \<Rightarrow> agent_env" where
  "app_orchestrator p s = \<lparr>ae_settings = app_settings p s, ae_budget = context_budget s, ae_codec = pf_codec p,
     ae_report = pf_report p, ae_sha256 = ho_sha256 (pf_host p), ae_sha256_bytes = pf_sha256_bytes p,
     ae_worker = demo_execute (app_worker p s), ae_message = pf_message p, ae_beats = pf_beats p\<rparr>"

definition app_recovery :: "platform \<Rightarrow> AppSettings \<Rightarrow> recovery_env" where
  "app_recovery p s = \<lparr>re_settings = app_settings p s, re_codec = pf_codec p,
     re_index = (\<lambda>root previous. ho_index (pf_host p) root previous None),
     re_revise = (\<lambda>plan reason. revise plan reason None),
     re_tools = shipped_registry (pf_host p) s\<rparr>"

definition build_application :: "platform \<Rightarrow> AppSettings \<Rightarrow> service_env" where
  "build_application p s = \<lparr>sv_agent = app_orchestrator p s, sv_recovery = app_recovery p s,
     sv_plan = rule_based_plan, sv_index = (\<lambda>path. ho_index (pf_host p) path None None),
     sv_resolve = pf_resolve p, sv_is_dir = pf_is_dir p, sv_artifact_get = pf_artifact_get p,
     sv_prune_orphans = pf_prune_orphans p\<rparr>"

section \<open>The parts keep their promises\<close>

text \<open>What is asked of the host: it does not write the program's tables behind the store's back.\<close>

definition durable_platform :: "platform \<Rightarrow> bool" where
  "durable_platform p \<longleftrightarrow> durable_host (pf_host p) \<and>
     (\<forall>name w. outcome durable (\<lambda>_ _. True) w (pf_hit p name)) \<and>
     (\<forall>key hash w. outcome durable (\<lambda>_ _. True) w (pf_artifact_get p key hash)) \<and>
     (\<forall>known cutoff dry w. outcome durable (\<lambda>_ _. True) w (pf_prune_orphans p known cutoff dry))"

lemma out_find_index: "outcome durable (\<lambda>_ _. True) w (find_index h i)"
  unfolding find_index_def
  by (intro dur.out_bnd[OF dur.out_catch[OF dur.out_bnd[OF out_get_repository_index dur.out_ret[of "\<lambda>_ _. True"]]]])
    (auto intro: dur.out_ret dur.out_raise split: option.split)

lemma eff_find_index: "outcome same_effects (\<lambda>_ _. True) w (find_index h i)"
proof -
  have q: "outcome same_effects (\<lambda>_ _. True) w (get_repository_index i)" for w i
    unfolding get_repository_index_def by (rule eff_query)
  show ?thesis
    unfolding find_index_def
    by (intro eff.out_bnd[OF eff.out_catch[OF eff.out_bnd[OF q eff.out_ret[of "\<lambda>_ _. True"]]]])
      (auto intro: eff.out_ret eff.out_raise split: option.split)
qed

lemma eff_store:
  "outcome same_effects (\<lambda>_ _. True) w (get_repository_index i)"
  "outcome same_effects (\<lambda>_ _. True) w (save_repository_index x)"
  unfolding get_repository_index_def save_repository_index_def
  by (intro eff_query eff_on_integrity_error eff_tx eff.out_raise)+

lemma previous_index_ok:
  "outcome durable (\<lambda>_ _. True) w (previous_index h args)"
  "outcome same_effects (\<lambda>_ _. True) w (previous_index h args)"
  unfolding previous_index_def
  by (auto intro: dur.out_ret eff.out_ret dur.out_bnd[OF out_get_repository_index] eff.out_bnd[OF eff_store(1)]
      split: option.split json.split)

lemma index_body_ok:
  assumes "durable_host h"
  shows "outcome durable (\<lambda>_ _. True) w (index_body h args)"
    and "outcome same_effects (\<lambda>_ _. True) w (index_body h args)"
proof -
  have i: "outcome durable (\<lambda>_ _. True) w (ho_index h r p x)" "outcome same_effects (\<lambda>_ _. True) w (ho_index h r p x)" for w r p x
    using assms by (simp_all add: durable_host_def)
  show "outcome durable (\<lambda>_ _. True) w (index_body h args)"
    unfolding index_body_def
    by (intro dur.out_bnd_lift dur.out_bnd[OF out_find_index])
      (auto intro!: dur.out_ret dur.out_bnd[OF previous_index_ok(1)] dur.out_bnd[OF i(1)]
        dur.out_bnd[OF out_save_repository_index] split: option.split)
  show "outcome same_effects (\<lambda>_ _. True) w (index_body h args)"
    unfolding index_body_def
    by (intro eff.out_bnd_lift eff.out_bnd[OF eff_find_index])
      (auto intro!: eff.out_ret eff.out_bnd[OF previous_index_ok(2)] eff.out_bnd[OF i(2)]
        eff.out_bnd[OF eff_store(2)] split: option.split)
qed

lemma index_reconcile_ok:
  "outcome durable (\<lambda>_ _. True) w (index_reconcile h call)"
  "outcome same_effects (\<lambda>_ _. True) w (index_reconcile h call)"
  unfolding index_reconcile_def
  by (auto intro!: dur.out_ret eff.out_ret dur.out_bnd[OF out_find_index] eff.out_bnd[OF eff_find_index]
      dur.out_bnd[OF out_ids] eff.out_bnd[OF eff_ids] dur.out_bnd[OF out_clock] eff.out_bnd[OF eff_clock]
      dur.out_bnd_lift eff.out_bnd_lift split: option.split json.split)

lemma search_body_ok:
  assumes "durable_host h"
  shows "outcome durable (\<lambda>_ _. True) w (search_body h args)"
    and "outcome same_effects (\<lambda>_ _. True) w (search_body h args)"
proof -
  have i: "outcome durable (\<lambda>_ _. True) w (ho_hybrid h c q n)" "outcome same_effects (\<lambda>_ _. True) w (ho_hybrid h c q n)" for w c q n
    using assms by (simp_all add: durable_host_def)
  show "outcome durable (\<lambda>_ _. True) w (search_body h args)"
    unfolding search_body_def
    by (intro dur.out_bnd_lift dur.out_bnd[OF out_get_repository_index] dur.out_bnd[OF i(1)] dur.out_ret) simp
  show "outcome same_effects (\<lambda>_ _. True) w (search_body h args)"
    unfolding search_body_def
    by (intro eff.out_bnd_lift eff.out_bnd[OF eff_store(1)] eff.out_bnd[OF i(2)] eff.out_ret) simp
qed

lemma other_bodies_ok:
  assumes "durable_host h"
  shows "outcome durable (\<lambda>_ _. True) w (research_body h args)"
    and "outcome same_effects (\<lambda>_ _. True) w (research_body h args)"
    and "outcome durable (\<lambda>_ _. True) w (artifact_body h args)"
    and "outcome same_effects (\<lambda>_ _. True) w (artifact_body h args)"
proof -
  have r: "outcome durable (\<lambda>_ _. True) w (ho_research h q n)" "outcome same_effects (\<lambda>_ _. True) w (ho_research h q n)"
    and p: "outcome durable (\<lambda>_ _. True) w (ho_put h i c)" "outcome same_effects (\<lambda>_ _. True) w (ho_put h i c)" for w q n i c
    using assms by (simp_all add: durable_host_def)
  show "outcome durable (\<lambda>_ _. True) w (research_body h args)" "outcome same_effects (\<lambda>_ _. True) w (research_body h args)"
    unfolding research_body_def
    by (intro dur.out_bnd_lift eff.out_bnd_lift dur.out_bnd[OF r(1)] eff.out_bnd[OF r(2)] dur.out_ret eff.out_ret; simp)+
  show "outcome durable (\<lambda>_ _. True) w (artifact_body h args)" "outcome same_effects (\<lambda>_ _. True) w (artifact_body h args)"
    unfolding artifact_body_def
    by (intro dur.out_bnd_lift eff.out_bnd_lift dur.out_bnd[OF p(1)] eff.out_bnd[OF p(2)] dur.out_ret eff.out_ret; simp)+
qed

lemma shipped_well_behaved: "durable_host h \<Longrightarrow> well_behaved (shipped_registry h s)"
proof -
  assume h: "durable_host h"
  then have b: "outcome durable (\<lambda>_ _. True) w (ho_body h n a)" "outcome same_effects (\<lambda>_ _. True) w (ho_body h n a)"
    "outcome durable (\<lambda>_ _. True) w (ho_reconcile h n c)" "outcome same_effects (\<lambda>_ _. True) w (ho_reconcile h n c)" for w n a c
    by (simp_all add: durable_host_def)
  show ?thesis
    unfolding well_behaved_def shipped_registry_def host_tool_def store_tool_def
    by (simp add: b index_body_ok[OF h] index_reconcile_ok search_body_ok[OF h] other_bodies_ok[OF h]
        no_reconcile_def dur.out_ret eff.out_ret)
qed

lemma application_is_durable:
  assumes "durable_platform p"
  shows "durable_service (build_application p s)"
proof -
  have h: "durable_host (pf_host p)" using assms by (simp add: durable_platform_def)
  have "durable_demo (app_worker p s)"
    using assms shipped_well_behaved[OF h] by (simp add: durable_demo_def app_worker_def durable_platform_def)
  then have "durable_worker (app_orchestrator p s)"
    by (simp add: durable_worker_def app_orchestrator_def out_demo_execute)
  moreover have "durable_recovery (app_recovery p s)"
    using shipped_well_behaved[OF h] h by (simp add: durable_recovery_def app_recovery_def out_revise durable_host_def)
  ultimately show ?thesis
    using assms h by (simp add: durable_service_def build_application_def out_rule_based_plan durable_platform_def durable_host_def)
qed

text \<open>
  C8. The application as it ships, assembled by the factory from any settings, keeps the stored
  histories through any session: with the default planner, the default worker and the shipped tools in
  place nothing is asked of planner, worker or tools, only that the host does not write the tables
  itself; whatever requests are served, however each ends, between any two points of the session
  states only move along the lifecycle tables and finished records stay.
\<close>

theorem application_keeps_histories:
  assumes "good w" and "durable_platform p"
  shows "wf_db (w_db (session (build_application p s) fuel (qs @ rs) w)) \<and>
    histories_kept (w_db (session (build_application p s) fuel qs w))
      (w_db (session (build_application p s) fuel (qs @ rs) w))"
  using assms(1) application_is_durable[OF assms(2)] by (rule service_keeps_histories)

section \<open>An example\<close>

text \<open>A host on which every outside operation fails.\<close>

definition failing_host :: host where
  "failing_host = \<lparr>ho_root = ''/'', ho_resolve = id, ho_index = (\<lambda>r p i. raise ValueError),
     ho_hybrid = (\<lambda>c q n. ret []), ho_research = (\<lambda>q n. raise (Durable SecurityPolicyError)),
     ho_put = (\<lambda>i c. raise (Durable SecurityPolicyError)), ho_py_str = canonical_json, ho_py_int = (\<lambda>j. Inl ValueError),
     ho_sha256 = id, ho_body = (\<lambda>n a. raise (Durable ToolExecutionError)), ho_reconcile = (\<lambda>n c. ret None)\<rparr>"

definition failing_platform :: platform where
  "failing_platform = \<lparr>pf_host = failing_host, pf_tool_env = plain_env, pf_codec = resume_codec,
     pf_report = small_codec JNull, pf_sha256_bytes = id, pf_message = (\<lambda>e. ''failed''), pf_beats = (\<lambda>w. 0),
     pf_hit = (\<lambda>n. ret ()), pf_resolve = Inr, pf_is_dir = (\<lambda>p. True), pf_artifact_get = (\<lambda>k h. ret ()),
     pf_prune_orphans = (\<lambda>k c b. ret [])\<rparr>"

lemma durable_failing_platform: "durable_platform failing_platform"
  by (simp add: durable_platform_def durable_host_def failing_platform_def failing_host_def
      dur.out_ret eff.out_ret dur.out_raise eff.out_raise)

theorem application_keeps_histories_witness:
  "histories_kept (w_db (session (build_application failing_platform default_AppSettings) 9 [] (calm 0 0 0 resume_db)))
     (w_db (session (build_application failing_platform default_AppSettings) 9
        [Advance ''r'' ''o'' None, Cancel_Run ''r'' ''o'' ''stop'' ''c''] (calm 0 0 0 resume_db)))"
  using application_keeps_histories[OF good_calm[OF wf_resume_db] durable_failing_platform,
    of default_AppSettings 9 "[]" "[Advance ''r'' ''o'' None, Cancel_Run ''r'' ''o'' ''stop'' ''c'']"]
  by simp

end
