(* ===== verification/Repository_Files.thy ===== *)
theory Repository_Files
  imports Artifact_Files Report_Generator
begin

text \<open>
  \<open>tools/filesystem.py\<close>: reading, writing and patching files of the repository, and how an interrupted
  call is reconciled. The tree is a table from canonical paths to entries. \<open>locate\<close> resolves the parent
  of a path inside the root, as \<open>resolve_within_root\<close> does; \<open>decode\<close> and \<open>decode_sig\<close> are
  \<open>bytes.decode\<close> with the codecs \<open>utf-8\<close> and \<open>utf-8-sig\<close>.
\<close>

record file_env =
  fe_locate :: "string \<Rightarrow> exn + string"
  fe_maximum_bytes :: int
  fe_decode :: "string \<Rightarrow> string option"
  fe_decode_sig :: "string \<Rightarrow> string option"
  fe_sha256 :: "string \<Rightarrow> string"

text \<open>\<open>resolve_within_root(root, path)\<close>: the parent, then the entry itself.\<close>

definition resolve_existing :: "file_env \<Rightarrow> string \<Rightarrow> directory \<Rightarrow> exn + string" where
  "resolve_existing env path d =
     (case fe_locate env path of Inl e \<Rightarrow> Inl e | Inr p \<Rightarrow> resolve_entry d p)"

section \<open>Reading\<close>

record read_output =
  ro_path :: string
  ro_content :: string
  ro_content_hash :: string

definition read_file :: "file_env \<Rightarrow> string \<Rightarrow> directory \<Rightarrow> exn + read_output" where
  "read_file env path d =
     (case resolve_existing env path d of Inl e \<Rightarrow> Inl e
      | Inr p \<Rightarrow> (case open_readonly_no_follow d p of Inl e \<Rightarrow> Inl e
      | Inr raw \<Rightarrow>
          if int (length raw) > fe_maximum_bytes env then Inl (Durable ToolExecutionError)
          else case fe_decode_sig env raw of
            None \<Rightarrow> Inl (Durable ToolExecutionError)
          | Some content \<Rightarrow> Inr \<lparr>ro_path = p, ro_content = content, ro_content_hash = fe_sha256 env raw\<rparr>))"

section \<open>Writing\<close>

record write_arguments =
  wa_path :: string
  wa_content :: string
  wa_expected_hash :: "string option"

record write_output =
  wo_path :: string
  wo_content_hash :: string
  wo_bytes :: nat

definition write_result :: "file_env \<Rightarrow> string \<Rightarrow> string \<Rightarrow> write_output" where
  "write_result env p content = \<lparr>wo_path = p, wo_content_hash = fe_sha256 env content, wo_bytes = length content\<rparr>"

text \<open>
  \<open>execute\<close> up to the temporary file: an error, the answer that nothing is to be done, or the canonical
  path and the bytes to put there.
\<close>

datatype write_plan = Already string | Replace string

definition write_check :: "file_env \<Rightarrow> write_arguments \<Rightarrow> directory \<Rightarrow> exn + write_plan" where
  "write_check env a d =
     (let content = utf8 (wa_content a) in
      if int (length content) > fe_maximum_bytes env then Inl (Durable ToolExecutionError)
      else case fe_locate env (wa_path a) of
        Inl e \<Rightarrow> Inl e
      | Inr p \<Rightarrow>
          if file_exists d p
          then (case open_readonly_no_follow d p of
              Inl e \<Rightarrow> Inl e
            | Inr current \<Rightarrow>
                if wa_expected_hash a = None \<or> wa_expected_hash a \<noteq> Some (fe_sha256 env current)
                then if current = content then Inr (Already p) else Inl (Durable ToolExecutionError)
                else Inr (Replace p))
          else if wa_expected_hash a \<noteq> None then Inl (Durable ToolExecutionError)
          else Inr (Replace p))"

text \<open>The two calls that change the tree: writing the temporary file, and \<open>Path.replace\<close>.\<close>

definition write_temporary :: "string \<Rightarrow> string \<Rightarrow> time \<Rightarrow> directory \<Rightarrow> directory" where
  "write_temporary t content now d = AList.update t (Regular content now) d"

definition write_replace :: "string \<Rightarrow> string \<Rightarrow> directory \<Rightarrow> directory" where
  "write_replace t p d = (case map_of d t of
     None \<Rightarrow> d | Some f \<Rightarrow> AList.update p f (AList.delete t d))"

definition write_file ::
  "file_env \<Rightarrow> write_arguments \<Rightarrow> string \<Rightarrow> time \<Rightarrow> directory \<Rightarrow> (exn + write_output) \<times> directory" where
  "write_file env a t now d =
     (let content = utf8 (wa_content a) in
      case write_check env a d of
        Inl e \<Rightarrow> (Inl e, d)
      | Inr (Already p) \<Rightarrow> (Inr (write_result env p content), d)
      | Inr (Replace p) \<Rightarrow> (Inr (write_result env p content), write_replace t p (write_temporary t content now d)))"

text \<open>\<open>reconcile\<close> of the writer: the output of the call, when the tree shows its effect.\<close>

definition reconcile_write :: "file_env \<Rightarrow> write_arguments \<Rightarrow> directory \<Rightarrow> exn + write_output option" where
  "reconcile_write env a d =
     (case fe_locate env (wa_path a) of
        Inl e \<Rightarrow> Inl e
      | Inr p \<Rightarrow>
          if \<not> file_exists d p then Inr None
          else (case open_readonly_no_follow d p of
              Inl e \<Rightarrow> Inl e
            | Inr found \<Rightarrow> if found \<noteq> utf8 (wa_content a) then Inr None
                else Inr (Some (write_result env p (utf8 (wa_content a))))))"

section \<open>Patching\<close>

record patch_arguments =
  pa_path :: string
  pa_old :: string
  pa_new :: string
  pa_expected_hash :: string
  pa_expected_result_hash :: string

text \<open>\<open>str.count\<close> counts occurrences that do not overlap; \<open>str.replace(old, new, 1)\<close>.\<close>

fun py_count :: "string \<Rightarrow> nat \<Rightarrow> string \<Rightarrow> nat" where
  "py_count old skip [] = 0"
| "py_count old skip (c # cs) =
     (if 0 < skip then py_count old (skip - 1) cs
      else if starts_with old (c # cs) then Suc (py_count old (length old - 1) cs)
      else py_count old 0 cs)"

fun replace_first :: "string \<Rightarrow> string \<Rightarrow> string \<Rightarrow> string" where
  "replace_first old new [] = []"
| "replace_first old new (c # cs) =
     (if starts_with old (c # cs) then new @ drop (length old) (c # cs)
      else c # replace_first old new cs)"

definition patch_file ::
  "file_env \<Rightarrow> patch_arguments \<Rightarrow> string \<Rightarrow> time \<Rightarrow> directory \<Rightarrow> (exn + write_output \<times> nat) \<times> directory" where
  "patch_file env a t now d =
     (case resolve_existing env (pa_path a) d of Inl e \<Rightarrow> (Inl e, d)
      | Inr p \<Rightarrow> (case open_readonly_no_follow d p of Inl e \<Rightarrow> (Inl e, d)
      | Inr raw \<Rightarrow>
          if fe_sha256 env raw \<noteq> pa_expected_hash a
          then if fe_sha256 env raw = pa_expected_result_hash a then (Inr (write_result env p raw, 0), d)
               else (Inl (Durable ToolExecutionError), d)
          else case fe_decode env raw of
            None \<Rightarrow> (Inl (Durable ToolExecutionError), d)
          | Some content \<Rightarrow>
              if py_count (pa_old a) 0 content \<noteq> 1 then (Inl (Durable ToolExecutionError), d)
              else
                let updated = replace_first (pa_old a) (pa_new a) content in
                if fe_sha256 env (utf8 updated) \<noteq> pa_expected_result_hash a
                then (Inl (Durable ToolExecutionError), d)
                else (case write_file env \<lparr>wa_path = pa_path a, wa_content = updated,
                        wa_expected_hash = Some (pa_expected_hash a)\<rparr> t now d of
                    (Inl e, d') \<Rightarrow> (Inl e, d')
                  | (Inr out, d') \<Rightarrow> (Inr (out, 1), d'))))"

definition reconcile_patch :: "file_env \<Rightarrow> patch_arguments \<Rightarrow> directory \<Rightarrow> exn + (write_output \<times> nat) option" where
  "reconcile_patch env a d =
     (case resolve_existing env (pa_path a) d of Inl e \<Rightarrow> Inl e
      | Inr p \<Rightarrow> (case open_readonly_no_follow d p of Inl e \<Rightarrow> Inl e
      | Inr raw \<Rightarrow> if fe_sha256 env raw \<noteq> pa_expected_result_hash a then Inr None
          else Inr (Some (write_result env p raw, 0))))"

section \<open>A write that can be repeated\<close>

text \<open>A name \<open>mkstemp\<close> chooses: no entry has it and no link names it.\<close>

definition fresh_entry :: "string \<Rightarrow> directory \<Rightarrow> bool" where
  "fresh_entry t d \<longleftrightarrow> map_of d t = None \<and> Symlink (Entry t) \<notin> snd ` set d"

text \<open>The trees a write may leave: before the temporary file, with part of it, with all of it, replaced.\<close>

inductive write_stops :: "file_env \<Rightarrow> write_arguments \<Rightarrow> string \<Rightarrow> time \<Rightarrow> directory \<Rightarrow> directory \<Rightarrow> bool"
  for env a t now d where
  stop_before: "write_stops env a t now d d"
| stop_in_write: "write_check env a d = Inr (Replace p) \<Longrightarrow>
    write_stops env a t now d (write_temporary t (take n (utf8 (wa_content a))) now d)"
| stop_after: "write_stops env a t now d (snd (write_file env a t now d))"

lemma write_check_path:
  "write_check env a d = Inr (Already p) \<Longrightarrow> fe_locate env (wa_path a) = Inr p"
  "write_check env a d = Inr (Replace p) \<Longrightarrow> fe_locate env (wa_path a) = Inr p"
  by (auto simp: write_check_def Let_def split: if_splits sum.splits)

lemma map_of_replace:
  "map_of (write_replace t p (write_temporary t c now d)) n =
     (if n = p then Some (Regular c now) else if n = t then None else map_of d n)"
  by (simp add: write_replace_def write_temporary_def update_lookup delete_lookup)

lemma write_file_cases:
  assumes "write_file env a t now d = (r, d')"
  obtains e where "write_check env a d = Inl e" "r = Inl e" "d' = d"
  | p where "write_check env a d = Inr (Already p)" "r = Inr (write_result env p (utf8 (wa_content a)))" "d' = d"
  | p where "write_check env a d = Inr (Replace p)" "r = Inr (write_result env p (utf8 (wa_content a)))"
      "d' = write_replace t p (write_temporary t (utf8 (wa_content a)) now d)"
  using assms by (auto simp: write_file_def Let_def split: sum.splits write_plan.splits)

lemma file_exists_regular: "map_of d p = Some (Regular c m) \<Longrightarrow> file_exists d p"
  by (simp add: file_exists_def)

lemma file_exists_other:
  assumes "fresh_entry t d" and "t \<noteq> p"
  shows "file_exists (write_temporary t c now d) p = file_exists d p"
proof -
  have "map_of d p \<noteq> Some (Symlink (Entry t))"
    using assms(1) by (force simp: fresh_entry_def dest: map_of_SomeD)
  then show ?thesis
    using assms(2) by (auto simp: file_exists_def write_temporary_def update_lookup split: option.splits inode.splits link_target.splits)
qed

lemma open_other: "t \<noteq> p \<Longrightarrow> open_readonly_no_follow (write_temporary t c now d) p = open_readonly_no_follow d p"
  by (simp add: open_readonly_no_follow_def write_temporary_def update_lookup)

lemma write_check_temporary:
  assumes "fresh_entry t d" and "fe_locate env (wa_path a) = Inr p" and "t \<noteq> p"
  shows "write_check env a (write_temporary t c now d) = write_check env a d"
  using assms by (simp add: write_check_def Let_def file_exists_other open_other)

text \<open>What a write does on success, whatever it found.\<close>

lemma write_file_done:
  assumes "write_file env a t now d = (Inr out, d')" and "fe_locate env (wa_path a) = Inr p" and "t \<noteq> p"
    and "map_of d t = None"
  shows "out = write_result env p (utf8 (wa_content a)) \<and>
    (\<exists>m. map_of d' p = Some (Regular (utf8 (wa_content a)) m)) \<and> (\<forall>n. n \<noteq> p \<longrightarrow> map_of d' n = map_of d n)"
  using assms(1)
proof (cases rule: write_file_cases)
  case (2 q)
  then have "q = p" using write_check_path(1)[OF 2(1)] assms(2) by simp
  moreover have "\<exists>m. map_of d q = Some (Regular (utf8 (wa_content a)) m)"
    using 2(1) by (auto simp: write_check_def Let_def open_Inr split: if_splits sum.splits)
  ultimately show ?thesis using 2 by simp
next
  case (3 q)
  then have "q = p" using write_check_path(2)[OF 3(1)] assms(2) by simp
  then show ?thesis using 3 assms(3,4) by (simp add: map_of_replace)
qed simp

lemma write_again:
  assumes "write_file env a t now d = (Inr out, d')" and "fe_locate env (wa_path a) = Inr p"
    and "map_of d' p = Some (Regular (utf8 (wa_content a)) m)"
  shows "\<exists>q. write_check env a d' = Inr q \<and> q \<in> {Already p, Replace p}"
proof -
  have "\<not> int (length (utf8 (wa_content a))) > fe_maximum_bytes env"
    using assms(1) by (auto simp: write_file_def write_check_def Let_def split: if_splits)
  then show ?thesis
    using assms(2,3) by (auto simp: write_check_def Let_def file_exists_regular open_readonly_no_follow_def)
qed

lemma reconcile_written:
  "fe_locate env (wa_path a) = Inr p \<Longrightarrow> map_of d p = Some (Regular (utf8 (wa_content a)) m) \<Longrightarrow>
   reconcile_write env a d = Inr (Some (write_result env p (utf8 (wa_content a))))"
  by (simp add: reconcile_write_def file_exists_regular open_readonly_no_follow_def)

text \<open>
  C24. The writer is retry-safe, as its declaration says: when a write would succeed, then a process that
  died anywhere in it, before, in the middle of or after writing the temporary file or after the
  replacement, can be followed by the same write, which succeeds with the same output and leaves the
  wanted bytes under the path and every other entry (but the dead process's temporary file) as it
  was; and reconciling the call answers with that output.
\<close>

theorem write_is_retry_safe:
  assumes "write_file env a t now d = (Inr out, d')" and "fresh_entry t d"
    and "fe_locate env (wa_path a) = Inr p" and "t \<noteq> p"
    and "write_stops env a t now d dk" and "fresh_entry u dk" and "u \<noteq> p"
  shows "\<exists>d2 m. write_file env a u later dk = (Inr out, d2) \<and>
    map_of d2 p = Some (Regular (utf8 (wa_content a)) m) \<and>
    (\<forall>n. n \<noteq> p \<and> n \<noteq> t \<longrightarrow> map_of d2 n = map_of d n) \<and>
    reconcile_write env a d2 = Inr (Some out)"
proof -
  have t: "map_of d t = None" and u: "map_of dk u = None" using assms(2,6) by (simp_all add: fresh_entry_def)
  note first = write_file_done[OF assms(1,3,4) t]
  have "(\<exists>q. write_check env a dk = Inr q) \<and> (\<forall>n. n \<noteq> p \<and> n \<noteq> t \<longrightarrow> map_of dk n = map_of d n)"
    using assms(5)
  proof cases
    case stop_before
    have "\<exists>q. write_check env a d = Inr q" using assms(1) by (cases rule: write_file_cases) auto
    with stop_before show ?thesis by simp
  next
    case (stop_in_write q n)
    then show ?thesis
      using write_check_temporary[OF assms(2-4)] by (auto simp: write_temporary_def update_lookup)
  next
    case stop_after
    then show ?thesis using first write_again[OF assms(1,3)] assms(1) by auto
  qed
  then obtain q where q: "write_check env a dk = Inr q" "\<forall>n. n \<noteq> p \<and> n \<noteq> t \<longrightarrow> map_of dk n = map_of d n" by blast
  obtain out2 d2 where again: "write_file env a u later dk = (Inr out2, d2)"
    using q(1) by (cases q) (simp_all add: write_file_def Let_def)
  have "out2 = out" using write_file_done[OF again assms(3,7) u] first by simp
  moreover obtain m where "map_of d2 p = Some (Regular (utf8 (wa_content a)) m)"
    using write_file_done[OF again assms(3,7) u] by blast
  ultimately show ?thesis
    using again q(2) write_file_done[OF again assms(3,7) u] first reconcile_written[OF assms(3)] by auto
qed

text \<open>A patch that has been applied recognises itself.\<close>

lemma patch_repeats:
  assumes "patch_file env a t now d = (Inr (out, k), d')" and "fe_locate env (pa_path a) = Inr p"
    and "\<And>l. map_of d p \<noteq> Some (Symlink l)" and "t \<noteq> p" and "map_of d t = None"
    and "pa_expected_result_hash a \<noteq> pa_expected_hash a"
  shows "patch_file env a u later d' = (Inr (out, 0), d') \<and> reconcile_patch env a d' = Inr (Some (out, 0))"
proof -
  have res: "resolve_existing env (pa_path a) x = Inr p" if "map_of x p = Some (Regular c m)" for x c m
    using that assms(2) by (simp add: resolve_existing_def resolve_entry_def)
  obtain raw m where raw: "map_of d p = Some (Regular raw m)"
    using assms(1-3) by (auto simp: patch_file_def resolve_existing_def resolve_entry_def open_Inr
        split: sum.splits option.splits inode.splits link_target.splits if_splits)
  have open_raw: "open_readonly_no_follow d p = Inr raw" using raw by (simp add: open_readonly_no_follow_def)
  have "\<exists>c m. map_of d' p = Some (Regular c m) \<and> fe_sha256 env c = pa_expected_result_hash a \<and> out = write_result env p c"
  proof (cases "fe_sha256 env raw = pa_expected_hash a")
    case False
    then show ?thesis using assms(1) raw open_raw res[OF raw] by (auto simp: patch_file_def split: if_splits)
  next
    case True
    then obtain content where c: "fe_decode env raw = Some content"
      "fe_sha256 env (utf8 (replace_first (pa_old a) (pa_new a) content)) = pa_expected_result_hash a"
      "write_file env \<lparr>wa_path = pa_path a, wa_content = replace_first (pa_old a) (pa_new a) content,
         wa_expected_hash = Some (pa_expected_hash a)\<rparr> t now d = (Inr out, d')"
      using assms(1) open_raw res[OF raw]
      by (auto simp: patch_file_def Let_def split: if_splits option.splits prod.splits sum.splits)
    from write_file_done[OF c(3)] assms(2,4,5) c(2) show ?thesis by auto
  qed
  then show ?thesis
    using res assms(6) by (auto simp: patch_file_def reconcile_patch_def open_readonly_no_follow_def)
qed

text \<open>
  C38. The compare-and-swap of the writer is not atomic: of two writers that have both checked the file
  against the hash they expect before either replaces it, both succeed, and the bytes of the first are
  lost without an error, although one after the other the second would have been refused.
\<close>

theorem concurrent_writes_lose_update:
  assumes "write_check env a d = Inr (Replace p)" and "write_check env b d = Inr (Replace p)"
    and "wa_expected_hash b = Some h" and "fe_sha256 env (utf8 (wa_content a)) \<noteq> h"
    and "utf8 (wa_content a) \<noteq> utf8 (wa_content b)" and "t \<noteq> p"
    and "d1 = write_replace t p (write_temporary t (utf8 (wa_content a)) now d)"
    and "d2 = write_replace u p (write_temporary u (utf8 (wa_content b)) later d1)"
  shows "write_file env a t now d = (Inr (write_result env p (utf8 (wa_content a))), d1) \<and>
    map_of d2 p = Some (Regular (utf8 (wa_content b)) later) \<and>
    reconcile_write env a d2 = Inr None \<and>
    write_file env b u later d1 = (Inl (Durable ToolExecutionError), d1)"
proof -
  have loc: "fe_locate env (wa_path a) = Inr p" "fe_locate env (wa_path b) = Inr p"
    using assms(1,2) by (simp_all add: write_check_path)
  have d1: "map_of d1 p = Some (Regular (utf8 (wa_content a)) now)"
    and d2: "map_of d2 p = Some (Regular (utf8 (wa_content b)) later)"
    unfolding assms(7,8) by (simp_all add: map_of_replace)
  have size: "\<not> int (length (utf8 (wa_content b))) > fe_maximum_bytes env"
    using assms(2) by (auto simp: write_check_def Let_def split: if_splits)
  have "write_check env b d1 = Inl (Durable ToolExecutionError)"
    using d1 size loc(2) assms(3-5)
    by (simp add: write_check_def Let_def file_exists_regular open_readonly_no_follow_def)
  then show ?thesis
    using assms(1,5,7) d2 loc(1)
    by (simp add: write_file_def Let_def reconcile_write_def file_exists_regular open_readonly_no_follow_def)
qed

section \<open>An example\<close>

definition flat_env :: file_env where
  "flat_env = \<lparr>fe_locate = Inr, fe_maximum_bytes = 100, fe_decode = Some, fe_decode_sig = Some, fe_sha256 = id\<rparr>"

definition flat_tree :: directory where
  "flat_tree = [(''a.py'', Regular ''old'' 0), (''b.py'', Regular ''b'' 0)]"

definition flat_write :: "string \<Rightarrow> write_arguments" where
  "flat_write c = \<lparr>wa_path = ''a.py'', wa_content = c, wa_expected_hash = Some ''old''\<rparr>"

lemma flat_check: "write_check flat_env (flat_write ''new'') flat_tree = Inr (Replace ''a.py'')"
  "write_check flat_env (flat_write ''other'') flat_tree = Inr (Replace ''a.py'')"
  by code_simp+

theorem write_is_retry_safe_witness:
  "\<exists>d2 m. write_file flat_env (flat_write ''new'') ''.u'' 2 (write_temporary ''.t'' ''ne'' 1 flat_tree) =
      (Inr (write_result flat_env ''a.py'' (utf8 ''new'')), d2) \<and>
    map_of d2 ''a.py'' = Some (Regular (utf8 ''new'') m) \<and> map_of d2 ''b.py'' = Some (Regular ''b'' 0)"
proof -
  have run: "write_file flat_env (flat_write ''new'') ''.t'' 1 flat_tree =
      (Inr (write_result flat_env ''a.py'' (utf8 ''new'')), snd (write_file flat_env (flat_write ''new'') ''.t'' 1 flat_tree))"
    using flat_check(1) by (simp add: write_file_def Let_def flat_write_def)
  have "take 2 (utf8 (wa_content (flat_write ''new''))) = ''ne''" by code_simp
  then have stop: "write_stops flat_env (flat_write ''new'') ''.t'' 1 flat_tree (write_temporary ''.t'' ''ne'' 1 flat_tree)"
    using stop_in_write[OF flat_check(1), of "''.t''" 1 2] by simp
  have fresh: "fresh_entry ''.t'' flat_tree" "fresh_entry ''.u'' (write_temporary ''.t'' ''ne'' 1 flat_tree)" by code_simp+
  have loc: "fe_locate flat_env (wa_path (flat_write ''new'')) = Inr ''a.py''" by (simp add: flat_env_def flat_write_def)
  have names: "(''.t'' :: string) \<noteq> ''a.py''" "(''.u'' :: string) \<noteq> ''a.py''" by simp_all
  have b: "map_of flat_tree ''b.py'' = Some (Regular ''b'' 0)" by code_simp
  have content: "wa_content (flat_write ''new'') = ''new''" by (simp add: flat_write_def)
  obtain d2 m where "write_file flat_env (flat_write ''new'') ''.u'' 2 (write_temporary ''.t'' ''ne'' 1 flat_tree) =
      (Inr (write_result flat_env ''a.py'' (utf8 ''new'')), d2)"
    "map_of d2 ''a.py'' = Some (Regular (utf8 ''new'') m)"
    and other: "\<forall>n. n \<noteq> ''a.py'' \<and> n \<noteq> ''.t'' \<longrightarrow> map_of d2 n = map_of flat_tree n"
    using write_is_retry_safe[OF run fresh(1) loc names(1) stop fresh(2) names(2), of 2] unfolding content by blast
  moreover have "map_of d2 ''b.py'' = Some (Regular ''b'' 0)" using other b by simp
  ultimately show ?thesis by blast
qed

theorem concurrent_writes_lose_update_witness:
  "\<exists>d1 d2. write_file flat_env (flat_write ''new'') ''.t'' 1 flat_tree =
      (Inr (write_result flat_env ''a.py'' (utf8 ''new'')), d1) \<and>
    map_of d2 ''a.py'' = Some (Regular (utf8 ''other'') 2) \<and> reconcile_write flat_env (flat_write ''new'') d2 = Inr None"
proof -
  have h: "wa_expected_hash (flat_write ''other'') = Some ''old''" by (simp add: flat_write_def)
  have n: "fe_sha256 flat_env (utf8 (wa_content (flat_write ''new''))) \<noteq> ''old''"
    "utf8 (wa_content (flat_write ''new'')) \<noteq> utf8 (wa_content (flat_write ''other''))" by code_simp+
  have t: "(''.t'' :: string) \<noteq> ''a.py''" by simp
  have "wa_content (flat_write ''new'') = ''new''" "wa_content (flat_write ''other'') = ''other''"
    by (simp_all add: flat_write_def)
  with concurrent_writes_lose_update[OF flat_check h n t refl refl, of 1 "''.u''" 2]
  show ?thesis by metis
qed

end
