(* ===== verification/Line_Ranges.thy ===== *)
theory Line_Ranges
  imports Python_Text
begin

text \<open>
  How \<open>repository/indexer.py\<close> (\<open>_chunks_for\<close>) cuts a file into ranges of lines: one range per symbol,
  and runs of at most \<open>chunk_lines\<close> lines for what the symbols leave.
\<close>

type_synonym symbol_range = "string \<times> int \<times> int"

text \<open>The inner \<open>while\<close>: the run that starts at \<open>start\<close>, and what is left of the uncovered lines.\<close>

fun take_run :: "int \<Rightarrow> int \<Rightarrow> int \<Rightarrow> int list \<Rightarrow> int \<times> int list" where
  "take_run limit start end [] = (end, [])"
| "take_run limit start end (l # ls) =
     (if l = end + 1 \<and> end - start + 1 < limit then take_run limit start l ls else (end, l # ls))"

lemma take_run_shorter [simp]: "length (snd (take_run limit start end ls)) \<le> length ls"
  by (induction limit start "end" ls rule: take_run.induct) auto

function line_runs :: "int \<Rightarrow> int list \<Rightarrow> symbol_range list" where
  "line_runs limit [] = []"
| "line_runs limit (l # ls) =
     (case take_run limit l l ls of (end, rest) \<Rightarrow> ('''', l, end) # line_runs limit rest)"
  by pat_completeness auto
termination
proof (relation "measure (length \<circ> snd)", goal_cases)
  case (2 limit l ls r rest)
  then show ?case using take_run_shorter[of limit l l ls] by (metis comp_apply in_measure le_imp_less_Suc length_Cons snd_conv)
qed simp

text \<open>The ranges without symbols: \<open>range(1, len(lines) + 1, chunk_lines)\<close>.\<close>

definition plain_ranges :: "int \<Rightarrow> int \<Rightarrow> symbol_range list" where
  "plain_ranges limit n = map (\<lambda>i. ('''', 1 + int i * limit, min (1 + int i * limit + limit - 1) n))
     [0..<nat ((n + limit - 1) div limit)]"

definition covered_lines :: "int \<Rightarrow> symbol_range list \<Rightarrow> int set" where
  "covered_lines n symbols = (\<Union>(s, a, b) \<in> set symbols. {a..min b n})"

definition line_ranges :: "int \<Rightarrow> int \<Rightarrow> symbol_range list \<Rightarrow> symbol_range list" where
  "line_ranges limit n symbols =
     sort_key (\<lambda>(s, a, b). (a, b, s))
       (if symbols = [] then plain_ranges limit n
        else symbols @ line_runs limit (filter (\<lambda>l. l \<notin> covered_lines n symbols) [1..n]))"

section \<open>The runs\<close>

lemma take_run_eq:
  assumes "take_run limit start end ls = (e, rest)" and "start \<le> end" and "end - start + 1 \<le> limit"
  shows "[start..end] @ ls = [start..e] @ rest \<and> start \<le> e \<and> e - start + 1 \<le> limit"
  using assms
proof (induction limit start "end" ls rule: take_run.induct)
  case (2 limit start "end" l ls)
  show ?case
  proof (cases "l = end + 1 \<and> end - start + 1 < limit")
    case True
    then have "[start..l] = [start..end] @ [l]" using 2(3) by (simp add: upto_rec2)
    then show ?thesis using 2 True by auto
  qed (use 2 in auto)
qed auto

abbreviation lines_of :: "symbol_range \<Rightarrow> int list" where
  "lines_of r \<equiv> case r of (s, a, b) \<Rightarrow> [a..b]"

abbreviation range_size :: "symbol_range \<Rightarrow> int" where
  "range_size r \<equiv> case r of (s, a, b) \<Rightarrow> b - a + 1"

lemma line_runs_spec:
  assumes "0 < limit"
  shows "concat (map lines_of (line_runs limit ls)) = ls \<and>
    (\<forall>r \<in> set (line_runs limit ls). fst r = '''' \<and> 1 \<le> range_size r \<and> range_size r \<le> limit)"
  using assms
proof (induction limit ls rule: line_runs.induct)
  case (2 limit l ls)
  obtain e rest where run: "take_run limit l l ls = (e, rest)" by force
  have eq: "line_runs limit (l # ls) = ('''', l, e) # line_runs limit rest" using run by simp
  have "[l..e] @ rest = l # ls \<and> l \<le> e \<and> e - l + 1 \<le> limit"
    using take_run_eq[OF run] 2(2) by simp
  then show ?case using 2(1)[OF run[symmetric] 2(2)] unfolding eq by simp
qed simp

lemma plain_ranges_prefix:
  assumes "0 < limit" and "0 \<le> n" and "int k * limit < n + limit"
  shows "concat (map (\<lambda>i. [1 + int i * limit..min (1 + int i * limit + limit - 1) n]) [0..<k]) =
    [1..min (int k * limit) n]"
  using assms(3)
proof (induction k)
  case (Suc k)
  then have k: "int k * limit < n" by (simp add: algebra_simps)
  have "[1..min (int (Suc k) * limit) n] =
      [1..int k * limit] @ [1 + int k * limit..min (1 + int k * limit + limit - 1) n]"
    using assms(1) k upto_split1[of 1 "int k * limit + 1" "min (int (Suc k) * limit) n"]
    by (simp add: algebra_simps)
  then show ?case using Suc k assms(1) by (simp add: algebra_simps)
qed (use assms in simp)

lemma plain_ranges_spec:
  assumes "0 < limit" and "0 \<le> n"
  shows "concat (map lines_of (plain_ranges limit n)) = [1..n] \<and>
    (\<forall>r \<in> set (plain_ranges limit n). fst r = '''' \<and> 1 \<le> range_size r \<and> range_size r \<le> limit)"
proof -
  let ?k = "nat ((n + limit - 1) div limit)"
  have k: "int ?k = (n + limit - 1) div limit" using assms by (simp add: pos_imp_zdiv_nonneg_iff)
  have up: "int ?k * limit < n + limit"
    using assms(1) by (simp only: k) (smt (verit) div_mult_mod_eq pos_mod_sign)
  have low: "n \<le> int ?k * limit"
    using assms(1) by (simp only: k) (smt (verit) div_mult_mod_eq pos_mod_bound)
  have "fst r = '''' \<and> 1 \<le> range_size r \<and> range_size r \<le> limit" if r: "r \<in> set (plain_ranges limit n)" for r
  proof -
    obtain i where i: "i < ?k" "r = ('''', 1 + int i * limit, min (1 + int i * limit + limit - 1) n)"
      using r by (auto simp: plain_ranges_def)
    have "int (Suc i) \<le> int ?k" unfolding of_nat_le_iff using i(1) by (rule Suc_leI)
    then have "int (Suc i) * limit \<le> int ?k * limit" using assms(1) by (intro mult_right_mono) auto
    then have "int i * limit < n" using up by (simp add: algebra_simps)
    then show ?thesis using i(2) assms(1) by (simp add: min_def)
  qed
  then show ?thesis
    using plain_ranges_prefix[OF assms up] low
    by (simp add: plain_ranges_def comp_def min_absorb2)
qed

section \<open>All ranges\<close>

lemma concat_lines: "set (concat (map lines_of rs)) = {l. \<exists>(s, a, b) \<in> set rs. a \<le> l \<and> l \<le> b}"
  by fastforce

lemma line_ranges_cover:
  assumes "0 < limit" and "1 \<le> l" and "l \<le> n"
  shows "\<exists>(s, a, b) \<in> set (line_ranges limit n symbols). a \<le> l \<and> l \<le> b"
proof -
  consider "symbols = []" | "symbols \<noteq> []" "l \<in> covered_lines n symbols" | "symbols \<noteq> []" "l \<notin> covered_lines n symbols"
    by blast
  then show ?thesis
  proof cases
    case 1
    have "l \<in> set (concat (map lines_of (plain_ranges limit n)))" using plain_ranges_spec[of limit n] assms by simp
    then show ?thesis unfolding concat_lines using 1 by (simp add: line_ranges_def)
  next
    case 2
    then show ?thesis by (fastforce simp: line_ranges_def covered_lines_def)
  next
    case 3
    let ?u = "filter (\<lambda>l. l \<notin> covered_lines n symbols) [1..n]"
    have "l \<in> set (concat (map lines_of (line_runs limit ?u)))" using line_runs_spec[of limit ?u] assms 3 by simp
    then show ?thesis unfolding concat_lines using 3 by (auto simp: line_ranges_def)
  qed
qed

lemma line_ranges_short:
  assumes "0 < limit" and "0 \<le> n" and "(s, a, b) \<in> set (line_ranges limit n symbols)"
  shows "(s, a, b) \<in> set symbols \<or> s = '''' \<and> a \<le> b \<and> b - a + 1 \<le> limit \<and> 1 \<le> a \<and> b \<le> n"
proof (cases "symbols = []")
  case True
  have "set [a..b] \<subseteq> set (concat (map lines_of (plain_ranges limit n)))"
    using assms(3) True unfolding concat_lines by (fastforce simp: line_ranges_def)
  moreover have "s = ''''" "a \<le> b" "b - a + 1 \<le> limit"
    using plain_ranges_spec[OF assms(1,2)] assms(3) True by (fastforce simp: line_ranges_def)+
  ultimately show ?thesis using plain_ranges_spec[OF assms(1,2)] by force
next
  case False
  let ?u = "filter (\<lambda>l. l \<notin> covered_lines n symbols) [1..n]"
  show ?thesis
  proof (cases "(s, a, b) \<in> set symbols")
    case False
    then have r: "(s, a, b) \<in> set (line_runs limit ?u)" using assms(3) \<open>symbols \<noteq> []\<close> by (simp add: line_ranges_def)
    then have "set [a..b] \<subseteq> set (concat (map lines_of (line_runs limit ?u)))" unfolding concat_lines by fastforce
    then have "set [a..b] \<subseteq> {1..n}" using line_runs_spec[OF assms(1), of ?u] by auto
    moreover have "s = ''''" "a \<le> b" "b - a + 1 \<le> limit"
      using line_runs_spec[OF assms(1), of ?u] r by fastforce+
    ultimately show ?thesis by force
  qed simp
qed

end
