(* ===== verification/Repository_Indexer.thy ===== *)
theory Repository_Indexer
  imports Line_Ranges Checkpoint_Manager
begin

text \<open>
  \<open>repository/indexer.py\<close>: the walk over the repository, the classification and chunking of its files,
  and the snapshot compared with the one before. The directory tree is a value, read once; parsing
  Python, decoding, guessing media types, matching ignore patterns and finding injection indicators
  are the parameters of \<open>indexer\<close>.
\<close>

section \<open>The tree and the indexer\<close>

text \<open>
  A regular file has the size \<open>stat\<close> reports and the bytes that are read afterwards; a symbolic link
  is one to a directory or not; \<open>Special\<close> is anything else.
\<close>

datatype entry = Directory "(string \<times> entry) list" | Regular_File int string | Symlink bool | Special

datatype py_node = PyDef string int int | PyImport "string list" | PyImportFrom "string option" | PyOther

record indexer =
  ix_sha256 :: "string \<Rightarrow> string"
  ix_decode_sig :: "string \<Rightarrow> string option"
  ix_decode_replace :: "string \<Rightarrow> string"
  ix_parse :: "string \<Rightarrow> py_node list option"
  ix_guess_type :: "string \<Rightarrow> string option"
  ix_ignored :: "string list \<Rightarrow> string \<Rightarrow> bool"
  ix_indicators :: "string \<Rightarrow> nat"
  ix_maximum_file_bytes :: int
  ix_maximum_repository_bytes :: int
  ix_exclusions :: "string list"
  ix_chunk_lines :: int

definition new_indexer :: "indexer \<Rightarrow> exn + indexer" where
  "new_indexer ix = (if ix_maximum_file_bytes ix \<le> 0 \<or> ix_maximum_repository_bytes ix \<le> 0 \<or> ix_chunk_lines ix \<le> 0
     then Inl ValueError else Inr ix)"

section \<open>The walk\<close>

definition ignore_lines :: "indexer \<Rightarrow> (string \<times> entry) list \<Rightarrow> string list" where
  "ignore_lines ix entries = (case map_of entries ''.gitignore'' of
     Some (Regular_File n raw) \<Rightarrow>
       if int (length raw) \<le> ix_maximum_file_bytes ix then py_splitlines (ix_decode_replace ix raw) else []
   | _ \<Rightarrow> [])"

definition load_ignore_patterns :: "indexer \<Rightarrow> (string \<times> entry) list \<Rightarrow> string list" where
  "load_ignore_patterns ix entries = ix_exclusions ix @ ignore_lines ix entries"

definition scoped_ignore_pattern :: "string \<Rightarrow> string \<Rightarrow> string" where
  "scoped_ignore_pattern prefix pattern =
     (if pattern = [] \<or> starts_with ''#'' pattern then pattern
      else
        let negated = starts_with ''!'' pattern;
            body = py_removeprefix ''/'' (if negated then drop 1 pattern else pattern);
            scoped = prefix @ ''/'' @ body in
        if negated then ''!'' @ scoped else scoped)"

definition relative_to_root :: "string \<Rightarrow> string \<Rightarrow> string" where
  "relative_to_root prefix name = (if prefix = [] then name else prefix @ ''/'' @ name)"

text \<open>\<open>os.walk\<close> puts links to directories among the directories, and never follows them.\<close>

definition is_dir_entry :: "entry \<Rightarrow> bool" where
  "is_dir_entry e = (case e of Directory _ \<Rightarrow> True | Symlink d \<Rightarrow> d | _ \<Rightarrow> False)"

datatype found = Warned string | Found string int string

definition directory_warnings :: "string \<Rightarrow> (string \<times> entry) list \<Rightarrow> found list" where
  "directory_warnings prefix directories = List.map_filter (\<lambda>(name, e). case e of
     Symlink d \<Rightarrow> Some (Warned (''skipped directory symlink: '' @ relative_to_root prefix name @ ''/''))
   | _ \<Rightarrow> None) directories"

definition safe_directories :: "indexer \<Rightarrow> string list \<Rightarrow> string \<Rightarrow> (string \<times> entry) list \<Rightarrow> (string \<times> entry) list" where
  "safe_directories ix patterns prefix directories = filter (\<lambda>(name, e). case e of
     Symlink d \<Rightarrow> False
   | _ \<Rightarrow> \<not> ix_ignored ix patterns (relative_to_root prefix name @ ''/'')) directories"

definition found_files :: "indexer \<Rightarrow> string list \<Rightarrow> string \<Rightarrow> (string \<times> entry) list \<Rightarrow> found list" where
  "found_files ix patterns prefix files = List.map_filter (\<lambda>(name, e).
     let relative = relative_to_root prefix name in
     if ix_ignored ix patterns relative then None
     else (case e of
        Symlink d \<Rightarrow> Some (Warned (''skipped file symlink: '' @ relative))
      | Regular_File n raw \<Rightarrow> Some (Found relative n raw)
      | _ \<Rightarrow> Some (Warned (''skipped non-regular file: '' @ relative)))) files"

text \<open>The recursion of \<open>os.walk\<close> is bounded by the depth of the tree.\<close>

fun entry_size :: "entry \<Rightarrow> nat" where
  "entry_size (Directory es) = Suc (sum_list (map (\<lambda>(name, e). entry_size e) es))"
| "entry_size e = 1"

definition entries_size :: "(string \<times> entry) list \<Rightarrow> nat" where
  "entries_size es = sum_list (map (\<lambda>(name, e). entry_size e) es)"

lemma entries_size_simps [simp]:
  "entries_size [] = 0" "entries_size (x # xs) = entry_size (snd x) + entries_size xs"
  by (simp_all add: entries_size_def case_prod_beta)

lemma entries_size_sort [simp]: "entries_size (sort_key f es) = entries_size es"
proof -
  have "mset (map (\<lambda>(name, e). entry_size e) (sort_key f es)) = mset (map (\<lambda>(name, e). entry_size e) es)"
    by simp
  then show ?thesis unfolding entries_size_def by (metis sum_mset_sum_list)
qed

lemma entries_size_filter: "entries_size (filter P es) \<le> entries_size es"
  by (induction es) auto

lemma entries_size_safe: "entries_size (safe_directories ix ps prefix es) \<le> entries_size es"
  unfolding safe_directories_def by (rule entries_size_filter)

text \<open>
  \<open>walk\<close> is one directory: its nested \<open>.gitignore\<close>, its directories (only noted), its files, and then the
  directories that are left, one after the other, with the patterns gathered so far.
\<close>

definition add_nested_patterns :: "indexer \<Rightarrow> string \<Rightarrow> (string \<times> entry) list \<Rightarrow> string list \<Rightarrow> string list" where
  "add_nested_patterns ix prefix entries patterns =
     (if prefix = [] then patterns
      else patterns @ map (scoped_ignore_pattern prefix) (ignore_lines ix entries))"

definition directories_of :: "(string \<times> entry) list \<Rightarrow> (string \<times> entry) list" where
  "directories_of entries = sort_key fst (filter (is_dir_entry \<circ> snd) entries)"

definition files_of :: "(string \<times> entry) list \<Rightarrow> (string \<times> entry) list" where
  "files_of entries = sort_key fst (filter (Not \<circ> is_dir_entry \<circ> snd) entries)"

lemma entry_size_positive: "0 < entry_size e"
  by (cases e) simp_all

lemma entries_size_Directory [simp]: "entry_size (Directory es) = Suc (entries_size es)"
  by (simp add: entries_size_def)

declare entry_size.simps(1) [simp del]

lemma entries_size_directories: "entries_size (directories_of es) \<le> entries_size es"
  by (simp add: directories_of_def entries_size_filter)

function walk :: "indexer \<Rightarrow> string \<Rightarrow> (string \<times> entry) list \<Rightarrow> string list \<Rightarrow> found list \<times> string list"
  and walk_all :: "indexer \<Rightarrow> string \<Rightarrow> (string \<times> entry) list \<Rightarrow> string list \<Rightarrow> found list \<times> string list" where
  "walk ix prefix entries patterns0 =
     (let patterns = add_nested_patterns ix prefix entries patterns0;
          directories = directories_of entries;
          here = directory_warnings prefix directories @ found_files ix patterns prefix (files_of entries);
          (below, patterns') = walk_all ix prefix (safe_directories ix patterns prefix directories) patterns in
      (here @ below, patterns'))"
| "walk_all ix prefix [] patterns = ([], patterns)"
| "walk_all ix prefix ((name, e) # rest) patterns =
     (let (first, patterns1) = (case e of
            Directory es \<Rightarrow> walk ix (relative_to_root prefix name) es patterns
          | _ \<Rightarrow> ([], patterns));
          (others, patterns2) = walk_all ix prefix rest patterns1 in
      (first @ others, patterns2))"
  by pat_completeness auto

termination
proof (relation "measure (\<lambda>x. case x of Inl (ix, p, es, ps) \<Rightarrow> 2 * entries_size es + 1
    | Inr (ix, p, es, ps) \<Rightarrow> 2 * entries_size es)", goal_cases)
  case (2 ix prefix entries patterns0 patterns directories here)
  have "entries_size (safe_directories ix patterns prefix directories) \<le> entries_size entries"
    using entries_size_safe entries_size_directories[of entries] 2(2) le_trans by blast
  then show ?case by simp
next
  case (4 ix prefix name e rest patterns x first patterns1)
  then show ?case using entry_size_positive[of e] by simp
qed auto

definition walk_root :: "indexer \<Rightarrow> (string \<times> entry) list \<Rightarrow> found list" where
  "walk_root ix entries = fst (walk ix [] entries (load_ignore_patterns ix entries))"

section \<open>One file\<close>

definition LANGUAGES :: "(string \<times> string) list" where
  "LANGUAGES = [(''.py'', ''python''), (''.pyi'', ''python''), (''.js'', ''javascript''), (''.jsx'', ''javascript''),
     (''.ts'', ''typescript''), (''.tsx'', ''typescript''), (''.go'', ''go''), (''.rs'', ''rust''), (''.java'', ''java''),
     (''.kt'', ''kotlin''), (''.c'', ''c''), (''.h'', ''c''), (''.cpp'', ''cpp''), (''.hpp'', ''cpp''), (''.rb'', ''ruby''),
     (''.sh'', ''shell''), (''.sql'', ''sql''), (''.md'', ''markdown''), (''.rst'', ''rst''), (''.txt'', ''text''),
     (''.json'', ''json''), (''.yaml'', ''yaml''), (''.yml'', ''yaml''), (''.toml'', ''toml''), (''.xml'', ''xml''),
     (''.html'', ''html''), (''.htm'', ''html''), (''.css'', ''css''), (''.ini'', ''ini''), (''.cfg'', ''ini'')]"

definition CONFIG_NAMES :: "string set" where
  "CONFIG_NAMES = {''Dockerfile'', ''Makefile'', ''Procfile'', ''.gitignore'', ''.dockerignore'', ''.env.example''}"

text \<open>\<open>Path.name\<close> and \<open>Path.suffix\<close>, the part from the last dot unless that is the first or last character.\<close>

definition path_name :: "string \<Rightarrow> string" where
  "path_name path = after_last (CHR ''/'') path"

definition path_suffix :: "string \<Rightarrow> string" where
  "path_suffix path = (let name = path_name path; tail = after_last (CHR ''.'') name in
     if length tail < length name - 1 \<and> tail \<noteq> [] then CHR ''.'' # tail else [])"

definition detect_type :: "indexer \<Rightarrow> string \<Rightarrow> string option \<times> string" where
  "detect_type ix path =
     (let suffix = py_lower (path_suffix path);
          language = (case map_of LANGUAGES suffix of Some l \<Rightarrow> Some l
            | None \<Rightarrow> if path_name path \<in> CONFIG_NAMES then Some ''configuration'' else None);
          media_type = (case ix_guess_type ix (path_name path) of
            None \<Rightarrow> ''text/plain'' | Some t \<Rightarrow> if t = [] then ''text/plain'' else t) in
      (language, if media_type = ''application/octet-stream'' \<and> language \<noteq> None then ''text/plain'' else media_type))"

definition printable_byte :: "char \<Rightarrow> bool" where
  "printable_byte b \<longleftrightarrow> b \<in> {CHR 0x09, CHR 0x0A, CHR 0x0D} \<or> (32 \<le> (of_char b :: nat) \<and> (of_char b :: nat) < 127)"

text \<open>\<open>printable / min(len(raw), 8_192) < 0.85\<close>, multiplied out.\<close>

definition decode_bytes :: "indexer \<Rightarrow> string \<Rightarrow> string option" where
  "decode_bytes ix raw =
     (if CHR 0x00 \<in> set (take 8192 raw) then None
      else (case ix_decode_sig ix raw of
        Some text \<Rightarrow> Some text
      | None \<Rightarrow>
          let printable = length (filter printable_byte (take 8192 raw)) in
          if raw \<noteq> [] \<and> 100 * printable < 85 * min (length raw) 8192 then None
          else Some (ix_decode_replace ix raw)))"

definition sha256_text :: "indexer \<Rightarrow> string \<Rightarrow> string" where
  "sha256_text ix text = ix_sha256 ix (utf8 text)"

definition stable_file_id :: "indexer \<Rightarrow> string \<Rightarrow> string" where
  "stable_file_id ix relative = ''file-'' @ take 24 (sha256_text ix relative)"

definition stable_chunk_id :: "indexer \<Rightarrow> string \<Rightarrow> string \<Rightarrow> int \<Rightarrow> int \<Rightarrow> string" where
  "stable_chunk_id ix snapshot_id relative start end = ''chunk-'' @ take 24 (sha256_text ix
     (snapshot_id @ '':'' @ relative @ '':'' @ show_int start @ '':'' @ show_int end))"

definition symbols_of :: "py_node list \<Rightarrow> symbol_range list" where
  "symbols_of = List.map_filter (\<lambda>n. case n of PyDef name start end \<Rightarrow> Some (name, start, end) | _ \<Rightarrow> None)"

definition imports_of :: "py_node list \<Rightarrow> string list" where
  "imports_of nodes = sort (remdups (concat (map (\<lambda>n. case n of
     PyImport names \<Rightarrow> names
   | PyImportFrom (Some (c # cs)) \<Rightarrow> [c # cs]
   | _ \<Rightarrow> []) nodes)))"

definition parsed_nodes :: "indexer \<Rightarrow> RepositoryFile \<Rightarrow> string \<Rightarrow> py_node list" where
  "parsed_nodes ix file text =
     (if rf_language file = Some ''python'' then (case ix_parse ix text of None \<Rightarrow> [] | Some nodes \<Rightarrow> nodes) else [])"

definition text_lines :: "string \<Rightarrow> string list" where
  "text_lines text = (case py_splitlines text of [] \<Rightarrow> [''''] | lines \<Rightarrow> lines)"

text \<open>\<open>lines[start - 1 : end]\<close> for the ranges that occur, whose start is positive.\<close>

definition line_slice :: "int \<Rightarrow> int \<Rightarrow> string list \<Rightarrow> string list" where
  "line_slice start end lines = drop (nat (start - 1)) (take (nat end) lines)"

definition make_chunk ::
  "indexer \<Rightarrow> RepositoryFile \<Rightarrow> string list \<Rightarrow> string \<Rightarrow> string list \<Rightarrow> symbol_range \<Rightarrow> exn + RepositoryChunk" where
  "make_chunk ix file lines snapshot_id imports r = (case r of (symbol, start, end) \<Rightarrow>
     let content = join_with newline (line_slice start end lines) in
     checked valid_RepositoryChunk
       \<lparr>rc_chunk_id = stable_chunk_id ix snapshot_id (rf_relative_path file) start end,
        rc_file_id = rf_file_id file, rc_snapshot_id = snapshot_id, rc_relative_path = rf_relative_path file,
        rc_content = content, rc_content_hash = sha256_text ix content, rc_start_line = start, rc_end_line = end,
        rc_symbol_name = (if symbol = [] then None else Some symbol), rc_language = rf_language file,
        rc_imports = imports\<rparr>)"

definition chunks_for ::
  "indexer \<Rightarrow> RepositoryFile \<Rightarrow> string \<Rightarrow> string \<Rightarrow> exn + RepositoryChunk list \<times> string list \<times> string list" where
  "chunks_for ix file text snapshot_id =
     (let lines = text_lines text; nodes = parsed_nodes ix file text;
          symbols = symbols_of nodes; imports = imports_of nodes;
          ranges = line_ranges (ix_chunk_lines ix) (int (length lines)) symbols in
      case traverse (make_chunk ix file lines snapshot_id imports) ranges of
        Inl e \<Rightarrow> Inl e
      | Inr chunks \<Rightarrow> Inr (chunks, map fst symbols, imports))"

definition strip_chars :: "char set \<Rightarrow> string \<Rightarrow> string" where
  "strip_chars cs s = rev (dropWhile (\<lambda>c. c \<in> cs) (rev (dropWhile (\<lambda>c. c \<in> cs) s)))"

definition summarize :: "string \<Rightarrow> string option \<Rightarrow> string \<Rightarrow> string list \<Rightarrow> string list \<Rightarrow> string" where
  "summarize relative language text symbols imports =
     (let first_content = (case find (\<lambda>line. py_strip line \<noteq> []) (py_splitlines text) of
            None \<Rightarrow> '''' | Some line \<Rightarrow> strip_chars {CHR ''#'', CHR '' '', CHR ''*'', CHR ''/'', CHR 0x09} line) in
      join_with '' ''
        ([relative @ '' is '' @ (case language of Some (c # cs) \<Rightarrow> c # cs | _ \<Rightarrow> ''text'') @ '' ('' @
            show_nat (length (py_splitlines text)) @ '' lines).''] @
         (if first_content = [] then [] else [''Opening content: '' @ take 160 first_content @ ''.'']) @
         (if symbols = [] then [] else [''Defines: '' @ join_with '', '' (take 20 symbols) @ ''.'']) @
         (if imports = [] then [] else [''Imports: '' @ join_with '', '' (take 20 imports) @ ''.''])))"

section \<open>The index\<close>

definition repository_map :: "RepositoryFile list \<Rightarrow> FileSummary list \<Rightarrow> string" where
  "repository_map files summaries =
     (let by_path = py_dict (map (\<lambda>s. (fs_relative_path s, s)) summaries) in
      join_with newline (''# Repository map'' # concat (map (\<lambda>file.
        let marker = (if rf_is_deleted file then ''deleted''
              else (case rf_language file of Some (c # cs) \<Rightarrow> c # cs | _ \<Rightarrow> rf_media_type file)) in
        (''- `'' @ rf_relative_path file @ ''` ('' @ marker @ '', '' @ show_int (rf_size_bytes file) @ '' bytes)'') #
        (case map_of by_path (rf_relative_path file) of
           Some summary \<Rightarrow> if fs_symbols summary = [] then []
             else [''  - symbols: '' @ join_with '', '' (fs_symbols summary)]
         | None \<Rightarrow> [])) files)) @ newline)"

record index_state =
  xs_files :: "RepositoryFile list"
  xs_chunks :: "RepositoryChunk list"
  xs_summaries :: "FileSummary list"
  xs_dependencies :: "(string \<times> string list) list"
  xs_warnings :: "string list"
  xs_total_bytes :: int

definition add_warning :: "string \<Rightarrow> index_state \<Rightarrow> index_state" where
  "add_warning w st = st\<lparr>xs_warnings := xs_warnings st @ [w]\<rparr>"

definition change_kind :: "RepositoryFile option \<Rightarrow> string \<Rightarrow> FileChangeKind" where
  "change_kind prior content_hash = (case prior of
     None \<Rightarrow> FC_NEW
   | Some p \<Rightarrow> if rf_content_hash p = content_hash then FC_UNCHANGED else FC_MODIFIED)"

definition index_file ::
  "indexer \<Rightarrow> (string \<times> RepositoryFile) list \<Rightarrow> string \<Rightarrow> index_state \<Rightarrow> string \<Rightarrow> int \<Rightarrow> string \<Rightarrow> string \<Rightarrow> index_state io" where
  "index_file ix previous snapshot_id st relative n raw text =
     (let content_hash = ix_sha256 ix raw; (language, media_type) = detect_type ix relative in
      bnd clock_now (\<lambda>indexed_at.
      bnd (lift_sum (checked valid_RepositoryFile
        \<lparr>rf_file_id = stable_file_id ix relative, rf_snapshot_id = snapshot_id, rf_relative_path = relative,
         rf_content_hash = content_hash, rf_size_bytes = n, rf_media_type = media_type, rf_language = language,
         rf_change_kind = change_kind (map_of previous relative) content_hash, rf_is_deleted = False,
         rf_indexed_at = indexed_at\<rparr>)) (\<lambda>file.
      bnd (lift_sum (chunks_for ix file text snapshot_id)) (\<lambda>(chunks, symbols, imports).
      bnd (ids_new ''reposum'') (\<lambda>summary_id.
      bnd clock_now (\<lambda>created_at.
      bnd (lift_sum (checked valid_FileSummary
        \<lparr>fs_summary_id = summary_id, fs_snapshot_id = snapshot_id, fs_relative_path = relative,
         fs_source_hash = content_hash, fs_text = summarize relative language text symbols imports,
         fs_symbols = symbols, fs_imports = imports, fs_valid = True, fs_created_at = created_at\<rparr>)) (\<lambda>summary.
      let st' = st\<lparr>xs_files := xs_files st @ [file], xs_chunks := xs_chunks st @ chunks,
            xs_summaries := xs_summaries st @ [summary],
            xs_dependencies := xs_dependencies st @ [(relative, imports)]\<rparr> in
      ret (if ix_indicators ix text = 0 then st'
           else add_warning (''prompt-injection indicators in untrusted file: '' @ relative @ '' ('' @
             show_nat (ix_indicators ix text) @ '')'') st'))))))))"

text \<open>The body of the loop over the walk.\<close>

definition index_found ::
  "indexer \<Rightarrow> (string \<times> RepositoryFile) list \<Rightarrow> string \<Rightarrow> index_state \<Rightarrow> found \<Rightarrow> index_state io" where
  "index_found ix previous snapshot_id st f = (case f of
     Warned w \<Rightarrow> ret (add_warning w st)
   | Found relative n raw \<Rightarrow>
       if ix_maximum_file_bytes ix < n
       then ret (add_warning (''skipped oversized file: '' @ relative @ '' ('' @ show_int n @ '' bytes)'') st)
       else let st1 = st\<lparr>xs_total_bytes := xs_total_bytes st + n\<rparr> in
         if ix_maximum_repository_bytes ix < xs_total_bytes st1 then raise (Durable DomainValidationError)
         else if int (length raw) \<noteq> n then raise (Durable SecurityPolicyError)
         else (case decode_bytes ix raw of
           None \<Rightarrow> ret (add_warning (''skipped unsupported binary file: '' @ relative) st1)
         | Some text \<Rightarrow> index_file ix previous snapshot_id st1 relative n raw text))"

definition previous_files :: "RepositoryIndex option \<Rightarrow> (string \<times> RepositoryFile) list" where
  "previous_files previous = (case previous of None \<Rightarrow> []
     | Some p \<Rightarrow> py_dict (map (\<lambda>f. (rf_relative_path f, f))
         (filter (\<lambda>f. \<not> rf_is_deleted f) (rs_files (ri_snapshot p)))))"

definition tombstones :: "string \<Rightarrow> (string \<times> RepositoryFile) list \<Rightarrow> string set \<Rightarrow> RepositoryFile list" where
  "tombstones snapshot_id previous seen =
     map (\<lambda>(relative, prior). prior\<lparr>rf_snapshot_id := snapshot_id, rf_change_kind := FC_DELETED, rf_is_deleted := True\<rparr>)
       (filter (\<lambda>(relative, prior). relative \<notin> seen) (sort_key fst previous))"

definition manifest :: "RepositoryFile list \<Rightarrow> json" where
  "manifest files = JArr (map (\<lambda>f. JObj [(''path'', JStr (rf_relative_path f)),
     (''hash'', JStr (rf_content_hash f)), (''deleted'', JBool (rf_is_deleted f))]) files)"

definition finish_index :: "indexer \<Rightarrow> string \<Rightarrow> (string \<times> RepositoryFile) list \<Rightarrow> string \<Rightarrow> index_state \<Rightarrow> RepositoryIndex io" where
  "finish_index ix root_path previous snapshot_id st =
     (let files = sort_key rf_relative_path
            (xs_files st @ tombstones snapshot_id previous (rf_relative_path ` set (xs_files st))) in
      bnd clock_now (\<lambda>created_at.
      bnd (lift_sum (checked valid_RepositorySnapshot
        \<lparr>rs_snapshot_id = snapshot_id, rs_root = root_path,
         rs_manifest_hash = ix_sha256 ix (utf8 (canonical_json (manifest files))),
         rs_file_count = int (length (filter (\<lambda>f. \<not> rf_is_deleted f) files)), rs_total_bytes = xs_total_bytes st,
         rs_files = files, rs_created_at = created_at\<rparr>)) (\<lambda>snapshot.
      ret \<lparr>ri_snapshot = snapshot, ri_chunks = xs_chunks st, ri_summaries = xs_summaries st,
        ri_repository_map = repository_map files (xs_summaries st),
        ri_module_dependencies = xs_dependencies st, ri_warnings = xs_warnings st\<rparr>)))"

definition local_index ::
  "indexer \<Rightarrow> string \<Rightarrow> entry \<Rightarrow> RepositoryIndex option \<Rightarrow> string option \<Rightarrow> RepositoryIndex io" where
  "local_index ix root_path tree previous snapshot = (case tree of
     Directory entries \<Rightarrow>
       bnd (case snapshot of Some (c # cs) \<Rightarrow> ret (c # cs) | _ \<Rightarrow> ids_new ''snap'') (\<lambda>snapshot_id.
       if py_strip snapshot_id = [] \<or> 256 < length snapshot_id then raise (Durable DomainValidationError)
       else
         bnd (foldA (index_found ix (previous_files previous) snapshot_id)
           \<lparr>xs_files = [], xs_chunks = [], xs_summaries = [], xs_dependencies = [], xs_warnings = [],
            xs_total_bytes = 0\<rparr> (walk_root ix entries)) (\<lambda>st.
         finish_index ix root_path (previous_files previous) snapshot_id st))
   | _ \<Rightarrow> raise (Durable DomainValidationError))"

end
