(* ===== verification/Indexer_Safety.thy ===== *)
theory Indexer_Safety
  imports Repository_Indexer Calm_World
begin

text \<open>
  What \<open>repository/indexer.py\<close> guarantees: the snapshot describes regular files of the tree that are
  reached without a symbolic link, its tombstones are the files that went away, its limits hold, and
  the chunks of a file cover its lines.
\<close>

section \<open>The walk stays in the tree\<close>

fun wf_tree :: "entry \<Rightarrow> bool" where
  "wf_tree (Directory es) \<longleftrightarrow> distinct (map fst es) \<and> (\<forall>(name, e) \<in> set es. wf_tree e)"
| "wf_tree (Regular_File n raw) \<longleftrightarrow> 0 \<le> n"
| "wf_tree e \<longleftrightarrow> True"

text \<open>The entry at a path of names; a link is never followed.\<close>

fun locate :: "entry \<Rightarrow> string list \<Rightarrow> entry option" where
  "locate e [] = Some e"
| "locate (Directory es) (name # names) = (case map_of es name of None \<Rightarrow> None | Some e \<Rightarrow> locate e names)"
| "locate e (name # names) = None"

fun path_below :: "string \<Rightarrow> string list \<Rightarrow> string" where
  "path_below prefix [] = prefix"
| "path_below prefix (name # names) = path_below (relative_to_root prefix name) names"

definition lies_in :: "string \<Rightarrow> (string \<times> entry) list \<Rightarrow> found \<Rightarrow> bool" where
  "lies_in prefix es f = (case f of Warned w \<Rightarrow> True
     | Found relative n raw \<Rightarrow> \<exists>names. locate (Directory es) names = Some (Regular_File n raw) \<and>
         relative = path_below prefix names \<and> names \<noteq> [])"

lemma set_map_filter: "set (List.map_filter f xs) = {y. \<exists>x \<in> set xs. f x = Some y}"
  by (force simp: List.map_filter_def)

lemma map_filter_append: "List.map_filter f (xs @ ys) = List.map_filter f xs @ List.map_filter f ys"
  by (simp add: List.map_filter_def)

lemma list_all2_left: "list_all2 P xs ys \<Longrightarrow> x \<in> set xs \<Longrightarrow> \<exists>y \<in> set ys. P x y"
  by (induction rule: list_all2_induct) auto

lemma list_all2_right: "list_all2 P xs ys \<Longrightarrow> y \<in> set ys \<Longrightarrow> \<exists>x \<in> set xs. P x y"
  by (induction rule: list_all2_induct) auto

lemma found_files_in:
  assumes "distinct (map fst es)" and "set files \<subseteq> set es" and "f \<in> set (found_files ix ps prefix files)"
  shows "lies_in prefix es f"
proof (cases f)
  case (Found relative n raw)
  then obtain name where "(name, Regular_File n raw) \<in> set files" "relative = relative_to_root prefix name"
    using assms(3) by (auto simp: found_files_def set_map_filter Let_def split: if_splits entry.splits)
  then have "locate (Directory es) [name] = Some (Regular_File n raw)" "relative = path_below prefix [name]"
    using assms(1,2) by auto
  then show ?thesis unfolding lies_in_def Found by (auto intro!: exI[of _ "[name]"] simp del: locate.simps)
qed (simp add: lies_in_def)

lemma lies_in_below:
  assumes "distinct (map fst es)" and "(name, Directory sub) \<in> set es"
    and "lies_in (relative_to_root prefix name) sub f"
  shows "lies_in prefix es f"
proof (cases f)
  case (Found relative n raw)
  then obtain names where "locate (Directory sub) names = Some (Regular_File n raw)"
    "relative = path_below (relative_to_root prefix name) names" "names \<noteq> []"
    using assms(3) by (auto simp: lies_in_def)
  then have "locate (Directory es) (name # names) = Some (Regular_File n raw)"
    "relative = path_below prefix (name # names)" using assms(1,2) by auto
  then show ?thesis unfolding lies_in_def Found by (auto intro!: exI[of _ "name # names"] simp del: locate.simps)
qed (simp add: lies_in_def)

lemma walk_in_tree:
  "wf_tree (Directory entries) \<Longrightarrow> f \<in> set (fst (walk ix prefix entries patterns)) \<Longrightarrow> lies_in prefix entries f"
  "\<forall>(name, e) \<in> set es. wf_tree e \<Longrightarrow> f \<in> set (fst (walk_all ix prefix es patterns)) \<Longrightarrow>
     \<exists>name sub. (name, Directory sub) \<in> set es \<and> lies_in (relative_to_root prefix name) sub f"
proof (induction ix prefix entries patterns and ix prefix es patterns arbitrary: f and f rule: walk_walk_all.induct)
  case (1 ix prefix entries patterns0)
  let ?ps = "add_nested_patterns ix prefix entries patterns0"
  let ?ds = "directories_of entries"
  let ?safe = "safe_directories ix ?ps prefix ?ds"
  obtain below ps' where below: "walk_all ix prefix ?safe ?ps = (below, ps')" by force
  have sub: "set ?safe \<subseteq> set entries" by (auto simp: safe_directories_def directories_of_def)
  consider "f \<in> set (directory_warnings prefix ?ds)" | "f \<in> set (found_files ix ?ps prefix (files_of entries))"
    | "f \<in> set below"
    using 1(3) below by (auto simp: Let_def)
  then show ?case
  proof cases
    case 1
    then show ?thesis by (auto simp: directory_warnings_def set_map_filter lies_in_def split: entry.splits)
  next
    case 2
    then show ?thesis
      using \<open>wf_tree (Directory entries)\<close> by (intro found_files_in[of entries "files_of entries"]) (auto simp: files_of_def)
  next
    case 3
    have "\<forall>(name, e) \<in> set ?safe. wf_tree e" using sub \<open>wf_tree (Directory entries)\<close> by auto
    moreover have "f \<in> set (fst (walk_all ix prefix ?safe ?ps))" using 3 below by simp
    ultimately obtain name es where "(name, Directory es) \<in> set ?safe" "lies_in (relative_to_root prefix name) es f"
      using "1.IH"[OF refl refl refl] by blast
    then show ?thesis using sub \<open>wf_tree (Directory entries)\<close> by (intro lies_in_below[of entries name es]) auto
  qed
next
  case (2 ix prefix patterns)
  then show ?case by simp
next
  case (3 ix prefix name e rest patterns)
  obtain first ps1 where first: "(case e of Directory es \<Rightarrow> walk ix (relative_to_root prefix name) es patterns
      | _ \<Rightarrow> ([], patterns)) = (first, ps1)" by force
  obtain others ps2 where others: "walk_all ix prefix rest ps1 = (others, ps2)" by force
  have "f \<in> set first \<or> f \<in> set others" using 3(4) first others by simp
  then show ?case
  proof
    assume f: "f \<in> set first"
    then obtain es where e: "e = Directory es" using first by (cases e) auto
    then have "lies_in (relative_to_root prefix name) es f" using 3 first f by auto
    then show ?thesis using e by auto
  next
    assume "f \<in> set others"
    then show ?thesis using "3.IH"(2)[OF first[symmetric] refl] 3(3) others by fastforce
  qed
qed

lemma walk_root_in_tree:
  assumes "wf_tree (Directory entries)" and "Found relative n raw \<in> set (walk_root ix entries)"
  shows "\<exists>names. locate (Directory entries) names = Some (Regular_File n raw) \<and> relative = path_below [] names"
  using walk_in_tree(1)[OF assms(1) assms(2)[unfolded walk_root_def]] by (auto simp: lies_in_def)

section \<open>The chunks of a file\<close>

definition shows_line :: "string list \<Rightarrow> int \<Rightarrow> RepositoryChunk \<Rightarrow> bool" where
  "shows_line lines l c \<longleftrightarrow> rc_start_line c \<le> l \<and> l \<le> rc_end_line c \<and>
     rc_content c = join_with newline (line_slice (rc_start_line c) (rc_end_line c) lines)"

lemma make_chunk_InrD:
  assumes "make_chunk ix file lines sid imports (s, a, b) = Inr c"
  shows "rc_start_line c = a \<and> rc_end_line c = b \<and> 1 \<le> a \<and> a \<le> b \<and>
    rc_content c = join_with newline (line_slice a b lines) \<and> rc_content_hash c = sha256_text ix (rc_content c) \<and>
    rc_symbol_name c = (if s = [] then None else Some s) \<and> rc_relative_path c = rf_relative_path file \<and>
    rc_snapshot_id c = sid"
  using assms by (auto simp: make_chunk_def Let_def valid_RepositoryChunk_def valid_lines_def)

lemma chunks_for_InrD:
  assumes "chunks_for ix file text sid = Inr (chunks, symbols, imports)"
  shows "list_all2 (\<lambda>r c. make_chunk ix file (text_lines text) sid imports r = Inr c)
    (line_ranges (ix_chunk_lines ix) (int (length (text_lines text))) (symbols_of (parsed_nodes ix file text))) chunks"
  using assms traverse_InrD by (fastforce simp: chunks_for_def Let_def split: sum.splits)

lemma chunk_of_range:
  assumes "chunks_for ix file text sid = Inr (chunks, symbols, imports)"
    and "r \<in> set (line_ranges (ix_chunk_lines ix) (int (length (text_lines text))) (symbols_of (parsed_nodes ix file text)))"
  shows "\<exists>c \<in> set chunks. make_chunk ix file (text_lines text) sid imports r = Inr c"
  using list_all2_left[OF chunks_for_InrD[OF assms(1)] assms(2)] .

lemma range_of_chunk:
  assumes "chunks_for ix file text sid = Inr (chunks, symbols, imports)" and "c \<in> set chunks"
  shows "\<exists>r \<in> set (line_ranges (ix_chunk_lines ix) (int (length (text_lines text))) (symbols_of (parsed_nodes ix file text))).
    make_chunk ix file (text_lines text) sid imports r = Inr c"
  using list_all2_right[OF chunks_for_InrD[OF assms(1)] assms(2)] .

lemma chunks_cover:
  assumes "new_indexer ix = Inr ix" and "chunks_for ix file text sid = Inr (chunks, symbols, imports)"
    and "1 \<le> l" and "l \<le> int (length (text_lines text))"
  shows "\<exists>c \<in> set chunks. shows_line (text_lines text) l c"
proof -
  have "0 < ix_chunk_lines ix" using assms(1) by (auto simp: new_indexer_def split: if_splits)
  from line_ranges_cover[OF this assms(3,4), of "symbols_of (parsed_nodes ix file text)"]
  obtain s a b where r: "(s, a, b) \<in> set (line_ranges (ix_chunk_lines ix) (int (length (text_lines text)))
      (symbols_of (parsed_nodes ix file text)))" "a \<le> l" "l \<le> b" by auto
  obtain c where "c \<in> set chunks" "make_chunk ix file (text_lines text) sid imports (s, a, b) = Inr c"
    using chunk_of_range[OF assms(2) r(1)] by blast
  then show ?thesis using make_chunk_InrD r(2,3) unfolding shows_line_def by blast
qed

lemma chunk_bounds:
  assumes "new_indexer ix = Inr ix" and "chunks_for ix file text sid = Inr (chunks, symbols, imports)"
    and "c \<in> set chunks" and "rc_symbol_name c = None"
  shows "1 \<le> rc_start_line c \<and> rc_start_line c \<le> rc_end_line c \<and>
    (rc_end_line c \<le> int (length (text_lines text)) \<and> rc_end_line c - rc_start_line c + 1 \<le> ix_chunk_lines ix \<or>
     ('''', rc_start_line c, rc_end_line c) \<in> set (symbols_of (parsed_nodes ix file text)))"
proof -
  have lim: "0 < ix_chunk_lines ix" using assms(1) by (auto simp: new_indexer_def split: if_splits)
  obtain s a b where r: "(s, a, b) \<in> set (line_ranges (ix_chunk_lines ix) (int (length (text_lines text)))
      (symbols_of (parsed_nodes ix file text)))" "make_chunk ix file (text_lines text) sid imports (s, a, b) = Inr c"
    using range_of_chunk[OF assms(2,3)] by auto
  note c = make_chunk_InrD[OF r(2)]
  then have "s = []" using assms(4) by (auto split: if_splits)
  then show ?thesis using line_ranges_short[OF lim _ r(1)] c by auto
qed

text \<open>
  C17. Chunking loses no line: whatever symbols the parser reports, every line of an indexed text is in
  a chunk that shows it, each chunk's content is exactly the lines it names, its digest is that of the
  content, and a chunk that is not a symbol is at most \<open>chunk_lines\<close> long and inside the file.
\<close>

theorem chunks_cover_lines:
  assumes "new_indexer ix = Inr ix" and "chunks_for ix file text sid = Inr (chunks, symbols, imports)"
    and "'''' \<notin> fst ` set (symbols_of (parsed_nodes ix file text))"
  shows "(\<forall>l. 1 \<le> l \<and> l \<le> int (length (text_lines text)) \<longrightarrow>
      (\<exists>c \<in> set chunks. shows_line (text_lines text) l c)) \<and>
    (\<forall>c \<in> set chunks. rc_content c = join_with newline (line_slice (rc_start_line c) (rc_end_line c) (text_lines text)) \<and>
      rc_content_hash c = sha256_text ix (rc_content c) \<and>
      (rc_symbol_name c = None \<longrightarrow> 1 \<le> rc_start_line c \<and> rc_end_line c \<le> int (length (text_lines text)) \<and>
        rc_end_line c - rc_start_line c + 1 \<le> ix_chunk_lines ix))"
proof (intro conjI ballI allI impI)
  show "\<exists>c \<in> set chunks. shows_line (text_lines text) l c" if "1 \<le> l \<and> l \<le> int (length (text_lines text))" for l
    using chunks_cover[OF assms(1,2)] that by blast
next
  fix c assume c: "c \<in> set chunks"
  then obtain r where "make_chunk ix file (text_lines text) sid imports r = Inr c"
    using range_of_chunk[OF assms(2)] by blast
  then show "rc_content c = join_with newline (line_slice (rc_start_line c) (rc_end_line c) (text_lines text))"
    and "rc_content_hash c = sha256_text ix (rc_content c)"
    using make_chunk_InrD by (cases r, blast)+
  assume "rc_symbol_name c = None"
  from chunk_bounds[OF assms(1,2) c this] assms(3)
  show "1 \<le> rc_start_line c" and "rc_end_line c \<le> int (length (text_lines text))"
    and "rc_end_line c - rc_start_line c + 1 \<le> ix_chunk_lines ix" by force+
qed

section \<open>The snapshot\<close>

text \<open>What the loop has made of the files it was given.\<close>

definition entered :: "indexer \<Rightarrow> (string \<times> RepositoryFile) list \<Rightarrow> string \<Rightarrow> string \<Rightarrow> int \<Rightarrow> string \<Rightarrow> string \<Rightarrow>
    RepositoryFile \<Rightarrow> bool" where
  "entered ix previous sid relative n raw text f \<longleftrightarrow>
     rf_relative_path f = relative \<and> rf_size_bytes f = n \<and> rf_snapshot_id f = sid \<and> \<not> rf_is_deleted f \<and>
     rf_content_hash f = ix_sha256 ix raw \<and> rf_change_kind f = change_kind (map_of previous relative) (ix_sha256 ix raw) \<and>
     n \<le> ix_maximum_file_bytes ix \<and> int (length raw) = n \<and> decode_bytes ix raw = Some text"

definition counted_bytes :: "indexer \<Rightarrow> found \<Rightarrow> int" where
  "counted_bytes ix f = (case f of
     Found relative n raw \<Rightarrow> if n \<le> ix_maximum_file_bytes ix then n else 0 | Warned w \<Rightarrow> 0)"

definition to_be_entered :: "indexer \<Rightarrow> found \<Rightarrow> bool" where
  "to_be_entered ix f \<longleftrightarrow> (case f of
     Found relative n raw \<Rightarrow> n \<le> ix_maximum_file_bytes ix \<and> decode_bytes ix raw \<noteq> None | Warned w \<Rightarrow> False)"

definition file_entered :: "indexer \<Rightarrow> (string \<times> RepositoryFile) list \<Rightarrow> string \<Rightarrow> found list \<Rightarrow> index_state \<Rightarrow>
    RepositoryFile \<Rightarrow> bool" where
  "file_entered ix previous sid fs st f \<longleftrightarrow> (\<exists>n raw text chunks symbols imps.
     Found (rf_relative_path f) n raw \<in> set fs \<and> entered ix previous sid (rf_relative_path f) n raw text f \<and>
     chunks_for ix f text sid = Inr (chunks, symbols, imps) \<and> set chunks \<subseteq> set (xs_chunks st))"

definition indexed_so_far :: "indexer \<Rightarrow> (string \<times> RepositoryFile) list \<Rightarrow> string \<Rightarrow> found list \<Rightarrow> index_state \<Rightarrow> bool" where
  "indexed_so_far ix previous sid fs st \<longleftrightarrow>
     (\<forall>f \<in> set (xs_files st). file_entered ix previous sid fs st f) \<and>
     (\<forall>f \<in> set fs. to_be_entered ix f \<longrightarrow> (\<forall>relative n raw. f = Found relative n raw \<longrightarrow>
        relative \<in> rf_relative_path ` set (xs_files st))) \<and>
     xs_total_bytes st = sum_list (map (counted_bytes ix) fs) \<and>
     xs_total_bytes st \<le> ix_maximum_repository_bytes ix"

lemma file_entered_mono:
  "file_entered ix previous sid fs st f \<Longrightarrow> set fs \<subseteq> set fs' \<Longrightarrow> set (xs_chunks st) \<subseteq> set (xs_chunks st') \<Longrightarrow>
   file_entered ix previous sid fs' st' f"
  unfolding file_entered_def by blast

lemma indexed_skip:
  assumes "indexed_so_far ix previous sid fs st" and "\<not> to_be_entered ix f"
    and "xs_files st' = xs_files st" and "xs_chunks st' = xs_chunks st"
    and "xs_total_bytes st' = xs_total_bytes st + counted_bytes ix f"
    and "xs_total_bytes st' \<le> ix_maximum_repository_bytes ix"
  shows "indexed_so_far ix previous sid (fs @ [f]) st'"
  using assms file_entered_mono[of ix previous sid fs st _ "fs @ [f]" st']
  unfolding indexed_so_far_def by (auto simp: subset_iff)

lemma indexed_add:
  assumes "indexed_so_far ix previous sid fs st" and "f = Found relative n raw"
    and "entered ix previous sid relative n raw body f0" and "chunks_for ix f0 body sid = Inr (chunks, symbols, imps)"
    and "xs_files st' = xs_files st @ [f0]" and "xs_chunks st' = xs_chunks st @ chunks"
    and "xs_total_bytes st' = xs_total_bytes st + n" and "xs_total_bytes st' \<le> ix_maximum_repository_bytes ix"
  shows "indexed_so_far ix previous sid (fs @ [f]) st'"
proof -
  have path: "rf_relative_path f0 = relative" and n: "n \<le> ix_maximum_file_bytes ix"
    using assms(3) by (simp_all add: entered_def)
  have "file_entered ix previous sid (fs @ [f]) st' f0"
    unfolding file_entered_def using assms(2-6) path by (intro exI[of _ n] exI[of _ raw] exI[of _ body]) auto
  moreover have "file_entered ix previous sid (fs @ [f]) st' g" if "g \<in> set (xs_files st)" for g
    using assms(1,6) that file_entered_mono[of ix previous sid fs st g "fs @ [f]" st']
    by (auto simp: indexed_so_far_def)
  ultimately show ?thesis
    using assms(1,5,7,8) path n unfolding indexed_so_far_def assms(2) by (auto simp: counted_bytes_def)
qed

lemma index_file_InrD:
  assumes "index_file ix previous sid st relative n raw body w = (Inr st', w')"
    and "n \<le> ix_maximum_file_bytes ix" and "int (length raw) = n" and "decode_bytes ix raw = Some body"
  shows "\<exists>f chunks symbols imps. entered ix previous sid relative n raw body f \<and>
    chunks_for ix f body sid = Inr (chunks, symbols, imps) \<and> xs_files st' = xs_files st @ [f] \<and>
    xs_chunks st' = xs_chunks st @ chunks \<and> xs_total_bytes st' = xs_total_bytes st"
proof -
  obtain language media_type where type: "detect_type ix relative = (language, media_type)" by force
  let ?f = "\<lparr>rf_file_id = stable_file_id ix relative, rf_snapshot_id = sid, rf_relative_path = relative,
    rf_content_hash = ix_sha256 ix raw, rf_size_bytes = n, rf_media_type = media_type, rf_language = language,
    rf_change_kind = change_kind (map_of previous relative) (ix_sha256 ix raw), rf_is_deleted = False,
    rf_indexed_at = w_clock w (w_reads w)\<rparr>"
  obtain chunks symbols imps where c: "chunks_for ix ?f body sid = Inr (chunks, symbols, imps)"
    using assms(1) by (auto simp: index_file_def type bnd_def clock_now_def lift_sum_def Let_def split: sum.splits)
  have "xs_files st' = xs_files st @ [?f] \<and> xs_chunks st' = xs_chunks st @ chunks \<and> xs_total_bytes st' = xs_total_bytes st"
    using assms(1) c
    by (auto simp: index_file_def type bnd_def clock_now_def lift_sum_def ids_new_def ret_def Let_def add_warning_def
        split: sum.splits prod.splits if_splits)
  moreover have "entered ix previous sid relative n raw body ?f" using assms(2-4) by (simp add: entered_def)
  ultimately show ?thesis using c by blast
qed

lemma index_found_step:
  assumes "indexed_so_far ix previous sid fs st" and "index_found ix previous sid st f w = (Inr st', w')"
  shows "indexed_so_far ix previous sid (fs @ [f]) st'"
proof (cases f)
  case (Warned m)
  then show ?thesis
    using assms by (intro indexed_skip[OF assms(1)])
      (auto simp: index_found_def ret_def add_warning_def to_be_entered_def counted_bytes_def indexed_so_far_def)
next
  case (Found relative n raw)
  consider (big) "ix_maximum_file_bytes ix < n" | (binary) "n \<le> ix_maximum_file_bytes ix" "decode_bytes ix raw = None"
    | (body) body where "n \<le> ix_maximum_file_bytes ix" "decode_bytes ix raw = Some body" by fastforce
  then show ?thesis
  proof cases
    case big
    then show ?thesis
      using assms Found by (intro indexed_skip[OF assms(1)])
        (auto simp: index_found_def ret_def add_warning_def to_be_entered_def counted_bytes_def indexed_so_far_def)
  next
    case binary
    then show ?thesis
      using assms Found by (intro indexed_skip[OF assms(1)])
        (auto simp: index_found_def ret_def raise_def add_warning_def to_be_entered_def counted_bytes_def Let_def
          split: if_splits)
  next
    case body
    let ?st = "st\<lparr>xs_total_bytes := xs_total_bytes st + n\<rparr>"
    have run: "index_file ix previous sid ?st relative n raw body w = (Inr st', w')"
      "xs_total_bytes st + n \<le> ix_maximum_repository_bytes ix" "int (length raw) = n"
      using assms(2) body by (auto simp: Found index_found_def raise_def Let_def split: if_splits)
    obtain f0 chunks symbols imps where f0: "entered ix previous sid relative n raw body f0"
      "chunks_for ix f0 body sid = Inr (chunks, symbols, imps)" "xs_files st' = xs_files st @ [f0]"
      "xs_chunks st' = xs_chunks st @ chunks" "xs_total_bytes st' = xs_total_bytes st + n"
      using index_file_InrD[OF run(1) body(1) run(3) body(2)] by auto
    then show ?thesis using run(2) by (intro indexed_add[OF assms(1) Found f0(1)]) auto
  qed
qed

lemma index_loop:
  assumes "indexed_so_far ix previous sid gone st"
    and "foldA (index_found ix previous sid) st fs w = (Inr st', w')"
  shows "indexed_so_far ix previous sid (gone @ fs) st'"
  using assms
proof (induction fs arbitrary: gone st w)
  case (Cons f fs)
  obtain st1 w1 where "index_found ix previous sid st f w = (Inr st1, w1)"
    "foldA (index_found ix previous sid) st1 fs w1 = (Inr st', w')"
    using Cons.prems(2) by (auto simp: bnd_def split: prod.splits sum.splits)
  then show ?case using Cons.IH[OF index_found_step[OF Cons.prems(1)]] by fastforce
qed (simp add: ret_def)

lemma previous_files_path: "(relative, f) \<in> set (previous_files previous) \<Longrightarrow> rf_relative_path f = relative"
  by (auto simp: previous_files_def dest!: py_dict_in split: option.splits)

lemma tombstone_deleted:
  "f \<in> set (tombstones sid (previous_files previous) seen) \<Longrightarrow> rf_is_deleted f \<and> rf_change_kind f = FC_DELETED"
  by (auto simp: tombstones_def)

lemma tombstone_paths:
  "rf_relative_path ` set (tombstones sid (previous_files previous) seen) = fst ` set (previous_files previous) - seen"
proof -
  have "rf_relative_path ` set (tombstones sid (previous_files previous) seen) =
      (\<lambda>x. rf_relative_path (snd x)) ` {x \<in> set (previous_files previous). fst x \<notin> seen}"
    by (simp add: tombstones_def image_image case_prod_beta)
  also have "\<dots> = fst ` {x \<in> set (previous_files previous). fst x \<notin> seen}"
    by (intro image_cong) (auto dest: previous_files_path)
  finally show ?thesis by auto
qed

lemma local_index_InrD:
  assumes "new_indexer ix = Inr ix"
    and "local_index ix root_path (Directory entries) previous snapshot w = (Inr idx, w')"
  shows "\<exists>sid st. indexed_so_far ix (previous_files previous) sid (walk_root ix entries) st \<and>
    rs_files (ri_snapshot idx) = sort_key rf_relative_path (xs_files st @
      tombstones sid (previous_files previous) (rf_relative_path ` set (xs_files st))) \<and>
    rs_total_bytes (ri_snapshot idx) = xs_total_bytes st \<and> ri_chunks idx = xs_chunks st \<and>
    rs_file_count (ri_snapshot idx) = int (length (filter (\<lambda>f. \<not> rf_is_deleted f) (rs_files (ri_snapshot idx))))"
proof -
  let ?st0 = "\<lparr>xs_files = [], xs_chunks = [], xs_summaries = [], xs_dependencies = [], xs_warnings = [],
      xs_total_bytes = 0\<rparr>"
  have start: "indexed_so_far ix (previous_files previous) sid [] ?st0" for sid
    using assms(1) by (auto simp: indexed_so_far_def new_indexer_def split: if_splits)
  obtain sid w1 st w2 where loop: "foldA (index_found ix (previous_files previous) sid) ?st0 (walk_root ix entries) w1 = (Inr st, w2)"
    and fin: "finish_index ix root_path (previous_files previous) sid st w2 = (Inr idx, w')"
    using assms(2) by (auto simp: local_index_def bnd_def raise_def split: prod.splits sum.splits if_splits)
  have "indexed_so_far ix (previous_files previous) sid (walk_root ix entries) st"
    using index_loop[OF start loop] by simp
  then show ?thesis
    using fin by (auto simp: finish_index_def bnd_def clock_now_def lift_sum_def ret_def Let_def
        split: sum.splits intro!: exI[of _ sid] exI[of _ st])
qed

lemma entered_chunk_paths:
  assumes "chunks_for ix f body sid = Inr (chunks, symbols, imps)" and "c \<in> set chunks"
  shows "rc_relative_path c = rf_relative_path f"
  using range_of_chunk[OF assms] make_chunk_InrD by (metis prod_cases3)

definition describes :: "indexer \<Rightarrow> entry \<Rightarrow> (string \<times> RepositoryFile) list \<Rightarrow> RepositoryChunk list \<Rightarrow> RepositoryFile \<Rightarrow> bool" where
  "describes ix tree previous chunks f \<longleftrightarrow> (\<exists>names raw body.
     locate tree names = Some (Regular_File (rf_size_bytes f) raw) \<and> rf_relative_path f = path_below [] names \<and>
     rf_content_hash f = ix_sha256 ix raw \<and> decode_bytes ix raw = Some body \<and>
     rf_size_bytes f = int (length raw) \<and> rf_size_bytes f \<le> ix_maximum_file_bytes ix \<and>
     rf_change_kind f = change_kind (map_of previous (rf_relative_path f)) (rf_content_hash f) \<and>
     (\<forall>l. 1 \<le> l \<and> l \<le> int (length (text_lines body)) \<longrightarrow>
        (\<exists>c \<in> set chunks. rc_relative_path c = rf_relative_path f \<and> shows_line (text_lines body) l c)))"

lemma file_entered_describes:
  assumes "new_indexer ix = Inr ix" and "wf_tree (Directory entries)"
    and "file_entered ix previous sid (walk_root ix entries) st f"
  shows "describes ix (Directory entries) previous (xs_chunks st) f"
proof -
  obtain n raw body chunks symbols imps where f: "Found (rf_relative_path f) n raw \<in> set (walk_root ix entries)"
    "entered ix previous sid (rf_relative_path f) n raw body f"
    "chunks_for ix f body sid = Inr (chunks, symbols, imps)" "set chunks \<subseteq> set (xs_chunks st)"
    using assms(3) unfolding file_entered_def by blast
  obtain names where names: "locate (Directory entries) names = Some (Regular_File n raw)"
    "rf_relative_path f = path_below [] names" using walk_root_in_tree[OF assms(2) f(1)] by blast
  have "\<exists>c \<in> set (xs_chunks st). rc_relative_path c = rf_relative_path f \<and> shows_line (text_lines body) l c"
    if "1 \<le> l \<and> l \<le> int (length (text_lines body))" for l
    using chunks_cover[OF assms(1) f(3)] that entered_chunk_paths[OF f(3)] f(4) by blast
  then show ?thesis
    using names f(2) unfolding describes_def by (intro exI[of _ names] exI[of _ raw] exI[of _ body]) (auto simp: entered_def)
qed


section \<open>An example\<close>

text \<open>A tree with a module, a link, an ignored directory and a package below the root.\<close>

definition example_indexer :: indexer where
  "example_indexer = \<lparr>ix_sha256 = (\<lambda>s. replicate 64 (CHR ''0'')), ix_decode_sig = Some, ix_decode_replace = (\<lambda>s. s),
     ix_parse = (\<lambda>s. Some [PyDef ''f'' 2 3]), ix_guess_type = (\<lambda>s. None),
     ix_ignored = (\<lambda>ps relative. relative \<in> set ps), ix_indicators = (\<lambda>s. 0), ix_maximum_file_bytes = 100,
     ix_maximum_repository_bytes = 1000, ix_exclusions = [''build/''], ix_chunk_lines = 2\<rparr>"

definition example_source :: string where
  "example_source = ''i'' @ newline @ ''d'' @ newline @ '' p'' @ newline @ ''x''"

definition example_tree :: "(string \<times> entry) list" where
  "example_tree = [(''l'', Symlink True), (''m.py'', Regular_File (int (length example_source)) example_source),
     (''build'', Directory [(''x'', Regular_File 1 ''x'')]), (''p'', Directory [(''out'', Symlink False)])]"

lemma example_index_runs:
  "yields (\<lambda>idx. map rf_relative_path (rs_files (ri_snapshot idx)) = [''m.py''] \<and>
      map (\<lambda>c. (rc_start_line c, rc_end_line c)) (ri_chunks idx) = [(1, 1), (2, 3), (4, 4)])
    (local_index example_indexer ''/'' (Directory example_tree) None (Some ''s'') (calm 0 0 0 empty_db))"
  by code_simp


definition example_file :: RepositoryFile where
  "example_file = \<lparr>rf_file_id = ''f'', rf_snapshot_id = ''s'', rf_relative_path = ''m.py'',
     rf_content_hash = replicate 64 (CHR ''0''), rf_size_bytes = 7, rf_media_type = ''text/plain'',
     rf_language = Some ''python'', rf_change_kind = FC_NEW, rf_is_deleted = False, rf_indexed_at = 0\<rparr>"

lemma example_chunks:
  "case chunks_for example_indexer example_file example_source ''s'' of Inl e \<Rightarrow> False
   | Inr (chunks, symbols, imps) \<Rightarrow> map (\<lambda>c. (rc_start_line c, rc_end_line c)) chunks = [(1, 1), (2, 3), (4, 4)]"
  by code_simp

theorem chunks_cover_lines_witness:
  "\<exists>chunks symbols imps. chunks_for example_indexer example_file example_source ''s'' = Inr (chunks, symbols, imps) \<and>
     (\<exists>c \<in> set chunks. shows_line (text_lines example_source) 4 c)"
proof -
  obtain chunks symbols imps where run: "chunks_for example_indexer example_file example_source ''s'' = Inr (chunks, symbols, imps)"
    using example_chunks by (auto split: sum.splits prod.splits)
  have new: "new_indexer example_indexer = Inr example_indexer" by (simp add: new_indexer_def example_indexer_def)
  have "'''' \<notin> fst ` set (symbols_of (parsed_nodes example_indexer example_file example_source))"
    and "length (text_lines example_source) = 4" by code_simp+
  then show ?thesis using chunks_cover_lines[OF new run] run by auto
qed

text \<open>The indexer keeps stored histories: it reads the clock and draws identifiers, nothing else.\<close>

lemma out_index_found: "outcome durable (\<lambda>_ _. True) w (index_found ix old sid st f)"
  unfolding index_found_def index_file_def Let_def
  by (cases f) (auto split: prod.splits option.splits if_splits simp: dur.out_ret dur.out_raise
      intro!: dur.out_bnd_lift dur.out_bnd[OF out_ids] dur.out_bnd[OF out_clock] dur.out_ret)

lemma out_local_index [outcome_intros]:
  "outcome durable (\<lambda>_ _. True) w (local_index ix root_path tree previous snapshot)"
proof (cases tree)
  case (Directory entries)
  have new: "outcome durable (\<lambda>_ _. True) w (case snapshot of Some (c # cs) \<Rightarrow> ret (c # cs) | _ \<Rightarrow> ids_new ''snap'')" for w
    by (auto split: option.splits list.splits intro: dur.out_ret outcome_weaken[OF out_ids])
  show ?thesis
    unfolding local_index_def finish_index_def Let_def Directory entry.case
    by (rule dur.out_bnd[OF new]) (auto simp: dur.out_ret dur.out_raise
        intro!: dur.out_bnd[OF dur.out_foldA[where I = "\<lambda>_ _. True", OF TrueI out_index_found]]
          dur.out_bnd[OF out_clock] dur.out_bnd_lift dur.out_ret)
qed (simp_all add: local_index_def dur.out_raise)

end
