(* ===== verification/Retrieval.thy ===== *)
theory Retrieval
  imports Python_Text Checkpoint_Manager
begin

text \<open>
  \<open>retrieval/engine.py\<close>: keyword search, semantic search over an embedding provider, and the fusion of
  the two rankings. Floats are rationals; \<open>math.log1p\<close> and \<open>math.sqrt\<close>, as functions on them, and the
  provider are the parameters of \<open>engine\<close>.
\<close>

record RetrievalItem =
  it_item_id :: string
  it_source_type :: string
  it_source :: string
  it_source_location :: string
  it_content :: string
  it_content_hash :: string
  it_score :: rat
  it_snapshot_id :: "string option"
  it_metadata :: "(string \<times> json) list"

definition valid_RetrievalItem :: "RetrievalItem \<Rightarrow> bool" where
  "valid_RetrievalItem i \<longleftrightarrow> no_nul (it_item_id i) \<and> no_nul (it_source_type i) \<and> no_nul (it_source i) \<and>
     no_nul (it_source_location i) \<and> no_nul (it_content i) \<and> no_nul (it_content_hash i) \<and>
     no_nul_opt (it_snapshot_id i)"

record engine =
  en_chunks :: "RepositoryChunk list"
  en_embed :: "(string list \<Rightarrow> rat list list io) option"
  en_log1p :: "nat \<Rightarrow> rat"
  en_sqrt :: "rat \<Rightarrow> rat"

section \<open>Terms\<close>

definition is_letter :: "char \<Rightarrow> bool" where
  "is_letter c \<longleftrightarrow> (let n = of_char c :: nat in (65 \<le> n \<and> n \<le> 90) \<or> (97 \<le> n \<and> n \<le> 122))"

definition is_digit :: "char \<Rightarrow> bool" where
  "is_digit c \<longleftrightarrow> (let n = of_char c :: nat in 48 \<le> n \<and> n \<le> 57)"

definition is_term_start :: "char \<Rightarrow> bool" where
  "is_term_start c \<longleftrightarrow> is_letter c \<or> c = CHR ''_''"

definition is_term_char :: "char \<Rightarrow> bool" where
  "is_term_char c \<longleftrightarrow> is_term_start c \<or> is_digit c"

text \<open>\<open>_TERM.findall\<close>: from the left, the longest match of \<open>[A-Za-z_][A-Za-z0-9_]{1,}\<close>, without overlap.\<close>

function find_terms :: "string \<Rightarrow> string list" where
  "find_terms [] = []"
| "find_terms (c # cs) =
     (if is_term_start c \<and> takeWhile is_term_char cs \<noteq> []
      then (c # takeWhile is_term_char cs) # find_terms (dropWhile is_term_char cs)
      else find_terms cs)"
  by pat_completeness auto
termination
  by (relation "measure length") (auto simp: less_Suc_eq_le length_dropWhile_le)

text \<open>\<open>Counter\<close> of the lowered terms, in order of first occurrence.\<close>

definition term_counts :: "string \<Rightarrow> (string \<times> nat) list" where
  "term_counts s = (let ts = map py_lower (find_terms s) in
     map (\<lambda>t. (t, count_list ts t)) (fromkeys {} ts))"

section \<open>Keyword search\<close>

definition chunk_item :: "RepositoryChunk \<Rightarrow> rat \<Rightarrow> RetrievalItem" where
  "chunk_item chunk score = \<lparr>it_item_id = rc_chunk_id chunk, it_source_type = ''repository_chunk'',
     it_source = rc_relative_path chunk,
     it_source_location = rc_relative_path chunk @ '':'' @ show_int (rc_start_line chunk) @ ''-'' @ show_int (rc_end_line chunk),
     it_content = rc_content chunk, it_content_hash = rc_content_hash chunk, it_score = score,
     it_snapshot_id = Some (rc_snapshot_id chunk),
     it_metadata = [(''symbol'', jopt JStr (rc_symbol_name chunk)), (''language'', jopt JStr (rc_language chunk))]\<rparr>"

definition keyword_score :: "engine \<Rightarrow> (string \<times> nat) list \<Rightarrow> RepositoryChunk \<Rightarrow> rat" where
  "keyword_score en terms chunk =
     (let content_terms = term_counts (rc_content chunk); path = py_lower (rc_relative_path chunk);
          symbol = py_lower (case rc_symbol_name chunk of None \<Rightarrow> '''' | Some s \<Rightarrow> s) in
      sum_list (map (\<lambda>(term, count).
        of_nat count * en_log1p en (case map_of content_terms term of None \<Rightarrow> 0 | Some n \<Rightarrow> n) +
        (if contains term path then 2 else 0) + (if contains term symbol then 3 else 0)) terms))"

text \<open>Best score first, then path and line.\<close>

definition ranked :: "(rat \<times> RepositoryChunk) list \<Rightarrow> (rat \<times> RepositoryChunk) list" where
  "ranked scored = sort_key (\<lambda>(score, chunk). (- score, rc_relative_path chunk, rc_start_line chunk)) scored"

definition items_of :: "int \<Rightarrow> (rat \<times> RepositoryChunk) list \<Rightarrow> RetrievalItem list" where
  "items_of limit scored = map (\<lambda>(score, chunk). chunk_item chunk score) (py_take limit (ranked scored))"

definition keyword :: "engine \<Rightarrow> string \<Rightarrow> int \<Rightarrow> exn + RetrievalItem list" where
  "keyword en words limit =
     (if limit < 1 then Inl ValueError
      else
        let terms = term_counts words in
        if terms = [] then Inr []
        else
          traverse (checked valid_RetrievalItem)
            (items_of limit (List.map_filter (\<lambda>chunk.
              let score = keyword_score en terms chunk in
              if score = 0 then None
              else Some (score / en_sqrt en (of_nat (max (length (term_counts (rc_content chunk))) 1)), chunk))
              (en_chunks en))))"

section \<open>Semantic search\<close>

definition dot :: "rat list \<Rightarrow> rat list \<Rightarrow> rat" where
  "dot xs ys = sum_list (map2 (*) xs ys)"

definition cosine :: "engine \<Rightarrow> rat list \<Rightarrow> rat list \<Rightarrow> exn + rat" where
  "cosine en left right =
     (if length left \<noteq> length right \<or> left = [] then Inl ValueError
      else
        let left_norm = en_sqrt en (dot left left); right_norm = en_sqrt en (dot right right) in
        Inr (if left_norm = 0 \<or> right_norm = 0 then 0 else dot left right / (left_norm * right_norm)))"

definition semantic :: "engine \<Rightarrow> string \<Rightarrow> int \<Rightarrow> RetrievalItem list io" where
  "semantic en words limit = (case en_embed en of
     None \<Rightarrow> ret []
   | Some provider \<Rightarrow>
       bnd (provider (words # map rc_content (en_chunks en))) (\<lambda>vectors. case vectors of
         [] \<Rightarrow> raise ValueError
       | query_vector # rest \<Rightarrow>
           if length rest \<noteq> length (en_chunks en) then raise ValueError
           else
             bnd (lift_sum (traverse (\<lambda>(vector, chunk).
               map_sum id (\<lambda>score. (score, chunk)) (cosine en query_vector vector)) (zip rest (en_chunks en)))) (\<lambda>scored.
             lift_sum (traverse (checked valid_RetrievalItem) (items_of limit (filter (\<lambda>(score, chunk). 0 < score) scored))))))"

section \<open>Fusion\<close>

text \<open>
  \<open>fused\<close> adds \<open>1 / (60 + rank)\<close> for every list an item is in; \<open>by_id\<close> keeps the last item of an identifier.
\<close>

definition reciprocal_ranks :: "RetrievalItem list \<Rightarrow> (string \<times> rat) list" where
  "reciprocal_ranks items = map (\<lambda>(rank, item). (it_item_id item, 1 / of_nat (60 + rank))) (enumerate 1 items)"

definition fused_score :: "RetrievalItem list \<Rightarrow> RetrievalItem list \<Rightarrow> string \<Rightarrow> rat" where
  "fused_score keywords semantics i =
     sum_list (map snd (filter (\<lambda>(j, r). j = i) (reciprocal_ranks keywords @ reciprocal_ranks semantics)))"

definition fuse :: "int \<Rightarrow> RetrievalItem list \<Rightarrow> RetrievalItem list \<Rightarrow> RetrievalItem list" where
  "fuse limit keywords semantics =
     (let by_id = py_dict (map (\<lambda>item. (it_item_id item, item)) (keywords @ semantics));
          fused = fused_score keywords semantics;
          ordered = py_take limit (sort_key (\<lambda>i. (- fused i, i)) (map fst by_id)) in
      map (\<lambda>i. (the (map_of by_id i))\<lparr>it_score := fused i\<rparr>) ordered)"

definition hybrid :: "engine \<Rightarrow> string \<Rightarrow> int \<Rightarrow> RetrievalItem list io" where
  "hybrid en words limit =
     bnd (lift_sum (keyword en words (max (limit * 3) 10))) (\<lambda>keywords.
     bnd (semantic en words (max (limit * 3) 10)) (\<lambda>semantics.
     ret (if semantics = [] then py_take limit keywords else fuse limit keywords semantics)))"

section \<open>What a search returns\<close>

lemma py_take_subset: "set (py_take n xs) \<subseteq> set xs"
  unfolding py_take_def by (rule set_take_subset)

lemma ranked_set [simp]: "set (ranked scored) = set scored"
  by (simp add: ranked_def)

lemma sorted_wrt_py_take: "sorted_wrt P xs \<Longrightarrow> sorted_wrt P (py_take n xs)"
  by (simp add: py_take_def sorted_wrt_take)

lemma sorted_wrt_key:
  assumes "sorted (map f xs)" and "\<And>x y. f x \<le> f y \<Longrightarrow> P x y"
  shows "sorted_wrt P xs"
  using assms by (simp add: sorted_map) (metis (mono_tags, lifting) sorted_wrt_mono_rel)

text \<open>\<open>from_chunks en items\<close>: items of chunks, best first, no chunk identifier twice.\<close>

definition from_chunks :: "engine \<Rightarrow> RetrievalItem list \<Rightarrow> bool" where
  "from_chunks en items \<longleftrightarrow> (\<forall>i \<in> set items. \<exists>chunk \<in> set (en_chunks en). i = chunk_item chunk (it_score i)) \<and>
     sorted_wrt (\<lambda>i j. it_score j \<le> it_score i) items"

lemma traverse_checked_Inr: "traverse (checked valid) xs = Inr ys \<Longrightarrow> ys = xs"
  by (induction xs arbitrary: ys) (auto split: sum.splits)

lemma items_of_chunks:
  assumes "snd ` set scored \<subseteq> set (en_chunks en)"
  shows "from_chunks en (items_of limit scored)"
proof -
  have "sorted_wrt (\<lambda>x y. fst y \<le> fst x) (ranked scored)"
    unfolding ranked_def by (rule sorted_wrt_key[OF sorted_sort_key]) (auto simp: less_eq_prod_def)
  then have "sorted_wrt (\<lambda>x y. fst y \<le> fst x) (py_take limit (ranked scored))" by (rule sorted_wrt_py_take)
  then have "sorted_wrt (\<lambda>i j. it_score j \<le> it_score i) (items_of limit scored)"
    by (simp add: items_of_def sorted_wrt_map case_prod_beta chunk_item_def)
  moreover have "\<exists>chunk \<in> set (en_chunks en). i = chunk_item chunk (it_score i)"
    if i: "i \<in> set (items_of limit scored)" for i
  proof -
    obtain score chunk where "(score, chunk) \<in> set scored" "i = chunk_item chunk score"
      using i py_take_subset[of limit "ranked scored"] by (fastforce simp: items_of_def)
    then show ?thesis using assms by (intro bexI[of _ chunk]) (auto simp: chunk_item_def)
  qed
  ultimately show ?thesis by (simp add: from_chunks_def)
qed

lemma keyword_chunks: "keyword en words limit = Inr items \<Longrightarrow> from_chunks en items"
  unfolding keyword_def Let_def
  by (auto simp: from_chunks_def[of en "[]"] split: if_splits dest!: traverse_checked_Inr
      intro!: items_of_chunks simp: List.map_filter_def)

lemma semantic_chunks: "semantic en words limit w = (Inr items, w') \<Longrightarrow> from_chunks en items"
proof -
  assume run: "semantic en words limit w = (Inr items, w')"
  show ?thesis
  proof (cases "en_embed en")
    case None
    then show ?thesis using run by (simp add: semantic_def ret_def from_chunks_def)
  next
    case (Some provider)
    obtain query_vector rest where tr: "\<exists>scored. traverse (\<lambda>(vector, chunk).
        map_sum id (\<lambda>score. (score, chunk)) (cosine en query_vector vector)) (zip rest (en_chunks en)) = Inr scored \<and>
        traverse (checked valid_RetrievalItem) (items_of limit (filter (\<lambda>(score, chunk). 0 < score) scored)) = Inr items"
      using run Some by (auto simp: semantic_def bnd_def raise_def lift_sum_def split: prod.splits sum.splits list.splits if_splits)
    then obtain scored where tr: "traverse (\<lambda>(vector, chunk).
        map_sum id (\<lambda>score. (score, chunk)) (cosine en query_vector vector)) (zip rest (en_chunks en)) = Inr scored"
      and items: "items = items_of limit (filter (\<lambda>(score, chunk). 0 < score) scored)"
      using traverse_checked_Inr by blast
    have "snd y \<in> set (en_chunks en)" if y: "y \<in> set scored" for y
    proof -
      obtain vector chunk where x: "(vector, chunk) \<in> set (zip rest (en_chunks en))" and
        "map_sum id (\<lambda>score. (score, chunk)) (cosine en query_vector vector) = Inr y"
        using traverse_set[OF tr y] by auto
      then have "snd y = chunk" by (cases "cosine en query_vector vector") auto
      then show ?thesis using set_zip_rightD[OF x] by simp
    qed
    then show ?thesis unfolding items by (intro items_of_chunks) auto
  qed
qed

section \<open>What the fusion selects\<close>

lemma fromkeys_set [simp]: "set (fromkeys seen xs) = set xs - seen"
  by (induction seen xs rule: fromkeys.induct) auto

lemma fromkeys_distinct [simp]: "distinct (fromkeys seen xs)"
  by (induction seen xs rule: fromkeys.induct) auto

lemma py_dict_eq: "py_dict kvs = map (\<lambda>k. (k, the (map_of (rev kvs) k))) (fromkeys {} (map fst kvs))"
proof -
  have "List.map_filter (\<lambda>k. map_option (Pair k) (map_of (rev kvs) k)) ks = map (\<lambda>k. (k, the (map_of (rev kvs) k))) ks"
    if "set ks \<subseteq> fst ` set kvs" for ks
    using that
  proof (induction ks)
    case (Cons k ks)
    then have "map_of (rev kvs) k \<noteq> None" by (simp add: map_of_eq_None_iff)
    then show ?case using Cons by auto
  qed simp
  from this[of "fromkeys {} (map fst kvs)"] show ?thesis by (simp add: py_dict_def)
qed

lemma py_dict_keys: "map fst (py_dict kvs) = fromkeys {} (map fst kvs)"
  by (simp add: py_dict_eq comp_def)

lemma py_dict_value:
  assumes "k \<in> fst ` set kvs"
  shows "\<exists>v. map_of (py_dict kvs) k = Some v \<and> (k, v) \<in> set kvs"
proof -
  obtain v where v: "map_of (rev kvs) k = Some v" using assms map_of_eq_None_iff[of "rev kvs" k] by auto
  have "(k, v) \<in> set (py_dict kvs)" using assms v unfolding py_dict_eq by (force simp: image_iff)
  then have "map_of (py_dict kvs) k = Some v" by (intro map_of_is_SomeI) (simp add: py_dict_keys)
  then show ?thesis using map_of_SomeD[OF v] by auto
qed

lemma sort_key_before:
  fixes f :: "'a \<Rightarrow> 'k::linorder"
  assumes "x \<in> set (take n (sort_key f xs))" and "y \<in> set xs" and "y \<notin> set (take n (sort_key f xs))"
  shows "f x \<le> f y"
proof -
  have "sorted_wrt (\<lambda>x y. f x \<le> f y) (take n (sort_key f xs) @ drop n (sort_key f xs))"
    by (simp add: sorted_wrt_key[OF sorted_sort_key])
  moreover have "y \<in> set (drop n (sort_key f xs))"
    using assms(2,3) by (metis Un_iff append_take_drop_id set_append set_sort)
  ultimately show ?thesis using assms(1) unfolding sorted_wrt_append by blast
qed

lemma fuse_spec:
  fixes ks ss :: "RetrievalItem list"
  assumes "1 \<le> limit"
  defines "ids \<equiv> it_item_id ` set (ks @ ss)"
    and "items \<equiv> fuse limit ks ss"
  shows "distinct (map it_item_id items) \<and> it_item_id ` set items \<subseteq> ids \<and>
    int (length items) = min limit (int (card ids)) \<and>
    sorted_wrt (\<lambda>i j. it_score j \<le> it_score i) items \<and>
    (\<forall>i \<in> set items. it_score i = fused_score ks ss (it_item_id i) \<and>
       (\<exists>j \<in> set (ks @ ss). i = j\<lparr>it_score := it_score i\<rparr>)) \<and>
    (\<forall>i \<in> set items. \<forall>j \<in> ids - it_item_id ` set items. fused_score ks ss j \<le> it_score i)"
proof -
  let ?kvs = "map (\<lambda>item. (it_item_id item, item)) (ks @ ss)"
  let ?f = "\<lambda>i. (- fused_score ks ss i, i)"
  define sorted_ids where "sorted_ids = sort_key ?f (map fst (py_dict ?kvs))"
  define ordered where "ordered = take (nat limit) sorted_ids"
  have sub: "set ordered \<subseteq> ids"
    unfolding ordered_def sorted_ids_def ids_def using set_take_subset by (force simp: py_dict_keys comp_def)
  have ids: "distinct sorted_ids" "set sorted_ids = ids"
    by (simp_all add: sorted_ids_def py_dict_keys comp_def ids_def image_Un)
  then have len: "int (length ordered) = min limit (int (card ids))"
    using assms(1) distinct_card[OF ids(1)] by (simp add: ordered_def)
  define pick where "pick = (\<lambda>i. the (map_of (py_dict ?kvs) i))"
  have keys: "fst ` set ?kvs = ids" by (simp add: ids_def image_image image_Un)
  have val: "pick i \<in> set (ks @ ss) \<and> it_item_id (pick i) = i" if i: "i \<in> ids" for i
  proof -
    obtain v where "map_of (py_dict ?kvs) i = Some v" "(i, v) \<in> set ?kvs"
      using py_dict_value[of i ?kvs] i unfolding keys by blast
    then show ?thesis by (auto simp: pick_def)
  qed
  have items: "items = map (\<lambda>i. (pick i)\<lparr>it_score := fused_score ks ss i\<rparr>) ordered"
    using assms(1) by (simp add: items_def fuse_def Let_def pick_def ordered_def sorted_ids_def py_take_def)
  have names: "map it_item_id items = ordered"
    unfolding items using val sub by (auto simp: comp_def subset_iff intro: map_idI)
  then have name_set: "it_item_id ` set items = set ordered" by (metis list.set_map)
  have "sorted_wrt (\<lambda>i j. fused_score ks ss j \<le> fused_score ks ss i) sorted_ids"
    unfolding sorted_ids_def by (rule sorted_wrt_key[OF sorted_sort_key]) (auto simp: less_eq_prod_def)
  then have "sorted_wrt (\<lambda>i j. it_score j \<le> it_score i) items"
    by (simp add: items sorted_wrt_map ordered_def sorted_wrt_take)
  moreover have "it_score i = fused_score ks ss (it_item_id i) \<and>
      (\<exists>j \<in> set (ks @ ss). i = j\<lparr>it_score := it_score i\<rparr>)" if i: "i \<in> set items" for i
  proof -
    obtain k where k: "k \<in> ids" "i = (pick k)\<lparr>it_score := fused_score ks ss k\<rparr>"
      using i sub unfolding items by auto
    then show ?thesis using val[OF k(1)] by (auto intro!: bexI[of _ "pick k"])
  qed
  moreover have "fused_score ks ss j \<le> it_score i"
    if i: "i \<in> set items" and j: "j \<in> ids - it_item_id ` set items" for i j
  proof -
    obtain k where k: "k \<in> set ordered" "i = (pick k)\<lparr>it_score := fused_score ks ss k\<rparr>"
      using i unfolding items by auto
    have "?f k \<le> ?f j"
      using sort_key_before[of k "nat limit" ?f "map fst (py_dict ?kvs)" j] k(1) j ids name_set
      by (simp add: ordered_def sorted_ids_def)
    then show ?thesis using k(2) by (auto simp: less_eq_prod_def)
  qed
  moreover have "distinct (map it_item_id items)" unfolding names by (simp add: ordered_def ids(1))
  moreover have "int (length items) = min limit (int (card ids))" using len names by (metis length_map)
  ultimately show ?thesis using sub name_set by blast
qed

lemma chunk_item_score [simp]: "(chunk_item c s)\<lparr>it_score := s'\<rparr> = chunk_item c s'"
  by (simp add: chunk_item_def)

lemma fuse_chunks:
  assumes "1 \<le> limit" and "from_chunks en ks" and "from_chunks en ss"
  shows "from_chunks en (fuse limit ks ss)"
proof -
  note spec = fuse_spec[OF assms(1), of ks ss]
  have "\<exists>chunk \<in> set (en_chunks en). i = chunk_item chunk (it_score i)" if i: "i \<in> set (fuse limit ks ss)" for i
  proof -
    obtain j where j: "j \<in> set (ks @ ss)" "i = j\<lparr>it_score := it_score i\<rparr>" using spec i by blast
    then obtain chunk where "chunk \<in> set (en_chunks en)" "j = chunk_item chunk (it_score j)"
      using assms(2,3) by (auto simp: from_chunks_def)
    then show ?thesis using j(2) chunk_item_score by metis
  qed
  then show ?thesis using spec by (simp add: from_chunks_def)
qed

lemma hybrid_InrD:
  assumes "hybrid en words limit w = (Inr items, w')"
  shows "\<exists>ks ss. keyword en words (max (limit * 3) 10) = Inr ks \<and>
    semantic en words (max (limit * 3) 10) w = (Inr ss, w') \<and>
    items = (if ss = [] then py_take limit ks else fuse limit ks ss)"
proof (cases "keyword en words (max (limit * 3) 10)")
  case (Inl e)
  then show ?thesis using assms by (simp add: hybrid_def bnd_def lift_sum_def raise_def)
next
  case (Inr ks)
  obtain r w1 where sem: "semantic en words (max (limit * 3) 10) w = (r, w1)" by fastforce
  show ?thesis using assms Inr sem
    by (cases r) (simp_all add: hybrid_def bnd_def lift_sum_def ret_def)
qed

lemma from_chunks_take: "from_chunks en ks \<Longrightarrow> from_chunks en (py_take n ks)"
  using py_take_subset[of n ks] by (auto simp: from_chunks_def sorted_wrt_py_take)

lemma length_py_take: "0 \<le> n \<Longrightarrow> int (length (py_take n xs)) \<le> n"
  by (simp add: py_take_def)

lemma hybrid_chunks:
  assumes "hybrid en words limit w = (Inr items, w')" and "1 \<le> limit"
  shows "from_chunks en items"
proof -
  obtain ks ss where r: "keyword en words (max (limit * 3) 10) = Inr ks"
    "semantic en words (max (limit * 3) 10) w = (Inr ss, w')"
    "items = (if ss = [] then py_take limit ks else fuse limit ks ss)"
    using hybrid_InrD[OF assms(1)] by blast
  show ?thesis unfolding r(3)
    using from_chunks_take[OF keyword_chunks[OF r(1)]] fuse_chunks[OF assms(2) keyword_chunks[OF r(1)] semantic_chunks[OF r(2)]]
    by simp
qed

text \<open>
  A hybrid search returns provenance, not copies: every item is a chunk of the index with its own
  location, content and digest, no more than \<open>limit\<close> of them, best score first. When the two searches are
  fused, no identifier appears twice, the score is the sum of its reciprocal ranks, and nothing left out
  has a better one.
\<close>

lemma hybrid_search_spec:
  assumes "hybrid en words limit w = (Inr items, w')" and "1 \<le> limit"
  shows "from_chunks en items \<and> int (length items) \<le> limit \<and>
    (\<exists>ks ss. keyword en words (max (limit * 3) 10) = Inr ks \<and>
       semantic en words (max (limit * 3) 10) w = (Inr ss, w') \<and>
       (if ss = [] then items = py_take limit ks
        else distinct (map it_item_id items) \<and>
          (\<forall>i \<in> set items. it_score i = fused_score ks ss (it_item_id i)) \<and>
          (\<forall>i \<in> set items. \<forall>j \<in> it_item_id ` (set ks \<union> set ss) - it_item_id ` set items.
             fused_score ks ss j \<le> it_score i)))"
proof -
  obtain ks ss where r: "keyword en words (max (limit * 3) 10) = Inr ks"
    "semantic en words (max (limit * 3) 10) w = (Inr ss, w')"
    "items = (if ss = [] then py_take limit ks else fuse limit ks ss)"
    using hybrid_InrD[OF assms(1)] by blast
  note spec = fuse_spec[OF assms(2), of ks ss]
  have "from_chunks en items" by (rule hybrid_chunks[OF assms])
  moreover have "int (length items) \<le> limit"
    using r(3) spec length_py_take[of limit ks] assms(2) by (cases "ss = []") simp_all
  moreover have "if ss = [] then items = py_take limit ks
      else distinct (map it_item_id items) \<and> (\<forall>i \<in> set items. it_score i = fused_score ks ss (it_item_id i)) \<and>
        (\<forall>i \<in> set items. \<forall>j \<in> it_item_id ` (set ks \<union> set ss) - it_item_id ` set items. fused_score ks ss j \<le> it_score i)"
  proof (cases "ss = []")
    case False
    show ?thesis unfolding r(3) if_not_P[OF False] using spec unfolding set_append by blast
  qed (simp add: r(3))
  ultimately show ?thesis using r(1,2) by blast
qed

definition example_chunk :: "string \<Rightarrow> string \<Rightarrow> RepositoryChunk" where
  "example_chunk i content = \<lparr>rc_chunk_id = i, rc_file_id = ''f'', rc_snapshot_id = ''s'', rc_relative_path = i,
     rc_content = content, rc_content_hash = ''h'', rc_start_line = 1, rc_end_line = 1, rc_symbol_name = None,
     rc_language = None, rc_imports = []\<rparr>"

definition example_engine :: engine where
  "example_engine = \<lparr>en_chunks = [example_chunk ''a'' ''retry'', example_chunk ''b'' ''retry retry''],
     en_embed = Some (\<lambda>texts. ret [[1], [1], [0]]), en_log1p = of_nat, en_sqrt = (\<lambda>x. x)\<rparr>"

lemma example_search:
  "(case hybrid example_engine ''retry'' 1 w of (Inl e, w') \<Rightarrow> False
    | (Inr items, w') \<Rightarrow> map (\<lambda>i. (it_item_id i, it_score i)) items = [(''a'', 1 / 62 + 1 / 61)])"
  by code_simp

lemma hybrid_search_spec_witness:
  "\<exists>items w'. hybrid example_engine ''retry'' 1 (quiet_world empty_db) = (Inr items, w') \<and>
     map it_item_id items = [''a''] \<and> from_chunks example_engine items"
proof -
  obtain items w' where run: "hybrid example_engine ''retry'' 1 (quiet_world empty_db) = (Inr items, w')"
    using example_search[of "quiet_world empty_db"] by (auto split: prod.splits sum.splits)
  have "map (\<lambda>i. (it_item_id i, it_score i)) items = [(''a'', 1 / 62 + 1 / 61)]"
    using example_search[of "quiet_world empty_db"] by (simp add: run)
  then have "map it_item_id items = [''a'']" by auto
  then show ?thesis using run hybrid_search_spec[OF run] by auto
qed

end
