(* ===== verification/Repository_Intelligence.thy ===== *)
theory Repository_Intelligence
  imports Retrieval
begin

text \<open>
  \<open>repository/intelligence.py\<close>: answers to questions about a repository, made of the chunks its structure
  suggests followed by the chunks a hybrid search finds.
\<close>

record RepositoryClaim =
  qc_statement :: string
  qc_evidence :: "RetrievalItem list"
  qc_inference :: bool

definition valid_RepositoryClaim :: "RepositoryClaim \<Rightarrow> bool" where
  "valid_RepositoryClaim c \<longleftrightarrow> no_nul (qc_statement c) \<and> qc_evidence c \<noteq> []"

record RepositoryAnswer =
  qa_question :: string
  qa_answer :: string
  qa_claims :: "RepositoryClaim list"
  qa_snapshot_id :: string
  qa_limitations :: "string list"

definition valid_RepositoryAnswer :: "RepositoryAnswer \<Rightarrow> bool" where
  "valid_RepositoryAnswer a \<longleftrightarrow> no_nul (qa_question a) \<and> no_nul (qa_answer a) \<and> no_nul (qa_snapshot_id a)"

definition ends_with :: "string \<Rightarrow> string \<Rightarrow> bool" where
  "ends_with suffix s \<longleftrightarrow> starts_with (rev suffix) (rev s)"

definition mentions :: "string list \<Rightarrow> string \<Rightarrow> bool" where
  "mentions terms lowered \<longleftrightarrow> (\<exists>term \<in> set terms. contains term lowered)"

text \<open>The three groups of paths a question can name, and the modules it mentions an import of.\<close>

definition purpose_paths :: "RepositoryIndex \<Rightarrow> string list" where
  "purpose_paths index = filter (\<lambda>p. py_lower p \<in> {''readme.md'', ''pyproject.toml''})
     (map fs_relative_path (ri_summaries index))"

definition testing_paths :: "RepositoryIndex \<Rightarrow> string list" where
  "testing_paths index = filter (\<lambda>p. contains ''test'' (py_lower p)) (map rc_relative_path (ri_chunks index))"

definition config_path :: "string \<Rightarrow> bool" where
  "config_path p \<longleftrightarrow>
     list_ex (\<lambda>suffix. ends_with suffix (py_lower p))
       [''.yaml'', ''.yml'', ''.toml'', ''.ini'', ''.cfg'', ''.env.example''] \<or>
     after_last (CHR ''/'') p \<in> {''Dockerfile'', ''Makefile''}"

definition config_paths :: "RepositoryIndex \<Rightarrow> string list" where
  "config_paths index = filter config_path (map fs_relative_path (ri_summaries index))"

definition importing_paths :: "RepositoryIndex \<Rightarrow> string \<Rightarrow> string list" where
  "importing_paths index lowered = map fst (filter (\<lambda>(path, imports). mentions (map py_lower imports) lowered)
     (ri_module_dependencies index))"

definition candidate_paths :: "RepositoryIndex \<Rightarrow> string \<Rightarrow> string list" where
  "candidate_paths index question = (let lowered = py_lower question in
     (if mentions [''purpose'', ''what does'', ''overview''] lowered then purpose_paths index else []) @
     (if mentions [''test'', ''cover'', ''behavior''] lowered then testing_paths index else []) @
     (if mentions [''config'', ''operational'', ''assumption''] lowered then config_paths index else []) @
     importing_paths index lowered)"

definition structural_candidates :: "RepositoryIndex \<Rightarrow> string \<Rightarrow> exn + RetrievalItem list" where
  "structural_candidates index question = traverse (checked valid_RetrievalItem)
     (map (\<lambda>chunk. chunk_item chunk 0)
       (filter (\<lambda>chunk. rc_relative_path chunk \<in> set (candidate_paths index question)) (ri_chunks index)))"

text \<open>\<open>_unique\<close>: \<open>setdefault\<close> keeps the first item of an identifier.\<close>

fun unique_items :: "string set \<Rightarrow> RetrievalItem list \<Rightarrow> RetrievalItem list" where
  "unique_items seen [] = []"
| "unique_items seen (i # items) =
     (if it_item_id i \<in> seen then unique_items seen items
      else i # unique_items (insert (it_item_id i) seen) items)"

definition item_statement :: "RetrievalItem \<Rightarrow> string" where
  "item_statement i = it_source_location i @ '' contains'' @
     (case map_of (it_metadata i) ''symbol'' of
        Some (JStr s) \<Rightarrow> if s \<noteq> [] then '' symbol '' @ s else []
      | _ \<Rightarrow> []) @
     '' relevant to the repository question.''"

definition item_claim :: "RetrievalItem \<Rightarrow> RepositoryClaim" where
  "item_claim i = \<lparr>qc_statement = item_statement i, qc_evidence = [i], qc_inference = True\<rparr>"

definition answer_text :: "RepositoryClaim list \<Rightarrow> string" where
  "answer_text claims =
     (if claims = [] then ''No indexed source location matched the question.''
      else ''Relevant primary locations: '' @
        join_with '', '' (map (\<lambda>c. it_source_location (qc_evidence c ! 0)) claims) @ ''.'')"

definition repository_answer :: "RepositoryIndex \<Rightarrow> engine \<Rightarrow> string \<Rightarrow> int \<Rightarrow> RepositoryAnswer io" where
  "repository_answer index en text0 limit =
     (let question = py_strip text0 in
      if question = [] then raise ValueError
      else if limit < 1 then raise ValueError
      else
        bnd (lift_sum (structural_candidates index question)) (\<lambda>structural.
        bnd (hybrid en question limit) (\<lambda>retrieved.
        bnd (lift_sum (traverse (checked valid_RepositoryClaim)
          (map item_claim (py_take limit (unique_items {} (structural @ retrieved)))))) (\<lambda>claims.
        lift_sum (checked valid_RepositoryAnswer
          \<lparr>qa_question = question, qa_answer = answer_text claims, qa_claims = claims,
           qa_snapshot_id = rs_snapshot_id (ri_snapshot index),
           qa_limitations =
             [''Retrieval identifies relevant source locations; semantic conclusions require review.'']\<rparr>)))))"

section \<open>What an answer shows\<close>

lemma unique_items_ids: "map it_item_id (unique_items seen items) = fromkeys seen (map it_item_id items)"
  by (induction seen items rule: unique_items.induct) auto

lemma unique_items_subset: "set (unique_items seen items) \<subseteq> set items"
  by (induction seen items rule: unique_items.induct) auto

lemma unique_items_distinct: "distinct (map it_item_id xs) \<Longrightarrow> it_item_id ` set xs \<inter> seen = {} \<Longrightarrow>
    unique_items seen (xs @ ys) = xs @ unique_items (seen \<union> it_item_id ` set xs) ys"
  by (induction xs arbitrary: seen) auto

lemma structural_InrD:
  assumes "structural_candidates index question = Inr items"
  shows "items = map (\<lambda>chunk. chunk_item chunk 0)
    (filter (\<lambda>chunk. rc_relative_path chunk \<in> set (candidate_paths index question)) (ri_chunks index))"
  using assms traverse_checked_Inr by (simp add: structural_candidates_def)

lemma repository_answer_InrD:
  assumes "repository_answer index en text0 limit w = (Inr a, w')"
  shows "1 \<le> limit \<and> py_strip text0 \<noteq> [] \<and> qa_question a = py_strip text0 \<and>
    qa_snapshot_id a = rs_snapshot_id (ri_snapshot index) \<and> qa_answer a = answer_text (qa_claims a) \<and>
    (\<exists>structural retrieved. structural_candidates index (py_strip text0) = Inr structural \<and>
       hybrid en (py_strip text0) limit w = (Inr retrieved, w') \<and>
       qa_claims a = map item_claim (py_take limit (unique_items {} (structural @ retrieved))))"
proof (cases "structural_candidates index (py_strip text0)")
  case (Inl e)
  then show ?thesis using assms
    by (simp add: repository_answer_def bnd_def lift_sum_def raise_def Let_def split: if_splits)
next
  case (Inr structural)
  obtain r w1 where run: "hybrid en (py_strip text0) limit w = (r, w1)" by fastforce
  show ?thesis
  proof (cases r)
    case (Inl e)
    then show ?thesis using assms Inr run
      by (simp add: repository_answer_def bnd_def lift_sum_def raise_def Let_def split: if_splits)
  next
    case retrieved: (Inr retrieved)
    let ?claims = "map item_claim (py_take limit (unique_items {} (structural @ retrieved)))"
    have "traverse (checked valid_RepositoryClaim) ?claims = Inr claims \<Longrightarrow> claims = ?claims" for claims
      using traverse_checked_Inr by blast
    then show ?thesis using assms Inr run retrieved
      by (auto simp: repository_answer_def bnd_def lift_sum_def raise_def ret_def Let_def checked_def
          split: if_splits sum.splits)
  qed
qed

lemma chunk_item_id: "it_item_id (chunk_item chunk score) = rc_chunk_id chunk"
  by (simp add: chunk_item_def)

lemma item_claim_evidence [simp]: "qc_evidence (item_claim i) = [i]"
  by (simp add: item_claim_def)

lemma py_take_member:
  assumes "x \<in> set xs" and "0 \<le> n"
  shows "x \<in> set (py_take n xs) \<or> int (length (py_take n xs)) = n"
  using assms by (cases "length xs \<le> nat n") (auto simp: py_take_def)

lemma unique_items_covers:
  assumes "i \<in> set items"
  shows "\<exists>j \<in> set (unique_items {} items). it_item_id j = it_item_id i"
proof -
  have "it_item_id i \<in> set (map it_item_id (unique_items {} items))"
    unfolding unique_items_ids using assms by simp
  then show ?thesis by (auto simp: image_iff)
qed

lemma chosen_covers:
  assumes "i \<in> set items" and "1 \<le> limit"
  shows "(\<exists>j \<in> set (py_take limit (unique_items {} items)). it_item_id j = it_item_id i) \<or>
    int (length (py_take limit (unique_items {} items))) = limit"
proof -
  obtain j where j: "j \<in> set (unique_items {} items)" "it_item_id j = it_item_id i"
    using unique_items_covers[OF assms(1)] by blast
  then show ?thesis using py_take_member[OF j(1), of limit] assms(2) by auto
qed

lemma distinct_py_take: "distinct xs \<Longrightarrow> distinct (py_take n xs)"
  by (simp add: py_take_def)

lemma map_py_take: "map f (py_take n xs) = py_take n (map f xs)"
  by (simp add: py_take_def take_map)

text \<open>
  C32. An answer cites what the index holds and nothing else: it has at most \<open>limit\<close> observations, each marked as
  an inference and resting on one chunk of the index with its own path, lines, content and digest, and
  no chunk twice. Every chunk in a file that the question names by its structure, and every chunk the
  search returned, is among them unless the limit is reached.
\<close>

theorem repository_answer_spec:
  assumes run: "repository_answer index en text0 limit w = (Inr a, w')"
    and chunks: "en_chunks en = ri_chunks index"
  shows "int (length (qa_claims a)) \<le> limit \<and>
    (\<forall>c \<in> set (qa_claims a). qc_inference c \<and>
       (\<exists>chunk \<in> set (ri_chunks index). \<exists>score. qc_evidence c = [chunk_item chunk score])) \<and>
    distinct (map (\<lambda>c. map it_item_id (qc_evidence c)) (qa_claims a)) \<and>
    (\<exists>retrieved. hybrid en (py_strip text0) limit w = (Inr retrieved, w') \<and>
       (\<forall>i \<in> rc_chunk_id ` {chunk \<in> set (ri_chunks index).
                rc_relative_path chunk \<in> set (candidate_paths index (py_strip text0))} \<union> it_item_id ` set retrieved.
          int (length (qa_claims a)) = limit \<or> (\<exists>c \<in> set (qa_claims a). map it_item_id (qc_evidence c) = [i])))"
proof -
  obtain structural retrieved where r: "structural_candidates index (py_strip text0) = Inr structural"
    "hybrid en (py_strip text0) limit w = (Inr retrieved, w')" "1 \<le> limit"
    "qa_claims a = map item_claim (py_take limit (unique_items {} (structural @ retrieved)))"
    using repository_answer_InrD[OF run] by blast
  let ?chosen = "py_take limit (unique_items {} (structural @ retrieved))"
  note items = structural_InrD[OF r(1)]
  have found: "from_chunks en retrieved" using hybrid_chunks[OF r(2,3)] .
  have evidence: "\<exists>chunk \<in> set (ri_chunks index). \<exists>score. i = chunk_item chunk score" if "i \<in> set ?chosen" for i
  proof -
    have "i \<in> set (structural @ retrieved)"
      using that py_take_subset unique_items_subset by (meson subsetD)
    then show ?thesis using found unfolding items from_chunks_def chunks set_append set_map set_filter by blast
  qed
  have ids: "distinct (map it_item_id ?chosen)"
    unfolding map_py_take unique_items_ids by (rule distinct_py_take) simp
  then have "distinct (map (\<lambda>c. map it_item_id (qc_evidence c)) (qa_claims a))"
    unfolding r(4) by (simp add: comp_def distinct_map inj_on_def)
  moreover have "\<forall>i \<in> rc_chunk_id ` {chunk \<in> set (ri_chunks index).
        rc_relative_path chunk \<in> set (candidate_paths index (py_strip text0))} \<union> it_item_id ` set retrieved.
      int (length (qa_claims a)) = limit \<or> (\<exists>c \<in> set (qa_claims a). map it_item_id (qc_evidence c) = [i])"
  proof -
    have sets: "rc_chunk_id ` {chunk \<in> set (ri_chunks index).
        rc_relative_path chunk \<in> set (candidate_paths index (py_strip text0))} \<union> it_item_id ` set retrieved =
      it_item_id ` set (structural @ retrieved)"
      by (simp add: items image_Un image_image chunk_item_id)
    show ?thesis
      unfolding sets r(4) using chosen_covers[OF _ r(3), of _ "structural @ retrieved"] by fastforce
  qed
  moreover have "int (length (qa_claims a)) \<le> limit" unfolding r(4) using r(3) by (simp add: length_py_take)
  moreover have "\<forall>c \<in> set (qa_claims a). qc_inference c \<and>
      (\<exists>chunk \<in> set (ri_chunks index). \<exists>score. qc_evidence c = [chunk_item chunk score])"
    unfolding r(4) using evidence by (auto simp: item_claim_def)
  ultimately show ?thesis using r(2) by blast
qed

definition answers_index :: RepositoryIndex where
  "answers_index = \<lparr>ri_snapshot = \<lparr>rs_snapshot_id = ''s'', rs_root = ''/r'', rs_manifest_hash = replicate 64 CHR ''0'',
       rs_file_count = 2, rs_total_bytes = 18, rs_files = [], rs_created_at = 0\<rparr>,
     ri_chunks = en_chunks example_engine, ri_summaries = [], ri_repository_map = [],
     ri_module_dependencies = [(''b'', [''retry''])], ri_warnings = []\<rparr>"

lemma example_answer:
  "(case repository_answer answers_index example_engine ''retry'' 1 w of (Inl e, w') \<Rightarrow> False
    | (Inr a, w') \<Rightarrow> map (\<lambda>c. map it_item_id (qc_evidence c)) (qa_claims a) = [[''b'']])"
  by code_simp

theorem repository_answer_spec_witness:
  "\<exists>a w'. repository_answer answers_index example_engine ''retry'' 1 (quiet_world empty_db) = (Inr a, w') \<and>
     length (qa_claims a) = 1 \<and>
     (\<exists>c \<in> set (qa_claims a). \<exists>chunk \<in> set (ri_chunks answers_index). \<exists>score. qc_evidence c = [chunk_item chunk score])"
proof -
  obtain a w' where run: "repository_answer answers_index example_engine ''retry'' 1 (quiet_world empty_db) = (Inr a, w')"
    using example_answer[of "quiet_world empty_db"] by (auto split: prod.splits sum.splits)
  have "map (\<lambda>c. map it_item_id (qc_evidence c)) (qa_claims a) = [[''b'']]"
    using example_answer[of "quiet_world empty_db"] by (simp add: run)
  then have "length (qa_claims a) = 1" by (metis length_map length_Cons list.size(3) One_nat_def)
  moreover have "en_chunks example_engine = ri_chunks answers_index" by (simp add: answers_index_def)
  ultimately show ?thesis
    using run repository_answer_spec[OF run] by (metis length_0_conv list.set_sel(1) zero_neq_one)
qed

end
