(* ===== verification/Network_Policy.thy ===== *)
theory Network_Policy
  imports Retrieval
begin

text \<open>
  \<open>security/network.py\<close>: the check a URL passes before it is fetched. \<open>urllib.parse\<close> is written out as far
  as the check reads its result; the resolver, \<open>ipaddress\<close> and the Unicode and IPv6 tests of a network
  location are the parameters of \<open>network_policy\<close>. Every look-up and every request leaves an event, and
  the resolver and the servers answer by the number of the event, so that two look-ups of one name
  may differ.
\<close>

section \<open>The parts of a URL\<close>

text \<open>\<open>str.partition\<close> and \<open>str.rpartition\<close>\<close>

definition before :: "char \<Rightarrow> string \<Rightarrow> string" where
  "before c s = takeWhile (\<lambda>x. x \<noteq> c) s"

definition behind :: "char \<Rightarrow> string \<Rightarrow> string" where
  "behind c s = drop 1 (dropWhile (\<lambda>x. x \<noteq> c) s)"

definition before_last :: "char \<Rightarrow> string \<Rightarrow> string" where
  "before_last c s = rev (behind c (rev s))"

record url_parts =
  up_scheme :: string
  up_netloc :: string

definition clean_url :: "string \<Rightarrow> string" where
  "clean_url url = filter (\<lambda>c. c \<notin> {CHR 0x09, CHR 0x0A, CHR 0x0D}) (dropWhile (\<lambda>c. (of_char c :: nat) \<le> 32) url)"

definition is_scheme_char :: "char \<Rightarrow> bool" where
  "is_scheme_char c \<longleftrightarrow> is_letter c \<or> is_digit c \<or> c \<in> {CHR ''+'', CHR ''-'', CHR ''.''}"

definition split_scheme :: "string \<Rightarrow> string \<times> string" where
  "split_scheme url = (let scheme = before (CHR '':'') url in
     if CHR '':'' \<in> set url \<and> scheme \<noteq> [] \<and> is_letter (hd scheme) \<and> list_all is_scheme_char scheme
     then (py_lower scheme, behind (CHR '':'') url)
     else ([], url))"

definition split_netloc :: "string \<Rightarrow> string" where
  "split_netloc url = (if starts_with ''//'' url then takeWhile (\<lambda>c. c \<notin> {CHR ''/'', CHR ''?'', CHR ''#''}) (drop 2 url) else [])"

text \<open>\<open>urlsplit\<close>: it refuses a network location with one bracket, or one that fails the further tests.\<close>

definition urlsplit :: "(string \<Rightarrow> bool) \<Rightarrow> string \<Rightarrow> exn + url_parts" where
  "urlsplit netloc_ok url =
     (let (scheme, rest) = split_scheme (clean_url url); netloc = split_netloc rest in
      if (CHR ''['' \<in> set netloc) \<noteq> (CHR '']'' \<in> set netloc) \<or> \<not> netloc_ok netloc then Inl ValueError
      else Inr \<lparr>up_scheme = scheme, up_netloc = netloc\<rparr>)"

definition hostinfo :: "url_parts \<Rightarrow> string \<times> string" where
  "hostinfo u = (let info = after_last (CHR ''@'') (up_netloc u) in
     if CHR ''['' \<in> set info
     then (let bracketed = behind (CHR ''['') info in
           (before (CHR '']'') bracketed, behind (CHR '':'') (behind (CHR '']'') bracketed)))
     else (before (CHR '':'') info, behind (CHR '':'') info))"

definition hostname :: "url_parts \<Rightarrow> string option" where
  "hostname u = (let host = fst (hostinfo u) in
     if host = [] then None
     else Some (py_lower (before (CHR ''%'') host) @ drop (length (before (CHR ''%'') host)) host))"

definition has_credentials :: "url_parts \<Rightarrow> bool" where
  "has_credentials u \<longleftrightarrow> CHR ''@'' \<in> set (up_netloc u) \<and>
     (let userinfo = before_last (CHR ''@'') (up_netloc u) in
      before (CHR '':'') userinfo \<noteq> [] \<or> behind (CHR '':'') userinfo \<noteq> [])"

definition digits_value :: "string \<Rightarrow> int" where
  "digits_value s = foldl (\<lambda>n c. 10 * n + (of_char c - 48)) 0 s"

definition url_port :: "url_parts \<Rightarrow> exn + int option" where
  "url_port u = (let port = snd (hostinfo u) in
     if port = [] then Inr None
     else if \<not> list_all is_digit port then Inl ValueError
     else if 65535 < digits_value port then Inl ValueError
     else Inr (Some (digits_value port)))"

section \<open>The check\<close>

datatype resolution = Unresolved | Resolver_raises exn | Addresses "string option list"

record network_policy =
  np_netloc_ok :: "string \<Rightarrow> bool"
  np_resolve :: "nat \<Rightarrow> string \<Rightarrow> int \<Rightarrow> resolution"
  np_is_global :: "string \<Rightarrow> exn + bool"

datatype net_event = Looked_up string int | Requested string

record network =
  nw_world :: world
  nw_events :: "net_event list"

type_synonym 'a net = "(network, exn, 'a) act"

definition on_world :: "'a io \<Rightarrow> 'a net" where
  "on_world m = (\<lambda>n. case m (nw_world n) of (r, w) \<Rightarrow> (r, n\<lparr>nw_world := w\<rparr>))"

definition happens :: "net_event \<Rightarrow> network \<Rightarrow> network" where
  "happens e n = n\<lparr>nw_events := nw_events n @ [e]\<rparr>"

definition lookup :: "network_policy \<Rightarrow> string \<Rightarrow> int \<Rightarrow> resolution net" where
  "lookup np host port = (\<lambda>n. (Inr (np_resolve np (length (nw_events n)) host port), happens (Looked_up host port) n))"

text \<open>An address is the first field of the socket address, when the resolver gives one.\<close>

definition check_address :: "network_policy \<Rightarrow> string option \<Rightarrow> exn + unit" where
  "check_address np address = (case address of
     None \<Rightarrow> Inl (Durable SecurityPolicyError)
   | Some host \<Rightarrow> (case np_is_global np host of
       Inl e \<Rightarrow> Inl e
     | Inr public \<Rightarrow> if public then Inr () else Inl (Durable SecurityPolicyError)))"

definition check_resolution :: "network_policy \<Rightarrow> resolution \<Rightarrow> exn + unit list" where
  "check_resolution np answer = (case answer of
     Unresolved \<Rightarrow> Inl (Durable SecurityPolicyError)
   | Resolver_raises e \<Rightarrow> Inl e
   | Addresses addresses \<Rightarrow>
       if addresses = [] then Inl (Durable SecurityPolicyError) else traverse (check_address np) addresses)"

definition target_of :: "network_policy \<Rightarrow> string \<Rightarrow> exn + string \<times> int" where
  "target_of np url = (case urlsplit (np_netloc_ok np) url of
     Inl e \<Rightarrow> Inl e
   | Inr parsed \<Rightarrow> (case hostname parsed of
       None \<Rightarrow> Inl (Durable SecurityPolicyError)
     | Some host \<Rightarrow>
         if up_scheme parsed \<notin> {''http'', ''https''} then Inl (Durable SecurityPolicyError)
         else if has_credentials parsed then Inl (Durable SecurityPolicyError)
         else (case url_port parsed of
            Inl e \<Rightarrow> Inl e
          | Inr None \<Rightarrow> Inr (host, if up_scheme parsed = ''https'' then 443 else 80)
          | Inr (Some port) \<Rightarrow> if port \<notin> {80, 443} then Inl (Durable SecurityPolicyError) else Inr (host, port))))"

definition validate_public_http_url :: "network_policy \<Rightarrow> string \<Rightarrow> string net" where
  "validate_public_http_url np url =
     bnd (lift_sum (target_of np url)) (\<lambda>(host, port).
     bnd (lookup np host port) (\<lambda>answer.
     bnd (lift_sum (check_resolution np answer)) (\<lambda>_.
     ret url)))"

section \<open>What the check lets through\<close>

text \<open>
  A public target: an HTTP(S) URL without credentials, on a standard port, whose host the \<open>k\<close>-th event
  resolves to public addresses only, and to at least one.
\<close>

definition public_target :: "network_policy \<Rightarrow> nat \<Rightarrow> string \<Rightarrow> string \<Rightarrow> int \<Rightarrow> bool" where
  "public_target np k url host port \<longleftrightarrow>
     (\<exists>parsed. urlsplit (np_netloc_ok np) url = Inr parsed \<and> up_scheme parsed \<in> {''http'', ''https''} \<and>
        hostname parsed = Some host \<and> \<not> has_credentials parsed) \<and> port \<in> {80, 443} \<and>
     (\<exists>addresses. np_resolve np k host port = Addresses addresses \<and> addresses \<noteq> [] \<and>
        (\<forall>a \<in> set addresses. \<exists>ip. a = Some ip \<and> np_is_global np ip = Inr True))"

lemma happens_events [simp]: "nw_events (happens e n) = nw_events n @ [e]" "nw_world (happens e n) = nw_world n"
  by (simp_all add: happens_def)

lemma target_InrD:
  assumes "target_of np url = Inr (host, port)"
  shows "\<exists>parsed. urlsplit (np_netloc_ok np) url = Inr parsed \<and> up_scheme parsed \<in> {''http'', ''https''} \<and>
    hostname parsed = Some host \<and> \<not> has_credentials parsed \<and> port \<in> {80, 443}"
  using assms by (auto simp: target_of_def split: sum.splits option.splits if_splits)

lemma check_address_Inr: "check_address np a = Inr u \<Longrightarrow> \<exists>ip. a = Some ip \<and> np_is_global np ip = Inr True"
  by (auto simp: check_address_def split: option.splits sum.splits if_splits)

lemma traverse_all: "traverse f xs = Inr ys \<Longrightarrow> x \<in> set xs \<Longrightarrow> \<exists>y. f x = Inr y"
  by (induction xs arbitrary: ys) (auto split: sum.splits)

lemma check_resolution_Inr:
  assumes "check_resolution np answer = Inr us"
  shows "\<exists>addresses. answer = Addresses addresses \<and> addresses \<noteq> [] \<and>
    (\<forall>a \<in> set addresses. \<exists>ip. a = Some ip \<and> np_is_global np ip = Inr True)"
proof (cases answer)
  case (Addresses addresses)
  then have "addresses \<noteq> []" and all: "traverse (check_address np) addresses = Inr us"
    using assms by (auto simp: check_resolution_def split: if_splits)
  then show ?thesis using Addresses traverse_all[OF all] check_address_Inr by blast
qed (use assms in \<open>simp_all add: check_resolution_def\<close>)

text \<open>
  The check looks up at most one name, and touches nothing else; when it passes, the last event is the
  look-up that showed the target public.
\<close>

lemma validate_run:
  assumes "validate_public_http_url np url n = (r, n')"
  shows "nw_world n' = nw_world n \<and>
    (case r of
       Inl e \<Rightarrow> nw_events n' = nw_events n \<or> (\<exists>host port. nw_events n' = nw_events n @ [Looked_up host port])
     | Inr u \<Rightarrow> u = url \<and> (\<exists>host port. nw_events n' = nw_events n @ [Looked_up host port] \<and>
         public_target np (length (nw_events n)) url host port))"
proof (cases "target_of np url")
  case (Inl e)
  then show ?thesis using assms by (auto simp: validate_public_http_url_def bnd_def lift_sum_def)
next
  case (Inr target)
  obtain host port where target: "target = (host, port)" by fastforce
  let ?answer = "np_resolve np (length (nw_events n)) host port"
  note valid = target_InrD[OF Inr[unfolded target]]
  show ?thesis
  proof (cases "check_resolution np ?answer")
    case failed: (Inl e)
    then show ?thesis using assms Inr target
      by (auto simp: validate_public_http_url_def bnd_def lift_sum_def lookup_def)
  next
    case passed: (Inr us)
    then have "public_target np (length (nw_events n)) url host port"
      using valid check_resolution_Inr[OF passed] by (auto simp: public_target_def)
    then show ?thesis using assms Inr target passed
      by (auto simp: validate_public_http_url_def bnd_def lift_sum_def lookup_def ret_def)
  qed
qed

end
