(* ===== verification/Http_Fetcher.thy ===== *)
theory Http_Fetcher
  imports Network_Policy
begin

text \<open>
  \<open>research/http_fetcher.py\<close>: the fetcher of public documents, its redirects and its bounds. The HTTP
  client (\<open>httpx\<close>) answers the \<open>k\<close>-th event by \<open>hf_reply\<close>: the status, the headers the fetcher reads, the
  chunks of the body and how the body ends, or a failure. \<open>urljoin\<close>, decoding, the digest and
  \<open>isoformat\<close> are parameters too.
\<close>

section \<open>Integers in text\<close>

text \<open>\<open>int(text)\<close>: white space around, a sign, digits with single underscores between them.\<close>

fun int_digits :: "string \<Rightarrow> bool" where
  "int_digits [] = False"
| "int_digits [c] = is_digit c"
| "int_digits (c # d # cs) = (is_digit c \<and> (if d = CHR ''_'' then int_digits cs else int_digits (d # cs)))"

definition unsigned_int :: "string \<Rightarrow> exn + int" where
  "unsigned_int s = (if int_digits s then Inr (digits_value (filter (\<lambda>c. c \<noteq> CHR ''_'') s)) else Inl ValueError)"

definition int_of_text :: "string \<Rightarrow> exn + int" where
  "int_of_text s = (case py_strip s of
     [] \<Rightarrow> Inl ValueError
   | c # cs \<Rightarrow>
       if c = CHR ''-'' then map_sum id uminus (unsigned_int cs)
       else if c = CHR ''+'' then unsigned_int cs
       else unsigned_int (c # cs))"

section \<open>The fetcher\<close>

datatype http_failure = Http_timeout | Http_network | Http_other exn

record response =
  rp_status :: int
  rp_location :: "string option"
  rp_content_type :: "string option"
  rp_content_length :: "string option"
  rp_chunks :: "string list"
  rp_failure :: "http_failure option"

datatype reply = Response response | Request_failed http_failure

record fetcher =
  hf_policy :: network_policy
  hf_enabled :: bool
  hf_maximum_bytes :: int
  hf_timeout_seconds :: rat
  hf_maximum_redirects :: int
  hf_reply :: "nat \<Rightarrow> string \<Rightarrow> reply"
  hf_join :: "string \<Rightarrow> string \<Rightarrow> string"
  hf_decode :: "response \<Rightarrow> string \<Rightarrow> exn + string"
  hf_sha256 :: "string \<Rightarrow> string"
  hf_isoformat :: "time \<Rightarrow> string"

definition new_fetcher :: "fetcher \<Rightarrow> exn + fetcher" where
  "new_fetcher hf = (if hf_maximum_bytes hf < 1 \<or> hf_timeout_seconds hf \<le> 0 \<or> hf_maximum_redirects hf < 0
     then Inl ValueError else Inr hf)"

definition failure_exn :: "http_failure \<Rightarrow> exn" where
  "failure_exn f = (case f of
     Http_timeout \<Rightarrow> Durable ProviderRetryableError
   | Http_network \<Rightarrow> Durable ProviderRetryableError
   | Http_other e \<Rightarrow> e)"

definition request :: "fetcher \<Rightarrow> string \<Rightarrow> reply net" where
  "request hf url = (\<lambda>n. (Inr (hf_reply hf (length (nw_events n)) url), happens (Requested url) n))"

definition supported_media_type :: "string \<Rightarrow> bool" where
  "supported_media_type m \<longleftrightarrow> starts_with ''text/'' m \<or>
     m \<in> {''application/json'', ''application/xml'', ''application/xhtml+xml''}"

definition media_type_of :: "response \<Rightarrow> string" where
  "media_type_of r = before (CHR '';'') (case rp_content_type r of None \<Rightarrow> ''text/plain'' | Some t \<Rightarrow> t)"

definition check_status :: "response \<Rightarrow> exn + unit" where
  "check_status r =
     (if rp_status r = 429 \<or> 500 \<le> rp_status r then Inl (Durable ProviderRetryableError)
      else if 400 \<le> rp_status r then Inl (Durable ToolExecutionError)
      else Inr ())"

definition check_declared :: "fetcher \<Rightarrow> response \<Rightarrow> exn + unit" where
  "check_declared hf r = (case rp_content_length r of
     None \<Rightarrow> Inr ()
   | Some declared \<Rightarrow> (case int_of_text declared of
       Inl _ \<Rightarrow> Inl (Durable SecurityPolicyError)
     | Inr declared_size \<Rightarrow>
         if declared_size < 0 \<or> hf_maximum_bytes hf < declared_size then Inl (Durable SecurityPolicyError) else Inr ()))"

text \<open>The body so far never grows past the bound by more than the chunk that is refused.\<close>

fun read_body :: "int \<Rightarrow> http_failure option \<Rightarrow> string \<Rightarrow> string list \<Rightarrow> exn + string" where
  "read_body maximum failure body [] = (case failure of None \<Rightarrow> Inr body | Some f \<Rightarrow> Inl (failure_exn f))"
| "read_body maximum failure body (chunk # chunks) =
     (if maximum < int (length (body @ chunk)) then Inl (Durable SecurityPolicyError)
      else read_body maximum failure (body @ chunk) chunks)"

definition document :: "fetcher \<Rightarrow> string \<Rightarrow> response \<Rightarrow> RetrievalItem net" where
  "document hf current r =
     bnd (lift_sum (check_status r)) (\<lambda>_.
     if \<not> supported_media_type (media_type_of r) then raise (Durable SecurityPolicyError)
     else
       bnd (lift_sum (check_declared hf r)) (\<lambda>_.
       bnd (lift_sum (read_body (hf_maximum_bytes hf) (rp_failure r) [] (rp_chunks r))) (\<lambda>body.
       bnd (lift_sum (hf_decode hf r body)) (\<lambda>content.
       bnd (on_world (ids_new ''web'')) (\<lambda>item_id.
       bnd (on_world clock_now) (\<lambda>now.
       lift_sum (checked valid_RetrievalItem
         \<lparr>it_item_id = item_id, it_source_type = ''web'', it_source = current, it_source_location = current,
          it_content = content, it_content_hash = hf_sha256 hf body, it_score = 1, it_snapshot_id = None,
          it_metadata = [(''media_type'', JStr (media_type_of r)), (''retrieved_at'', JStr (hf_isoformat hf now)),
            (''status_code'', JInt (rp_status r))]\<rparr>)))))))"

text \<open>The loop of \<open>fetch\<close>; \<open>left\<close> is the number of redirects that may still be followed.\<close>

primrec fetch_from :: "fetcher \<Rightarrow> nat \<Rightarrow> string \<Rightarrow> RetrievalItem net" where
  "fetch_from hf 0 current = raise (Durable SecurityPolicyError)"
| "fetch_from hf (Suc left) current =
     bnd (validate_public_http_url (hf_policy hf) current) (\<lambda>_.
     bnd (request hf current) (\<lambda>answer. case answer of
       Request_failed f \<Rightarrow> raise (failure_exn f)
     | Response r \<Rightarrow>
         if rp_status r \<in> {301, 302, 303, 307, 308} then
           (case rp_location r of
              None \<Rightarrow> raise (Durable SecurityPolicyError)
            | Some location \<Rightarrow>
                if location = [] \<or> left = 0 then raise (Durable SecurityPolicyError)
                else fetch_from hf left (hf_join hf current location))
         else document hf current r))"

definition fetch :: "fetcher \<Rightarrow> string \<Rightarrow> RetrievalItem net" where
  "fetch hf url =
     (if \<not> hf_enabled hf then raise (Durable SecurityPolicyError)
      else fetch_from hf (nat (hf_maximum_redirects hf + 1)) url)"

section \<open>What the fetcher reaches\<close>

text \<open>
  Every request in the events \<open>es\<close> that follow the first \<open>k\<close> comes right after a look-up that showed its
  target public.
\<close>

definition screened :: "network_policy \<Rightarrow> nat \<Rightarrow> net_event list \<Rightarrow> bool" where
  "screened np k es \<longleftrightarrow> (\<forall>i url. i < length es \<and> es ! i = Requested url \<longrightarrow>
     0 < i \<and> (\<exists>host port. es ! (i - 1) = Looked_up host port \<and> public_target np (k + (i - 1)) url host port))"

definition requests :: "net_event list \<Rightarrow> string list" where
  "requests es = List.map_filter (\<lambda>e. case e of Requested url \<Rightarrow> Some url | _ \<Rightarrow> None) es"

lemma requests_simps [simp]:
  "requests [] = []" "requests (Looked_up host port # es) = requests es" "requests (Requested url # es) = url # requests es"
  by (simp_all add: requests_def)

lemma screened_nil [simp]: "screened np k []" "screened np k [Looked_up host port]"
  by (auto simp: screened_def neq0_conv[symmetric] simp del: neq0_conv)

lemma screened_step:
  assumes "public_target np k url host port" and "screened np (Suc (Suc k)) es"
  shows "screened np k (Looked_up host port # Requested url # es)"
  unfolding screened_def
proof (intro allI impI)
  fix i u
  assume i: "i < length (Looked_up host port # Requested url # es) \<and> (Looked_up host port # Requested url # es) ! i = Requested u"
  show "0 < i \<and> (\<exists>h p. (Looked_up host port # Requested url # es) ! (i - 1) = Looked_up h p \<and> public_target np (k + (i - 1)) u h p)"
  proof (cases i)
    case 0
    then show ?thesis using i by simp
  next
    case (Suc j)
    show ?thesis
    proof (cases j)
      case 0
      then show ?thesis using i Suc assms(1) by simp
    next
      case (Suc l)
      then have "l < length es" "es ! l = Requested u" using i \<open>i = Suc j\<close> by simp_all
      then have "0 < l \<and> (\<exists>h p. es ! (l - 1) = Looked_up h p \<and> public_target np (Suc (Suc k) + (l - 1)) u h p)"
        using assms(2) by (simp add: screened_def)
      then show ?thesis using \<open>i = Suc j\<close> Suc by (cases l) auto
    qed
  qed
qed

definition only_network :: "network \<Rightarrow> network \<Rightarrow> bool" where
  "only_network n n' \<longleftrightarrow> w_db (nw_world n') = w_db (nw_world n) \<and> w_effects (nw_world n') = w_effects (nw_world n)"

lemma only_network_trans [trans]: "only_network n n1 \<Longrightarrow> only_network n1 n2 \<Longrightarrow> only_network n n2"
  by (simp add: only_network_def)

lemma document_run:
  assumes "document hf current r n = (x, n')"
  shows "nw_events n' = nw_events n \<and> only_network n n'"
  using assms
  by (auto simp: document_def bnd_def lift_sum_def raise_def on_world_def ids_new_def clock_now_def only_network_def
      split: sum.splits if_splits)

lemma fetch_from_run:
  assumes "fetch_from hf left url n = (r, n')"
  shows "\<exists>es. nw_events n' = nw_events n @ es \<and> screened (hf_policy hf) (length (nw_events n)) es \<and>
    length (requests es) \<le> left \<and> (requests es = [] \<or> hd (requests es) = url) \<and> only_network n n'"
  using assms
proof (induction left arbitrary: url n)
  case 0
  then show ?case by (auto simp: raise_def only_network_def)
next
  case (Suc left)
  let ?k = "length (nw_events n)"
  obtain v n1 where v: "validate_public_http_url (hf_policy hf) url n = (v, n1)" by fastforce
  note check = validate_run[OF v]
  then have here: "only_network n n1" by (simp add: only_network_def)
  show ?case
  proof (cases v)
    case (Inl e)
    then have "n' = n1" using Suc.prems v by (simp add: bnd_def)
    then show ?thesis using check Inl here by auto
  next
    case (Inr u)
    then obtain host port where n1: "nw_events n1 = nw_events n @ [Looked_up host port]"
      and target: "public_target (hf_policy hf) ?k url host port"
      using check by auto
    define n2 where "n2 = happens (Requested url) n1"
    then have two: "nw_events n2 = nw_events n @ [Looked_up host port, Requested url]" "only_network n n2"
      using n1 here by (simp_all add: only_network_def)
    have answer: "request hf url n1 = (Inr (hf_reply hf (Suc ?k) url), n2)" by (simp add: request_def n1 n2_def)
    have one: "screened (hf_policy hf) ?k [Looked_up host port, Requested url]"
      by (rule screened_step[OF target]) simp
    have stops: ?thesis if "nw_events n' = nw_events n2" "only_network n n'"
      using that two one by auto
    show ?thesis
    proof (cases "hf_reply hf (Suc ?k) url")
      case (Request_failed f)
      then have "n' = n2" using Suc.prems v Inr answer by (simp add: bnd_def raise_def)
      then show ?thesis using stops two by simp
    next
      case (Response rp)
      show ?thesis
      proof (cases "rp_status rp \<in> {301, 302, 303, 307, 308}")
        case False
        then have "document hf url rp n2 = (r, n')" using Suc.prems v Inr answer Response by (simp add: bnd_def)
        then show ?thesis using stops two document_run only_network_trans by metis
      next
        case True
        show ?thesis
        proof (cases "\<exists>location. rp_location rp = Some location \<and> location \<noteq> [] \<and> left \<noteq> 0")
          case False
          then have "n' = n2" using Suc.prems v Inr answer Response True
            by (auto simp: bnd_def raise_def split: option.splits if_splits)
          then show ?thesis using stops two by simp
        next
          case more: True
          then obtain location where "rp_location rp = Some location" "location \<noteq> []" "left \<noteq> 0" by blast
          then have "fetch_from hf left (hf_join hf url location) n2 = (r, n')"
            using Suc.prems v Inr answer Response True by (auto simp: bnd_def)
          then obtain es where es: "nw_events n' = nw_events n2 @ es"
            "screened (hf_policy hf) (length (nw_events n2)) es" "length (requests es) \<le> left" "only_network n2 n'"
            using Suc.IH by blast
          have "screened (hf_policy hf) ?k (Looked_up host port # Requested url # es)"
            using screened_step[OF target] es(2) two(1) by simp
          then show ?thesis
            using es two(1) only_network_trans[OF two(2) es(4)]
            by (intro exI[of _ "Looked_up host port # Requested url # es"]) simp
        qed
      qed
    qed
  qed
qed

text \<open>
  C11. The fetcher sends nothing to a host that it has not just seen to be public: each request follows at
  once a look-up which resolved the host of that very URL, given over HTTP(S), without credentials and on
  a standard port, to public addresses only. That includes every redirect, of which it follows at most
  \<open>maximum_redirects\<close>; when the network is disabled nothing happens at all. The store is not touched.
\<close>

theorem fetch_reaches_public_hosts:
  assumes "fetch hf url n = (r, n')" and "new_fetcher hf = Inr hf"
  shows "\<exists>es. nw_events n' = nw_events n @ es \<and> screened (hf_policy hf) (length (nw_events n)) es \<and>
    int (length (requests es)) \<le> hf_maximum_redirects hf + 1 \<and> (requests es = [] \<or> hd (requests es) = url) \<and>
    (\<not> hf_enabled hf \<longrightarrow> es = []) \<and> only_network n n'"
proof (cases "hf_enabled hf")
  case False
  then show ?thesis using assms
    by (auto simp: fetch_def raise_def only_network_def new_fetcher_def split: if_splits)
next
  case True
  then have "fetch_from hf (nat (hf_maximum_redirects hf + 1)) url n = (r, n')" using assms(1) by (simp add: fetch_def)
  moreover have "int (nat (hf_maximum_redirects hf + 1)) = hf_maximum_redirects hf + 1"
    using assms(2) by (simp add: new_fetcher_def split: if_splits)
  ultimately show ?thesis using fetch_from_run True by (metis of_nat_mono)
qed

section \<open>What the fetcher returns\<close>

lemma read_body_Inr:
  "read_body maximum failure body chunks = Inr whole \<Longrightarrow>
     whole = body @ concat chunks \<and> failure = None \<and> (chunks \<noteq> [] \<longrightarrow> int (length whole) \<le> maximum)"
proof (induction maximum failure body chunks rule: read_body.induct)
  case (2 maximum failure body chunk chunks)
  then show ?case by (cases chunks) (auto split: if_splits option.splits)
qed (auto split: option.splits)

definition fetched :: "fetcher \<Rightarrow> string \<Rightarrow> response \<Rightarrow> RetrievalItem \<Rightarrow> bool" where
  "fetched hf url r i \<longleftrightarrow> rp_status r < 400 \<and> rp_status r \<notin> {301, 302, 303, 307, 308} \<and> rp_failure r = None \<and>
     supported_media_type (media_type_of r) \<and> int (length (concat (rp_chunks r))) \<le> hf_maximum_bytes hf \<and>
     hf_decode hf r (concat (rp_chunks r)) = Inr (it_content i) \<and>
     it_content_hash i = hf_sha256 hf (concat (rp_chunks r)) \<and>
     it_source i = url \<and> it_source_location i = url \<and> it_source_type i = ''web''"

lemma document_InrD:
  assumes "document hf url r n = (Inr i, n')" and "1 \<le> hf_maximum_bytes hf"
    and "rp_status r \<notin> {301, 302, 303, 307, 308}"
  shows "fetched hf url r i"
proof -
  have "\<exists>body. check_status r = Inr () \<and> supported_media_type (media_type_of r) \<and>
      read_body (hf_maximum_bytes hf) (rp_failure r) [] (rp_chunks r) = Inr body \<and>
      hf_decode hf r body = Inr (it_content i) \<and> it_content_hash i = hf_sha256 hf body \<and>
      it_source i = url \<and> it_source_location i = url \<and> it_source_type i = ''web''"
    using assms(1)
    by (auto simp: document_def bnd_def lift_sum_def raise_def on_world_def ids_new_def clock_now_def checked_def
        split: sum.splits if_splits)
  then obtain body where d: "check_status r = Inr ()" "supported_media_type (media_type_of r)"
    "read_body (hf_maximum_bytes hf) (rp_failure r) [] (rp_chunks r) = Inr body"
    "hf_decode hf r body = Inr (it_content i)" "it_content_hash i = hf_sha256 hf body"
    "it_source i = url" "it_source_location i = url" "it_source_type i = ''web''"
    by blast
  have "int (length body) \<le> hf_maximum_bytes hf"
    using read_body_Inr[OF d(3)] assms(2) by (cases "rp_chunks r = []") auto
  moreover have "rp_status r < 400" using d(1) by (auto simp: check_status_def split: if_splits)
  ultimately show ?thesis using d read_body_Inr[OF d(3)] assms(3) by (auto simp: fetched_def)
qed

lemma fetch_from_InrD:
  assumes "fetch_from hf left url n = (Inr i, n')" and "1 \<le> hf_maximum_bytes hf"
  shows "\<exists>k r es. nw_events n' = es @ [Requested (it_source i)] \<and> k = length es \<and>
    hf_reply hf k (it_source i) = Response r \<and> fetched hf (it_source i) r i"
  using assms(1)
proof (induction left arbitrary: url n)
  case 0
  then show ?case by (simp add: raise_def)
next
  case (Suc left)
  obtain v n1 where v: "validate_public_http_url (hf_policy hf) url n = (v, n1)" by fastforce
  show ?case
  proof (cases v)
    case (Inl e)
    then show ?thesis using Suc.prems v by (simp add: bnd_def)
  next
    case (Inr u)
    define n2 where "n2 = happens (Requested url) n1"
    have answer: "request hf url n1 = (Inr (hf_reply hf (length (nw_events n1)) url), n2)"
      by (simp add: request_def n2_def)
    show ?thesis
    proof (cases "hf_reply hf (length (nw_events n1)) url")
      case (Request_failed f)
      then show ?thesis using Suc.prems v Inr answer by (simp add: bnd_def raise_def)
    next
      case (Response rp)
      show ?thesis
      proof (cases "rp_status rp \<in> {301, 302, 303, 307, 308}")
        case False
        then have d: "document hf url rp n2 = (Inr i, n')" using Suc.prems v Inr answer Response by (simp add: bnd_def)
        have f: "fetched hf url rp i" by (rule document_InrD[OF d assms(2) False])
        then have "it_source i = url" by (simp add: fetched_def)
        then show ?thesis using f document_run[OF d] Response by (auto simp: n2_def)
      next
        case True
        then obtain location where "fetch_from hf left (hf_join hf url location) n2 = (Inr i, n')"
          using Suc.prems v Inr answer Response
          by (auto simp: bnd_def raise_def split: option.splits if_splits)
        then show ?thesis by (rule Suc.IH)
      qed
    qed
  qed
qed

text \<open>
  A fetched document is the answer to the last request: its source is the URL that was finally asked,
  its digest that of the whole body, its content that body decoded. The body ended properly, is no
  longer than \<open>maximum_bytes\<close>, and came with a status below 400 and a textual media type.
\<close>

lemma fetched_document:
  assumes "fetch hf url n = (Inr i, n')" and "new_fetcher hf = Inr hf"
  shows "\<exists>r es. nw_events n' = es @ [Requested (it_source i)] \<and>
    hf_reply hf (length es) (it_source i) = Response r \<and> fetched hf (it_source i) r i"
proof -
  have "fetch_from hf (nat (hf_maximum_redirects hf + 1)) url n = (Inr i, n')"
    using assms(1) by (simp add: fetch_def raise_def split: if_splits)
  moreover have "1 \<le> hf_maximum_bytes hf" using assms(2) by (simp add: new_fetcher_def split: if_splits)
  ultimately show ?thesis using fetch_from_InrD by blast
qed


section \<open>A redirected fetch\<close>

definition example_policy :: network_policy where
  "example_policy = \<lparr>np_netloc_ok = (\<lambda>_. True),
     np_resolve = (\<lambda>k host port. Addresses [Some (if host = ''inside'' then ''10.0.0.1'' else ''93.184.216.34'')]),
     np_is_global = (\<lambda>ip. Inr (ip \<noteq> ''10.0.0.1''))\<rparr>"

definition example_response :: "int \<Rightarrow> string option \<Rightarrow> string list \<Rightarrow> response" where
  "example_response status location chunks = \<lparr>rp_status = status, rp_location = location,
     rp_content_type = Some ''text/html; charset=utf-8'', rp_content_length = Some ''3'', rp_chunks = chunks,
     rp_failure = None\<rparr>"

definition example_fetcher :: fetcher where
  "example_fetcher = \<lparr>hf_policy = example_policy, hf_enabled = True, hf_maximum_bytes = 3, hf_timeout_seconds = 20,
     hf_maximum_redirects = 3,
     hf_reply = (\<lambda>k url. Response (
       if url = ''https://a/'' then example_response 302 (Some ''http://B:80/x'') []
       else if url = ''https://c/'' then example_response 302 (Some ''http://inside/x'') []
       else example_response 200 None [''hi'', ''!''])),
     hf_join = (\<lambda>base location. location), hf_decode = (\<lambda>r body. Inr body), hf_sha256 = id,
     hf_isoformat = (\<lambda>t. show_int t)\<rparr>"

definition start :: network where
  "start = \<lparr>nw_world = quiet_world empty_db, nw_events = []\<rparr>"

lemma example_fetch:
  "(case fetch example_fetcher ''https://a/'' start of
      (r, n') \<Rightarrow> (map_sum id (\<lambda>i. (it_source i, it_content i)) r, nw_events n')) =
   (Inr (''http://B:80/x'', ''hi!''),
    [Looked_up ''a'' 443, Requested ''https://a/'', Looked_up ''b'' 80, Requested ''http://B:80/x''])"
  by code_simp

text \<open>The redirect to a private address is looked up, and not followed.\<close>

lemma example_refused:
  "(case fetch example_fetcher ''https://c/'' start of (r, n') \<Rightarrow> (map_sum id it_source r, nw_events n')) =
   (Inl (Durable SecurityPolicyError), [Looked_up ''c'' 443, Requested ''https://c/'', Looked_up ''inside'' 80])"
  by code_simp

lemma example_fetcher_new: "new_fetcher example_fetcher = Inr example_fetcher"
  by (simp add: new_fetcher_def example_fetcher_def)

theorem fetch_reaches_public_hosts_witness:
  "\<exists>r n'. fetch example_fetcher ''https://a/'' start = (r, n') \<and> requests (nw_events n') = [''https://a/'', ''http://B:80/x''] \<and>
     screened example_policy 0 (nw_events n') \<and> only_network start n'"
proof -
  obtain r n' where run: "fetch example_fetcher ''https://a/'' start = (r, n')" by fastforce
  have "nw_events n' = [Looked_up ''a'' 443, Requested ''https://a/'', Looked_up ''b'' 80, Requested ''http://B:80/x'']"
    using example_fetch unfolding run by simp
  then show ?thesis
    using run fetch_reaches_public_hosts[OF run example_fetcher_new] by (simp add: example_fetcher_def start_def)
qed

lemma fetched_document_witness:
  "\<exists>i n' r. fetch example_fetcher ''https://a/'' start = (Inr i, n') \<and> fetched example_fetcher ''http://B:80/x'' r i \<and>
     it_content i = ''hi!''"
proof -
  obtain x n' where run: "fetch example_fetcher ''https://a/'' start = (x, n')" by fastforce
  have "map_sum id (\<lambda>i. (it_source i, it_content i)) x = Inr (''http://B:80/x'', ''hi!'')"
    using example_fetch unfolding run by simp
  then obtain i where i: "x = Inr i" "it_source i = ''http://B:80/x''" "it_content i = ''hi!''"
    by (cases x) auto
  then show ?thesis using run fetched_document[OF run[unfolded i(1)] example_fetcher_new] by auto
qed

end
