(* ===== verification/Path_Confinement.thy ===== *)
theory Path_Confinement
  imports Network_Policy
begin

text \<open>
  \<open>security/paths.py\<close>: the resolution of a path inside the approved root, over a file system with symbolic
  links. A path is the list of its names from \<open>/\<close>; \<open>approved\<close> is \<open>root.resolve(strict=True)\<close>, which the callers
  have. \<open>Path.resolve(strict=True)\<close> is the algorithm of \<open>posixpath.realpath\<close>, its recursion into the target of a
  link written as a list of the steps that are left.
\<close>

section \<open>The file system\<close>

datatype file_node = File_node | Dir_node | Link_node string

type_synonym path = "string list"
type_synonym file_system = "(path \<times> file_node) list"

definition inode_at :: "file_system \<Rightarrow> path \<Rightarrow> file_node option" where
  "inode_at fs p = (if p = [] then Some Dir_node else map_of fs p)"

fun split_char :: "char \<Rightarrow> string \<Rightarrow> string list" where
  "split_char c [] = [[]]"
| "split_char c (x # xs) =
     (if x = c then [] # split_char c xs else (x # hd (split_char c xs)) # tl (split_char c xs))"

text \<open>The names of a path: \<open>pathlib\<close> and \<open>realpath\<close> pass over empty names and \<open>.\<close>.\<close>

definition path_parts :: "string \<Rightarrow> string list" where
  "path_parts s = filter (\<lambda>n. n \<noteq> [] \<and> n \<noteq> ''.'') (split_char (CHR ''/'') s)"

definition is_absolute :: "string \<Rightarrow> bool" where
  "is_absolute s \<longleftrightarrow> starts_with ''/'' s"

section \<open>Resolving\<close>

datatype path_error = Os_error | Null_byte

datatype walk_step = Enter string | Leave_link path

definition unseen_links :: "file_system \<Rightarrow> (path \<times> path option) list \<Rightarrow> path set" where
  "unseen_links fs seen = {l \<in> fst ` set fs. map_of seen l = None}"

lemma unseen_finite [simp]: "finite (unseen_links fs seen)"
  by (simp add: unseen_links_def)

lemma unseen_shrinks:
  assumes "inode_at fs l = Some (Link_node target)" and "map_of seen l = None"
  shows "card (unseen_links fs ((l, x) # seen)) < card (unseen_links fs seen)"
proof (rule psubset_card_mono)
  have "map_of fs l = Some (Link_node target)" using assms(1) by (simp add: inode_at_def split: if_splits)
  then have "l \<in> fst ` set fs" by (metis map_of_SomeD image_eqI fst_conv)
  then have "l \<in> unseen_links fs seen" using assms(2) by (simp add: unseen_links_def)
  moreover have "l \<notin> unseen_links fs ((l, x) # seen)" by (simp add: unseen_links_def)
  moreover have "unseen_links fs ((l, x) # seen) \<subseteq> unseen_links fs seen"
    by (auto simp: unseen_links_def split: if_splits)
  ultimately show "unseen_links fs ((l, x) # seen) \<subset> unseen_links fs seen" by blast
qed simp

lemma unseen_mono: "card (unseen_links fs ((l, x) # seen)) \<le> card (unseen_links fs seen)"
  by (rule card_mono) (auto simp: unseen_links_def split: if_splits)

function realpath_from ::
  "file_system \<Rightarrow> (path \<times> path option) list \<Rightarrow> path \<Rightarrow> walk_step list \<Rightarrow> path_error + path" where
  "realpath_from fs seen path [] = Inr path"
| "realpath_from fs seen path (Leave_link link # steps) = realpath_from fs ((link, Some path) # seen) path steps"
| "realpath_from fs seen path (Enter name # steps) =
     (if name = ''..'' then realpath_from fs seen (butlast path) steps
      else if CHR 0x00 \<in> set name then Inl Null_byte
      else case inode_at fs (path @ [name]) of
        None \<Rightarrow> Inl Os_error
      | Some (Link_node target) \<Rightarrow> (case map_of seen (path @ [name]) of
            Some (Some p) \<Rightarrow> realpath_from fs seen p steps
          | Some None \<Rightarrow> Inl Os_error
          | None \<Rightarrow> realpath_from fs ((path @ [name], None) # seen) (if is_absolute target then [] else path)
              (map Enter (path_parts target) @ Leave_link (path @ [name]) # steps))
      | Some _ \<Rightarrow> realpath_from fs seen (path @ [name]) steps)"
  by pat_completeness auto

termination
  by (relation "measures [\<lambda>(fs, seen, path, steps). card (unseen_links fs seen), \<lambda>(fs, seen, path, steps). length steps]")
    (use unseen_mono unseen_shrinks in \<open>auto simp: le_less\<close>)

definition realpath :: "file_system \<Rightarrow> path \<Rightarrow> path_error + path" where
  "realpath fs names = realpath_from fs [] [] (map Enter names)"

section \<open>The guards\<close>

definition resolve_names :: "file_system \<Rightarrow> path \<Rightarrow> exn + path" where
  "resolve_names fs names = (case realpath fs names of
     Inl Os_error \<Rightarrow> Inl (Durable SecurityPolicyError)
   | Inl Null_byte \<Rightarrow> Inl ValueError
   | Inr p \<Rightarrow> Inr p)"

definition combined_names :: "path \<Rightarrow> string \<Rightarrow> path" where
  "combined_names approved candidate = (if is_absolute candidate then path_parts candidate else approved @ path_parts candidate)"

text \<open>\<open>must_exist\<close> resolves the whole path; otherwise the parent is resolved and the last name kept as it is.\<close>

definition resolve_candidate :: "file_system \<Rightarrow> path \<Rightarrow> string \<Rightarrow> bool \<Rightarrow> exn + path" where
  "resolve_candidate fs approved candidate must_exist =
     (let names = combined_names approved candidate in
      if must_exist then resolve_names fs names
      else map_sum id (\<lambda>parent. parent @ (if names = [] then [] else [last names])) (resolve_names fs (butlast names)))"

definition resolve_within_root :: "file_system \<Rightarrow> path \<Rightarrow> string \<Rightarrow> bool \<Rightarrow> bool \<Rightarrow> exn + path" where
  "resolve_within_root fs approved candidate must_exist allow_root =
     (case resolve_candidate fs approved candidate must_exist of
        Inl e \<Rightarrow> Inl e
      | Inr resolved \<Rightarrow>
          if take (length approved) resolved \<noteq> approved then Inl (Durable SecurityPolicyError)
          else if \<not> allow_root \<and> resolved = approved then Inl (Durable SecurityPolicyError)
          else Inr resolved)"

definition safe_relative_path :: "file_system \<Rightarrow> path \<Rightarrow> string \<Rightarrow> exn + string" where
  "safe_relative_path fs approved candidate =
     map_sum id (\<lambda>resolved. join_with ''/'' (drop (length approved) resolved)) (resolve_within_root fs approved candidate True False)"

definition reject_symlink :: "file_system \<Rightarrow> path \<Rightarrow> exn + unit" where
  "reject_symlink fs p = (case inode_at fs p of
     Some (Link_node target) \<Rightarrow> Inl (Durable SecurityPolicyError) | _ \<Rightarrow> Inr ())"

section \<open>Canonical paths\<close>

text \<open>A path is canonical when every name on it is there and none is a link or \<open>..\<close>.\<close>

definition plain :: "file_system \<Rightarrow> path \<Rightarrow> bool" where
  "plain fs p \<longleftrightarrow> last p \<noteq> ''..'' \<and> CHR 0x00 \<notin> set (last p) \<and>
     (inode_at fs p = Some File_node \<or> inode_at fs p = Some Dir_node)"

definition canonical :: "file_system \<Rightarrow> path \<Rightarrow> bool" where
  "canonical fs p \<longleftrightarrow> (\<forall>k < length p. plain fs (take (Suc k) p))"

lemma canonical_nil [simp]: "canonical fs []"
  by (simp add: canonical_def)

lemma canonical_snoc [simp]: "canonical fs (p @ [n]) \<longleftrightarrow> canonical fs p \<and> plain fs (p @ [n])"
  by (auto simp: canonical_def less_Suc_eq)

lemma canonical_butlast: "canonical fs p \<Longrightarrow> canonical fs (butlast p)"
  by (cases p rule: rev_cases) auto

definition seen_canonical :: "file_system \<Rightarrow> (path \<times> path option) list \<Rightarrow> bool" where
  "seen_canonical fs seen \<longleftrightarrow> (\<forall>l p. map_of seen l = Some (Some p) \<longrightarrow> canonical fs p)"

lemma realpath_from_canonical:
  "realpath_from fs seen path steps = Inr p \<Longrightarrow> canonical fs path \<Longrightarrow> seen_canonical fs seen \<Longrightarrow> canonical fs p"
proof (induction fs seen path steps rule: realpath_from.induct)
  case (2 fs seen path link steps)
  then show ?case by (simp add: seen_canonical_def)
next
  case (3 fs seen path name steps)
  show ?case
  proof (cases "name = ''..''")
    case True
    then show ?thesis using 3 canonical_butlast by simp
  next
    case False
    then have nul: "CHR 0x00 \<notin> set name" using "3.prems"(1) by (auto split: if_splits)
    obtain node where node: "inode_at fs (path @ [name]) = Some node"
      using "3.prems"(1) False nul by (auto split: option.splits)
    show ?thesis
    proof (cases node)
      case (Link_node target)
      show ?thesis
      proof (cases "map_of seen (path @ [name])")
        case None
        then have "canonical fs (if is_absolute target then [] else path)" "seen_canonical fs ((path @ [name], None) # seen)"
          using "3.prems" by (simp_all add: seen_canonical_def)
        then show ?thesis using "3.IH"(4)[OF False nul node Link_node None] "3.prems"(1) False nul node Link_node None by simp
      next
        case (Some q)
        then obtain r where "q = Some r" using "3.prems"(1) False nul node Link_node by (cases q) auto
        then show ?thesis
          using "3.IH"(5)[OF False nul node Link_node] "3.prems" False nul node Link_node Some
          by (auto simp: seen_canonical_def)
      qed
    qed (use 3 False nul node in \<open>auto simp: plain_def\<close>)
  qed
qed auto

lemma realpath_canonical: "realpath fs names = Inr p \<Longrightarrow> canonical fs p"
  unfolding realpath_def by (erule realpath_from_canonical) (simp_all add: seen_canonical_def)

text \<open>A canonical path resolves to itself, whatever has been seen and whatever is left to do.\<close>

lemma realpath_from_plain:
  "canonical fs (path @ names) \<Longrightarrow> realpath_from fs seen path (map Enter names @ steps) = realpath_from fs seen (path @ names) steps"
proof (induction names arbitrary: path)
  case (Cons name names)
  then have "plain fs (path @ [name])" by (force simp: canonical_def dest: spec[of _ "length path"])
  then show ?case using Cons.IH[of "path @ [name]"] Cons.prems by (auto simp: plain_def)
qed simp

lemma realpath_fixed: "canonical fs p \<Longrightarrow> realpath fs p = Inr p"
  using realpath_from_plain[of fs "[]" p "[]" "[]"] by (simp add: realpath_def)


lemma resolve_names_InrD: "resolve_names fs names = Inr p \<Longrightarrow> realpath fs names = Inr p"
  by (auto simp: resolve_names_def split: sum.splits path_error.splits)

lemma resolve_names_fixed: "canonical fs p \<Longrightarrow> resolve_names fs p = Inr p"
  by (simp add: resolve_names_def realpath_fixed)

lemma confined_InrD:
  assumes "resolve_within_root fs approved candidate must_exist allow_root = Inr p"
  shows "resolve_candidate fs approved candidate must_exist = Inr p \<and> take (length approved) p = approved \<and>
    (allow_root \<or> p \<noteq> approved)"
  using assms by (auto simp: resolve_within_root_def split: sum.splits if_splits)

lemma resolved_confined:
  assumes "resolve_within_root fs approved candidate True allow_root = Inr p"
  shows "(\<exists>names. p = approved @ names) \<and> canonical fs p"
proof -
  note run = confined_InrD[OF assms]
  then have "realpath fs (combined_names approved candidate) = Inr p"
    using resolve_names_InrD by (simp add: resolve_candidate_def Let_def)
  then have "canonical fs p" by (rule realpath_canonical)
  moreover have "p = approved @ drop (length approved) p" using run by (metis append_take_drop_id)
  ultimately show ?thesis by blast
qed

text \<open>
  C14. What \<open>resolve_within_root\<close> returns for an existing path lies at or below the root and contains neither
  links nor \<open>..\<close>, so that it names the same entry whoever opens it; it is the root itself only when
  that is allowed. For a path that need not exist, the parent has these properties, and the result
  lies below the root, provided that the last name of the candidate is not \<open>..\<close>.
\<close>

theorem resolved_paths_confined:
  assumes "resolve_within_root fs approved candidate must_exist allow_root = Inr p"
  shows "(\<exists>names. p = approved @ names) \<and> (allow_root \<or> p \<noteq> approved) \<and>
    (if must_exist then canonical fs p \<and> realpath fs p = Inr p
     else canonical fs (butlast p) \<and>
       (p \<noteq> approved \<and> last p \<noteq> ''..'' \<longrightarrow> (\<exists>names. butlast p = approved @ names)))"
proof -
  note run = confined_InrD[OF assms]
  then have below: "p = approved @ drop (length approved) p" by (metis append_take_drop_id)
  have in_root: "\<exists>names. butlast p = approved @ names" if "p \<noteq> approved"
  proof (cases "drop (length approved) p = []")
    case False
    then show ?thesis using below by (metis butlast_append)
  qed (use below that in simp)
  let ?names = "combined_names approved candidate"
  show ?thesis
  proof (cases must_exist)
    case True
    then have "canonical fs p" using resolved_confined[of fs approved candidate allow_root p] assms by simp
    then show ?thesis using True run below realpath_fixed by auto
  next
    case False
    then obtain parent where parent: "resolve_names fs (butlast ?names) = Inr parent"
      and p: "p = parent @ (if ?names = [] then [] else [last ?names])"
      using run by (auto simp: resolve_candidate_def Let_def map_sum_def split: sum.splits)
    have "canonical fs parent" by (rule realpath_canonical[OF resolve_names_InrD[OF parent]])
    then have "canonical fs (butlast p)" unfolding p by (simp add: canonical_butlast)
    then show ?thesis using False run below in_root by auto
  qed
qed

text \<open>
  C40. The proviso is needed: with \<open>must_exist=False\<close>, the candidate \<open>..\<close> passes, although the path returned
  leads to the parent of the root.
\<close>

theorem parent_passes_confinement:
  assumes "canonical fs approved" and "approved \<noteq> []"
  shows "resolve_within_root fs approved ''..'' False allow_root = Inr (approved @ [''..'']) \<and>
    realpath fs (approved @ [''..'']) = Inr (butlast approved) \<and> butlast approved \<noteq> approved"
proof -
  have parts: "combined_names approved ''..'' = approved @ [''..'']"
    by (simp add: combined_names_def is_absolute_def starts_with_def path_parts_def)
  have "resolve_candidate fs approved ''..'' False = Inr (approved @ [''..''])"
    by (simp add: resolve_candidate_def parts resolve_names_fixed[OF assms(1)])
  moreover have "realpath fs (approved @ [''..'']) = Inr (butlast approved)"
    using realpath_from_plain[of fs "[]" approved "[]" "[Enter ''..'']"] assms(1) by (simp add: realpath_def)
  moreover have "butlast approved \<noteq> approved"
    using assms(2) by (metis append_butlast_last_id not_Cons_self2 self_append_conv)
  ultimately show ?thesis by (simp add: resolve_within_root_def)
qed

text \<open>Below \<open>/r\<close>: a file, a link to it through \<open>..\<close>, a link out of the root, and a link to itself.\<close>

definition example_fs :: file_system where
  "example_fs = [([''r''], Dir_node), ([''r'', ''d''], Dir_node), ([''r'', ''d'', ''f''], File_node),
     ([''r'', ''l''], Link_node ''./d/../d/f''), ([''r'', ''out''], Link_node ''/etc''), ([''r'', ''me''], Link_node ''me''),
     ([''etc''], Dir_node), ([''etc'', ''passwd''], File_node)]"

lemma example_paths:
  "resolve_within_root example_fs [''r''] ''l'' True False = Inr [''r'', ''d'', ''f'']"
  "resolve_within_root example_fs [''r''] ''out/passwd'' True False = Inl (Durable SecurityPolicyError)"
  "resolve_within_root example_fs [''r''] ''../etc/passwd'' True False = Inl (Durable SecurityPolicyError)"
  "resolve_within_root example_fs [''r''] ''me'' True False = Inl (Durable SecurityPolicyError)"
  "resolve_within_root example_fs [''r''] ''.'' True False = Inl (Durable SecurityPolicyError)"
  "resolve_within_root example_fs [''r''] ''d/new'' False False = Inr [''r'', ''d'', ''new'']"
  "resolve_within_root example_fs [''r''] ''out/new'' False False = Inl (Durable SecurityPolicyError)"
  "safe_relative_path example_fs [''r''] ''/r/l'' = Inr ''d/f''"
  by code_simp+

theorem resolved_paths_confined_witness:
  "resolve_within_root example_fs [''r''] ''l'' True False = Inr [''r'', ''d'', ''f''] \<and>
   canonical example_fs [''r'', ''d'', ''f''] \<and> (\<exists>names. [''r'', ''d'', ''f''] = [''r''] @ names)"
  using resolved_paths_confined[OF example_paths(1)] example_paths(1) by simp

theorem parent_passes_confinement_witness:
  "canonical example_fs [''r''] \<and> resolve_within_root example_fs [''r''] ''..'' False False = Inr [''r'', ''..'']"
proof -
  have "canonical example_fs [''r'']" by (simp add: canonical_def plain_def example_fs_def inode_at_def)
  then show ?thesis using parent_passes_confinement[of example_fs "[''r'']" False] by simp
qed

end
