(* ===== verification/Process_Tools.thy ===== *)
theory Process_Tools
  imports Path_Confinement "HOL-Library.AList"
begin

text \<open>
  \<open>tools/subprocess.py\<close>: running an allowlisted command and running the tests. The children are the
  parameters of \<open>process_env\<close>: the \<open>n\<close>-th one started writes the given chunks, and its exit status is known or
  not at the points where the code looks. The state is the list of what has been done to processes.
\<close>

record child =
  ch_stdout :: "string list"
  ch_stderr :: "string list"
  ch_closes_in_time :: bool
  ch_status :: "int option"
  ch_wait_ends :: bool
  ch_late_status :: "int option"

record spawn =
  sp_name :: string
  sp_executable :: string
  sp_arguments :: "string list"
  sp_cwd :: path
  sp_environment :: "(string \<times> string) list"

datatype process_event = Spawned spawn | Killed

text \<open>\<open>create_subprocess_exec\<close> can fail with an \<open>OSError\<close> before there is a child.\<close>

datatype tool_exn = Raised exn | Index_error | Spawn_error

record process_env =
  pe_files :: file_system
  pe_root :: path
  pe_allowed_commands :: "string set"
  pe_allowed_environment_variables :: "string set"
  pe_maximum_output :: int
  pe_environ :: "(string \<times> string) list"
  pe_which :: "string \<Rightarrow> string option"
  pe_child :: "nat \<Rightarrow> child option"
  pe_decode :: "string \<Rightarrow> string"
  pe_py_str :: "json \<Rightarrow> string"

type_synonym 'a process = "(process_event list, tool_exn, 'a) act"

section \<open>Output\<close>

text \<open>\<open>_read_bounded\<close> keeps what fits and reads on to the end, so that the child never blocks.\<close>

fun read_bounded :: "int \<Rightarrow> int \<Rightarrow> bool \<Rightarrow> string list \<Rightarrow> string list \<times> bool" where
  "read_bounded maximum stored truncated [] = ([], truncated)"
| "read_bounded maximum stored truncated (chunk # chunks) =
     (if chunk = [] then ([], truncated)
      else
        let remaining = maximum - stored; over = (truncated \<or> remaining < int (length chunk)) in
        if 0 < remaining
        then (case read_bounded maximum (stored + min (int (length chunk)) remaining) over chunks of
                (kept, t) \<Rightarrow> (py_take remaining chunk # kept, t))
        else read_bounded maximum stored over chunks)"

definition bounded_output :: "process_env \<Rightarrow> string list \<Rightarrow> string \<times> bool" where
  "bounded_output env chunks = (case read_bounded (pe_maximum_output env) 0 False chunks of
     (kept, truncated) \<Rightarrow> (concat kept, truncated))"

definition command_environment :: "process_env \<Rightarrow> (string \<times> string) list" where
  "command_environment env = filter (\<lambda>(key, val). key \<in> pe_allowed_environment_variables env) (pe_environ env)"

section \<open>Running a command\<close>

definition json_text :: "json \<Rightarrow> string option" where
  "json_text j = (case j of JStr s \<Rightarrow> Some s | _ \<Rightarrow> None)"

definition json_texts :: "json \<Rightarrow> string list option" where
  "json_texts j = (case j of JArr js \<Rightarrow> those (map json_text js) | _ \<Rightarrow> None)"

definition base_name :: "string \<Rightarrow> string" where
  "base_name s = (let names = path_parts s in if names = [] then [] else last names)"

definition fail :: "error_class \<Rightarrow> 'a process" where
  "fail e = raise (Raised (Durable e))"

text \<open>The checks, in order: the form of \<open>argv\<close>, the allowlist, the executable, the working directory.\<close>

definition command_of :: "process_env \<Rightarrow> json \<Rightarrow> tool_exn + string list" where
  "command_of env arguments = (case jget ''argv'' arguments of
     None \<Rightarrow> Inl (Raised KeyError)
   | Some raw \<Rightarrow> (case json_texts raw of
       None \<Rightarrow> Inl (Raised (Durable ToolExecutionError))
     | Some [] \<Rightarrow> Inl Index_error
     | Some (name # rest) \<Rightarrow>
         if base_name name \<noteq> name \<or> name \<notin> pe_allowed_commands env
         then Inl (Raised (Durable SecurityPolicyError)) else Inr (name # rest)))"

definition working_directory :: "process_env \<Rightarrow> json \<Rightarrow> exn + path" where
  "working_directory env arguments =
     (let cwd = (case jget ''cwd'' arguments of None \<Rightarrow> ''.'' | Some (JStr s) \<Rightarrow> s | Some j \<Rightarrow> pe_py_str env j) in
      case resolve_within_root (pe_files env) (pe_root env) cwd True True of
        Inl e \<Rightarrow> Inl e
      | Inr p \<Rightarrow> if inode_at (pe_files env) p = Some Dir_node then Inr p else Inl (Durable ToolExecutionError))"

definition spawn_child :: "process_env \<Rightarrow> spawn \<Rightarrow> child process" where
  "spawn_child env s = (\<lambda>h. case pe_child env (length h) of
     None \<Rightarrow> (Inl Spawn_error, h) | Some c \<Rightarrow> (Inr c, h @ [Spawned s]))"

text \<open>\<open>_terminate\<close> kills the child unless its exit status is known.\<close>

definition terminate :: "int option \<Rightarrow> unit process" where
  "terminate status = (\<lambda>h. (Inr (), if status = None then h @ [Killed] else h))"

definition await_status :: "child \<Rightarrow> int process" where
  "await_status c =
     (if \<not> ch_closes_in_time c then bnd (terminate (ch_status c)) (\<lambda>_. fail OperationTimeoutError)
      else case ch_status c of
        Some code \<Rightarrow> ret code
      | None \<Rightarrow> (case ch_late_status c of
          Some code \<Rightarrow> ret code
        | None \<Rightarrow>
            if \<not> ch_wait_ends c then bnd (terminate None) (\<lambda>_. fail OperationTimeoutError)
            else fail ToolExecutionError))"

definition command_output :: "process_env \<Rightarrow> string list \<Rightarrow> child \<Rightarrow> int \<Rightarrow> json" where
  "command_output env argv c code =
     (let (out, out_cut) = bounded_output env (ch_stdout c); (err, err_cut) = bounded_output env (ch_stderr c) in
      JObj [(''argv'', JArr (map JStr argv)), (''exit_code'', JInt code), (''stdout'', JStr (pe_decode env out)),
        (''stderr'', JStr (pe_decode env err)), (''truncated'', JBool (out_cut \<or> err_cut))])"

definition run_command :: "process_env \<Rightarrow> (string \<times> string) list \<Rightarrow> json \<Rightarrow> json process" where
  "run_command env environment arguments =
     bnd (lift_sum (command_of env arguments)) (\<lambda>argv.
     case pe_which env (hd argv) of
       None \<Rightarrow> fail ToolExecutionError
     | Some executable \<Rightarrow>
         bnd (lift_sum (map_sum Raised id (working_directory env arguments))) (\<lambda>cwd.
         bnd (spawn_child env \<lparr>sp_name = hd argv, sp_executable = executable, sp_arguments = tl argv, sp_cwd = cwd,
            sp_environment = environment\<rparr>) (\<lambda>c.
         bnd (await_status c) (\<lambda>code.
         ret (command_output env argv c code)))))"

definition shell_execute :: "process_env \<Rightarrow> json \<Rightarrow> json process" where
  "shell_execute env arguments = run_command env (command_environment env) arguments"

section \<open>Running the tests\<close>

definition item_text :: "process_env \<Rightarrow> json \<Rightarrow> string" where
  "item_text env j = (case j of JStr s \<Rightarrow> s | _ \<Rightarrow> pe_py_str env j)"

definition permits_tests :: "process_env \<Rightarrow> json option \<Rightarrow> bool" where
  "permits_tests env argv = (case argv of
     Some (JArr (first # rest)) \<Rightarrow>
       base_name (item_text env first) = ''pytest'' \<or>
       (2 \<le> length rest \<and> base_name (item_text env first) \<in> {''python'', ''python3''} \<and>
        take 2 rest = [JStr ''-m'', JStr ''pytest''])
   | _ \<Rightarrow> False)"

definition tests_environment :: "process_env \<Rightarrow> (string \<times> string) list" where
  "tests_environment env = AList.update ''PYTEST_DISABLE_PLUGIN_AUTOLOAD'' ''1'' (command_environment env)"

definition tests_execute :: "process_env \<Rightarrow> json \<Rightarrow> json process" where
  "tests_execute env arguments =
     (if \<not> permits_tests env (jget ''argv'' arguments) then fail SecurityPolicyError
      else run_command env (tests_environment env) arguments)"

section \<open>Bounds\<close>

lemma read_bounded_full:
  "[] \<notin> set chunks \<Longrightarrow> maximum \<le> stored \<Longrightarrow>
     read_bounded maximum stored truncated chunks = ([], truncated \<or> chunks \<noteq> [])"
proof (induction chunks arbitrary: truncated)
  case (Cons chunk chunks)
  then have "maximum - stored < int (length chunk)" by (cases chunk) auto
  then show ?case using Cons by auto
qed simp

lemma read_bounded_spec:
  "[] \<notin> set chunks \<Longrightarrow> stored \<le> maximum \<Longrightarrow>
     (case read_bounded maximum stored truncated chunks of (kept, t) \<Rightarrow>
        concat kept = take (nat (maximum - stored)) (concat chunks) \<and>
        (t \<longleftrightarrow> truncated \<or> maximum - stored < int (length (concat chunks))))"
proof (induction maximum stored truncated chunks rule: read_bounded.induct)
  case (2 maximum stored truncated chunk chunks)
  let ?remaining = "maximum - stored"
  show ?case
  proof (cases "int (length chunk) < ?remaining")
    case True
    then have "nat ?remaining - length chunk = nat (maximum - (stored + int (length chunk)))" by linarith
    obtain kept t where rest: "read_bounded maximum (stored + int (length chunk)) truncated chunks = (kept, t)"
      by fastforce
    have "concat kept = take (nat (maximum - (stored + int (length chunk)))) (concat chunks) \<and>
        (t \<longleftrightarrow> truncated \<or> maximum - (stored + int (length chunk)) < int (length (concat chunks)))"
      using "2.IH"(1)[OF _ refl refl] "2.prems" True rest by auto
    then show ?thesis
      using "2.prems" True rest \<open>nat ?remaining - length chunk = _\<close> by (auto simp: Let_def py_take_def)
  next
    case False
    have stop: "read_bounded maximum (stored + min (int (length chunk)) ?remaining) over chunks = ([], over \<or> chunks \<noteq> [])"
      for over using 2(3) False by (intro read_bounded_full) auto
    define total where "total = int (length (concat chunks))"
    have "chunks \<noteq> [] \<longleftrightarrow> concat chunks \<noteq> []" using 2(3) by (cases chunks) auto
    have nonneg: "0 \<le> total" unfolding total_def by (rule of_nat_0_le_iff)
    from \<open>chunks \<noteq> [] \<longleftrightarrow> _\<close> have "chunks \<noteq> [] \<longleftrightarrow> 0 < total" unfolding total_def by (simp only: of_nat_0_less_iff length_greater_0_conv)
    then have cut: "((truncated \<or> ?remaining < int (length chunk)) \<or> chunks \<noteq> []) =
        (truncated \<or> ?remaining < int (length chunk) + total)"
      using False nonneg by auto
    have "take (nat ?remaining) (concat (chunk # chunks)) = take (nat ?remaining) chunk" using False by simp
    moreover have "chunk \<noteq> []" using 2(3) by auto
    ultimately show ?thesis
      using 2(3,4) False read_bounded_full[of chunks maximum stored] stop cut
      by (cases "0 < ?remaining") (simp_all add: Let_def py_take_def total_def[symmetric] del: length_concat)
  qed
qed simp


section \<open>What is started\<close>

text \<open>
  A lawful start: the bare name of an allowed command, the executable found for it, a directory of the file
  system at or below the root that no link leads out of.
\<close>

definition lawful_spawn :: "process_env \<Rightarrow> spawn \<Rightarrow> bool" where
  "lawful_spawn env s \<longleftrightarrow> sp_name s \<in> pe_allowed_commands env \<and> base_name (sp_name s) = sp_name s \<and>
     pe_which env (sp_name s) = Some (sp_executable s) \<and> (\<exists>names. sp_cwd s = pe_root env @ names) \<and>
     canonical (pe_files env) (sp_cwd s) \<and> inode_at (pe_files env) (sp_cwd s) = Some Dir_node"

lemma command_of_InrD:
  assumes "command_of env arguments = Inr argv"
  shows "argv \<noteq> [] \<and> hd argv \<in> pe_allowed_commands env \<and> base_name (hd argv) = hd argv \<and>
    (\<exists>raw. jget ''argv'' arguments = Some raw \<and> json_texts raw = Some argv)"
  using assms by (auto simp: command_of_def split: option.splits list.splits if_splits)

lemma json_texts_Cons:
  assumes "json_texts raw = Some (t # ts)"
  shows "\<exists>first rest. raw = JArr (first # rest) \<and> json_text first = Some t \<and> those (map json_text rest) = Some ts"
proof -
  obtain js where js: "raw = JArr js" "those (map json_text js) = Some (t # ts)"
    using assms by (cases raw) (auto simp: json_texts_def)
  then show ?thesis by (cases js) (auto split: option.splits)
qed

lemma working_directory_InrD:
  assumes "working_directory env arguments = Inr p"
  shows "(\<exists>names. p = pe_root env @ names) \<and> canonical (pe_files env) p \<and> inode_at (pe_files env) p = Some Dir_node"
proof -
  obtain cwd where "resolve_within_root (pe_files env) (pe_root env) cwd True True = Inr p"
    and "inode_at (pe_files env) p = Some Dir_node"
    using assms by (auto simp: working_directory_def Let_def split: sum.splits if_splits)
  then show ?thesis using resolved_confined by auto
qed

lemma await_status_run:
  assumes "await_status c h = (r, h')"
  shows "(h' = h \<or> h' = h @ [Killed]) \<and>
    (case r of Inr code \<Rightarrow> h' = h \<and> ch_closes_in_time c \<and> (ch_status c = Some code \<or> ch_late_status c = Some code)
     | Inl e \<Rightarrow> e = Raised (Durable OperationTimeoutError) \<or> e = Raised (Durable ToolExecutionError))"
  using assms
  by (auto simp: await_status_def bnd_def terminate_def fail_def raise_def ret_def split: if_splits option.splits)

definition answers :: "process_env \<Rightarrow> string list \<Rightarrow> child \<Rightarrow> json \<Rightarrow> bool" where
  "answers env argv c output \<longleftrightarrow> ch_closes_in_time c \<and>
     (\<exists>code. (ch_status c = Some code \<or> ch_late_status c = Some code) \<and> output = command_output env argv c code)"

lemma run_command_run:
  assumes "run_command env environment arguments h = (r, h')"
  shows "(h' = h \<and> (\<exists>e. r = Inl e)) \<or>
    (\<exists>s c. lawful_spawn env s \<and> sp_environment s = environment \<and> pe_child env (length h) = Some c \<and>
       (\<exists>raw. jget ''argv'' arguments = Some raw \<and> json_texts raw = Some (sp_name s # sp_arguments s)) \<and>
       (case r of
          Inr output \<Rightarrow> h' = h @ [Spawned s] \<and> answers env (sp_name s # sp_arguments s) c output
        | Inl e \<Rightarrow> h' = h @ [Spawned s] \<or> h' = h @ [Spawned s, Killed]))"
proof (cases "command_of env arguments")
  case (Inl e)
  then show ?thesis using assms by (auto simp: run_command_def bnd_def lift_sum_def)
next
  case (Inr argv)
  note argv = command_of_InrD[OF Inr]
  show ?thesis
  proof (cases "pe_which env (hd argv)")
    case None
    then show ?thesis using assms Inr by (auto simp: run_command_def bnd_def lift_sum_def fail_def raise_def)
  next
    case (Some executable)
    show ?thesis
    proof (cases "working_directory env arguments")
      case (Inl e)
      then show ?thesis using assms Inr Some \<open>command_of env arguments = Inr argv\<close>
        by (auto simp: run_command_def bnd_def lift_sum_def)
    next
      case cwd: (Inr cwd)
      define s where "s = \<lparr>sp_name = hd argv, sp_executable = executable, sp_arguments = tl argv, sp_cwd = cwd,
        sp_environment = environment\<rparr>"
      have lawful: "lawful_spawn env s" and words: "sp_name s # sp_arguments s = argv"
        using argv Some working_directory_InrD[OF cwd] by (simp_all add: lawful_spawn_def s_def)
      show ?thesis
      proof (cases "pe_child env (length h)")
        case None
        then show ?thesis using assms Inr Some cwd
          by (auto simp: run_command_def bnd_def lift_sum_def spawn_child_def)
      next
        case child: (Some c)
        obtain q h1 where status: "await_status c (h @ [Spawned s]) = (q, h1)" by fastforce
        have run: "(r, h') = (case q of Inl e \<Rightarrow> (Inl e, h1) | Inr code \<Rightarrow> (Inr (command_output env argv c code), h1))"
          using assms Inr Some cwd child status
          by (simp add: run_command_def bnd_def lift_sum_def spawn_child_def ret_def s_def split: sum.splits)
        have "case r of Inr output \<Rightarrow> h' = h @ [Spawned s] \<and> answers env argv c output
            | Inl e \<Rightarrow> h' = h @ [Spawned s] \<or> h' = h @ [Spawned s, Killed]"
          using run await_status_run[OF status] by (auto simp: answers_def split: sum.splits)
        moreover have "sp_environment s = environment" by (simp add: s_def)
        ultimately show ?thesis using lawful child argv words by blast
      qed
    qed
  qed
qed

lemma bounded_output_spec:
  assumes "[] \<notin> set chunks" and "0 \<le> pe_maximum_output env"
  shows "bounded_output env chunks = (take (nat (pe_maximum_output env)) (concat chunks),
    pe_maximum_output env < int (length (concat chunks)))"
  using read_bounded_spec[OF assms, of False] by (auto simp: bounded_output_def split: prod.splits)

text \<open>
  C15. The command runner starts at most one child per call: an allowed command given by its bare name, in a
  directory at or below the root that is reached without links, with allowed environment variables
  only. It answers with the exit code and exactly the first \<open>maximum_output_bytes\<close> bytes of each stream,
  marked as truncated if and only if something was cut; otherwise it fails, and no child is started
  before every check has passed.
\<close>

theorem shell_runs_allowed_commands:
  assumes run: "shell_execute env arguments h = (r, h')"
    and written: "\<And>c. pe_child env (length h) = Some c \<Longrightarrow> [] \<notin> set (ch_stdout c) \<union> set (ch_stderr c)"
    and bound: "0 \<le> pe_maximum_output env"
  shows "(h' = h \<and> (\<exists>e. r = Inl e)) \<or>
    (\<exists>s c. lawful_spawn env s \<and> fst ` set (sp_environment s) \<subseteq> pe_allowed_environment_variables env \<and>
       pe_child env (length h) = Some c \<and>
       (case r of
          Inl e \<Rightarrow> h' = h @ [Spawned s] \<or> h' = h @ [Spawned s, Killed]
        | Inr output \<Rightarrow> h' = h @ [Spawned s] \<and>
            (\<exists>code. output = JObj [(''argv'', JArr (map JStr (sp_name s # sp_arguments s))), (''exit_code'', JInt code),
               (''stdout'', JStr (pe_decode env (take (nat (pe_maximum_output env)) (concat (ch_stdout c))))),
               (''stderr'', JStr (pe_decode env (take (nat (pe_maximum_output env)) (concat (ch_stderr c))))),
               (''truncated'', JBool (pe_maximum_output env < int (length (concat (ch_stdout c))) \<or>
                  pe_maximum_output env < int (length (concat (ch_stderr c)))))])))"
proof (cases "h' = h \<and> (\<exists>e. r = Inl e)")
  case False
  then obtain s c where s: "lawful_spawn env s" "sp_environment s = command_environment env"
    "pe_child env (length h) = Some c"
    "case r of Inr output \<Rightarrow> h' = h @ [Spawned s] \<and> answers env (sp_name s # sp_arguments s) c output
     | Inl e \<Rightarrow> h' = h @ [Spawned s] \<or> h' = h @ [Spawned s, Killed]"
    using run_command_run[OF run[unfolded shell_execute_def]] by blast
  have "fst ` set (sp_environment s) \<subseteq> pe_allowed_environment_variables env"
    by (auto simp: s(2) command_environment_def)
  moreover have "bounded_output env (ch_stdout c) = (take (nat (pe_maximum_output env)) (concat (ch_stdout c)),
      pe_maximum_output env < int (length (concat (ch_stdout c))))"
    and "bounded_output env (ch_stderr c) = (take (nat (pe_maximum_output env)) (concat (ch_stderr c)),
      pe_maximum_output env < int (length (concat (ch_stderr c))))"
    using bounded_output_spec written[OF s(3)] bound by auto
  ultimately show ?thesis
    using s by (intro disjI2 exI[of _ s] exI[of _ c])
      (auto simp: answers_def command_output_def simp del: length_concat split: sum.splits)
qed simp

text \<open>
  The test runner starts nothing but pytest, directly or as a module of Python, with plugin loading
  switched off.
\<close>

lemma test_runner_starts_pytest_only:
  assumes run: "tests_execute env arguments h = (r, h')"
  shows "h' = h \<or> (\<exists>s. (h' = h @ [Spawned s] \<or> h' = h @ [Spawned s, Killed]) \<and> lawful_spawn env s \<and>
    (sp_name s = ''pytest'' \<or>
     sp_name s \<in> {''python'', ''python3''} \<and> take 2 (sp_arguments s) = [''-m'', ''pytest'']) \<and>
    map_of (sp_environment s) ''PYTEST_DISABLE_PLUGIN_AUTOLOAD'' = Some ''1'')"
proof (cases "permits_tests env (jget ''argv'' arguments)")
  case False
  then show ?thesis using run by (simp add: tests_execute_def fail_def raise_def)
next
  case True
  then have "run_command env (tests_environment env) arguments h = (r, h')" using run by (simp add: tests_execute_def)
  then consider "h' = h" | s raw where "lawful_spawn env s" "sp_environment s = tests_environment env"
      "jget ''argv'' arguments = Some raw" "json_texts raw = Some (sp_name s # sp_arguments s)"
      "h' = h @ [Spawned s] \<or> h' = h @ [Spawned s, Killed]"
    using run_command_run by (fastforce split: sum.splits)
  then show ?thesis
  proof cases
    case (2 s raw)
    obtain first rest where raw: "raw = JArr (first # rest)" "json_text first = Some (sp_name s)"
      "those (map json_text rest) = Some (sp_arguments s)"
      using json_texts_Cons[OF 2(4)] by blast
    have "sp_name s = ''pytest'' \<or> sp_name s \<in> {''python'', ''python3''} \<and> take 2 rest = [JStr ''-m'', JStr ''pytest'']"
      using True 2(1,3) raw(1,2)
      by (auto simp: permits_tests_def lawful_spawn_def item_text_def json_text_def split: json.splits)
    moreover have "take 2 (sp_arguments s) = [''-m'', ''pytest'']" if "take 2 rest = [JStr ''-m'', JStr ''pytest'']"
    proof -
      have "rest = JStr ''-m'' # JStr ''pytest'' # drop 2 rest"
        using append_take_drop_id[of 2 rest] unfolding that by simp
      then have "those (map json_text (JStr ''-m'' # JStr ''pytest'' # drop 2 rest)) = Some (sp_arguments s)"
        using raw(3) by metis
      then obtain tail where "''-m'' # ''pytest'' # tail = sp_arguments s" by (auto simp: json_text_def)
      then show ?thesis by (metis take_Suc_Cons take0 numeral_2_eq_2)
    qed
    moreover have "map_of (sp_environment s) ''PYTEST_DISABLE_PLUGIN_AUTOLOAD'' = Some ''1''"
      by (simp add: 2(2) tests_environment_def update_Some_unfold)
    ultimately show ?thesis using 2 by blast
  qed simp
qed


definition example_processes :: process_env where
  "example_processes = \<lparr>pe_files = example_fs, pe_root = [''r''], pe_allowed_commands = {''pytest'', ''ls''},
     pe_allowed_environment_variables = {''PATH''}, pe_maximum_output = 5,
     pe_environ = [(''PATH'', ''/bin''), (''TOKEN'', ''t'')], pe_which = (\<lambda>name. Some (''/bin/'' @ name)),
     pe_child = (\<lambda>n. Some \<lparr>ch_stdout = [''abc'', ''def''], ch_stderr = [''e''], ch_closes_in_time = True,
       ch_status = None, ch_wait_ends = True, ch_late_status = Some 0\<rparr>), pe_decode = id, pe_py_str = canonical_json\<rparr>"

definition example_command :: "string \<Rightarrow> json" where
  "example_command name = JObj [(''argv'', JArr [JStr name, JStr ''-q'']), (''cwd'', JStr ''d'')]"

definition example_spawn :: "string \<Rightarrow> (string \<times> string) list \<Rightarrow> spawn" where
  "example_spawn name environment = \<lparr>sp_name = name, sp_executable = ''/bin/'' @ name, sp_arguments = [''-q''],
     sp_cwd = [''r'', ''d''], sp_environment = environment\<rparr>"

lemma example_runs:
  "shell_execute example_processes (example_command ''ls'') [] =
     (Inr (JObj [(''argv'', JArr [JStr ''ls'', JStr ''-q'']), (''exit_code'', JInt 0), (''stdout'', JStr ''abcde''),
        (''stderr'', JStr ''e''), (''truncated'', JBool True)]), [Spawned (example_spawn ''ls'' [(''PATH'', ''/bin'')])])"
  "shell_execute example_processes (example_command ''rm'') [] = (Inl (Raised (Durable SecurityPolicyError)), [])"
  "tests_execute example_processes (example_command ''ls'') [] = (Inl (Raised (Durable SecurityPolicyError)), [])"
  "snd (tests_execute example_processes (example_command ''pytest'') []) =
     [Spawned (example_spawn ''pytest'' [(''PATH'', ''/bin''), (''PYTEST_DISABLE_PLUGIN_AUTOLOAD'', ''1'')])]"
  by code_simp+

theorem shell_runs_allowed_commands_witness:
  "\<exists>r h'. shell_execute example_processes (example_command ''ls'') [] = (r, h') \<and> h' \<noteq> [] \<and>
     (\<exists>s. lawful_spawn example_processes s \<and> fst ` set (sp_environment s) \<subseteq> {''PATH''})"
proof -
  have "[] \<notin> set (ch_stdout c) \<union> set (ch_stderr c)" if "pe_child example_processes (length []) = Some c" for c
    using that by (auto simp: example_processes_def)
  moreover have "0 \<le> pe_maximum_output example_processes" by (simp add: example_processes_def)
  moreover have "pe_allowed_environment_variables example_processes = {''PATH''}" by (simp add: example_processes_def)
  ultimately show ?thesis
    using shell_runs_allowed_commands[OF example_runs(1)] example_runs(1) by auto
qed

lemma test_runner_starts_pytest_only_witness:
  "\<exists>r h' s. tests_execute example_processes (example_command ''pytest'') [] = (r, h') \<and> h' = [Spawned s] \<and>
     lawful_spawn example_processes s \<and> sp_name s = ''pytest''"
proof -
  obtain r h' where run: "tests_execute example_processes (example_command ''pytest'') [] = (r, h')" by fastforce
  moreover have "h' = [Spawned (example_spawn ''pytest'' [(''PATH'', ''/bin''), (''PYTEST_DISABLE_PLUGIN_AUTOLOAD'', ''1'')])]"
    using example_runs(4) run by simp
  ultimately show ?thesis using test_runner_starts_pytest_only[OF run] by (auto simp: example_spawn_def)
qed

end
