(* ===== verification/Http_Interface.thy ===== *)
theory Http_Interface
  imports Application Retrieval
begin

text \<open>
  \<open>api/app.py\<close> and \<open>api/schemas.py\<close>: the routes of the HTTP interface, the authentication they depend on,
  and the answers to errors. A request is what the web framework makes of it: the headers, the path and
  query parameters and the typed body; the framework resolves the dependencies before it reports
  malformed parameters. The state of the process is the world of the service.
\<close>

section \<open>Requests and responses\<close>

record CreateRunRequest =
  cq_objective :: string
  cq_repository_path :: "string option"
  cq_auto_advance :: bool

datatype route = Health | Ready
  | Create_Run CreateRunRequest
  | List_Runs
  | Get_Run string
  | Get_Plan string
  | Get_Tasks string
  | Post_Pause string string
  | Post_Resume string "int option"
  | Post_Cancel string string
  | Get_Checkpoints string
  | Get_Evidence string
  | Get_Report string string

record http_request =
  hr_authorization :: "string option"
  hr_owner :: "string option"
  hr_idempotency_key :: "string option"
  hr_route :: route

datatype payload = Detail string
  | Error_Payload ErrorCategory
  | Run_Payload RunRecord
  | Runs_Payload "RunRecord list"
  | Plan_Payload PlanSpec
  | Tasks_Payload "TaskRecord list"
  | Lifecycle_Payload LifecycleRequest
  | Views_Payload "json list"
  | Evidence_Payload "EvidenceRecord list"
  | Text_Payload string string

record http_response =
  hs_status :: int
  hs_payload :: payload

abbreviation respond :: "int \<Rightarrow> payload \<Rightarrow> http_response" where
  "respond code p \<equiv> \<lparr>hs_status = code, hs_payload = p\<rparr>"

text \<open>\<open>hc_reason\<close> is the text of an exception of a checkpoint, \<open>hc_ready\<close> the state of the database.\<close>

record http_env =
  hc_settings :: AppSettings
  hc_service :: service_env
  hc_reason :: "string \<Rightarrow> string"
  hc_ready :: "world \<Rightarrow> bool"

text \<open>\<open>create_app\<close> refuses to start a production service without authentication.\<close>

definition create_app :: "http_env \<Rightarrow> exn + http_env" where
  "create_app cfg =
     (if as_environment (hc_settings cfg) = Production \<and> \<not> as_require_api_authentication (hc_settings cfg)
      then Inl ValueError else Inr cfg)"

section \<open>Authentication\<close>

definition is_ascii :: "string \<Rightarrow> bool" where
  "is_ascii s \<longleftrightarrow> list_all (\<lambda>c. (of_char c :: nat) < 128) s"

text \<open>
  The dependency \<open>owner\<close>: a response that ends the request, or the owner. \<open>hmac.compare_digest\<close> raises
  \<open>TypeError\<close> on text that is not ASCII, which becomes an internal error.
\<close>

definition server_error :: http_response where
  "server_error = respond 500 (Detail ''Internal Server Error'')"

definition supplied_token :: "http_request \<Rightarrow> string" where
  "supplied_token q = (case hr_authorization q of
     None \<Rightarrow> [] | Some a \<Rightarrow> py_removeprefix ''Bearer '' a)"

definition expected_token :: "AppSettings \<Rightarrow> string" where
  "expected_token s = (case as_api_auth_token s of None \<Rightarrow> [] | Some t \<Rightarrow> t)"

definition check_token :: "AppSettings \<Rightarrow> http_request \<Rightarrow> http_response + unit" where
  "check_token s q =
     (if \<not> as_require_api_authentication s then Inr ()
      else if expected_token s = [] then Inl (respond 401 (Detail ''invalid bearer token''))
      else if \<not> is_ascii (supplied_token q) \<or> \<not> is_ascii (expected_token s) then Inl server_error
      else if supplied_token q \<noteq> expected_token s then Inl (respond 401 (Detail ''invalid bearer token''))
      else Inr ())"

definition request_owner :: "http_request \<Rightarrow> string" where
  "request_owner q = (case hr_owner q of None \<Rightarrow> ''local'' | Some i \<Rightarrow> i)"

definition owner_of :: "AppSettings \<Rightarrow> http_request \<Rightarrow> http_response + string" where
  "owner_of s q = (case check_token s q of
     Inl r \<Rightarrow> Inl r
   | Inr _ \<Rightarrow>
       if as_api_allowed_owners s \<noteq> [] \<and> request_owner q \<notin> set (as_api_allowed_owners s)
       then Inl (respond 403 (Detail ''owner is not authorized''))
       else Inr (request_owner q))"

section \<open>Parameters\<close>

definition needs_key :: "route \<Rightarrow> bool" where
  "needs_key r = (case r of Create_Run _ \<Rightarrow> True | Post_Pause _ _ \<Rightarrow> True | Post_Resume _ _ \<Rightarrow> True
     | Post_Cancel _ _ \<Rightarrow> True | _ \<Rightarrow> False)"

definition valid_route :: "route \<Rightarrow> bool" where
  "valid_route r = (case r of
     Create_Run body \<Rightarrow> len_between 1 100000 (cq_objective body)
   | Post_Pause _ reason \<Rightarrow> len_between 1 4000 reason
   | Post_Cancel _ reason \<Rightarrow> len_between 1 4000 reason
   | Post_Resume _ (Some n) \<Rightarrow> 0 \<le> n
   | Get_Report _ format \<Rightarrow> format \<in> {''markdown'', ''json''}
   | _ \<Rightarrow> True)"

section \<open>Handlers\<close>

text \<open>
  A handler that advances a run may still be in the loop when the fuel of the model is used up; then it
  has not answered.
\<close>

type_synonym answer = "http_response option io"

definition reply_with :: "(string \<Rightarrow> 'a io) \<Rightarrow> ('a \<Rightarrow> payload) \<Rightarrow> string \<Rightarrow> answer" where
  "reply_with read shape run_id = bnd (read run_id) (\<lambda>x. ret (Some (respond 200 (shape x))))"

definition owned_reply :: "string \<Rightarrow> (string \<Rightarrow> 'a io) \<Rightarrow> ('a \<Rightarrow> payload) \<Rightarrow> string \<Rightarrow> answer" where
  "owned_reply owner read shape run_id = bnd (status run_id owner) (\<lambda>_. reply_with read shape run_id)"

definition api_create_run :: "http_env \<Rightarrow> nat \<Rightarrow> string \<Rightarrow> string \<Rightarrow> CreateRunRequest \<Rightarrow> answer" where
  "api_create_run cfg fuel owner key body =
     bnd (service_create_run (hc_service cfg) (cq_objective body) owner key (cq_repository_path body)) (\<lambda>run.
     if cq_auto_advance body
     then bnd (service_advance (hc_service cfg) fuel (rr_run_id run) owner None) (\<lambda>result.
       ret (map_option (\<lambda>x. respond 201 (Run_Payload (ra_run x))) result))
     else ret (Some (respond 201 (Run_Payload run))))"

definition api_lifecycle :: "http_env \<Rightarrow> nat \<Rightarrow> string \<Rightarrow> string \<Rightarrow> LifecycleRequest io \<Rightarrow> answer" where
  "api_lifecycle cfg fuel owner run_id ask =
     bnd ask (\<lambda>q.
     bnd (service_advance (hc_service cfg) fuel run_id owner None) (\<lambda>result.
     ret (map_option (\<lambda>_. respond 200 (Lifecycle_Payload q)) result)))"

definition api_resume :: "http_env \<Rightarrow> nat \<Rightarrow> string \<Rightarrow> string \<Rightarrow> string \<Rightarrow> int option \<Rightarrow> answer" where
  "api_resume cfg fuel owner key run_id maximum_tasks =
     bnd (service_resume (hc_service cfg) fuel run_id owner maximum_tasks (Some key)) (\<lambda>result.
     ret (map_option (\<lambda>x. respond 200 (Run_Payload (ra_run x))) result))"

definition media_of :: "string \<Rightarrow> string" where
  "media_of format = (if format = ''json'' then ''application/json'' else ''text/markdown'')"

text \<open>What a route does for an owner; \<open>key\<close> is the idempotency key of the routes that need one.\<close>

fun handler :: "http_env \<Rightarrow> nat \<Rightarrow> string \<Rightarrow> string \<Rightarrow> route \<Rightarrow> answer" where
  "handler cfg fuel owner key Health = ret (Some (respond 200 (Detail ''healthy'')))"
| "handler cfg fuel owner key Ready = (\<lambda>w. (Inr (Some (if hc_ready cfg w then respond 200 (Detail ''ready'')
     else respond 503 (Detail ''not_ready''))), w))"
| "handler cfg fuel owner key (Create_Run body) = api_create_run cfg fuel owner key body"
| "handler cfg fuel owner key List_Runs =
     bnd (list_runs (Some owner)) (\<lambda>runs. ret (Some (respond 200 (Runs_Payload runs))))"
| "handler cfg fuel owner key (Get_Run run_id) = reply_with (\<lambda>i. status i owner) Run_Payload run_id"
| "handler cfg fuel owner key (Get_Plan run_id) = owned_reply owner (\<lambda>i. get_plan i None) Plan_Payload run_id"
| "handler cfg fuel owner key (Get_Tasks run_id) = owned_reply owner (\<lambda>i. get_tasks i None) Tasks_Payload run_id"
| "handler cfg fuel owner key (Post_Pause run_id reason) =
     api_lifecycle cfg fuel owner run_id (service_pause (hc_service cfg) run_id owner reason key)"
| "handler cfg fuel owner key (Post_Resume run_id m) = api_resume cfg fuel owner key run_id m"
| "handler cfg fuel owner key (Post_Cancel run_id reason) =
     api_lifecycle cfg fuel owner run_id (service_cancel (hc_service cfg) run_id owner reason key)"
| "handler cfg fuel owner key (Get_Checkpoints run_id) =
     owned_reply owner (list_checkpoint_views (ae_codec (sv_agent (hc_service cfg))) (hc_reason cfg)) Views_Payload run_id"
| "handler cfg fuel owner key (Get_Evidence run_id) = owned_reply owner get_evidence Evidence_Payload run_id"
| "handler cfg fuel owner key (Get_Report run_id format) =
     reply_with (\<lambda>i. service_report (hc_service cfg) i owner format) (Text_Payload (media_of format)) run_id"

section \<open>Errors\<close>

text \<open>\<open>isinstance\<close>: none of the four classes has a subclass.\<close>

definition error_status :: "error_class \<Rightarrow> int" where
  "error_status e =
     (if e = NotFoundError then 404
      else if e = SecurityPolicyError then 403
      else if e \<in> {ConcurrencyConflictError, IdempotencyConflictError} then 409
      else 422)"

definition error_answer :: "exn \<Rightarrow> answer" where
  "error_answer e = (case e of
     Durable c \<Rightarrow> ret (Some (respond (error_status c) (Error_Payload (error_category c))))
   | Crash \<Rightarrow> raise Crash
   | OutOfFuel \<Rightarrow> raise OutOfFuel
   | _ \<Rightarrow> ret (Some server_error))"

definition handle :: "http_env \<Rightarrow> nat \<Rightarrow> http_request \<Rightarrow> answer" where
  "handle cfg fuel q =
     (if hr_route q \<in> {Health, Ready} then handler cfg fuel [] [] (hr_route q)
      else case owner_of (hc_settings cfg) q of
        Inl r \<Rightarrow> ret (Some r)
      | Inr owner \<Rightarrow>
          if \<not> valid_route (hr_route q) \<or> (needs_key (hr_route q) \<and> hr_idempotency_key q = None)
          then ret (Some (respond 422 (Detail ''invalid request'')))
          else catch (handler cfg fuel owner (case hr_idempotency_key q of None \<Rightarrow> [] | Some k \<Rightarrow> k) (hr_route q))
            error_answer)"

section \<open>Access\<close>


text \<open>The run a route is about.\<close>

fun route_run :: "route \<Rightarrow> string option" where
  "route_run (Get_Run i) = Some i"
| "route_run (Get_Plan i) = Some i"
| "route_run (Get_Tasks i) = Some i"
| "route_run (Post_Pause i reason) = Some i"
| "route_run (Post_Resume i m) = Some i"
| "route_run (Post_Cancel i reason) = Some i"
| "route_run (Get_Checkpoints i) = Some i"
| "route_run (Get_Evidence i) = Some i"
| "route_run (Get_Report i format) = Some i"
| "route_run r = None"

lemma handler_refused:
  assumes "owned_run i owner w = (Inl e, w')" and "route_run r = Some i"
  shows "handler cfg fuel owner key r w = (Inl e, w')"
  using assms(2)
  by (cases r) (auto simp: reply_with_def owned_reply_def status_def api_lifecycle_def api_resume_def service_pause_def
      service_cancel_def service_resume_def service_report_def intro!: refused_bnd assms(1))

lemma error_answer_world: "snd (error_answer e w) = w"
  by (cases e) (simp_all add: error_answer_def ret_def raise_def)

lemma error_answer_status: "error_answer e w = (Inr (Some response), w') \<Longrightarrow> 400 \<le> hs_status response"
  by (cases e) (auto simp: error_answer_def ret_def raise_def error_status_def server_error_def split: if_splits)

text \<open>
  C12. A run is served to its owner only: whatever is asked about somebody else's run, the service at most
  reads the row of the run. Nothing is written, no identifier is drawn, no effect comes from it, and
  the answer is an error; without faults it is 403 once the request is authenticated and well
  formed.
\<close>

theorem api_serves_owner_only:
  assumes "good w" and "run \<in> set (db_runs (w_db w))" and "route_run (hr_route q) = Some (rr_run_id run)"
    and "request_owner q \<noteq> rr_owner_id run" and "handle cfg fuel q w = (r, w')"
  shows "(w' = w \<or> w' = after_read w) \<and> (\<forall>response. r = Inr (Some response) \<longrightarrow> 400 \<le> hs_status response) \<and>
    (quiet w \<and> valid_RunRecord run \<and> owner_of (hc_settings cfg) q = Inr (request_owner q) \<and> valid_route (hr_route q) \<and>
       (needs_key (hr_route q) \<longrightarrow> hr_idempotency_key q \<noteq> None) \<longrightarrow>
     r = Inr (Some (respond 403 (Error_Payload C_SECURITY_POLICY))))"
proof -
  have route: "hr_route q \<notin> {Health, Ready}" using assms(3) by auto
  show ?thesis
  proof (cases "owner_of (hc_settings cfg) q")
    case (Inl response)
    then have "400 \<le> hs_status response"
      by (auto simp: owner_of_def check_token_def server_error_def split: sum.splits if_splits)
    then show ?thesis using assms(5) route Inl by (auto simp: handle_def ret_def)
  next
    case (Inr owner)
    then have owner: "owner = request_owner q" by (auto simp: owner_of_def split: sum.splits if_splits)
    obtain e where e: "owned_run (rr_run_id run) owner w = (Inl e, after_read w)"
      "quiet w \<and> valid_RunRecord run \<longrightarrow> e = Durable SecurityPolicyError"
      using owned_run_refused[OF assms(1,2)] assms(4) owner by blast
    show ?thesis
    proof (cases "\<not> valid_route (hr_route q) \<or> (needs_key (hr_route q) \<and> hr_idempotency_key q = None)")
      case True
      then show ?thesis using assms(5) route Inr by (auto simp: handle_def ret_def)
    next
      case False
      then have "\<not> (\<not> valid_route (hr_route q) \<or> (needs_key (hr_route q) \<and> hr_idempotency_key q = None))" by blast
      then have run: "(r, w') = error_answer e (after_read w)"
        using assms(5) route Inr handler_refused[OF e(1) assms(3)] unfolding handle_def by (simp only: if_not_P catch_def) simp
      then have "w' = after_read w" using error_answer_world[of e "after_read w"] by (metis snd_conv)
      moreover have "400 \<le> hs_status response" if "r = Inr (Some response)" for response
        using run that error_answer_status by metis
      ultimately show ?thesis using run e(2) by (auto simp: error_answer_def error_status_def ret_def)
    qed
  qed
qed


text \<open>The list of runs holds the owner's own runs only.\<close>

lemma list_runs_owned:
  assumes "list_runs (Some owner) w = (Inr runs, w')" and "r \<in> set runs"
  shows "rr_owner_id r = owner"
proof -
  have "traverse (checked valid_RunRecord) (sort_key (\<lambda>r. (- rr_created_at r, rr_run_id r))
      (filter (\<lambda>r. rr_owner_id r = owner) (db_runs (w_rely w (w_txn w) (w_db w))))) = Inr runs"
    using query_reads[OF assms(1)[unfolded list_runs_def]] by (simp add: run_from_row_eq[abs_def])
  then show ?thesis using assms(2) traverse_checked_Inr by fastforce
qed

lemma api_lists_own_runs:
  assumes "handle cfg fuel q w = (Inr (Some (respond 200 (Runs_Payload runs))), w')" and "hr_route q = List_Runs"
    and "r \<in> set runs"
  shows "rr_owner_id r = request_owner q"
proof -
  obtain owner where owner: "owner_of (hc_settings cfg) q = Inr owner"
    using assms(1,2) by (cases "owner_of (hc_settings cfg) q")
      (auto simp: handle_def ret_def owner_of_def check_token_def server_error_def split: sum.splits if_splits)
  then have "owner = request_owner q" by (auto simp: owner_of_def split: sum.splits if_splits)
  moreover have "fst (list_runs (Some owner) w) = Inr runs"
    using assms(1,2) owner
    by (cases "list_runs (Some owner) w") (auto simp: handle_def catch_def bnd_def ret_def valid_route_def needs_key_def
        error_answer_def raise_def server_error_def error_status_def split: sum.splits exn.splits if_splits)
  ultimately show ?thesis using list_runs_owned assms(3) by (metis prod.collapse)
qed

section \<open>An example\<close>

definition example_api :: http_env where
  "example_api = \<lparr>hc_settings = default_AppSettings\<lparr>as_environment := Production, as_require_api_authentication := True,
       as_api_auth_token := Some ''t0k''\<rparr>,
     hc_service = example_service, hc_reason = id, hc_ready = (\<lambda>w. True)\<rparr>"

definition example_request :: "string option \<Rightarrow> string \<Rightarrow> route \<Rightarrow> http_request" where
  "example_request token owner r =
     \<lparr>hr_authorization = token, hr_owner = Some owner, hr_idempotency_key = Some ''k'', hr_route = r\<rparr>"

lemma example_authorised: "owner_of (hc_settings example_api) (example_request (Some ''Bearer t0k'') owner r) = Inr owner"
  by (simp add: owner_of_def check_token_def example_api_def example_request_def expected_token_def supplied_token_def
      request_owner_def is_ascii_def py_removeprefix_def starts_with_def default_AppSettings_def)

lemma example_rejections:
  "owner_of (hc_settings example_api) (example_request (Some ''Bearer x'') ''o'' r) = Inl (respond 401 (Detail ''invalid bearer token''))"
  "owner_of (hc_settings example_api) (example_request None ''o'' r) = Inl (respond 401 (Detail ''invalid bearer token''))"
  "owner_of (hc_settings example_api) (example_request (Some [CHR 0xE9]) ''o'' r) = Inl server_error"
  by (simp_all add: owner_of_def check_token_def example_api_def example_request_def expected_token_def supplied_token_def
      request_owner_def is_ascii_def py_removeprefix_def starts_with_def default_AppSettings_def)

lemma example_listing:
  "handle example_api 9 (example_request (Some ''Bearer t0k'') ''o'' List_Runs) (calm 0 0 0 empty_db) =
     (Inr (Some (respond 200 (Runs_Payload []))), calm 1 0 0 empty_db)"
proof -
  have "list_runs (Some ''o'') (calm 0 0 0 empty_db) = (Inr [], calm 1 0 0 empty_db)"
    by (simp add: list_runs_def calm_steps(2)) (simp add: empty_db_def)
  then show ?thesis
    using example_authorised[of "''o''" List_Runs]
    by (simp add: handle_def example_request_def valid_route_def needs_key_def catch_def bnd_def ret_def)
qed


theorem api_serves_owner_only_witness:
  "\<exists>r w'. handle example_api 9 (example_request (Some ''Bearer t0k'') ''mallory'' (Post_Cancel ''r'' ''stop''))
     (calm 0 0 0 resume_db) = (r, w') \<and> r = Inr (Some (respond 403 (Error_Payload C_SECURITY_POLICY)))"
proof -
  obtain run where run: "run \<in> set (db_runs resume_db)" "rr_run_id run = ''r''" "rr_owner_id run = ''o''" "valid_RunRecord run"
    by (simp add: calm_simps valid_RunRecord_def no_nul_def no_nul_opt_def len_between_def)
  let ?q = "example_request (Some ''Bearer t0k'') ''mallory'' (Post_Cancel ''r'' ''stop'')" and ?w = "calm 0 0 0 resume_db"
  obtain r w' where go: "handle example_api 9 ?q ?w = (r, w')" by fastforce
  have "good ?w" "quiet ?w" "run \<in> set (db_runs (w_db ?w))"
    using run(1) by (simp_all add: good_calm[OF wf_resume_db] calm_simps)
  moreover have "owner_of (hc_settings example_api) ?q = Inr (request_owner ?q)"
    using example_authorised by (simp add: example_request_def request_owner_def)
  ultimately show ?thesis
    using api_serves_owner_only[OF _ _ _ _ go, of run] run go
    by (simp add: example_request_def request_owner_def valid_route_def len_between_def)
qed

end
