(* ===== verification/Regex.thy ===== *)
theory Regex
  imports Python_Text
begin

text \<open>
  The regular expressions of Python's \<open>re\<close>, as far as the repository uses them: a backtracking matcher that
  lists the ways to match in the order in which \<open>re\<close> would try them, and \<open>search\<close>, \<open>sub\<close> and
  \<open>finditer\<close> on it. A position is an index into the text; \<open>re.IGNORECASE\<close> is part of the classes.
\<close>

datatype regex = One "char \<Rightarrow> bool" | Then regex regex | Either regex regex | Repeat bool regex | Nothing
  | Line_start | Line_end | Word_edge | Group nat regex

text \<open>A state of the matcher: the position, and the spans of the groups, the latest first.\<close>

type_synonym match_state = "nat \<times> (nat \<times> nat \<times> nat) list"

text \<open>\<open>Repeat greedy r\<close> is \<open>r*\<close> or \<open>r*?\<close>; an iteration that consumes nothing is not repeated.\<close>

fun repeat_matches :: "bool \<Rightarrow> (match_state \<Rightarrow> match_state list) \<Rightarrow> nat \<Rightarrow> match_state \<Rightarrow> match_state list" where
  "repeat_matches greedy f 0 st = [st]"
| "repeat_matches greedy f (Suc n) st =
     (let more = concat (map (repeat_matches greedy f n) (filter (\<lambda>st'. fst st < fst st') (f st))) in
      if greedy then more @ [st] else st # more)"

definition word_char :: "char \<Rightarrow> bool" where
  "word_char c \<longleftrightarrow> c = CHR ''_'' \<or> (let n = of_char c :: nat in
     (48 \<le> n \<and> n \<le> 57) \<or> (65 \<le> n \<and> n \<le> 90) \<or> (97 \<le> n \<and> n \<le> 122) \<or> n \<in> {170, 178, 179, 181, 185, 186, 188, 189, 190} \<or>
     (192 \<le> n \<and> n \<noteq> 215 \<and> n \<noteq> 247))"

definition word_at :: "string \<Rightarrow> nat \<Rightarrow> bool" where
  "word_at s i \<longleftrightarrow> i < length s \<and> word_char (s ! i)"

primrec matches :: "regex \<Rightarrow> string \<Rightarrow> match_state \<Rightarrow> match_state list" where
  "matches (One P) s st = (if fst st < length s \<and> P (s ! fst st) then [(Suc (fst st), snd st)] else [])"
| "matches (Then r q) s st = concat (map (matches q s) (matches r s st))"
| "matches (Either r q) s st = matches r s st @ matches q s st"
| "matches (Repeat greedy r) s st = repeat_matches greedy (matches r s) (Suc (length s - fst st)) st"
| "matches Nothing s st = [st]"
| "matches Line_start s st = (if fst st = 0 \<or> s ! (fst st - 1) = CHR 0x0A then [st] else [])"
| "matches Line_end s st = (if fst st = length s \<or> (fst st < length s \<and> s ! fst st = CHR 0x0A) then [st] else [])"
| "matches Word_edge s st =
     (if (0 < fst st \<and> word_at s (fst st - 1)) \<noteq> word_at s (fst st) then [st] else [])"
| "matches (Group i r) s st = map (\<lambda>st'. (fst st', (i, fst st, fst st') # snd st')) (matches r s st)"

section \<open>Notation for patterns\<close>

definition swap_case :: "char \<Rightarrow> char" where
  "swap_case c = (let n = of_char c :: nat in
     if 65 \<le> n \<and> n \<le> 90 then char_of (n + 32) else if 97 \<le> n \<and> n \<le> 122 then char_of (n - 32) else c)"

primrec sequence :: "regex list \<Rightarrow> regex" where
  "sequence [] = Nothing"
| "sequence (r # rs) = Then r (sequence rs)"

fun one_of :: "regex list \<Rightarrow> regex" where
  "one_of [] = One (\<lambda>c. False)"
| "one_of [r] = r"
| "one_of (r # q # rs) = Either r (one_of (q # rs))"

definition exactly :: "string \<Rightarrow> regex" where
  "exactly s = sequence (map (\<lambda>c. One (\<lambda>x. x = c)) s)"

definition any_case :: "string \<Rightarrow> regex" where
  "any_case s = sequence (map (\<lambda>c. One (\<lambda>x. x = c \<or> x = swap_case c)) s)"

definition optional :: "regex \<Rightarrow> regex" where
  "optional r = Either r Nothing"

text \<open>\<open>r{n,}\<close> and \<open>r{0,n}\<close>, greedy.\<close>

definition at_least :: "nat \<Rightarrow> regex \<Rightarrow> regex" where
  "at_least n r = Then (sequence (replicate n r)) (Repeat True r)"

fun at_most :: "nat \<Rightarrow> regex \<Rightarrow> regex" where
  "at_most 0 r = Nothing"
| "at_most (Suc n) r = Either (Then r (at_most n r)) Nothing"

abbreviation spaces :: regex where
  "spaces \<equiv> Repeat True (One is_py_space)"

section \<open>Searching\<close>

text \<open>The first match at or after \<open>i\<close>: its start, its end and its groups.\<close>

definition match_at :: "regex \<Rightarrow> string \<Rightarrow> nat \<Rightarrow> match_state option" where
  "match_at r s i = (case matches r s (i, []) of [] \<Rightarrow> None | st # sts \<Rightarrow> Some st)"

fun search_from :: "regex \<Rightarrow> string \<Rightarrow> nat \<Rightarrow> nat \<Rightarrow> (nat \<times> match_state) option" where
  "search_from r s i 0 = map_option (Pair i) (match_at r s i)"
| "search_from r s i (Suc n) = (case match_at r s i of
     Some st \<Rightarrow> Some (i, st)
   | None \<Rightarrow> search_from r s (Suc i) n)"

definition search :: "regex \<Rightarrow> string \<Rightarrow> nat \<Rightarrow> (nat \<times> match_state) option" where
  "search r s i = (if i \<le> length s then search_from r s i (length s - i) else None)"

definition occurs :: "regex \<Rightarrow> string \<Rightarrow> bool" where
  "occurs r s \<longleftrightarrow> search r s 0 \<noteq> None"

text \<open>
  \<open>finditer\<close>: the matches from \<open>i\<close> on, each after the one before. A match that consumes nothing does not
  occur among the patterns of the repository; it would end the list here.
\<close>

function find_all :: "regex \<Rightarrow> string \<Rightarrow> nat \<Rightarrow> (nat \<times> match_state) list" where
  "find_all r s i = (case search r s i of
     None \<Rightarrow> []
   | Some (start, stop, groups) \<Rightarrow>
       if start < stop \<and> i \<le> start \<and> stop \<le> length s then (start, stop, groups) # find_all r s stop else [])"
  by pat_completeness auto
termination
  by (relation "measure (\<lambda>(r, s, i). length s - i)") auto

definition piece :: "string \<Rightarrow> nat \<Rightarrow> nat \<Rightarrow> string" where
  "piece s i j = take (j - i) (drop i s)"

definition group_text :: "string \<Rightarrow> match_state \<Rightarrow> nat \<Rightarrow> string" where
  "group_text s st i = (case map_of (snd st) i of None \<Rightarrow> [] | Some (a, b) \<Rightarrow> piece s a b)"

text \<open>\<open>pattern.sub\<close> with a replacement that is computed from the match.\<close>

fun substitute_all :: "string \<Rightarrow> (match_state \<Rightarrow> string) \<Rightarrow> nat \<Rightarrow> (nat \<times> match_state) list \<Rightarrow> string" where
  "substitute_all s f i [] = drop i s"
| "substitute_all s f i ((start, stop, groups) # ms) =
     piece s i start @ f (stop, groups) @ substitute_all s f stop ms"

definition regex_sub :: "regex \<Rightarrow> (string \<Rightarrow> match_state \<Rightarrow> string) \<Rightarrow> string \<Rightarrow> string" where
  "regex_sub r f s = substitute_all s (f s) 0 (find_all r s 0)"

section \<open>Matches stay inside the text\<close>

lemma repeat_matches_bound:
  assumes "\<And>st st'. st' \<in> set (f st) \<Longrightarrow> fst st \<le> k \<Longrightarrow> fst st \<le> fst st' \<and> fst st' \<le> k"
  shows "st' \<in> set (repeat_matches greedy f n st) \<Longrightarrow> fst st \<le> k \<Longrightarrow> fst st \<le> fst st' \<and> fst st' \<le> k"
proof (induction n arbitrary: st)
  case (Suc n)
  have "set (repeat_matches greedy f (Suc n) st) =
      insert st (\<Union>st1 \<in> {st1 \<in> set (f st). fst st < fst st1}. set (repeat_matches greedy f n st1))"
    by (simp add: Let_def)
  then consider "st' = st" | st1 where "st1 \<in> set (f st)" "fst st < fst st1" "st' \<in> set (repeat_matches greedy f n st1)"
    using Suc.prems(1) by blast
  then show ?case
  proof cases
    case 2
    then have "fst st1 \<le> k" using assms Suc.prems(2) by blast
    then show ?thesis using Suc.IH[OF 2(3)] 2(2) by simp
  qed (use Suc.prems in simp)
qed simp

lemma matches_bound:
  "st' \<in> set (matches r s st) \<Longrightarrow> fst st \<le> length s \<Longrightarrow> fst st \<le> fst st' \<and> fst st' \<le> length s"
proof (induction r arbitrary: st st')
  case (Then r q)
  then obtain st1 where st1: "st1 \<in> set (matches r s st)" "st' \<in> set (matches q s st1)" by auto
  then show ?case using Then.IH(1)[OF st1(1)] Then.IH(2)[OF st1(2)] Then.prems(2) by linarith
next
  case (Repeat greedy r)
  show ?case
    using repeat_matches_bound[of "matches r s" "length s" st' greedy] Repeat
    by (simp del: repeat_matches.simps)
qed (auto split: if_splits)

lemma match_at_bound: "match_at r s i = Some st \<Longrightarrow> i \<le> length s \<Longrightarrow> i \<le> fst st \<and> fst st \<le> length s"
  using matches_bound[of st r s "(i, [])"] by (auto simp: match_at_def split: list.splits)

lemma search_from_bound:
  "search_from r s i n = Some (start, st) \<Longrightarrow> i + n \<le> length s \<Longrightarrow> i \<le> start \<and> start \<le> fst st \<and> fst st \<le> length s"
proof (induction r s i n rule: search_from.induct)
  case (1 r s i)
  then show ?case using match_at_bound[of r s i st] by auto
next
  case (2 r s i n)
  then show ?case using match_at_bound[of r s i st] by (auto split: option.splits)
qed

lemma search_bound:
  assumes "search r s i = Some (start, st)"
  shows "i \<le> start \<and> start \<le> fst st \<and> fst st \<le> length s"
  using assms search_from_bound[of r s i "length s - i" start st] by (auto simp: search_def split: if_splits)

text \<open>The matches of \<open>find_all\<close> are in order and do not overlap.\<close>

fun in_order :: "nat \<Rightarrow> nat \<Rightarrow> (nat \<times> match_state) list \<Rightarrow> bool" where
  "in_order i n [] = True"
| "in_order i n ((start, stop, groups) # ms) = (i \<le> start \<and> start < stop \<and> stop \<le> n \<and> in_order stop n ms)"

lemma find_all_in_order: "in_order i (length s) (find_all r s i)"
proof (induction r s i rule: find_all.induct)
  case (1 r s i)
  show ?case
  proof (cases "search r s i")
    case (Some m)
    obtain start stop groups where m: "m = (start, stop, groups)" by (cases m)
    show ?thesis
    proof (cases "start < stop \<and> i \<le> start \<and> stop \<le> length s")
      case True
      then have "find_all r s i = (start, stop, groups) # find_all r s stop" using Some m by (simp add: find_all.simps[of r s i])
      then show ?thesis using 1[OF Some m[symmetric] refl True] True by simp
    next
      case False
      then have "find_all r s i = []" using Some m by (simp add: find_all.simps[of r s i])
      then show ?thesis by simp
    qed
  qed (simp add: find_all.simps[of r s i])
qed

declare find_all.simps [simp del]


lemma search_from_matches: "search_from r s i n = Some (start, st) \<Longrightarrow> st \<in> set (matches r s (start, []))"
  by (induction r s i n rule: search_from.induct) (auto simp: match_at_def split: option.splits list.splits)

lemma find_all_matches: "(start, st) \<in> set (find_all r s i) \<Longrightarrow> st \<in> set (matches r s (start, []))"
proof (induction r s i rule: find_all.induct)
  case (1 r s i)
  then obtain m where found: "search r s i = Some m"
    by (cases "search r s i") (simp_all add: find_all.simps[of r s i])
  obtain begin1 stop groups where "m = (begin1, stop, groups)" by (cases m)
  then have m: "search r s i = Some (begin1, stop, groups)" "begin1 < stop \<and> i \<le> begin1 \<and> stop \<le> length s"
    using 1(2) found by (simp_all add: find_all.simps[of r s i] split: if_splits)
  then have "find_all r s i = (begin1, stop, groups) # find_all r s stop" by (simp add: find_all.simps[of r s i])
  then consider "(start, st) = (begin1, stop, groups)" | "(start, st) \<in> set (find_all r s stop)" using 1(2) by auto
  then show ?case
  proof cases
    case 1
    then show ?thesis using m(1) search_from_matches by (auto simp: search_def split: if_splits)
  next
    case 2
    then show ?thesis using "1.IH"[OF m(1) refl refl m(2)] by simp
  qed
qed

text \<open>A pattern without groups leaves the groups as they are.\<close>

primrec group_free :: "regex \<Rightarrow> bool" where
  "group_free (One P) = True"
| "group_free (Then r q) = (group_free r \<and> group_free q)"
| "group_free (Either r q) = (group_free r \<and> group_free q)"
| "group_free (Repeat greedy r) = group_free r"
| "group_free Nothing = True"
| "group_free Line_start = True"
| "group_free Line_end = True"
| "group_free Word_edge = True"
| "group_free (Group i r) = False"

lemma repeat_matches_groups:
  assumes "\<And>st st'. st' \<in> set (f st) \<Longrightarrow> snd st' = snd st"
  shows "st' \<in> set (repeat_matches greedy f n st) \<Longrightarrow> snd st' = snd st"
proof (induction n arbitrary: st)
  case (Suc n)
  have "set (repeat_matches greedy f (Suc n) st) =
      insert st (\<Union>st1 \<in> {st1 \<in> set (f st). fst st < fst st1}. set (repeat_matches greedy f n st1))"
    by (simp add: Let_def)
  then consider "st' = st" | st1 where "st1 \<in> set (f st)" "st' \<in> set (repeat_matches greedy f n st1)"
    using Suc.prems by blast
  then show ?case using assms Suc.IH by cases auto
qed simp

lemma group_free_matches: "group_free r \<Longrightarrow> st' \<in> set (matches r s st) \<Longrightarrow> snd st' = snd st"
proof (induction r arbitrary: st st')
  case (Repeat greedy r)
  then show ?case using repeat_matches_groups[of "matches r s" st' greedy] by (simp del: repeat_matches.simps)
next
  case (Then r q)
  then obtain st1 where st1: "st1 \<in> set (matches r s st)" "st' \<in> set (matches q s st1)" by auto
  then show ?case using Then.IH(1)[OF _ st1(1)] Then.IH(2)[OF _ st1(2)] Then.prems(1) by simp
qed (auto split: if_splits)

end
