(* ===== verification/Redaction.thy ===== *)
theory Redaction
  imports Regex
begin

text \<open>
  \<open>security/redaction.py\<close> and \<open>security/untrusted.py\<close>: the redactor that tool results and log lines pass, and
  the classification of untrusted text, with their patterns written out.
\<close>

section \<open>The patterns of credentials\<close>

definition marker :: string where
  "marker = ''[REDACTED]''"

definition upper_range :: "char \<Rightarrow> bool" where
  "upper_range c \<longleftrightarrow> (let n = of_char c :: nat in 65 \<le> n \<and> n \<le> 90)"

definition alphanumeric :: "char \<Rightarrow> bool" where
  "alphanumeric c \<longleftrightarrow> (let n = of_char c :: nat in (48 \<le> n \<and> n \<le> 57) \<or> (65 \<le> n \<and> n \<le> 90) \<or> (97 \<le> n \<and> n \<le> 122))"

definition KEY_PATTERN :: regex where
  "KEY_PATTERN = one_of
     [sequence [any_case ''api'', optional (One (\<lambda>c. c = CHR ''_'' \<or> c = CHR ''-'')), any_case ''key''],
      any_case ''authorization'', any_case ''password'', any_case ''passwd'', any_case ''secret'', any_case ''token'',
      any_case ''credential'',
      sequence [any_case ''private'', optional (One (\<lambda>c. c = CHR ''_'' \<or> c = CHR ''-'')), any_case ''key'']]"

definition bearer_pattern :: regex where
  "bearer_pattern = sequence [Word_edge, any_case ''Bearer'', at_least 1 (One is_py_space),
     at_least 8 (One (\<lambda>c. alphanumeric c \<or> c \<in> set ''._~+/=-''))]"

definition key_pattern :: regex where
  "key_pattern = sequence [Word_edge, one_of [exactly ''sk'', exactly ''ghp'', exactly ''github_pat''], exactly ''_'',
     at_least 12 (One (\<lambda>c. alphanumeric c \<or> c \<in> set ''_-''))]"

definition private_key_pattern :: regex where
  "private_key_pattern = sequence
     [exactly ''-----BEGIN '', Repeat True (One (\<lambda>c. upper_range c \<or> c = CHR '' '')), exactly ''PRIVATE KEY-----'',
      Repeat False (One (\<lambda>c. True)),
      exactly ''-----END '', Repeat True (One (\<lambda>c. upper_range c \<or> c = CHR '' '')), exactly ''PRIVATE KEY-----'']"

definition user_password_pattern :: regex where
  "user_password_pattern = sequence
     [Group 1 (sequence [exactly ''://'', at_least 1 (One (\<lambda>c. c \<notin> set '':/'' \<and> \<not> is_py_space c)), exactly '':'']),
      Group 2 (at_least 1 (One (\<lambda>c. c \<notin> set ''@/'' \<and> \<not> is_py_space c))),
      Group 3 (exactly ''@'')]"

section \<open>The redactor\<close>

text \<open>\<open>SecretRedactor(explicit_secrets)\<close> keeps the non-empty secrets, the longest first.\<close>

definition new_redactor :: "string list \<Rightarrow> string list" where
  "new_redactor explicit = sort_key (\<lambda>s. - int (length s)) (filter (\<lambda>s. s \<noteq> []) explicit)"

definition whole_match :: "string \<Rightarrow> match_state \<Rightarrow> string" where
  "whole_match s m = marker"

definition between_groups :: "string \<Rightarrow> match_state \<Rightarrow> string" where
  "between_groups s m = group_text s m 1 @ marker @ group_text s m 3"

definition redact_patterns :: "string \<Rightarrow> string" where
  "redact_patterns s =
     regex_sub user_password_pattern between_groups
       (regex_sub private_key_pattern whole_match
         (regex_sub key_pattern whole_match
           (regex_sub bearer_pattern whole_match s)))"

definition redact_text :: "string list \<Rightarrow> string \<Rightarrow> string" where
  "redact_text secrets value0 =
     redact_patterns (foldl (\<lambda>s secret. py_replace secret marker s)
       (py_replace [CHR 0x00] [] (py_replace [CHR 0x0D] ([CHR 0x5C] @ ''r'') value0)) secrets)"

fun redact :: "string list \<Rightarrow> json \<Rightarrow> json" where
  "redact secrets (JStr s) = JStr (redact_text secrets s)"
| "redact secrets (JObj kvs) =
     JObj (map (\<lambda>(k, v). (k, if occurs KEY_PATTERN k then JStr marker else redact secrets v)) kvs)"
| "redact secrets (JArr vs) = JArr (map (redact secrets) vs)"
| "redact secrets v = v"

section \<open>Untrusted text\<close>

definition blank :: "char \<Rightarrow> bool" where
  "blank c \<longleftrightarrow> c \<noteq> CHR 0x0A"

definition INJECTION_PATTERNS :: "(string \<times> regex) list" where
  "INJECTION_PATTERNS =
     [(''(?i)ignore (?:all |the )?(?:previous|prior|system) instructions'',
       sequence [any_case ''ignore '', optional (one_of [any_case ''all '', any_case ''the '']),
         one_of [any_case ''previous'', any_case ''prior'', any_case ''system''], any_case '' instructions'']),
      (''(?i)(?:system|developer) (?:message|prompt|instructions?)'',
       sequence [one_of [any_case ''system'', any_case ''developer''], any_case '' '',
         one_of [any_case ''message'', any_case ''prompt'', Then (any_case ''instruction'') (optional (any_case ''s''))]]),
      (''(?i)(?:reveal|exfiltrate|print|send).{0,30}(?:secret|token|password|credential)'',
       sequence [one_of [any_case ''reveal'', any_case ''exfiltrate'', any_case ''print'', any_case ''send''],
         at_most 30 (One blank),
         one_of [any_case ''secret'', any_case ''token'', any_case ''password'', any_case ''credential'']]),
      (''(?i)(?:run|execute).{0,20}(?:shell|command|curl|wget)'',
       sequence [one_of [any_case ''run'', any_case ''execute''], at_most 20 (One blank),
         one_of [any_case ''shell'', any_case ''command'', any_case ''curl'', any_case ''wget'']])]"

record UntrustedContent =
  uc_source :: string
  uc_content :: string
  uc_content_hash :: string
  uc_injection_indicators :: "string list"
  uc_authoritative :: bool
  uc_maximum_authority :: string

definition valid_UntrustedContent :: "UntrustedContent \<Rightarrow> bool" where
  "valid_UntrustedContent u \<longleftrightarrow> no_nul (uc_source u) \<and> no_nul (uc_content u) \<and> no_nul (uc_content_hash u) \<and>
     uc_maximum_authority u = ''data''"

definition injection_indicators :: "string \<Rightarrow> string list" where
  "injection_indicators content = map fst (filter (\<lambda>(name, pattern). occurs pattern content) INJECTION_PATTERNS)"

definition classify_untrusted :: "(string \<Rightarrow> string) \<Rightarrow> string \<Rightarrow> string \<Rightarrow> exn + UntrustedContent" where
  "classify_untrusted sha256 source content = checked valid_UntrustedContent
     \<lparr>uc_source = source, uc_content = content, uc_content_hash = sha256 (utf8 content),
      uc_injection_indicators = injection_indicators content, uc_authoritative = False,
      uc_maximum_authority = ''data''\<rparr>"

section \<open>What the marker cannot bring about\<close>

text \<open>
  A separable secret has no bracket and is no part of the marker, so that no occurrence of it can begin or
  end inside a marker.
\<close>

definition separable :: "string \<Rightarrow> bool" where
  "separable p \<longleftrightarrow> p \<noteq> [] \<and> CHR ''['' \<notin> set p \<and> CHR '']'' \<notin> set p \<and> \<not> contains p marker"

lemma contains_split:
  assumes "contains p (u @ c # v)" and "c \<notin> set p"
  shows "contains p u \<or> contains p v"
proof -
  obtain a b where ab: "u @ c # v = a @ p @ b" using assms(1) by (auto simp: contains_iff)
  show ?thesis
  proof (cases "length a + length p \<le> length u")
    case True
    then have "u = a @ p @ take (length u - length a - length p) b"
      using arg_cong[OF ab, of "take (length u)"] by simp
    then show ?thesis unfolding contains_iff by blast
  next
    case False
    have "\<not> length a \<le> length u"
    proof
      assume "length a \<le> length u"
      then have i: "length u - length a < length p" using False by linarith
      have "(a @ p @ b) ! length u = p ! (length u - length a)"
        using i \<open>length a \<le> length u\<close> by (simp add: nth_append)
      moreover have "(u @ c # v) ! length u = c" by simp
      ultimately show False using ab assms(2) i nth_mem by metis
    qed
    then have "v = drop (Suc (length u)) a @ p @ b"
      using arg_cong[OF ab, of "drop (Suc (length u))"] by simp
    then show ?thesis unfolding contains_iff by blast
  qed
qed

lemma marker_parts: "marker = CHR ''['' # ''REDACTED'' @ CHR '']'' # []"
  by (simp add: marker_def)

lemma contains_marker:
  assumes "separable p" and "contains p (u @ marker @ v)"
  shows "contains p u \<or> contains p v"
proof -
  have p: "CHR ''['' \<notin> set p" "CHR '']'' \<notin> set p" "\<not> contains p marker"
    using assms(1) by (simp_all add: separable_def)
  have "contains p (u @ CHR ''['' # (''REDACTED'' @ CHR '']'' # v))" using assms(2) by (simp add: marker_def)
  then have "contains p u \<or> contains p (''REDACTED'' @ CHR '']'' # v)" by (rule contains_split[OF _ p(1)])
  then have "contains p u \<or> contains p ''REDACTED'' \<or> contains p v" using contains_split[OF _ p(2)] by blast
  moreover have "\<not> contains p ''REDACTED''"
    using p(3) contains_append[of p "''REDACTED''" "[CHR ''['']" "[CHR '']'']"]
    unfolding marker_parts append_Cons append_Nil by blast
  ultimately show ?thesis by blast
qed

lemma py_replace_keeps:
  assumes "separable p"
  shows "contains p (a @ py_replace old marker s) \<Longrightarrow> contains p (a @ s)"
proof (induction old marker s arbitrary: a rule: py_replace.induct)
  case (2 old c cs)
  show ?case
  proof (cases "old \<noteq> [] \<and> starts_with old (c # cs)")
    case True
    then have "contains p a \<or> contains p (py_replace old marker (drop (length old - 1) cs))"
      using 2(3) contains_marker[OF assms] by simp
    then show ?thesis
    proof
      assume "contains p a"
      then show ?thesis using contains_append[of p a "[]" "c # cs"] by simp
    next
      assume "contains p (py_replace old marker (drop (length old - 1) cs))"
      then have "contains p (drop (length old - 1) cs)" using 2(1)[OF True, of "[]"] by simp
      then show ?thesis
        using contains_append[of p "drop (length old - 1) cs" "a @ c # take (length old - 1) cs" "[]"] by simp
    qed
  next
    case False
    then have "py_replace old marker (c # cs) = c # py_replace old marker cs" by auto
    then show ?thesis using 2(2)[OF False, of "a @ [c]"] 2(3) by simp
  qed
qed simp

lemma starts_with_append: "starts_with p s \<Longrightarrow> starts_with p (s @ t)"
  by (auto simp: starts_with_iff)

lemma py_replace_removes:
  "separable old \<Longrightarrow> (\<forall>k < length a. \<not> starts_with old (drop k (a @ s))) \<Longrightarrow> \<not> contains old (a @ py_replace old marker s)"
proof (induction old marker s arbitrary: a rule: py_replace.induct)
  case (1 old)
  show ?case
  proof
    assume "contains old (a @ py_replace old marker [])"
    then obtain u v where "a = u @ old @ v" by (auto simp: contains_iff)
    moreover have "old \<noteq> []" using 1(1) by (simp add: separable_def)
    ultimately show False using 1(2) by (auto simp: starts_with_iff dest!: spec[of _ "length u"])
  qed
next
  case (2 old c cs)
  show ?case
  proof (cases "old \<noteq> [] \<and> starts_with old (c # cs)")
    case True
    have "\<not> contains old a"
    proof
      assume "contains old a"
      then obtain u v where a: "a = u @ old @ v" by (auto simp: contains_iff)
      have "length u < length a" using a True by simp
      then show False using 2(4) a by (auto simp: starts_with_iff dest!: spec[of _ "length u"])
    qed
    moreover have "\<not> contains old (py_replace old marker (drop (length old - 1) cs))"
      using 2(1)[OF True 2(3), of "[]"] by simp
    ultimately show ?thesis using True contains_marker[OF 2(3)] by auto
  next
    case False
    then have step: "py_replace old marker (c # cs) = c # py_replace old marker cs" by auto
    have "\<not> starts_with old (c # cs)" using False 2(3) by (simp add: separable_def)
    then have "\<forall>k < length (a @ [c]). \<not> starts_with old (drop k ((a @ [c]) @ cs))"
      using 2(4) by (auto simp: less_Suc_eq)
    then show ?thesis using 2(2)[OF False 2(3), of "a @ [c]"] step by simp
  qed
qed

lemma py_replace_secret: "separable p \<Longrightarrow> \<not> contains p (py_replace p marker s)"
  using py_replace_removes[of p "[]" s] by simp

text \<open>The same for a substitution that keeps a head and a tail of what it matched.\<close>

definition keeps_ends :: "string \<Rightarrow> (match_state \<Rightarrow> string) \<Rightarrow> nat \<times> match_state \<Rightarrow> bool" where
  "keeps_ends s f m \<longleftrightarrow> (case m of (start, stop, groups) \<Rightarrow>
     \<exists>x y. start \<le> x \<and> start \<le> y \<and> y \<le> stop \<and> f (stop, groups) = piece s start x @ marker @ piece s y stop)"

lemma piece_append: "i \<le> j \<Longrightarrow> j \<le> k \<Longrightarrow> piece s i j @ piece s j k = piece s i k"
proof -
  assume "i \<le> j" "j \<le> k"
  then have "k - i = (j - i) + (k - j)" by simp
  then show ?thesis unfolding piece_def \<open>k - i = _\<close> take_add using \<open>i \<le> j\<close> by simp
qed

lemma piece_drop: "i \<le> j \<Longrightarrow> piece s i j @ drop j s = drop i s"
  unfolding piece_def by (metis append_take_drop_id drop_drop le_add_diff_inverse2)

lemma contains_piece: "i \<le> k \<Longrightarrow> contains p (piece s k l) \<Longrightarrow> contains p (drop i s)"
proof -
  assume "i \<le> k" "contains p (piece s k l)"
  moreover have "drop i s = take (k - i) (drop i s) @ piece s k l @ drop (l - k) (drop k s)"
    using \<open>i \<le> k\<close> append_take_drop_id[of "k - i" "drop i s"] append_take_drop_id[of "l - k" "drop k s"]
    by (simp add: piece_def)
  ultimately show ?thesis using contains_append by metis
qed

lemma substitute_keeps:
  assumes "separable p"
  shows "in_order i (length s) ms \<Longrightarrow> \<forall>m \<in> set ms. keeps_ends s f m \<Longrightarrow> j \<le> i \<Longrightarrow>
    contains p (piece s j i @ substitute_all s f i ms) \<Longrightarrow> contains p (drop j s)"
proof (induction s f i ms arbitrary: j rule: substitute_all.induct)
  case (1 s f i)
  then show ?case by (simp add: piece_drop)
next
  case (2 s f i start stop groups ms)
  obtain x y where xy: "start \<le> x" "start \<le> y" "y \<le> stop" "f (stop, groups) = piece s start x @ marker @ piece s y stop"
    using 2(3) by (auto simp: keeps_ends_def)
  have order: "i \<le> start" "start < stop" "in_order stop (length s) ms" using 2(2) by simp_all
  have "contains p (piece s j x @ marker @ (piece s y stop @ substitute_all s f stop ms))"
    using 2(5) xy(4) piece_append[of j i start s] piece_append[of j start x s] 2(4) order(1) xy(1)
    by (simp flip: append_assoc)
  then have "contains p (piece s j x) \<or> contains p (piece s y stop @ substitute_all s f stop ms)"
    by (rule contains_marker[OF assms])
  then show ?case
  proof
    assume "contains p (piece s j x)"
    then show ?thesis by (rule contains_piece[rotated]) simp
  next
    assume "contains p (piece s y stop @ substitute_all s f stop ms)"
    then have "contains p (drop y s)" using 2(1)[OF order(3) _ xy(3)] 2(3) by simp
    then show ?thesis
      using contains_append[of p "drop y s" "piece s j y" "[]"] piece_drop[of j y s] 2(4) order(1) xy(2) by simp
  qed
qed

lemma regex_sub_keeps:
  assumes "separable p" and "\<forall>m \<in> set (find_all r s 0). keeps_ends s (f s) m" and "contains p (regex_sub r f s)"
  shows "contains p s"
  using substitute_keeps[OF assms(1) find_all_in_order assms(2), of 0] assms(3)
  by (simp add: regex_sub_def piece_def)


section \<open>The patterns keep to this\<close>

lemma in_order_member: "in_order i n ms \<Longrightarrow> (start, stop, groups) \<in> set ms \<Longrightarrow> start < stop \<and> stop \<le> n"
  by (induction i n ms rule: in_order.induct) auto

lemma find_all_member:
  assumes "(start, stop, groups) \<in> set (find_all r s i)"
  shows "start < stop \<and> stop \<le> length s \<and> (stop, groups) \<in> set (matches r s (start, []))"
  using in_order_member[OF find_all_in_order assms] find_all_matches[OF assms] by simp

lemma whole_match_keeps: "\<forall>m \<in> set (find_all r s i). keeps_ends s (whole_match s) m"
proof
  fix m assume m: "m \<in> set (find_all r s i)"
  obtain start stop groups where "m = (start, stop, groups)" by (cases m)
  then show "keeps_ends s (whole_match s) m"
  proof -
    have "start \<le> start \<and> start \<le> stop \<and> stop \<le> stop \<and>
        whole_match s (stop, groups) = piece s start start @ marker @ piece s stop stop"
      using find_all_member[of start stop groups r s i] m \<open>m = _\<close> by (simp add: whole_match_def piece_def)
    then show ?thesis unfolding keeps_ends_def \<open>m = _\<close> prod.case by blast
  qed
qed

text \<open>A pattern of three groups in a row: its middle is replaced, its ends stay.\<close>

lemma three_groups:
  assumes "(stop, groups) \<in> set (matches (sequence [Group 1 a, Group 2 b, Group 3 c]) s (start, []))"
    and "group_free a" and "group_free b" and "group_free c" and "start \<le> length s"
  shows "keeps_ends s (between_groups s) (start, stop, groups)"
proof -
  obtain st1 st2 st3 where m: "st1 \<in> set (matches a s (start, []))"
    "st2 \<in> set (matches b s (fst st1, (1, start, fst st1) # snd st1))"
    "st3 \<in> set (matches c s (fst st2, (2, fst st1, fst st2) # snd st2))"
    "(stop, groups) = (fst st3, (3, fst st2, fst st3) # snd st3)"
    using assms(1) by auto
  have g: "snd st1 = []" "snd st2 = (1, start, fst st1) # snd st1" "snd st3 = (2, fst st1, fst st2) # snd st2"
    using group_free_matches[OF assms(2) m(1)] group_free_matches[OF assms(3) m(2)] group_free_matches[OF assms(4) m(3)]
    by simp_all
  have order: "start \<le> fst st1" "fst st1 \<le> length s" using matches_bound[OF m(1)] assms(5) by simp_all
  then have "fst st1 \<le> fst st2" "fst st2 \<le> length s" using matches_bound[OF m(2)] by simp_all
  moreover from this have "fst st2 \<le> fst st3" using matches_bound[OF m(3)] by simp
  ultimately have "start \<le> fst st1 \<and> start \<le> fst st2 \<and> fst st2 \<le> stop \<and>
      between_groups s (stop, groups) = piece s start (fst st1) @ marker @ piece s (fst st2) stop"
    using m(4) g order by (simp add: between_groups_def group_text_def)
  then show ?thesis unfolding keeps_ends_def prod.case by blast
qed

lemma between_groups_keeps: "\<forall>m \<in> set (find_all user_password_pattern s i). keeps_ends s (between_groups s) m"
proof
  fix m assume m: "m \<in> set (find_all user_password_pattern s i)"
  obtain start stop groups where e: "m = (start, stop, groups)" by (cases m)
  have bound: "start \<le> length s" and mem: "(stop, groups) \<in> set (matches user_password_pattern s (start, []))"
    using find_all_member[OF m[unfolded e]] by simp_all
  show "keeps_ends s (between_groups s) m"
    unfolding e
    by (rule three_groups[OF mem[unfolded user_password_pattern_def] _ _ _ bound]) (simp_all add: at_least_def exactly_def)
qed

lemma redact_patterns_keep:
  assumes "separable p" and "contains p (redact_patterns s)"
  shows "contains p s"
  using assms(2) unfolding redact_patterns_def
  by (auto dest!: regex_sub_keeps[OF assms(1) between_groups_keeps] regex_sub_keeps[OF assms(1) whole_match_keeps])

section \<open>What is left of a secret\<close>

lemma secrets_removed:
  assumes "separable p" and "p \<in> set secrets"
  shows "\<not> contains p (foldl (\<lambda>s secret. py_replace secret marker s) s secrets)"
  using assms(2)
proof (induction secrets rule: rev_induct)
  case (snoc q secrets)
  let ?s = "foldl (\<lambda>s secret. py_replace secret marker s) s secrets"
  show ?case
  proof (cases "p = q")
    case True
    then show ?thesis using py_replace_secret[OF assms(1)] by simp
  next
    case False
    then have "\<not> contains p ?s" using snoc by simp
    then show ?thesis using py_replace_keeps[OF assms(1), of "[]" q ?s] by auto
  qed
qed simp

lemma secrets_keep:
  assumes "separable p" and "contains p (foldl (\<lambda>s secret. py_replace secret marker s) s secrets)"
  shows "contains p s"
  using assms(2)
  by (induction secrets rule: rev_induct) (auto dest: py_replace_keeps[OF assms(1), of "[]", simplified])

lemma contains_char [simp]: "contains [c] s \<longleftrightarrow> c \<in> set s"
  by (induction s) (auto simp: starts_with_def)

lemma separable_control: "c \<notin> set marker \<Longrightarrow> separable [c]"
  unfolding separable_def contains_char by (auto simp: marker_def)

lemma py_replace_char: "c \<notin> set new \<Longrightarrow> c \<notin> set (py_replace [c] new s)"
  by (induction "[c]" new s rule: py_replace.induct) (auto simp: starts_with_def)

lemma py_replace_other: "d \<noteq> c \<Longrightarrow> d \<notin> set new \<Longrightarrow> d \<notin> set s \<Longrightarrow> d \<notin> set (py_replace [c] new s)"
  by (induction "[c]" new s rule: py_replace.induct) (auto simp: starts_with_def)

lemma redact_text_hides:
  assumes "separable p" and "p \<in> set secrets"
  shows "\<not> contains p (redact_text secrets value0)"
  using redact_patterns_keep[OF assms(1)] secrets_removed[OF assms] unfolding redact_text_def by blast

lemma redact_text_control: "CHR 0x0D \<notin> set (redact_text secrets value0)" "CHR 0x00 \<notin> set (redact_text secrets value0)"
proof -
  let ?clean = "py_replace [CHR 0x00] [] (py_replace [CHR 0x0D] ([CHR 0x5C] @ ''r'') value0)"
  have "CHR 0x0D \<notin> set ?clean" by (rule py_replace_other) (simp_all add: py_replace_char)
  moreover have "CHR 0x00 \<notin> set ?clean" by (rule py_replace_char) simp
  moreover have "c \<notin> set (redact_text secrets value0)" if "c \<notin> set ?clean" "c \<notin> set marker" for c
    using redact_patterns_keep[OF separable_control[OF that(2)]] secrets_keep[OF separable_control[OF that(2)]] that(1)
    unfolding redact_text_def contains_char by blast
  ultimately show "CHR 0x0D \<notin> set (redact_text secrets value0)" "CHR 0x00 \<notin> set (redact_text secrets value0)"
    by (auto simp: marker_def)
qed

text \<open>The texts of a JSON value, its keys apart.\<close>

fun leaf_texts :: "json \<Rightarrow> string list" where
  "leaf_texts (JStr s) = [s]"
| "leaf_texts (JObj kvs) = concat (map (\<lambda>(k, v). leaf_texts v) kvs)"
| "leaf_texts (JArr vs) = concat (map leaf_texts vs)"
| "leaf_texts v = []"

lemma redact_leaf:
  "t \<in> set (leaf_texts (redact secrets j)) \<Longrightarrow> t = marker \<or> (\<exists>s. t = redact_text secrets s)"
proof (induction secrets j rule: redact.induct)
  case (2 secrets kvs)
  then obtain k v where kv: "(k, v) \<in> set kvs"
    "t \<in> set (leaf_texts (if occurs KEY_PATTERN k then JStr marker else redact secrets v))"
    by auto
  then show ?case using 2(1)[OF kv(1) refl] by (auto split: if_splits)
qed auto


text \<open>
  Both restrictions show: the returns of a secret are escaped before the secret is looked for, so that it is not
  found; and a secret in the place of a key is kept.
\<close>

lemma escaped_secret_leaks:
  "redact_text [[CHR ''a'', CHR 0x0D, CHR ''b'']] [CHR ''a'', CHR 0x0D, CHR ''b''] = [CHR ''a'', CHR 0x5C, CHR ''r'', CHR ''b'']"
  by code_simp

lemma key_leaks: "redact [''s3''] (JObj [(''s3'', JNull)]) = JObj [(''s3'', JNull)]"
  by code_simp

definition example_value :: json where
  "example_value = JObj [(''api_key'', JStr ''x''), (''log'', JArr [JStr ''s3 a://u:p@h''])]"

lemma example_redaction:
  "redact [''s3''] example_value =
     JObj [(''api_key'', JStr ''[REDACTED]''), (''log'', JArr [JStr ''[REDACTED] a://u:[REDACTED]@h''])]"
  by code_simp

lemma example_bearer: "regex_sub bearer_pattern whole_match ''x bearer abcdefgh'' = ''x [REDACTED]''"
  by code_simp

lemma example_indicators:
  "injection_indicators ''run curl'' = [''(?i)(?:run|execute).{0,20}(?:shell|command|curl|wget)'']"
  by code_simp


end
