(* ===== verification/Research_Service.thy ===== *)
theory Research_Service
  imports Indexer_Safety Network_Policy Redaction
begin

text \<open>
  \<open>research/service.py\<close> and \<open>research/models.py\<close>: normalising what a search provider returns, keeping one
  source for one content, and the facts that sources state, with their conflicts. The provider, the
  tokens of an HTML document, \<open>html.unescape\<close>, pydantic's \<open>HttpUrl\<close> and the reading of metadata values are
  the parameters of \<open>research_env\<close>.
\<close>

datatype html_event = Start_tag string | End_tag string | Data string

record research_env =
  rv_search :: "string \<Rightarrow> int \<Rightarrow> RetrievalItem list io"
  rv_html_events :: "string \<Rightarrow> html_event list"
  rv_unescape :: "string \<Rightarrow> string"
  rv_netloc_ok :: "string \<Rightarrow> bool"
  rv_http_url :: "string \<Rightarrow> exn + string"
  rv_sha256 :: "string \<Rightarrow> string"
  rv_py_str :: "json \<Rightarrow> string"
  rv_float :: "json \<Rightarrow> rat option"
  rv_datetime :: "json \<Rightarrow> time option"
  rv_repr :: "string \<Rightarrow> string"

record ResearchSource =
  sr_source_id :: string
  sr_url :: "string option"
  sr_title :: string
  sr_normalized_content :: string
  sr_content_hash :: string
  sr_author :: "string option"
  sr_publisher :: "string option"
  sr_published_at :: "time option"
  sr_retrieved_at :: time
  sr_media_type :: string
  sr_quality_score :: rat
  sr_quality_notes :: "string list"
  sr_injection_indicators :: "string list"

definition valid_ResearchSource :: "ResearchSource \<Rightarrow> bool" where
  "valid_ResearchSource s \<longleftrightarrow> no_nul (sr_source_id s) \<and> no_nul (sr_title s) \<and> no_nul (sr_normalized_content s) \<and>
     is_sha256_hex (sr_content_hash s) \<and> no_nul_opt (sr_author s) \<and> no_nul_opt (sr_publisher s) \<and>
     no_nul (sr_media_type s) \<and> 0 \<le> sr_quality_score s \<and> sr_quality_score s \<le> 1"

record ResearchFact =
  ft_fact_id :: string
  ft_key :: string
  ft_value :: string
  ft_source_ids :: "string list"
  ft_verified :: bool
  ft_agent_inference :: bool

definition valid_ResearchFact :: "ResearchFact \<Rightarrow> bool" where
  "valid_ResearchFact f \<longleftrightarrow> no_nul (ft_fact_id f) \<and> no_nul (ft_key f) \<and> no_nul (ft_value f)"

record ResearchConflict =
  cf_conflict_id :: string
  cf_key :: string
  cf_values :: "(string \<times> string list) list"
  cf_explanation :: string
  cf_resolved :: bool

definition valid_ResearchConflict :: "ResearchConflict \<Rightarrow> bool" where
  "valid_ResearchConflict c \<longleftrightarrow> no_nul (cf_conflict_id c) \<and> no_nul (cf_key c) \<and> no_nul (cf_explanation c)"

text \<open>The service keeps the sources it has seen under the digests of their contents.\<close>

record research_state =
  rt_world :: world
  rt_sources :: "(string \<times> ResearchSource) list"

type_synonym 'a research = "(research_state, exn, 'a) act"

definition with_world :: "'a io \<Rightarrow> 'a research" where
  "with_world m = (\<lambda>st. case m (rt_world st) of (r, w) \<Rightarrow> (r, st\<lparr>rt_world := w\<rparr>))"

section \<open>Normalising\<close>

text \<open>\<open>_TextExtractor\<close>: the parts so far and the depth of ignored elements.\<close>

definition ignored_tags :: "string set" where
  "ignored_tags = {''script'', ''style'', ''noscript''}"

fun extract_step :: "string list \<times> nat \<Rightarrow> html_event \<Rightarrow> string list \<times> nat" where
  "extract_step (parts, ignored) (Start_tag tag) =
     (if tag \<in> ignored_tags then (parts, ignored + 1)
      else if tag \<in> {''p'', ''br'', ''li'', ''h1'', ''h2'', ''h3'', ''h4'', ''tr''} then (parts @ [[CHR 0x0A]], ignored)
      else (parts, ignored))"
| "extract_step (parts, ignored) (End_tag tag) =
     (if tag \<in> ignored_tags \<and> 0 < ignored then (parts, ignored - 1)
      else if tag \<in> {''p'', ''li'', ''h1'', ''h2'', ''h3'', ''h4'', ''tr''} then (parts @ [[CHR 0x0A]], ignored)
      else (parts, ignored))"
| "extract_step (parts, ignored) (Data text0) = (if ignored = 0 then (parts @ [text0], ignored) else (parts, ignored))"

definition extract_text :: "html_event list \<Rightarrow> string" where
  "extract_text events = concat (fst (foldl extract_step ([], 0) events))"

definition html_tag :: regex where
  "html_tag = Then (any_case ''<html'') (One (\<lambda>c. is_py_space c \<or> c = CHR ''>''))"

text \<open>A blank line is kept after a line that is not blank.\<close>

fun collapse_blank :: "bool \<Rightarrow> string list \<Rightarrow> string list" where
  "collapse_blank after_text [] = []"
| "collapse_blank after_text (l # ls) =
     (if l \<noteq> [] \<or> after_text then l # collapse_blank (l \<noteq> []) ls else collapse_blank after_text ls)"

definition normalize :: "research_env \<Rightarrow> string \<Rightarrow> string \<Rightarrow> string" where
  "normalize rv content0 media_type =
     (let content1 = (if contains ''html'' (py_lower media_type) \<or> occurs html_tag content0
            then extract_text (rv_html_events rv content0) else content0);
          content2 = py_replace [CHR 0x0D] [CHR 0x0A] (py_replace [CHR 0x0D, CHR 0x0A] [CHR 0x0A] (rv_unescape rv content1));
          lines = map (\<lambda>l. join_with '' '' (py_split l)) (py_splitlines content2) in
      py_strip (join_with [CHR 0x0A] (collapse_blank False lines)))"

section \<open>Sources\<close>

definition canonical_url :: "research_env \<Rightarrow> string \<Rightarrow> exn + string" where
  "canonical_url rv url =
     map_sum id (\<lambda>parts.
       let rest = before (CHR ''#'') (drop (length (split_netloc (snd (split_scheme (clean_url url)))) + 2)
             (snd (split_scheme (clean_url url)))) in
       py_lower (up_scheme parts) @ ''://'' @ py_lower (up_netloc parts) @ before (CHR ''?'') rest @
       (if behind (CHR ''?'') rest = [] then [] else CHR ''?'' # behind (CHR ''?'') rest))
       (urlsplit (rv_netloc_ok rv) url)"

definition is_web_source :: "RetrievalItem \<Rightarrow> bool" where
  "is_web_source i \<longleftrightarrow> starts_with ''http://'' (it_source i) \<or> starts_with ''https://'' (it_source i)"

definition source_url :: "research_env \<Rightarrow> RetrievalItem \<Rightarrow> exn + string option" where
  "source_url rv i = (if is_web_source i then map_sum id Some (canonical_url rv (it_source i)) else Inr None)"

text \<open>The validation of the field \<open>url\<close>.\<close>

definition validated_url :: "research_env \<Rightarrow> string option \<Rightarrow> exn + string option" where
  "validated_url rv url = (case url of None \<Rightarrow> Inr None | Some u \<Rightarrow> map_sum id Some (rv_http_url rv u))"

text \<open>\<open>isinstance(declared, float | int)\<close> without the booleans: what \<open>rv_float\<close> reads.\<close>

definition quality :: "research_env \<Rightarrow> RetrievalItem \<Rightarrow> rat \<times> string list" where
  "quality rv i = (case Option.bind (map_of (it_metadata i) ''quality_score'') (rv_float rv) of
     Some declared \<Rightarrow> (max 0 (min declared 1), [''provider-declared quality''])
   | None \<Rightarrow>
       if starts_with ''https://'' (it_source i)
       then (6 / 10, [''HTTPS source; authority not independently verified''])
       else (4 / 10, [''local or non-HTTPS source'']))"

definition optional_text :: "research_env \<Rightarrow> json option \<Rightarrow> string option" where
  "optional_text rv v = (case v of None \<Rightarrow> None | Some JNull \<Rightarrow> None | Some j \<Rightarrow> Some (rv_py_str rv j))"

definition metadata_text :: "research_env \<Rightarrow> RetrievalItem \<Rightarrow> string \<Rightarrow> string \<Rightarrow> string" where
  "metadata_text rv i key fallback =
     (case map_of (it_metadata i) key of None \<Rightarrow> fallback | Some j \<Rightarrow> rv_py_str rv j)"

definition ingest :: "research_env \<Rightarrow> RetrievalItem \<Rightarrow> ResearchSource research" where
  "ingest rv i =
     (let media_type = metadata_text rv i ''media_type'' ''text/plain'';
          normalized = normalize rv (it_content i) media_type;
          digest = rv_sha256 rv (utf8 normalized) in
      (\<lambda>st. case map_of (rt_sources st) digest of
         Some existing \<Rightarrow> (Inr existing, st)
       | None \<Rightarrow>
           bnd (lift_sum (classify_untrusted (rv_sha256 rv) (it_source i) normalized)) (\<lambda>classified.
           bnd (with_world (ids_new ''source'')) (\<lambda>source_id.
           bnd (lift_sum (source_url rv i)) (\<lambda>raw_url.
           bnd (with_world clock_now) (\<lambda>now.
           bnd (lift_sum (validated_url rv raw_url)) (\<lambda>url.
           bnd (lift_sum (checked valid_ResearchSource
             \<lparr>sr_source_id = source_id, sr_url = url, sr_title = metadata_text rv i ''title'' (it_source i),
              sr_normalized_content = normalized, sr_content_hash = digest,
              sr_author = optional_text rv (map_of (it_metadata i) ''author''),
              sr_publisher = optional_text rv (map_of (it_metadata i) ''publisher''),
              sr_published_at = Option.bind (map_of (it_metadata i) ''published_at'') (rv_datetime rv),
              sr_retrieved_at = now, sr_media_type = media_type, sr_quality_score = fst (quality rv i),
              sr_quality_notes = snd (quality rv i),
              sr_injection_indicators = uc_injection_indicators classified\<rparr>)) (\<lambda>source.
           (\<lambda>st. (Inr source, st\<lparr>rt_sources := rt_sources st @ [(digest, source)]\<rparr>)))))))) st))"

section \<open>Facts and conflicts\<close>

definition CLAIM_LINE :: regex where
  "CLAIM_LINE = sequence [Line_start, spaces, one_of [any_case ''claim'', any_case ''fact''], spaces, exactly '':'', spaces,
     Group 1 (at_least 1 (One (\<lambda>c. c \<notin> {CHR ''='', CHR '':'', CHR 0x0A}))), spaces,
     One (\<lambda>c. c = CHR ''='' \<or> c = CHR '':''), spaces,
     Group 2 (Then (One blank) (Repeat False (One blank))), spaces, Line_end]"

definition claim_of :: "string \<Rightarrow> nat \<times> match_state \<Rightarrow> string \<times> string" where
  "claim_of text0 m = (join_with '' '' (py_split (py_lower (group_text text0 (snd m) 1))),
     join_with '' '' (py_split (group_text text0 (snd m) 2)))"

definition claims_of :: "ResearchSource \<Rightarrow> (string \<times> string) list" where
  "claims_of s = map (claim_of (sr_normalized_content s)) (find_all CLAIM_LINE (sr_normalized_content s) 0)"

definition asserting :: "ResearchSource list \<Rightarrow> string \<times> string \<Rightarrow> string list" where
  "asserting sources kv = map sr_source_id (filter (\<lambda>s. kv \<in> set (claims_of s)) sources)"

definition extract_facts :: "ResearchSource list \<Rightarrow> ResearchFact list io" where
  "extract_facts sources =
     mapA (\<lambda>kv.
       bnd (ids_new ''fact'') (\<lambda>fact_id.
       lift_sum (checked valid_ResearchFact
         \<lparr>ft_fact_id = fact_id, ft_key = fst kv, ft_value = snd kv, ft_source_ids = sort (remdups (asserting sources kv)),
          ft_verified = False, ft_agent_inference = False\<rparr>)))
       (sort (remdups (concat (map claims_of sources))))"

definition values_of :: "ResearchFact list \<Rightarrow> string \<Rightarrow> (string \<times> string list) list" where
  "values_of facts key = py_dict (map (\<lambda>f. (ft_value f, ft_source_ids f)) (filter (\<lambda>f. ft_key f = key) facts))"

definition detect_conflicts :: "research_env \<Rightarrow> ResearchFact list \<Rightarrow> ResearchConflict list io" where
  "detect_conflicts rv facts =
     mapA (\<lambda>key.
       bnd (ids_new ''conflict'') (\<lambda>conflict_id.
       lift_sum (checked valid_ResearchConflict
         \<lparr>cf_conflict_id = conflict_id, cf_key = key, cf_values = values_of facts key,
          cf_explanation = ''Sources assert '' @ show_nat (length (values_of facts key)) @ '' incompatible values for '' @
            rv_repr rv key @ ''.'', cf_resolved = False\<rparr>)))
       (filter (\<lambda>key. 1 < length (values_of facts key)) (sort (remdups (map ft_key facts))))"

definition mark_verified :: "string set \<Rightarrow> ResearchFact \<Rightarrow> ResearchFact" where
  "mark_verified conflicting f =
     f\<lparr>ft_verified := 1 < length (ft_source_ids f) \<and> ft_key f \<notin> conflicting\<rparr>"

definition research ::
  "research_env \<Rightarrow> string \<Rightarrow> int \<Rightarrow> (ResearchSource list \<times> ResearchFact list \<times> ResearchConflict list) research" where
  "research rv words limit =
     bnd (with_world (rv_search rv words limit)) (\<lambda>items.
     bnd (mapA (ingest rv) items) (\<lambda>sources.
     let unique = map snd (py_dict (map (\<lambda>s. (sr_source_id s, s)) sources)) in
     bnd (with_world (extract_facts unique)) (\<lambda>facts.
     bnd (with_world (detect_conflicts rv facts)) (\<lambda>conflicts.
     ret (unique, map (mark_verified (cf_key ` set conflicts)) facts, conflicts)))))"

definition citation :: "(time \<Rightarrow> string) \<Rightarrow> ResearchSource \<Rightarrow> string" where
  "citation date s = ''['' @ sr_source_id s @ ''] '' @ sr_title s @ ''. '' @
     (case sr_url s of Some (c # cs) \<Rightarrow> c # cs | _ \<Rightarrow> sr_title s) @ ''. Retrieved '' @ date (sr_retrieved_at s) @ ''.''"


section \<open>What research reports\<close>

lemma numbered_list:
  assumes "mapA (\<lambda>x. bnd (ids_new prefix) (\<lambda>i. lift_sum (checked V (g i x)))) xs w = (Inr ys, w')"
  shows "list_all2 (\<lambda>x y. \<exists>i. y = g i x) xs ys"
  using assms
proof (induction xs arbitrary: ys w)
  case Nil
  then show ?case by (simp add: ret_def)
next
  case (Cons x xs)
  obtain i w1 where new: "ids_new prefix w = (Inr i, w1)" by (simp add: ids_new_def)
  obtain r w2 where rest: "mapA (\<lambda>x. bnd (ids_new prefix) (\<lambda>i. lift_sum (checked V (g i x)))) xs w1 = (r, w2)"
    by fastforce
  show ?case
  proof (cases "V (g i x)")
    case False
    then show ?thesis using Cons.prems new by (simp add: bnd_def lift_sum_def checked_def)
  next
    case True
    then obtain zs where "r = Inr zs" "ys = g i x # zs" "w2 = w'"
      using Cons.prems new rest by (cases r) (simp_all add: bnd_def lift_sum_def ret_def checked_def)
    then show ?thesis using Cons.IH[of w1 zs] rest by auto
  qed
qed

lemma list_all2_map_eq: "list_all2 (\<lambda>x y. \<exists>i. y = g i x) xs ys \<Longrightarrow> (\<And>i x. h (g i x) = k x) \<Longrightarrow> map h ys = map k xs"
  by (induction rule: list_all2_induct) auto

lemma list_all2_in: "list_all2 P xs ys \<Longrightarrow> y \<in> set ys \<Longrightarrow> \<exists>x \<in> set xs. P x y"
  by (induction rule: list_all2_induct) auto

lemma extract_facts_InrD:
  assumes "extract_facts sources w = (Inr facts, w')"
  shows "distinct (map (\<lambda>f. (ft_key f, ft_value f)) facts) \<and>
    (\<lambda>f. (ft_key f, ft_value f)) ` set facts = (\<Union>s \<in> set sources. set (claims_of s)) \<and>
    (\<forall>f \<in> set facts. ft_source_ids f = sort (remdups (asserting sources (ft_key f, ft_value f))))"
proof -
  let ?kvs = "sort (remdups (concat (map claims_of sources)))"
  note made = numbered_list[OF assms[unfolded extract_facts_def]]
  have "map (\<lambda>f. (ft_key f, ft_value f)) facts = map id ?kvs"
    by (rule list_all2_map_eq[OF made]) simp
  then have keys: "map (\<lambda>f. (ft_key f, ft_value f)) facts = ?kvs" by simp
  have "set (map (\<lambda>f. (ft_key f, ft_value f)) facts) = (\<Union>s \<in> set sources. set (claims_of s))"
    unfolding keys by simp
  moreover have "distinct (map (\<lambda>f. (ft_key f, ft_value f)) facts)" unfolding keys by simp
  moreover have "ft_source_ids f = sort (remdups (asserting sources (ft_key f, ft_value f)))" if "f \<in> set facts" for f
    using list_all2_in[OF made that] by auto
  ultimately show ?thesis by simp
qed

lemma values_of_keys: "fst ` set (values_of facts key) = ft_value ` {f \<in> set facts. ft_key f = key}"
proof -
  have "fst ` set (values_of facts key) = set (map fst (values_of facts key))" by simp
  also have "\<dots> = ft_value ` {f \<in> set facts. ft_key f = key}"
    unfolding values_of_def py_dict_keys by (auto simp: comp_def)
  finally show ?thesis .
qed

lemma values_of_length: "length (values_of facts key) = card (ft_value ` {f \<in> set facts. ft_key f = key})"
proof -
  have "distinct (map fst (values_of facts key))" unfolding values_of_def py_dict_keys by simp
  then show ?thesis using distinct_card[of "map fst (values_of facts key)"] values_of_keys[of facts key] by simp
qed

lemma two_values: "1 < length (values_of facts key) \<longleftrightarrow>
    (\<exists>f \<in> set facts. \<exists>g \<in> set facts. ft_key f = key \<and> ft_key g = key \<and> ft_value f \<noteq> ft_value g)"
proof -
  let ?V = "ft_value ` {f \<in> set facts. ft_key f = key}"
  have "finite ?V" by simp
  have "1 < card ?V \<longleftrightarrow> (\<exists>x \<in> ?V. \<exists>y \<in> ?V. x \<noteq> y)"
  proof
    assume "1 < card ?V"
    then have "\<not> card ?V \<le> Suc 0" by simp
    then show "\<exists>x \<in> ?V. \<exists>y \<in> ?V. x \<noteq> y" unfolding card_le_Suc0_iff_eq[OF \<open>finite ?V\<close>] by blast
  next
    assume "\<exists>x \<in> ?V. \<exists>y \<in> ?V. x \<noteq> y"
    then have "\<not> card ?V \<le> Suc 0" unfolding card_le_Suc0_iff_eq[OF \<open>finite ?V\<close>] by blast
    then show "1 < card ?V" by simp
  qed
  then show ?thesis unfolding values_of_length by blast
qed

lemma detect_conflicts_InrD:
  assumes "detect_conflicts rv facts w = (Inr conflicts, w')"
  shows "cf_key ` set conflicts =
    {key. \<exists>f \<in> set facts. \<exists>g \<in> set facts. ft_key f = key \<and> ft_key g = key \<and> ft_value f \<noteq> ft_value g}"
proof -
  let ?keys = "filter (\<lambda>key. 1 < length (values_of facts key)) (sort (remdups (map ft_key facts)))"
  have "map cf_key conflicts = map id ?keys"
    by (rule list_all2_map_eq[OF numbered_list[OF assms[unfolded detect_conflicts_def]]]) simp
  then have "set (map cf_key conflicts) = set ?keys" by simp
  moreover have "set ?keys = {key. \<exists>f \<in> set facts. \<exists>g \<in> set facts.
      ft_key f = key \<and> ft_key g = key \<and> ft_value f \<noteq> ft_value g}"
    unfolding set_filter set_sort set_remdups two_values by auto
  ultimately show ?thesis by simp
qed

lemma research_InrD:
  assumes "research rv words limit st = (Inr (sources, facts, conflicts), st')"
  shows "\<exists>ingested found w1 w2 w3.
    sources = map snd (py_dict (map (\<lambda>s. (sr_source_id s, s)) ingested)) \<and>
    extract_facts sources w1 = (Inr found, w2) \<and> detect_conflicts rv found w2 = (Inr conflicts, w3) \<and>
    facts = map (mark_verified (cf_key ` set conflicts)) found"
proof -
  obtain items w0 where search: "rv_search rv words limit (rt_world st) = (Inr items, w0)"
    using assms by (auto simp: research_def bnd_def with_world_def split: prod.splits sum.splits)
  obtain ingested st1 where ingested: "mapA (ingest rv) items (st\<lparr>rt_world := w0\<rparr>) = (Inr ingested, st1)"
    using assms search by (auto simp: research_def bnd_def with_world_def split: prod.splits sum.splits)
  let ?unique = "map snd (py_dict (map (\<lambda>s. (sr_source_id s, s)) ingested))"
  obtain found w2 where found: "extract_facts ?unique (rt_world st1) = (Inr found, w2)"
    using assms search ingested by (auto simp: research_def bnd_def with_world_def Let_def split: prod.splits sum.splits)
  obtain cs w3 where cs: "detect_conflicts rv found w2 = (Inr cs, w3)"
    using assms search ingested found by (auto simp: research_def bnd_def with_world_def Let_def split: prod.splits sum.splits)
  have "sources = ?unique" "conflicts = cs" "facts = map (mark_verified (cf_key ` set cs)) found"
    using assms search ingested found cs by (auto simp: research_def bnd_def with_world_def Let_def ret_def)
  then show ?thesis using found cs by blast
qed

lemma unique_sources:
  "distinct (map sr_source_id (map snd (py_dict (map (\<lambda>s. (sr_source_id s, s)) ingested))))"
proof -
  have "p \<in> set (py_dict (map (\<lambda>s. (sr_source_id s, s)) ingested)) \<Longrightarrow> sr_source_id (snd p) = fst p" for p
    using py_dict_in[of "fst p" "snd p" "map (\<lambda>s. (sr_source_id s, s)) ingested"] by auto
  then have "map sr_source_id (map snd (py_dict (map (\<lambda>s. (sr_source_id s, s)) ingested))) =
      map fst (py_dict (map (\<lambda>s. (sr_source_id s, s)) ingested))" by simp
  then show ?thesis by (simp add: py_dict_keys)
qed

lemma stated_twice:
  assumes "(\<lambda>f. (ft_key f, ft_value f)) ` set found = (\<Union>s \<in> set sources. set (claims_of s))"
  shows "{key. \<exists>f \<in> set found. \<exists>g \<in> set found. ft_key f = key \<and> ft_key g = key \<and> ft_value f \<noteq> ft_value g} =
    {key. \<exists>s \<in> set sources. \<exists>t \<in> set sources. \<exists>u v.
       u \<noteq> v \<and> (key, u) \<in> set (claims_of s) \<and> (key, v) \<in> set (claims_of t)}"
proof -
  have stated: "(\<exists>f \<in> set found. ft_key f = key \<and> ft_value f = v) \<longleftrightarrow> (\<exists>s \<in> set sources. (key, v) \<in> set (claims_of s))" for key v
  proof -
    have "(\<exists>f \<in> set found. ft_key f = key \<and> ft_value f = v) \<longleftrightarrow> (key, v) \<in> (\<lambda>f. (ft_key f, ft_value f)) ` set found"
      by auto
    then show ?thesis unfolding assms by simp
  qed
  have "(\<exists>f \<in> set found. \<exists>g \<in> set found. ft_key f = key \<and> ft_key g = key \<and> ft_value f \<noteq> ft_value g) \<longleftrightarrow>
      (\<exists>u v. u \<noteq> v \<and> (\<exists>f \<in> set found. ft_key f = key \<and> ft_value f = u) \<and> (\<exists>f \<in> set found. ft_key f = key \<and> ft_value f = v))" for key
    by blast
  then show ?thesis unfolding stated by blast
qed

lemma undisputed:
  assumes "\<exists>s \<in> set sources. (key, u) \<in> set (claims_of s)"
  shows "key \<notin> {key. \<exists>s \<in> set sources. \<exists>t \<in> set sources. \<exists>u v.
       u \<noteq> v \<and> (key, u) \<in> set (claims_of s) \<and> (key, v) \<in> set (claims_of t)} \<longleftrightarrow>
    (\<forall>s \<in> set sources. \<forall>v. (key, v) \<in> set (claims_of s) \<longrightarrow> v = u)"
  using assms by blast

text \<open>
  C31. What a research call reports is determined by the lines \<open>FACT: key = value\<close> of the sources it returns. The
  sources have different identifiers. There is one fact for each pair of a key and a value that some source states,
  and no other; its source identifiers are, in order, those of exactly the returned sources that state the pair. The
  conflicts are about exactly the keys for which the sources state two different values, and a fact is marked verified
  exactly when at least two sources state it and no source states another value for its key.
\<close>
theorem research_facts_spec:
  assumes "research rv words limit st = (Inr (sources, facts, conflicts), st')"
  shows "distinct (map sr_source_id sources) \<and>
    distinct (map (\<lambda>f. (ft_key f, ft_value f)) facts) \<and>
    (\<lambda>f. (ft_key f, ft_value f)) ` set facts = (\<Union>s \<in> set sources. set (claims_of s)) \<and>
    (\<forall>f \<in> set facts. sorted (ft_source_ids f) \<and> distinct (ft_source_ids f) \<and>
       set (ft_source_ids f) = sr_source_id ` {s \<in> set sources. (ft_key f, ft_value f) \<in> set (claims_of s)}) \<and>
    cf_key ` set conflicts = {key. \<exists>s \<in> set sources. \<exists>t \<in> set sources. \<exists>u v.
       u \<noteq> v \<and> (key, u) \<in> set (claims_of s) \<and> (key, v) \<in> set (claims_of t)} \<and>
    (\<forall>f \<in> set facts. ft_verified f \<longleftrightarrow>
       2 \<le> length (ft_source_ids f) \<and>
       (\<forall>s \<in> set sources. \<forall>v. (ft_key f, v) \<in> set (claims_of s) \<longrightarrow> v = ft_value f))"
proof -
  let ?kv = "\<lambda>f. (ft_key f, ft_value f)"
  obtain ingested found w1 w2 w3 where unique: "sources = map snd (py_dict (map (\<lambda>s. (sr_source_id s, s)) ingested))"
    and found: "extract_facts sources w1 = (Inr found, w2)"
    and conflicts: "detect_conflicts rv found w2 = (Inr conflicts, w3)"
    and facts: "facts = map (mark_verified (cf_key ` set conflicts)) found"
    using research_InrD[OF assms] by blast
  note made = extract_facts_InrD[OF found]
  have kv: "map ?kv facts = map ?kv found" unfolding facts by (simp add: mark_verified_def comp_def)
  then have "?kv ` set facts = ?kv ` set found" by (metis list.set_map)
  with made have claimed: "?kv ` set found = (\<Union>s \<in> set sources. set (claims_of s))"
    "?kv ` set facts = (\<Union>s \<in> set sources. set (claims_of s))" by simp_all
  have disputed: "cf_key ` set conflicts = {key. \<exists>s \<in> set sources. \<exists>t \<in> set sources. \<exists>u v.
       u \<noteq> v \<and> (key, u) \<in> set (claims_of s) \<and> (key, v) \<in> set (claims_of t)}"
    unfolding detect_conflicts_InrD[OF conflicts] by (rule stated_twice[OF claimed(1)])
  have ids: "ft_source_ids f = sort (remdups (asserting sources (?kv f)))" if "f \<in> set facts" for f
    using that made unfolding facts by (auto simp: mark_verified_def)
  have "ft_verified f \<longleftrightarrow> 2 \<le> length (ft_source_ids f) \<and> ft_key f \<notin> cf_key ` set conflicts" if "f \<in> set facts" for f
    using that unfolding facts by (auto simp: mark_verified_def)
  moreover have "ft_key f \<notin> cf_key ` set conflicts \<longleftrightarrow>
      (\<forall>s \<in> set sources. \<forall>v. (ft_key f, v) \<in> set (claims_of s) \<longrightarrow> v = ft_value f)" if "f \<in> set facts" for f
    unfolding disputed by (rule undisputed) (use that claimed(2) in blast)
  ultimately show ?thesis
    using unique_sources[of ingested] made kv claimed disputed ids
    unfolding unique[symmetric] by (simp add: asserting_def)
qed

definition example_item :: "string \<Rightarrow> RetrievalItem" where
  "example_item content0 = \<lparr>it_item_id = ''i'', it_source_type = ''note'', it_source = ''s'', it_source_location = [],
     it_content = content0, it_content_hash = [], it_score = 1, it_snapshot_id = None, it_metadata = []\<rparr>"

definition example_env :: research_env where
  "example_env = \<lparr>rv_search = (\<lambda>words limit. ret [example_item ''fact:k=1'', example_item ''fact:k=2'']),
     rv_html_events = (\<lambda>s. []), rv_unescape = id, rv_netloc_ok = (\<lambda>s. True), rv_http_url = Inr,
     rv_sha256 = (\<lambda>s. replicate 63 CHR ''0'' @ (if contains ''=1'' s then ''1'' else ''2'')),
     rv_py_str = (\<lambda>j. []), rv_float = (\<lambda>j. None), rv_datetime = (\<lambda>j. None), rv_repr = id\<rparr>"

definition example_state :: research_state where
  "example_state = \<lparr>rt_world = quiet_world empty_db, rt_sources = []\<rparr>"

definition example_outcome :: "exn + (ResearchSource list \<times> ResearchFact list \<times> ResearchConflict list)" where
  "example_outcome = fst (research example_env ''k'' 5 example_state)"

lemma example_research:
  "case_sum (\<lambda>e. False) (\<lambda>(sources, facts, conflicts).
     map (\<lambda>f. (ft_key f, ft_value f, length (ft_source_ids f), ft_verified f)) facts =
       [(''k'', ''1'', 1, False), (''k'', ''2'', 1, False)] \<and> map cf_key conflicts = [''k'']) example_outcome"
  by code_simp

theorem research_facts_spec_witness:
  "\<exists>sources facts conflicts st. research example_env ''k'' 5 example_state = (Inr (sources, facts, conflicts), st) \<and>
     length facts = 2 \<and> cf_key ` set conflicts = {''k''} \<and> distinct (map sr_source_id sources)"
proof -
  obtain sources facts conflicts where out: "example_outcome = Inr (sources, facts, conflicts)"
  proof (cases example_outcome)
    case (Inl e)
    show thesis using example_research unfolding Inl sum.case by (rule FalseE)
  next
    case (Inr found)
    then show thesis by (cases found) (rule that, simp)
  qed
  obtain st where run: "research example_env ''k'' 5 example_state = (Inr (sources, facts, conflicts), st)"
    using out unfolding example_outcome_def by (metis prod.collapse)
  have shown: "map (\<lambda>f. (ft_key f, ft_value f, length (ft_source_ids f), ft_verified f)) facts =
      [(''k'', ''1'', 1, False), (''k'', ''2'', 1, False)]" "map cf_key conflicts = [''k'']"
    using example_research unfolding out by simp_all
  have "length facts = 2" using arg_cong[OF shown(1), of length] by simp
  moreover have "cf_key ` set conflicts = {''k''}" using arg_cong[OF shown(2), of set] by simp
  moreover have "distinct (map sr_source_id sources)" using research_facts_spec[OF run] by (rule conjunct1)
  ultimately show ?thesis using run by blast
qed

end
