(* ===== verification/Command_Line.thy ===== *)
theory Command_Line
  imports Application
begin

text \<open>
  \<open>cli/app.py\<close>: the commands over the application service, what they print, and the entry point that turns
  errors into exit codes. A command is what the argument parser makes of the command line: required options
  present, ranges checked, paths resolved. Each invocation is a process of its own; what it shares with
  the next one is the database.
\<close>

section \<open>Commands and results\<close>

record run_options =
  ro_objective :: "string option"
  ro_objective_file :: "string option"
  ro_repository :: "string option"
  ro_steps :: "int option"
  ro_no_execute :: bool
  ro_idempotency_key :: "string option"

datatype command = Cmd_Init
  | Cmd_Index string
  | Cmd_Run run_options
  | Cmd_Status string
  | Cmd_Inspect_Plan string
  | Cmd_Inspect_Checkpoint string
  | Cmd_Pause string string "string option"
  | Cmd_Resume string "int option"
  | Cmd_Cancel string string "string option"
  | Cmd_Report string string "string option"
  | Cmd_Verify string
  | Cmd_Cleanup bool
  | Cmd_Doctor

text \<open>What a command emits: a value of its own making or one that pydantic dumps.\<close>

datatype cli_value = Plain json
  | Run_Value RunRecord
  | Advanced_Value RunAdvanceResult
  | Plan_Value PlanSpec
  | Checkpoint_Value CheckpointEnvelope
  | Lifecycle_Value LifecycleRequest RunRecord
  | Retention_Value RetentionCleanupResult

text \<open>
  The end of a command under the parser: lines on the standard output and an exit status, or a usage error.
\<close>

datatype cli_end = Printed "string list" int | Bad_Parameter string

text \<open>
  The surroundings: the settings that the environment variables give, the file operations, Alembic
  (\<open>cl_ini\<close> finds its configuration in the checkout or the installation), the state of the database, and
  the renderings of pydantic, \<open>json.dumps\<close> and \<open>str\<close>.
\<close>

record cli_env =
  cl_platform :: platform
  cl_settings :: "exn + AppSettings"
  cl_prepare :: "AppSettings \<Rightarrow> exn + unit"
  cl_alembic :: bool
  cl_checkout_ini :: "string option"
  cl_installed_ini :: "string option"
  cl_upgrade :: "string \<Rightarrow> unit io"
  cl_resolve :: "string \<Rightarrow> exn + string"
  cl_resolve_any :: "string \<Rightarrow> string"
  cl_read_text :: "string \<Rightarrow> exn + string"
  cl_write_text :: "string \<Rightarrow> string \<Rightarrow> exn + unit"
  cl_ping :: "world \<Rightarrow> bool"
  cl_schema_ready :: "world \<Rightarrow> bool"
  cl_python :: string
  cl_dump :: "cli_value \<Rightarrow> json"
  cl_dumps :: "json \<Rightarrow> string"
  cl_dumps_indented :: "json \<Rightarrow> string"
  cl_py_str :: "json \<Rightarrow> string"

section \<open>Output\<close>

fun emitted :: "cli_env \<Rightarrow> bool \<Rightarrow> json \<Rightarrow> string list" where
  "emitted ce True j = [cl_dumps_indented ce j]"
| "emitted ce False (JObj kvs) = map (\<lambda>(k, v). k @ '': '' @ cl_py_str ce v) kvs"
| "emitted ce False (JArr vs) = map (\<lambda>v. case v of JStr s \<Rightarrow> s | _ \<Rightarrow> cl_dumps ce v) vs"
| "emitted ce False j = [cl_py_str ce j]"

definition emit :: "cli_env \<Rightarrow> bool \<Rightarrow> cli_value \<Rightarrow> string list" where
  "emit ce json_output v = emitted ce json_output (case v of Plain j \<Rightarrow> j | _ \<Rightarrow> cl_dump ce v)"

text \<open>The fuel of the model may end while a run is being advanced; then there is no result yet.\<close>

type_synonym command_run = "cli_end option io"

definition printing :: "cli_env \<Rightarrow> bool \<Rightarrow> cli_value \<Rightarrow> command_run" where
  "printing ce json_output v = ret (Some (Printed (emit ce json_output v) 0))"

section \<open>Settings\<close>

definition settings_for_repository :: "cli_env \<Rightarrow> string option \<Rightarrow> exn + AppSettings" where
  "settings_for_repository ce repository = (case cl_settings ce of
     Inl e \<Rightarrow> Inl e
   | Inr s \<Rightarrow> (case repository of
       None \<Rightarrow> Inr s
     | Some path \<Rightarrow> map_sum id (\<lambda>resolved. s\<lparr>as_repository_root := resolved\<rparr>) (cl_resolve ce path)))"

text \<open>\<open>_with_application\<close>; the service of the application is \<open>build_application\<close>.\<close>

definition with_application :: "cli_env \<Rightarrow> string option \<Rightarrow> (AppSettings \<Rightarrow> service_env \<Rightarrow> 'a io) \<Rightarrow> 'a io" where
  "with_application ce repository operation =
     bnd (lift_sum (settings_for_repository ce repository)) (\<lambda>s. operation s (build_application (cl_platform ce) s))"

definition alembic_configuration_path :: "cli_env \<Rightarrow> string option" where
  "alembic_configuration_path ce = (case cl_checkout_ini ce of Some p \<Rightarrow> Some p | None \<Rightarrow> cl_installed_ini ce)"

text \<open>\<open>x or default\<close> of an optional text.\<close>

definition given_or :: "string option \<Rightarrow> string \<Rightarrow> string" where
  "given_or x fallback = (case x of None \<Rightarrow> fallback | Some [] \<Rightarrow> fallback | Some (c # cs) \<Rightarrow> c # cs)"

abbreviation cli_owner :: string where
  "cli_owner \<equiv> ''local''"

section \<open>The commands\<close>

definition cli_init :: "cli_env \<Rightarrow> bool \<Rightarrow> command_run" where
  "cli_init ce json_output =
     bnd (lift_sum (cl_settings ce)) (\<lambda>s.
     bnd (lift_sum (cl_prepare ce s)) (\<lambda>_.
     if \<not> cl_alembic ce
     then ret (Some (Bad_Parameter ''Alembic is not installed; install the project dependencies first.''))
     else (case alembic_configuration_path ce of
         None \<Rightarrow> ret (Some (Bad_Parameter ''Alembic migration assets are missing from this installation''))
       | Some path \<Rightarrow>
           bnd (cl_upgrade ce path) (\<lambda>_.
           printing ce json_output (Plain (JObj [(''status'', JStr ''initialized''),
             (''database'', JStr (as_sync_database_url s))]))))))"

definition cli_index :: "cli_env \<Rightarrow> string \<Rightarrow> bool \<Rightarrow> command_run" where
  "cli_index ce path json_output =
     with_application ce (Some path) (\<lambda>s sv.
       bnd (index_repository sv (as_repository_root s)) (\<lambda>snapshot_id.
       printing ce json_output (Plain (JObj [(''snapshot_id'', JStr snapshot_id),
         (''repository'', JStr (as_repository_root s))]))))"

definition run_key :: "service_env \<Rightarrow> string option \<Rightarrow> string \<Rightarrow> string" where
  "run_key sv key objective_text = given_or key (''cli-'' @ take 24 (sv_sha256 sv objective_text))"

definition run_text :: "cli_env \<Rightarrow> nat \<Rightarrow> run_options \<Rightarrow> string \<Rightarrow> bool \<Rightarrow> command_run" where
  "run_text ce fuel opts objective_text json_output =
     with_application ce (ro_repository opts) (\<lambda>s sv.
       bnd (service_create_run sv objective_text cli_owner (run_key sv (ro_idempotency_key opts) objective_text)
         (Some (as_repository_root s))) (\<lambda>created.
       if ro_no_execute opts then printing ce json_output (Run_Value created)
       else bnd (service_advance sv fuel (rr_run_id created) cli_owner (ro_steps opts)) (\<lambda>result.
         ret (map_option (\<lambda>r. Printed (emit ce json_output (Advanced_Value r)) 0) result))))"

definition run_objective :: "cli_env \<Rightarrow> nat \<Rightarrow> run_options \<Rightarrow> bool \<Rightarrow> command_run" where
  "run_objective ce fuel opts json_output = (case (ro_objective opts, ro_objective_file opts) of
     (Some text0, None) \<Rightarrow> run_text ce fuel opts text0 json_output
   | (None, Some path) \<Rightarrow>
       bnd (lift_sum (cl_read_text ce path)) (\<lambda>text0. run_text ce fuel opts text0 json_output)
   | _ \<Rightarrow> ret (Some (Bad_Parameter ''provide exactly one of --objective or --objective-file'')))"

definition cli_status :: "cli_env \<Rightarrow> string \<Rightarrow> bool \<Rightarrow> command_run" where
  "cli_status ce run_id json_output = with_application ce None (\<lambda>s sv.
     bnd (status run_id cli_owner) (\<lambda>run. printing ce json_output (Run_Value run)))"

definition inspect_plan :: "cli_env \<Rightarrow> string \<Rightarrow> bool \<Rightarrow> command_run" where
  "inspect_plan ce run_id json_output = with_application ce None (\<lambda>s sv.
     bnd (status run_id cli_owner) (\<lambda>_.
     bnd (get_plan run_id None) (\<lambda>plan. printing ce json_output (Plan_Value plan))))"

definition inspect_checkpoint :: "cli_env \<Rightarrow> string \<Rightarrow> bool \<Rightarrow> command_run" where
  "inspect_checkpoint ce run_id json_output = with_application ce None (\<lambda>s sv.
     bnd (latest_checkpoint sv run_id cli_owner) (\<lambda>c. printing ce json_output (Checkpoint_Value c)))"

text \<open>File a request, then advance to the boundary where it is applied.\<close>

definition request_then_advance ::
  "cli_env \<Rightarrow> nat \<Rightarrow> service_env \<Rightarrow> string \<Rightarrow> LifecycleRequest io \<Rightarrow> bool \<Rightarrow> command_run" where
  "request_then_advance ce fuel sv run_id ask json_output =
     bnd ask (\<lambda>request.
     bnd (service_advance sv fuel run_id cli_owner None) (\<lambda>result.
     ret (map_option (\<lambda>r. Printed (emit ce json_output (Lifecycle_Value request (ra_run r))) 0) result)))"

definition pause_key :: "string option \<Rightarrow> string \<Rightarrow> string \<Rightarrow> string" where
  "pause_key key run_id reason = given_or key (''pause-'' @ run_id @ ''-'' @ reason)"

definition cancel_key :: "string option \<Rightarrow> string \<Rightarrow> string \<Rightarrow> string" where
  "cancel_key key run_id reason = given_or key (''cancel-'' @ run_id @ ''-'' @ reason)"

definition cli_pause :: "cli_env \<Rightarrow> nat \<Rightarrow> string \<Rightarrow> string \<Rightarrow> string option \<Rightarrow> bool \<Rightarrow> command_run" where
  "cli_pause ce fuel run_id reason key json_output = with_application ce None (\<lambda>s sv.
     request_then_advance ce fuel sv run_id
       (service_pause sv run_id cli_owner reason (pause_key key run_id reason)) json_output)"

definition cli_resume :: "cli_env \<Rightarrow> nat \<Rightarrow> string \<Rightarrow> int option \<Rightarrow> bool \<Rightarrow> command_run" where
  "cli_resume ce fuel run_id steps json_output = with_application ce None (\<lambda>s sv.
     bnd (service_resume sv fuel run_id cli_owner steps None) (\<lambda>result.
     ret (map_option (\<lambda>r. Printed (emit ce json_output (Run_Value (ra_run r))) 0) result)))"

definition cli_cancel :: "cli_env \<Rightarrow> nat \<Rightarrow> string \<Rightarrow> string \<Rightarrow> string option \<Rightarrow> bool \<Rightarrow> command_run" where
  "cli_cancel ce fuel run_id reason key json_output = with_application ce None (\<lambda>s sv.
     request_then_advance ce fuel sv run_id
       (service_cancel sv run_id cli_owner reason (cancel_key key run_id reason)) json_output)"

definition cli_report :: "cli_env \<Rightarrow> string \<Rightarrow> string \<Rightarrow> string option \<Rightarrow> command_run" where
  "cli_report ce run_id format output = with_application ce None (\<lambda>s sv.
     bnd (service_report sv run_id cli_owner format) (\<lambda>content.
     case output of
       None \<Rightarrow> ret (Some (Printed [content] 0))
     | Some path \<Rightarrow> bnd (lift_sum (cl_write_text ce path content)) (\<lambda>_. ret (Some (Printed [path] 0)))))"

definition cli_verify :: "cli_env \<Rightarrow> string \<Rightarrow> bool \<Rightarrow> command_run" where
  "cli_verify ce run_id json_output = with_application ce None (\<lambda>s sv.
     bnd (service_verify sv run_id cli_owner) (\<lambda>messages.
     printing ce json_output (Plain (JArr (map JStr messages)))))"

definition cli_cleanup :: "cli_env \<Rightarrow> bool \<Rightarrow> bool \<Rightarrow> command_run" where
  "cli_cleanup ce apply_it json_output = with_application ce None (\<lambda>s sv.
     bnd (cleanup_retention sv (\<not> apply_it)) (\<lambda>r. printing ce json_output (Retention_Value r)))"

definition doctor :: "cli_env \<Rightarrow> bool \<Rightarrow> command_run" where
  "doctor ce json_output = with_application ce None (\<lambda>s sv w.
     let database = cl_ping ce w; schema = cl_schema_ready ce w in
     (Inr (Some (Printed (emit ce json_output (Plain (JObj
        [(''python'', JStr (cl_python ce)), (''configuration'', JStr ''valid''),
         (''database'', JStr (if database then ''reachable'' else ''unreachable'')),
         (''schema'', JStr (if schema then ''ready'' else ''migration_required'')),
         (''repository_root'', JStr (cl_resolve_any ce (as_repository_root s))),
         (''network_access'', JBool (as_network_access s)),
         (''file_writes'', JBool (as_allow_file_writes s)), (''shell'', JBool (as_allow_shell s))])))
        (if database \<and> schema then 0 else 2))), w))"

fun invoke_command :: "cli_env \<Rightarrow> nat \<Rightarrow> command \<Rightarrow> bool \<Rightarrow> command_run" where
  "invoke_command ce fuel Cmd_Init j = cli_init ce j"
| "invoke_command ce fuel (Cmd_Index path) j = cli_index ce path j"
| "invoke_command ce fuel (Cmd_Run opts) j = run_objective ce fuel opts j"
| "invoke_command ce fuel (Cmd_Status run_id) j = cli_status ce run_id j"
| "invoke_command ce fuel (Cmd_Inspect_Plan run_id) j = inspect_plan ce run_id j"
| "invoke_command ce fuel (Cmd_Inspect_Checkpoint run_id) j = inspect_checkpoint ce run_id j"
| "invoke_command ce fuel (Cmd_Pause run_id reason key) j = cli_pause ce fuel run_id reason key j"
| "invoke_command ce fuel (Cmd_Resume run_id steps) j = cli_resume ce fuel run_id steps j"
| "invoke_command ce fuel (Cmd_Cancel run_id reason key) j = cli_cancel ce fuel run_id reason key j"
| "invoke_command ce fuel (Cmd_Report run_id format output) j = cli_report ce run_id format output"
| "invoke_command ce fuel (Cmd_Verify run_id) j = cli_verify ce run_id j"
| "invoke_command ce fuel (Cmd_Cleanup apply_it) j = cli_cleanup ce apply_it j"
| "invoke_command ce fuel Cmd_Doctor j = doctor ce j"

text \<open>
  The entry point. The parser ends the process with the status of a command that returned, and with
  status 2 after a usage error. Any other exception comes out of \<open>app()\<close>: \<open>main\<close> prints an error line for the
  two expected kinds and raises \<open>typer.Exit(2)\<close>, which nothing around \<open>main\<close> catches.
\<close>

datatype process_end = System_Exit int "string list" | Raised_Typer_Exit int | Raised exn

fun expected_error :: "exn \<Rightarrow> bool" where
  "expected_error PydanticValidationError = True"
| "expected_error (Durable c) = True"
| "expected_error e = False"

definition main :: "cli_env \<Rightarrow> nat \<Rightarrow> command \<Rightarrow> bool \<Rightarrow> world \<Rightarrow> process_end option \<times> world" where
  "main ce fuel c json_output w = (case invoke_command ce fuel c json_output w of
     (Inr None, w') \<Rightarrow> (None, w')
   | (Inr (Some (Printed lines code)), w') \<Rightarrow> (Some (System_Exit code lines), w')
   | (Inr (Some (Bad_Parameter message)), w') \<Rightarrow> (Some (System_Exit 2 []), w')
   | (Inl e, w') \<Rightarrow>
       (if expected_error e then (Some (Raised_Typer_Exit 2), w')
        else (Some (Raised e), w')))"

section \<open>Commands keep the stored histories\<close>

text \<open>What is asked of the surroundings: the migration and the host do not rewrite stored rows.\<close>

definition durable_cli :: "cli_env \<Rightarrow> bool" where
  "durable_cli ce \<longleftrightarrow> durable_platform (cl_platform ce) \<and> (\<forall>path w. outcome durable (\<lambda>_ _. True) w (cl_upgrade ce path))"

lemma out_printing: "outcome durable (\<lambda>_ _. True) w (printing ce j v)"
  unfolding printing_def by (intro dur.out_ret) simp

lemma out_with_application:
  assumes "\<And>s sv. durable_service sv \<Longrightarrow> outcome durable (\<lambda>_ _. True) w (operation s sv)" and "durable_cli ce"
  shows "outcome durable (\<lambda>_ _. True) w (with_application ce r operation)"
  unfolding with_application_def using assms
  by (intro dur.out_bnd_lift assms(1) application_is_durable) (simp add: durable_cli_def)

lemma out_then_print:
  assumes "outcome durable (\<lambda>_ _. True) w m" and "\<And>x w. outcome durable (\<lambda>_ _. True) w (f x)"
  shows "outcome durable (\<lambda>_ _. True) w (bnd m f)"
  using dur.out_bnd[OF assms(1)] assms(2) by blast

lemma out_run_text:
  assumes "good w" and "durable_cli ce"
  shows "outcome durable (\<lambda>_ _. True) w (run_text ce fuel o0 t j)"
  unfolding run_text_def
proof (rule out_with_application[OF _ assms(2)])
  fix s sv assume sv: "durable_service sv"
  show "outcome durable (\<lambda>_ _. True) w
    (bnd (service_create_run sv t cli_owner (run_key sv (ro_idempotency_key o0) t) (Some (as_repository_root s))) (\<lambda>created.
     if ro_no_execute o0 then printing ce j (Run_Value created)
     else bnd (service_advance sv fuel (rr_run_id created) cli_owner (ro_steps o0)) (\<lambda>result.
       ret (map_option (\<lambda>r. Printed (emit ce j (Advanced_Value r)) 0) result))))"
    by (intro out_next[OF assms(1) out_service_create_run[OF assms(1) sv]])
      (auto intro!: out_printing dur.out_bnd[OF out_service_advance] dur.out_ret sv)
qed

lemma out_request_then_advance:
  assumes "good w" and "durable_service sv" and "outcome durable (\<lambda>_ _. True) w ask"
  shows "outcome durable (\<lambda>_ _. True) w (request_then_advance ce fuel sv i ask j)"
  unfolding request_then_advance_def
  by (intro out_next[OF assms(1,3)] dur.out_bnd[OF out_service_advance[OF _ assms(2)]] dur.out_ret) auto

lemma out_invoke_command:
  assumes "good w" and "durable_cli ce"
  shows "outcome durable (\<lambda>_ _. True) w (invoke_command ce fuel c j)"
proof (cases c)
  case Cmd_Init
  then show ?thesis using assms(2)
    by (auto simp: cli_init_def durable_cli_def intro!: dur.out_bnd_lift dur.out_ret out_then_print out_printing split: option.split)
next
  case Cmd_Doctor
  then show ?thesis using assms(2)
    by (auto simp: doctor_def intro!: out_with_application) (simp add: outcome_def Let_def)
next
  case (Cmd_Run opts)
  then show ?thesis
    by (auto simp: run_objective_def intro!: dur.out_bnd_lift dur.out_ret out_run_text[OF assms] split: option.split)
next
  case (Cmd_Pause i reason key)
  then show ?thesis
    by (auto simp: cli_pause_def intro!: out_with_application[OF _ assms(2)] out_request_then_advance[OF assms(1)]
        out_service_pause[OF assms(1)])
next
  case (Cmd_Cancel i reason key)
  then show ?thesis
    by (auto simp: cli_cancel_def intro!: out_with_application[OF _ assms(2)] out_request_then_advance[OF assms(1)]
        out_service_cancel[OF assms(1)])
next
  case (Cmd_Resume i steps)
  then show ?thesis
    by (auto simp: cli_resume_def intro!: out_with_application[OF _ assms(2)] out_then_print dur.out_ret
        out_service_resume[OF assms(1)])
next
  case (Cmd_Inspect_Plan i)
  have plan: "outcome durable (\<lambda>_ _. True) w (get_plan i v)" for w v unfolding get_plan_def by (rule out_query)
  show ?thesis unfolding Cmd_Inspect_Plan
    by (auto simp: inspect_plan_def intro!: out_with_application[OF _ assms(2)] out_then_print out_printing plan
        out_service_reads(1)[OF assms(1)])
qed (auto simp: cli_index_def cli_status_def inspect_checkpoint_def cli_report_def cli_verify_def cli_cleanup_def
    intro!: out_with_application[OF _ assms(2)] out_then_print out_printing dur.out_bnd_lift dur.out_ret
      out_service_reads[OF assms(1)] split: option.split)

text \<open>
  Whatever commands are entered one after the other, and however each ends, the stored histories are kept.
\<close>

definition shell_session :: "cli_env \<Rightarrow> nat \<Rightarrow> (command \<times> bool) list \<Rightarrow> world \<Rightarrow> world" where
  "shell_session ce fuel cs w = foldl (\<lambda>w (c, j). snd (main ce fuel c j w)) w cs"

lemma main_world: "snd (main ce fuel c j w) = snd (invoke_command ce fuel c j w)"
  by (auto simp: main_def split: prod.split sum.split option.split cli_end.split)

lemma shell_session_durable:
  assumes "good w" and "durable_cli ce"
  shows "durable w (shell_session ce fuel cs w)"
  using assms(1) unfolding shell_session_def
proof (induction cs arbitrary: w)
  case (Cons c cs)
  have d: "durable w (snd (main ce fuel (fst c) (snd c) w))"
    unfolding main_world using outcomeD[OF out_invoke_command[OF Cons.prems assms(2)]] by (metis prod.collapse)
  then show ?case using Cons.IH[OF durable_good[OF d Cons.prems]]
    by (auto intro: durable_trans simp: case_prod_beta)
qed simp

lemma commands_keep_histories:
  assumes "good w" and "durable_cli ce"
  shows "wf_db (w_db (shell_session ce fuel (cs @ ds) w)) \<and>
    histories_kept (w_db (shell_session ce fuel cs w)) (w_db (shell_session ce fuel (cs @ ds) w))"
proof -
  have "good (shell_session ce fuel cs w)" using durable_good[OF shell_session_durable[OF assms] assms(1)] .
  moreover have "shell_session ce fuel (cs @ ds) w = shell_session ce fuel ds (shell_session ce fuel cs w)"
    by (simp add: shell_session_def)
  ultimately show ?thesis
    using durable_histories[OF shell_session_durable[OF _ assms(2)]] by metis
qed

section \<open>A pause with the default key\<close>

text \<open>A pause request is filed under a key: the key row names a stored request that can be read.\<close>

definition pause_filed :: "service_env \<Rightarrow> string \<Rightarrow> string \<Rightarrow> string \<Rightarrow> string \<Rightarrow> database \<Rightarrow> bool" where
  "pause_filed sv owner i reason key d \<longleftrightarrow> (\<exists>k row q.
     get_key (idempotency_pk (sv_sha256 sv) owner (lifecycle_action Pause i) key) d = Some k \<and>
     ik_request_hash k = reason_hash sv i reason \<and> row \<in> set (db_pause_requests d) \<and>
     rq_request_id row = ik_resource_id k \<and> lifecycle_from_row row Pause = Inr q)"

lemma request_step_readable:
  "request_step row row' \<Longrightarrow> lifecycle_from_row row k = Inr q \<Longrightarrow> \<exists>q'. lifecycle_from_row row' k = Inr q'"
  by (auto simp: request_step_def lifecycle_from_row_def checked_def valid_LifecycleRequest_def split: if_splits)

lemma pause_filed_evolves:
  assumes "pause_filed sv owner i reason key d" and "evolves d d'" and "wf_db d"
  shows "pause_filed sv owner i reason key d'"
proof -
  obtain k row q where k: "get_key (idempotency_pk (sv_sha256 sv) owner (lifecycle_action Pause i) key) d = Some k"
    "ik_request_hash k = reason_hash sv i reason" "row \<in> set (db_pause_requests d)"
    "rq_request_id row = ik_resource_id k" "lifecycle_from_row row Pause = Inr q"
    using assms(1) unfolding pause_filed_def by blast
  have "rows_step request_step (db_pause_requests d) (db_pause_requests d')"
    using assms(2,3) by (simp add: evolves_def tables_step_def)
  then obtain row' where row': "row' \<in> set (db_pause_requests d')" "request_step row row'"
    using k(3) by (auto simp: rows_step_def)
  moreover have "rq_request_id row' = ik_resource_id k" using row'(2) k(4) by (auto simp: request_step_def)
  moreover obtain q' where "lifecycle_from_row row' Pause = Inr q'" using request_step_readable[OF row'(2) k(5)] by blast
  ultimately show ?thesis using get_key_evolves[OF k(1) assms(2,3)] k(2) unfolding pause_filed_def by blast
qed

lemma map_sum_InrD: "map_sum id f x = Inr y \<Longrightarrow> \<exists>z. x = Inr z"
  by (cases x) simp_all

lemma found_is_filed:
  assumes "find_idempotent_lifecycle_request (sv_sha256 sv) owner i Pause key (reason_hash sv i reason) w = (Inr (Some q), w')"
  shows "pause_filed sv owner i reason key (w_db w')"
  using query_InrD[OF assms[unfolded find_idempotent_lifecycle_request_def]]
  by (auto simp: pause_filed_def split: option.splits if_splits sum.splits dest!: tbl_get_SomeD map_sum_InrD)

lemma filing_files:
  assumes "file_request sv Pause i owner reason key w = (Inr q, w')" and "py_strip key \<noteq> []"
  shows "pause_filed sv owner i reason key (w_db w')"
proof -
  obtain ch cs where key: "key = ch # cs" using assms(2) by (cases key) (auto simp: py_strip_def)
  obtain rid now0 w1 where
    valid: "valid_LifecycleRequest \<lparr>lq_request_id = rid, lq_run_id = i, lq_kind = Pause, lq_reason = reason,
      lq_requested_by = owner, lq_status = LS_PENDING, lq_created_at = now0, lq_applied_at = None\<rparr>"
    and made0: "create_lifecycle_request (sv_sha256 sv) \<lparr>lq_request_id = rid, lq_run_id = i, lq_kind = Pause,
      lq_reason = reason, lq_requested_by = owner, lq_status = LS_PENDING, lq_created_at = now0, lq_applied_at = None\<rparr>
      (Some key) (Some (reason_hash sv i reason)) w1 = (Inr q, w')"
    using assms(1) by (auto simp: file_request_def lift_sum_def checked_def dest!: bnd_returns split: if_splits)
  define q0 where "q0 = \<lparr>lq_request_id = rid, lq_run_id = i, lq_kind = Pause, lq_reason = reason,
    lq_requested_by = owner, lq_status = LS_PENDING, lq_created_at = now0, lq_applied_at = None\<rparr>"
  have q0: "lq_run_id q0 = i" "lq_kind q0 = Pause" "lq_requested_by q0 = owner" "valid_LifecycleRequest q0"
    using valid by (simp_all add: q0_def)
  note made = made0[folded q0_def]
  have row: "lifecycle_from_row (lifecycle_row q0) Pause = Inr q0" "rq_request_id (lifecycle_row q0) = lq_request_id q0"
    using valid by (simp_all add: lifecycle_from_row_def lifecycle_row_def checked_def q0_def)
  obtain now w2 where body: "tx (\<lambda>d. case get_key (idempotency_pk (sv_sha256 sv) owner (lifecycle_action Pause i) key) d of
        Some existing \<Rightarrow>
          if Some (ik_request_hash existing) \<noteq> Some (reason_hash sv i reason) then Inl (Durable IdempotencyConflictError)
          else (case tbl_get rq_request_id (ik_resource_id existing) (db_pause_requests d) of
              None \<Rightarrow> Inl (Durable DatabaseError)
            | Some row \<Rightarrow> (case lifecycle_from_row row Pause of Inl e \<Rightarrow> Inl e | Inr stored \<Rightarrow> Inr (stored, d)))
      | None \<Rightarrow>
          (if \<not> key_free (new_key (sv_sha256 sv) owner (lifecycle_action Pause i) key (reason_hash sv i reason) (lq_request_id q0) now) d
           then Inl IntegrityError
           else (case add_request q0 d of Inl e \<Rightarrow> Inl e
             | Inr d' \<Rightarrow> Inr (q0, add_key (new_key (sv_sha256 sv) owner (lifecycle_action Pause i) key
                 (reason_hash sv i reason) (lq_request_id q0) now) d')))) w2 = (Inr q, w')"
    using bnd_returns[OF made[unfolded create_lifecycle_request_def key list.case option.case Let_def q0(1-3) requests_of.simps]]
    unfolding key by blast
  let ?d = "w_rely w2 (w_txn w2) (w_db w2)"
  show ?thesis
  proof (cases "get_key (idempotency_pk (sv_sha256 sv) owner (lifecycle_action Pause i) key) ?d")
    case (Some k)
    then show ?thesis using tx_InrD[OF body]
      by (auto simp: pause_filed_def split: option.splits if_splits sum.splits dest!: tbl_get_SomeD)
  next
    case None
    let ?k = "new_key (sv_sha256 sv) owner (lifecycle_action Pause i) key (reason_hash sv i reason) (lq_request_id q0) now"
    obtain d' where d': "add_request q0 ?d = Inr d'" "w_db w' = add_key ?k d'"
      using tx_InrD[OF body] None by (auto simp: Let_def split: if_splits sum.splits)
    have "get_key (ik_idempotency_pk ?k) (add_key ?k d') = Some ?k"
      using d'(1) None by (intro get_added_key[of _ ?d]) (auto simp: new_key_def add_request_def q0 split: if_splits)
    moreover have "lifecycle_row q0 \<in> set (db_pause_requests (w_db w'))"
      using d' by (auto simp: add_request_def add_key_def q0 split: if_splits)
    ultimately show ?thesis using row unfolding pause_filed_def d'(2)
      by (intro exI[of _ ?k] exI[of _ "lifecycle_row q0"]) (simp add: new_key_def add_key_def)
  qed
qed

lemma pause_key_text:
  assumes "service_pause sv i owner reason key w = (Inr q, w')"
  shows "py_strip key \<noteq> []"
  using assms by (auto simp: service_pause_def require_key_def raise_def dest!: bnd_returns split: if_splits)

lemma pause_files:
  assumes "good w" and "service_pause sv i owner reason key w = (Inr q, w')"
  shows "pause_filed sv owner i reason key (w_db w')"
proof -
  note key = pause_key_text[OF assms(2)]
  obtain run w1 x w2 where own: "owned_run i owner w = (Inr run, w1)"
    and find: "find_idempotent_lifecycle_request (sv_sha256 sv) owner i Pause key (reason_hash sv i reason) w1 = (Inr x, w2)"
    and last: "(case x of Some q \<Rightarrow> ret q
     | None \<Rightarrow>
         if rr_state run \<notin> {R_RUNNING, R_PAUSE_REQUESTED} then raise (Durable DomainValidationError)
         else
           bnd (file_request sv Pause i owner reason key) (\<lambda>request.
           bnd (mark_pausing run) (\<lambda>_.
           bnd (publish i ''pause.requested''
             (JObj [(''request_id'', JStr (lq_request_id request)), (''reason'', JStr reason)]) None) (\<lambda>_.
           ret request)))) w2 = (Inr q, w')"
    using assms(2) key by (auto simp: service_pause_def require_key_def ret_def dest!: bnd_returns)
  have g1: "good w1" "seen_run run w1"
    using outcomeD[OF out_owned_run[OF assms(1)] own] outcomeD_val[OF out_owned_run[OF assms(1)] own]
      durable_good assms(1) by blast+
  have d2: "durable w1 w2" using outcomeD[OF out_find_idempotent_lifecycle_request find] .
  note g2 = durable_good[OF d2 g1(1)]
  show ?thesis
  proof (cases x)
    case (Some found)
    then show ?thesis using find last found_is_filed by (simp add: ret_def)
  next
    case None
    obtain w3 w4 u v where filed: "file_request sv Pause i owner reason key w2 = (Inr q, w3)"
      and marked: "mark_pausing run w3 = (Inr u, w4)"
      and told: "publish i ''pause.requested''
        (JObj [(''request_id'', JStr (lq_request_id q)), (''reason'', JStr reason)]) None w4 = (Inr v, w')"
      using last None by (auto simp: ret_def raise_def dest!: bnd_returns split: if_splits)
    have d3: "durable w2 w3" using outcomeD[OF out_file_request filed] .
    note g3 = durable_good[OF d3 g2]
    have "seen_run run w3" using seen_run_mono[OF g1(2) durable_trans[OF d2 d3] g1(1)] .
    then have d4: "durable w3 w4" using outcomeD[OF out_mark_pausing[OF g3] marked] by blast
    have "durable w4 w'" using outcomeD[OF out_publish told] .
    then have "evolves (w_db w3) (w_db w')" using durable_evolves[OF durable_trans[OF d4] g3] by blast
    then show ?thesis using pause_filed_evolves[OF filing_files[OF filed key]] good_wf[OF g3] by blast
  qed
qed

lemma quiet_owned_run:
  assumes "quiet w" and "wf_db (w_db w)" and "run \<in> set (db_runs (w_db w))" and "valid_RunRecord run"
  shows "owned_run (rr_run_id run) (rr_owner_id run) w = (Inr run, w\<lparr>w_txn := Suc (w_txn w)\<rparr>)"
proof -
  have "get_run_row (rr_run_id run) (w_db w) = Some run" using get_run_row_in assms(2,3) by blast
  then show ?thesis using assms(1,4)
    by (simp add: owned_run_def get_run_def bnd_def query_quiet run_from_row_eq checked_def ret_def)
qed

lemma pause_again:
  assumes "quiet w" and "wf_db (w_db w)" and "run \<in> set (db_runs (w_db w))" and "valid_RunRecord run"
    and "pause_filed sv (rr_owner_id run) (rr_run_id run) reason key (w_db w)" and "py_strip key \<noteq> []"
  shows "\<exists>q. service_pause sv (rr_run_id run) (rr_owner_id run) reason key w =
    (Inr q, w\<lparr>w_txn := Suc (Suc (w_txn w))\<rparr>)"
proof -
  obtain k row q where k: "get_key (idempotency_pk (sv_sha256 sv) (rr_owner_id run) (lifecycle_action Pause (rr_run_id run)) key) (w_db w) = Some k"
    "ik_request_hash k = reason_hash sv (rr_run_id run) reason" "row \<in> set (db_pause_requests (w_db w))"
    "rq_request_id row = ik_resource_id k" "lifecycle_from_row row Pause = Inr q"
    using assms(5) unfolding pause_filed_def by blast
  have "distinct (map rq_request_id (db_pause_requests (w_db w)))" using assms(2) by (simp add: wf_db_def)
  then have "tbl_get rq_request_id (ik_resource_id k) (db_pause_requests (w_db w)) = Some row"
    using tbl_get_in[OF _ k(3), of rq_request_id] k(4) by simp
  then have "find_idempotent_lifecycle_request (sv_sha256 sv) (rr_owner_id run) (rr_run_id run) Pause key
      (reason_hash sv (rr_run_id run) reason) (w\<lparr>w_txn := Suc (w_txn w)\<rparr>) = (Inr (Some q), w\<lparr>w_txn := Suc (Suc (w_txn w))\<rparr>)"
    using k assms(1) by (simp add: find_idempotent_lifecycle_request_def query_quiet)
  then show ?thesis
    using quiet_owned_run[OF assms(1-4)] assms(6) by (simp add: service_pause_def bnd_def require_key_def ret_def)
qed

text \<open>
  C36. A pause can be asked for once: without \<open>--idempotency-key\<close> the key of a pause is made of the run and the reason
  alone, so that once such a request was filed, the same command, entered at any later time, files no request
  and changes no row. All that it does is to advance the run, with whatever request is pending; a run that
  was resumed in the meantime is executed instead of paused.
\<close>

theorem pause_command_pauses_once:
  assumes "good w" and "cl_settings ce = Inr s"
    and "service_pause (build_application (cl_platform ce) s) i ''local'' reason (pause_key None i reason) w = (Inr q, w1)"
    and "quiet w2" and "evolves (w_db w1) (w_db w2)"
    and "run \<in> set (db_runs (w_db w2))" and "rr_run_id run = i" and "rr_owner_id run = ''local''" and "valid_RunRecord run"
  shows "\<exists>q' w3. w_db w3 = w_db w2 \<and>
    cli_pause ce fuel i reason None json_output w2 =
      bnd (service_advance (build_application (cl_platform ce) s) fuel i ''local'' None) (\<lambda>result.
        ret (map_option (\<lambda>r. Printed (emit ce json_output (Lifecycle_Value q' (ra_run r))) 0) result)) w3"
proof -
  let ?sv = "build_application (cl_platform ce) s"
  have "durable w w1" using outcomeD[OF out_service_pause[OF assms(1)] assms(3)] .
  then have wf1: "wf_db (w_db w1)" using durable_good assms(1) good_wf by blast
  have wf2: "wf_db (w_db w2)" using assms(5) wf1 by (simp add: evolves_def)
  have "pause_filed ?sv ''local'' i reason (pause_key None i reason) (w_db w2)"
    using pause_filed_evolves[OF pause_files[OF assms(1,3)] assms(5) wf1] .
  then obtain q' where "service_pause ?sv i ''local'' reason (pause_key None i reason) w2 =
      (Inr q', w2\<lparr>w_txn := Suc (Suc (w_txn w2))\<rparr>)"
    using pause_again[OF assms(4) wf2 assms(6,9), of ?sv reason "pause_key None i reason"] pause_key_text[OF assms(3)]
      assms(7,8) by auto
  then have "cli_pause ce fuel i reason None json_output w2 =
      bnd (service_advance ?sv fuel i ''local'' None) (\<lambda>result.
        ret (map_option (\<lambda>r. Printed (emit ce json_output (Lifecycle_Value q' (ra_run r))) 0) result))
      (w2\<lparr>w_txn := Suc (Suc (w_txn w2))\<rparr>)"
    using assms(2) by (simp add: cli_pause_def with_application_def settings_for_repository_def
        request_then_advance_def bnd_def lift_sum_def)
  then show ?thesis by (intro exI[of _ q'] exI[of _ "w2\<lparr>w_txn := Suc (Suc (w_txn w2))\<rparr>"]) simp
qed

definition pausable_run :: RunRecord where
  "pausable_run = \<lparr>rr_run_id = ''r'', rr_owner_id = ''local'', rr_objective = ''x'', rr_state = R_RUNNING,
     rr_active_plan_id = None, rr_active_task_id = None, rr_repository_root = None, rr_repository_snapshot_id = None,
     rr_configuration_fingerprint = ''f'', rr_version = 1, rr_created_at = 0, rr_updated_at = 0, rr_finished_at = None\<rparr>"

definition example_cli :: cli_env where
  "example_cli = \<lparr>cl_platform = failing_platform, cl_settings = Inr default_AppSettings, cl_prepare = (\<lambda>s. Inr ()),
     cl_alembic = True, cl_checkout_ini = None, cl_installed_ini = None, cl_upgrade = (\<lambda>p. ret ()),
     cl_resolve = Inr, cl_resolve_any = id, cl_read_text = (\<lambda>p. Inr p), cl_write_text = (\<lambda>p c. Inr ()),
     cl_ping = (\<lambda>w. True), cl_schema_ready = (\<lambda>w. True), cl_python = ''3'', cl_dump = (\<lambda>v. JNull),
     cl_dumps = canonical_json, cl_dumps_indented = canonical_json, cl_py_str = canonical_json\<rparr>"

abbreviation example_sv :: service_env where
  "example_sv \<equiv> build_application failing_platform default_AppSettings"

lemma pause_key_kept: "py_strip ''pause-r-stop'' \<noteq> []"
  by code_simp

lemma first_pause:
  "yields (\<lambda>(q, rs). \<exists>run. rs = [run] \<and> rr_run_id run = ''r'' \<and> rr_owner_id run = ''local'' \<and> valid_RunRecord run)
     (bnd (service_pause example_sv ''r'' ''local'' ''stop'' (pause_key None ''r'' ''stop'')) (\<lambda>q.
      bnd (query (\<lambda>d. Inr (db_runs d))) (\<lambda>rs. ret (q, rs)))
      (calm 0 0 0 (empty_db\<lparr>db_runs := [pausable_run]\<rparr>)))"
  by (simp add: pause_key_kept service_pause_def[THEN fun_cong] owned_run_def[THEN fun_cong] get_run_def[THEN fun_cong] get_run_row_def
      run_from_row_eq find_idempotent_lifecycle_request_def[THEN fun_cong] file_request_def[THEN fun_cong]
      create_lifecycle_request_def[THEN fun_cong] mark_pausing_def[THEN fun_cong] valid_LifecycleRequest_def
      add_request_def lifecycle_row_def run_exists_def transition_run_def pausable_run_def pause_key_def given_or_def
      run_create run_creation run_resume run_rows run_checkpoints calm_simps cong: calm_cong option.case_cong)

theorem pause_command_pauses_once_witness:
  "\<exists>q q' w1 w3. service_pause example_sv ''r'' ''local'' ''stop'' (pause_key None ''r'' ''stop'')
       (calm 0 0 0 (empty_db\<lparr>db_runs := [pausable_run]\<rparr>)) = (Inr q, w1) \<and> w_db w3 = w_db w1 \<and>
     cli_pause example_cli 9 ''r'' ''stop'' None False w1 =
       bnd (service_advance example_sv 9 ''r'' ''local'' None) (\<lambda>result.
         ret (map_option (\<lambda>r. Printed (emit example_cli False (Lifecycle_Value q' (ra_run r))) 0) result)) w3"
proof -
  let ?w = "calm 0 0 0 (empty_db\<lparr>db_runs := [pausable_run]\<rparr>)"
  let ?pause = "service_pause example_sv ''r'' ''local'' ''stop'' (pause_key None ''r'' ''stop'')"
  obtain q w1 run where first: "?pause ?w = (Inr q, w1)"
    and rows: "db_runs (w_rely w1 (w_txn w1) (w_db w1)) = [run]"
    and run: "rr_run_id run = ''r''" "rr_owner_id run = ''local''" "valid_RunRecord run"
    using yieldsD[OF first_pause] by (fastforce simp: ret_def dest!: bnd_returns query_reads)
  have good: "good ?w" by (rule good_calm) (simp add: wf_db_def empty_db_def)
  have "durable ?w w1" using outcomeD[OF out_service_pause[OF good] first] .
  then have quiet: "quiet w1" using durable_quiet quiet_calm by blast
  then have "run \<in> set (db_runs (w_db w1))" using rows by (simp add: quiet_def)
  then show ?thesis
    using pause_command_pauses_once[of ?w example_cli default_AppSettings "''r''" "''stop''" q w1 w1 run 9 False]
      first good quiet run by (auto simp: example_cli_def)
qed

end
